(* ===== verification/Prelude.thy ===== *)
theory Prelude
  imports Main "HOL-Library.Sublist" "HOL-Library.Monad_Syntax"
begin

text \<open>
  Shared vocabulary of the development: the integer types of
  \<^verbatim>\<open>src/include/common/types.h\<close>, the wrap-around of the fixed-width C++ integers,
  \<^verbatim>\<open>std::string\<close> values as byte lists (a \<^typ>\<open>char\<close> is one byte), the decimal
  printing done by \<^verbatim>\<open>std::to_string\<close> with its inverse, and the generic list facts the
  component theories rely on.
\<close>

named_theorems codec_simps \<open>evaluation rules of the byte and text codecs\<close>
named_theorems session_simps \<open>effect of the session operations on the session maps\<close>
named_theorems step_intros \<open>introduction rules for invariants of step relations\<close>

section \<open>Types\<close>

text \<open>\<^verbatim>\<open>UserId\<close> and \<^verbatim>\<open>Timestamp\<close> are \<^verbatim>\<open>int64_t\<close>; \<^verbatim>\<open>ConnectionId\<close> and \<^verbatim>\<open>SeqId\<close> are
  \<^verbatim>\<open>uint64_t\<close>; tokens and the identifiers of messages, conversations and groups are strings.\<close>

type_synonym userId = int
type_synonym groupId = string
type_synonym timestamp = int
type_synonym connectionId = nat
type_synonym seqId = nat
type_synonym token = string
type_synonym messageId = string
type_synonym conversationId = string

definition int64_min :: int where
  "int64_min = - (2 ^ 63)"

definition int64_max :: int where
  "int64_max = 2 ^ 63 - 1"

definition in_int64 :: "int \<Rightarrow> bool" where
  "in_int64 x \<longleftrightarrow> int64_min \<le> x \<and> x \<le> int64_max"

definition wrap_int64 :: "int \<Rightarrow> int" where
  "wrap_int64 x = (x + 2 ^ 63) mod 2 ^ 64 - 2 ^ 63"

definition wrap_int32 :: "int \<Rightarrow> int" where
  "wrap_int32 x = (x + 2 ^ 31) mod 2 ^ 32 - 2 ^ 31"

definition wrap_uint64 :: "int \<Rightarrow> nat" where
  "wrap_uint64 x = nat (x mod 2 ^ 64)"

section \<open>Decimal text\<close>

definition byte :: "char \<Rightarrow> nat" where
  "byte c = of_char c"

definition digit_char :: "nat \<Rightarrow> char" where
  "digit_char d = char_of (48 + d)"

definition is_digit :: "char \<Rightarrow> bool" where
  "is_digit c \<longleftrightarrow> 48 \<le> byte c \<and> byte c \<le> 57"

definition digit_val :: "char \<Rightarrow> nat" where
  "digit_val c = byte c - 48"

fun nat_to_string :: "nat \<Rightarrow> string" where
  "nat_to_string n =
     (if n < 10 then [digit_char n]
      else nat_to_string (n div 10) @ [digit_char (n mod 10)])"

declare nat_to_string.simps [simp del]

definition int_to_string :: "int \<Rightarrow> string" where
  "int_to_string i =
     (if i < 0 then CHR ''-'' # nat_to_string (nat (- i)) else nat_to_string (nat i))"

definition digits_value :: "string \<Rightarrow> nat" where
  "digits_value s = foldl (\<lambda>acc c. 10 * acc + digit_val c) 0 s"

section \<open>Fixed-width integers\<close>

lemma wrap_int64_id [simp]: "in_int64 x \<Longrightarrow> wrap_int64 x = x"
  by (simp add: wrap_int64_def in_int64_def int64_min_def int64_max_def)

lemma wrap_int64_in [simp]: "in_int64 (wrap_int64 x)"
  using pos_mod_bound [of "2 ^ 64" "x + 2 ^ 63"] pos_mod_sign [of "2 ^ 64" "x + 2 ^ 63"]
  by (simp add: wrap_int64_def in_int64_def int64_min_def int64_max_def)

lemma wrap_int32_id: "- (2 ^ 31) \<le> x \<Longrightarrow> x < 2 ^ 31 \<Longrightarrow> wrap_int32 x = x"
  by (simp add: wrap_int32_def)

lemma wrap_uint64_id: "0 \<le> x \<Longrightarrow> x < 2 ^ 64 \<Longrightarrow> wrap_uint64 x = nat x"
  by (simp add: wrap_uint64_def)

lemma wrap_uint64_bound: "wrap_uint64 x < 2 ^ 64"
  using pos_mod_bound [of "2 ^ 64" x] by (simp add: wrap_uint64_def nat_less_iff)

section \<open>Bytes and decimal digits\<close>

lemma byte_bound [simp]: "byte c < 256"
  using of_char_mod_256 [of c, where ?'a = nat] mod_less_divisor [of 256 "of_char c :: nat"]
  by (simp add: byte_def)

lemma byte_inject [simp]: "byte c = byte d \<longleftrightarrow> c = d"
  by (simp add: byte_def of_char_eq_iff)

lemma byte_char_of: "n < 256 \<Longrightarrow> byte (char_of n) = n"
  by (simp add: byte_def of_char_of)

lemma char_of_byte [simp]: "char_of (byte c) = c"
  by (simp add: byte_def)

lemma byte_digit_char [simp]: "d < 10 \<Longrightarrow> byte (digit_char d) = 48 + d"
  by (simp add: digit_char_def byte_char_of)

lemma digit_val_digit_char [simp]: "d < 10 \<Longrightarrow> digit_val (digit_char d) = d"
  by (simp add: digit_val_def)

lemma is_digit_digit_char [simp]: "d < 10 \<Longrightarrow> is_digit (digit_char d)"
  by (simp add: is_digit_def)

lemma not_digit_separators [simp]:
  "\<not> is_digit (CHR ''-'')" "\<not> is_digit (CHR ''_'')" "\<not> is_digit (CHR '':'')"
  by (simp_all add: is_digit_def byte_def of_char_def)

lemma nat_to_string_nonempty [simp]: "nat_to_string n \<noteq> []"
  by (subst nat_to_string.simps) simp

lemma nat_to_string_digits: "\<forall>c \<in> set (nat_to_string n). is_digit c"
proof (induction n rule: nat_to_string.induct)
  case (1 n)
  then show ?case by (subst nat_to_string.simps) auto
qed

lemma digits_value_snoc: "digits_value (s @ [c]) = 10 * digits_value s + digit_val c"
  by (simp add: digits_value_def)

lemma digits_value_nat_to_string [simp]: "digits_value (nat_to_string n) = n"
proof (induction n rule: nat_to_string.induct)
  case (1 n)
  show ?case
  proof (cases "n < 10")
    case True
    then show ?thesis
      by (subst nat_to_string.simps) (simp add: digits_value_def)
  next
    case False
    then show ?thesis
      using 1 by (subst nat_to_string.simps) (simp add: digits_value_snoc)
  qed
qed

lemma nat_to_string_inject [simp]: "nat_to_string m = nat_to_string n \<longleftrightarrow> m = n"
  by (metis digits_value_nat_to_string)

lemma nat_to_string_hd_digit: "is_digit (hd (nat_to_string n))"
  using nat_to_string_digits [of n] hd_in_set [OF nat_to_string_nonempty] by blast

lemma int_to_string_inject [simp]: "int_to_string i = int_to_string j \<longleftrightarrow> i = j"
proof
  assume eq: "int_to_string i = int_to_string j"
  have sign: "(hd (int_to_string k) = CHR ''-'') = (k < 0)" for k
    using nat_to_string_hd_digit [of "nat k"] by (auto simp: int_to_string_def)
  have "(i < 0) = (j < 0)"
    using eq sign by metis
  then show "i = j"
    using eq by (auto simp: int_to_string_def split: if_splits)
qed simp

lemma int_to_string_no_char:
  assumes "\<not> is_digit c" "c \<noteq> CHR ''-''"
  shows "c \<notin> set (int_to_string i)"
  using assms nat_to_string_digits by (auto simp: int_to_string_def)

lemma int_to_string_nonempty [simp]: "int_to_string i \<noteq> []"
  by (simp add: int_to_string_def)

section \<open>Lists\<close>

text \<open>A separator that occurs in neither left part splits a concatenation uniquely.\<close>

lemma append_sep_inject:
  assumes "c \<notin> set a" "c \<notin> set a'" "a @ c # b = a' @ c # b'"
  shows "a = a' \<and> b = b'"
  using assms
proof (induction a arbitrary: a')
  case Nil
  then show ?case by (cases a') auto
next
  case (Cons x xs)
  then show ?case by (cases a') auto
qed

lemma sorted_wrt_filter: "sorted_wrt R xs \<Longrightarrow> sorted_wrt R (filter P xs)"
  by (induction xs) auto

lemma sorted_wrt_take: "sorted_wrt R xs \<Longrightarrow> sorted_wrt R (take n xs)"
  by (induction xs arbitrary: n) (auto simp: take_Cons split: nat.splits dest: in_set_takeD)

end
