(* ===== verification/PacketCodec.thy ===== *)
theory PacketCodec
  imports Prelude
begin

text \<open>
  Newline framing, \<^verbatim>\<open>src/src/codec/packet_codec.cc\<close>. The decoder keeps the bytes of the
  unfinished line; its specification splits the whole byte stream at newlines. The locale
  \<^verbatim>\<open>incremental_decoder\<close> is the contract a connection relies on: what a decoder delivers does not
  depend on how the stream was cut into chunks.
\<close>

section \<open>Translation\<close>

record PacketCodec =
  pc_buffer :: string

definition kMaxPacketSize :: nat where
  "kMaxPacketSize = 64 * 1024"

definition newline :: char where
  "newline = CHR 0x0A"

definition carriage_return :: char where
  "carriage_return = CHR 0x0D"

text \<open>\<^verbatim>\<open>std::string::find\<close> for one character; \<^verbatim>\<open>npos\<close> is None.\<close>

fun find_char :: "char \<Rightarrow> string \<Rightarrow> nat option" where
  "find_char c [] = None"
| "find_char c (x # xs) = (if x = c then Some 0 else map_option Suc (find_char c xs))"

definition strip_cr :: "string \<Rightarrow> string" where
  "strip_cr packet =
     (if packet \<noteq> [] \<and> last packet = carriage_return then butlast packet else packet)"

lemma find_char_bound: "find_char c s = Some pos \<Longrightarrow> pos < length s"
  by (induction s arbitrary: pos) (auto split: if_splits)

text \<open>The loop of \<^verbatim>\<open>feed\<close> and the size check behind it: the returned flag, the buffer and the
  packet vector.\<close>

function feed_loop :: "string \<Rightarrow> string list \<Rightarrow> bool \<times> string \<times> string list" where
  "feed_loop buffer packets =
     (case find_char newline buffer of
        None \<Rightarrow>
          if length buffer > kMaxPacketSize then (False, [], []) else (True, buffer, packets)
      | Some pos \<Rightarrow>
          if pos > kMaxPacketSize then (False, [], [])
          else feed_loop (drop (pos + 1) buffer) (packets @ [strip_cr (take pos buffer)]))"
  by pat_completeness auto
termination
  by (relation "measure (\<lambda>(b, _). length b)") (auto dest: find_char_bound)

declare feed_loop.simps [simp del]

definition feed :: "PacketCodec \<Rightarrow> string \<Rightarrow> bool \<times> string list \<times> PacketCodec" where
  "feed codec chunk =
     (let (success, buffer, packets) = feed_loop (pc_buffer codec @ chunk) []
      in (success, packets, codec\<lparr>pc_buffer := buffer\<rparr>))"

definition encode :: "string \<Rightarrow> string" where
  "encode payload = payload @ [newline]"

definition codec_init :: PacketCodec where
  "codec_init = \<lparr>pc_buffer = []\<rparr>"

text \<open>A reader feeds one chunk after the other and gives up on the connection at the first
  failure.\<close>

fun feed_all :: "PacketCodec \<Rightarrow> string list \<Rightarrow> (string list \<times> PacketCodec) option" where
  "feed_all codec [] = Some ([], codec)"
| "feed_all codec (chunk # chunks) =
     (case feed codec chunk of
        (False, _, _) \<Rightarrow> None
      | (True, packets, codec') \<Rightarrow>
          (case feed_all codec' chunks of
             None \<Rightarrow> None
           | Some (packets', codec'') \<Rightarrow> Some (packets @ packets', codec'')))"

section \<open>Specification: splitting a byte stream at newlines\<close>

fun split_lines :: "string \<Rightarrow> string \<Rightarrow> string list \<times> string" where
  "split_lines cur [] = ([], cur)"
| "split_lines cur (c # cs) =
     (if c = newline then (case split_lines [] cs of (ls, r) \<Rightarrow> (cur # ls, r))
      else split_lines (cur @ [c]) cs)"

definition frames :: "string \<Rightarrow> (string list \<times> string) option" where
  "frames stream =
     (case split_lines [] stream of
        (ls, r) \<Rightarrow>
          if (\<forall>l \<in> set ls. length l \<le> kMaxPacketSize) \<and> length r \<le> kMaxPacketSize
          then Some (map strip_cr ls, r) else None)"

section \<open>The contract of an incremental decoder\<close>

locale incremental_decoder =
  fixes step :: "'s \<Rightarrow> 'b list \<Rightarrow> bool \<times> 'p list \<times> 's"
    and pending :: "'s \<Rightarrow> 'b list"
    and spec :: "'b list \<Rightarrow> ('p list \<times> 'b list) option"
    and inv :: "'s \<Rightarrow> bool"
  assumes step_ok: "inv s \<Longrightarrow> step s c = (True, ps, s') \<Longrightarrow>
      spec (pending s @ c) = Some (ps, pending s') \<and> inv s'"
    and step_fail: "inv s \<Longrightarrow> step s c = (False, ps, s') \<Longrightarrow> spec (pending s @ c) = None"
    and spec_fail: "spec a = None \<Longrightarrow> spec (a @ b) = None"
    and spec_ok: "spec a = Some (ps, r) \<Longrightarrow>
      spec (a @ b) = (case spec (r @ b) of None \<Rightarrow> None | Some (qs, r') \<Rightarrow> Some (ps @ qs, r'))"
    and spec_idle: "inv s \<Longrightarrow> spec (pending s) = Some ([], pending s)"
begin

primrec run :: "'s \<Rightarrow> 'b list list \<Rightarrow> ('p list \<times> 's) option" where
  "run s [] = Some ([], s)"
| "run s (c # cs) =
     (case step s c of
        (False, _, _) \<Rightarrow> None
      | (True, ps, s') \<Rightarrow>
          (case run s' cs of None \<Rightarrow> None | Some (qs, s'') \<Rightarrow> Some (ps @ qs, s'')))"

lemma run_spec:
  assumes "inv s"
  shows "spec (pending s @ concat cs) = map_option (map_prod id pending) (run s cs)"
  using assms
proof (induction cs arbitrary: s)
  case Nil
  then show ?case by (simp add: spec_idle)
next
  case (Cons c cs)
  obtain success ps s' where st: "step s c = (success, ps, s')"
    by (cases "step s c") auto
  show ?case
  proof (cases success)
    case True
    with st step_ok [OF Cons.prems, of c ps s']
    have s': "spec (pending s @ c) = Some (ps, pending s')" "inv s'"
      by auto
    then show ?thesis
      using spec_ok [OF s'(1), of "concat cs"] Cons.IH [OF s'(2)] st True
      by (auto split: option.splits)
  next
    case False
    with st step_fail [OF Cons.prems, of c ps s'] show ?thesis
      using spec_fail [of "pending s @ c" "concat cs"] by simp
  qed
qed

text \<open>Two ways to cut the same bytes deliver the same packets and leave the same pending
  bytes.\<close>

lemma run_chunking:
  assumes "inv s" "concat cs = concat ds"
  shows "map_option (map_prod id pending) (run s cs) = map_option (map_prod id pending) (run s ds)"
  using run_spec [OF assms(1), of cs] run_spec [OF assms(1), of ds] assms(2) by simp

end

section \<open>The codec implements the contract\<close>

lemma find_char_None: "find_char c s = None \<longleftrightarrow> c \<notin> set s"
  by (induction s) auto

lemma find_char_Some:
  "find_char c s = Some pos \<Longrightarrow> c \<notin> set (take pos s) \<and> s = take pos s @ c # drop (pos + 1) s"
  by (induction s arbitrary: pos) (auto split: if_splits)

lemma split_lines_no_newline [simp]:
  "newline \<notin> set a \<Longrightarrow> split_lines cur a = ([], cur @ a)"
  by (induction a arbitrary: cur) auto

lemma split_lines_newline:
  "newline \<notin> set a \<Longrightarrow>
     split_lines cur (a @ newline # b) = (case split_lines [] b of (ls, r) \<Rightarrow> ((cur @ a) # ls, r))"
  by (induction a arbitrary: cur) auto

lemma split_lines_append:
  "split_lines cur (a @ b) =
     (case split_lines cur a of (ls, r) \<Rightarrow>
        case split_lines r b of (ls', r') \<Rightarrow> (ls @ ls', r'))"
  by (induction a arbitrary: cur) (auto split: prod.splits)

lemma split_lines_rest:
  "split_lines cur s = (ls, r) \<Longrightarrow> newline \<notin> set cur \<Longrightarrow> newline \<notin> set r"
  by (induction s arbitrary: cur ls) (auto split: if_splits prod.splits)

lemma split_lines_grows:
  "split_lines cur s = (ls, r) \<Longrightarrow>
     (case ls of [] \<Rightarrow> length cur \<le> length r | l # _ \<Rightarrow> length cur \<le> length l)"
  by (induction s arbitrary: cur ls) (force split: if_splits prod.splits list.splits)+

lemma split_lines_start:
  "newline \<notin> set r \<Longrightarrow> split_lines [] (r @ b) = split_lines r b"
  by (simp add: split_lines_append split: prod.splits)

lemma feed_loop_frames:
  "feed_loop buffer packets =
     (case frames buffer of
        None \<Rightarrow> (False, [], [])
      | Some (ps, r) \<Rightarrow> (True, r, packets @ ps))"
proof (induction buffer packets rule: feed_loop.induct)
  case (1 buffer packets)
  show ?case
  proof (cases "find_char newline buffer")
    case None
    moreover from this have "newline \<notin> set buffer"
      by (simp add: find_char_None)
    ultimately show ?thesis
      by (subst feed_loop.simps) (simp add: frames_def)
  next
    case (Some pos)
    define l where "l = take pos buffer"
    define b where "b = drop (pos + 1) buffer"
    have l: "newline \<notin> set l" "buffer = l @ newline # b" "length l = pos"
      using find_char_Some [OF Some] find_char_bound [OF Some] by (auto simp: l_def b_def)
    have "frames buffer =
        (if pos > kMaxPacketSize then None
         else case frames b of None \<Rightarrow> None | Some (ps, r) \<Rightarrow> Some (strip_cr l # ps, r))"
      using l by (auto simp: frames_def split_lines_newline split: prod.splits)
    then show ?thesis
      using Some "1.IH" [OF Some]
      by (subst feed_loop.simps) (simp add: l_def b_def split: option.splits)
  qed
qed

lemma feed_frames:
  "feed codec chunk =
     (case frames (pc_buffer codec @ chunk) of
        None \<Rightarrow> (False, [], codec\<lparr>pc_buffer := []\<rparr>)
      | Some (ps, r) \<Rightarrow> (True, ps, codec\<lparr>pc_buffer := r\<rparr>))"
  by (simp add: feed_def feed_loop_frames split: option.splits prod.splits)

text \<open>Between two reads the buffer holds no newline and at most \<^verbatim>\<open>kMaxPacketSize\<close> bytes.\<close>

definition codec_inv :: "PacketCodec \<Rightarrow> bool" where
  "codec_inv codec \<longleftrightarrow>
     newline \<notin> set (pc_buffer codec) \<and> length (pc_buffer codec) \<le> kMaxPacketSize"

lemma frames_rest:
  "frames s = Some (ps, r) \<Longrightarrow> newline \<notin> set r \<and> length r \<le> kMaxPacketSize"
  using split_lines_rest [of "[]" s] by (auto simp: frames_def split: prod.splits if_splits)

lemma frames_append_ok:
  assumes "frames a = Some (ps, r)"
  shows "frames (a @ b) =
    (case frames (r @ b) of None \<Rightarrow> None | Some (qs, r') \<Rightarrow> Some (ps @ qs, r'))"
  using assms frames_rest [OF assms]
  by (auto simp: frames_def split_lines_append [of "[]" a] split_lines_start
      split: prod.splits if_splits)

lemma frames_append_fail:
  assumes "frames a = None"
  shows "frames (a @ b) = None"
proof -
  obtain ls r where a: "split_lines [] a = (ls, r)"
    by fastforce
  obtain ls' r' where b: "split_lines r b = (ls', r')"
    by fastforce
  show ?thesis
    using assms split_lines_grows [OF b]
    by (auto simp: frames_def split_lines_append a b split: if_splits list.splits)
qed

interpretation packet: incremental_decoder feed pc_buffer frames codec_inv
proof unfold_locales
  fix s s' :: PacketCodec and c ps
  show "frames (pc_buffer s @ c) = Some (ps, pc_buffer s') \<and> codec_inv s'"
    if "feed s c = (True, ps, s')"
    using that frames_rest [of "pc_buffer s @ c"]
    by (auto simp: feed_frames codec_inv_def split: option.splits prod.splits)
  show "frames (pc_buffer s @ c) = None" if "feed s c = (False, ps, s')"
    using that by (auto simp: feed_frames split: option.splits prod.splits)
next
  show "frames (pc_buffer s) = Some ([], pc_buffer s)" if "codec_inv s" for s
    using that by (simp add: codec_inv_def frames_def)
qed (use frames_append_ok frames_append_fail in auto)

lemma feed_all_run: "feed_all codec chunks = packet.run codec chunks"
  by (induction chunks arbitrary: codec) (auto split: bool.splits prod.splits)

lemma codec_init_inv [simp]: "codec_inv codec_init" "pc_buffer codec_init = []"
  by (simp_all add: codec_inv_def codec_init_def)

lemma feed_all_frames:
  "feed_all codec_init chunks =
     map_option (\<lambda>(ps, r). (ps, \<lparr>pc_buffer = r\<rparr>)) (frames (concat chunks))"
  using packet.run_spec [of codec_init chunks]
  by (cases "packet.run codec_init chunks") (auto simp: feed_all_run)

lemma frames_encoded:
  assumes "\<forall>p \<in> set ps. newline \<notin> set p \<and> length p \<le> kMaxPacketSize"
  shows "frames (concat (map encode ps)) = Some (map strip_cr ps, [])"
proof -
  have "split_lines [] (concat (map encode ps)) = (ps, [])"
    using assms by (induction ps) (auto simp: encode_def split_lines_newline)
  then show ?thesis
    using assms by (simp add: frames_def)
qed

section \<open>Properties\<close>

text \<open>C15. \<^verbatim>\<open>feed\<close> refines the line-splitting specification: it fails exactly when some line
  of the accumulated bytes, finished or not, is longer than \<^verbatim>\<open>kMaxPacketSize\<close> (and then clears
  its buffer and the packets), otherwise it delivers the finished lines without their carriage
  return and keeps exactly the unfinished one.\<close>

theorem feed_refines_frames:
  "feed codec chunk =
     (case frames (pc_buffer codec @ chunk) of
        None \<Rightarrow> (False, [], codec\<lparr>pc_buffer := []\<rparr>)
      | Some (ps, r) \<Rightarrow> (True, ps, codec\<lparr>pc_buffer := r\<rparr>))"
  by (rule feed_frames)

text \<open>The packets a fresh codec delivers, whether it fails, and what it still buffers
  depend only on the bytes received, not on how \<^verbatim>\<open>recv\<close> cut them into chunks; what it buffers
  after a success never contains a newline and never exceeds the limit.\<close>

theorem feed_chunking_invariant:
  "feed_all codec_init chunks = feed_all codec_init [concat chunks] \<and>
   (case feed_all codec_init chunks of
      None \<Rightarrow> True
    | Some (_, codec) \<Rightarrow> codec_inv codec)"
proof
  show "feed_all codec_init chunks = feed_all codec_init [concat chunks]"
    by (simp only: feed_all_frames concat.simps append_Nil2)
  show "case feed_all codec_init chunks of None \<Rightarrow> True | Some (_, codec) \<Rightarrow> codec_inv codec"
    using frames_rest by (auto simp: feed_all_frames codec_inv_def split: option.splits)
qed

text \<open>Round trip: payloads without a newline and without a trailing carriage return that
  fit the limit are delivered unchanged and in order from their concatenated encodings, whatever
  the chunks, and nothing stays in the buffer.\<close>

theorem encode_feed_roundtrip:
  assumes "\<forall>p \<in> set ps. newline \<notin> set p \<and> length p \<le> kMaxPacketSize \<and>
      (p = [] \<or> last p \<noteq> carriage_return)"
    and "concat chunks = concat (map encode ps)"
  shows "feed_all codec_init chunks = Some (ps, codec_init)"
proof -
  have "map strip_cr ps = ps"
    using assms(1) by (intro map_idI) (auto simp: strip_cr_def)
  then show ?thesis
    using assms frames_encoded [of ps] by (subst feed_all_frames) (simp add: codec_init_def)
qed

theorem encode_feed_roundtrip_witness:
  "feed_all codec_init [''pi'', ''ng'', [newline] @ ''po'', ''ng'' @ [newline]] =
     Some ([''ping'', ''pong''], codec_init)"
  by (rule encode_feed_roundtrip)
    (simp_all add: newline_def carriage_return_def kMaxPacketSize_def encode_def)

end
