(* ===== verification/ConnectionContext.thy ===== *)
theory ConnectionContext
  imports PacketCodec
begin

text \<open>
  One client connection: the socket wrapper of \<^verbatim>\<open>src/src/TcpConnection.cc\<close> and the per-connection
  state of \<^verbatim>\<open>src/src/ConnectionContext.cc\<close> (send buffer, packet codec, request serialisation,
  delivery fence, statistics). Each method runs under the connection's mutex or on the I/O
  thread alone, so it is one atomic state change here. Clock readings are arguments; \<^verbatim>\<open>::recv\<close>,
  \<^verbatim>\<open>::send\<close> and \<^verbatim>\<open>::close\<close> are system calls whose results are arguments. The inductive relation
  \<^verbatim>\<open>serial_step\<close> interleaves the methods in any order the server can call them.
\<close>

section \<open>TcpConnection\<close>

record TcpConnection =
  conn_fd :: int
  peer_ip :: string
  peer_port :: nat

definition tcp_isValid :: "TcpConnection \<Rightarrow> bool" where
  "tcp_isValid c \<longleftrightarrow> conn_fd c \<noteq> - 1"

text \<open>\<^verbatim>\<open>close\<close> reports the descriptor passed to \<^verbatim>\<open>::close\<close>, if any.\<close>

definition tcp_close :: "TcpConnection \<Rightarrow> int option \<times> TcpConnection" where
  "tcp_close c = (if tcp_isValid c then (Some (conn_fd c), c\<lparr>conn_fd := - 1\<rparr>) else (None, c))"

definition tcp_recv :: "TcpConnection \<Rightarrow> int \<Rightarrow> int" where
  "tcp_recv c sys_result = (if \<not> tcp_isValid c then - 1 else sys_result)"

definition tcp_sendSome :: "TcpConnection \<Rightarrow> int \<Rightarrow> int" where
  "tcp_sendSome c sys_result = (if \<not> tcp_isValid c then - 1 else sys_result)"

definition tcp_releaseFd :: "TcpConnection \<Rightarrow> int \<times> TcpConnection" where
  "tcp_releaseFd c = (conn_fd c, c\<lparr>conn_fd := - 1\<rparr>)"

definition tcp_reset :: "TcpConnection \<Rightarrow> int \<Rightarrow> int option \<times> TcpConnection" where
  "tcp_reset c fd =
     (if conn_fd c = fd then (None, c)
      else (let (closed, c') = tcp_close c in (closed, c'\<lparr>conn_fd := fd\<rparr>)))"

text \<open>The move constructor and move assignment: the new owner, the emptied source and the
  descriptor closed on the way.\<close>

definition tcp_moved_from :: TcpConnection where
  "tcp_moved_from = \<lparr>conn_fd = - 1, peer_ip = [], peer_port = 0\<rparr>"

definition tcp_move :: "TcpConnection \<Rightarrow> TcpConnection \<times> TcpConnection" where
  "tcp_move other = (other, tcp_moved_from)"

definition tcp_move_assign ::
  "TcpConnection \<Rightarrow> TcpConnection \<Rightarrow> int option \<times> TcpConnection \<times> TcpConnection" where
  "tcp_move_assign self other =
     (let (closed, _) = tcp_close self in (closed, other, tcp_moved_from))"

section \<open>ConnectionContext\<close>

datatype ConnState = CONNECTED | CLOSING | CLOSED

record ConnectionMeta =
  meta_conn_id :: connectionId
  meta_fd :: int
  meta_peer_ip :: string
  meta_peer_port :: nat
  connected_at :: int
  last_recv_at :: int
  last_send_at :: int
  last_active_at :: int
  authenticated_user_id :: userId
  recv_count :: nat
  send_count :: nat
  recv_bytes :: nat
  sent_bytes :: nat
  meta_state :: ConnState

record ConnectionContext =
  connection :: TcpConnection
  ctx_conn_id :: connectionId
  pending_send :: string
  packet_codec :: PacketCodec
  meta :: ConnectionMeta
  request_in_flight :: bool
  pending_requests :: "string list"
  pending_delivery_marks :: int

definition ConnectionContext_new :: "TcpConnection \<Rightarrow> connectionId \<Rightarrow> int \<Rightarrow> ConnectionContext" where
  "ConnectionContext_new conn cid now =
     \<lparr>connection = conn, ctx_conn_id = cid, pending_send = [], packet_codec = codec_init,
      meta = \<lparr>meta_conn_id = cid, meta_fd = conn_fd conn, meta_peer_ip = peer_ip conn,
        meta_peer_port = peer_port conn, connected_at = now, last_recv_at = now,
        last_send_at = now, last_active_at = now, authenticated_user_id = 0, recv_count = 0,
        send_count = 0, recv_bytes = 0, sent_bytes = 0, meta_state = CONNECTED\<rparr>,
      request_in_flight = False, pending_requests = [], pending_delivery_marks = 0\<rparr>"

definition ctx_fd :: "ConnectionContext \<Rightarrow> int" where
  "ctx_fd c = conn_fd (connection c)"

definition touchOnPacket :: "int \<Rightarrow> ConnectionContext \<Rightarrow> ConnectionContext" where
  "touchOnPacket now c = c\<lparr>meta := (meta c)\<lparr>last_active_at := now\<rparr>\<rparr>"

text \<open>The statistics are 32-bit counters and 64-bit byte counts; both wrap.\<close>

definition touchOnRecv :: "int \<Rightarrow> nat \<Rightarrow> ConnectionContext \<Rightarrow> ConnectionContext" where
  "touchOnRecv now bytes c =
     c\<lparr>meta := (meta c)\<lparr>last_recv_at := now,
        recv_count := (recv_count (meta c) + 1) mod 2 ^ 32,
        recv_bytes := (recv_bytes (meta c) + bytes) mod 2 ^ 64\<rparr>\<rparr>"

definition touchOnSend :: "int \<Rightarrow> nat \<Rightarrow> ConnectionContext \<Rightarrow> ConnectionContext" where
  "touchOnSend now bytes c =
     c\<lparr>meta := (meta c)\<lparr>last_send_at := now,
        send_count := (send_count (meta c) + 1) mod 2 ^ 32,
        sent_bytes := (sent_bytes (meta c) + bytes) mod 2 ^ 64\<rparr>\<rparr>"

text \<open>\<^verbatim>\<open>feedPacketData\<close> starts scanning at the size the packet vector had on entry, although
  \<^verbatim>\<open>feed\<close> replaces the vector; the server always passes an empty one.\<close>

definition feedPacketData ::
  "int \<Rightarrow> ConnectionContext \<Rightarrow> string \<Rightarrow> string list \<Rightarrow> bool \<times> string list \<times> ConnectionContext" where
  "feedPacketData now c chunk packets =
     (let previous_size = length packets;
          (success, packets', codec') = feed (packet_codec c) chunk;
          c' = c\<lparr>packet_codec := codec'\<rparr>
      in if \<not> success then (False, packets', c')
         else if list_ex (\<lambda>p. p \<noteq> []) (drop previous_size packets')
              then (True, packets', touchOnPacket now c')
              else (True, packets', c'))"

definition appendPendingSend :: "string \<Rightarrow> ConnectionContext \<Rightarrow> ConnectionContext" where
  "appendPendingSend data c = c\<lparr>pending_send := pending_send c @ data\<rparr>"

definition hasPendingSend :: "ConnectionContext \<Rightarrow> bool" where
  "hasPendingSend c \<longleftrightarrow> pending_send c \<noteq> []"

definition peekPendingSend :: "ConnectionContext \<Rightarrow> bool \<times> string" where
  "peekPendingSend c = (if pending_send c = [] then (False, []) else (True, pending_send c))"

definition consumePendingSend :: "nat \<Rightarrow> ConnectionContext \<Rightarrow> ConnectionContext" where
  "consumePendingSend bytes c =
     (if bytes = 0 then c
      else if bytes \<ge> length (pending_send c) then c\<lparr>pending_send := []\<rparr>
      else c\<lparr>pending_send := drop bytes (pending_send c)\<rparr>)"

definition clearPendingSend :: "ConnectionContext \<Rightarrow> ConnectionContext" where
  "clearPendingSend c = c\<lparr>pending_send := []\<rparr>"

definition startRequestOrQueue :: "string \<Rightarrow> ConnectionContext \<Rightarrow> bool \<times> ConnectionContext" where
  "startRequestOrQueue request c =
     (if \<not> request_in_flight c \<and> pending_requests c = [] \<and> pending_delivery_marks c = 0
      then (True, c\<lparr>request_in_flight := True\<rparr>)
      else (False, c\<lparr>pending_requests := pending_requests c @ [request]\<rparr>))"

text \<open>The two pop operations return the request handed to the worker, or None for false.\<close>

definition finishRequestAndPopNext :: "ConnectionContext \<Rightarrow> string option \<times> ConnectionContext" where
  "finishRequestAndPopNext c =
     (if pending_requests c = [] \<or> pending_delivery_marks c > 0
      then (None, c\<lparr>request_in_flight := False\<rparr>)
      else (Some (hd (pending_requests c)),
            c\<lparr>pending_requests := tl (pending_requests c), request_in_flight := True\<rparr>))"

definition popNextRequestIfIdle :: "ConnectionContext \<Rightarrow> string option \<times> ConnectionContext" where
  "popNextRequestIfIdle c =
     (if request_in_flight c \<or> pending_requests c = [] \<or> pending_delivery_marks c > 0
      then (None, c)
      else (Some (hd (pending_requests c)),
            c\<lparr>pending_requests := tl (pending_requests c), request_in_flight := True\<rparr>))"

definition clearPendingRequests :: "ConnectionContext \<Rightarrow> ConnectionContext" where
  "clearPendingRequests c = c\<lparr>request_in_flight := False, pending_requests := []\<rparr>"

definition incrementPendingDeliveryMarks :: "ConnectionContext \<Rightarrow> ConnectionContext" where
  "incrementPendingDeliveryMarks c = c\<lparr>pending_delivery_marks := pending_delivery_marks c + 1\<rparr>"

definition decrementPendingDeliveryMarks :: "ConnectionContext \<Rightarrow> ConnectionContext" where
  "decrementPendingDeliveryMarks c = c\<lparr>pending_delivery_marks := pending_delivery_marks c - 1\<rparr>"

definition shouldDeferTimeout :: "ConnectionContext \<Rightarrow> bool" where
  "shouldDeferTimeout c \<longleftrightarrow>
     request_in_flight c \<or> pending_requests c \<noteq> [] \<or> pending_delivery_marks c > 0 \<or>
     pending_send c \<noteq> []"

definition setAuthenticatedUserId :: "userId \<Rightarrow> ConnectionContext \<Rightarrow> ConnectionContext" where
  "setAuthenticatedUserId uid c = c\<lparr>meta := (meta c)\<lparr>authenticated_user_id := uid\<rparr>\<rparr>"

definition clearAuthenticatedUserId :: "ConnectionContext \<Rightarrow> ConnectionContext" where
  "clearAuthenticatedUserId c = c\<lparr>meta := (meta c)\<lparr>authenticated_user_id := 0\<rparr>\<rparr>"

definition markClosing :: "ConnectionContext \<Rightarrow> ConnectionContext" where
  "markClosing c = c\<lparr>meta := (meta c)\<lparr>meta_state := CLOSING\<rparr>\<rparr>"

definition markClosed :: "ConnectionContext \<Rightarrow> ConnectionContext" where
  "markClosed c = c\<lparr>meta := (meta c)\<lparr>meta_state := CLOSED\<rparr>\<rparr>"

lemmas ctx_defs = ctx_fd_def touchOnPacket_def touchOnRecv_def touchOnSend_def
  appendPendingSend_def hasPendingSend_def peekPendingSend_def consumePendingSend_def
  clearPendingSend_def startRequestOrQueue_def finishRequestAndPopNext_def
  popNextRequestIfIdle_def clearPendingRequests_def incrementPendingDeliveryMarks_def
  decrementPendingDeliveryMarks_def shouldDeferTimeout_def setAuthenticatedUserId_def
  clearAuthenticatedUserId_def markClosing_def markClosed_def

section \<open>Interleavings of the request operations\<close>

text \<open>The state of the relation is the connection together with the ghost history: the requests
  submitted by the peer, those handed to a worker, and how many of these were completed. The I/O
  thread submits and resumes, a worker completion is reported only for a request in flight, and
  a fence is removed only where one was set.\<close>

type_synonym serial_state = "ConnectionContext \<times> string list \<times> string list \<times> nat"

inductive serial_step :: "serial_state \<Rightarrow> serial_state \<Rightarrow> bool" where
  submit: "startRequestOrQueue r c = (now, c') \<Longrightarrow>
    serial_step (c, sub, started, fin) (c', sub @ [r], if now then started @ [r] else started, fin)"
| finish: "request_in_flight c \<Longrightarrow> finishRequestAndPopNext c = (nxt, c') \<Longrightarrow>
    serial_step (c, sub, started, fin) (c', sub, started @ (case nxt of None \<Rightarrow> [] | Some r \<Rightarrow> [r]), Suc fin)"
| resume: "popNextRequestIfIdle c = (nxt, c') \<Longrightarrow>
    serial_step (c, sub, started, fin) (c', sub, started @ (case nxt of None \<Rightarrow> [] | Some r \<Rightarrow> [r]), fin)"
| fence: "serial_step (c, sub, started, fin) (incrementPendingDeliveryMarks c, sub, started, fin)"
| unfence: "0 < pending_delivery_marks c \<Longrightarrow>
    serial_step (c, sub, started, fin) (decrementPendingDeliveryMarks c, sub, started, fin)"

inductive serial_reach :: "TcpConnection \<Rightarrow> connectionId \<Rightarrow> int \<Rightarrow> serial_state \<Rightarrow> bool"
  for conn cid now where
  init: "serial_reach conn cid now (ConnectionContext_new conn cid now, [], [], 0)"
| step: "serial_reach conn cid now s \<Longrightarrow> serial_step s s' \<Longrightarrow> serial_reach conn cid now s'"

inductive_cases serial_stepE: "serial_step (c, sub, started, fin) s'"

definition serial_inv :: "serial_state \<Rightarrow> bool" where
  "serial_inv = (\<lambda>(c, sub, started, fin).
     sub = started @ pending_requests c \<and>
     length started = fin + (if request_in_flight c then 1 else 0) \<and>
     0 \<le> pending_delivery_marks c)"

lemma serial_inv_step:
  assumes "serial_step s s'" "serial_inv s"
  shows "serial_inv s'"
  using assms
  by (induction rule: serial_step.induct)
    (auto simp: serial_inv_def ctx_defs split: if_splits)

lemma serial_inv_reach: "serial_reach conn cid now s \<Longrightarrow> serial_inv s"
proof (induction rule: serial_reach.induct)
  case init
  show ?case by (simp add: serial_inv_def ConnectionContext_new_def)
next
  case (step s s')
  then show ?case by (blast intro: serial_inv_step)
qed

lemma serial_step_starts:
  assumes "serial_step (c, sub, started, fin) (c', sub', started', fin')"
    and "serial_inv (c, sub, started, fin)"
  shows "started' = started \<or>
    (pending_delivery_marks c = 0 \<and> fin' = length started \<and> request_in_flight c' \<and>
     (\<exists>r. started' = started @ [r] \<and> r = sub' ! length started))"
  using assms
  by (cases rule: serial_step.cases)
    (auto simp: serial_inv_def ctx_defs nth_append hd_conv_nth split: if_splits)

section \<open>Properties\<close>

text \<open>C16. Requests of one connection are served one at a time and in arrival order: in every
  reachable interleaving of submissions, completions, resumptions and delivery fences the
  requests handed to a worker, followed by the queue, are exactly the submitted ones in order,
  and at most one is in flight, the flag telling which.\<close>

theorem requests_fifo_one_in_flight:
  assumes "serial_reach conn cid now (c, submitted, started, finished)"
  shows "submitted = started @ pending_requests c \<and>
    length started = finished + (if request_in_flight c then 1 else 0)"
  using serial_inv_reach [OF assms] by (simp add: serial_inv_def)

theorem requests_fifo_one_in_flight_witness:
  "let conn = \<lparr>conn_fd = 7, peer_ip = ''10.0.0.1'', peer_port = 4000\<rparr>;
       c = snd (startRequestOrQueue ''b''
             (snd (startRequestOrQueue ''a'' (ConnectionContext_new conn 1 0))))
   in [''a'', ''b''] = [''a''] @ pending_requests c \<and>
      length [''a''] = 0 + (if request_in_flight c then 1 else 0)"
proof -
  define conn where "conn = \<lparr>conn_fd = 7, peer_ip = ''10.0.0.1'', peer_port = 4000\<rparr>"
  define c1 where "c1 = snd (startRequestOrQueue ''a'' (ConnectionContext_new conn 1 0))"
  define c2 where "c2 = snd (startRequestOrQueue ''b'' c1)"
  have "startRequestOrQueue ''a'' (ConnectionContext_new conn 1 0) = (True, c1)"
    by (simp add: c1_def startRequestOrQueue_def ConnectionContext_new_def)
  then have "serial_reach conn 1 0 (c1, [''a''], [''a''], 0)"
    using serial_reach.step [OF serial_reach.init [of conn 1 0] serial_step.submit] by fastforce
  moreover have "startRequestOrQueue ''b'' c1 = (False, c2)"
    by (simp add: c1_def c2_def startRequestOrQueue_def ConnectionContext_new_def)
  ultimately have "serial_reach conn 1 0 (c2, [''a'', ''b''], [''a''], 0)"
    using serial_reach.step [OF _ serial_step.submit] by fastforce
  from requests_fifo_one_in_flight [OF this] show ?thesis
    by (simp add: c1_def c2_def conn_def)
qed

text \<open>The delivery fence holds: in a reachable state a step hands a request to a worker only
  while no delivery mark is outstanding and after everything started before has completed, and
  the request it starts is the next one in arrival order.\<close>

theorem delivery_fence_blocks:
  assumes "serial_reach conn cid now (c, sub, started, fin)"
    and "serial_step (c, sub, started, fin) (c', sub', started', fin')"
    and "started' \<noteq> started"
  shows "pending_delivery_marks c = 0 \<and> fin' = length started \<and> request_in_flight c' \<and>
    started' = started @ [sub' ! length started]"
  using serial_step_starts [OF assms(2) serial_inv_reach [OF assms(1)]] assms(3) by auto

theorem delivery_fence_blocks_witness:
  "let conn = \<lparr>conn_fd = 7, peer_ip = ''10.0.0.1'', peer_port = 4000\<rparr>;
       c = ConnectionContext_new conn 1 0;
       c' = snd (startRequestOrQueue ''a'' c)
   in pending_delivery_marks c = 0 \<and> (0 :: nat) = length ([] :: string list) \<and>
      request_in_flight c' \<and> [''a''] = [] @ [[''a''] ! length ([] :: string list)]"
proof -
  define conn where "conn = \<lparr>conn_fd = 7, peer_ip = ''10.0.0.1'', peer_port = 4000\<rparr>"
  define c where "c = ConnectionContext_new conn 1 0"
  have reach: "serial_reach conn 1 0 (c, [], [], 0)"
    unfolding c_def by (rule serial_reach.init)
  have step: "serial_step (c, [], [], 0) (snd (startRequestOrQueue ''a'' c), [''a''], [''a''], 0)"
    using serial_step.submit [of "''a''" c True "snd (startRequestOrQueue ''a'' c)" "[]" "[]" 0]
    by (simp add: c_def startRequestOrQueue_def ConnectionContext_new_def)
  show ?thesis
    using delivery_fence_blocks [OF reach step] by (simp add: c_def conn_def Let_def)
qed

end
