(* ===== verification/Models.thy ===== *)
theory Models
  imports Prelude
begin

text \<open>
  The plain data of the server: the wire error codes, the rows the repositories hand to the
  services (\<^verbatim>\<open>src/include/model\<close>) and the requests and responses of the protocol
  (\<^verbatim>\<open>src/include/protocol\<close>). A C++ struct is a record whose fields carry a short prefix, since
  field names of Isabelle records share one name space; the field order is that of the struct.
  The status enumerations come with their storage and protocol conversions.
\<close>

section \<open>Error codes\<close>

datatype ErrorCode =
    OK | INVALID_PARAM | INVALID_JSON | INVALID_PACKET | UNKNOWN_MESSAGE_TYPE
  | USER_ALREADY_EXISTS | USER_NOT_FOUND | WRONG_PASSWORD | INVALID_CREDENTIALS
  | USER_ALREADY_ONLINE
  | DB_INIT_FAILED | DB_QUERY_FAILED | DB_INSERT_FAILED
  | MESSAGE_TOO_LONG | USER_NOT_ONLINE | CANNOT_SEND_TO_SELF | NOT_LOGGED_IN
  | IDEMPOTENCY_CONFLICT | RATE_LIMITED
  | FRIEND_REQUEST_ALREADY_EXISTS | FRIENDSHIP_ALREADY_EXISTS | FRIEND_REQUEST_NOT_FOUND
  | FRIENDSHIP_NOT_FOUND | FRIENDSHIP_BLOCKED
  | GROUP_NOT_FOUND | GROUP_MEMBER_ALREADY_EXISTS | PERMISSION_DENIED
  | INTERNAL_ERROR

text \<open>The value \<^verbatim>\<open>static_cast<int>\<close> puts on the wire.\<close>

primrec error_value :: "ErrorCode \<Rightarrow> int" where
  "error_value OK = 0"
| "error_value INVALID_PARAM = 1"
| "error_value INVALID_JSON = 2"
| "error_value INVALID_PACKET = 3"
| "error_value UNKNOWN_MESSAGE_TYPE = 4"
| "error_value USER_ALREADY_EXISTS = 1001"
| "error_value USER_NOT_FOUND = 1002"
| "error_value WRONG_PASSWORD = 1003"
| "error_value INVALID_CREDENTIALS = 1004"
| "error_value USER_ALREADY_ONLINE = 1005"
| "error_value DB_INIT_FAILED = 2001"
| "error_value DB_QUERY_FAILED = 2002"
| "error_value DB_INSERT_FAILED = 2003"
| "error_value MESSAGE_TOO_LONG = 3001"
| "error_value USER_NOT_ONLINE = 3002"
| "error_value CANNOT_SEND_TO_SELF = 3003"
| "error_value NOT_LOGGED_IN = 3004"
| "error_value IDEMPOTENCY_CONFLICT = 3005"
| "error_value RATE_LIMITED = 3006"
| "error_value FRIEND_REQUEST_ALREADY_EXISTS = 4001"
| "error_value FRIENDSHIP_ALREADY_EXISTS = 4002"
| "error_value FRIEND_REQUEST_NOT_FOUND = 4003"
| "error_value FRIENDSHIP_NOT_FOUND = 4004"
| "error_value FRIENDSHIP_BLOCKED = 4005"
| "error_value GROUP_NOT_FOUND = 5001"
| "error_value GROUP_MEMBER_ALREADY_EXISTS = 5002"
| "error_value PERMISSION_DENIED = 5003"
| "error_value INTERNAL_ERROR = 9001"

section \<open>Rows of the domain model\<close>

record ConnectionSession =
  cs_authenticated :: bool
  cs_user_id :: userId
  cs_username :: string
  cs_token :: token

record UserRecord =
  u_id :: userId
  u_username :: string
  u_password_hash :: string
  u_nickname :: string
  u_status :: int
  u_created_at :: string
  u_updated_at :: string

datatype MessageStatus = kStored | kDelivered | kRead

primrec ToStorageMessageStatus :: "MessageStatus \<Rightarrow> int" where
  "ToStorageMessageStatus kStored = 0"
| "ToStorageMessageStatus kDelivered = 1"
| "ToStorageMessageStatus kRead = 2"

definition ToProtocolMessageStatus :: "MessageStatus \<Rightarrow> int" where
  "ToProtocolMessageStatus status = ToStorageMessageStatus status"

definition ParseMessageStatus :: "int \<Rightarrow> MessageStatus option" where
  "ParseMessageStatus raw_status =
     (if raw_status = 0 then Some kStored
      else if raw_status = 1 then Some kDelivered
      else if raw_status = 2 then Some kRead
      else None)"

definition CanTransitionMessageStatus :: "MessageStatus \<Rightarrow> MessageStatus \<Rightarrow> bool" where
  "CanTransitionMessageStatus f t =
     (if f = t then f = kDelivered \<or> f = kRead
      else if f = kStored then t = kDelivered \<or> t = kRead
      else f = kDelivered \<and> t = kRead)"

record MessageRecord =
  m_id :: messageId
  m_conversation_id :: conversationId
  m_client_msg_id :: string
  m_sequence :: int
  m_from_user_id :: userId
  m_to_user_id :: userId
  m_content :: string
  m_status :: MessageStatus
  m_created_at :: timestamp
  m_delivered_at :: timestamp
  m_read_at :: timestamp

record ConversationRecord =
  c_id :: conversationId
  c_type :: string
  c_single_chat_key :: string
  c_created_at :: string
  c_updated_at :: string

datatype FriendshipStatus = kPending | kAccepted | kBlocked

primrec ToStorageFriendshipStatus :: "FriendshipStatus \<Rightarrow> string" where
  "ToStorageFriendshipStatus kPending = ''pending''"
| "ToStorageFriendshipStatus kAccepted = ''accepted''"
| "ToStorageFriendshipStatus kBlocked = ''blocked''"

definition ToProtocolFriendshipStatus :: "FriendshipStatus \<Rightarrow> string" where
  "ToProtocolFriendshipStatus status = ToStorageFriendshipStatus status"

definition ParseFriendshipStatus :: "string \<Rightarrow> FriendshipStatus option" where
  "ParseFriendshipStatus raw_status =
     (if raw_status = ''pending'' then Some kPending
      else if raw_status = ''accepted'' then Some kAccepted
      else if raw_status = ''blocked'' then Some kBlocked
      else None)"

record FriendshipRecord =
  f_id :: int
  f_requester_id :: userId
  f_addressee_id :: userId
  f_status :: FriendshipStatus
  f_created_at :: string
  f_updated_at :: string

record FriendshipListItem =
  fl_user_id :: userId
  fl_username :: string
  fl_nickname :: string
  fl_status :: FriendshipStatus
  fl_direction :: string
  fl_created_at :: string
  fl_updated_at :: string

record GroupRecord =
  g_id :: groupId
  g_name :: string
  g_owner_id :: userId
  g_conversation_id :: conversationId
  g_created_at :: string
  g_updated_at :: string

record GroupMemberRecord =
  gm_group_id :: groupId
  gm_user_id :: userId
  gm_role :: string
  gm_joined_at :: string

section \<open>Protocol requests and responses\<close>

record RegisterRequest =
  rr_username :: string
  rr_password :: string
  rr_nickname :: string

record RegisterResponseData =
  rrd_user_id :: userId

record LoginRequest =
  lr_username :: string
  lr_password :: string

record LoginResponseData =
  lrd_user_id :: userId
  lrd_nickname :: string
  lrd_token :: token

record SendMessageRequest =
  sm_client_msg_id :: string
  sm_to_user_id :: userId
  sm_content :: string

record SendMessageAckData =
  ack_message_id :: messageId
  ack_conversation_id :: conversationId
  ack_sequence :: int
  ack_to_user_id :: userId
  ack_status :: int
  ack_created_at :: timestamp

record MessagePushData =
  push_message_id :: messageId
  push_conversation_id :: conversationId
  push_sequence :: int
  push_from_user_id :: userId
  push_from_username :: string
  push_to_user_id :: userId
  push_content :: string
  push_created_at :: timestamp
  push_server_time :: timestamp

record OfflineMessage =
  om_message_id :: messageId
  om_conversation_id :: conversationId
  om_sequence :: int
  om_from_user_id :: userId
  om_to_user_id :: userId
  om_content :: string
  om_created_at :: timestamp
  om_status :: int

record PullOfflineMessagesRequest =
  pr_limit :: int
  pr_before_message_id :: messageId
  pr_since_message_id :: messageId

record PullOfflineMessagesResponseData =
  pd_messages :: "OfflineMessage list"
  pd_has_more :: bool

record MessageAckRequest =
  ma_message_ids :: "messageId list"

record MarkMessageReadRequest =
  mr_message_ids :: "messageId list"

record MessageStateUpdateResponseData =
  ms_message_ids :: "messageId list"
  ms_affected_rows :: int

record AddFriendRequest =
  af_target_user_id :: userId

record AcceptFriendRequest =
  acf_requester_user_id :: userId

record DeleteFriendRequest =
  df_friend_user_id :: userId

record FriendshipActionResponseData =
  fa_requester_id :: userId
  fa_addressee_id :: userId
  fa_friend_user_id :: userId
  fa_status :: FriendshipStatus
  fa_created_at :: string
  fa_updated_at :: string

record DeleteFriendResponseData =
  dfd_friend_user_id :: userId
  dfd_deleted :: bool

record ListFriendsResponseData =
  lf_friends :: "FriendshipListItem list"

record CreateGroupRequest =
  cg_name :: string
  cg_member_ids :: "userId list"

record AddGroupMemberRequest =
  ag_group_id :: groupId
  ag_user_id :: userId

record SendGroupMessageRequest =
  sg_group_id :: groupId
  sg_client_msg_id :: string
  sg_content :: string

record CreateGroupResponseData =
  cgd_group :: GroupRecord
  cgd_member_ids :: "userId list"

record AddGroupMemberResponseData =
  agd_member :: GroupMemberRecord

record GroupMessageDelivery =
  gd_message_id :: messageId
  gd_group_id :: groupId
  gd_conversation_id :: conversationId
  gd_sequence :: int
  gd_to_user_id :: userId
  gd_target_conn_id :: connectionId
  gd_status :: int
  gd_created_at :: timestamp

record SendGroupMessageResponseData =
  sgd_group_id :: groupId
  sgd_conversation_id :: conversationId
  sgd_messages :: "GroupMessageDelivery list"

section \<open>Facts about the enumerations\<close>

lemma ParseMessageStatus_storage [simp]:
  "ParseMessageStatus (ToStorageMessageStatus s) = Some s"
  by (cases s) (simp_all add: ParseMessageStatus_def)

lemma ParseMessageStatus_SomeD:
  "ParseMessageStatus i = Some s \<Longrightarrow> i = ToStorageMessageStatus s"
  by (auto simp: ParseMessageStatus_def split: if_splits)

lemma ParseFriendshipStatus_storage [simp]:
  "ParseFriendshipStatus (ToStorageFriendshipStatus s) = Some s"
  by (cases s) (simp_all add: ParseFriendshipStatus_def)

lemma ParseFriendshipStatus_SomeD:
  "ParseFriendshipStatus r = Some s \<Longrightarrow> r = ToStorageFriendshipStatus s"
  by (auto simp: ParseFriendshipStatus_def split: if_splits)

lemma error_value_inject [simp]: "error_value a = error_value b \<longleftrightarrow> a = b"
  by (cases a; cases b) simp_all

lemma CanTransition_mono:
  "CanTransitionMessageStatus f t \<Longrightarrow> ToStorageMessageStatus f \<le> ToStorageMessageStatus t"
  by (cases f; cases t) (simp_all add: CanTransitionMessageStatus_def)

end
