(* ===== verification/Effects.thy ===== *)
theory Effects
  imports Prelude "HOL-Library.State_Monad"
begin

text \<open>
  Stateful code is written in the state monad of the library. This theory adds the reader and
  writer primitives the components use, a weakest precondition for total functional correctness
  (a monadic program always returns) and its rules in the collection \<^verbatim>\<open>wp_intros\<close>, and a notion of
  guarantee: a program that keeps an invariant and changes the state only along a given preorder.
\<close>

named_theorems wp_intros \<open>weakest precondition rules\<close>

abbreviation ret :: "'a \<Rightarrow> ('s, 'a) state" where
  "ret \<equiv> State_Monad.return"

definition gets :: "('s \<Rightarrow> 'a) \<Rightarrow> ('s, 'a) state" where
  "gets f = State (\<lambda>s. (f s, s))"

definition modify :: "('s \<Rightarrow> 's) \<Rightarrow> ('s, unit) state" where
  "modify f = State (\<lambda>s. ((), f s))"

lemma run_gets [simp]: "run_state (gets f) s = (f s, s)"
  by (simp add: gets_def)

lemma run_modify [simp]: "run_state (modify f) s = ((), f s)"
  by (simp add: modify_def)

section \<open>Weakest preconditions\<close>

definition wp :: "('s, 'a) state \<Rightarrow> ('a \<Rightarrow> 's \<Rightarrow> bool) \<Rightarrow> 's \<Rightarrow> bool" where
  "wp m Q s \<longleftrightarrow> (case run_state m s of (a, s') \<Rightarrow> Q a s')"

lemma wpD: "wp m Q s \<Longrightarrow> run_state m s = (a, s') \<Longrightarrow> Q a s'"
  by (simp add: wp_def)

lemma wpI: "(\<And>a s'. run_state m s = (a, s') \<Longrightarrow> Q a s') \<Longrightarrow> wp m Q s"
  by (simp add: wp_def split: prod.splits)

lemma wp_mono: "wp m P s \<Longrightarrow> (\<And>a s'. P a s' \<Longrightarrow> Q a s') \<Longrightarrow> wp m Q s"
  by (auto simp: wp_def)

lemma wp_conj: "wp m P s \<Longrightarrow> wp m Q s \<Longrightarrow> wp m (\<lambda>a s'. P a s' \<and> Q a s') s"
  by (auto simp: wp_def)

lemma wp_ret [wp_intros]: "Q x s \<Longrightarrow> wp (ret x) Q s"
  by (simp add: wp_def)

lemma wp_gets [wp_intros]: "Q (f s) s \<Longrightarrow> wp (gets f) Q s"
  by (simp add: wp_def)

lemma wp_modify [wp_intros]: "Q () (f s) \<Longrightarrow> wp (modify f) Q s"
  by (simp add: wp_def)

lemma wp_bind [wp_intros]: "wp m (\<lambda>a. wp (f a) Q) s \<Longrightarrow> wp (m \<bind> f) Q s"
  by (auto simp: wp_def split: prod.splits)

lemma wp_if [wp_intros]: "(b \<Longrightarrow> wp m Q s) \<Longrightarrow> (\<not> b \<Longrightarrow> wp n Q s) \<Longrightarrow> wp (if b then m else n) Q s"
  by simp

lemma wp_case_option [wp_intros]:
  "(x = None \<Longrightarrow> wp m Q s) \<Longrightarrow> (\<And>y. x = Some y \<Longrightarrow> wp (f y) Q s) \<Longrightarrow>
   wp (case x of None \<Rightarrow> m | Some y \<Rightarrow> f y) Q s"
  by (cases x) simp_all

lemma wp_case_sum [wp_intros]:
  "(\<And>a. x = Inl a \<Longrightarrow> wp (f a) Q s) \<Longrightarrow> (\<And>b. x = Inr b \<Longrightarrow> wp (g b) Q s) \<Longrightarrow>
   wp (case x of Inl a \<Rightarrow> f a | Inr b \<Rightarrow> g b) Q s"
  by (cases x) simp_all

lemma wp_case_prod [wp_intros]:
  "(\<And>a b. x = (a, b) \<Longrightarrow> wp (f a b) Q s) \<Longrightarrow> wp (case x of (a, b) \<Rightarrow> f a b) Q s"
  by (cases x) simp_all

lemma wp_Let [wp_intros]: "wp (f x) Q s \<Longrightarrow> wp (let y = x in f y) Q s"
  by simp

section \<open>Guarantees\<close>

text \<open>\<^term>\<open>assured I R m\<close>: started in a state with \<^term>\<open>I\<close>, the program ends in a state with
  \<^term>\<open>I\<close> that is related to the first by \<^term>\<open>R\<close>.\<close>

definition assured :: "('s \<Rightarrow> bool) \<Rightarrow> ('s \<Rightarrow> 's \<Rightarrow> bool) \<Rightarrow> ('s, 'a) state \<Rightarrow> bool" where
  "assured I R m \<longleftrightarrow> (\<forall>s. I s \<longrightarrow> wp m (\<lambda>_ s'. I s' \<and> R s s') s)"

text \<open>The rules below hold for every preorder; they are proved once, in a locale that the
  database and the session store instantiate.\<close>

locale preorder_guarantee =
  fixes I :: "'s \<Rightarrow> bool" and R :: "'s \<Rightarrow> 's \<Rightarrow> bool"
  assumes R_refl: "R s s"
    and R_trans: "R s t \<Longrightarrow> R t u \<Longrightarrow> R s u"
begin

lemma assured_ret: "assured I R (ret x)"
  by (simp add: assured_def wp_def R_refl)

lemma assured_gets: "assured I R (gets f)"
  by (simp add: assured_def wp_def R_refl)

lemma assured_bind:
  assumes "assured I R m" "\<And>x. assured I R (f x)"
  shows "assured I R (m \<bind> f)"
  unfolding assured_def
proof (intro allI impI)
  fix s
  assume "I s"
  obtain a s1 where 1: "run_state m s = (a, s1)"
    by fastforce
  obtain b s2 where 2: "run_state (f a) s1 = (b, s2)"
    by fastforce
  have "I s1" "R s s1"
    using assms(1) \<open>I s\<close> 1 unfolding assured_def by (auto dest: wpD)
  moreover have "I s2" "R s1 s2"
    using assms(2) [of a] \<open>I s1\<close> 2 unfolding assured_def by (auto dest: wpD)
  ultimately show "wp (m \<bind> f) (\<lambda>_ s'. I s' \<and> R s s') s"
    using 1 2 R_trans by (auto simp: wp_def)
qed

lemma assured_if: "(b \<Longrightarrow> assured I R m) \<Longrightarrow> (\<not> b \<Longrightarrow> assured I R n) \<Longrightarrow> assured I R (if b then m else n)"
  by simp

lemma assured_option:
  "assured I R m \<Longrightarrow> (\<And>y. assured I R (f y)) \<Longrightarrow>
   assured I R (case x of None \<Rightarrow> m | Some y \<Rightarrow> f y)"
  by (cases x) simp_all

lemma assured_sum:
  "(\<And>a. assured I R (f a)) \<Longrightarrow> (\<And>b. assured I R (g b)) \<Longrightarrow>
   assured I R (case x of Inl a \<Rightarrow> f a | Inr b \<Rightarrow> g b)"
  by (cases x) simp_all

lemma assured_prod:
  "(\<And>a b. assured I R (f a b)) \<Longrightarrow> assured I R (case x of (a, b) \<Rightarrow> f a b)"
  by (cases x) simp

lemma assured_Let: "(\<And>x. assured I R (f x)) \<Longrightarrow> assured I R (let y = x in f y)"
  by simp

lemmas assured_rules = assured_ret assured_gets assured_bind assured_if assured_option
  assured_sum assured_prod assured_Let

lemma assured_run:
  "assured I R m \<Longrightarrow> I s \<Longrightarrow> run_state m s = (a, s') \<Longrightarrow> I s' \<and> R s s'"
  unfolding assured_def by (blast dest: wpD)

end

end
