(* ===== verification/MySql.thy ===== *)
theory MySql
  imports Models Effects "HOL-Library.List_Lexorder" "HOL-Library.Product_Lexorder" "HOL-Library.Char_ord"
begin

text \<open>
  The database as the repositories see it. The tables are those of
  \<^verbatim>\<open>src/sql/001_create_chat_tables.sql\<close>, lists of rows in insertion order; the unique keys and check
  constraints are enforced by the statements. The server itself is outside the sources, so what it
  may do is an argument of the model, carried by the state record \<^verbatim>\<open>Db\<close>:
  \<^item> the collation key of a string (the columns are \<^verbatim>\<open>utf8mb4_unicode_ci\<close>, so \<^verbatim>\<open>=\<close> and the unique
    keys compare keys, not bytes);
  \<^item> an event per executed command: what other clients committed just before it (only outside an
    open transaction), the error number it reports (0 for success), and whether a command that
    reports a lost connection took effect nevertheless. Foreign keys, length limits and timeouts are such errors;
  \<^item> the outcome of each \<^verbatim>\<open>DbPool::borrow\<close>.
  An empty event list stands for a server that never fails.
\<close>

section \<open>Tables\<close>

record MessageRow =
  r_id :: messageId
  r_conversation_id :: conversationId
  r_sequence :: int
  r_client_msg_id :: string
  r_from_user_id :: userId
  r_to_user_id :: userId
  r_content :: string
  r_status :: int
  r_created_at :: timestamp
  r_delivered_at :: "timestamp option"
  r_read_at :: "timestamp option"

record ConversationRow =
  cv_id :: conversationId
  cv_type :: string
  cv_single_chat_key :: "string option"
  cv_last_seq :: int

record ConversationMemberRow =
  cm_conversation_id :: conversationId
  cm_user_id :: userId
  cm_role :: string

record FriendshipRow =
  fr_id :: int
  fr_requester_id :: userId
  fr_addressee_id :: userId
  fr_low :: userId
  fr_high :: userId
  fr_status :: string
  fr_created_at :: string
  fr_updated_at :: string

record Tables =
  t_users :: "UserRecord list"
  t_next_user_id :: int
  t_friendships :: "FriendshipRow list"
  t_next_friendship_id :: int
  t_conversations :: "ConversationRow list"
  t_conversation_members :: "ConversationMemberRow list"
  t_groups :: "GroupRecord list"
  t_group_members :: "GroupMemberRecord list"
  t_messages :: "MessageRow list"

section \<open>The server and the connection\<close>

datatype DbPoolError =
  kNone | kInvalidConfig | kNotInitialized | kStopping | kConnectFailed | kBorrowTimeoutError
  | kHealthCheckFailed

datatype RepositoryStatus =
  kOk | kNotFound | kQueryFailed | kDuplicate | kInsertFailed | kConnectionUnavailable
  | kBorrowTimeout

record sql_event =
  se_env :: "Tables \<Rightarrow> Tables"
  se_errno :: nat
  se_applied :: bool

record Db =
  db_tables :: Tables
  db_collate :: "string \<Rightarrow> string"
  db_clock :: string
  db_events :: "sql_event list"
  db_borrows :: "DbPoolError list"
  db_snapshot :: "Tables option"
  db_bad :: bool
  db_last_insert_id :: int

text \<open>What every other client sees: the tables without the changes of an open transaction.\<close>

definition committed :: "Db \<Rightarrow> Tables" where
  "committed db = (case db_snapshot db of None \<Rightarrow> db_tables db | Some t \<Rightarrow> t)"

definition quiet_event :: sql_event where
  "quiet_event = \<lparr>se_env = (\<lambda>t. t), se_errno = 0, se_applied = False\<rparr>"

text \<open>Take the next event; the other clients' commits become visible outside a transaction.\<close>

definition next_event :: "(Db, sql_event) state" where
  "next_event = State (\<lambda>db.
     case db_events db of
       [] \<Rightarrow> (quiet_event, db)
     | e # es \<Rightarrow>
         (e, db\<lparr>db_events := es,
               db_tables := (case db_snapshot db of
                               None \<Rightarrow> se_env e (db_tables db) | Some _ \<Rightarrow> db_tables db)\<rparr>))"

text \<open>A statement maps the tables to its own error (a violated key) or to new tables and a value.\<close>

type_synonym 'a stmt = "(string \<Rightarrow> string) \<Rightarrow> string \<Rightarrow> Tables \<Rightarrow> nat + Tables \<times> 'a"

definition apply_stmt :: "'a stmt \<Rightarrow> (Db, nat + 'a) state" where
  "apply_stmt stmt = State (\<lambda>db.
     case stmt (db_collate db) (db_clock db) (db_tables db) of
       Inl err \<Rightarrow> (Inl err, db)
     | Inr (t, a) \<Rightarrow> (Inr a, db\<lparr>db_tables := t\<rparr>))"

definition run_sql :: "'a stmt \<Rightarrow> (Db, nat + 'a) state" where
  "run_sql stmt = do {
     e \<leftarrow> next_event;
     if se_errno e \<noteq> 0
     then (if se_applied e then do { _ \<leftarrow> apply_stmt stmt; ret (Inl (se_errno e)) }
           else ret (Inl (se_errno e)))
     else apply_stmt stmt
   }"

definition kMysqlDuplicateEntryError :: nat where "kMysqlDuplicateEntryError = 1062"
definition kMysqlServerGoneError :: nat where "kMysqlServerGoneError = 2006"
definition kMysqlServerLostError :: nat where "kMysqlServerLostError = 2013"

definition IsConnectionError :: "nat \<Rightarrow> bool" where
  "IsConnectionError err \<longleftrightarrow> err = kMysqlServerGoneError \<or> err = kMysqlServerLostError"

definition markBad :: "(Db, unit) state" where
  "markBad = modify (\<lambda>db. db\<lparr>db_bad := True\<rparr>)"

text \<open>\<^verbatim>\<open>DbPool::borrow\<close> as the repositories use it. A connection that was marked bad is closed when
  it is returned, which ends its transaction on the server.\<close>

definition reconnect :: "Db \<Rightarrow> Db" where
  "reconnect db =
     (if db_bad db then db\<lparr>db_bad := False, db_tables := committed db, db_snapshot := None\<rparr> else db)"

definition borrow_connection :: "(Db, DbPoolError) state" where
  "borrow_connection = State (\<lambda>db.
     case db_borrows db of
       [] \<Rightarrow> (kNone, reconnect db)
     | e # es \<Rightarrow> (e, reconnect (db\<lparr>db_borrows := es\<rparr>)))"

definition MapBorrowError :: "DbPoolError \<Rightarrow> RepositoryStatus" where
  "MapBorrowError e = (if e = kBorrowTimeoutError then kBorrowTimeout else kConnectionUnavailable)"

text \<open>\<^verbatim>\<open>StatementFailure\<close>: the status for an error number, marking a lost connection bad.\<close>

definition StatementFailure :: "nat \<Rightarrow> RepositoryStatus \<Rightarrow> (Db, RepositoryStatus) state" where
  "StatementFailure err fallback =
     (if IsConnectionError err then do { markBad; ret kConnectionUnavailable } else ret fallback)"

text \<open>The result is the value of the statement or the status together with the error number.\<close>

definition ExecuteUpdate ::
  "'a stmt \<Rightarrow> RepositoryStatus \<Rightarrow> (Db, (RepositoryStatus \<times> nat) + 'a) state" where
  "ExecuteUpdate stmt fallback = do {
     r \<leftarrow> run_sql stmt;
     case r of
       Inl err \<Rightarrow> do { status \<leftarrow> StatementFailure err fallback; ret (Inl (status, err)) }
     | Inr a \<Rightarrow> ret (Inr a)
   }"

definition Begin :: "(Db, bool) state" where
  "Begin = do {
     e \<leftarrow> next_event;
     if se_errno e \<noteq> 0
     then do { _ \<leftarrow> StatementFailure (se_errno e) kQueryFailed; ret False }
     else do { modify (\<lambda>db. db\<lparr>db_snapshot := Some (db_tables db)\<rparr>); ret True }
   }"

definition Commit :: "(Db, bool) state" where
  "Commit = do {
     e \<leftarrow> next_event;
     (if se_errno e = 0 \<or> se_applied e then modify (\<lambda>db. db\<lparr>db_snapshot := None\<rparr>) else ret ());
     if se_errno e \<noteq> 0
     then do { _ \<leftarrow> StatementFailure (se_errno e) kQueryFailed; ret False }
     else ret True
   }"

definition discard :: "(Db, unit) state" where
  "discard = modify (\<lambda>db. db\<lparr>db_tables := committed db, db_snapshot := None\<rparr>)"

text \<open>A rollback that fails leaves the transaction open; the connection is marked bad, so that
  closing it ends the transaction.\<close>

definition Rollback :: "(Db, unit) state" where
  "Rollback = do {
     e \<leftarrow> next_event;
     if se_errno e \<noteq> 0 then markBad else discard
   }"

section \<open>The rely condition on other clients\<close>

text \<open>Message and user rows are never deleted and keep their identity, a message status only
  moves forward, conversations keep their identity and their sequence counter never falls. Every
  client of the database is an instance of this server, so this is also what each operation has to
  guarantee.\<close>

definition same_message :: "MessageRow \<Rightarrow> MessageRow \<Rightarrow> bool" where
  "same_message r r' \<longleftrightarrow>
     r_id r' = r_id r \<and> r_conversation_id r' = r_conversation_id r \<and>
     r_sequence r' = r_sequence r \<and> r_client_msg_id r' = r_client_msg_id r \<and>
     r_from_user_id r' = r_from_user_id r \<and> r_to_user_id r' = r_to_user_id r \<and>
     r_content r' = r_content r \<and> r_created_at r' = r_created_at r \<and>
     r_status r \<le> r_status r'"

definition same_conversation :: "ConversationRow \<Rightarrow> ConversationRow \<Rightarrow> bool" where
  "same_conversation c c' \<longleftrightarrow> cv_id c' = cv_id c \<and> cv_last_seq c \<le> cv_last_seq c'"

definition messages_grow :: "Tables \<Rightarrow> Tables \<Rightarrow> bool" where
  "messages_grow t t' \<longleftrightarrow>
     (\<forall>r \<in> set (t_messages t). \<exists>r' \<in> set (t_messages t'). same_message r r') \<and>
     (\<forall>c \<in> set (t_conversations t). \<exists>c' \<in> set (t_conversations t'). same_conversation c c')"

definition users_grow :: "Tables \<Rightarrow> Tables \<Rightarrow> bool" where
  "users_grow t t' \<longleftrightarrow>
     (\<forall>u \<in> set (t_users t). \<exists>u' \<in> set (t_users t'). u_id u' = u_id u \<and> u_username u' = u_username u)"

text \<open>Friendship rows may be deleted, but a row number is never reused, a row keeps its two users,
  and its status only moves from pending to accepted.\<close>

definition friends_grow :: "Tables \<Rightarrow> Tables \<Rightarrow> bool" where
  "friends_grow t t' \<longleftrightarrow>
     t_next_friendship_id t \<le> t_next_friendship_id t' \<and>
     (\<forall>f' \<in> set (t_friendships t'). fr_id f' < t_next_friendship_id t \<longrightarrow>
        (\<exists>f \<in> set (t_friendships t). fr_id f = fr_id f' \<and>
           fr_requester_id f = fr_requester_id f' \<and> fr_addressee_id f = fr_addressee_id f' \<and>
           (fr_status f = fr_status f' \<or>
            (fr_status f = ''pending'' \<and> fr_status f' = ''accepted''))))"

lemma same_message_refl [simp]: "same_message r r"
  by (simp add: same_message_def)

lemma same_message_trans: "same_message a b \<Longrightarrow> same_message b c \<Longrightarrow> same_message a c"
  by (auto simp: same_message_def)

lemma same_conversation_refl [simp]: "same_conversation c c"
  by (simp add: same_conversation_def)

lemma same_conversation_trans:
  "same_conversation a b \<Longrightarrow> same_conversation b c \<Longrightarrow> same_conversation a c"
  by (auto simp: same_conversation_def)

lemma messages_grow_refl [simp, step_intros]: "messages_grow t t"
  unfolding messages_grow_def using same_message_refl same_conversation_refl by blast

lemma messages_grow_trans: "messages_grow a b \<Longrightarrow> messages_grow b c \<Longrightarrow> messages_grow a c"
  unfolding messages_grow_def by (meson same_message_trans same_conversation_trans)

lemma messages_grow_subset:
  assumes "set (t_messages t) \<subseteq> set (t_messages t')"
    and "set (t_conversations t) \<subseteq> set (t_conversations t')"
  shows "messages_grow t t'"
  using assms same_message_refl same_conversation_refl unfolding messages_grow_def by blast

lemma users_grow_refl [simp, step_intros]: "users_grow t t"
  unfolding users_grow_def by blast

lemma users_grow_trans: "users_grow a b \<Longrightarrow> users_grow b c \<Longrightarrow> users_grow a c"
  unfolding users_grow_def by (metis (no_types, lifting))

lemma friends_grow_same:
  "t_friendships t' = t_friendships t \<Longrightarrow> t_next_friendship_id t' = t_next_friendship_id t \<Longrightarrow>
     friends_grow t t'"
  unfolding friends_grow_def by auto

lemma friends_grow_refl [simp, step_intros]: "friends_grow t t"
  by (simp add: friends_grow_same)

lemma friends_grow_trans:
  assumes "friends_grow a b" "friends_grow b c"
  shows "friends_grow a c"
  unfolding friends_grow_def
proof (intro conjI ballI impI)
  show "t_next_friendship_id a \<le> t_next_friendship_id c"
    using assms by (simp add: friends_grow_def)
next
  fix h
  assume h: "h \<in> set (t_friendships c)" "fr_id h < t_next_friendship_id a"
  then obtain g where g: "g \<in> set (t_friendships b)" "fr_id g = fr_id h"
    "fr_requester_id g = fr_requester_id h" "fr_addressee_id g = fr_addressee_id h"
    "fr_status g = fr_status h \<or> (fr_status g = ''pending'' \<and> fr_status h = ''accepted'')"
    using assms unfolding friends_grow_def by (meson order_less_le_trans)
  then obtain f where f: "f \<in> set (t_friendships a)" "fr_id f = fr_id g"
    "fr_requester_id f = fr_requester_id g" "fr_addressee_id f = fr_addressee_id g"
    "fr_status f = fr_status g \<or> (fr_status f = ''pending'' \<and> fr_status g = ''accepted'')"
    using assms(1) h(2) unfolding friends_grow_def by metis
  then show "\<exists>f \<in> set (t_friendships a). fr_id f = fr_id h \<and>
      fr_requester_id f = fr_requester_id h \<and> fr_addressee_id f = fr_addressee_id h \<and>
      (fr_status f = fr_status h \<or> (fr_status f = ''pending'' \<and> fr_status h = ''accepted''))"
    using g by (intro bexI [of _ f]) auto
qed

section \<open>Key uniqueness\<close>

definition messages_ok :: "(string \<Rightarrow> string) \<Rightarrow> Tables \<Rightarrow> bool" where
  "messages_ok ck t \<longleftrightarrow>
     distinct (map (\<lambda>r. ck (r_id r)) (t_messages t)) \<and>
     distinct (map (\<lambda>r. (r_from_user_id r, ck (r_client_msg_id r))) (t_messages t)) \<and>
     distinct (map (\<lambda>r. (ck (r_conversation_id r), r_sequence r)) (t_messages t)) \<and>
     distinct (map (\<lambda>c. ck (cv_id c)) (t_conversations t)) \<and>
     (\<forall>r \<in> set (t_messages t). r_status r \<in> {0, 1, 2} \<and> 0 < r_sequence r \<and>
        (\<exists>c \<in> set (t_conversations t).
           ck (cv_id c) = ck (r_conversation_id r) \<and> r_sequence r \<le> cv_last_seq c)) \<and>
     (\<forall>c \<in> set (t_conversations t). 0 \<le> cv_last_seq c \<and> cv_last_seq c \<le> int64_max)"

definition users_ok :: "(string \<Rightarrow> string) \<Rightarrow> Tables \<Rightarrow> bool" where
  "users_ok ck t \<longleftrightarrow>
     distinct (map u_id (t_users t)) \<and>
     distinct (map (\<lambda>u. ck (u_username u)) (t_users t)) \<and>
     (\<forall>u \<in> set (t_users t). 0 < u_id u \<and> u_id u < t_next_user_id t) \<and> 0 < t_next_user_id t"

definition friendships_ok :: "Tables \<Rightarrow> bool" where
  "friendships_ok t \<longleftrightarrow>
     distinct (map fr_id (t_friendships t)) \<and>
     distinct (map (\<lambda>f. (fr_low f, fr_high f)) (t_friendships t)) \<and>
     (\<forall>f \<in> set (t_friendships t).
        fr_low f = min (fr_requester_id f) (fr_addressee_id f) \<and>
        fr_high f = max (fr_requester_id f) (fr_addressee_id f) \<and>
        fr_requester_id f \<noteq> fr_addressee_id f \<and>
        fr_id f < t_next_friendship_id t \<and>
        fr_status f \<in> {''pending'', ''accepted'', ''blocked''})"

definition groups_ok :: "(string \<Rightarrow> string) \<Rightarrow> Tables \<Rightarrow> bool" where
  "groups_ok ck t \<longleftrightarrow>
     distinct (map (\<lambda>g. ck (g_id g)) (t_groups t)) \<and>
     distinct (map (\<lambda>m. (ck (gm_group_id m), gm_user_id m)) (t_group_members t))"

definition tables_ok :: "(string \<Rightarrow> string) \<Rightarrow> Tables \<Rightarrow> bool" where
  "tables_ok ck t \<longleftrightarrow> messages_ok ck t \<and> users_ok ck t \<and> friendships_ok t \<and> groups_ok ck t"

text \<open>The combined rely: what one committed step of any client does to the tables.\<close>

definition db_grow :: "(string \<Rightarrow> string) \<Rightarrow> Tables \<Rightarrow> Tables \<Rightarrow> bool" where
  "db_grow ck t t' \<longleftrightarrow>
     (tables_ok ck t \<longrightarrow> tables_ok ck t') \<and> messages_grow t t' \<and> users_grow t t' \<and>
     friends_grow t t'"

definition env_ok :: "Db \<Rightarrow> bool" where
  "env_ok db \<longleftrightarrow>
     (\<forall>e \<in> set (db_events db).
        (\<forall>t. db_grow (db_collate db) t (se_env e t)) \<and>
        (se_applied e \<longrightarrow> IsConnectionError (se_errno e)))"

lemma db_grow_refl [simp, step_intros]: "db_grow ck t t"
  by (simp add: db_grow_def)

lemma db_grow_trans: "db_grow ck a b \<Longrightarrow> db_grow ck b c \<Longrightarrow> db_grow ck a c"
  by (meson db_grow_def messages_grow_trans users_grow_trans friends_grow_trans)

section \<open>What a repository operation guarantees\<close>

text \<open>The invariant of the database state: the environment respects the rely, and the changes of
  an open transaction are themselves allowed growth of what is committed. The guarantee: the
  committed tables grow, and the parameters stay.\<close>

definition db_inv :: "Db \<Rightarrow> bool" where
  "db_inv db \<longleftrightarrow>
     env_ok db \<and> db_grow (db_collate db) (committed db) (db_tables db) \<and>
     tables_ok (db_collate db) (committed db)"

definition db_guar :: "Db \<Rightarrow> Db \<Rightarrow> bool" where
  "db_guar db db' \<longleftrightarrow>
     db_collate db' = db_collate db \<and> db_clock db' = db_clock db \<and>
     db_grow (db_collate db) (committed db) (committed db')"

interpretation db_guarantee: preorder_guarantee db_inv db_guar
  by unfold_locales (auto simp: db_guar_def intro: db_grow_trans)

abbreviation safe :: "(Db, 'a) state \<Rightarrow> bool" where
  "safe \<equiv> assured db_inv db_guar"

lemma safeI:
  assumes "\<And>db a db'. db_inv db \<Longrightarrow> run_state m db = (a, db') \<Longrightarrow> db_inv db' \<and> db_guar db db'"
  shows "safe m"
  using assms unfolding assured_def by (blast intro: wpI)

text \<open>A statement that only lets the tables grow.\<close>

definition growing :: "'a stmt \<Rightarrow> bool" where
  "growing stmt \<longleftrightarrow>
     (\<forall>ck now t t' a. tables_ok ck t \<longrightarrow> stmt ck now t = Inr (t', a) \<longrightarrow> db_grow ck t t')"

lemma db_inv_tables: "db_inv db \<Longrightarrow> tables_ok (db_collate db) (db_tables db)"
  by (auto simp: db_inv_def db_grow_def)

lemma safe_next_event: "safe next_event"
proof (rule safeI)
  fix db a db'
  assume "db_inv db" and run: "run_state next_event db = (a, db')"
  then show "db_inv db' \<and> db_guar db db'"
    by (cases "db_events db"; cases "db_snapshot db")
      (auto simp: next_event_def db_inv_def db_guar_def env_ok_def committed_def db_grow_def)
qed

lemma safe_apply_stmt:
  assumes "growing stmt"
  shows "safe (apply_stmt stmt)"
proof (rule safeI)
  fix db a db'
  assume inv: "db_inv db" and run: "run_state (apply_stmt stmt) db = (a, db')"
  have grow: "db_grow (db_collate db) (db_tables db) t"
    if "stmt (db_collate db) (db_clock db) (db_tables db) = Inr (t, x)" for t x
    using assms db_inv_tables [OF inv] that unfolding growing_def by blast
  show "db_inv db' \<and> db_guar db db'"
    using inv run grow db_inv_tables [OF inv]
    by (cases "db_snapshot db")
      (auto simp: apply_stmt_def db_inv_def db_guar_def env_ok_def committed_def db_grow_def
        split: sum.splits prod.splits intro: db_grow_trans messages_grow_trans users_grow_trans friends_grow_trans)
qed

lemma committed_frame [simp]:
  "committed (db\<lparr>db_bad := b\<rparr>) = committed db"
  "committed (db\<lparr>db_last_insert_id := i\<rparr>) = committed db"
  "committed (db\<lparr>db_borrows := bs\<rparr>) = committed db"
  by (simp_all add: committed_def split: option.splits)

lemma committed_closed [simp]:
  "committed (db\<lparr>db_tables := t, db_snapshot := None\<rparr>) = t"
  "committed (db\<lparr>db_bad := b, db_tables := t, db_snapshot := None\<rparr>) = t"
  by (simp_all add: committed_def)

lemma safe_modify:
  assumes "\<And>db. db_inv db \<Longrightarrow> db_inv (f db) \<and> db_guar db (f db)"
  shows "safe (modify f)"
  using assms by (intro safeI) auto

lemma safe_markBad: "safe markBad"
  unfolding markBad_def
  by (rule safe_modify) (simp add: db_inv_def db_guar_def env_ok_def)

lemma safe_discard: "safe discard"
  unfolding discard_def
  by (rule safe_modify) (simp add: db_inv_def db_guar_def env_ok_def)

lemmas safe_rules = db_guarantee.assured_rules safe_next_event safe_apply_stmt safe_markBad
  safe_discard

lemma safe_run_sql: "growing stmt \<Longrightarrow> safe (run_sql stmt)"
  unfolding run_sql_def by (intro safe_rules)

lemma safe_StatementFailure: "safe (StatementFailure err fallback)"
  unfolding StatementFailure_def by (intro safe_rules)

lemma safe_ExecuteUpdate: "growing stmt \<Longrightarrow> safe (ExecuteUpdate stmt fallback)"
  unfolding ExecuteUpdate_def by (intro safe_rules safe_run_sql safe_StatementFailure)

lemma safe_borrow: "safe borrow_connection"
  by (rule safeI)
    (auto simp: borrow_connection_def reconnect_def db_inv_def db_guar_def env_ok_def
      split: list.splits if_splits)

lemma safe_Begin: "safe Begin"
  unfolding Begin_def
  by (intro safe_rules safe_StatementFailure safe_modify)
    (auto simp: db_inv_def db_guar_def env_ok_def committed_def db_grow_def split: option.splits)

lemma safe_Commit: "safe Commit"
  unfolding Commit_def
  by (intro safe_rules safe_StatementFailure safe_modify)
    (auto simp: db_inv_def db_guar_def env_ok_def committed_def db_grow_def split: option.splits)

lemma safe_Rollback: "safe Rollback"
  unfolding Rollback_def by (intro safe_rules)

lemmas safe_sql = safe_run_sql safe_StatementFailure safe_ExecuteUpdate safe_borrow safe_Begin
  safe_Commit safe_Rollback safe_rules

section \<open>Statements inside and outside a transaction\<close>

text \<open>A connection is idle between two repository calls: no transaction is open, or the
  connection is marked bad and will be closed.\<close>

definition idle :: "Db \<Rightarrow> bool" where
  "idle db \<longleftrightarrow> db_snapshot db = None \<or> db_bad db"

definition allowed :: "'a stmt \<Rightarrow> Db \<Rightarrow> bool" where
  "allowed stmt db \<longleftrightarrow>
     (\<forall>t' a. stmt (db_collate db) (db_clock db) (db_tables db) = Inr (t', a) \<longrightarrow>
        db_grow (db_collate db) (db_tables db) t')"

lemma growing_allowed: "growing stmt \<Longrightarrow> db_inv db \<Longrightarrow> allowed stmt db"
  unfolding growing_def allowed_def using db_inv_tables by blast

text \<open>A step of this client inside the transaction that began with the tables \<^term>\<open>t0\<close>.\<close>

definition txn_step :: "Tables \<Rightarrow> Db \<Rightarrow> Db \<Rightarrow> bool" where
  "txn_step t0 db db' \<longleftrightarrow> db_inv db' \<and> db_guar db db' \<and> db_snapshot db' = Some t0"

lemma txn_step_trans: "txn_step t0 a b \<Longrightarrow> txn_step t0 b c \<Longrightarrow> txn_step t0 a c"
  unfolding txn_step_def using db_guarantee.R_trans by blast

lemma txn_step_params:
  "txn_step t0 db db' \<Longrightarrow> db_collate db' = db_collate db \<and> db_clock db' = db_clock db"
  by (simp add: txn_step_def db_guar_def)

definition in_txn :: "Tables \<Rightarrow> Db \<Rightarrow> bool" where
  "in_txn t0 db \<longleftrightarrow> db_inv db \<and> db_snapshot db = Some t0"

lemma txn_step_in: "txn_step t0 db db' \<Longrightarrow> in_txn t0 db'"
  by (simp add: txn_step_def in_txn_def)

text \<open>What a statement does to the tables of an open transaction: its own effect on success,
  nothing on an error other than a lost connection.\<close>

definition stmt_effect :: "'a stmt \<Rightarrow> Db \<Rightarrow> nat + 'a \<Rightarrow> Db \<Rightarrow> bool" where
  "stmt_effect stmt db r db' \<longleftrightarrow>
     (case r of
        Inl err \<Rightarrow> db_tables db' = db_tables db \<or> IsConnectionError err
      | Inr a \<Rightarrow> stmt (db_collate db) (db_clock db) (db_tables db) = Inr (db_tables db', a))"

lemma next_event_txn:
  assumes "in_txn t0 db"
  shows "wp next_event (\<lambda>e db'. txn_step t0 db db' \<and> db_tables db' = db_tables db \<and>
    db_last_insert_id db' = db_last_insert_id db \<and>
    (se_applied e \<longrightarrow> IsConnectionError (se_errno e))) db"
  using assms
  by (cases "db_events db")
    (auto simp: wp_def next_event_def quiet_event_def in_txn_def txn_step_def db_inv_def db_guar_def
      env_ok_def committed_def)

lemma apply_stmt_txn:
  assumes "in_txn t0 db" "allowed stmt db"
  shows "wp (apply_stmt stmt) (\<lambda>r db'. txn_step t0 db db' \<and>
    db_last_insert_id db' = db_last_insert_id db \<and>
    (case r of Inl err \<Rightarrow> db_tables db' = db_tables db
     | Inr a \<Rightarrow> stmt_effect stmt db (Inr a) db')) db"
  using assms
  by (auto simp: wp_def apply_stmt_def in_txn_def txn_step_def stmt_effect_def db_inv_def
      db_guar_def env_ok_def committed_def allowed_def
      split: sum.splits prod.splits intro: db_grow_trans)

lemma run_sql_txn:
  assumes "in_txn t0 db" "allowed stmt db"
  shows "wp (run_sql stmt) (\<lambda>r db'. txn_step t0 db db' \<and>
    db_last_insert_id db' = db_last_insert_id db \<and> stmt_effect stmt db r db') db"
  unfolding run_sql_def
proof (rule wp_bind, rule wp_mono [OF next_event_txn [OF assms(1)]])
  fix e db1
  assume 1: "txn_step t0 db db1 \<and> db_tables db1 = db_tables db \<and>
    db_last_insert_id db1 = db_last_insert_id db \<and> (se_applied e \<longrightarrow> IsConnectionError (se_errno e))"
  then have "allowed stmt db1" and inner: "in_txn t0 db1"
    and effect: "\<And>a db2. stmt_effect stmt db1 (Inr a) db2 \<Longrightarrow> stmt_effect stmt db (Inr a) db2"
    using assms(2) txn_step_params [of t0 db db1]
    by (auto simp: allowed_def stmt_effect_def dest: txn_step_in)
  then show "wp (if se_errno e \<noteq> 0
       then if se_applied e then do { _ \<leftarrow> apply_stmt stmt; ret (Inl (se_errno e)) }
            else ret (Inl (se_errno e))
       else apply_stmt stmt) (\<lambda>r db'. txn_step t0 db db' \<and>
    db_last_insert_id db' = db_last_insert_id db \<and> stmt_effect stmt db r db') db1"
    using 1 by (intro wp_intros wp_mono [OF apply_stmt_txn [OF inner]])
      (auto simp: stmt_effect_def [of _ _ "Inl _"] intro: txn_step_trans split: sum.splits)
qed

lemma StatementFailure_wp:
  assumes "db_inv db"
  shows "wp (StatementFailure err fallback) (\<lambda>status db'. db_inv db' \<and> db_guar db db' \<and>
    db_snapshot db' = db_snapshot db \<and> db_tables db' = db_tables db \<and> (db_bad db \<longrightarrow> db_bad db') \<and>
    (status = fallback \<or> status = kConnectionUnavailable)) db"
  using assms
  by (simp add: StatementFailure_def wp_def markBad_def db_inv_def db_guar_def env_ok_def)

lemma ExecuteUpdate_txn:
  assumes "in_txn t0 db" "allowed stmt db" "fallback \<noteq> kOk"
  shows "wp (ExecuteUpdate stmt fallback) (\<lambda>r db'. txn_step t0 db db' \<and>
    (case r of
       Inl (status, err) \<Rightarrow> status \<noteq> kOk \<and> stmt_effect stmt db (Inl err) db'
     | Inr a \<Rightarrow> stmt_effect stmt db (Inr a) db')) db"
  unfolding ExecuteUpdate_def
proof (rule wp_bind, rule wp_mono [OF run_sql_txn [OF assms(1,2)]])
  fix r db1
  assume 1: "txn_step t0 db db1 \<and> db_last_insert_id db1 = db_last_insert_id db \<and>
    stmt_effect stmt db r db1"
  show "wp (case r of
       Inl err \<Rightarrow> do { status \<leftarrow> StatementFailure err fallback; ret (Inl (status, err)) }
     | Inr a \<Rightarrow> ret (Inr a)) (\<lambda>r db'. txn_step t0 db db' \<and>
    (case r of
       Inl (status, err) \<Rightarrow> status \<noteq> kOk \<and> stmt_effect stmt db (Inl err) db'
     | Inr a \<Rightarrow> stmt_effect stmt db (Inr a) db')) db1"
    using 1 assms(3)
    by (intro wp_intros wp_mono [OF StatementFailure_wp])
      (auto simp: stmt_effect_def txn_step_def intro: db_guarantee.R_trans)
qed

text \<open>A transaction begins from the committed tables and ends in one of three ways.\<close>

lemma Begin_wp:
  assumes "db_inv db" "db_snapshot db = None"
  shows "wp Begin (\<lambda>b db'. db_inv db' \<and> db_guar db db' \<and>
    (if b then in_txn (db_tables db') db' else db_snapshot db' = None)) db"
  using assms
  by (cases "db_events db")
    (auto simp: wp_def Begin_def next_event_def quiet_event_def StatementFailure_def markBad_def
      in_txn_def db_inv_def db_guar_def env_ok_def committed_def db_grow_def)

lemma Commit_wp:
  assumes "in_txn t0 db"
  shows "wp Commit (\<lambda>c db'. db_inv db' \<and> db_guar db db' \<and> db_tables db' = db_tables db \<and>
    (if c then db_snapshot db' = None else db_snapshot db' = None \<or> db_snapshot db' = Some t0)) db"
  using assms
  by (cases "db_events db")
    (auto simp: wp_def Commit_def next_event_def quiet_event_def StatementFailure_def markBad_def
      in_txn_def db_inv_def db_guar_def env_ok_def committed_def db_grow_def)

lemma Rollback_wp:
  assumes "db_inv db"
  shows "wp Rollback (\<lambda>_ db'. db_inv db' \<and> db_guar db db' \<and> idle db' \<and>
    (if db_snapshot db' = None then db_tables db' = committed db'
     else db_snapshot db' = db_snapshot db \<and> db_tables db' = db_tables db)) db"
  using assms
  by (cases "db_events db"; cases "db_snapshot db")
    (auto simp: wp_def Rollback_def next_event_def quiet_event_def discard_def markBad_def idle_def
      db_inv_def db_guar_def env_ok_def committed_def db_grow_def)

text \<open>A read outside a transaction returns a value of the tables it leaves behind.\<close>

definition reading :: "'a stmt \<Rightarrow> bool" where
  "reading stmt \<longleftrightarrow> (\<forall>ck now t t' a. stmt ck now t = Inr (t', a) \<longrightarrow> t' = t)"

lemma reading_growing: "reading stmt \<Longrightarrow> growing stmt"
  unfolding reading_def growing_def by (metis db_grow_refl)

lemma run_sql_read:
  assumes "db_inv db" "reading stmt"
  shows "wp (run_sql stmt) (\<lambda>r db'. db_inv db' \<and> db_guar db db' \<and>
    db_snapshot db' = db_snapshot db \<and> db_bad db' = db_bad db \<and>
    (db_snapshot db \<noteq> None \<longrightarrow> db_tables db' = db_tables db) \<and>
    (case r of Inl err \<Rightarrow> True
     | Inr a \<Rightarrow> stmt (db_collate db) (db_clock db) (db_tables db') = Inr (db_tables db', a))) db"
proof (rule wpI)
  fix r db'
  assume run: "run_state (run_sql stmt) db = (r, db')"
  have "db_inv db' \<and> db_guar db db'"
    using db_guarantee.assured_run [OF safe_run_sql [OF reading_growing [OF assms(2)]] assms(1) run] .
  moreover have "db_snapshot db' = db_snapshot db \<and> db_bad db' = db_bad db \<and>
      (db_snapshot db \<noteq> None \<longrightarrow> db_tables db' = db_tables db) \<and>
      (case r of Inl err \<Rightarrow> True
       | Inr a \<Rightarrow> stmt (db_collate db) (db_clock db) (db_tables db') = Inr (db_tables db', a))"
    using run assms(2) unfolding reading_def
    by (cases "db_events db"; cases "db_snapshot db")
      (auto simp: run_sql_def next_event_def apply_stmt_def quiet_event_def
        split: sum.splits prod.splits if_splits; metis)+
  ultimately show "db_inv db' \<and> db_guar db db' \<and> db_snapshot db' = db_snapshot db \<and>
    db_bad db' = db_bad db \<and> (db_snapshot db \<noteq> None \<longrightarrow> db_tables db' = db_tables db) \<and>
    (case r of Inl err \<Rightarrow> True
     | Inr a \<Rightarrow> stmt (db_collate db) (db_clock db) (db_tables db') = Inr (db_tables db', a))"
    by blast
qed

lemma borrow_wp:
  assumes "db_inv db" "idle db"
  shows "wp borrow_connection (\<lambda>e db'. db_inv db' \<and> db_guar db db' \<and> db_snapshot db' = None) db"
  using assms
  by (auto simp: wp_def borrow_connection_def reconnect_def idle_def db_inv_def db_guar_def
      env_ok_def committed_def split: list.splits option.splits)

text \<open>A writing statement outside a transaction acts on the tables other clients left.\<close>

lemma ExecuteUpdate_auto:
  assumes "db_inv db" "db_snapshot db = None" "growing stmt" "fallback \<noteq> kOk"
  shows "wp (ExecuteUpdate stmt fallback) (\<lambda>r db'. db_inv db' \<and> db_guar db db' \<and> db_snapshot db' = None \<and>
    (case r of
       Inl (status, err) \<Rightarrow> status \<noteq> kOk
     | Inr a \<Rightarrow> \<exists>t1. db_grow (db_collate db) (db_tables db) t1 \<and> tables_ok (db_collate db) t1 \<and>
         stmt (db_collate db) (db_clock db) t1 = Inr (db_tables db', a))) db"
proof (rule wpI)
  fix r db'
  assume run: "run_state (ExecuteUpdate stmt fallback) db = (r, db')"
  have "db_inv db' \<and> db_guar db db'"
    using db_guarantee.assured_run [OF safe_ExecuteUpdate [OF assms(3)] assms(1) run] .
  moreover have "db_snapshot db' = None \<and> (case r of
       Inl (status, err) \<Rightarrow> status \<noteq> kOk
     | Inr a \<Rightarrow> \<exists>t1. db_grow (db_collate db) (db_tables db) t1 \<and> tables_ok (db_collate db) t1 \<and>
         stmt (db_collate db) (db_clock db) t1 = Inr (db_tables db', a))"
  proof (cases "db_events db")
    case Nil
    then show ?thesis
      using run assms(2,4) db_inv_tables [OF assms(1)]
      by (auto simp: ExecuteUpdate_def run_sql_def next_event_def quiet_event_def apply_stmt_def
          StatementFailure_def markBad_def split: sum.splits prod.splits if_splits
          intro!: exI [of _ "db_tables db"])
  next
    case (Cons e es)
    then have env: "db_grow (db_collate db) (db_tables db) (se_env e (db_tables db))"
      "tables_ok (db_collate db) (se_env e (db_tables db))"
      using assms(1) db_inv_tables [OF assms(1)]
      by (auto simp: db_inv_def env_ok_def db_grow_def)
    then show ?thesis
      using run assms(2,4) Cons
      by (auto simp: ExecuteUpdate_def run_sql_def next_event_def apply_stmt_def
          StatementFailure_def markBad_def split: sum.splits prod.splits if_splits)
  qed
  ultimately show "db_inv db' \<and> db_guar db db' \<and> db_snapshot db' = None \<and>
    (case r of
       Inl (status, err) \<Rightarrow> status \<noteq> kOk
     | Inr a \<Rightarrow> \<exists>t1. db_grow (db_collate db) (db_tables db) t1 \<and> tables_ok (db_collate db) t1 \<and>
         stmt (db_collate db) (db_clock db) t1 = Inr (db_tables db', a))"
    by blast
qed

lemma run_sql_auto:
  assumes "db_inv db" "db_snapshot db = None" "growing stmt"
  shows "wp (run_sql stmt) (\<lambda>r db'. db_inv db' \<and> db_guar db db' \<and> db_snapshot db' = None \<and>
    (case r of
       Inl err \<Rightarrow> True
     | Inr a \<Rightarrow> \<exists>t1. db_grow (db_collate db) (db_tables db) t1 \<and> tables_ok (db_collate db) t1 \<and>
         stmt (db_collate db) (db_clock db) t1 = Inr (db_tables db', a))) db"
proof (rule wpI)
  fix r db'
  assume run: "run_state (run_sql stmt) db = (r, db')"
  then have exec: "run_state (ExecuteUpdate stmt kQueryFailed) db =
      (case r of
         Inl err \<Rightarrow> (case run_state (StatementFailure err kQueryFailed) db' of
                       (status, db2) \<Rightarrow> (Inl (status, err), db2))
       | Inr a \<Rightarrow> (Inr a, db'))"
    by (simp add: ExecuteUpdate_def split: sum.splits prod.splits)
  have "db_snapshot db' = None"
    using run assms(2)
    by (cases "db_events db")
      (auto simp: run_sql_def next_event_def apply_stmt_def quiet_event_def
        split: sum.splits prod.splits if_splits)
  then show "db_inv db' \<and> db_guar db db' \<and> db_snapshot db' = None \<and>
    (case r of
       Inl err \<Rightarrow> True
     | Inr a \<Rightarrow> \<exists>t1. db_grow (db_collate db) (db_tables db) t1 \<and> tables_ok (db_collate db) t1 \<and>
         stmt (db_collate db) (db_clock db) t1 = Inr (db_tables db', a))"
    using db_guarantee.assured_run [OF safe_run_sql [OF assms(3)] assms(1) run] exec
      wpD [OF ExecuteUpdate_auto [OF assms, of kQueryFailed]]
    by (cases r) auto
qed

definition repo_inv :: "Db \<Rightarrow> bool" where
  "repo_inv db \<longleftrightarrow> db_inv db \<and> idle db"

section \<open>Operations without a transaction\<close>

definition auto_inv :: "Db \<Rightarrow> bool" where
  "auto_inv db \<longleftrightarrow> db_inv db \<and> db_snapshot db = None"

interpretation auto_guarantee: preorder_guarantee auto_inv db_guar
  by unfold_locales (auto intro: db_guarantee.R_refl db_guarantee.R_trans)

abbreviation auto_safe :: "(Db, 'a) state \<Rightarrow> bool" where
  "auto_safe \<equiv> assured auto_inv db_guar"

lemma auto_run_sql: "growing stmt \<Longrightarrow> auto_safe (run_sql stmt)"
  unfolding assured_def auto_inv_def by (blast intro: wp_mono [OF run_sql_auto])

lemma auto_StatementFailure: "auto_safe (StatementFailure err fallback)"
  unfolding assured_def auto_inv_def
  by (intro allI impI, rule wp_mono [OF StatementFailure_wp]) auto

lemma auto_ExecuteUpdate: "growing stmt \<Longrightarrow> auto_safe (ExecuteUpdate stmt fallback)"
  unfolding ExecuteUpdate_def
  by (intro auto_guarantee.assured_rules auto_run_sql auto_StatementFailure)

lemma auto_last_id: "auto_safe (modify (\<lambda>db. db\<lparr>db_last_insert_id := i\<rparr>))"
  by (simp add: assured_def wp_def auto_inv_def db_inv_def db_guar_def env_ok_def)

lemmas auto_sql = auto_guarantee.assured_rules auto_run_sql auto_StatementFailure
  auto_ExecuteUpdate auto_last_id

lemma borrow_then:
  assumes "repo_inv db" "\<And>e. auto_safe (f e)" "run_state (borrow_connection \<bind> f) db = (r, db')"
  shows "repo_inv db' \<and> db_guar db db'"
proof -
  have "wp (borrow_connection \<bind> f) (\<lambda>_ db'. repo_inv db' \<and> db_guar db db') db"
  proof (rule wp_bind, rule wp_mono [OF borrow_wp], goal_cases)
    case (3 e db1)
    then have "auto_inv db1"
      by (simp add: auto_inv_def)
    then have "wp (f e) (\<lambda>_ db2. auto_inv db2 \<and> db_guar db1 db2) db1"
      using assms(2) by (simp add: assured_def)
    then show ?case
      by (rule wp_mono)
        (use 3 in \<open>auto simp: auto_inv_def repo_inv_def idle_def intro: db_guarantee.R_trans\<close>)
  qed (use assms(1) in \<open>auto simp: repo_inv_def\<close>)
  then show ?thesis
    using assms(3) by (rule wpD)
qed

section \<open>A concrete database\<close>

definition empty_tables :: Tables where
  "empty_tables = \<lparr>t_users = [], t_next_user_id = 1, t_friendships = [], t_next_friendship_id = 1,
     t_conversations = [], t_conversation_members = [], t_groups = [], t_group_members = [],
     t_messages = []\<rparr>"

text \<open>A server that compares bytes, never fails and has no other client.\<close>

definition quiet_db :: "Tables \<Rightarrow> Db" where
  "quiet_db t = \<lparr>db_tables = t, db_collate = (\<lambda>s. s), db_clock = ''now'', db_events = [],
     db_borrows = [], db_snapshot = None, db_bad = False, db_last_insert_id = 0\<rparr>"

lemma empty_tables_ok: "tables_ok ck empty_tables"
  by (simp add: tables_ok_def messages_ok_def users_ok_def friendships_ok_def groups_ok_def
      empty_tables_def)

lemma quiet_db_inv: "tables_ok (\<lambda>s. s) t \<Longrightarrow> repo_inv (quiet_db t)"
  by (simp add: repo_inv_def db_inv_def idle_def env_ok_def committed_def quiet_db_def)

end
