(* ===== verification/MessageRepository.thy ===== *)
theory MessageRepository
  imports MySql
begin

text \<open>
  The message store, \<^verbatim>\<open>src/src/db/message_repository.cc\<close>: the SQL statements of the repository over
  the tables of \<^verbatim>\<open>MySql\<close>, and its methods as programs of the database state. An event of the
  server covers every client call of one statement (prepare, execute, store, bind, fetch), which
  all lead to the same status. The clock reading of \<^verbatim>\<open>markDelivered\<close> and \<^verbatim>\<open>markRead\<close> is an argument.
\<close>

section \<open>Results and interface\<close>

record CreateMessageResult =
  cmr_status :: RepositoryStatus
  cmr_message_id :: messageId
  cmr_message :: "MessageRecord option"
  cmr_created :: bool

record ListOfflineMessagesResult =
  lom_status :: RepositoryStatus
  lom_messages :: "MessageRecord list"
  lom_has_more :: bool

record MarkResult =
  mk_status :: RepositoryStatus
  mk_affected_rows :: int

record FindOrCreateConversationResult =
  foc_status :: RepositoryStatus
  foc_conversation_id :: conversationId
  foc_created :: bool

record FindMessageResult =
  fm_status :: RepositoryStatus
  fm_message :: "MessageRecord option"

record 'w IMessageRepository =
  imr_findOrCreateSingleConversation :: "userId \<Rightarrow> userId \<Rightarrow> ('w, FindOrCreateConversationResult) state"
  imr_createMessage :: "MessageRecord \<Rightarrow> ('w, CreateMessageResult) state"
  imr_findMessageByClientMsgId :: "userId \<Rightarrow> string \<Rightarrow> ('w, FindMessageResult) state"
  imr_listOfflineMessages :: "userId \<Rightarrow> int \<Rightarrow> string \<Rightarrow> ('w, ListOfflineMessagesResult) state"
  imr_markDelivered :: "timestamp \<Rightarrow> userId \<Rightarrow> messageId list \<Rightarrow> ('w, MarkResult) state"
  imr_markRead :: "timestamp \<Rightarrow> userId \<Rightarrow> messageId list \<Rightarrow> ('w, MarkResult) state"

definition create_failure :: "RepositoryStatus \<Rightarrow> CreateMessageResult" where
  "create_failure status =
     \<lparr>cmr_status = status, cmr_message_id = [], cmr_message = None, cmr_created = False\<rparr>"

definition list_failure :: "RepositoryStatus \<Rightarrow> ListOfflineMessagesResult" where
  "list_failure status = \<lparr>lom_status = status, lom_messages = [], lom_has_more = False\<rparr>"

definition conversation_failure :: "RepositoryStatus \<Rightarrow> FindOrCreateConversationResult" where
  "conversation_failure status =
     \<lparr>foc_status = status, foc_conversation_id = [], foc_created = False\<rparr>"

definition find_failure :: "RepositoryStatus \<Rightarrow> FindMessageResult" where
  "find_failure status = \<lparr>fm_status = status, fm_message = None\<rparr>"

section \<open>Statements\<close>

definition select_message_by_client :: "userId \<Rightarrow> string \<Rightarrow> (MessageRow option) stmt" where
  "select_message_by_client from_uid client_id ck now t =
     Inr (t, find (\<lambda>r. r_from_user_id r = from_uid \<and> ck (r_client_msg_id r) = ck client_id)
               (t_messages t))"

definition select_conversation_by_key :: "string \<Rightarrow> (conversationId option) stmt" where
  "select_conversation_by_key key ck now t =
     Inr (t, map_option cv_id
        (find (\<lambda>c. map_option ck (cv_single_chat_key c) = Some (ck key)) (t_conversations t)))"

definition conversation_clash :: "(string \<Rightarrow> string) \<Rightarrow> string \<Rightarrow> string \<Rightarrow> Tables \<Rightarrow> bool" where
  "conversation_clash ck cid key t \<longleftrightarrow>
     (\<exists>c \<in> set (t_conversations t).
        ck (cv_id c) = ck cid \<or> map_option ck (cv_single_chat_key c) = Some (ck key))"

definition new_single_conversation :: "string \<Rightarrow> string \<Rightarrow> ConversationRow" where
  "new_single_conversation cid key =
     \<lparr>cv_id = cid, cv_type = ''single'', cv_single_chat_key = Some key, cv_last_seq = 0\<rparr>"

definition insert_conversation :: "string \<Rightarrow> string \<Rightarrow> unit stmt" where
  "insert_conversation cid key ck now t =
     (if conversation_clash ck cid key t then Inl kMysqlDuplicateEntryError
      else Inr (t\<lparr>t_conversations := t_conversations t @ [new_single_conversation cid key]\<rparr>, ()))"

definition upsert_conversation :: "string \<Rightarrow> string \<Rightarrow> unit stmt" where
  "upsert_conversation cid key ck now t =
     (if conversation_clash ck cid key t then Inr (t, ())
      else Inr (t\<lparr>t_conversations := t_conversations t @ [new_single_conversation cid key]\<rparr>, ()))"

definition member_clash :: "(string \<Rightarrow> string) \<Rightarrow> string \<Rightarrow> userId \<Rightarrow> Tables \<Rightarrow> bool" where
  "member_clash ck cid uid t \<longleftrightarrow>
     (\<exists>m \<in> set (t_conversation_members t). ck (cm_conversation_id m) = ck cid \<and> cm_user_id m = uid)"

definition new_conversation_member :: "string \<Rightarrow> userId \<Rightarrow> ConversationMemberRow" where
  "new_conversation_member cid uid =
     \<lparr>cm_conversation_id = cid, cm_user_id = uid, cm_role = ''member''\<rparr>"

definition insert_conversation_member :: "string \<Rightarrow> userId \<Rightarrow> unit stmt" where
  "insert_conversation_member cid uid ck now t =
     (if member_clash ck cid uid t then Inl kMysqlDuplicateEntryError
      else Inr (t\<lparr>t_conversation_members :=
             t_conversation_members t @ [new_conversation_member cid uid]\<rparr>, ()))"

definition upsert_conversation_member :: "string \<Rightarrow> userId \<Rightarrow> unit stmt" where
  "upsert_conversation_member cid uid ck now t =
     (if member_clash ck cid uid t then Inr (t, ())
      else Inr (t\<lparr>t_conversation_members :=
             t_conversation_members t @ [new_conversation_member cid uid]\<rparr>, ()))"

text \<open>\<^verbatim>\<open>UPDATE conversations SET last_seq=LAST_INSERT_ID(last_seq + 1)\<close>: the affected rows and the
  new value. Error 1690 is the out-of-range error of a \<^verbatim>\<open>BIGINT\<close> column.\<close>

definition bump_sequence :: "ConversationRow \<Rightarrow> ConversationRow" where
  "bump_sequence c = c\<lparr>cv_last_seq := cv_last_seq c + 1\<rparr>"

definition allocate_sequence :: "string \<Rightarrow> (nat \<times> int) stmt" where
  "allocate_sequence cid ck now t =
     (case find (\<lambda>c. ck (cv_id c) = ck cid) (t_conversations t) of
        None \<Rightarrow> Inr (t, (0, 0))
      | Some c \<Rightarrow>
          if cv_last_seq c \<ge> int64_max then Inl 1690
          else Inr (t\<lparr>t_conversations :=
                 map (\<lambda>c. if ck (cv_id c) = ck cid then bump_sequence c else c) (t_conversations t)\<rparr>,
               (1, cv_last_seq c + 1)))"

definition message_clash :: "(string \<Rightarrow> string) \<Rightarrow> MessageRow \<Rightarrow> Tables \<Rightarrow> bool" where
  "message_clash ck row t \<longleftrightarrow>
     (\<exists>r \<in> set (t_messages t).
        ck (r_id r) = ck (r_id row) \<or>
        (r_from_user_id r = r_from_user_id row \<and> ck (r_client_msg_id r) = ck (r_client_msg_id row)) \<or>
        (ck (r_conversation_id r) = ck (r_conversation_id row) \<and> r_sequence r = r_sequence row))"

definition insert_message :: "MessageRow \<Rightarrow> unit stmt" where
  "insert_message row ck now t =
     (if message_clash ck row t then Inl kMysqlDuplicateEntryError
      else Inr (t\<lparr>t_messages := t_messages t @ [row]\<rparr>, ()))"

text \<open>The sort key of the offline queue and the rows after a cursor, \<^verbatim>\<open>(created_at, id)\<close> in
  lexicographic order; a cursor that names no message of the user selects nothing.\<close>

definition offline_key :: "(string \<Rightarrow> string) \<Rightarrow> MessageRow \<Rightarrow> int \<times> string" where
  "offline_key ck r = (r_created_at r, ck (r_id r))"

definition after_cursor :: "(string \<Rightarrow> string) \<Rightarrow> Tables \<Rightarrow> userId \<Rightarrow> string \<Rightarrow> MessageRow \<Rightarrow> bool" where
  "after_cursor ck t uid cursor r \<longleftrightarrow>
     (if cursor = [] then True
      else case find (\<lambda>c. ck (r_id c) = ck cursor \<and> r_to_user_id c = uid) (t_messages t) of
             None \<Rightarrow> False
           | Some c \<Rightarrow> offline_key ck r > offline_key ck c)"

definition offline_rows :: "(string \<Rightarrow> string) \<Rightarrow> Tables \<Rightarrow> userId \<Rightarrow> string \<Rightarrow> MessageRow list" where
  "offline_rows ck t uid cursor =
     sort_key (offline_key ck)
       (filter (\<lambda>r. r_to_user_id r = uid \<and> r_status r = ToStorageMessageStatus kStored \<and>
                    after_cursor ck t uid cursor r) (t_messages t))"

definition select_offline :: "userId \<Rightarrow> string \<Rightarrow> int \<Rightarrow> (MessageRow list) stmt" where
  "select_offline uid cursor query_limit ck now t =
     Inr (t, take (nat query_limit) (offline_rows ck t uid cursor))"

definition update_rows ::
  "(MessageRow \<Rightarrow> bool) \<Rightarrow> (MessageRow \<Rightarrow> MessageRow) \<Rightarrow> Tables \<Rightarrow> Tables \<times> nat" where
  "update_rows P f t =
     (t\<lparr>t_messages := map (\<lambda>r. if P r then f r else r) (t_messages t)\<rparr>,
      length (filter P (t_messages t)))"

definition delivered_row :: "timestamp \<Rightarrow> MessageRow \<Rightarrow> MessageRow" where
  "delivered_row now r =
     r\<lparr>r_status := ToStorageMessageStatus kDelivered, r_delivered_at := Some now\<rparr>"

definition read_row :: "timestamp \<Rightarrow> MessageRow \<Rightarrow> MessageRow" where
  "read_row now r =
     r\<lparr>r_delivered_at := (case r_delivered_at r of None \<Rightarrow> Some now | Some d \<Rightarrow> Some d),
       r_status := ToStorageMessageStatus kRead, r_read_at := Some now\<rparr>"

definition deliverable :: "(string \<Rightarrow> string) \<Rightarrow> userId \<Rightarrow> messageId list \<Rightarrow> MessageRow \<Rightarrow> bool" where
  "deliverable ck uid ids r \<longleftrightarrow>
     ck (r_id r) \<in> set (map ck ids) \<and> r_to_user_id r = uid \<and>
     r_status r = ToStorageMessageStatus kStored"

definition readable :: "(string \<Rightarrow> string) \<Rightarrow> userId \<Rightarrow> messageId list \<Rightarrow> MessageRow \<Rightarrow> bool" where
  "readable ck uid ids r \<longleftrightarrow>
     ck (r_id r) \<in> set (map ck ids) \<and> r_to_user_id r = uid \<and>
     r_status r \<in> {ToStorageMessageStatus kStored, ToStorageMessageStatus kDelivered}"

definition update_delivered :: "timestamp \<Rightarrow> userId \<Rightarrow> messageId list \<Rightarrow> nat stmt" where
  "update_delivered at uid ids ck now t = Inr (update_rows (deliverable ck uid ids) (delivered_row at) t)"

definition update_read :: "timestamp \<Rightarrow> userId \<Rightarrow> messageId list \<Rightarrow> nat stmt" where
  "update_read at uid ids ck now t = Inr (update_rows (readable ck uid ids) (read_row at) t)"

section \<open>Methods\<close>

text \<open>The fetch buffers hold 65 bytes for the identifiers and 4097 for the content; a longer value
  makes \<^verbatim>\<open>mysql_stmt_fetch\<close> report truncation.\<close>

definition message_fits :: "MessageRow \<Rightarrow> bool" where
  "message_fits r \<longleftrightarrow>
     length (r_id r) \<le> 65 \<and> length (r_conversation_id r) \<le> 65 \<and>
     length (r_client_msg_id r) \<le> 65 \<and> length (r_content r) \<le> 4097"

definition Build :: "MessageRow \<Rightarrow> MessageRecord option" where
  "Build r =
     (case ParseMessageStatus (r_status r) of
        None \<Rightarrow> None
      | Some status \<Rightarrow>
          Some \<lparr>m_id = r_id r, m_conversation_id = r_conversation_id r,
                m_client_msg_id = r_client_msg_id r, m_sequence = r_sequence r,
                m_from_user_id = r_from_user_id r, m_to_user_id = r_to_user_id r,
                m_content = r_content r, m_status = status, m_created_at = r_created_at r,
                m_delivered_at = (case r_delivered_at r of None \<Rightarrow> 0 | Some d \<Rightarrow> d),
                m_read_at = (case r_read_at r of None \<Rightarrow> 0 | Some d \<Rightarrow> d)\<rparr>)"

definition ReadMessageByClientId :: "userId \<Rightarrow> string \<Rightarrow> (Db, FindMessageResult) state" where
  "ReadMessageByClientId from_uid client_id = do {
     r \<leftarrow> run_sql (select_message_by_client from_uid client_id);
     case r of
       Inl err \<Rightarrow> do { status \<leftarrow> StatementFailure err kQueryFailed; ret (find_failure status) }
     | Inr found \<Rightarrow>
         (case found of
            None \<Rightarrow> ret (find_failure kNotFound)
          | Some row \<Rightarrow>
              if \<not> message_fits row then ret (find_failure kQueryFailed)
              else (case Build row of
                      None \<Rightarrow> ret (find_failure kQueryFailed)
                    | Some m \<Rightarrow> ret \<lparr>fm_status = kOk, fm_message = Some m\<rparr>))
   }"

definition SingleChatKey :: "userId \<Rightarrow> userId \<Rightarrow> string" where
  "SingleChatKey a b = int_to_string (min a b) @ ''_'' @ int_to_string (max a b)"

definition SelectConversation :: "string \<Rightarrow> (Db, FindOrCreateConversationResult) state" where
  "SelectConversation key = do {
     r \<leftarrow> run_sql (select_conversation_by_key key);
     case r of
       Inl err \<Rightarrow> do { status \<leftarrow> StatementFailure err kQueryFailed; ret (conversation_failure status) }
     | Inr found \<Rightarrow>
         (case found of
            None \<Rightarrow> ret (conversation_failure kNotFound)
          | Some cid \<Rightarrow>
              if length cid > 65 then ret (conversation_failure kQueryFailed)
              else ret \<lparr>foc_status = kOk, foc_conversation_id = cid, foc_created = False\<rparr>)
   }"

definition SelectLastInsertId :: "(Db, int option) state" where
  "SelectLastInsertId = do {
     r \<leftarrow> run_sql (\<lambda>ck now t. Inr (t, ()));
     case r of
       Inl err \<Rightarrow> do { _ \<leftarrow> StatementFailure err kQueryFailed; ret None }
     | Inr _ \<Rightarrow> gets (\<lambda>db. Some (db_last_insert_id db))
   }"

definition rollback_with :: "'a \<Rightarrow> (Db, 'a) state" where
  "rollback_with x = do { Rollback; ret x }"

definition findOrCreate_members ::
  "userId \<Rightarrow> userId \<Rightarrow> conversationId \<Rightarrow> (Db, FindOrCreateConversationResult) state" where
  "findOrCreate_members user_a user_b conversation_id = do {
     r \<leftarrow> ExecuteUpdate (insert_conversation_member conversation_id user_a) kInsertFailed;
     case r of
       Inl (status, _) \<Rightarrow> rollback_with (conversation_failure status)
     | Inr _ \<Rightarrow> do {
         r2 \<leftarrow> (if user_a \<noteq> user_b
                then ExecuteUpdate (insert_conversation_member conversation_id user_b) kInsertFailed
                else ret (Inr ()));
         case r2 of
           Inl (status, _) \<Rightarrow> rollback_with (conversation_failure status)
         | Inr _ \<Rightarrow> do {
             c \<leftarrow> Commit;
             if \<not> c then rollback_with (conversation_failure kQueryFailed)
             else ret \<lparr>foc_status = kOk, foc_conversation_id = conversation_id, foc_created = True\<rparr>
           }
       }
   }"

definition findOrCreateSingleConversation ::
  "userId \<Rightarrow> userId \<Rightarrow> (Db, FindOrCreateConversationResult) state" where
  "findOrCreateSingleConversation user_a user_b = do {
     e \<leftarrow> borrow_connection;
     if e \<noteq> kNone then ret (conversation_failure (MapBorrowError e))
     else do {
       existing \<leftarrow> SelectConversation (SingleChatKey user_a user_b);
       if foc_status existing \<noteq> kNotFound then ret existing
       else do {
         b \<leftarrow> Begin;
         if \<not> b then ret (conversation_failure kQueryFailed)
         else do {
           r \<leftarrow> ExecuteUpdate (insert_conversation (''conv_'' @ SingleChatKey user_a user_b)
                  (SingleChatKey user_a user_b)) kInsertFailed;
           case r of
             Inl (status, err) \<Rightarrow> do {
               Rollback;
               if err = kMysqlDuplicateEntryError
               then do {
                 again \<leftarrow> SelectConversation (SingleChatKey user_a user_b);
                 ret (if foc_status again = kOk then again else conversation_failure kDuplicate)
               }
               else ret (conversation_failure status)
             }
           | Inr _ \<Rightarrow> findOrCreate_members user_a user_b (''conv_'' @ SingleChatKey user_a user_b)
         }
       }
     }
   }"

text \<open>The row written for a message; the delivery and read times are \<^verbatim>\<open>NULL\<close>.\<close>

definition message_row :: "MessageRecord \<Rightarrow> int \<Rightarrow> MessageRow" where
  "message_row m seq =
     \<lparr>r_id = m_id m, r_conversation_id = m_conversation_id m, r_sequence = seq,
      r_client_msg_id = m_client_msg_id m, r_from_user_id = m_from_user_id m,
      r_to_user_id = m_to_user_id m, r_content = m_content m,
      r_status = ToStorageMessageStatus (m_status m), r_created_at = m_created_at m,
      r_delivered_at = None, r_read_at = None\<rparr>"

definition existing_result :: "MessageRecord \<Rightarrow> CreateMessageResult" where
  "existing_result m =
     \<lparr>cmr_status = kOk, cmr_message_id = m_id m, cmr_message = Some m, cmr_created = False\<rparr>"

text \<open>
  The end of \<^verbatim>\<open>createMessage\<close>: insert and commit. After a failed insert the transaction is rolled back; a
  duplicate key may be an earlier copy of the same message, which is then read.
\<close>

definition insert_refused :: "MessageRecord \<Rightarrow> RepositoryStatus \<Rightarrow> nat \<Rightarrow> (Db, CreateMessageResult) state" where
  "insert_refused message status err = do {
     Rollback;
     if err = kMysqlDuplicateEntryError
     then do {
       duplicate \<leftarrow> ReadMessageByClientId (m_from_user_id message) (m_client_msg_id message);
       case fm_message duplicate of
         Some m \<Rightarrow>
           if fm_status duplicate = kOk then ret (existing_result m)
           else ret (create_failure (if fm_status duplicate = kNotFound then kDuplicate
                                     else fm_status duplicate))
       | None \<Rightarrow>
           ret (create_failure (if fm_status duplicate = kNotFound then kDuplicate
                                else fm_status duplicate))
     }
     else ret (create_failure status)
   }"

definition createMessage_store :: "MessageRecord \<Rightarrow> int \<Rightarrow> (Db, CreateMessageResult) state" where
  "createMessage_store message seq = do {
     r \<leftarrow> ExecuteUpdate (insert_message (message_row message seq)) kInsertFailed;
     case r of
       Inl (status, err) \<Rightarrow> insert_refused message status err
     | Inr _ \<Rightarrow> do {
         c \<leftarrow> Commit;
         if \<not> c then rollback_with (create_failure kQueryFailed)
         else ret \<lparr>cmr_status = kOk, cmr_message_id = m_id message,
                   cmr_message = Some (message\<lparr>m_sequence := seq\<rparr>), cmr_created = True\<rparr>
       }
   }"

definition createMessage_sequence :: "MessageRecord \<Rightarrow> (Db, CreateMessageResult) state" where
  "createMessage_sequence message = do {
     r \<leftarrow> ExecuteUpdate (allocate_sequence (m_conversation_id message)) kQueryFailed;
     case r of
       Inl (status, _) \<Rightarrow> rollback_with (create_failure status)
     | Inr (rows, v) \<Rightarrow>
         if rows \<noteq> 1 then rollback_with (create_failure kQueryFailed)
         else do {
           modify (\<lambda>db. db\<lparr>db_last_insert_id := v\<rparr>);
           seq \<leftarrow> SelectLastInsertId;
           case seq of
             None \<Rightarrow> rollback_with (create_failure kQueryFailed)
           | Some s \<Rightarrow>
               if s \<le> 0 then rollback_with (create_failure kQueryFailed)
               else createMessage_store message s
         }
   }"

fun upsert_members :: "conversationId \<Rightarrow> userId list \<Rightarrow> (Db, RepositoryStatus option) state" where
  "upsert_members cid [] = ret None"
| "upsert_members cid (uid # uids) = do {
     r \<leftarrow> ExecuteUpdate (upsert_conversation_member cid uid) kInsertFailed;
     case r of
       Inl (status, _) \<Rightarrow> rollback_with (Some status)
     | Inr _ \<Rightarrow> upsert_members cid uids
   }"

definition createMessage_transaction :: "MessageRecord \<Rightarrow> (Db, CreateMessageResult) state" where
  "createMessage_transaction message = do {
     b \<leftarrow> Begin;
     if \<not> b then ret (create_failure kQueryFailed)
     else do {
       r \<leftarrow> ExecuteUpdate (upsert_conversation (m_conversation_id message)
              (SingleChatKey (m_from_user_id message) (m_to_user_id message))) kInsertFailed;
       case r of
         Inl (status, _) \<Rightarrow> rollback_with (create_failure status)
       | Inr _ \<Rightarrow> do {
           failed \<leftarrow> upsert_members (m_conversation_id message)
                      [m_from_user_id message, m_to_user_id message];
           case failed of
             Some status \<Rightarrow> ret (create_failure status)
           | None \<Rightarrow> createMessage_sequence message
         }
     }
   }"

definition createMessage :: "MessageRecord \<Rightarrow> (Db, CreateMessageResult) state" where
  "createMessage message = do {
     e \<leftarrow> borrow_connection;
     if e \<noteq> kNone then ret (create_failure (MapBorrowError e))
     else do {
       existing \<leftarrow> ReadMessageByClientId (m_from_user_id message) (m_client_msg_id message);
       case (fm_status existing, fm_message existing) of
         (kOk, Some m) \<Rightarrow> ret (existing_result m)
       | _ \<Rightarrow> if fm_status existing \<noteq> kNotFound then ret (create_failure (fm_status existing))
              else createMessage_transaction message
     }
   }"

definition findMessageByClientMsgId :: "userId \<Rightarrow> string \<Rightarrow> (Db, FindMessageResult) state" where
  "findMessageByClientMsgId from_uid client_id = do {
     e \<leftarrow> borrow_connection;
     if e \<noteq> kNone then ret (find_failure (MapBorrowError e))
     else ReadMessageByClientId from_uid client_id
   }"

text \<open>The fetch loop of \<^verbatim>\<open>listOfflineMessages\<close>; None is a truncated or unreadable row.\<close>

fun offline_fetch ::
  "int \<Rightarrow> MessageRow list \<Rightarrow> MessageRecord list \<Rightarrow> (MessageRecord list \<times> bool) option" where
  "offline_fetch safe_limit [] acc = Some (acc, False)"
| "offline_fetch safe_limit (r # rs) acc =
     (if \<not> message_fits r then None
      else case Build r of
             None \<Rightarrow> None
           | Some m \<Rightarrow>
               if int (length acc) = safe_limit then Some (acc, True)
               else offline_fetch safe_limit rs (acc @ [m]))"

definition listOfflineMessages ::
  "userId \<Rightarrow> int \<Rightarrow> string \<Rightarrow> (Db, ListOfflineMessagesResult) state" where
  "listOfflineMessages uid limit cursor = do {
     e \<leftarrow> borrow_connection;
     if e \<noteq> kNone then ret (list_failure (MapBorrowError e))
     else (let safe_limit = min (if limit > 0 then limit else 20) 100;
               query_limit = safe_limit + 1
           in do {
             r \<leftarrow> run_sql (select_offline uid cursor query_limit);
             case r of
               Inl err \<Rightarrow> do { status \<leftarrow> StatementFailure err kQueryFailed; ret (list_failure status) }
             | Inr rows \<Rightarrow>
                 (case offline_fetch safe_limit rows [] of
                    None \<Rightarrow> ret (list_failure kQueryFailed)
                  | Some (ms, further) \<Rightarrow>
                      ret \<lparr>lom_status = kOk, lom_messages = ms, lom_has_more = further\<rparr>)
           })
   }"

definition mark_messages :: "nat stmt \<Rightarrow> messageId list \<Rightarrow> (Db, MarkResult) state" where
  "mark_messages stmt message_ids =
     (if message_ids = [] then ret \<lparr>mk_status = kOk, mk_affected_rows = 0\<rparr>
      else do {
        e \<leftarrow> borrow_connection;
        if e \<noteq> kNone then ret \<lparr>mk_status = MapBorrowError e, mk_affected_rows = 0\<rparr>
        else do {
          r \<leftarrow> ExecuteUpdate stmt kQueryFailed;
          case r of
            Inl (status, _) \<Rightarrow> ret \<lparr>mk_status = status, mk_affected_rows = 0\<rparr>
          | Inr rows \<Rightarrow> ret \<lparr>mk_status = kOk, mk_affected_rows = wrap_int32 (int rows)\<rparr>
        }
      })"

definition markDelivered :: "timestamp \<Rightarrow> userId \<Rightarrow> messageId list \<Rightarrow> (Db, MarkResult) state" where
  "markDelivered now uid message_ids = mark_messages (update_delivered now uid message_ids) message_ids"

definition markRead :: "timestamp \<Rightarrow> userId \<Rightarrow> messageId list \<Rightarrow> (Db, MarkResult) state" where
  "markRead now uid message_ids = mark_messages (update_read now uid message_ids) message_ids"

section \<open>Every statement lets the tables grow\<close>

lemma reading_selects [simp]:
  "reading (select_message_by_client u c)" "reading (select_conversation_by_key k)"
  "reading (select_offline u c l)" "reading (\<lambda>ck now t. Inr (t, ()))"
  by (auto simp: reading_def select_message_by_client_def select_conversation_by_key_def
      select_offline_def)

lemma tables_ok_frame [simp]:
  "tables_ok ck (t\<lparr>t_conversation_members := ms\<rparr>) = tables_ok ck t"
  "messages_grow t (t\<lparr>t_conversation_members := ms\<rparr>)"
  "users_grow t (t\<lparr>t_conversation_members := ms\<rparr>)"
  "users_grow t (t\<lparr>t_conversations := cs\<rparr>)"
  "users_grow t (t\<lparr>t_messages := rs\<rparr>)"
  "friends_grow t (t\<lparr>t_conversation_members := ms\<rparr>)"
  "friends_grow t (t\<lparr>t_conversations := cs\<rparr>)"
  "friends_grow t (t\<lparr>t_messages := rs\<rparr>)"
  by (auto simp: tables_ok_def messages_ok_def users_ok_def friendships_ok_def groups_ok_def
      users_grow_def intro: messages_grow_subset friends_grow_same)

lemma tables_ok_conversations:
  "tables_ok ck (t\<lparr>t_conversations := cs\<rparr>) \<longleftrightarrow>
     messages_ok ck (t\<lparr>t_conversations := cs\<rparr>) \<and> users_ok ck t \<and> friendships_ok t \<and> groups_ok ck t"
  by (simp add: tables_ok_def users_ok_def friendships_ok_def groups_ok_def)

lemma tables_ok_messages:
  "tables_ok ck (t\<lparr>t_messages := rs\<rparr>) \<longleftrightarrow>
     messages_ok ck (t\<lparr>t_messages := rs\<rparr>) \<and> users_ok ck t \<and> friendships_ok t \<and> groups_ok ck t"
  by (simp add: tables_ok_def users_ok_def friendships_ok_def groups_ok_def)

lemma growing_conversation_member:
  "growing (insert_conversation_member cid uid)" "growing (upsert_conversation_member cid uid)"
  by (auto simp: growing_def db_grow_def insert_conversation_member_def
      upsert_conversation_member_def split: if_splits)

lemma db_grow_new_conversation:
  assumes "\<not> conversation_clash ck cid key t"
  shows "db_grow ck t (t\<lparr>t_conversations := t_conversations t @ [new_single_conversation cid key]\<rparr>)"
proof -
  have "messages_ok ck (t\<lparr>t_conversations := t_conversations t @ [new_single_conversation cid key]\<rparr>)"
    if "messages_ok ck t"
    using that assms
    by (auto simp: messages_ok_def conversation_clash_def new_single_conversation_def int64_max_def)
  then show ?thesis
    by (auto simp: db_grow_def tables_ok_conversations tables_ok_def [of ck t]
        intro: messages_grow_subset)
qed

lemma growing_conversation:
  "growing (insert_conversation cid key)" "growing (upsert_conversation cid key)"
  by (auto simp: growing_def insert_conversation_def upsert_conversation_def
      split: if_splits intro: db_grow_new_conversation)

lemma growing_allocate: "growing (allocate_sequence cid)"
proof (unfold growing_def, intro allI impI)
  fix ck now t t' a
  assume ok: "tables_ok ck t" and run: "allocate_sequence cid ck now t = Inr (t', a)"
  show "db_grow ck t t'"
  proof (cases "find (\<lambda>c. ck (cv_id c) = ck cid) (t_conversations t)")
    case None
    then show ?thesis
      using run by (simp add: allocate_sequence_def)
  next
    case (Some c)
    define f where "f = (\<lambda>c. if ck (cv_id c) = ck cid then bump_sequence c else c)"
    have t': "t' = t\<lparr>t_conversations := map f (t_conversations t)\<rparr>" "cv_last_seq c < int64_max"
      using run Some by (auto simp: allocate_sequence_def f_def split: if_splits)
    have id: "cv_id (f c) = cv_id c" "cv_last_seq c \<le> cv_last_seq (f c)" for c
      by (simp_all add: f_def bump_sequence_def)
    have c: "c \<in> set (t_conversations t)" "ck (cv_id c) = ck cid"
      using Some by (auto simp: find_Some_iff)
    have m: "messages_ok ck t"
      using ok by (simp add: tables_ok_def)
    have bound: "cv_last_seq (f d) \<le> int64_max \<and> 0 \<le> cv_last_seq (f d)" if "d \<in> set (t_conversations t)" for d
    proof (cases "ck (cv_id d) = ck cid")
      case True
      then have "d = c"
        using m c that by (auto simp: messages_ok_def distinct_map inj_on_def)
      then show ?thesis
        using t'(2) m c(1) by (auto simp: f_def bump_sequence_def messages_ok_def)
    next
      case False
      then show ?thesis
        using m that by (auto simp: f_def messages_ok_def)
    qed
    have "messages_ok ck t'"
      using m bound unfolding messages_ok_def t'(1)
      by (auto simp: id o_def) (meson id(2) order_trans)
    then show ?thesis
      using ok id unfolding t'(1) db_grow_def tables_ok_conversations tables_ok_def [of ck t]
      by (auto simp: messages_grow_def same_conversation_def) (use same_message_refl in blast)
  qed
qed

text \<open>A row update that keeps the identity of a message and only raises its status.\<close>

lemma db_grow_update_rows:
  assumes "\<And>r. P r \<Longrightarrow> r_status r \<in> {0, 1, 2} \<Longrightarrow> same_message r (f r) \<and> r_status (f r) \<in> {0, 1, 2}"
    and ok: "tables_ok ck t"
  shows "db_grow ck t (fst (update_rows P f t))"
proof -
  define g where "g = (\<lambda>r. if P r then f r else r)"
  have m: "messages_ok ck t"
    using ok by (simp add: tables_ok_def)
  have g: "same_message r (g r) \<and> r_status (g r) \<in> {0, 1, 2}" if "r \<in> set (t_messages t)" for r
    using that m assms(1) by (auto simp: g_def messages_ok_def)
  have keys: "map ((\<lambda>r. ck (r_id r)) \<circ> g) (t_messages t) = map (\<lambda>r. ck (r_id r)) (t_messages t)"
    "map ((\<lambda>r. (r_from_user_id r, ck (r_client_msg_id r))) \<circ> g) (t_messages t) =
       map (\<lambda>r. (r_from_user_id r, ck (r_client_msg_id r))) (t_messages t)"
    "map ((\<lambda>r. (ck (r_conversation_id r), r_sequence r)) \<circ> g) (t_messages t) =
       map (\<lambda>r. (ck (r_conversation_id r), r_sequence r)) (t_messages t)"
    using g by (auto simp: same_message_def)
  have "messages_ok ck (t\<lparr>t_messages := map g (t_messages t)\<rparr>)"
    using m g unfolding messages_ok_def
    by (simp add: keys) (auto simp: same_message_def)
  moreover have "messages_grow t (t\<lparr>t_messages := map g (t_messages t)\<rparr>)"
    using g by (auto simp: messages_grow_def) (use same_conversation_refl in blast)
  ultimately show ?thesis
    using ok by (simp add: update_rows_def g_def db_grow_def tables_ok_messages tables_ok_def [of ck t])
qed

lemma growing_delivered: "growing (update_delivered at uid ids)"
proof (unfold growing_def, intro allI impI)
  fix ck now t t' a
  assume "tables_ok ck t" "update_delivered at uid ids ck now t = Inr (t', a)"
  then show "db_grow ck t t'"
    using db_grow_update_rows [of "deliverable ck uid ids" "delivered_row at" ck t]
    by (auto simp: update_delivered_def deliverable_def delivered_row_def same_message_def)
qed

lemma growing_read: "growing (update_read at uid ids)"
proof (unfold growing_def, intro allI impI)
  fix ck now t t' a
  assume ok: "tables_ok ck t" and run: "update_read at uid ids ck now t = Inr (t', a)"
  have "same_message r (read_row at r) \<and> r_status (read_row at r) \<in> {0, 1, 2}"
    if "readable ck uid ids r" for r
    using that by (auto simp: readable_def read_row_def same_message_def)
  then have "db_grow ck t (fst (update_rows (readable ck uid ids) (read_row at) t))"
    using ok by (intro db_grow_update_rows)
  then show "db_grow ck t t'"
    using run by (simp add: update_read_def)
qed

lemmas growing_statements = growing_conversation_member growing_conversation growing_allocate
  growing_delivered growing_read reading_growing [OF reading_selects(1)] reading_growing [OF reading_selects(2)]
  reading_growing [OF reading_selects(3)] reading_growing [OF reading_selects(4)]

text \<open>Inserting a message is growth when its sequence number was allocated: it is positive, at
  most the counter of its conversation, and above every number in use there.\<close>

definition sequence_allocated :: "(string \<Rightarrow> string) \<Rightarrow> MessageRow \<Rightarrow> Tables \<Rightarrow> bool" where
  "sequence_allocated ck row t \<longleftrightarrow>
     0 < r_sequence row \<and> r_status row \<in> {0, 1, 2} \<and>
     (\<exists>c \<in> set (t_conversations t).
        ck (cv_id c) = ck (r_conversation_id row) \<and> r_sequence row \<le> cv_last_seq c)"

lemma db_grow_insert_message:
  assumes "sequence_allocated ck row t" "insert_message row ck now t = Inr (t', u)"
  shows "db_grow ck t t'"
proof -
  have t': "t' = t\<lparr>t_messages := t_messages t @ [row]\<rparr>" and fresh: "\<not> message_clash ck row t"
    using assms(2) by (auto simp: insert_message_def split: if_splits)
  have "messages_ok ck t'" if "messages_ok ck t"
    using that assms(1) fresh unfolding t' messages_ok_def message_clash_def sequence_allocated_def
    by auto
  then show ?thesis
    by (auto simp: t' db_grow_def tables_ok_messages tables_ok_def [of ck t]
        intro: messages_grow_subset)
qed

section \<open>What \<^verbatim>\<open>createMessage\<close> returns\<close>

lemma Build_keys:
  "Build row = Some m \<Longrightarrow>
     m_id m = r_id row \<and> m_conversation_id m = r_conversation_id row \<and> m_sequence m = r_sequence row \<and>
     m_client_msg_id m = r_client_msg_id row \<and> m_from_user_id m = r_from_user_id row \<and>
     m_to_user_id m = r_to_user_id row \<and> m_content m = r_content row \<and>
     m_created_at m = r_created_at row \<and> ToStorageMessageStatus (m_status m) = r_status row"
  by (auto simp: Build_def dest: ParseMessageStatus_SomeD split: option.splits)

text \<open>A successful read of a message by its client id.\<close>

definition message_found :: "userId \<Rightarrow> string \<Rightarrow> MessageRecord \<Rightarrow> (string \<Rightarrow> string) \<Rightarrow> Tables \<Rightarrow> bool" where
  "message_found from_uid client_id m ck t \<longleftrightarrow>
     (\<exists>row \<in> set (t_messages t). Build row = Some m \<and> r_from_user_id row = from_uid \<and>
        ck (r_client_msg_id row) = ck client_id)"

lemma ReadMessageByClientId_wp:
  assumes "db_inv db"
  shows "wp (ReadMessageByClientId from_uid client_id) (\<lambda>res db'. db_inv db' \<and> db_guar db db' \<and>
    db_snapshot db' = db_snapshot db \<and> (db_bad db \<longrightarrow> db_bad db') \<and>
    (db_snapshot db \<noteq> None \<longrightarrow> db_tables db' = db_tables db) \<and>
    (case fm_message res of
       None \<Rightarrow> fm_status res \<noteq> kOk
     | Some m \<Rightarrow> fm_status res = kOk \<and>
         message_found from_uid client_id m (db_collate db) (db_tables db'))) db"
  unfolding ReadMessageByClientId_def
proof (rule wp_bind, rule wp_mono [OF run_sql_read [OF assms reading_selects(1)]], goal_cases)
  case (1 r db1)
  then show ?case
    by (intro wp_intros wp_mono [OF StatementFailure_wp])
      (auto simp: find_failure_def select_message_by_client_def message_found_def find_Some_iff
        intro: db_guarantee.R_trans)
qed

text \<open>What a successful \<^verbatim>\<open>createMessage\<close> promises about the committed tables.\<close>

definition message_created :: "MessageRecord \<Rightarrow> Db \<Rightarrow> CreateMessageResult \<Rightarrow> Db \<Rightarrow> bool" where
  "message_created m db res db' \<longleftrightarrow>
     (\<exists>seq t1. cmr_message res = Some (m\<lparr>m_sequence := seq\<rparr>) \<and> cmr_message_id res = m_id m \<and>
        db_grow (db_collate db) (committed db) t1 \<and>
        t_messages (committed db') = t_messages t1 @ [message_row m seq] \<and>
        (\<forall>r \<in> set (t_messages t1).
           db_collate db (r_conversation_id r) = db_collate db (m_conversation_id m) \<longrightarrow>
           r_sequence r < seq) \<and>
        (\<forall>r \<in> set (t_messages t1). \<not> (r_from_user_id r = m_from_user_id m \<and>
           db_collate db (r_client_msg_id r) = db_collate db (m_client_msg_id m))))"

definition create_post :: "MessageRecord \<Rightarrow> Db \<Rightarrow> CreateMessageResult \<Rightarrow> Db \<Rightarrow> bool" where
  "create_post m db res db' \<longleftrightarrow>
     db_inv db' \<and> db_guar db db' \<and> idle db' \<and>
     (if cmr_status res = kOk
      then if cmr_created res then message_created m db res db'
           else \<exists>m'. cmr_message res = Some m' \<and> cmr_message_id res = m_id m' \<and>
                  message_found (m_from_user_id m) (m_client_msg_id m) m' (db_collate db) (committed db')
      else cmr_message res = None \<and> \<not> cmr_created res)"

lemma create_post_failure:
  "db_inv db' \<Longrightarrow> db_guar db db' \<Longrightarrow> idle db' \<Longrightarrow> status \<noteq> kOk \<Longrightarrow>
     create_post m db (create_failure status) db'"
  by (simp add: create_post_def create_failure_def)

lemma message_created_trans:
  assumes "db_guar db db1" "message_created m db1 res db2"
  shows "message_created m db res db2"
  using assms db_grow_trans unfolding message_created_def db_guar_def by metis

lemma create_post_trans: "db_guar db db1 \<Longrightarrow> create_post m db1 res db2 \<Longrightarrow> create_post m db res db2"
proof -
  assume guar: "db_guar db db1" and post: "create_post m db1 res db2"
  have "db_collate db1 = db_collate db" "db_guar db db2"
    using guar post db_guarantee.R_trans by (auto simp: create_post_def db_guar_def)
  then show ?thesis
    using post message_created_trans [OF guar] by (auto simp: create_post_def)
qed

lemma rollback_failure:
  assumes "db_inv db" "status \<noteq> kOk"
  shows "wp (rollback_with (create_failure status)) (create_post m db) db"
  unfolding rollback_with_def
  using assms
  by (intro wp_intros wp_mono [OF Rollback_wp]) (auto intro: create_post_failure)

text \<open>The state before the message is inserted: the transaction has not touched the messages,
  and the counter of the conversation is the allocated number, still unused.\<close>

definition ready_to_store :: "MessageRecord \<Rightarrow> int \<Rightarrow> Tables \<Rightarrow> Db \<Rightarrow> bool" where
  "ready_to_store m seq t0 db \<longleftrightarrow>
     in_txn t0 db \<and> t_messages (db_tables db) = t_messages t0 \<and> 0 < seq \<and>
     (\<exists>c \<in> set (t_conversations (db_tables db)).
        db_collate db (cv_id c) = db_collate db (m_conversation_id m) \<and> cv_last_seq c = seq) \<and>
     (\<forall>r \<in> set (t_messages t0).
        db_collate db (r_conversation_id r) = db_collate db (m_conversation_id m) \<longrightarrow> r_sequence r < seq)"

lemma ready_sequence_allocated:
  "ready_to_store m seq t0 db \<Longrightarrow>
     sequence_allocated (db_collate db) (message_row m seq) (db_tables db)"
  by (cases "m_status m") (auto simp: ready_to_store_def sequence_allocated_def message_row_def)

lemma ready_in_txn: "ready_to_store m seq t0 db \<Longrightarrow> in_txn t0 db"
  by (simp add: ready_to_store_def)

lemma ready_allowed:
  "ready_to_store m seq t0 db \<Longrightarrow> allowed (insert_message (message_row m seq)) db"
  unfolding allowed_def using db_grow_insert_message ready_sequence_allocated by blast

text \<open>After a failed insert the transaction is rolled back; whether or not that succeeds, the
  messages visible to a following read are committed ones.\<close>

lemma read_after_rollback:
  assumes "db_inv db" "db_snapshot db = Some t0" "t_messages (db_tables db) = t_messages t0"
  shows "wp (do { Rollback; ReadMessageByClientId from_uid client_id })
    (\<lambda>res db'. db_inv db' \<and> db_guar db db' \<and> idle db' \<and>
       (case fm_message res of
          None \<Rightarrow> fm_status res \<noteq> kOk
        | Some m \<Rightarrow> fm_status res = kOk \<and>
            message_found from_uid client_id m (db_collate db) (committed db'))) db"
proof (rule wp_bind, rule wp_mono [OF Rollback_wp [OF assms(1)]], goal_cases)
  case rolled: (1 u db1)
  then have inv: "db_inv db1" and ck: "db_collate db1 = db_collate db"
    by (simp_all add: db_guar_def)
  show ?case
  proof (rule wp_mono [OF ReadMessageByClientId_wp [OF inv]], goal_cases)
    case (1 res db2)
    have "db_guar db db2"
      using rolled 1 db_guarantee.R_trans by blast
    moreover have "idle db2"
      using rolled 1 by (auto simp: idle_def)
    moreover have "t_messages (db_tables db2) = t_messages (committed db2)"
      using 1 rolled assms(2,3)
      by (auto simp: committed_def split: if_splits)
    ultimately show ?case
      using 1 ck by (auto simp: message_found_def split: option.splits)
  qed
qed

lemma insert_refused_wp:
  assumes "in_txn t0 db" "status \<noteq> kOk"
    and "err = kMysqlDuplicateEntryError \<Longrightarrow> t_messages (db_tables db) = t_messages t0"
  shows "wp (insert_refused m status err) (create_post m db) db"
proof (cases "err = kMysqlDuplicateEntryError")
  case True
  then have "wp (do { Rollback; ReadMessageByClientId (m_from_user_id m) (m_client_msg_id m) })
      (\<lambda>res db'. db_inv db' \<and> db_guar db db' \<and> idle db' \<and>
         (case fm_message res of
            None \<Rightarrow> fm_status res \<noteq> kOk
          | Some m' \<Rightarrow> fm_status res = kOk \<and>
              message_found (m_from_user_id m) (m_client_msg_id m) m' (db_collate db) (committed db')))
      db"
    using assms by (intro read_after_rollback) (auto simp: in_txn_def)
  then show ?thesis
    using True
    by (auto simp: insert_refused_def wp_def create_post_def create_failure_def existing_result_def
        split: prod.splits option.splits)
next
  case False
  have inv: "db_inv db" using assms(1) by (simp add: in_txn_def)
  show ?thesis
    using False inv assms(2)
    by (auto simp: insert_refused_def intro!: wp_intros wp_mono [OF Rollback_wp [OF inv]] intro: create_post_failure)
qed

text \<open>The messages a commit makes visible after the insert.\<close>

lemma inserted_created:
  assumes "ready_to_store m seq t0 db"
    and "insert_message (message_row m seq) (db_collate db) (db_clock db) (db_tables db) = Inr (db_tables db1, ())"
    and "db_snapshot db2 = None" "db_tables db2 = db_tables db1" "db_guar db db1" "db_guar db1 db2"
  shows "message_created m db
    \<lparr>cmr_status = kOk, cmr_message_id = m_id m, cmr_message = Some (m\<lparr>m_sequence := seq\<rparr>), cmr_created = True\<rparr> db2"
proof -
  have t1: "db_tables db1 = (db_tables db)\<lparr>t_messages := t_messages (db_tables db) @ [message_row m seq]\<rparr>"
    and fresh: "\<not> message_clash (db_collate db) (message_row m seq) (db_tables db)"
    using assms(2) by (simp_all add: insert_message_def split: if_splits)
  have "t_messages (db_tables db1) = t_messages t0 @ [message_row m seq]"
    using assms(1) by (simp add: t1 ready_to_store_def)
  moreover have "db_collate db1 = db_collate db" using assms(5) by (simp add: db_guar_def)
  ultimately show ?thesis
    using fresh assms
    by (auto simp: message_created_def committed_def ready_to_store_def in_txn_def
        message_clash_def message_row_def intro!: exI [of _ seq] exI [of _ t0])
qed

lemma createMessage_store_wp:
  assumes "ready_to_store m seq t0 db"
  shows "wp (createMessage_store m seq) (create_post m db) db"
  unfolding createMessage_store_def
proof (rule wp_bind, rule wp_mono [OF ExecuteUpdate_txn [OF ready_in_txn [OF assms]
        ready_allowed [OF assms], of kInsertFailed]], goal_cases)
  case 1
  show ?case by simp
next
  case stored: (2 r db1)
  then have guar: "db_guar db db1" and inv: "db_inv db1" and txn: "in_txn t0 db1"
    by (auto simp: txn_step_def in_txn_def)
  show ?case
  proof (cases r)
    case (Inl fail)
    obtain status err where r: "r = Inl (status, err)" and bad: "status \<noteq> kOk"
      and same: "db_tables db1 = db_tables db \<or> IsConnectionError err"
      using stored Inl by (cases fail) (auto simp: stmt_effect_def)
    have "t_messages (db_tables db1) = t_messages t0" if "err = kMysqlDuplicateEntryError"
      using same assms that
      by (auto simp: IsConnectionError_def kMysqlDuplicateEntryError_def kMysqlServerGoneError_def
          kMysqlServerLostError_def ready_to_store_def)
    from wp_mono [OF insert_refused_wp [OF txn bad this] create_post_trans [OF guar]]
    show ?thesis by (simp add: r)
  next
    case (Inr u)
    then have ins: "insert_message (message_row m seq) (db_collate db) (db_clock db) (db_tables db) =
        Inr (db_tables db1, ())"
      using stored by (simp add: stmt_effect_def)
    show ?thesis
      unfolding Inr sum.case
    proof (rule wp_bind, rule wp_mono [OF Commit_wp [OF txn]], goal_cases)
      case (1 c db2)
      then have guar2: "db_guar db db2"
        using guar db_guarantee.R_trans by blast
      then show ?case
        using 1 inserted_created [OF assms ins _ _ guar, of db2]
        by (cases c) (auto intro!: wp_intros wp_mono [OF rollback_failure] intro: create_post_trans
            simp: create_post_def idle_def)
    qed
  qed
qed

lemma allocate_sequence_fresh:
  assumes "messages_ok ck t" "allocate_sequence cid ck now t = Inr (t', (1, v))"
  shows "t_messages t' = t_messages t \<and> 0 < v \<and>
    (\<exists>c \<in> set (t_conversations t'). ck (cv_id c) = ck cid \<and> cv_last_seq c = v) \<and>
    (\<forall>r \<in> set (t_messages t). ck (r_conversation_id r) = ck cid \<longrightarrow> r_sequence r < v)"
proof -
  obtain c where c: "find (\<lambda>c. ck (cv_id c) = ck cid) (t_conversations t) = Some c"
    and v: "v = cv_last_seq c + 1"
    and t': "t' = t\<lparr>t_conversations :=
      map (\<lambda>c. if ck (cv_id c) = ck cid then bump_sequence c else c) (t_conversations t)\<rparr>"
    using assms(2) by (auto simp: allocate_sequence_def split: option.splits if_splits)
  have mem: "c \<in> set (t_conversations t)" "ck (cv_id c) = ck cid"
    using c by (auto simp: find_Some_iff)
  have "cv_last_seq d \<le> cv_last_seq c" if "d \<in> set (t_conversations t)" "ck (cv_id d) = ck cid" for d
  proof -
    have "d = c"
      using assms(1) mem that by (auto simp: messages_ok_def distinct_map inj_on_def)
    then show ?thesis by simp
  qed
  then have "\<forall>r \<in> set (t_messages t). ck (r_conversation_id r) = ck cid \<longrightarrow> r_sequence r < v"
    using assms(1) unfolding messages_ok_def v by (metis add1_zle_eq add_le_cancel_right order_trans)
  moreover have "bump_sequence c \<in> set (t_conversations t')"
    using mem by (auto simp: t' intro!: image_eqI [of _ _ c])
  then have "\<exists>c \<in> set (t_conversations t'). ck (cv_id c) = ck cid \<and> cv_last_seq c = v"
    using mem by (intro bexI [of _ "bump_sequence c"]) (simp_all add: v bump_sequence_def)
  moreover have "0 < v" "t_messages t' = t_messages t"
    using assms(1) mem by (auto simp: t' v messages_ok_def)
  ultimately show ?thesis
    by blast
qed

lemma SelectLastInsertId_txn:
  assumes "in_txn t0 db"
  shows "wp SelectLastInsertId (\<lambda>r db'. txn_step t0 db db' \<and>
    (r = None \<or> (r = Some (db_last_insert_id db) \<and> db_tables db' = db_tables db))) db"
proof -
  have "allowed (\<lambda>ck now t. Inr (t, ())) db"
    by (simp add: allowed_def)
  from run_sql_txn [OF assms this] show ?thesis
    unfolding SelectLastInsertId_def
  proof (intro wp_bind, elim wp_mono, goal_cases)
    case (1 r db1)
    then show ?case
      by (intro wp_intros wp_mono [OF StatementFailure_wp])
        (auto simp: stmt_effect_def txn_step_def intro: db_guarantee.R_trans)
  qed
qed

text \<open>The allocated number is read back and the message stored under it.\<close>

lemma sequence_read_wp:
  assumes "ready_to_store m v t0 db" "db_last_insert_id db = v"
  shows "wp SelectLastInsertId (\<lambda>seq. wp (case seq of
         None \<Rightarrow> rollback_with (create_failure kQueryFailed)
       | Some s \<Rightarrow>
           if s \<le> 0 then rollback_with (create_failure kQueryFailed)
           else createMessage_store m s) (create_post m db)) db"
proof (rule wp_mono [OF SelectLastInsertId_txn [OF ready_in_txn [OF assms(1)]]], goal_cases)
  case (1 seq db1)
  then have step: "db_inv db1" "in_txn t0 db1" "db_guar db db1"
    by (auto simp: txn_step_def in_txn_def)
  then have "db_collate db1 = db_collate db"
    by (simp add: db_guar_def)
  then have "ready_to_store m v t0 db1" if "seq = Some v"
    using 1 that assms(1) step(2) by (auto simp: ready_to_store_def)
  moreover have "seq = None \<or> seq = Some v" "0 < v"
    using 1 assms by (auto simp: ready_to_store_def)
  ultimately show ?case
    using step(1)
    by (auto intro!: wp_mono [OF createMessage_store_wp] wp_mono [OF rollback_failure]
        intro: create_post_trans [OF step(3)])
qed

lemma createMessage_sequence_wp:
  assumes "in_txn t0 db" "t_messages (db_tables db) = t_messages t0"
  shows "wp (createMessage_sequence m) (create_post m db) db"
proof -
  have inv: "db_inv db"
    using assms by (simp add: in_txn_def)
  note exec = ExecuteUpdate_txn [OF assms(1) growing_allowed [OF growing_allocate inv], of kQueryFailed]
  show ?thesis
    unfolding createMessage_sequence_def
  proof (rule wp_bind, rule wp_mono [OF exec], goal_cases)
    case 1
    show ?case by simp
  next
    case alloc: (2 r db1)
    then have inv1: "db_inv db1" and guar1: "db_guar db db1" and txn1: "in_txn t0 db1"
      and ck: "db_collate db1 = db_collate db"
      by (auto simp: txn_step_def in_txn_def db_guar_def)
    have fail: "wp (rollback_with (create_failure status)) (create_post m db) db1" if "status \<noteq> kOk" for status
      using rollback_failure [OF inv1 that] create_post_trans [OF guar1] by (rule wp_mono)
    show ?case
    proof (intro wp_intros, goal_cases)
      case (1 e status err)
      then show ?case using alloc by (intro fail) auto
    next
      case (2 p rows v)
      then show ?case by (intro fail) simp
    next
      case (3 p rows v)
      then have "allocate_sequence (m_conversation_id m) (db_collate db) (db_clock db) (db_tables db) =
          Inr (db_tables db1, (1, v))"
        using alloc by (simp add: stmt_effect_def)
      moreover define db2 where "db2 = db1\<lparr>db_last_insert_id := v\<rparr>"
      moreover have "in_txn t0 db2" and guar2: "db_guar db db2"
        using txn1 guar1 by (simp_all add: db2_def in_txn_def db_inv_def db_guar_def env_ok_def)
      ultimately have "ready_to_store m v t0 db2"
        using allocate_sequence_fresh db_inv_tables [OF inv] assms(2) ck
        by (auto simp: tables_ok_def ready_to_store_def)
      from sequence_read_wp [OF this] show ?case
        by (auto simp: db2_def elim!: wp_mono intro: create_post_trans [OF guar2 [unfolded db2_def]])
    qed
  qed
qed

lemma keeps_messages:
  "upsert_conversation_member cid uid ck now t = Inr (t', u) \<Longrightarrow> t_messages t' = t_messages t"
  "upsert_conversation cid key ck now t = Inr (t', u) \<Longrightarrow> t_messages t' = t_messages t"
  by (auto simp: upsert_conversation_member_def upsert_conversation_def split: if_splits)

declare upsert_members.simps [simp del]

lemma upsert_members_txn:
  assumes "in_txn t0 db" "t_messages (db_tables db) = t_messages t0"
  shows "wp (upsert_members cid uids) (\<lambda>failed db'. db_guar db db' \<and> db_inv db' \<and>
    (case failed of
       None \<Rightarrow> in_txn t0 db' \<and> t_messages (db_tables db') = t_messages t0
     | Some status \<Rightarrow> idle db' \<and> status \<noteq> kOk)) db"
  using assms
proof (induction uids arbitrary: db)
  case Nil
  then show ?case
    by (auto intro!: wp_intros simp: upsert_members.simps in_txn_def db_guarantee.R_refl)
next
  case (Cons uid uids)
  have inv: "db_inv db"
    using Cons.prems by (simp add: in_txn_def)
  note exec = ExecuteUpdate_txn [OF Cons.prems(1)
      growing_allowed [OF growing_conversation_member(2) inv], of kInsertFailed]
  show ?case
    unfolding upsert_members.simps rollback_with_def
  proof (rule wp_bind, rule wp_mono [OF exec], goal_cases)
    case 1
    show ?case by simp
  next
    case up: (2 r db1)
    then have step: "db_inv db1" "in_txn t0 db1" "db_guar db db1"
      by (auto simp: txn_step_def in_txn_def)
    show ?case
    proof (cases r)
      case (Inl fail)
      then show ?thesis
        using up step
        by (cases fail) (auto intro!: wp_intros wp_mono [OF Rollback_wp [OF step(1)]]
            intro: db_guarantee.R_trans)
    next
      case (Inr u)
      then have "t_messages (db_tables db1) = t_messages t0"
        using up Cons.prems(2) keeps_messages(1) by (auto simp: stmt_effect_def)
      then show ?thesis
        unfolding Inr sum.case
        by (rule wp_mono [OF Cons.IH [OF step(2)]])
          (use step(3) db_guarantee.R_trans in \<open>blast\<close>)
    qed
  qed
qed

lemma createMessage_transaction_wp:
  assumes "db_inv db" "db_snapshot db = None"
  shows "wp (createMessage_transaction m) (create_post m db) db"
  unfolding createMessage_transaction_def
proof (rule wp_bind, rule wp_mono [OF Begin_wp [OF assms]], goal_cases)
  case begun: (1 b db1)
  show ?case
  proof (cases b)
    case False
    then show ?thesis
      using begun by (auto intro!: wp_intros create_post_failure simp: idle_def)
  next
    case True
    define t0 where "t0 = db_tables db1"
    have txn: "in_txn t0 db1" and inv: "db_inv db1" and guar: "db_guar db db1"
      using begun True by (simp_all add: t0_def)
    note exec = ExecuteUpdate_txn [OF txn growing_allowed [OF growing_conversation(2) inv], of kInsertFailed]
    have "wp (do {
       r \<leftarrow> ExecuteUpdate (upsert_conversation (m_conversation_id m)
              (SingleChatKey (m_from_user_id m) (m_to_user_id m))) kInsertFailed;
       case r of
         Inl (status, _) \<Rightarrow> rollback_with (create_failure status)
       | Inr _ \<Rightarrow> do {
           failed \<leftarrow> upsert_members (m_conversation_id m) [m_from_user_id m, m_to_user_id m];
           case failed of
             Some status \<Rightarrow> ret (create_failure status)
           | None \<Rightarrow> createMessage_sequence m
         }
     }) (create_post m db1) db1"
    proof (rule wp_bind, rule wp_mono [OF exec], goal_cases)
      case 1
      show ?case by simp
    next
      case up: (2 r db2)
      then have step: "db_inv db2" "in_txn t0 db2" "db_guar db1 db2"
        by (auto simp: txn_step_def in_txn_def)
      show ?case
      proof (cases r)
        case (Inl fail)
        then show ?thesis
          using up step
          by (cases fail) (auto intro!: wp_mono [OF rollback_failure] intro: create_post_trans)
      next
        case (Inr u)
        then have msgs: "t_messages (db_tables db2) = t_messages t0"
          using up keeps_messages(2) by (auto simp: stmt_effect_def t0_def)
        show ?thesis
          unfolding Inr sum.case
        proof (rule wp_bind, rule wp_mono [OF upsert_members_txn [OF step(2) msgs]], goal_cases)
          case (1 failed db3)
          then show ?case
            using step(3)
            by (cases failed)
              (auto intro!: wp_intros create_post_failure wp_mono [OF createMessage_sequence_wp]
                intro: create_post_trans db_guarantee.R_trans)
        qed
      qed
    qed
    from wp_mono [OF this create_post_trans [OF guar]] True show ?thesis
      by simp
  qed
qed

lemma createMessage_wp:
  assumes "db_inv db" "idle db"
  shows "wp (createMessage m) (create_post m db) db"
  unfolding createMessage_def
proof (rule wp_bind, rule wp_mono [OF borrow_wp [OF assms]], goal_cases)
  case borrowed: (1 e db1)
  then have inv1: "db_inv db1" and guar1: "db_guar db db1" and none1: "db_snapshot db1 = None"
    and ck1: "db_collate db1 = db_collate db"
    by (auto simp: db_guar_def)
  show ?case
  proof (cases "e = kNone")
    case False
    then show ?thesis
      using borrowed
      by (auto intro!: wp_intros create_post_failure simp: idle_def MapBorrowError_def)
  next
    case True
    have "wp (do {
       existing \<leftarrow> ReadMessageByClientId (m_from_user_id m) (m_client_msg_id m);
       case (fm_status existing, fm_message existing) of
         (kOk, Some m) \<Rightarrow> ret (existing_result m)
       | _ \<Rightarrow> if fm_status existing \<noteq> kNotFound then ret (create_failure (fm_status existing))
              else createMessage_transaction m
     }) (create_post m db1) db1"
    proof (rule wp_bind, rule wp_mono [OF ReadMessageByClientId_wp [OF inv1]], goal_cases)
      case (1 res db2)
      then have step: "db_inv db2" "db_guar db1 db2" "db_snapshot db2 = None"
        using none1 by auto
      show ?case
      proof (cases "fm_message res")
        case None
        then show ?thesis
          using 1 step
          by (cases "fm_status res")
            (auto intro!: wp_intros create_post_failure
              wp_mono [OF createMessage_transaction_wp, OF _ _ create_post_trans] simp: idle_def)
      next
        case (Some m')
        then show ?thesis
          using 1 step
          by (auto intro!: wp_intros simp: create_post_def existing_result_def idle_def committed_def)
      qed
    qed
    from wp_mono [OF this create_post_trans [OF guar1]] True show ?thesis
      by simp
  qed
qed

section \<open>The other operations\<close>

lemma safe_findOrCreate: "safe (findOrCreateSingleConversation a b)"
  unfolding findOrCreateSingleConversation_def findOrCreate_members_def SelectConversation_def
    rollback_with_def
  by (intro safe_sql growing_statements)

lemma offline_fetch_result:
  assumes "offline_fetch lim rows acc = Some (ms, further)" "int (length acc) \<le> lim"
  shows "ms = acc @ map (the \<circ> Build) (take (nat lim - length acc) rows) \<and>
    (further \<longleftrightarrow> length rows > nat lim - length acc)"
  using assms
proof (induction lim rows acc rule: offline_fetch.induct)
  case (2 lim r rs acc)
  then show ?case
    by (auto split: if_splits option.splits simp: take_Cons' nat_le_iff)
qed simp

lemma offline_fetch_total:
  assumes "\<forall>r \<in> set rows. message_fits r \<and> Build r \<noteq> None"
  shows "offline_fetch lim rows acc \<noteq> None"
  using assms by (induction lim rows acc rule: offline_fetch.induct) auto

definition page_limit :: "int \<Rightarrow> nat" where
  "page_limit limit = nat (min (if limit > 0 then limit else 20) 100)"

definition list_post :: "userId \<Rightarrow> int \<Rightarrow> string \<Rightarrow> Db \<Rightarrow> ListOfflineMessagesResult \<Rightarrow> Db \<Rightarrow> bool" where
  "list_post uid limit cursor db res db' \<longleftrightarrow>
     db_inv db' \<and> db_guar db db' \<and> idle db' \<and>
     (lom_status res = kOk \<longrightarrow>
        (let rows = offline_rows (db_collate db) (committed db') uid cursor
         in lom_messages res = map (the \<circ> Build) (take (page_limit limit) rows) \<and>
            (lom_has_more res \<longleftrightarrow> length rows > page_limit limit)))"

lemma listOfflineMessages_wp:
  assumes "db_inv db" "idle db"
  shows "wp (listOfflineMessages uid limit cursor) (list_post uid limit cursor db) db"
  unfolding listOfflineMessages_def
proof (rule wp_bind, rule wp_mono [OF borrow_wp [OF assms]], goal_cases)
  case borrowed: (1 e db1)
  define lim where "lim = min (if limit > 0 then limit else 20) 100"
  have inv1: "db_inv db1" and none1: "db_snapshot db1 = None" and ck: "db_collate db1 = db_collate db"
    using borrowed by (auto simp: db_guar_def)
  have lim: "0 < lim" "nat lim = page_limit limit" "nat (lim + 1) = Suc (page_limit limit)"
    by (auto simp: lim_def page_limit_def)
  note read = run_sql_read [OF inv1 reading_selects(3) [of uid cursor "lim + 1"]]
  have body: "wp (do {
       r \<leftarrow> run_sql (select_offline uid cursor (lim + 1));
       case r of
         Inl err \<Rightarrow> do { status \<leftarrow> StatementFailure err kQueryFailed; ret (list_failure status) }
       | Inr rows \<Rightarrow>
           (case offline_fetch lim rows [] of
              None \<Rightarrow> ret (list_failure kQueryFailed)
            | Some (ms, further) \<Rightarrow>
                ret \<lparr>lom_status = kOk, lom_messages = ms, lom_has_more = further\<rparr>)
     }) (list_post uid limit cursor db) db1"
  proof (rule wp_bind, rule wp_mono [OF read], goal_cases)
    case (1 r db2)
    then have step: "db_inv db2" "db_guar db db2" "db_snapshot db2 = None"
      using borrowed none1 by (auto intro: db_guarantee.R_trans)
    show ?case
    proof (intro wp_intros, goal_cases)
      case (1 err)
      show ?case
        by (rule wp_mono [OF StatementFailure_wp [OF step(1)]], intro wp_intros)
          (use step in \<open>auto simp: list_post_def list_failure_def idle_def intro: db_guarantee.R_trans\<close>)
    next
      case (2 rows)
      then show ?case
        using step by (simp add: list_post_def list_failure_def idle_def)
    next
      case (3 rows p ms further)
      have rows: "rows = take (Suc (page_limit limit))
          (offline_rows (db_collate db) (committed db2) uid cursor)"
        using \<open>_ \<and> db_guar db1 db2 \<and> _\<close> 3(1) step(3) lim(3) ck
        by (simp add: select_offline_def committed_def)
      show ?case
        using offline_fetch_result [of lim rows "[]" ms further] 3 lim step
        by (auto simp: list_post_def idle_def Let_def rows min_def take_map)
    qed
  qed
  show ?case
  proof (cases "e = kNone")
    case True
    then show ?thesis
      using body by (simp add: lim_def [symmetric] Let_def)
  next
    case False
    then show ?thesis
      using borrowed
      by (auto simp: list_post_def list_failure_def idle_def MapBorrowError_def intro!: wp_intros)
  qed
qed

text \<open>The marking operations: on success the committed tables are those other clients left, with
  exactly the selected rows changed.\<close>

definition mark_post ::
  "(MessageRow \<Rightarrow> bool) \<Rightarrow> (MessageRow \<Rightarrow> MessageRow) \<Rightarrow> Db \<Rightarrow> MarkResult \<Rightarrow> Db \<Rightarrow> bool" where
  "mark_post P f db res db' \<longleftrightarrow>
     db_inv db' \<and> db_guar db db' \<and> idle db' \<and>
     (mk_status res = kOk \<longrightarrow>
        (\<exists>t1. db_grow (db_collate db) (committed db) t1 \<and>
           committed db' = fst (update_rows P f t1) \<and>
           mk_affected_rows res = wrap_int32 (int (snd (update_rows P f t1)))))"

lemma mark_messages_wp:
  assumes "db_inv db" "idle db" "growing stmt" "message_ids \<noteq> []"
    and stmt: "\<And>now t. stmt (db_collate db) now t = Inr (update_rows P f t)"
  shows "wp (mark_messages stmt message_ids) (mark_post P f db) db"
proof -
  have "wp (do {
        e \<leftarrow> borrow_connection;
        if e \<noteq> kNone then ret \<lparr>mk_status = MapBorrowError e, mk_affected_rows = 0\<rparr>
        else do {
          r \<leftarrow> ExecuteUpdate stmt kQueryFailed;
          case r of
            Inl (status, _) \<Rightarrow> ret \<lparr>mk_status = status, mk_affected_rows = 0\<rparr>
          | Inr rows \<Rightarrow> ret \<lparr>mk_status = kOk, mk_affected_rows = wrap_int32 (int rows)\<rparr>
        }
      }) (mark_post P f db) db"
  proof (rule wp_bind, rule wp_mono [OF borrow_wp [OF assms(1,2)]], goal_cases)
    case borrowed: (1 e db1)
    then have base: "db_grow (db_collate db) (committed db) (db_tables db1)"
      and ck: "db_collate db1 = db_collate db"
      by (auto simp: db_guar_def committed_def)
    note exec = ExecuteUpdate_auto [of db1 stmt kQueryFailed]
    show ?case
    proof (intro wp_intros, goal_cases)
      case 1
      then show ?case
        using borrowed by (auto simp: mark_post_def idle_def MapBorrowError_def)
    next
      case 2
      show ?case
      proof (rule wp_mono [OF exec], goal_cases)
        case (5 r db2)
        then have step: "db_inv db2" "db_guar db db2" "db_snapshot db2 = None"
          using borrowed by (auto intro: db_guarantee.R_trans)
        show ?case
          using 5 step base ck stmt
          by (intro wp_intros)
            (auto simp: mark_post_def idle_def committed_def intro: db_grow_trans)
      qed (use borrowed assms in auto)
    qed
  qed
  then show ?thesis
    using assms(4) by (simp add: mark_messages_def)
qed

lemma markDelivered_wp:
  assumes "db_inv db" "idle db" "ids \<noteq> []"
  shows "wp (markDelivered now uid ids)
    (mark_post (deliverable (db_collate db) uid ids) (delivered_row now) db) db"
  unfolding markDelivered_def
  by (rule mark_messages_wp [OF assms(1,2) growing_delivered assms(3)])
    (simp add: update_delivered_def)

lemma markRead_wp:
  assumes "db_inv db" "idle db" "ids \<noteq> []"
  shows "wp (markRead now uid ids)
    (mark_post (readable (db_collate db) uid ids) (read_row now) db) db"
  unfolding markRead_def
  by (rule mark_messages_wp [OF assms(1,2) growing_read assms(3)]) (simp add: update_read_def)

section \<open>Cursor pagination\<close>

lemma sorted_key_filter_greater:
  fixes k :: "'a \<Rightarrow> 'b :: linorder"
  assumes "sorted_wrt (\<lambda>a b. k a < k b) xs" "n < length xs"
  shows "filter (\<lambda>x. k (xs ! n) < k x) xs = drop (Suc n) xs"
proof -
  have less: "k (xs ! i) < k (xs ! j)" if "i < j" "j < length xs" for i j
    using assms(1) that by (simp add: sorted_wrt_iff_nth_less)
  have "\<not> k (xs ! n) < k x" if x: "x \<in> set (take (Suc n) xs)" for x
  proof -
    obtain i where "i < length (take (Suc n) xs)" "take (Suc n) xs ! i = x"
      using x unfolding in_set_conv_nth by blast
    then show ?thesis
      using less [of i n] assms(2) by (cases "i = n") auto
  qed
  then have "filter (\<lambda>x. k (xs ! n) < k x) (take (Suc n) xs) = []"
    by (simp add: filter_empty_conv)
  moreover have "k (xs ! n) < k x" if x: "x \<in> set (drop (Suc n) xs)" for x
  proof -
    obtain i where "i < length (drop (Suc n) xs)" "drop (Suc n) xs ! i = x"
      using x unfolding in_set_conv_nth by blast
    then show ?thesis
      using less [of n "Suc n + i"] assms(2) by auto
  qed
  then have "filter (\<lambda>x. k (xs ! n) < k x) (drop (Suc n) xs) = drop (Suc n) xs"
    by simp
  ultimately show ?thesis
    using filter_append [of "\<lambda>x. k (xs ! n) < k x" "take (Suc n) xs" "drop (Suc n) xs"] by simp
qed

lemma strict_sort_key:
  fixes k :: "'a \<Rightarrow> 'b :: linorder"
  assumes "distinct (map k xs)"
  shows "sorted_wrt (\<lambda>a b. k a < k b) (sort_key k xs)"
proof -
  have "sorted (map k (sort_key k xs))" "distinct (map k (sort_key k xs))"
    using assms by (simp_all add: distinct_map)
  then have "sorted_wrt (<) (map k (sort_key k xs))"
    by (simp add: strict_sorted_iff)
  then show ?thesis
    by (simp add: sorted_wrt_map)
qed

lemma offline_rows_strict:
  assumes "messages_ok ck t"
  shows "sorted_wrt (\<lambda>a b. offline_key ck a < offline_key ck b) (offline_rows ck t uid cursor)"
proof -
  have "inj_on (offline_key ck) (set (t_messages t))" "distinct (t_messages t)"
    using assms by (auto simp: messages_ok_def distinct_map inj_on_def offline_key_def)
  then show ?thesis
    unfolding offline_rows_def
    by (intro strict_sort_key) (auto simp: distinct_map intro: inj_on_subset)
qed

lemma offline_rows_members:
  "set (offline_rows ck t uid cursor) =
     {r \<in> set (t_messages t). r_to_user_id r = uid \<and> r_status r = 0 \<and> after_cursor ck t uid cursor r}"
  by (auto simp: offline_rows_def)

lemma find_message_unique:
  assumes "messages_ok ck t" "r \<in> set (t_messages t)" "r_to_user_id r = uid"
  shows "find (\<lambda>c. ck (r_id c) = ck (r_id r) \<and> r_to_user_id c = uid) (t_messages t) = Some r"
proof -
  have "inj_on (\<lambda>r. ck (r_id r)) (set (t_messages t))"
    using assms(1) by (simp add: messages_ok_def distinct_map)
  then show ?thesis
    using assms(2,3)
    by (cases "find (\<lambda>c. ck (r_id c) = ck (r_id r) \<and> r_to_user_id c = uid) (t_messages t)")
      (auto simp: find_None_iff find_Some_iff inj_on_def)
qed

text \<open>The page after the \<^term>\<open>n\<close>-th row is what follows that row.\<close>

lemma offline_rows_next:
  assumes ok: "messages_ok ck t" and n: "n < length (offline_rows ck t uid cursor)"
    and id: "r_id (offline_rows ck t uid cursor ! n) \<noteq> []"
  shows "offline_rows ck t uid (r_id (offline_rows ck t uid cursor ! n)) =
    drop (Suc n) (offline_rows ck t uid cursor)"
proof -
  define rows where "rows = offline_rows ck t uid cursor"
  define c where "c = rows ! n"
  have c: "c \<in> set (t_messages t)" "r_to_user_id c = uid" "after_cursor ck t uid cursor c"
    using n nth_mem [OF n] by (auto simp: c_def rows_def offline_rows_members)
  have cursor: "after_cursor ck t uid (r_id c) r \<longleftrightarrow> offline_key ck c < offline_key ck r" for r
    using find_message_unique [OF ok c(1,2)] id by (simp add: after_cursor_def c_def rows_def)
  have later: "offline_key ck c < offline_key ck r \<longleftrightarrow>
      offline_key ck c < offline_key ck r \<and> after_cursor ck t uid cursor r" for r
    using c(3) by (auto simp: after_cursor_def split: if_splits option.splits)
  have "filter (\<lambda>r. r_to_user_id r = uid \<and> r_status r = 0 \<and> after_cursor ck t uid (r_id c) r) (t_messages t) =
      filter (\<lambda>r. offline_key ck c < offline_key ck r)
        (filter (\<lambda>r. r_to_user_id r = uid \<and> r_status r = 0 \<and> after_cursor ck t uid cursor r) (t_messages t))"
    unfolding filter_filter cursor by (rule filter_cong) (use later in auto)
  then have "offline_rows ck t uid (r_id c) = filter (\<lambda>r. offline_key ck c < offline_key ck r) rows"
    by (simp add: offline_rows_def rows_def filter_sort)
  then show ?thesis
    using sorted_key_filter_greater [OF offline_rows_strict [OF ok] n]
    by (simp add: c_def rows_def)
qed

text \<open>A client that pulls pages of \<^term>\<open>n\<close> messages until the server reports no more.\<close>

fun pull_pages :: "nat \<Rightarrow> (string \<Rightarrow> string) \<Rightarrow> Tables \<Rightarrow> userId \<Rightarrow> nat \<Rightarrow> string \<Rightarrow> MessageRow list" where
  "pull_pages 0 ck t uid n cursor = []"
| "pull_pages (Suc fuel) ck t uid n cursor =
     (let rows = offline_rows ck t uid cursor; page = take n rows
      in if length rows > n then page @ pull_pages fuel ck t uid n (r_id (last page)) else page)"

lemma pull_pages_rows:
  assumes "messages_ok ck t" "\<forall>r \<in> set (t_messages t). r_id r \<noteq> []" "0 < n"
    and "length (offline_rows ck t uid cursor) < fuel"
  shows "pull_pages fuel ck t uid n cursor = offline_rows ck t uid cursor"
  using assms(4)
proof (induction fuel arbitrary: cursor)
  case (Suc fuel)
  define rows where "rows = offline_rows ck t uid cursor"
  show ?case
  proof (cases "length rows > n")
    case True
    have last: "last (take n rows) = rows ! (n - 1)"
      using True assms(3) by (subst last_conv_nth) (auto simp: min_def)
    have "rows ! (n - 1) \<in> set (t_messages t)"
      using True nth_mem [of "n - 1" rows] by (auto simp: rows_def offline_rows_members)
    then have "offline_rows ck t uid (r_id (rows ! (n - 1))) = drop n rows"
      using offline_rows_next [OF assms(1), of "n - 1" uid cursor] True assms(2,3)
      by (simp add: rows_def)
    then show ?thesis
      using True Suc.IH [of "r_id (rows ! (n - 1))"] Suc.prems assms(3) last
      by (simp add: rows_def [symmetric] Let_def)
  qed (simp add: rows_def)
qed simp

section \<open>The contract of a message store\<close>

text \<open>What the chat and group services rely on. \<^term>\<open>rows\<close> are the stored messages, \<^term>\<open>same\<close> is the
  comparison of client ids, \<^term>\<open>later\<close> the evolution of the store.\<close>

definition holds :: "MessageRow \<Rightarrow> MessageRecord \<Rightarrow> bool" where
  "holds row m \<longleftrightarrow>
     r_id row = m_id m \<and> r_conversation_id row = m_conversation_id m \<and> r_sequence row = m_sequence m \<and>
     r_from_user_id row = m_from_user_id m \<and> r_to_user_id row = m_to_user_id m \<and>
     r_content row = m_content m \<and> r_created_at row = m_created_at m \<and>
     r_client_msg_id row = m_client_msg_id m"

locale message_store =
  fixes repo :: "'w IMessageRepository"
    and inv :: "'w \<Rightarrow> bool"
    and later :: "'w \<Rightarrow> 'w \<Rightarrow> bool"
    and rows :: "'w \<Rightarrow> MessageRow list"
    and key :: "'w \<Rightarrow> string \<Rightarrow> string"
  assumes later_refl: "later w w"
    and later_trans: "later w w1 \<Longrightarrow> later w1 w2 \<Longrightarrow> later w w2"
    and later_key: "later w w' \<Longrightarrow> key w' = key w"
    and later_rows: "later w w' \<Longrightarrow> r \<in> set (rows w) \<Longrightarrow> \<exists>r' \<in> set (rows w'). same_message r r'"
    and unique_client_id: "inv w \<Longrightarrow> r \<in> set (rows w) \<Longrightarrow> r' \<in> set (rows w) \<Longrightarrow>
      r_from_user_id r = r_from_user_id r' \<Longrightarrow>
      key w (r_client_msg_id r) = key w (r_client_msg_id r') \<Longrightarrow> r = r'"
    and create_keeps: "inv w \<Longrightarrow> run_state (imr_createMessage repo m) w = (res, w') \<Longrightarrow>
      inv w' \<and> later w w'"
    and create_stored: "inv w \<Longrightarrow> run_state (imr_createMessage repo m) w = (res, w') \<Longrightarrow>
      cmr_status res = kOk \<Longrightarrow>
      \<exists>s row. cmr_message res = Some s \<and> row \<in> set (rows w') \<and> holds row s \<and>
        m_from_user_id s = m_from_user_id m \<and>
        key w (m_client_msg_id s) = key w (m_client_msg_id m) \<and>
        (cmr_created res \<longrightarrow> s = m\<lparr>m_sequence := m_sequence s\<rparr> \<and>
           (\<forall>r \<in> set (rows w). \<not> (r_from_user_id r = m_from_user_id m \<and>
              key w (r_client_msg_id r) = key w (m_client_msg_id m))))"
    and create_failed: "inv w \<Longrightarrow> run_state (imr_createMessage repo m) w = (res, w') \<Longrightarrow>
      cmr_status res \<noteq> kOk \<Longrightarrow> cmr_message res = None \<and> \<not> cmr_created res"
    and find_result: "inv w \<Longrightarrow> run_state (imr_findMessageByClientMsgId repo uid cid) w = (fres, w') \<Longrightarrow>
      inv w' \<and> later w w' \<and>
      (case fm_message fres of
         None \<Rightarrow> fm_status fres \<noteq> kOk
       | Some s \<Rightarrow> fm_status fres = kOk \<and> m_from_user_id s = uid \<and>
           key w (m_client_msg_id s) = key w cid \<and> (\<exists>row \<in> set (rows w'). holds row s))"
    and list_keeps: "inv w \<Longrightarrow> run_state (imr_listOfflineMessages repo uid lim cur) w = (lres, w') \<Longrightarrow>
      inv w' \<and> later w w'"
    and list_own: "inv w \<Longrightarrow> run_state (imr_listOfflineMessages repo uid lim cur) w = (lres, w') \<Longrightarrow>
      lom_status lres = kOk \<Longrightarrow> s \<in> set (lom_messages lres) \<Longrightarrow>
      m_to_user_id s = uid \<and> m_status s = kStored \<and> (\<exists>row \<in> set (rows w'). holds row s)"
    and mark_delivered_keeps: "inv w \<Longrightarrow>
      run_state (imr_markDelivered repo now uid ids) w = (mres, w') \<Longrightarrow> inv w' \<and> later w w'"
    and mark_read_keeps: "inv w \<Longrightarrow>
      run_state (imr_markRead repo now uid ids) w = (mres, w') \<Longrightarrow> inv w' \<and> later w w'"
begin

text \<open>Storing again under the same client id, at any later time, finds the first message.\<close>

lemma create_again:
  assumes inv: "inv w" and first: "run_state (imr_createMessage repo m) w = (res, w1)"
    and ok: "cmr_status res = kOk" "cmr_message res = Some s"
    and between: "later w1 w2" "inv w2"
    and second: "run_state (imr_createMessage repo m') w2 = (res', w3)" "cmr_status res' = kOk"
    and same: "m_from_user_id m' = m_from_user_id m"
      "key w (m_client_msg_id m') = key w (m_client_msg_id m)"
  shows "\<not> cmr_created res' \<and> (\<exists>s'. cmr_message res' = Some s' \<and> m_id s' = m_id s \<and>
    m_conversation_id s' = m_conversation_id s \<and> m_sequence s' = m_sequence s \<and>
    m_to_user_id s' = m_to_user_id s \<and> m_content s' = m_content s)"
proof -
  have l1: "later w w1"
    using create_keeps [OF inv first] by simp
  have k: "key w1 = key w" "key w2 = key w" "key w3 = key w"
    using later_key [OF l1] later_key [OF between(1)] create_keeps [OF between(2) second(1)]
      later_key [of w2 w3] by simp_all
  obtain row where row: "row \<in> set (rows w1)" "r_id row = m_id s"
    "r_conversation_id row = m_conversation_id s" "r_sequence row = m_sequence s"
    "r_to_user_id row = m_to_user_id s" "r_content row = m_content s"
    "r_from_user_id row = m_from_user_id m"
    "key w (r_client_msg_id row) = key w (m_client_msg_id m)"
    using create_stored [OF inv first ok(1)] ok(2) by (auto simp: holds_def)
  obtain row2 where row2: "row2 \<in> set (rows w2)" "same_message row row2"
    using later_rows [OF between(1) row(1)] by blast
  obtain row3 where row3: "row3 \<in> set (rows w3)" "same_message row2 row3"
    using later_rows [of w2 w3 row2] create_keeps [OF between(2) second(1)] row2(1) by blast
  obtain s' row' where new: "cmr_message res' = Some s'" "row' \<in> set (rows w3)"
    "r_id row' = m_id s'" "r_conversation_id row' = m_conversation_id s'"
    "r_sequence row' = m_sequence s'" "r_to_user_id row' = m_to_user_id s'"
    "r_content row' = m_content s'" "r_from_user_id row' = m_from_user_id m'"
    "key w (r_client_msg_id row') = key w (m_client_msg_id m')"
    "cmr_created res' \<longrightarrow> (\<forall>r \<in> set (rows w2). \<not> (r_from_user_id r = m_from_user_id m' \<and>
       key w (r_client_msg_id r) = key w (m_client_msg_id m')))"
    using create_stored [OF between(2) second] k by (auto simp: holds_def)
  have "\<not> cmr_created res'"
    using new(10) row2 row same by (auto simp: same_message_def)
  moreover have "row3 = row'"
    using unique_client_id [of w3 row3 row'] create_keeps [OF between(2) second(1)] row3 row2 row
      new same k by (simp add: same_message_def)
  ultimately show ?thesis
    using new row row2(2) row3(2) by (auto simp: same_message_def)
qed

end

definition message_repository_ops :: "Db IMessageRepository" where
  "message_repository_ops =
     \<lparr>imr_findOrCreateSingleConversation = findOrCreateSingleConversation,
      imr_createMessage = createMessage, imr_findMessageByClientMsgId = findMessageByClientMsgId,
      imr_listOfflineMessages = listOfflineMessages, imr_markDelivered = markDelivered,
      imr_markRead = markRead\<rparr>"

definition stored_rows :: "Db \<Rightarrow> MessageRow list" where
  "stored_rows db = t_messages (committed db)"

lemma mark_idle_empty:
  "run_state (mark_messages stmt []) db = (\<lparr>mk_status = kOk, mk_affected_rows = 0\<rparr>, db)"
  by (simp add: mark_messages_def)

lemma mark_keeps:
  assumes "repo_inv db"
    and "run_state (markDelivered now uid ids) db = (res, db') \<or>
      run_state (markRead now uid ids) db = (res, db')"
  shows "repo_inv db' \<and> db_guar db db'"
proof (cases "ids = []")
  case True
  then show ?thesis
    using assms by (auto simp: markDelivered_def markRead_def mark_idle_empty db_guarantee.R_refl)
next
  case False
  then show ?thesis
    using assms markDelivered_wp [of db ids now uid] markRead_wp [of db ids now uid]
    by (auto simp: repo_inv_def mark_post_def dest!: wpD)
qed

lemma create_result:
  assumes "repo_inv db" "run_state (createMessage m) db = (res, db')"
  shows "create_post m db res db'"
  using createMessage_wp [of db m] assms by (auto simp: repo_inv_def dest: wpD)

lemma find_by_client_result:
  assumes "repo_inv db" "run_state (findMessageByClientMsgId uid cid) db = (res, db')"
  shows "repo_inv db' \<and> db_guar db db' \<and>
    (case fm_message res of
       None \<Rightarrow> fm_status res \<noteq> kOk
     | Some s \<Rightarrow> fm_status res = kOk \<and> m_from_user_id s = uid \<and>
         db_collate db (m_client_msg_id s) = db_collate db cid \<and> (\<exists>row \<in> set (stored_rows db'). holds row s))"
proof -
  have "wp (findMessageByClientMsgId uid cid) (\<lambda>res db'. repo_inv db' \<and> db_guar db db' \<and>
    (case fm_message res of
       None \<Rightarrow> fm_status res \<noteq> kOk
     | Some s \<Rightarrow> fm_status res = kOk \<and> message_found uid cid s (db_collate db) (committed db'))) db"
    unfolding findMessageByClientMsgId_def
  proof (rule wp_bind, rule wp_mono [OF borrow_wp], goal_cases)
    case borrowed: (3 e db1)
    show ?case
    proof (rule wp_if, goal_cases)
      case 1
      then show ?case
        using borrowed by (auto intro!: wp_intros simp: repo_inv_def idle_def find_failure_def MapBorrowError_def)
    next
      case 2
      show ?case
        by (rule wp_mono [OF ReadMessageByClientId_wp])
          (use borrowed in \<open>auto simp: repo_inv_def idle_def committed_def db_guar_def
            intro: db_grow_trans split: option.splits\<close>)
    qed
  qed (use assms(1) in \<open>auto simp: repo_inv_def\<close>)
  then have post: "repo_inv db' \<and> db_guar db db' \<and>
    (case fm_message res of
       None \<Rightarrow> fm_status res \<noteq> kOk
     | Some s \<Rightarrow> fm_status res = kOk \<and> message_found uid cid s (db_collate db) (committed db'))"
    using assms(2) by (rule wpD)
  show ?thesis
  proof (cases "fm_message res")
    case None
    then show ?thesis using post by simp
  next
    case (Some s)
    then obtain row where "row \<in> set (t_messages (committed db'))" "Build row = Some s"
      "r_from_user_id row = uid" "db_collate db (r_client_msg_id row) = db_collate db cid"
      using post by (auto simp: message_found_def)
    then show ?thesis
      using post Some Build_keys [of row s] by (auto simp: stored_rows_def holds_def)
  qed
qed

lemma list_own_messages:
  assumes "repo_inv db" "run_state (listOfflineMessages uid lim cur) db = (res, db')"
    and "lom_status res = kOk" "s \<in> set (lom_messages res)"
  shows "m_to_user_id s = uid \<and> m_status s = kStored \<and> (\<exists>row \<in> set (t_messages (committed db')). holds row s)"
proof -
  have post: "list_post uid lim cur db res db'"
    using listOfflineMessages_wp [of db uid lim cur] assms(1,2) by (auto simp: repo_inv_def dest: wpD)
  then obtain row where row: "row \<in> set (offline_rows (db_collate db) (committed db') uid cur)" "s = the (Build row)"
    using assms(3,4) by (auto simp: list_post_def Let_def dest: in_set_takeD)
  then have r: "row \<in> set (t_messages (committed db'))" "r_to_user_id row = uid"
    "r_status row = ToStorageMessageStatus kStored"
    by (auto simp: offline_rows_def)
  then have "Build row = Some s"
    using row(2) by (simp add: Build_def ParseMessageStatus_def)
  then show ?thesis
    using r Build_keys [of row s] by (auto simp: holds_def Build_def ParseMessageStatus_def)
qed

interpretation mysql_messages:
  message_store message_repository_ops repo_inv db_guar stored_rows db_collate
proof unfold_locales
  fix db db1 db2 db' :: Db and m res r r' uid lim cur lres now ids mres
  show "db_guar db db"
    by (rule db_guarantee.R_refl)
  show "db_guar db db1 \<Longrightarrow> db_guar db1 db2 \<Longrightarrow> db_guar db db2"
    by (rule db_guarantee.R_trans)
  show "db_guar db db' \<Longrightarrow> db_collate db' = db_collate db"
    by (simp add: db_guar_def)
  show "db_guar db db' \<Longrightarrow> r \<in> set (stored_rows db) \<Longrightarrow> \<exists>r' \<in> set (stored_rows db'). same_message r r'"
    by (auto simp: db_guar_def db_grow_def messages_grow_def stored_rows_def)
  show "r = r'" if "repo_inv db" "r \<in> set (stored_rows db)" "r' \<in> set (stored_rows db)"
    "r_from_user_id r = r_from_user_id r'"
    "db_collate db (r_client_msg_id r) = db_collate db (r_client_msg_id r')"
    using that by (auto simp: repo_inv_def db_inv_def tables_ok_def messages_ok_def stored_rows_def
        distinct_map inj_on_def)
  show "repo_inv db' \<and> db_guar db db'"
    if "repo_inv db" "run_state (imr_createMessage message_repository_ops m) db = (res, db')"
    using create_result [of db m res db'] that
    by (simp add: message_repository_ops_def create_post_def repo_inv_def)
  show "\<exists>s row. cmr_message res = Some s \<and> row \<in> set (stored_rows db') \<and> holds row s \<and>
        m_from_user_id s = m_from_user_id m \<and>
        db_collate db (m_client_msg_id s) = db_collate db (m_client_msg_id m) \<and>
        (cmr_created res \<longrightarrow> s = m\<lparr>m_sequence := m_sequence s\<rparr> \<and>
           (\<forall>r \<in> set (stored_rows db). \<not> (r_from_user_id r = m_from_user_id m \<and>
              db_collate db (r_client_msg_id r) = db_collate db (m_client_msg_id m))))"
    if "repo_inv db" "run_state (imr_createMessage message_repository_ops m) db = (res, db')"
      "cmr_status res = kOk"
  proof (cases "cmr_created res")
    case True
    then have "message_created m db res db'"
      using create_result [of db m res db'] that
      by (simp add: message_repository_ops_def create_post_def)
    then obtain seq t1 where c: "cmr_message res = Some (m\<lparr>m_sequence := seq\<rparr>)"
      "t_messages (committed db') = t_messages t1 @ [message_row m seq]"
      "\<forall>r \<in> set (t_messages t1). \<not> (r_from_user_id r = m_from_user_id m \<and>
         db_collate db (r_client_msg_id r) = db_collate db (m_client_msg_id m))"
      "db_grow (db_collate db) (committed db) t1"
      unfolding message_created_def by blast
    have "\<forall>r \<in> set (stored_rows db). \<not> (r_from_user_id r = m_from_user_id m \<and>
              db_collate db (r_client_msg_id r) = db_collate db (m_client_msg_id m))"
      using c(3,4) by (fastforce simp: db_grow_def messages_grow_def stored_rows_def same_message_def)
    with c show ?thesis
      by (intro exI [of _ "m\<lparr>m_sequence := seq\<rparr>"] exI [of _ "message_row m seq"])
        (simp add: stored_rows_def message_row_def holds_def)
  next
    case False
    have "create_post m db res db'" "cmr_status res = kOk"
      using create_result [of db m res db'] that by (simp_all add: message_repository_ops_def)
    with False obtain s row where "cmr_message res = Some s" "row \<in> set (stored_rows db')"
      "Build row = Some s" "r_from_user_id row = m_from_user_id m"
      "db_collate db (r_client_msg_id row) = db_collate db (m_client_msg_id m)"
      by (auto simp: create_post_def message_found_def stored_rows_def)
    with False show ?thesis
      using Build_keys [of row s] by (intro exI [of _ s] exI [of _ row]) (simp add: holds_def)
  qed
  show "cmr_message res = None \<and> \<not> cmr_created res"
    if "repo_inv db" "run_state (imr_createMessage message_repository_ops m) db = (res, db')"
      "cmr_status res \<noteq> kOk"
    using create_result [of db m res db'] that
    by (simp add: message_repository_ops_def create_post_def)
  show "repo_inv db' \<and> db_guar db db'"
    if "repo_inv db" "run_state (imr_listOfflineMessages message_repository_ops uid lim cur) db = (lres, db')"
    using listOfflineMessages_wp [of db uid lim cur] that
    by (auto simp: message_repository_ops_def repo_inv_def list_post_def dest: wpD)
  show "m_to_user_id s = uid \<and> m_status s = kStored \<and> (\<exists>row \<in> set (stored_rows db'). holds row s)"
    if "repo_inv db" "run_state (imr_listOfflineMessages message_repository_ops uid lim cur) db = (lres, db')"
      "lom_status lres = kOk" "s \<in> set (lom_messages lres)" for s
    using that list_own_messages [of db uid lim cur lres db' s]
    by (simp add: message_repository_ops_def stored_rows_def)
qed (auto simp: message_repository_ops_def dest: mark_keeps find_by_client_result)

section \<open>A concrete database\<close>

definition sample_message :: MessageRecord where
  "sample_message = \<lparr>m_id = ''m1'', m_conversation_id = ''conv_1_2'', m_client_msg_id = ''c1'',
     m_sequence = 0, m_from_user_id = 1, m_to_user_id = 2, m_content = ''hi'', m_status = kStored,
     m_created_at = 100, m_delivered_at = 0, m_read_at = 0\<rparr>"

definition sample_run :: "CreateMessageResult \<times> Db" where
  "sample_run = run_state (createMessage sample_message) (quiet_db empty_tables)"

lemmas sql_eval = createMessage_def createMessage_transaction_def createMessage_sequence_def
  createMessage_store_def insert_refused_def upsert_members.simps ReadMessageByClientId_def SelectLastInsertId_def
  borrow_connection_def reconnect_def run_sql_def apply_stmt_def next_event_def quiet_event_def
  ExecuteUpdate_def StatementFailure_def Begin_def Commit_def Rollback_def discard_def markBad_def
  rollback_with_def quiet_db_def empty_tables_def committed_def

lemmas statement_eval = select_message_by_client_def upsert_conversation_def conversation_clash_def
  upsert_conversation_member_def member_clash_def allocate_sequence_def bump_sequence_def
  insert_message_def message_clash_def new_single_conversation_def new_conversation_member_def
  message_row_def

lemma sample_run_created:
  "cmr_status (fst sample_run) = kOk" "cmr_created (fst sample_run)"
  "cmr_message (fst sample_run) = Some (sample_message\<lparr>m_sequence := 1\<rparr>)"
  by (simp_all add: sample_run_def sql_eval statement_eval sample_message_def find_failure_def
      int64_max_def)

lemma sample_run_eq:
  "run_state (createMessage sample_message) (quiet_db empty_tables) = (fst sample_run, snd sample_run)"
  by (simp add: sample_run_def)

lemma sample_run_inv: "repo_inv (quiet_db empty_tables)" "repo_inv (snd sample_run)"
  using quiet_db_inv [OF empty_tables_ok]
    create_result [OF quiet_db_inv [OF empty_tables_ok] sample_run_eq]
  by (simp_all add: repo_inv_def create_post_def)

lemma sample_again_ok:
  "cmr_status (fst (run_state (createMessage sample_message) (snd sample_run))) = kOk"
  by (simp add: sample_run_def sql_eval statement_eval sample_message_def find_failure_def
      int64_max_def message_fits_def Build_def ParseMessageStatus_def existing_result_def)

section \<open>Properties\<close>

text \<open>C12. Whatever errors the server reports and whatever other clients commit in between, a call
  of \<^verbatim>\<open>createMessage\<close> keeps the unique keys and the sequence counters consistent, deletes and
  rewrites nothing, and leaves no transaction open. If it reports success, the message it returns
  is committed: either a new row whose sequence number is above all numbers in its conversation
  and whose client id was unused, or the row found under the same sender and client id. If it
  reports a failure it returns no message.\<close>

theorem createMessage_outcome:
  assumes "repo_inv db" and "run_state (createMessage m) db = (res, db')"
  shows "repo_inv db' \<and> db_grow (db_collate db) (committed db) (committed db') \<and>
    (if cmr_status res = kOk
     then if cmr_created res then message_created m db res db'
          else (\<exists>s. cmr_message res = Some s \<and> cmr_message_id res = m_id s \<and>
            message_found (m_from_user_id m) (m_client_msg_id m) s (db_collate db) (committed db'))
     else cmr_message res = None)"
  using create_result [OF assms] by (auto simp: create_post_def repo_inv_def db_guar_def)

theorem createMessage_outcome_witness:
  "repo_inv (snd sample_run) \<and>
   message_created sample_message (quiet_db empty_tables) (fst sample_run) (snd sample_run)"
  using createMessage_outcome [OF sample_run_inv(1) sample_run_eq] sample_run_created by simp

text \<open>Sending is idempotent per client id: once a message is stored, storing again from the
  same sender under the same client id, at any later time and whatever happened in between, adds
  no message; on success it returns the message stored first, with its id, conversation, sequence
  number, recipient and content.\<close>

theorem createMessage_idempotent:
  assumes "repo_inv db" and "run_state (createMessage m) db = (res, db1)"
    and "cmr_status res = kOk" and "cmr_message res = Some s"
    and "db_guar db1 db2" and "repo_inv db2"
    and "run_state (createMessage m') db2 = (res', db3)" and "cmr_status res' = kOk"
    and "m_from_user_id m' = m_from_user_id m"
    and "db_collate db (m_client_msg_id m') = db_collate db (m_client_msg_id m)"
  shows "\<not> cmr_created res' \<and> (\<exists>s'. cmr_message res' = Some s' \<and> m_id s' = m_id s \<and>
    m_conversation_id s' = m_conversation_id s \<and> m_sequence s' = m_sequence s \<and>
    m_to_user_id s' = m_to_user_id s \<and> m_content s' = m_content s)"
proof -
  have create: "imr_createMessage message_repository_ops = createMessage"
    by (simp add: message_repository_ops_def)
  show ?thesis
    by (rule mysql_messages.create_again [unfolded create, OF assms])
qed

theorem createMessage_idempotent_witness:
  "\<not> cmr_created (fst (run_state (createMessage sample_message) (snd sample_run)))"
  using createMessage_idempotent [OF sample_run_inv(1) sample_run_eq sample_run_created(1)
      sample_run_created(3) db_guarantee.R_refl sample_run_inv(2) prod.collapse [symmetric]
      sample_again_ok refl refl]
  by simp

text \<open>\<^verbatim>\<open>listOfflineMessages\<close> returns, in the order of creation time and id and without
  repetition, the first messages after the cursor that are addressed to the user and still stored;
  at most the requested number, 20 by default and never more than 100; it reports more exactly
  when the limit cut something off. Reading changes nothing of this client's.\<close>

theorem listOfflineMessages_exact:
  assumes "repo_inv db" and "run_state (listOfflineMessages uid limit cursor) db = (res, db')"
    and "lom_status res = kOk"
  shows "repo_inv db' \<and>
    (let rows = offline_rows (db_collate db) (committed db') uid cursor;
         n = nat (min (if limit > 0 then limit else 20) 100)
     in lom_messages res = map (the \<circ> Build) (take n rows) \<and>
        (lom_has_more res \<longleftrightarrow> length rows > n) \<and> length (lom_messages res) \<le> 100 \<and>
        sorted_wrt (\<lambda>a b. offline_key (db_collate db) a < offline_key (db_collate db) b) rows \<and>
        set rows = {r \<in> set (t_messages (committed db')). r_to_user_id r = uid \<and>
          r_status r = ToStorageMessageStatus kStored \<and>
          after_cursor (db_collate db) (committed db') uid cursor r})"
proof -
  have post: "list_post uid limit cursor db res db'"
    using listOfflineMessages_wp [of db uid limit cursor] assms(1,2)
    by (auto simp: repo_inv_def dest: wpD)
  then have "messages_ok (db_collate db) (committed db')"
    by (auto simp: list_post_def db_guar_def db_inv_def tables_ok_def)
  then show ?thesis
    using post assms(3) offline_rows_strict
    by (auto simp: list_post_def repo_inv_def Let_def page_limit_def offline_rows_members)
qed

definition sample_list :: "ListOfflineMessagesResult \<times> Db" where
  "sample_list = run_state (listOfflineMessages 2 0 []) (snd sample_run)"

lemma sample_list_ok: "lom_status (fst sample_list) = kOk"
  by (simp add: sample_list_def listOfflineMessages_def sample_run_def sql_eval statement_eval
      sample_message_def find_failure_def int64_max_def message_fits_def Build_def
      ParseMessageStatus_def select_offline_def offline_rows_def after_cursor_def Let_def)

theorem listOfflineMessages_exact_witness:
  "repo_inv (snd sample_list) \<and> length (lom_messages (fst sample_list)) \<le> 100"
  using listOfflineMessages_exact [OF sample_run_inv(2), of 2 0 "[]" "fst sample_list" "snd sample_list"]
    sample_list_ok
  by (simp add: sample_list_def Let_def)


definition two_messages :: Tables where
  "two_messages = empty_tables\<lparr>
     t_conversations := [\<lparr>cv_id = ''c'', cv_type = ''single'', cv_single_chat_key = None, cv_last_seq = 2\<rparr>],
     t_messages := [message_row (sample_message\<lparr>m_conversation_id := ''c''\<rparr>) 1,
       message_row (sample_message\<lparr>m_conversation_id := ''c'', m_id := ''m2'', m_client_msg_id := ''c2''\<rparr>) 2]\<rparr>"


text \<open>Acknowledging delivery touches only messages addressed to the caller whose id was named
  and that are still stored; each of them becomes delivered and nothing else in its row changes but
  the delivery time, and the reported count is their number. Every change of a status is one the
  state machine of \<^verbatim>\<open>CanTransitionMessageStatus\<close> permits.\<close>

theorem markDelivered_exact:
  assumes "repo_inv db" and "ids \<noteq> []" and "run_state (markDelivered now uid ids) db = (res, db')"
    and "mk_status res = kOk"
  shows "repo_inv db' \<and> (\<exists>t1. db_grow (db_collate db) (committed db) t1 \<and>
    t_messages (committed db') = map (\<lambda>r. if deliverable (db_collate db) uid ids r
      then delivered_row now r else r) (t_messages t1) \<and>
    (\<forall>r. deliverable (db_collate db) uid ids r \<longrightarrow> r_to_user_id r = uid \<and>
       r_status r = ToStorageMessageStatus kStored \<and>
       r_status (delivered_row now r) = ToStorageMessageStatus kDelivered \<and>
       CanTransitionMessageStatus kStored kDelivered) \<and>
    mk_affected_rows res =
      wrap_int32 (int (length (filter (deliverable (db_collate db) uid ids) (t_messages t1)))))"
proof -
  have "mark_post (deliverable (db_collate db) uid ids) (delivered_row now) db res db'"
    using markDelivered_wp [of db ids now uid] assms(1-3) by (auto simp: repo_inv_def dest: wpD)
  then show ?thesis
    using assms(4)
    by (auto simp: mark_post_def repo_inv_def update_rows_def deliverable_def delivered_row_def
        CanTransitionMessageStatus_def)
qed

definition sample_mark :: "MarkResult \<times> Db" where
  "sample_mark = run_state (markDelivered 200 2 [''m1'']) (snd sample_run)"

lemma sample_mark_ok: "mk_status (fst sample_mark) = kOk"
  by (simp add: sample_mark_def markDelivered_def mark_messages_def update_delivered_def sample_run_def
      sql_eval statement_eval sample_message_def find_failure_def int64_max_def update_rows_def)

theorem markDelivered_exact_witness: "repo_inv (snd sample_mark)"
  using markDelivered_exact [OF sample_run_inv(2), of "[''m1'']" 200 2 "fst sample_mark" "snd sample_mark"]
    sample_mark_ok
  by (simp add: sample_mark_def)

end
