(* ===== verification/Redis.thy ===== *)
theory Redis
  imports Models Effects
begin

text \<open>
  Redis as the caches and the session store see it. The records are those of
  \<^verbatim>\<open>src/include/config/redis_config.h\<close> and \<^verbatim>\<open>src/include/redis/redis_connection.h\<close>; \<^verbatim>\<open>ConvertReply\<close> and
  \<^verbatim>\<open>Execute\<close> of \<^verbatim>\<open>src/src/redis/redis_connection.cc\<close> turn a hiredis reply into a result, and
  \<^verbatim>\<open>ValidateRedisConfig\<close> is that of \<^verbatim>\<open>src/config/redis_config.cc\<close>.

  A command that the clients of \<^verbatim>\<open>IRedisClient\<close> send is a constructor with the arguments the code
  passes, the Lua scripts are named by their C++ constants and translated line by line where they are
  used. The stream commands carry their words; what the server answers to them is a parameter, a
  function of how many came before and of the words. A store has the data of the server and its clock; a fault per
  command says whether it fails and whether it took effect before its reply was lost. Hash keys
  and string keys live in separate maps: the key families of the sources never meet
  (lemma \<^verbatim>\<open>key_families\<close> of theory \<^verbatim>\<open>SessionStore\<close>), so no command finds a value of the wrong kind.
\<close>

section \<open>Configuration\<close>

record RedisConfig =
  rc_enabled :: bool
  rc_host :: string
  rc_port :: nat
  rc_password :: string
  rc_database :: int
  rc_pool_size :: nat
  rc_connect_timeout_ms :: nat
  rc_command_timeout_ms :: nat
  rc_key_prefix :: string
  rc_server_id :: string
  rc_session_ttl_seconds :: nat
  rc_presence_ttl_seconds :: nat
  rc_user_cache_ttl_seconds :: nat
  rc_user_not_found_ttl_seconds :: nat
  rc_message_dedup_ttl_seconds :: nat
  rc_login_rate_limit :: nat
  rc_login_rate_window_seconds :: nat
  rc_register_rate_limit :: nat
  rc_register_rate_window_seconds :: nat
  rc_send_rate_limit :: nat
  rc_send_rate_window_seconds :: nat

definition default_RedisConfig :: RedisConfig where
  "default_RedisConfig =
     \<lparr>rc_enabled = False, rc_host = ''127.0.0.1'', rc_port = 6379, rc_password = [], rc_database = 0,
      rc_pool_size = 4, rc_connect_timeout_ms = 500, rc_command_timeout_ms = 500,
      rc_key_prefix = ''chat'', rc_server_id = ''server-1'', rc_session_ttl_seconds = 604800,
      rc_presence_ttl_seconds = 120, rc_user_cache_ttl_seconds = 300,
      rc_user_not_found_ttl_seconds = 30, rc_message_dedup_ttl_seconds = 86400,
      rc_login_rate_limit = 10, rc_login_rate_window_seconds = 60, rc_register_rate_limit = 5,
      rc_register_rate_window_seconds = 300, rc_send_rate_limit = 60,
      rc_send_rate_window_seconds = 60\<rparr>"

datatype RedisConfigError =
  kConfigNone | kInvalidPort | kInvalidDatabase | kInvalidPoolSize | kInvalidTimeout
  | kInvalidKeyPrefix | kInvalidServerId | kInvalidTtl | kInvalidRateLimit

record RedisConfigResult =
  rcf_success :: bool
  rcf_error :: RedisConfigError
  rcf_message :: string
  rcf_config :: RedisConfig

definition MakeConfigError :: "RedisConfigError \<Rightarrow> string \<Rightarrow> RedisConfig \<Rightarrow> RedisConfigResult" where
  "MakeConfigError e msg config =
     \<lparr>rcf_success = False, rcf_error = e, rcf_message = msg, rcf_config = config\<rparr>"

definition ValidateRedisConfig :: "RedisConfig \<Rightarrow> RedisConfigResult" where
  "ValidateRedisConfig config =
     (if rc_port config = 0 then MakeConfigError kInvalidPort ''redis port must be positive'' config
      else if rc_database config < 0
      then MakeConfigError kInvalidDatabase ''redis database must be non-negative'' config
      else if rc_pool_size config = 0
      then MakeConfigError kInvalidPoolSize ''redis pool size must be positive'' config
      else if rc_connect_timeout_ms config = 0 \<or> rc_command_timeout_ms config = 0
      then MakeConfigError kInvalidTimeout ''redis timeouts must be positive'' config
      else if rc_key_prefix config = [] \<or> last (rc_key_prefix config) = CHR '':''
      then MakeConfigError kInvalidKeyPrefix
             ''redis key prefix must not be empty or end with a colon'' config
      else if rc_server_id config = [] \<or> CHR '':'' \<in> set (rc_server_id config)
      then MakeConfigError kInvalidServerId ''server id must be non-empty and contain no colon'' config
      else if rc_session_ttl_seconds config = 0 \<or> rc_presence_ttl_seconds config = 0 \<or>
              rc_user_cache_ttl_seconds config = 0 \<or> rc_user_not_found_ttl_seconds config = 0 \<or>
              rc_message_dedup_ttl_seconds config = 0
      then MakeConfigError kInvalidTtl ''redis TTL values must be positive'' config
      else if rc_login_rate_limit config = 0 \<or> rc_login_rate_window_seconds config = 0 \<or>
              rc_register_rate_limit config = 0 \<or> rc_register_rate_window_seconds config = 0 \<or>
              rc_send_rate_limit config = 0 \<or> rc_send_rate_window_seconds config = 0
      then MakeConfigError kInvalidRateLimit ''redis rate limits must be positive'' config
      else \<lparr>rcf_success = True, rcf_error = kConfigNone, rcf_message = ''ok'', rcf_config = config\<rparr>)"

section \<open>Replies\<close>

datatype RedisError =
  kRedisNone | kRedisInvalidConfig | kRedisConnectionUnavailable | kAuthFailed | kSelectFailed
  | kTimeout | kCommandFailed | kRedisNotFound

datatype RedisReplyType = kNil | kString | kStatus | kInteger | kArray

datatype RedisReply =
  RedisReply (rr_type: RedisReplyType) (rr_string_value: string) (rr_integer_value: int)
    (rr_elements: "RedisReply list")

record RedisCommandResult =
  rcr_success :: bool
  rcr_error :: RedisError
  rcr_message :: string
  rcr_reply :: RedisReply

text \<open>A reply object of hiredis. The constructors follow its type field; the remaining types of the
  protocol are one constructor, since \<^verbatim>\<open>ConvertReply\<close> treats them alike.\<close>

datatype redisReply =
  REDIS_REPLY_STRING string | REDIS_REPLY_STATUS string | REDIS_REPLY_INTEGER int
  | REDIS_REPLY_ARRAY "redisReply list" | REDIS_REPLY_NIL | REDIS_REPLY_ERROR string
  | REDIS_REPLY_OTHER

definition empty_reply :: RedisReply where
  "empty_reply = RedisReply kNil [] 0 []"

fun ConvertReply :: "redisReply \<Rightarrow> RedisReply" where
  "ConvertReply (REDIS_REPLY_STRING s) = RedisReply kString s 0 []"
| "ConvertReply (REDIS_REPLY_STATUS s) = RedisReply kStatus s 0 []"
| "ConvertReply (REDIS_REPLY_INTEGER i) = RedisReply kInteger [] i []"
| "ConvertReply (REDIS_REPLY_ARRAY rs) = RedisReply kArray [] 0 (map ConvertReply rs)"
| "ConvertReply REDIS_REPLY_NIL = empty_reply"
| "ConvertReply (REDIS_REPLY_ERROR s) = empty_reply"
| "ConvertReply REDIS_REPLY_OTHER = empty_reply"

definition MakeRedisError :: "RedisError \<Rightarrow> string \<Rightarrow> RedisCommandResult" where
  "MakeRedisError e msg = \<lparr>rcr_success = False, rcr_error = e, rcr_message = msg, rcr_reply = empty_reply\<rparr>"

text \<open>\<^verbatim>\<open>Execute\<close> for a usable connection or not, and for what \<^verbatim>\<open>redisCommandArgv\<close> gave back: a reply,
  or none together with whether the call timed out and the error text.\<close>

definition Execute :: "bool \<Rightarrow> 'arg list \<Rightarrow> (bool \<times> string) + redisReply \<Rightarrow> RedisCommandResult" where
  "Execute usable args outcome =
     (if \<not> usable then MakeRedisError kRedisConnectionUnavailable ''redis connection is unavailable''
      else if args = [] then MakeRedisError kCommandFailed ''redis command is empty''
      else case outcome of
        Inl (timed_out, errstr) \<Rightarrow>
          MakeRedisError (if timed_out then kTimeout else kRedisConnectionUnavailable) errstr
      | Inr (REDIS_REPLY_ERROR s) \<Rightarrow> MakeRedisError kCommandFailed s
      | Inr REDIS_REPLY_NIL \<Rightarrow>
          (MakeRedisError kRedisNotFound ''redis key not found'')
            \<lparr>rcr_reply := ConvertReply REDIS_REPLY_NIL\<rparr>
      | Inr reply \<Rightarrow>
          \<lparr>rcr_success = True, rcr_error = kRedisNone, rcr_message = ''ok'',
           rcr_reply = ConvertReply reply\<rparr>)"

section \<open>The server\<close>

datatype RedisScript =
  kBindScript | kRefreshScript | kClearScript | kRevokeScript | kRateLimitScript

datatype redis_command =
  EVAL RedisScript "string list" "string list"
  | GET string
  | SETEX string string string
  | DEL "string list"
  | HMGET string "string list"
  | SETNX string string string
  | STREAM "string list"

text \<open>Values with their absolute expiry time, if any.\<close>

record RedisStore =
  rs_hashes :: "string \<rightharpoonup> (string \<rightharpoonup> string) \<times> int option"
  rs_strings :: "string \<rightharpoonup> string \<times> int option"
  rs_now :: int
  rs_stream_calls :: nat
  rs_stream_server :: "nat \<Rightarrow> string list \<Rightarrow> redisReply"

definition alive :: "int \<Rightarrow> ('a \<times> int option) option \<Rightarrow> 'a option" where
  "alive now entry =
     (case entry of
        None \<Rightarrow> None
      | Some (v, None) \<Rightarrow> Some v
      | Some (v, Some t) \<Rightarrow> if now < t then Some v else None)"

definition hash_at :: "RedisStore \<Rightarrow> string \<Rightarrow> (string \<rightharpoonup> string) option" where
  "hash_at s k = alive (rs_now s) (rs_hashes s k)"

definition string_at :: "RedisStore \<Rightarrow> string \<Rightarrow> string option" where
  "string_at s k = alive (rs_now s) (rs_strings s k)"

definition hget :: "RedisStore \<Rightarrow> string \<Rightarrow> string \<Rightarrow> string option" where
  "hget s k f = (case hash_at s k of None \<Rightarrow> None | Some h \<Rightarrow> h f)"

definition del :: "string \<Rightarrow> RedisStore \<Rightarrow> RedisStore" where
  "del k s = s\<lparr>rs_hashes := (rs_hashes s)(k := None), rs_strings := (rs_strings s)(k := None)\<rparr>"

text \<open>\<^verbatim>\<open>HSET\<close> keeps the expiry of a live key.\<close>

definition hset :: "string \<Rightarrow> (string \<times> string) list \<Rightarrow> RedisStore \<Rightarrow> RedisStore" where
  "hset k fvs s =
     (case hash_at s k of
        None \<Rightarrow> s\<lparr>rs_hashes := (rs_hashes s)(k \<mapsto> (map_of (rev fvs), None))\<rparr>
      | Some h \<Rightarrow> s\<lparr>rs_hashes := (rs_hashes s)
                    (k \<mapsto> (h ++ map_of (rev fvs), snd (the (rs_hashes s k))))\<rparr>)"

text \<open>\<^verbatim>\<open>EXPIRE\<close> on a live key; a time to live that is not positive deletes it.\<close>

definition expire_entry :: "int \<Rightarrow> nat \<Rightarrow> ('a \<times> int option) option \<Rightarrow> ('a \<times> int option) option" where
  "expire_entry now ttl entry =
     (case alive now entry of
        None \<Rightarrow> entry
      | Some v \<Rightarrow> if ttl = 0 then None else Some (v, Some (now + int ttl)))"

definition expire :: "string \<Rightarrow> string \<Rightarrow> RedisStore \<Rightarrow> RedisStore" where
  "expire k ttl s =
     s\<lparr>rs_hashes := (rs_hashes s)(k := expire_entry (rs_now s) (digits_value ttl) (rs_hashes s k)),
       rs_strings := (rs_strings s)(k := expire_entry (rs_now s) (digits_value ttl) (rs_strings s k))\<rparr>"

section \<open>The Lua scripts\<close>

text \<open>\<^verbatim>\<open>KEYS\<close> and \<^verbatim>\<open>ARGV\<close> are matched by their number; \<^verbatim>\<open>HGET\<close> of a missing field is \<^verbatim>\<open>false\<close> in Lua,
  which differs from every string.\<close>

definition bind_drop_token :: "string \<Rightarrow> string \<Rightarrow> string \<Rightarrow> RedisStore \<Rightarrow> RedisStore" where
  "bind_drop_token key4 kp tok s =
     (case hget s key4 ''token'' of
        None \<Rightarrow> s
      | Some old \<Rightarrow> if old \<noteq> tok then del (kp @ '':session:token:'' @ old) s else s)"

definition bind_drop_connection :: "string option \<Rightarrow> string option \<Rightarrow> string \<Rightarrow> RedisStore \<Rightarrow> RedisStore" where
  "bind_drop_connection old_server old_conn kp s =
     (case (old_server, old_conn) of
        (Some sv, Some c) \<Rightarrow> del (kp @ '':presence:conn:'' @ sv @ '':'' @ c) s
      | _ \<Rightarrow> s)"

definition bind_drop_user :: "string \<Rightarrow> string \<Rightarrow> string \<Rightarrow> string \<Rightarrow> RedisStore \<Rightarrow> RedisStore" where
  "bind_drop_user key3 kp server conn s =
     (case (hget s key3 ''user_id'', hget s key3 ''token'') of
        (Some u, Some t) \<Rightarrow>
          (if hget s (kp @ '':presence:user:'' @ u) ''server_id'' = Some server \<and>
              hget s (kp @ '':presence:user:'' @ u) ''connection_id'' = Some conn \<and>
              hget s (kp @ '':presence:user:'' @ u) ''token'' = Some t
           then del (kp @ '':presence:user:'' @ u) s else s)
      | _ \<Rightarrow> s)"

fun run_bind :: "string list \<Rightarrow> string list \<Rightarrow> RedisStore \<Rightarrow> redisReply \<times> RedisStore" where
  "run_bind [key1, key2, key3, key4] [kp, server, conn, user, name, issued, session_ttl, tok, presence_ttl] s =
     (let old_server = hget s key2 ''server_id'';
          old_conn = hget s key2 ''connection_id'';
          s1 = bind_drop_token key4 kp tok s;
          s2 = bind_drop_connection old_server old_conn kp s1;
          s3 = bind_drop_user key3 kp server conn s2;
          s4 = expire key1 session_ttl
                 (hset key1 [(''user_id'', user), (''username'', name), (''issued_at'', issued)] s3);
          s5 = expire key2 presence_ttl
                 (hset key2 [(''server_id'', server), (''connection_id'', conn), (''token'', tok)] s4);
          s6 = expire key3 presence_ttl (hset key3 [(''user_id'', user), (''token'', tok)] s5);
          s7 = expire key4 session_ttl (hset key4 [(''token'', tok)] s6)
      in (REDIS_REPLY_INTEGER 1, s7))"
| "run_bind _ _ s = (REDIS_REPLY_ERROR ''wrong number of arguments'', s)"

fun run_refresh :: "string list \<Rightarrow> string list \<Rightarrow> RedisStore \<Rightarrow> redisReply \<times> RedisStore" where
  "run_refresh [key1, key2] [server, conn, tok, user, ttl] s =
     (if hget s key1 ''server_id'' \<noteq> Some server \<or> hget s key1 ''connection_id'' \<noteq> Some conn \<or>
         hget s key1 ''token'' \<noteq> Some tok \<or> hget s key2 ''user_id'' \<noteq> Some user \<or>
         hget s key2 ''token'' \<noteq> Some tok
      then (REDIS_REPLY_INTEGER 0, s)
      else (REDIS_REPLY_INTEGER 1, expire key2 ttl (expire key1 ttl s)))"
| "run_refresh _ _ s = (REDIS_REPLY_ERROR ''wrong number of arguments'', s)"

definition drop_presence :: "string \<Rightarrow> string \<Rightarrow> string \<Rightarrow> string \<Rightarrow> RedisStore \<Rightarrow> RedisStore" where
  "drop_presence key1 server conn tok s =
     (if hget s key1 ''server_id'' = Some server \<and> hget s key1 ''connection_id'' = Some conn \<and>
         hget s key1 ''token'' = Some tok
      then del key1 s else s)"

fun run_clear :: "string list \<Rightarrow> string list \<Rightarrow> RedisStore \<Rightarrow> redisReply \<times> RedisStore" where
  "run_clear [key1, key2] [server, conn, tok] s =
     (REDIS_REPLY_INTEGER 1, drop_presence key1 server conn tok (del key2 s))"
| "run_clear _ _ s = (REDIS_REPLY_ERROR ''wrong number of arguments'', s)"

fun run_revoke :: "string list \<Rightarrow> string list \<Rightarrow> RedisStore \<Rightarrow> redisReply \<times> RedisStore" where
  "run_revoke [key1, key2, key3, key4] [server, conn, tok] s =
     (let s1 = del key3 s;
          s2 = (if hget s1 key4 ''token'' = Some tok then del key4 s1 else s1);
          s3 = del key2 s2
      in (REDIS_REPLY_INTEGER 1, drop_presence key1 server conn tok s3))"
| "run_revoke _ _ s = (REDIS_REPLY_ERROR ''wrong number of arguments'', s)"

text \<open>\<^verbatim>\<open>INCR\<close> keeps the expiry of a live counter. The counters of the rate limiter only ever hold
  decimal numbers.\<close>

definition incr :: "string \<Rightarrow> RedisStore \<Rightarrow> nat \<times> RedisStore" where
  "incr k s =
     (case string_at s k of
        None \<Rightarrow> (1, s\<lparr>rs_strings := (rs_strings s)(k \<mapsto> (''1'', None))\<rparr>)
      | Some v \<Rightarrow>
          (digits_value v + 1,
           s\<lparr>rs_strings := (rs_strings s)
               (k \<mapsto> (nat_to_string (digits_value v + 1), snd (the (rs_strings s k))))\<rparr>))"

definition ttl_of :: "RedisStore \<Rightarrow> string \<Rightarrow> int" where
  "ttl_of s k =
     (case string_at s k of
        None \<Rightarrow> - 2
      | Some _ \<Rightarrow> (case snd (the (rs_strings s k)) of None \<Rightarrow> - 1 | Some t \<Rightarrow> t - rs_now s))"

fun run_rate_limit :: "string list \<Rightarrow> string list \<Rightarrow> RedisStore \<Rightarrow> redisReply \<times> RedisStore" where
  "run_rate_limit [key1] [window] s =
     (let (count, s1) = incr key1 s;
          s2 = (if count = 1 then expire key1 window s1 else s1)
      in (REDIS_REPLY_ARRAY [REDIS_REPLY_INTEGER (int count), REDIS_REPLY_INTEGER (ttl_of s2 key1)], s2))"
| "run_rate_limit _ _ s = (REDIS_REPLY_ERROR ''wrong number of arguments'', s)"

section \<open>Commands\<close>

primrec run_script ::
  "RedisScript \<Rightarrow> string list \<Rightarrow> string list \<Rightarrow> RedisStore \<Rightarrow> redisReply \<times> RedisStore" where
  "run_script kBindScript = run_bind"
| "run_script kRefreshScript = run_refresh"
| "run_script kClearScript = run_clear"
| "run_script kRevokeScript = run_revoke"
| "run_script kRateLimitScript = run_rate_limit"

definition string_reply :: "string option \<Rightarrow> redisReply" where
  "string_reply v = (case v of None \<Rightarrow> REDIS_REPLY_NIL | Some x \<Rightarrow> REDIS_REPLY_STRING x)"

primrec exec :: "redis_command \<Rightarrow> RedisStore \<Rightarrow> redisReply \<times> RedisStore" where
  "exec (EVAL script ks argv) s = run_script script ks argv s"
| "exec (GET k) s = (string_reply (string_at s k), s)"
| "exec (SETEX k ttl v) s =
     (if digits_value ttl = 0 then (REDIS_REPLY_ERROR ''invalid expire time'', s)
      else (REDIS_REPLY_STATUS ''OK'',
            s\<lparr>rs_hashes := (rs_hashes s)(k := None),
              rs_strings := (rs_strings s)(k \<mapsto> (v, Some (rs_now s + int (digits_value ttl))))\<rparr>))"
| "exec (DEL ks) s =
     (REDIS_REPLY_INTEGER (int (length (filter (\<lambda>k. hash_at s k \<noteq> None \<or> string_at s k \<noteq> None) (remdups ks)))),
      fold del ks s)"
| "exec (HMGET k fs) s = (REDIS_REPLY_ARRAY (map (\<lambda>f. string_reply (hget s k f)) fs), s)"
| "exec (SETNX k v ttl) s =
     (if digits_value ttl = 0 then (REDIS_REPLY_ERROR ''invalid expire time'', s)
      else if hash_at s k \<noteq> None \<or> string_at s k \<noteq> None then (REDIS_REPLY_NIL, s)
      else (REDIS_REPLY_STATUS ''OK'',
            s\<lparr>rs_hashes := (rs_hashes s)(k := None),
              rs_strings := (rs_strings s)(k \<mapsto> (v, Some (rs_now s + int (digits_value ttl))))\<rparr>))"
| "exec (STREAM ws) s =
     (rs_stream_server s (rs_stream_calls s) ws, s\<lparr>rs_stream_calls := rs_stream_calls s + 1\<rparr>)"

type_synonym 'w IRedisClient = "redis_command \<Rightarrow> ('w, RedisCommandResult) state"

text \<open>What happens around a command: what other clients and the passing of time did just before it,
  and whether it fails, possibly after it took effect.\<close>

record redis_event =
  re_env :: "RedisStore \<Rightarrow> RedisStore"
  re_fault :: "(RedisError \<times> bool) option"

record RedisWorld =
  rw_store :: RedisStore
  rw_events :: "redis_event list"

definition redis_answer :: "redis_command \<Rightarrow> RedisStore \<Rightarrow> RedisCommandResult \<times> RedisStore" where
  "redis_answer cmd s = (Execute True [cmd] (Inr (fst (exec cmd s))), snd (exec cmd s))"

definition Command :: "RedisWorld IRedisClient" where
  "Command cmd = State (\<lambda>w.
     case rw_events w of
       [] \<Rightarrow> (case redis_answer cmd (rw_store w) of (r, s) \<Rightarrow> (r, w\<lparr>rw_store := s\<rparr>))
     | e # es \<Rightarrow>
         (case re_fault e of
            None \<Rightarrow>
              (case redis_answer cmd (re_env e (rw_store w)) of
                 (r, s) \<Rightarrow> (r, \<lparr>rw_store = s, rw_events = es\<rparr>))
          | Some (err, applied) \<Rightarrow>
              (MakeRedisError err ''redis failure'',
               \<lparr>rw_store = (if applied then snd (exec cmd (re_env e (rw_store w)))
                            else re_env e (rw_store w)),
                rw_events = es\<rparr>)))"

section \<open>Reading after writing\<close>

lemma hget_now: "rs_now (del k s) = rs_now s" "rs_now (hset k fvs s) = rs_now s" "rs_now (expire k ttl s) = rs_now s"
  by (auto simp: del_def hset_def expire_def split: option.splits)

lemma hget_del [simp]: "hget (del k s) k' f = (if k' = k then None else hget s k' f)"
  by (simp add: hget_def hash_at_def del_def alive_def)

lemma hget_hset_other [simp]: "k' \<noteq> k \<Longrightarrow> hget (hset k fvs s) k' f = hget s k' f"
  by (auto simp: hget_def hash_at_def hset_def split: option.splits)

lemma hget_hset [simp]:
  "hget (hset k fvs s) k f =
     (case map_of (rev fvs) f of Some v \<Rightarrow> Some v | None \<Rightarrow> hget s k f)"
proof (cases "hash_at s k")
  case None
  then show ?thesis
    by (simp add: hget_def hset_def hash_at_def alive_def split: option.splits)
next
  case (Some h)
  then obtain t where "rs_hashes s k = Some (h, t)" "\<forall>x. t = Some x \<longrightarrow> rs_now s < x"
    by (auto simp: hash_at_def alive_def split: option.splits if_splits)
  then show ?thesis
    using Some
    by (auto simp: hget_def hset_def hash_at_def alive_def map_add_def split: option.splits)
qed

lemma hget_expire [simp]:
  "0 < digits_value ttl \<Longrightarrow> hget (expire k ttl s) k' f = hget s k' f"
  by (auto simp: hget_def hash_at_def expire_def expire_entry_def alive_def split: option.splits if_splits)

end
