(* ===== verification/Validator.thy ===== *)
theory Validator
  imports Models
begin

unbundle bit_operations_syntax

text \<open>
  Input validation, \<^verbatim>\<open>src/src/common/validator.cc\<close>. Strings are byte lists; the UTF-8 decoder
  is translated with its bit masks and then related to the encoding of Unicode scalar values.
\<close>

section \<open>Translation\<close>

record ValidationResult =
  vr_valid :: bool
  vr_message :: string

definition ok :: "ValidationResult \<Rightarrow> bool" where
  "ok r = vr_valid r"

definition kUsernameMinLength :: nat where "kUsernameMinLength = 3"
definition kUsernameMaxLength :: nat where "kUsernameMaxLength = 32"
definition kRegisterPasswordMinLength :: nat where "kRegisterPasswordMinLength = 6"
definition kPasswordMaxLength :: nat where "kPasswordMaxLength = 72"
definition kNicknameMaxLength :: nat where "kNicknameMaxLength = 64"
definition kMessageMaxBytes :: nat where "kMessageMaxBytes = 4096"
definition kIdMaxLength :: nat where "kIdMaxLength = 64"

lemmas validator_limits = kUsernameMinLength_def kUsernameMaxLength_def
  kRegisterPasswordMinLength_def kPasswordMaxLength_def kNicknameMaxLength_def
  kMessageMaxBytes_def kIdMaxLength_def

definition Valid :: ValidationResult where
  "Valid = \<lparr>vr_valid = True, vr_message = []\<rparr>"

definition Invalid :: "string \<Rightarrow> ValidationResult" where
  "Invalid message = \<lparr>vr_valid = False, vr_message = message\<rparr>"

definition HasNul :: "string \<Rightarrow> bool" where
  "HasNul s \<longleftrightarrow> (\<exists>c \<in> set s. byte c = 0)"

text \<open>\<^verbatim>\<open>std::isalnum\<close> and \<^verbatim>\<open>std::isxdigit\<close> in the C locale, in which the program runs.\<close>

definition isalnum :: "char \<Rightarrow> bool" where
  "isalnum c \<longleftrightarrow> is_digit c \<or> (65 \<le> byte c \<and> byte c \<le> 90) \<or> (97 \<le> byte c \<and> byte c \<le> 122)"

definition isxdigit :: "char \<Rightarrow> bool" where
  "isxdigit c \<longleftrightarrow> is_digit c \<or> (65 \<le> byte c \<and> byte c \<le> 70) \<or> (97 \<le> byte c \<and> byte c \<le> 102)"

definition IsValidIdentifier :: "string \<Rightarrow> bool" where
  "IsValidIdentifier s \<longleftrightarrow> list_all (\<lambda>ch. isalnum ch \<or> ch = CHR ''_'' \<or> ch = CHR ''-'') s"

text \<open>The lead byte gives the initial code point bits and the length of the sequence.\<close>

definition utf8_lead :: "nat \<Rightarrow> (nat \<times> nat) option" where
  "utf8_lead lead =
     (if lead \<le> 0x7f then Some (lead, 1)
      else if lead AND 0xe0 = 0xc0 then Some (lead AND 0x1f, 2)
      else if lead AND 0xf0 = 0xe0 then Some (lead AND 0x0f, 3)
      else if lead AND 0xf8 = 0xf0 then Some (lead AND 0x07, 4)
      else None)"

fun utf8_continuations :: "nat \<Rightarrow> string \<Rightarrow> nat option" where
  "utf8_continuations code_point [] = Some code_point"
| "utf8_continuations code_point (c # cs) =
     (if byte c AND 0xc0 \<noteq> 0x80 then None
      else utf8_continuations (push_bit 6 code_point OR (byte c AND 0x3f)) cs)"

definition utf8_rejected :: "nat \<Rightarrow> nat \<Rightarrow> bool" where
  "utf8_rejected len cp \<longleftrightarrow>
     (len = 2 \<and> cp < 0x80) \<or> (len = 3 \<and> cp < 0x800) \<or> (len = 4 \<and> cp < 0x10000) \<or>
     cp > 0x10ffff \<or> (cp \<ge> 0xd800 \<and> cp \<le> 0xdfff)"

definition is_control :: "nat \<Rightarrow> bool" where
  "is_control cp \<longleftrightarrow> cp \<le> 0x1f \<or> (cp \<ge> 0x7f \<and> cp \<le> 0x9f)"

text \<open>One iteration of the decoding loop: the code point and the number of bytes consumed.\<close>

fun utf8_next :: "string \<Rightarrow> (nat \<times> nat) option" where
  "utf8_next [] = None"
| "utf8_next (lead # rest) =
     (case utf8_lead (byte lead) of
        None \<Rightarrow> None
      | Some (cp0, len) \<Rightarrow>
          if len > Suc (length rest) then None
          else case utf8_continuations cp0 (take (len - 1) rest) of
                 None \<Rightarrow> None
               | Some cp \<Rightarrow> if utf8_rejected len cp then None else Some (cp, len))"

lemma utf8_lead_length: "utf8_lead b = Some (cp, len) \<Longrightarrow> 1 \<le> len \<and> len \<le> 4"
  by (auto simp: utf8_lead_def split: if_splits)

lemma utf8_next_length: "utf8_next s = Some (cp, len) \<Longrightarrow> 1 \<le> len \<and> len \<le> length s"
  by (cases s) (auto split: option.splits if_splits dest: utf8_lead_length)

text \<open>The loop of \<^verbatim>\<open>DecodeUtf8\<close>. The out-parameters are read by the caller only when the
  function returns true, so the result is an option.\<close>

function DecodeUtf8_loop :: "string \<Rightarrow> nat \<Rightarrow> bool \<Rightarrow> (nat \<times> bool) option" where
  "DecodeUtf8_loop s code_points has_control =
     (if s = [] then Some (code_points, has_control)
      else case utf8_next s of
             None \<Rightarrow> None
           | Some (cp, len) \<Rightarrow>
               DecodeUtf8_loop (drop len s) (code_points + 1) (has_control \<or> is_control cp))"
  by pat_completeness auto
termination
  by (relation "measure (\<lambda>(s, _). length s)") (auto dest: utf8_next_length)

declare DecodeUtf8_loop.simps [simp del]

definition DecodeUtf8 :: "string \<Rightarrow> (nat \<times> bool) option" where
  "DecodeUtf8 s = DecodeUtf8_loop s 0 False"

definition RequiredIdentifier :: "string \<Rightarrow> string \<Rightarrow> ValidationResult" where
  "RequiredIdentifier s field =
     (if s = [] then Invalid (field @ '' is empty'')
      else if length s > kIdMaxLength then Invalid (field @ '' exceeds maximum length'')
      else if \<not> IsValidIdentifier s then Invalid (field @ '' contains invalid characters'')
      else Valid)"

definition Username :: "string \<Rightarrow> ValidationResult" where
  "Username username =
     (if length username < kUsernameMinLength \<or> length username > kUsernameMaxLength
      then Invalid ''username length must be between 3 and 32''
      else if \<not> IsValidIdentifier username
      then Invalid ''username contains invalid characters''
      else Valid)"

definition RegisterPassword :: "string \<Rightarrow> ValidationResult" where
  "RegisterPassword password =
     (if HasNul password then Invalid ''password contains NUL''
      else if length password < kRegisterPasswordMinLength \<or> length password > kPasswordMaxLength
      then Invalid ''password length must be between 6 and 72''
      else Valid)"

definition LoginPassword :: "string \<Rightarrow> ValidationResult" where
  "LoginPassword password =
     (if HasNul password then Invalid ''password contains NUL''
      else if password = [] \<or> length password > kPasswordMaxLength
      then Invalid ''password length must be between 1 and 72''
      else Valid)"

definition Nickname :: "string \<Rightarrow> ValidationResult" where
  "Nickname nickname =
     (if nickname = [] then Invalid ''nickname is empty''
      else case DecodeUtf8 nickname of
             None \<Rightarrow> Invalid ''nickname is not valid UTF-8''
           | Some (code_points, has_control) \<Rightarrow>
               if code_points > kNicknameMaxLength
               then Invalid ''nickname exceeds maximum length''
               else if has_control then Invalid ''nickname contains control characters''
               else Valid)"

definition MessageContent :: "string \<Rightarrow> ValidationResult" where
  "MessageContent content =
     (if content = [] then Invalid ''message content is empty''
      else if length content > kMessageMaxBytes
      then Invalid ''message content exceeds maximum length''
      else if HasNul content then Invalid ''message content contains NUL''
      else Valid)"

definition ClientMessageId :: "string \<Rightarrow> ValidationResult" where
  "ClientMessageId client_msg_id = RequiredIdentifier client_msg_id ''client_msg_id''"

definition MessageId :: "string \<Rightarrow> ValidationResult" where
  "MessageId message_id = RequiredIdentifier message_id ''message_id''"

definition ConversationId :: "string \<Rightarrow> ValidationResult" where
  "ConversationId conversation_id = RequiredIdentifier conversation_id ''conversation_id''"

definition Cursor :: "string \<Rightarrow> ValidationResult" where
  "Cursor cursor = (if cursor = [] then Valid else RequiredIdentifier cursor ''cursor'')"

definition Token :: "string \<Rightarrow> ValidationResult" where
  "Token tok =
     (if length tok \<noteq> 64 then Invalid ''token must contain 64 hexadecimal characters''
      else if \<not> list_all isxdigit tok
      then Invalid ''token must contain 64 hexadecimal characters''
      else Valid)"

section \<open>Bit masks as arithmetic\<close>

lemma and_shifted_mask:
  "(n :: nat) AND push_bit k (mask j) = push_bit k (take_bit j (drop_bit k n))"
  by (rule bit_eqI) (auto simp: bit_simps)

lemma and_masks:
  fixes n :: nat
  shows "n AND 0xe0 = 32 * (n div 32 mod 8)"
    and "n AND 0xf0 = 16 * (n div 16 mod 16)"
    and "n AND 0xf8 = 8 * (n div 8 mod 32)"
    and "n AND 0xc0 = 64 * (n div 64 mod 4)"
  using and_shifted_mask [of n 5 3] and_shifted_mask [of n 4 4]
    and_shifted_mask [of n 3 5] and_shifted_mask [of n 6 2]
  by (simp_all add: push_bit_eq_mult take_bit_eq_mod drop_bit_eq_div mask_eq_exp_minus_1)

lemma and_low_masks:
  fixes n :: nat
  shows "n AND 0x1f = n mod 32" and "n AND 0x0f = n mod 16"
    and "n AND 0x07 = n mod 8" and "n AND 0x3f = n mod 64"
  using take_bit_eq_mask [of 5 n] take_bit_eq_mask [of 4 n] take_bit_eq_mask [of 3 n]
    take_bit_eq_mask [of 6 n]
  by (simp_all add: take_bit_eq_mod mask_eq_exp_minus_1)

lemma shift_or:
  fixes n :: nat
  assumes "m < 64"
  shows "push_bit 6 n OR m = 64 * n + m"
proof -
  have "take_bit 6 m = m"
    using assms by (simp add: take_bit_eq_mod)
  then have "push_bit 6 n AND m = 0"
    by (intro bit_eqI) (metis bit_and_iff bit_push_bit_iff_nat bit_take_bit_iff bit_0_eq
        bot_apply bot_bool_def not_le)
  then show ?thesis
    using disjunctive_add_eq_or [of "push_bit 6 n" m] by (simp add: push_bit_eq_mult)
qed

lemma mod_sub_multiple:
  fixes b k m :: nat
  assumes "k * m \<le> b" "b < k * m + m"
  shows "b mod m = b - k * m"
proof -
  have "b = (b - k * m) + k * m" "b - k * m < m"
    using assms by auto
  then show ?thesis
    by (metis mod_less mod_mult_self1)
qed

lemma div_block:
  fixes b :: nat
  assumes "b < 256"
  shows "(b div 64 mod 4 = 2) = (0x80 \<le> b \<and> b < 0xc0)"
    and "(b div 32 mod 8 = 6) = (0xc0 \<le> b \<and> b < 0xe0)"
    and "(b div 16 mod 16 = 14) = (0xe0 \<le> b \<and> b < 0xf0)"
    and "(b div 8 mod 32 = 30) = (0xf0 \<le> b \<and> b < 0xf8)"
proof -
  have "b div 64 mod 4 = b div 64" "b div 32 mod 8 = b div 32" "b div 16 mod 16 = b div 16"
    "b div 8 mod 32 = b div 8"
    using assms by simp_all
  then show "(b div 64 mod 4 = 2) = (0x80 \<le> b \<and> b < 0xc0)"
    "(b div 32 mod 8 = 6) = (0xc0 \<le> b \<and> b < 0xe0)"
    "(b div 16 mod 16 = 14) = (0xe0 \<le> b \<and> b < 0xf0)"
    "(b div 8 mod 32 = 30) = (0xf0 \<le> b \<and> b < 0xf8)"
    by (auto intro!: div_nat_eqI)
qed

lemma and_continuation:
  "byte c AND 0xc0 = 0x80 \<longleftrightarrow> 0x80 \<le> byte c \<and> byte c < 0xc0"
  by (simp add: and_masks div_block)

lemma utf8_continuations_Cons [codec_simps]:
  "utf8_continuations cp (c # cs) =
     (if 0x80 \<le> byte c \<and> byte c < 0xc0
      then utf8_continuations (64 * cp + (byte c - 0x80)) cs else None)"
  using and_continuation [of c] mod_sub_multiple [of 2 64 "byte c"]
  by (auto simp: and_low_masks shift_or)

lemma utf8_lead_arith [codec_simps]:
  assumes "b < 256"
  shows "utf8_lead b =
     (if b < 0x80 then Some (b, 1)
      else if b < 0xc0 then None
      else if b < 0xe0 then Some (b - 0xc0, 2)
      else if b < 0xf0 then Some (b - 0xe0, 3)
      else if b < 0xf8 then Some (b - 0xf0, 4)
      else None)"
  using assms mod_sub_multiple [of 6 32 b] mod_sub_multiple [of 14 16 b]
    mod_sub_multiple [of 30 8 b]
  by (auto simp: utf8_lead_def and_masks and_low_masks div_block)

section \<open>The decoder accepts exactly the UTF-8 encodings of scalar values\<close>

definition scalar_value :: "nat \<Rightarrow> bool" where
  "scalar_value cp \<longleftrightarrow> cp \<le> 0x10ffff \<and> \<not> (0xd800 \<le> cp \<and> cp \<le> 0xdfff)"

definition utf8_encode :: "nat \<Rightarrow> string" where
  "utf8_encode cp =
     (if cp < 0x80 then [char_of cp]
      else if cp < 0x800 then [char_of (0xc0 + cp div 64), char_of (0x80 + cp mod 64)]
      else if cp < 0x10000 then
        [char_of (0xe0 + cp div 4096), char_of (0x80 + cp div 64 mod 64),
         char_of (0x80 + cp mod 64)]
      else
        [char_of (0xf0 + cp div 262144), char_of (0x80 + cp div 4096 mod 64),
         char_of (0x80 + cp div 64 mod 64), char_of (0x80 + cp mod 64)])"

lemma utf8_encode_length: "1 \<le> length (utf8_encode cp) \<and> length (utf8_encode cp) \<le> 4"
  by (simp add: utf8_encode_def)

lemma utf8_encode_nonempty [simp]: "utf8_encode cp \<noteq> []"
  by (simp add: utf8_encode_def)

lemma digits64:
  fixes n :: nat
  shows "64 * (n div 64) + n mod 64 = n" "n div 4096 = n div 64 div 64"
    "n div 262144 = n div 64 div 64 div 64"
  by (simp_all add: div_mult2_eq [symmetric])

lemma utf8_next_encode:
  assumes "scalar_value cp"
  shows "utf8_next (utf8_encode cp @ r) = Some (cp, length (utf8_encode cp))"
proof -
  have mod: "n mod 64 < 64" for n :: nat
    by simp
  consider "cp < 0x80" | "0x80 \<le> cp" "cp < 0x800" | "0x800 \<le> cp" "cp < 0x10000"
    | "0x10000 \<le> cp" "cp \<le> 0x10ffff"
    using assms by (fastforce simp: scalar_value_def)
  then show ?thesis
  proof cases
    case 1
    then show ?thesis
      by (simp add: utf8_encode_def byte_char_of utf8_lead_arith utf8_rejected_def)
  next
    case 2
    then have "cp div 64 < 32" "2 \<le> cp div 64"
      by linarith+
    with 2 assms show ?thesis
      using mod [of cp]
      by (simp add: utf8_encode_def byte_char_of utf8_lead_arith utf8_continuations_Cons
          utf8_rejected_def scalar_value_def del: utf8_continuations.simps(2))
  next
    case 3
    then have "cp div 4096 < 16"
      by linarith
    with 3 assms show ?thesis
      using mod [of cp] mod [of "cp div 64"]
      by (simp add: utf8_encode_def byte_char_of utf8_lead_arith utf8_continuations_Cons
          utf8_rejected_def scalar_value_def digits64 del: utf8_continuations.simps(2))
  next
    case 4
    then have "cp div 262144 < 8"
      by linarith
    with 4 assms show ?thesis
      using mod [of cp] mod [of "cp div 64"] mod [of "cp div 4096"]
      by (simp add: utf8_encode_def byte_char_of utf8_lead_arith utf8_continuations_Cons
          utf8_rejected_def scalar_value_def digits64 del: utf8_continuations.simps(2))
  qed
qed

lemma digit64_peel:
  fixes a r :: nat
  assumes "r < 64"
  shows "(64 * a + r) div 64 = a" "(64 * a + r) mod 64 = r"
  using assms by simp_all

lemma utf8_continuation_SomeD:
  assumes "utf8_continuations cp (c # cs) = Some r"
  shows "\<exists>y < 64. c = char_of (0x80 + y) \<and> utf8_continuations (64 * cp + y) cs = Some r"
  using assms char_of_byte [of c, symmetric]
  by (intro exI [of _ "byte c - 0x80"])
    (auto simp: utf8_continuations_Cons split: if_splits simp del: utf8_continuations.simps(2))

lemma utf8_lead_SomeD:
  assumes "utf8_lead (byte c) = Some (cp0, len)"
  shows "(len = 1 \<and> cp0 < 0x80 \<and> c = char_of cp0) \<or>
         (len = 2 \<and> cp0 < 32 \<and> c = char_of (0xc0 + cp0)) \<or>
         (len = 3 \<and> cp0 < 16 \<and> c = char_of (0xe0 + cp0)) \<or>
         (len = 4 \<and> cp0 < 8 \<and> c = char_of (0xf0 + cp0))"
  using assms char_of_byte [of c, symmetric]
  by (auto simp: utf8_lead_arith split: if_splits)

lemma utf8_next_sound:
  assumes "utf8_next s = Some (cp, len)"
  shows "scalar_value cp \<and> take len s = utf8_encode cp"
proof -
  obtain lead rest where s: "s = lead # rest"
    using assms by (cases s) auto
  obtain cp0 where lead: "utf8_lead (byte lead) = Some (cp0, len)"
    and len: "len \<le> Suc (length rest)"
    and cont: "utf8_continuations cp0 (take (len - 1) rest) = Some cp"
    and rej: "\<not> utf8_rejected len cp"
    using assms unfolding s by (auto split: option.splits if_splits)
  have scalar: "scalar_value cp"
    using rej by (auto simp: utf8_rejected_def scalar_value_def)
  show ?thesis
    using utf8_lead_SomeD [OF lead]
  proof (elim disjE conjE)
    assume "len = 1" "cp0 < 0x80" "lead = char_of cp0"
    with cont show ?thesis
      by (simp add: s utf8_encode_def scalar)
  next
    assume l: "len = 2" "cp0 < 32" "lead = char_of (0xc0 + cp0)"
    then obtain c where r: "take (len - 1) rest = [c]"
      using len by (cases rest) auto
    obtain y where "y < 64" "c = char_of (0x80 + y)" "cp = 64 * cp0 + y"
      using utf8_continuation_SomeD [OF cont [unfolded r]] by auto
    with l r rej scalar show ?thesis
      by (auto simp: s utf8_encode_def utf8_rejected_def)
  next
    assume l: "len = 3" "cp0 < 16" "lead = char_of (0xe0 + cp0)"
    then obtain c d where r: "take (len - 1) rest = [c, d]"
      using len by (cases rest; cases "tl rest") auto
    obtain y where y: "y < 64" "c = char_of (0x80 + y)"
      and cont': "utf8_continuations (64 * cp0 + y) [d] = Some cp"
      using utf8_continuation_SomeD [OF cont [unfolded r]] by auto
    obtain z where z: "z < 64" "d = char_of (0x80 + z)" "cp = 64 * (64 * cp0 + y) + z"
      using utf8_continuation_SomeD [OF cont'] by auto
    have "cp < 0x10000" "\<not> cp < 0x800"
      using l y z rej by (auto simp: utf8_rejected_def)
    with l r y z digit64_peel [of y cp0] digit64_peel [of z "64 * cp0 + y"] scalar
    show ?thesis
      by (simp add: s utf8_encode_def digits64 del: distrib_left)
  next
    assume l: "len = 4" "cp0 < 8" "lead = char_of (0xf0 + cp0)"
    then obtain c d e where r: "take (len - 1) rest = [c, d, e]"
      using len by (cases rest; cases "tl rest"; cases "tl (tl rest)") auto
    obtain y where y: "y < 64" "c = char_of (0x80 + y)"
      and cont': "utf8_continuations (64 * cp0 + y) [d, e] = Some cp"
      using utf8_continuation_SomeD [OF cont [unfolded r]] by auto
    obtain z where z: "z < 64" "d = char_of (0x80 + z)"
      and cont'': "utf8_continuations (64 * (64 * cp0 + y) + z) [e] = Some cp"
      using utf8_continuation_SomeD [OF cont'] by auto
    obtain w where w: "w < 64" "e = char_of (0x80 + w)" "cp = 64 * (64 * (64 * cp0 + y) + z) + w"
      using utf8_continuation_SomeD [OF cont''] by auto
    have "\<not> cp < 0x10000"
      using l rej by (auto simp: utf8_rejected_def)
    with l r y z w digit64_peel [of y cp0] digit64_peel [of z "64 * cp0 + y"]
      digit64_peel [of w "64 * (64 * cp0 + y) + z"] scalar
    show ?thesis
      by (simp add: s utf8_encode_def digits64 del: distrib_left)
  qed
qed

lemma DecodeUtf8_loop_complete:
  assumes "list_all scalar_value cps"
  shows "DecodeUtf8_loop (concat (map utf8_encode cps)) n ctl =
    Some (n + length cps, ctl \<or> list_ex is_control cps)"
  using assms
proof (induction cps arbitrary: n ctl)
  case Nil
  then show ?case by (simp add: DecodeUtf8_loop.simps)
next
  case (Cons cp cps)
  then show ?case
    by (subst DecodeUtf8_loop.simps) (simp add: utf8_next_encode)
qed

lemma DecodeUtf8_loop_sound:
  assumes "DecodeUtf8_loop s n ctl = Some (m, b)"
  shows "\<exists>cps. list_all scalar_value cps \<and> s = concat (map utf8_encode cps) \<and>
    m = n + length cps \<and> b = (ctl \<or> list_ex is_control cps)"
  using assms
proof (induction s n ctl rule: DecodeUtf8_loop.induct)
  case (1 s n ctl)
  show ?case
  proof (cases "s = []")
    case True
    with "1.prems" show ?thesis
      by (intro exI [of _ "[]"]) (simp add: DecodeUtf8_loop.simps)
  next
    case False
    with "1.prems" obtain cp len where next_ok: "utf8_next s = Some (cp, len)"
      and rest: "DecodeUtf8_loop (drop len s) (n + 1) (ctl \<or> is_control cp) = Some (m, b)"
      by (subst (asm) DecodeUtf8_loop.simps) (auto split: option.splits)
    obtain cps where "list_all scalar_value cps" "drop len s = concat (map utf8_encode cps)"
      "m = n + 1 + length cps" "b = ((ctl \<or> is_control cp) \<or> list_ex is_control cps)"
      using "1.IH" [OF False next_ok refl rest] by blast
    with utf8_next_sound [OF next_ok] show ?thesis
      by (intro exI [of _ "cp # cps"]) (simp, metis append_take_drop_id)
  qed
qed

lemma DecodeUtf8_iff:
  "DecodeUtf8 s = Some (n, b) \<longleftrightarrow>
     (\<exists>cps. list_all scalar_value cps \<and> s = concat (map utf8_encode cps) \<and>
        n = length cps \<and> b = list_ex is_control cps)"
  using DecodeUtf8_loop_sound [of s 0 False n b] DecodeUtf8_loop_complete [where n = 0 and ctl = False]
  by (auto simp: DecodeUtf8_def)

section \<open>What an accepted value looks like\<close>

lemma ok_simps [simp]: "ok Valid" "\<not> ok (Invalid m)"
  by (simp_all add: ok_def Valid_def Invalid_def)

lemma ok_RequiredIdentifier:
  "ok (RequiredIdentifier s f) \<longleftrightarrow> s \<noteq> [] \<and> length s \<le> kIdMaxLength \<and> IsValidIdentifier s"
  by (simp add: RequiredIdentifier_def)

lemma ok_Username:
  "ok (Username s) \<longleftrightarrow>
     kUsernameMinLength \<le> length s \<and> length s \<le> kUsernameMaxLength \<and> IsValidIdentifier s"
  by (auto simp: Username_def)

lemma ok_Token: "ok (Token s) \<longleftrightarrow> length s = 64 \<and> list_all isxdigit s"
  by (simp add: Token_def)

lemma ok_MessageContent:
  "ok (MessageContent s) \<longleftrightarrow> s \<noteq> [] \<and> length s \<le> kMessageMaxBytes \<and> \<not> HasNul s"
  by (simp add: MessageContent_def)

lemma ok_Nickname:
  "ok (Nickname s) \<longleftrightarrow>
     (\<exists>cps. cps \<noteq> [] \<and> length cps \<le> kNicknameMaxLength \<and>
        list_all (\<lambda>cp. scalar_value cp \<and> \<not> is_control cp) cps \<and>
        s = concat (map utf8_encode cps))"
proof -
  have "ok (Nickname s) \<longleftrightarrow> s \<noteq> [] \<and> (\<exists>n. DecodeUtf8 s = Some (n, False) \<and> n \<le> kNicknameMaxLength)"
    by (auto simp: Nickname_def not_less split: option.splits)
  also have "\<dots> \<longleftrightarrow> (\<exists>cps. cps \<noteq> [] \<and> length cps \<le> kNicknameMaxLength \<and>
        list_all (\<lambda>cp. scalar_value cp \<and> \<not> is_control cp) cps \<and>
        s = concat (map utf8_encode cps))"
    by (fastforce simp: DecodeUtf8_iff list_all_iff list_ex_iff)
  finally show ?thesis .
qed

lemma ok_Nickname_repeat:
  "scalar_value cp \<Longrightarrow> \<not> is_control cp \<Longrightarrow> 0 < k \<Longrightarrow> k \<le> kNicknameMaxLength \<Longrightarrow>
   ok (Nickname (concat (replicate k (utf8_encode cp))))"
  unfolding ok_Nickname by (intro exI [of _ "replicate k cp"]) (simp add: list_all_iff)

lemma utf8_bytes_bound: "length (concat (map utf8_encode cps)) \<le> 4 * length cps"
  by (induction cps) (use utf8_encode_length in \<open>auto intro: order_trans add_le_mono\<close>)

section \<open>Properties\<close>

text \<open>C28. \<^verbatim>\<open>DecodeUtf8\<close> accepts a byte string exactly when it is the concatenation of the
  UTF-8 encodings of Unicode scalar values (no overlong form, no surrogate, nothing above
  U+10FFFF), and then it reports the number of code points and whether one of them is a C0 or
  C1 control character.\<close>

theorem DecodeUtf8_exact:
  "DecodeUtf8 s = Some (n, b) \<longleftrightarrow>
     (\<exists>cps. list_all scalar_value cps \<and> s = concat (map utf8_encode cps) \<and>
        n = length cps \<and> b = list_ex is_control cps)"
  by (rule DecodeUtf8_iff)

text \<open>A nickname is accepted exactly when it encodes 1 to 64 code points, none a control
  character; its byte length is then at most 256, the size a column buffer must have.\<close>

theorem Nickname_exact:
  "(ok (Nickname s) \<longleftrightarrow>
     (\<exists>cps. cps \<noteq> [] \<and> length cps \<le> 64 \<and>
        list_all (\<lambda>cp. scalar_value cp \<and> \<not> is_control cp) cps \<and>
        s = concat (map utf8_encode cps))) \<and>
   \<not> (ok (Nickname s) \<and> 256 < length s)"
proof -
  have "length (concat (map utf8_encode cps)) \<le> 256" if "length cps \<le> 64" for cps
    using utf8_bytes_bound [of cps] that by linarith
  then show ?thesis
    by (fastforce simp: ok_Nickname kNicknameMaxLength_def)
qed

end
