(* ===== verification/Text.thy ===== *)
theory Text
  imports Validator "HOL-Library.Word"
begin

text \<open>
  Conversions between numbers and text that several components share: the white space and sign
  handling of the \<^verbatim>\<open>strto\<close> family, and hexadecimal printing with \<^verbatim>\<open>std::hex\<close> and \<^verbatim>\<open>std::setw\<close>, with
  the facts that fixed-width printing has the right length, uses hexadecimal digits only and can
  be read back.
\<close>

section \<open>Reading numbers\<close>

definition isspace :: "char \<Rightarrow> bool" where
  "isspace c \<longleftrightarrow> byte c = 32 \<or> (9 \<le> byte c \<and> byte c \<le> 13)"

definition saturate_int64 :: "int \<Rightarrow> int" where
  "saturate_int64 x = max int64_min (min int64_max x)"

text \<open>\<^verbatim>\<open>strtoll\<close> reads up to the first NUL byte, skips white space, takes a sign and digits, and saturates.\<close>

definition strtoll_sign :: "string \<Rightarrow> int \<times> string" where
  "strtoll_sign s =
     (case s of
        c # cs \<Rightarrow> if c = CHR ''-'' then (- 1, cs) else if c = CHR ''+'' then (1, cs) else (1, s)
      | [] \<Rightarrow> (1, s))"

section \<open>Hexadecimal text\<close>

text \<open>Printing with \<^verbatim>\<open>std::hex\<close>, \<^verbatim>\<open>std::setw(16)\<close> and \<^verbatim>\<open>std::setfill('0')\<close>.\<close>

definition hex_digit :: "nat \<Rightarrow> char" where
  "hex_digit d = (if d < 10 then char_of (48 + d) else char_of (87 + d))"

fun nat_to_hex :: "nat \<Rightarrow> string" where
  "nat_to_hex n = (if n < 16 then [hex_digit n] else nat_to_hex (n div 16) @ [hex_digit (n mod 16)])"

declare nat_to_hex.simps [simp del]

definition pad_left :: "nat \<Rightarrow> char \<Rightarrow> string \<Rightarrow> string" where
  "pad_left width fill s = replicate (width - length s) fill @ s"

definition hex16 :: "64 word \<Rightarrow> string" where
  "hex16 x = pad_left 16 (CHR ''0'') (nat_to_hex (unat x))"

lemma hex_digit_byte: "d < 16 \<Longrightarrow> byte (hex_digit d) = (if d < 10 then 48 + d else 87 + d)"
  by (simp add: hex_digit_def byte_char_of)


definition hex_value :: "string \<Rightarrow> nat" where
  "hex_value s = foldl (\<lambda>acc c. 16 * acc + (if byte c < 58 then byte c - 48 else byte c - 87)) 0 s"

lemma hex_value_snoc: "d < 16 \<Longrightarrow> hex_value (s @ [hex_digit d]) = 16 * hex_value s + d"
  by (simp add: hex_value_def hex_digit_byte)

lemma hex_value_nat_to_hex [simp]: "hex_value (nat_to_hex n) = n"
proof (induction n rule: nat_to_hex.induct)
  case (1 n)
  show ?case
  proof (cases "n < 16")
    case True
    then show ?thesis
      using hex_value_snoc [of n "[]"] by (subst nat_to_hex.simps) (simp add: hex_value_def)
  next
    case False
    then show ?thesis
      using 1 by (subst nat_to_hex.simps) (simp add: hex_value_snoc)
  qed
qed

lemma hex_value_pad [simp]: "hex_value (pad_left k (CHR ''0'') s) = hex_value s"
proof -
  have "hex_value (replicate j (CHR ''0'') @ s) = hex_value s" for j
    by (induction j) (simp_all add: hex_value_def byte_def of_char_def)
  then show ?thesis
    by (simp add: pad_left_def)
qed

lemma length_nat_to_hex: "0 < k \<Longrightarrow> n < 16 ^ k \<Longrightarrow> length (nat_to_hex n) \<le> k"
proof (induction n arbitrary: k rule: nat_to_hex.induct)
  case (1 n)
  show ?case
  proof (cases "n < 16")
    case True
    then show ?thesis
      using "1.prems" by (subst nat_to_hex.simps) simp
  next
    case False
    then obtain j where j: "k = Suc j" "0 < j"
      using "1.prems" by (cases k; cases "k - 1") auto
    have "n div 16 < 16 ^ j"
      using "1.prems"(2) j by (simp add: less_mult_imp_div_less mult.commute)
    then have "length (nat_to_hex (n div 16)) \<le> j"
      using "1.IH" [OF False j(2)] by simp
    then show ?thesis
      using False j by (subst nat_to_hex.simps) simp
  qed
qed

lemma length_hex16 [simp]: "length (hex16 x) = 16"
proof -
  have "unat x < 16 ^ 16"
    using unsigned_less [of x] by simp
  then show ?thesis
    using length_nat_to_hex [of 16 "unat x"] by (simp add: hex16_def pad_left_def)
qed

lemma hex16_inject [simp]: "hex16 x = hex16 y \<longleftrightarrow> x = y"
proof
  assume "hex16 x = hex16 y"
  then have "hex_value (hex16 x) = hex_value (hex16 y)"
    by simp
  then show "x = y"
    by (simp add: hex16_def word_unat_eq_iff)
qed simp

lemma isxdigit_hex_digit: "d < 16 \<Longrightarrow> isxdigit (hex_digit d) \<and> isalnum (hex_digit d)"
  by (auto simp: isxdigit_def isalnum_def hex_digit_byte is_digit_def)

lemma nat_to_hex_digits: "c \<in> set (nat_to_hex n) \<Longrightarrow> isxdigit c \<and> isalnum c"
proof (induction n rule: nat_to_hex.induct)
  case (1 n)
  then show ?case
    using isxdigit_hex_digit by (cases "n < 16") (auto simp: nat_to_hex.simps [of n])
qed

lemma hex16_digits: "c \<in> set (hex16 x) \<Longrightarrow> isxdigit c \<and> isalnum c"
proof -
  have "isxdigit (CHR ''0'') \<and> isalnum (CHR ''0'')"
    by (simp add: isxdigit_def isalnum_def is_digit_def byte_def of_char_def)
  then show "c \<in> set (hex16 x) \<Longrightarrow> isxdigit c \<and> isalnum c"
    using nat_to_hex_digits [of c "unat x"] by (auto simp: hex16_def pad_left_def)
qed

end
