(* ===== verification/SessionManager.thy ===== *)
theory SessionManager
  imports Models
begin

text \<open>
  The local session registry, \<^verbatim>\<open>src/src/server/session_manager.cc\<close>: two hash maps that index the
  sessions by connection and the connections by user. The interface \<^verbatim>\<open>ISessionManager\<close> is a
  record of operations over a world type, the way the services see it; the locale
  \<^verbatim>\<open>session_registry\<close> states what the services rely on and is interpreted on the class.
\<close>

section \<open>Translation\<close>

record 'w ISessionManager =
  im_BindSession :: "connectionId \<Rightarrow> ConnectionSession \<Rightarrow> 'w \<Rightarrow> bool \<times> 'w"
  im_GetConnectionId :: "userId \<Rightarrow> 'w \<Rightarrow> connectionId option"
  im_GetConnectionIds :: "userId \<Rightarrow> 'w \<Rightarrow> connectionId list"
  im_GetSession :: "connectionId \<Rightarrow> 'w \<Rightarrow> ConnectionSession option"
  im_ClearSession :: "connectionId \<Rightarrow> 'w \<Rightarrow> 'w"

text \<open>The default body of \<^verbatim>\<open>ISessionManager::GetConnectionIds\<close>.\<close>

definition default_GetConnectionIds ::
  "(userId \<Rightarrow> 'w \<Rightarrow> connectionId option) \<Rightarrow> userId \<Rightarrow> 'w \<Rightarrow> connectionId list" where
  "default_GetConnectionIds get uid w = (case get uid w of None \<Rightarrow> [] | Some cid \<Rightarrow> [cid])"

record SessionManager =
  user_to_connections :: "userId \<rightharpoonup> connectionId list"
  connection_to_session :: "connectionId \<rightharpoonup> ConnectionSession"

definition SessionManager_new :: SessionManager where
  "SessionManager_new = \<lparr>user_to_connections = Map.empty, connection_to_session = Map.empty\<rparr>"

text \<open>\<^verbatim>\<open>operator[]\<close> creates an empty entry where there is none.\<close>

definition conns_at :: "(userId \<rightharpoonup> connectionId list) \<Rightarrow> userId \<Rightarrow> connectionId list" where
  "conns_at m uid = (case m uid of None \<Rightarrow> [] | Some cs \<Rightarrow> cs)"

text \<open>Erase a connection from a user's vector, and the user when nothing is left; the step that
  \<^verbatim>\<open>BindSession\<close> and \<^verbatim>\<open>ClearSession\<close> share.\<close>

definition drop_connection ::
  "userId \<Rightarrow> connectionId \<Rightarrow> (userId \<rightharpoonup> connectionId list) \<Rightarrow> (userId \<rightharpoonup> connectionId list)" where
  "drop_connection uid cid m =
     (let connections = removeAll cid (conns_at m uid)
      in if connections = [] then m(uid := None) else m(uid \<mapsto> connections))"

definition valid_session :: "ConnectionSession \<Rightarrow> bool" where
  "valid_session s \<longleftrightarrow> \<not> (\<not> cs_authenticated s \<or> cs_user_id s \<le> 0 \<or> cs_username s = [])"

definition BindSession ::
  "connectionId \<Rightarrow> ConnectionSession \<Rightarrow> SessionManager \<Rightarrow> bool \<times> SessionManager" where
  "BindSession cid session sm =
     (if \<not> valid_session session then (False, sm)
      else
        let users = (case connection_to_session sm cid of
                       None \<Rightarrow> user_to_connections sm
                     | Some old \<Rightarrow> drop_connection (cs_user_id old) cid (user_to_connections sm));
            connections = conns_at users (cs_user_id session);
            connections' = (if cid \<in> set connections then connections else connections @ [cid])
        in (True, sm\<lparr>user_to_connections := users(cs_user_id session \<mapsto> connections'),
              connection_to_session := (connection_to_session sm)(cid \<mapsto> session)\<rparr>))"

definition GetConnectionId :: "userId \<Rightarrow> SessionManager \<Rightarrow> connectionId option" where
  "GetConnectionId uid sm =
     (case user_to_connections sm uid of
        None \<Rightarrow> None
      | Some cs \<Rightarrow> if cs = [] then None else Some (last cs))"

definition GetConnectionIds :: "userId \<Rightarrow> SessionManager \<Rightarrow> connectionId list" where
  "GetConnectionIds uid sm =
     (case user_to_connections sm uid of None \<Rightarrow> [] | Some cs \<Rightarrow> cs)"

definition GetSession :: "connectionId \<Rightarrow> SessionManager \<Rightarrow> ConnectionSession option" where
  "GetSession cid sm = connection_to_session sm cid"

definition ClearSession :: "connectionId \<Rightarrow> SessionManager \<Rightarrow> SessionManager" where
  "ClearSession cid sm =
     (case connection_to_session sm cid of
        None \<Rightarrow> sm
      | Some session \<Rightarrow>
          sm\<lparr>user_to_connections := drop_connection (cs_user_id session) cid (user_to_connections sm),
             connection_to_session := (connection_to_session sm)(cid := None)\<rparr>)"

definition session_manager_ops :: "SessionManager ISessionManager" where
  "session_manager_ops =
     \<lparr>im_BindSession = BindSession, im_GetConnectionId = GetConnectionId,
      im_GetConnectionIds = GetConnectionIds, im_GetSession = GetSession,
      im_ClearSession = ClearSession\<rparr>"

section \<open>The contract of a session registry\<close>

locale session_registry =
  fixes ops :: "'w ISessionManager"
    and inv :: "'w \<Rightarrow> bool"
    and sess :: "'w \<Rightarrow> connectionId \<rightharpoonup> ConnectionSession"
    and conns :: "'w \<Rightarrow> userId \<Rightarrow> connectionId list"
  assumes get_session: "im_GetSession ops cid w = sess w cid"
    and get_ids: "im_GetConnectionIds ops uid w = conns w uid"
    and get_id: "im_GetConnectionId ops uid w =
      (if conns w uid = [] then None else Some (last (conns w uid)))"
    and bind_refused: "\<not> valid_session s \<Longrightarrow> im_BindSession ops cid s w = (False, w)"
    and bind_result: "valid_session s \<Longrightarrow> inv w \<Longrightarrow> im_BindSession ops cid s w = (r, w') \<Longrightarrow>
      r \<and> inv w' \<and> sess w' = (sess w)(cid \<mapsto> s) \<and>
      (\<forall>uid. conns w' uid =
         removeAll cid (conns w uid) @ (if uid = cs_user_id s then [cid] else []))"
    and clear_result: "inv w \<Longrightarrow>
      inv (im_ClearSession ops cid w) \<and> sess (im_ClearSession ops cid w) = (sess w)(cid := None) \<and>
      conns (im_ClearSession ops cid w) uid = removeAll cid (conns w uid)"
    and index_agrees: "inv w \<Longrightarrow>
      distinct (conns w uid) \<and>
      (cid \<in> set (conns w uid) \<longleftrightarrow> (\<exists>s. sess w cid = Some s \<and> cs_user_id s = uid))"
    and inv_valid: "inv w \<Longrightarrow> sess w cid = Some s \<Longrightarrow> valid_session s"
begin

text \<open>The connection a message is routed to carries a session of the addressed user.\<close>

lemma routed_to_owner:
  assumes "inv w" "im_GetConnectionId ops uid w = Some cid"
  shows "\<exists>s. im_GetSession ops cid w = Some s \<and> cs_user_id s = uid \<and> valid_session s"
  using assms index_agrees [OF assms(1), of uid cid] inv_valid [OF assms(1), of cid]
  by (auto simp: get_id get_session split: if_splits)

lemma offline_iff:
  assumes "inv w"
  shows "im_GetConnectionId ops uid w = None \<longleftrightarrow>
    (\<forall>cid s. im_GetSession ops cid w = Some s \<longrightarrow> cs_user_id s \<noteq> uid)"
proof -
  have "conns w uid = [] \<longleftrightarrow> (\<forall>cid. cid \<notin> set (conns w uid))"
    by (cases "conns w uid") auto
  then show ?thesis
    using index_agrees [OF assms, of uid] by (simp add: get_id get_session)
qed

lemma bind_then_route:
  assumes "inv w" "valid_session s" "im_BindSession ops cid s w = (r, w')"
  shows "r \<and> inv w' \<and> im_GetConnectionId ops (cs_user_id s) w' = Some cid \<and>
    im_GetSession ops cid w' = Some s"
  using bind_result [OF assms(2,1,3)] by (simp add: get_id get_session)

lemma clear_then_get:
  assumes "inv w"
  shows "im_GetSession ops cid (im_ClearSession ops cid w) = None \<and>
    cid \<notin> set (im_GetConnectionIds ops uid (im_ClearSession ops cid w))"
  using clear_result [OF assms, of cid uid] by (simp add: get_session get_ids)

lemma bind_frame:
  assumes "inv w" "valid_session s" "im_BindSession ops cid s w = (r, w')" "cid' \<noteq> cid"
  shows "im_GetSession ops cid' w' = im_GetSession ops cid' w"
  using bind_result [OF assms(2,1,3)] assms(4) by (simp add: get_session)

end

section \<open>The class keeps its two indexes in agreement\<close>

definition sm_inv :: "SessionManager \<Rightarrow> bool" where
  "sm_inv sm \<longleftrightarrow>
     (\<forall>uid cs. user_to_connections sm uid = Some cs \<longrightarrow> cs \<noteq> [] \<and> distinct cs) \<and>
     (\<forall>uid cid. cid \<in> set (conns_at (user_to_connections sm) uid) \<longleftrightarrow>
        (\<exists>s. connection_to_session sm cid = Some s \<and> cs_user_id s = uid)) \<and>
     (\<forall>cid s. connection_to_session sm cid = Some s \<longrightarrow> valid_session s)"

lemma conns_at_drop [session_simps]:
  "conns_at (drop_connection uid cid m) u =
     (if u = uid then removeAll cid (conns_at m u) else conns_at m u)"
  by (simp add: drop_connection_def conns_at_def Let_def)

lemma conns_at_upd [session_simps]:
  "conns_at (m(uid \<mapsto> cs)) u = (if u = uid then cs else conns_at m u)"
  by (simp add: conns_at_def)

lemma drop_connection_entries:
  assumes "\<forall>u cs. m u = Some cs \<longrightarrow> cs \<noteq> [] \<and> distinct cs"
    and "drop_connection uid cid m u = Some cs"
  shows "cs \<noteq> [] \<and> distinct cs"
  using assms
  by (auto simp: drop_connection_def conns_at_def Let_def distinct_removeAll
      split: if_splits option.splits)

lemma sm_inv_distinct: "sm_inv sm \<Longrightarrow> distinct (conns_at (user_to_connections sm) uid)"
  by (auto simp: sm_inv_def conns_at_def split: option.splits)

lemma sm_inv_member:
  "sm_inv sm \<Longrightarrow> cid \<in> set (conns_at (user_to_connections sm) uid) \<longleftrightarrow>
     (\<exists>s. connection_to_session sm cid = Some s \<and> cs_user_id s = uid)"
  by (simp add: sm_inv_def)

text \<open>The connection vectors after a bind: the connection moves to the end of its new user's
  vector and leaves every other.\<close>

lemma conns_at_bind:
  assumes "sm_inv sm" "valid_session s"
  shows "conns_at (user_to_connections (snd (BindSession cid s sm))) uid =
    removeAll cid (conns_at (user_to_connections sm) uid) @ (if uid = cs_user_id s then [cid] else [])"
proof -
  have absent: "cid \<notin> set (conns_at (user_to_connections sm) u)"
    if "connection_to_session sm cid = None \<or>
        (\<exists>old. connection_to_session sm cid = Some old \<and> cs_user_id old \<noteq> u)" for u
    using sm_inv_member [OF assms(1), of cid u] that by auto
  show ?thesis
    using assms(2) absent
    by (cases "connection_to_session sm cid")
      (auto simp: BindSession_def Let_def session_simps removeAll_id)
qed

lemma conns_at_clear:
  assumes "sm_inv sm"
  shows "conns_at (user_to_connections (ClearSession cid sm)) uid =
    removeAll cid (conns_at (user_to_connections sm) uid)"
  using sm_inv_member [OF assms, of cid uid]
  by (auto simp: ClearSession_def session_simps removeAll_id split: option.splits)

lemma BindSession_sessions:
  "valid_session s \<Longrightarrow> fst (BindSession cid s sm) \<and>
     connection_to_session (snd (BindSession cid s sm)) = (connection_to_session sm)(cid \<mapsto> s)"
  by (simp add: BindSession_def Let_def)

lemma ClearSession_sessions:
  "connection_to_session (ClearSession cid sm) = (connection_to_session sm)(cid := None)"
  by (auto simp: ClearSession_def fun_eq_iff split: option.splits)

lemma entries_bind:
  assumes "sm_inv sm" "valid_session s"
    and "user_to_connections (snd (BindSession cid s sm)) uid = Some cs"
  shows "cs \<noteq> [] \<and> distinct cs"
proof (cases "uid = cs_user_id s")
  case True
  then have "cs = conns_at (user_to_connections (snd (BindSession cid s sm))) uid"
    using assms(3) by (simp add: conns_at_def)
  with True show ?thesis
    using conns_at_bind [OF assms(1,2), of cid uid] sm_inv_distinct [OF assms(1), of uid]
    by (simp add: distinct_removeAll)
next
  case False
  have "\<forall>u cs. user_to_connections sm u = Some cs \<longrightarrow> cs \<noteq> [] \<and> distinct cs"
    using assms(1) by (simp add: sm_inv_def)
  with False assms(2,3) show ?thesis
    by (auto simp: BindSession_def Let_def dest: drop_connection_entries split: option.splits)
qed

lemma sm_inv_bind:
  assumes "sm_inv sm" "valid_session s"
  shows "sm_inv (snd (BindSession cid s sm))"
proof -
  have "u \<in> set (conns_at (user_to_connections (snd (BindSession cid s sm))) uid) \<longleftrightarrow>
      (\<exists>t. connection_to_session (snd (BindSession cid s sm)) u = Some t \<and> cs_user_id t = uid)" for u uid
    using sm_inv_member [OF assms(1), of u uid] BindSession_sessions [OF assms(2), of cid sm]
    by (auto simp: conns_at_bind [OF assms])
  moreover have "valid_session t"
    if "connection_to_session (snd (BindSession cid s sm)) u = Some t" for u t
    using that assms BindSession_sessions [OF assms(2), of cid sm]
    by (auto simp: sm_inv_def split: if_splits)
  ultimately show ?thesis
    using entries_bind [OF assms] unfolding sm_inv_def by blast
qed

lemma sm_inv_clear:
  assumes "sm_inv sm"
  shows "sm_inv (ClearSession cid sm)"
proof -
  have "u \<in> set (conns_at (user_to_connections (ClearSession cid sm)) uid) \<longleftrightarrow>
      (\<exists>t. connection_to_session (ClearSession cid sm) u = Some t \<and> cs_user_id t = uid)" for u uid
    using sm_inv_member [OF assms, of u uid]
    by (auto simp: conns_at_clear [OF assms] ClearSession_sessions)
  moreover have "cs \<noteq> [] \<and> distinct cs"
    if "user_to_connections (ClearSession cid sm) uid = Some cs" for uid cs
    using that assms
    by (auto simp: ClearSession_def sm_inv_def dest: drop_connection_entries split: option.splits)
  ultimately show ?thesis
    using assms unfolding sm_inv_def by (auto simp: ClearSession_sessions split: if_splits)
qed

lemma sm_inv_new: "sm_inv SessionManager_new"
  by (simp add: sm_inv_def SessionManager_new_def conns_at_def)

definition sm_conns :: "SessionManager \<Rightarrow> userId \<Rightarrow> connectionId list" where
  "sm_conns sm uid = conns_at (user_to_connections sm) uid"

lemma GetConnectionIds_conns: "GetConnectionIds uid sm = sm_conns sm uid"
  by (simp add: GetConnectionIds_def sm_conns_def conns_at_def)

lemma GetConnectionId_conns:
  "GetConnectionId uid sm = (if sm_conns sm uid = [] then None else Some (last (sm_conns sm uid)))"
  by (simp add: GetConnectionId_def sm_conns_def conns_at_def split: option.splits)

interpretation local_sessions:
  session_registry session_manager_ops sm_inv connection_to_session sm_conns
proof unfold_locales
  fix sm :: SessionManager and cid uid s r sm'
  show "im_GetSession session_manager_ops cid sm = connection_to_session sm cid"
    by (simp add: session_manager_ops_def GetSession_def)
  show "im_GetConnectionIds session_manager_ops uid sm = sm_conns sm uid"
    by (simp add: session_manager_ops_def GetConnectionIds_conns)
  show "im_GetConnectionId session_manager_ops uid sm =
      (if sm_conns sm uid = [] then None else Some (last (sm_conns sm uid)))"
    by (simp add: session_manager_ops_def GetConnectionId_conns)
  show "im_BindSession session_manager_ops cid s sm = (False, sm)" if "\<not> valid_session s"
    using that by (simp add: session_manager_ops_def BindSession_def)
  show "r \<and> sm_inv sm' \<and> connection_to_session sm' = (connection_to_session sm)(cid \<mapsto> s) \<and>
      (\<forall>uid. sm_conns sm' uid =
         removeAll cid (sm_conns sm uid) @ (if uid = cs_user_id s then [cid] else []))"
    if "valid_session s" "sm_inv sm" "im_BindSession session_manager_ops cid s sm = (r, sm')"
    using that sm_inv_bind [OF that(2,1), of cid] BindSession_sessions [OF that(1), of cid sm]
      conns_at_bind [OF that(2,1), of cid]
    by (simp add: session_manager_ops_def sm_conns_def)
  show "sm_inv (im_ClearSession session_manager_ops cid sm) \<and>
      connection_to_session (im_ClearSession session_manager_ops cid sm) =
        (connection_to_session sm)(cid := None) \<and>
      sm_conns (im_ClearSession session_manager_ops cid sm) uid = removeAll cid (sm_conns sm uid)"
    if "sm_inv sm"
    using that sm_inv_clear [OF that] conns_at_clear [OF that]
    by (simp add: session_manager_ops_def sm_conns_def ClearSession_sessions)
  show "distinct (sm_conns sm uid) \<and>
      (cid \<in> set (sm_conns sm uid) \<longleftrightarrow>
         (\<exists>s. connection_to_session sm cid = Some s \<and> cs_user_id s = uid))"
    if "sm_inv sm"
    using sm_inv_distinct [OF that] sm_inv_member [OF that] by (simp add: sm_conns_def)
  show "valid_session s" if "sm_inv sm" "connection_to_session sm cid = Some s"
    using that by (simp add: sm_inv_def)
qed

section \<open>Histories of session operations\<close>

datatype session_op = OpBind connectionId ConnectionSession | OpClear connectionId

primrec apply_session_op :: "session_op \<Rightarrow> SessionManager \<Rightarrow> SessionManager" where
  "apply_session_op (OpBind cid s) sm = snd (BindSession cid s sm)"
| "apply_session_op (OpClear cid) sm = ClearSession cid sm"

text \<open>The specification keeps one map only.\<close>

primrec spec_session_op ::
  "session_op \<Rightarrow> (connectionId \<rightharpoonup> ConnectionSession) \<Rightarrow> (connectionId \<rightharpoonup> ConnectionSession)" where
  "spec_session_op (OpBind cid s) m = (if valid_session s then m(cid \<mapsto> s) else m)"
| "spec_session_op (OpClear cid) m = m(cid := None)"

definition session_history :: "session_op list \<Rightarrow> SessionManager" where
  "session_history ops = fold apply_session_op ops SessionManager_new"

definition spec_history :: "session_op list \<Rightarrow> (connectionId \<rightharpoonup> ConnectionSession)" where
  "spec_history ops = fold spec_session_op ops Map.empty"

lemma apply_session_op_refines:
  assumes "sm_inv sm"
  shows "sm_inv (apply_session_op opn sm) \<and>
    connection_to_session (apply_session_op opn sm) = spec_session_op opn (connection_to_session sm)"
proof (cases opn)
  case (OpBind cid s)
  then show ?thesis
    using assms sm_inv_bind [OF assms, of s cid] BindSession_sessions [of s cid sm]
    by (auto simp: BindSession_def Let_def)
qed (simp add: sm_inv_clear [OF assms] ClearSession_sessions)

lemma session_fold_refines:
  assumes "sm_inv sm"
  shows "sm_inv (fold apply_session_op ops sm) \<and>
    connection_to_session (fold apply_session_op ops sm) =
      fold spec_session_op ops (connection_to_session sm)"
  using assms
proof (induction ops arbitrary: sm)
  case (Cons opn ops)
  then show ?case
    using apply_session_op_refines [OF Cons.prems, of opn] by simp
qed simp

lemma session_history_refines:
  "sm_inv (session_history ops) \<and> connection_to_session (session_history ops) = spec_history ops"
  using session_fold_refines [OF sm_inv_new, of ops]
  by (simp add: session_history_def spec_history_def SessionManager_new_def)

section \<open>Properties\<close>

text \<open>C17. After any history of binds and clears the two indexes of the session manager agree
  with one map from connections to sessions: a lookup by connection returns its entry, the
  connections listed for a user are exactly those with a session of that user, each once, and a
  user is offline exactly when there is none.\<close>

theorem session_history_refines_map:
  "GetSession cid (session_history ops) = spec_history ops cid \<and>
   distinct (GetConnectionIds uid (session_history ops)) \<and>
   set (GetConnectionIds uid (session_history ops)) =
     {c. \<exists>s. spec_history ops c = Some s \<and> cs_user_id s = uid} \<and>
   (GetConnectionId uid (session_history ops) = None \<longleftrightarrow>
     GetConnectionIds uid (session_history ops) = [])"
  using session_history_refines [of ops]
    local_sessions.index_agrees [of "session_history ops" uid]
  by (auto simp: GetSession_def GetConnectionIds_conns GetConnectionId_conns) blast

text \<open>Binding an authenticated session makes its connection the one its user is reached on
  and leaves the session of every other connection alone; a session without user id, name or
  authentication is refused and changes nothing.\<close>

theorem BindSession_routes:
  assumes "sm_inv sm" and "BindSession cid s sm = (r, sm')"
  shows "(if valid_session s
    then r \<and> sm_inv sm' \<and> GetConnectionId (cs_user_id s) sm' = Some cid \<and>
      GetSession cid sm' = Some s \<and>
      (\<forall>other. other \<noteq> cid \<longrightarrow> GetSession other sm' = GetSession other sm)
    else \<not> r \<and> sm' = sm)"
proof (cases "valid_session s")
  case True
  then show ?thesis
    using local_sessions.bind_then_route [OF assms(1) True, of cid r sm']
      local_sessions.bind_frame [OF assms(1) True, of cid r sm'] assms(2)
    by (simp add: session_manager_ops_def)
next
  case False
  then show ?thesis
    using assms(2) by (simp add: BindSession_def)
qed

theorem BindSession_routes_witness:
  "let s = \<lparr>cs_authenticated = True, cs_user_id = 5, cs_username = ''eve'', cs_token = ''t''\<rparr>;
       sm' = snd (BindSession 9 s SessionManager_new)
   in sm_inv sm' \<and> GetConnectionId 5 sm' = Some 9"
proof -
  define s where
    "s = \<lparr>cs_authenticated = True, cs_user_id = 5, cs_username = ''eve'', cs_token = ''t''\<rparr>"
  have "valid_session s"
    by (simp add: s_def valid_session_def)
  then show ?thesis
    using BindSession_routes [OF sm_inv_new, of 9 s "fst (BindSession 9 s SessionManager_new)"
        "snd (BindSession 9 s SessionManager_new)"]
    by (simp add: s_def)
qed

end
