(* ===== verification/SessionStore.thy ===== *)
theory SessionStore
  imports Redis Text SessionManager
begin

text \<open>
  The session store shared by all server processes, \<^verbatim>\<open>src/src/server/redis_session_store.cc\<close>: a token
  hash, a user presence hash, a connection presence hash and the current token of each user, kept
  consistent by the four Lua scripts of theory \<^verbatim>\<open>Redis\<close>. A null client is \<^term>\<open>None\<close>.
\<close>

section \<open>Interface\<close>

record StoredSessionToken =
  st_user_id :: userId
  st_username :: string
  st_issued_at :: timestamp

record StoredUserPresence =
  sp_server_id :: string
  sp_connection_id :: connectionId
  sp_token :: token

record 'w IGlobalSessionStore =
  igs_Bind :: "connectionId \<Rightarrow> ConnectionSession \<Rightarrow> timestamp \<Rightarrow> ('w, bool) state"
  igs_Refresh :: "connectionId \<Rightarrow> ConnectionSession \<Rightarrow> ('w, bool) state"
  igs_ClearPresence :: "connectionId \<Rightarrow> ConnectionSession \<Rightarrow> ('w, bool) state"
  igs_RevokeSession :: "connectionId \<Rightarrow> ConnectionSession \<Rightarrow> ('w, bool) state"
  igs_RevokeToken :: "token \<Rightarrow> ('w, bool) state"
  igs_GetToken :: "token \<Rightarrow> ('w, StoredSessionToken option) state"
  igs_GetPresence :: "userId \<Rightarrow> ('w, StoredUserPresence option) state"

text \<open>The inherited \<^verbatim>\<open>RevokeSession\<close> of a store that does not override it.\<close>

definition default_RevokeSession ::
  "(connectionId \<Rightarrow> ConnectionSession \<Rightarrow> ('w, bool) state) \<Rightarrow> (token \<Rightarrow> ('w, bool) state) \<Rightarrow>
   connectionId \<Rightarrow> ConnectionSession \<Rightarrow> ('w, bool) state" where
  "default_RevokeSession clear revoke connection_id session = do {
     cleared \<leftarrow> clear connection_id session;
     if cleared then revoke (cs_token session) else ret False
   }"

section \<open>Helpers\<close>

definition ParseInteger :: "string \<Rightarrow> int option" where
  "ParseInteger value =
     (let (sign, body) = strtoll_sign (dropWhile isspace (takeWhile (\<lambda>c. byte c \<noteq> 0) value));
          ds = takeWhile is_digit body
      in if ds = [] \<or> dropWhile is_digit body \<noteq> [] then None
         else Some (saturate_int64 (sign * int (digits_value ds))))"

definition IsOne :: "RedisCommandResult \<Rightarrow> bool" where
  "IsOne r \<longleftrightarrow> rcr_success r \<and> rr_type (rcr_reply r) = kInteger \<and> rr_integer_value (rcr_reply r) = 1"

definition TokenKey :: "RedisConfig \<Rightarrow> token \<Rightarrow> string" where
  "TokenKey config tok = rc_key_prefix config @ '':session:token:'' @ tok"

definition UserPresenceKey :: "RedisConfig \<Rightarrow> userId \<Rightarrow> string" where
  "UserPresenceKey config uid = rc_key_prefix config @ '':presence:user:'' @ int_to_string uid"

definition UserSessionKey :: "RedisConfig \<Rightarrow> userId \<Rightarrow> string" where
  "UserSessionKey config uid = rc_key_prefix config @ '':session:user:'' @ int_to_string uid"

definition ConnectionPresenceKey :: "RedisConfig \<Rightarrow> string \<Rightarrow> connectionId \<Rightarrow> string" where
  "ConnectionPresenceKey config server_id connection_id =
     rc_key_prefix config @ '':presence:conn:'' @ server_id @ '':'' @ nat_to_string connection_id"

definition IsValidSession :: "ConnectionSession \<Rightarrow> bool" where
  "IsValidSession session \<longleftrightarrow>
     cs_authenticated session \<and> 0 < cs_user_id session \<and> cs_username session \<noteq> [] \<and>
     ok (Token (cs_token session))"

fun string_values :: "RedisReply list \<Rightarrow> string list option" where
  "string_values [] = Some []"
| "string_values (r # rs) =
     (if rr_type r \<noteq> kString then None
      else case string_values rs of None \<Rightarrow> None | Some vs \<Rightarrow> Some (rr_string_value r # vs))"

definition ReadHash ::
  "'w IRedisClient option \<Rightarrow> string \<Rightarrow> string list \<Rightarrow> ('w, (string list) option) state" where
  "ReadHash client key fs =
     (case client of
        None \<Rightarrow> ret None
      | Some command \<Rightarrow>
          if key = [] then ret None
          else do {
            r \<leftarrow> command (HMGET key fs);
            ret (if \<not> rcr_success r \<or> rr_type (rcr_reply r) \<noteq> kArray \<or>
                    length (rr_elements (rcr_reply r)) \<noteq> length fs
                 then None else string_values (rr_elements (rcr_reply r)))
          })"

section \<open>Methods\<close>

definition Bind ::
  "'w IRedisClient option \<Rightarrow> RedisConfig \<Rightarrow> connectionId \<Rightarrow> ConnectionSession \<Rightarrow> timestamp \<Rightarrow> ('w, bool) state" where
  "Bind client config connection_id session issued_at =
     (case client of
        None \<Rightarrow> ret False
      | Some command \<Rightarrow>
          if connection_id = 0 \<or> issued_at < 0 \<or> \<not> IsValidSession session then ret False
          else do {
            r \<leftarrow> command (EVAL kBindScript
              [TokenKey config (cs_token session), UserPresenceKey config (cs_user_id session),
               ConnectionPresenceKey config (rc_server_id config) connection_id,
               UserSessionKey config (cs_user_id session)]
              [rc_key_prefix config, rc_server_id config, nat_to_string connection_id,
               int_to_string (cs_user_id session), cs_username session, int_to_string issued_at,
               nat_to_string (rc_session_ttl_seconds config), cs_token session,
               nat_to_string (rc_presence_ttl_seconds config)]);
            ret (IsOne r)
          })"

definition Refresh ::
  "'w IRedisClient option \<Rightarrow> RedisConfig \<Rightarrow> connectionId \<Rightarrow> ConnectionSession \<Rightarrow> ('w, bool) state" where
  "Refresh client config connection_id session =
     (case client of
        None \<Rightarrow> ret False
      | Some command \<Rightarrow>
          if connection_id = 0 \<or> \<not> IsValidSession session then ret False
          else do {
            r \<leftarrow> command (EVAL kRefreshScript
              [UserPresenceKey config (cs_user_id session),
               ConnectionPresenceKey config (rc_server_id config) connection_id]
              [rc_server_id config, nat_to_string connection_id, cs_token session,
               int_to_string (cs_user_id session), nat_to_string (rc_presence_ttl_seconds config)]);
            ret (IsOne r)
          })"

definition ClearPresence ::
  "'w IRedisClient option \<Rightarrow> RedisConfig \<Rightarrow> connectionId \<Rightarrow> ConnectionSession \<Rightarrow> ('w, bool) state" where
  "ClearPresence client config connection_id session =
     (case client of
        None \<Rightarrow> ret False
      | Some command \<Rightarrow>
          if connection_id = 0 \<or> \<not> IsValidSession session then ret False
          else do {
            r \<leftarrow> command (EVAL kClearScript
              [UserPresenceKey config (cs_user_id session),
               ConnectionPresenceKey config (rc_server_id config) connection_id]
              [rc_server_id config, nat_to_string connection_id, cs_token session]);
            ret (rcr_success r)
          })"

definition RevokeSession ::
  "'w IRedisClient option \<Rightarrow> RedisConfig \<Rightarrow> connectionId \<Rightarrow> ConnectionSession \<Rightarrow> ('w, bool) state" where
  "RevokeSession client config connection_id session =
     (case client of
        None \<Rightarrow> ret False
      | Some command \<Rightarrow>
          if connection_id = 0 \<or> \<not> IsValidSession session then ret False
          else do {
            r \<leftarrow> command (EVAL kRevokeScript
              [UserPresenceKey config (cs_user_id session),
               ConnectionPresenceKey config (rc_server_id config) connection_id,
               TokenKey config (cs_token session), UserSessionKey config (cs_user_id session)]
              [rc_server_id config, nat_to_string connection_id, cs_token session]);
            ret (IsOne r)
          })"

definition RevokeToken :: "'w IRedisClient option \<Rightarrow> RedisConfig \<Rightarrow> token \<Rightarrow> ('w, bool) state" where
  "RevokeToken client config tok =
     (case client of
        None \<Rightarrow> ret False
      | Some command \<Rightarrow>
          if \<not> ok (Token tok) then ret False
          else do { r \<leftarrow> command (DEL [TokenKey config tok]); ret (rcr_success r) })"

text \<open>The \<^verbatim>\<open>DEL\<close> of a damaged entry is sent through the client, which is not null when a hash was read.\<close>

definition forget :: "'w IRedisClient option \<Rightarrow> string \<Rightarrow> ('w, unit) state" where
  "forget client key =
     (case client of None \<Rightarrow> ret () | Some command \<Rightarrow> do { _ \<leftarrow> command (DEL [key]); ret () })"

definition stored_token :: "string list \<Rightarrow> StoredSessionToken option" where
  "stored_token vs =
     (case (ParseInteger (vs ! 0), ParseInteger (vs ! 2)) of
        (Some uid, Some issued_at) \<Rightarrow>
          if uid \<le> 0 \<or> vs ! 1 = [] \<or> issued_at < 0 then None
          else Some \<lparr>st_user_id = uid, st_username = vs ! 1, st_issued_at = issued_at\<rparr>
      | _ \<Rightarrow> None)"

definition GetToken ::
  "'w IRedisClient option \<Rightarrow> RedisConfig \<Rightarrow> token \<Rightarrow> ('w, StoredSessionToken option) state" where
  "GetToken client config tok =
     (if \<not> ok (Token tok) then ret None
      else do {
        values \<leftarrow> ReadHash client (TokenKey config tok) [''user_id'', ''username'', ''issued_at''];
        case values of
          None \<Rightarrow> ret None
        | Some vs \<Rightarrow>
            (case stored_token vs of
               None \<Rightarrow> do { forget client (TokenKey config tok); ret None }
             | Some t \<Rightarrow> ret (Some t))
      })"

definition stored_presence :: "string list \<Rightarrow> StoredUserPresence option" where
  "stored_presence vs =
     (case ParseInteger (vs ! 1) of
        None \<Rightarrow> None
      | Some connection_id \<Rightarrow>
          if vs ! 0 = [] \<or> connection_id \<le> 0 \<or> \<not> ok (Token (vs ! 2)) then None
          else Some \<lparr>sp_server_id = vs ! 0, sp_connection_id = nat connection_id, sp_token = vs ! 2\<rparr>)"

definition GetPresence ::
  "'w IRedisClient option \<Rightarrow> RedisConfig \<Rightarrow> userId \<Rightarrow> ('w, StoredUserPresence option) state" where
  "GetPresence client config uid =
     (if uid \<le> 0 then ret None
      else do {
        values \<leftarrow> ReadHash client (UserPresenceKey config uid) [''server_id'', ''connection_id'', ''token''];
        case values of
          None \<Rightarrow> ret None
        | Some vs \<Rightarrow>
            (case stored_presence vs of
               None \<Rightarrow> do { forget client (UserPresenceKey config uid); ret None }
             | Some p \<Rightarrow> ret (Some p))
      })"

definition redis_session_store_ops :: "'w IRedisClient option \<Rightarrow> RedisConfig \<Rightarrow> 'w IGlobalSessionStore" where
  "redis_session_store_ops client config =
     \<lparr>igs_Bind = Bind client config, igs_Refresh = Refresh client config,
      igs_ClearPresence = ClearPresence client config, igs_RevokeSession = RevokeSession client config,
      igs_RevokeToken = RevokeToken client config, igs_GetToken = GetToken client config,
      igs_GetPresence = GetPresence client config\<rparr>"

section \<open>Keys and numbers\<close>

text \<open>The hash keys of the session store, the counters of the rate limiter and the two cache
  families are different keys, whatever their parameters.\<close>

lemmas session_keys = TokenKey_def UserPresenceKey_def UserSessionKey_def ConnectionPresenceKey_def

lemma key_families [simp]:
  "TokenKey cfg t \<noteq> UserPresenceKey cfg u" "UserPresenceKey cfg u \<noteq> TokenKey cfg t"
  "TokenKey cfg t \<noteq> UserSessionKey cfg u" "UserSessionKey cfg u \<noteq> TokenKey cfg t"
  "TokenKey cfg t \<noteq> ConnectionPresenceKey cfg sv c" "ConnectionPresenceKey cfg sv c \<noteq> TokenKey cfg t"
  "UserPresenceKey cfg u \<noteq> UserSessionKey cfg u'" "UserSessionKey cfg u' \<noteq> UserPresenceKey cfg u"
  "UserPresenceKey cfg u \<noteq> ConnectionPresenceKey cfg sv c"
  "ConnectionPresenceKey cfg sv c \<noteq> UserPresenceKey cfg u"
  "UserSessionKey cfg u \<noteq> ConnectionPresenceKey cfg sv c"
  "ConnectionPresenceKey cfg sv c \<noteq> UserSessionKey cfg u"
  "TokenKey cfg t \<noteq> []" "UserPresenceKey cfg u \<noteq> []"
  by (simp_all add: session_keys)

lemma key_inject [simp]:
  "TokenKey cfg t = TokenKey cfg t' \<longleftrightarrow> t = t'"
  "UserPresenceKey cfg u = UserPresenceKey cfg u' \<longleftrightarrow> u = u'"
  "UserSessionKey cfg u = UserSessionKey cfg u' \<longleftrightarrow> u = u'"
  by (simp_all add: session_keys)

lemma nul_free_digits:
  "is_digit c \<Longrightarrow> byte c \<noteq> 0" "is_digit c \<Longrightarrow> \<not> isspace c"
  "is_digit c \<Longrightarrow> c \<noteq> CHR ''-'' \<and> c \<noteq> CHR ''+''"
proof -
  have "\<not> is_digit (CHR ''+'')"
    by (simp add: is_digit_def byte_def of_char_def)
  then show "is_digit c \<Longrightarrow> c \<noteq> CHR ''-'' \<and> c \<noteq> CHR ''+''"
    using not_digit_separators(1) by metis
qed (auto simp: is_digit_def isspace_def)

lemma digits_span: "\<forall>c \<in> set s. is_digit c \<Longrightarrow> takeWhile is_digit s = s \<and> dropWhile is_digit s = []"
  by (simp add: takeWhile_eq_all_conv dropWhile_eq_Nil_conv)

lemma ParseInteger_nat: "ParseInteger (nat_to_string n) = Some (saturate_int64 (int n))"
proof -
  have digits: "\<forall>c \<in> set (nat_to_string n). is_digit c"
    by (rule nat_to_string_digits)
  obtain c cs where cs: "nat_to_string n = c # cs" "is_digit c"
    using digits nat_to_string_nonempty [of n] by (metis list.exhaust list.set_intros(1))
  have "takeWhile (\<lambda>c. byte c \<noteq> 0) (nat_to_string n) = nat_to_string n"
    using digits nul_free_digits(1) by (simp add: takeWhile_eq_all_conv)
  moreover have "dropWhile isspace (nat_to_string n) = nat_to_string n"
    using cs nul_free_digits(2) by simp
  moreover have "strtoll_sign (nat_to_string n) = (1, nat_to_string n)"
    using cs nul_free_digits(3) by (simp add: strtoll_sign_def)
  ultimately show ?thesis
    using digits_span [OF digits]
    by (simp add: ParseInteger_def del: takeWhile_eq_all_conv dropWhile_eq_Nil_conv)
qed

lemma ParseInteger_print:
  assumes "0 \<le> i" "i \<le> int64_max"
  shows "ParseInteger (int_to_string i) = Some i"
  using assms ParseInteger_nat [of "nat i"]
  by (simp add: int_to_string_def saturate_int64_def int64_min_def)

lemma ParseInteger_connection:
  assumes "int c \<le> int64_max"
  shows "ParseInteger (nat_to_string c) = Some (int c)"
  using assms ParseInteger_nat [of c] by (simp add: saturate_int64_def int64_min_def)

section \<open>What the store holds\<close>

definition token_view :: "RedisConfig \<Rightarrow> RedisStore \<Rightarrow> token \<Rightarrow> StoredSessionToken option" where
  "token_view config s tok =
     (if ok (Token tok)
      then case (hget s (TokenKey config tok) ''user_id'', hget s (TokenKey config tok) ''username'',
                 hget s (TokenKey config tok) ''issued_at'') of
             (Some a, Some b, Some c) \<Rightarrow> stored_token [a, b, c]
           | _ \<Rightarrow> None
      else None)"

definition presence_view :: "RedisConfig \<Rightarrow> RedisStore \<Rightarrow> userId \<Rightarrow> StoredUserPresence option" where
  "presence_view config s uid =
     (if 0 < uid
      then case (hget s (UserPresenceKey config uid) ''server_id'',
                 hget s (UserPresenceKey config uid) ''connection_id'',
                 hget s (UserPresenceKey config uid) ''token'') of
             (Some a, Some b, Some c) \<Rightarrow> stored_presence [a, b, c]
           | _ \<Rightarrow> None
      else None)"

lemma views_del_token:
  "token_view cfg (del (TokenKey cfg t) s) t' = (if t' = t then None else token_view cfg s t')"
  "presence_view cfg (del (TokenKey cfg t) s) u = presence_view cfg s u"
  by (simp_all add: token_view_def presence_view_def)

lemma views_del_presence:
  "token_view cfg (del (UserPresenceKey cfg u) s) t = token_view cfg s t"
  "presence_view cfg (del (UserPresenceKey cfg u) s) u' = (if u' = u then None else presence_view cfg s u')"
  by (simp_all add: token_view_def presence_view_def)

text \<open>A server without faults and interference.\<close>

definition calm :: "RedisWorld \<Rightarrow> bool" where
  "calm w \<longleftrightarrow> rw_events w = []"

lemma run_Command:
  "calm w \<Longrightarrow> run_state (Command cmd) w =
     (Execute True [cmd] (Inr (fst (exec cmd (rw_store w)))), w\<lparr>rw_store := snd (exec cmd (rw_store w))\<rparr>)"
  by (simp add: Command_def calm_def redis_answer_def)

lemma calm_store [simp]: "calm (w\<lparr>rw_store := s\<rparr>) = calm w"
  by (simp add: calm_def)

lemma execute_replies [simp]:
  "Execute True [c] (Inr (REDIS_REPLY_INTEGER i)) =
     \<lparr>rcr_success = True, rcr_error = kRedisNone, rcr_message = ''ok'', rcr_reply = RedisReply kInteger [] i []\<rparr>"
  "Execute True [c] (Inr (REDIS_REPLY_ARRAY rs)) =
     \<lparr>rcr_success = True, rcr_error = kRedisNone, rcr_message = ''ok'',
      rcr_reply = RedisReply kArray [] 0 (map ConvertReply rs)\<rparr>"
  by (simp_all add: Execute_def)

lemma ReadHash_run:
  assumes "calm w" "key \<noteq> []"
  shows "run_state (ReadHash (Some Command) key [f1, f2, f3]) w =
    ((case (hget (rw_store w) key f1, hget (rw_store w) key f2, hget (rw_store w) key f3) of
        (Some a, Some b, Some c) \<Rightarrow> Some [a, b, c] | _ \<Rightarrow> None), w)"
  using assms
  by (auto simp: ReadHash_def run_Command string_reply_def empty_reply_def split: option.splits)

lemma GetToken_run:
  assumes "calm w"
  shows "\<exists>w'. run_state (GetToken (Some Command) cfg tok) w = (token_view cfg (rw_store w) tok, w') \<and> calm w' \<and>
    token_view cfg (rw_store w') = token_view cfg (rw_store w) \<and>
    presence_view cfg (rw_store w') = presence_view cfg (rw_store w)"
  using assms
  by (auto simp: GetToken_def ReadHash_run token_view_def forget_def run_Command views_del_token
      fun_eq_iff split: option.splits)

lemma GetPresence_run:
  assumes "calm w"
  shows "\<exists>w'. run_state (GetPresence (Some Command) cfg u) w = (presence_view cfg (rw_store w) u, w') \<and> calm w' \<and>
    token_view cfg (rw_store w') = token_view cfg (rw_store w) \<and>
    presence_view cfg (rw_store w') = presence_view cfg (rw_store w)"
  using assms
  by (auto simp: GetPresence_def ReadHash_run presence_view_def forget_def run_Command views_del_presence
      fun_eq_iff split: option.splits)

section \<open>What the scripts do\<close>

definition config_ok :: "RedisConfig \<Rightarrow> bool" where
  "config_ok config \<longleftrightarrow> rcf_success (ValidateRedisConfig config)"

lemma config_ok_ttl:
  "config_ok cfg \<Longrightarrow> 0 < rc_session_ttl_seconds cfg \<and> 0 < rc_presence_ttl_seconds cfg \<and> rc_server_id cfg \<noteq> [] \<and>
     CHR '':'' \<notin> set (rc_server_id cfg)"
  by (auto simp: config_ok_def ValidateRedisConfig_def MakeConfigError_def split: if_splits)

text \<open>The three clean-up steps only remove the previous token of the user, connection entries, and the
  presence of a user whose presence is the connection being bound.\<close>

lemma bind_drops:
  defines "clean cfg c uid tok s \<equiv>
    bind_drop_user (ConnectionPresenceKey cfg (rc_server_id cfg) c) (rc_key_prefix cfg) (rc_server_id cfg)
      (nat_to_string c)
      (bind_drop_connection (hget s (UserPresenceKey cfg uid) ''server_id'')
         (hget s (UserPresenceKey cfg uid) ''connection_id'') (rc_key_prefix cfg)
         (bind_drop_token (UserSessionKey cfg uid) (rc_key_prefix cfg) tok s))"
  shows "hget (clean cfg c uid tok s) (TokenKey cfg t) f =
      (if hget s (UserSessionKey cfg uid) ''token'' = Some t \<and> t \<noteq> tok then None else hget s (TokenKey cfg t) f)"
    and "hget (clean cfg c uid tok s) (UserPresenceKey cfg u) f = hget s (UserPresenceKey cfg u) f \<or>
      hget (clean cfg c uid tok s) (UserPresenceKey cfg u) f = None \<and>
      hget s (UserPresenceKey cfg u) ''server_id'' = Some (rc_server_id cfg) \<and>
      hget s (UserPresenceKey cfg u) ''connection_id'' = Some (nat_to_string c)"
proof -
  have tokens: "hget (bind_drop_token (UserSessionKey cfg uid) (rc_key_prefix cfg) tok s) k f' =
      (case hget s (UserSessionKey cfg uid) ''token'' of
         None \<Rightarrow> hget s k f'
       | Some old \<Rightarrow> if old \<noteq> tok \<and> k = TokenKey cfg old then None else hget s k f')" for k f'
    by (simp add: bind_drop_token_def TokenKey_def split: option.splits)
  have conns: "hget (bind_drop_connection a b (rc_key_prefix cfg) s1) (TokenKey cfg t) f' = hget s1 (TokenKey cfg t) f'"
    "hget (bind_drop_connection a b (rc_key_prefix cfg) s1) (UserPresenceKey cfg u) f' =
      hget s1 (UserPresenceKey cfg u) f'" for a b s1 f'
    by (simp_all add: bind_drop_connection_def session_keys split: option.splits)
  have users: "hget (bind_drop_user k3 (rc_key_prefix cfg) sv cn s2) (TokenKey cfg t) f' = hget s2 (TokenKey cfg t) f'"
    for k3 sv cn s2 f'
    by (simp add: bind_drop_user_def session_keys split: option.splits)
  show "hget (clean cfg c uid tok s) (TokenKey cfg t) f =
      (if hget s (UserSessionKey cfg uid) ''token'' = Some t \<and> t \<noteq> tok then None else hget s (TokenKey cfg t) f)"
    by (auto simp: clean_def users conns tokens split: option.splits)
  have presence: "hget (bind_drop_user k3 (rc_key_prefix cfg) sv cn s2) (UserPresenceKey cfg u) f' = hget s2 (UserPresenceKey cfg u) f' \<or>
      hget (bind_drop_user k3 (rc_key_prefix cfg) sv cn s2) (UserPresenceKey cfg u) f' = None \<and>
      hget s2 (UserPresenceKey cfg u) ''server_id'' = Some sv \<and>
      hget s2 (UserPresenceKey cfg u) ''connection_id'' = Some cn" for k3 sv cn s2 f'
    by (auto simp: bind_drop_user_def UserPresenceKey_def split: option.splits)
  have kept: "hget (bind_drop_token (UserSessionKey cfg uid) (rc_key_prefix cfg) tok s) (UserPresenceKey cfg u) f' =
      hget s (UserPresenceKey cfg u) f'" for f'
    by (simp add: tokens split: option.splits)
  show "hget (clean cfg c uid tok s) (UserPresenceKey cfg u) f = hget s (UserPresenceKey cfg u) f \<or>
      hget (clean cfg c uid tok s) (UserPresenceKey cfg u) f = None \<and>
      hget s (UserPresenceKey cfg u) ''server_id'' = Some (rc_server_id cfg) \<and>
      hget s (UserPresenceKey cfg u) ''connection_id'' = Some (nat_to_string c)"
  proof -
    define s2 where "s2 = bind_drop_connection (hget s (UserPresenceKey cfg uid) ''server_id'')
      (hget s (UserPresenceKey cfg uid) ''connection_id'') (rc_key_prefix cfg)
      (bind_drop_token (UserSessionKey cfg uid) (rc_key_prefix cfg) tok s)"
    have "hget s2 (UserPresenceKey cfg u) f' = hget s (UserPresenceKey cfg u) f'" for f'
      by (simp add: s2_def conns kept)
    then show ?thesis
      using presence [of "ConnectionPresenceKey cfg (rc_server_id cfg) c" "rc_server_id cfg" "nat_to_string c" s2 f]
      by (simp add: clean_def s2_def)
  qed
qed

lemma run_bind_tokens:
  fixes tok name issued :: string and uid :: userId and c :: connectionId and s :: RedisStore
  assumes "config_ok cfg"
  defines "s' \<equiv> snd (run_bind
    [TokenKey cfg tok, UserPresenceKey cfg uid, ConnectionPresenceKey cfg (rc_server_id cfg) c, UserSessionKey cfg uid]
    [rc_key_prefix cfg, rc_server_id cfg, nat_to_string c, int_to_string uid, name, issued,
     nat_to_string (rc_session_ttl_seconds cfg), tok, nat_to_string (rc_presence_ttl_seconds cfg)] s)"
  shows "hget s' (TokenKey cfg tok) ''user_id'' = Some (int_to_string uid)"
    and "hget s' (TokenKey cfg tok) ''username'' = Some name"
    and "hget s' (TokenKey cfg tok) ''issued_at'' = Some issued"
    and "t \<noteq> tok \<Longrightarrow> hget s' (TokenKey cfg t) f =
      (if hget s (UserSessionKey cfg uid) ''token'' = Some t then None else hget s (TokenKey cfg t) f)"
  using config_ok_ttl [OF assms(1)]
  by (simp_all add: s'_def Let_def bind_drops(1))

lemma run_bind_presence:
  fixes tok name issued :: string and uid :: userId and c :: connectionId and s :: RedisStore
  assumes "config_ok cfg"
  defines "s' \<equiv> snd (run_bind
    [TokenKey cfg tok, UserPresenceKey cfg uid, ConnectionPresenceKey cfg (rc_server_id cfg) c, UserSessionKey cfg uid]
    [rc_key_prefix cfg, rc_server_id cfg, nat_to_string c, int_to_string uid, name, issued,
     nat_to_string (rc_session_ttl_seconds cfg), tok, nat_to_string (rc_presence_ttl_seconds cfg)] s)"
  shows "hget s' (UserPresenceKey cfg uid) ''server_id'' = Some (rc_server_id cfg)"
    and "hget s' (UserPresenceKey cfg uid) ''connection_id'' = Some (nat_to_string c)"
    and "hget s' (UserPresenceKey cfg uid) ''token'' = Some tok"
    and "hget s' (UserSessionKey cfg uid) ''token'' = Some tok"
    and "hget s' (ConnectionPresenceKey cfg (rc_server_id cfg) c) ''user_id'' = Some (int_to_string uid)"
    and "hget s' (ConnectionPresenceKey cfg (rc_server_id cfg) c) ''token'' = Some tok"
    and "u \<noteq> uid \<Longrightarrow> hget s' (UserPresenceKey cfg u) f = hget s (UserPresenceKey cfg u) f \<or>
      hget s' (UserPresenceKey cfg u) f = None \<and>
      hget s (UserPresenceKey cfg u) ''server_id'' = Some (rc_server_id cfg) \<and>
      hget s (UserPresenceKey cfg u) ''connection_id'' = Some (nat_to_string c)"
  using config_ok_ttl [OF assms(1)] bind_drops(2) [where cfg = cfg and c = c and uid = uid and tok = tok and s = s and u = u and f = f]
  by (simp_all add: s'_def Let_def)

definition session_ok :: "connectionId \<Rightarrow> ConnectionSession \<Rightarrow> bool" where
  "session_ok c session \<longleftrightarrow> IsValidSession session \<and> 0 < c \<and> int c \<le> int64_max \<and> cs_user_id session \<le> int64_max"

definition presence_of :: "RedisConfig \<Rightarrow> connectionId \<Rightarrow> ConnectionSession \<Rightarrow> StoredUserPresence" where
  "presence_of cfg c session =
     \<lparr>sp_server_id = rc_server_id cfg, sp_connection_id = c, sp_token = cs_token session\<rparr>"

lemma session_okD:
  assumes "session_ok c session"
  shows "c \<noteq> 0" "IsValidSession session" "0 < cs_user_id session" "cs_username session \<noteq> []"
    "ok (Token (cs_token session))" "ParseInteger (int_to_string (cs_user_id session)) = Some (cs_user_id session)"
    "ParseInteger (nat_to_string c) = Some (int c)"
  using assms ParseInteger_print [of "cs_user_id session"] ParseInteger_connection [of c]
  by (auto simp: session_ok_def IsValidSession_def)

lemma Bind_run:
  assumes cfg: "config_ok cfg" and w: "calm w" and ok: "session_ok c session"
    and t: "0 \<le> issued_at" "issued_at \<le> int64_max"
  shows "\<exists>w'. run_state (Bind (Some Command) cfg c session issued_at) w = (True, w') \<and> calm w' \<and>
    token_view cfg (rw_store w') (cs_token session) =
      Some \<lparr>st_user_id = cs_user_id session, st_username = cs_username session, st_issued_at = issued_at\<rparr> \<and>
    presence_view cfg (rw_store w') (cs_user_id session) = Some (presence_of cfg c session) \<and>
    hget (rw_store w') (UserSessionKey cfg (cs_user_id session)) ''token'' = Some (cs_token session) \<and>
    (\<forall>t. hget (rw_store w) (UserSessionKey cfg (cs_user_id session)) ''token'' = Some t \<and> t \<noteq> cs_token session \<longrightarrow>
       token_view cfg (rw_store w') t = None) \<and>
    (\<forall>t. hget (rw_store w) (UserSessionKey cfg (cs_user_id session)) ''token'' \<noteq> Some t \<and> t \<noteq> cs_token session \<longrightarrow>
       token_view cfg (rw_store w') t = token_view cfg (rw_store w) t)"
proof -
  define s' where "s' = snd (run_bind
    [TokenKey cfg (cs_token session), UserPresenceKey cfg (cs_user_id session),
     ConnectionPresenceKey cfg (rc_server_id cfg) c, UserSessionKey cfg (cs_user_id session)]
    [rc_key_prefix cfg, rc_server_id cfg, nat_to_string c, int_to_string (cs_user_id session),
     cs_username session, int_to_string issued_at, nat_to_string (rc_session_ttl_seconds cfg),
     cs_token session, nat_to_string (rc_presence_ttl_seconds cfg)] (rw_store w))"
  note tokens = run_bind_tokens [OF cfg, where s = "rw_store w" and uid = "cs_user_id session" and c = c
      and tok = "cs_token session" and name = "cs_username session" and issued = "int_to_string issued_at",
      folded s'_def]
  note presence = run_bind_presence [OF cfg, where s = "rw_store w" and uid = "cs_user_id session" and c = c
      and tok = "cs_token session" and name = "cs_username session" and issued = "int_to_string issued_at",
      folded s'_def]
  have run: "run_state (Bind (Some Command) cfg c session issued_at) w = (True, w\<lparr>rw_store := s'\<rparr>)"
    using w t session_okD [OF ok]
    by (simp add: Bind_def run_Command s'_def IsOne_def Let_def del: One_nat_def)
  have "token_view cfg s' (cs_token session) =
      Some \<lparr>st_user_id = cs_user_id session, st_username = cs_username session, st_issued_at = issued_at\<rparr>"
    using session_okD [OF ok] t
    by (simp add: token_view_def tokens stored_token_def ParseInteger_print)
  moreover have "presence_view cfg s' (cs_user_id session) = Some (presence_of cfg c session)"
    using session_okD [OF ok] config_ok_ttl [OF cfg]
    by (simp add: presence_view_def presence stored_presence_def presence_of_def)
  moreover have "token_view cfg s' t = None"
    if "hget (rw_store w) (UserSessionKey cfg (cs_user_id session)) ''token'' = Some t" "t \<noteq> cs_token session" for t
    using that by (simp add: token_view_def tokens(4))
  moreover have "token_view cfg s' t = token_view cfg (rw_store w) t"
    if "hget (rw_store w) (UserSessionKey cfg (cs_user_id session)) ''token'' \<noteq> Some t" "t \<noteq> cs_token session" for t
    using that by (simp add: token_view_def tokens(4))
  ultimately show ?thesis
    using run w presence(4) by (intro exI [of _ "w\<lparr>rw_store := s'\<rparr>"]) simp
qed

text \<open>Clearing and revoking touch a presence only when it is their own.\<close>

lemma presence_fields:
  assumes "presence_view cfg s u = Some p" "0 < u"
  shows "hget s (UserPresenceKey cfg u) ''server_id'' = Some (sp_server_id p)"
    and "hget s (UserPresenceKey cfg u) ''token'' = Some (sp_token p)"
    and "\<exists>v. hget s (UserPresenceKey cfg u) ''connection_id'' = Some v \<and>
      ParseInteger v = Some (int (sp_connection_id p))"
  using assms by (auto simp: presence_view_def stored_presence_def split: option.splits if_splits)

lemma drop_presence_view:
  assumes "session_ok c session" "p = presence_view cfg s (cs_user_id session)"
  defines "s' \<equiv> drop_presence (UserPresenceKey cfg (cs_user_id session)) (rc_server_id cfg) (nat_to_string c)
    (cs_token session) s"
  shows "token_view cfg s' t = token_view cfg s t"
    and "u \<noteq> cs_user_id session \<Longrightarrow> presence_view cfg s' u = presence_view cfg s u"
    and "p \<noteq> Some (presence_of cfg c session) \<Longrightarrow> presence_view cfg s' (cs_user_id session) = p"
    and "p = Some (presence_of cfg c session) \<Longrightarrow>
      hget s (UserPresenceKey cfg (cs_user_id session)) ''connection_id'' = Some (nat_to_string c) \<Longrightarrow>
      presence_view cfg s' (cs_user_id session) = None"
proof -
  show "token_view cfg s' t = token_view cfg s t" "u \<noteq> cs_user_id session \<Longrightarrow> presence_view cfg s' u = presence_view cfg s u"
    by (simp_all add: s'_def drop_presence_def views_del_presence)
  show "p \<noteq> Some (presence_of cfg c session) \<Longrightarrow> presence_view cfg s' (cs_user_id session) = p"
    using session_okD [OF assms(1)] assms(2)
    by (auto simp: s'_def drop_presence_def views_del_presence presence_view_def stored_presence_def
        presence_of_def split: option.splits)
  show "presence_view cfg s' (cs_user_id session) = None"
    if "p = Some (presence_of cfg c session)"
      "hget s (UserPresenceKey cfg (cs_user_id session)) ''connection_id'' = Some (nat_to_string c)"
    using that presence_fields [of cfg s "cs_user_id session"] session_okD [OF assms(1)] assms(2)
    by (auto simp: s'_def drop_presence_def views_del_presence presence_of_def)
qed

lemma ClearPresence_run:
  assumes "calm w" "session_ok c session"
  shows "run_state (ClearPresence (Some Command) cfg c session) w =
    (True, w\<lparr>rw_store := drop_presence (UserPresenceKey cfg (cs_user_id session)) (rc_server_id cfg)
      (nat_to_string c) (cs_token session)
      (del (ConnectionPresenceKey cfg (rc_server_id cfg) c) (rw_store w))\<rparr>)"
  using assms(1) session_okD [OF assms(2)] by (simp add: ClearPresence_def run_Command)

definition without_token :: "RedisConfig \<Rightarrow> connectionId \<Rightarrow> ConnectionSession \<Rightarrow> RedisStore \<Rightarrow> RedisStore" where
  "without_token cfg c session s =
     (let s1 = del (TokenKey cfg (cs_token session)) s;
          s2 = (if hget s1 (UserSessionKey cfg (cs_user_id session)) ''token'' = Some (cs_token session)
                then del (UserSessionKey cfg (cs_user_id session)) s1 else s1)
      in del (ConnectionPresenceKey cfg (rc_server_id cfg) c) s2)"

lemma RevokeSession_run:
  assumes "calm w" "session_ok c session"
  shows "run_state (RevokeSession (Some Command) cfg c session) w =
    (True, w\<lparr>rw_store := drop_presence (UserPresenceKey cfg (cs_user_id session)) (rc_server_id cfg)
      (nat_to_string c) (cs_token session) (without_token cfg c session (rw_store w))\<rparr>)"
  using assms(1) session_okD [OF assms(2)]
  by (simp add: RevokeSession_def run_Command IsOne_def without_token_def Let_def)

lemma views_del_connection:
  "token_view cfg (del (ConnectionPresenceKey cfg sv c) s) t = token_view cfg s t"
  "presence_view cfg (del (ConnectionPresenceKey cfg sv c) s) u = presence_view cfg s u"
  by (simp_all add: token_view_def presence_view_def)

lemma hget_without_token:
  "hget (without_token cfg c session s) (TokenKey cfg t) f =
     (if t = cs_token session then None else hget s (TokenKey cfg t) f)"
  "hget (without_token cfg c session s) (UserPresenceKey cfg u) f = hget s (UserPresenceKey cfg u) f"
  by (auto simp: without_token_def Let_def)

lemma views_without_token:
  "token_view cfg (without_token cfg c session s) t = (if t = cs_token session then None else token_view cfg s t)"
  "presence_view cfg (without_token cfg c session s) u = presence_view cfg s u"
  by (simp_all add: token_view_def presence_view_def hget_without_token)

lemma Refresh_run:
  assumes "calm w" "session_ok c session" "config_ok cfg"
  shows "\<exists>w'. run_state (Refresh (Some Command) cfg c session) w =
      (hget (rw_store w) (UserPresenceKey cfg (cs_user_id session)) ''server_id'' = Some (rc_server_id cfg) \<and>
       hget (rw_store w) (UserPresenceKey cfg (cs_user_id session)) ''connection_id'' = Some (nat_to_string c) \<and>
       hget (rw_store w) (UserPresenceKey cfg (cs_user_id session)) ''token'' = Some (cs_token session) \<and>
       hget (rw_store w) (ConnectionPresenceKey cfg (rc_server_id cfg) c) ''user_id'' =
         Some (int_to_string (cs_user_id session)) \<and>
       hget (rw_store w) (ConnectionPresenceKey cfg (rc_server_id cfg) c) ''token'' = Some (cs_token session), w') \<and>
    calm w' \<and> token_view cfg (rw_store w') = token_view cfg (rw_store w) \<and>
    presence_view cfg (rw_store w') = presence_view cfg (rw_store w)"
  using assms(1) session_okD [OF assms(2)] config_ok_ttl [OF assms(3)]
  by (auto simp: Refresh_def run_Command IsOne_def token_view_def presence_view_def fun_eq_iff)

section \<open>The contract of a session directory\<close>

text \<open>What the services rely on: a bound session can be looked up by its token and by its user, the
  lookups change nothing, and a revoked token is gone.\<close>

locale session_directory =
  fixes store :: "'w IGlobalSessionStore"
    and quiet :: "'w \<Rightarrow> bool"
    and tokens :: "'w \<Rightarrow> token \<Rightarrow> StoredSessionToken option"
    and presences :: "'w \<Rightarrow> userId \<Rightarrow> StoredUserPresence option"
    and server :: string
  assumes bind: "quiet w \<Longrightarrow> session_ok c session \<Longrightarrow> 0 \<le> issued_at \<Longrightarrow> issued_at \<le> int64_max \<Longrightarrow>
      \<exists>w'. run_state (igs_Bind store c session issued_at) w = (True, w') \<and> quiet w' \<and>
        tokens w' (cs_token session) = Some \<lparr>st_user_id = cs_user_id session,
          st_username = cs_username session, st_issued_at = issued_at\<rparr> \<and>
        presences w' (cs_user_id session) =
          Some \<lparr>sp_server_id = server, sp_connection_id = c, sp_token = cs_token session\<rparr>"
    and get_token: "quiet w \<Longrightarrow> \<exists>w'. run_state (igs_GetToken store tok) w = (tokens w tok, w') \<and> quiet w' \<and>
        tokens w' = tokens w \<and> presences w' = presences w"
    and get_presence: "quiet w \<Longrightarrow> \<exists>w'. run_state (igs_GetPresence store uid) w = (presences w uid, w') \<and>
        quiet w' \<and> tokens w' = tokens w \<and> presences w' = presences w"
    and revoke: "quiet w \<Longrightarrow> session_ok c session \<Longrightarrow>
      \<exists>w'. run_state (igs_RevokeSession store c session) w = (True, w') \<and> quiet w' \<and>
        tokens w' (cs_token session) = None"
begin

lemma bound_session_resumes:
  assumes "quiet w" "session_ok c session" "0 \<le> issued_at" "issued_at \<le> int64_max"
  shows "fst (run_state (do { _ \<leftarrow> igs_Bind store c session issued_at; igs_GetToken store (cs_token session) }) w) =
    Some \<lparr>st_user_id = cs_user_id session, st_username = cs_username session, st_issued_at = issued_at\<rparr>"
proof -
  obtain w1 where 1: "run_state (igs_Bind store c session issued_at) w = (True, w1)" "quiet w1"
    "tokens w1 (cs_token session) = Some \<lparr>st_user_id = cs_user_id session,
       st_username = cs_username session, st_issued_at = issued_at\<rparr>"
    using bind [OF assms] by blast
  show ?thesis
    using 1 get_token [OF 1(2), of "cs_token session"] by force
qed

lemma revoked_session_gone:
  assumes "quiet w" "session_ok c session" "0 \<le> issued_at" "issued_at \<le> int64_max"
  shows "fst (run_state (do { _ \<leftarrow> igs_Bind store c session issued_at; _ \<leftarrow> igs_RevokeSession store c session;
      igs_GetToken store (cs_token session) }) w) = None"
proof -
  obtain w1 where 1: "run_state (igs_Bind store c session issued_at) w = (True, w1)" "quiet w1"
    using bind [OF assms] by blast
  obtain w2 where 2: "run_state (igs_RevokeSession store c session) w1 = (True, w2)" "quiet w2"
    "tokens w2 (cs_token session) = None"
    using revoke [OF 1(2) assms(2)] by blast
  show ?thesis
    using 1 2 get_token [OF 2(2), of "cs_token session"] by force
qed

end

text \<open>The Redis store keeps the contract for every configuration the validation accepts; the
  validity of the configuration is part of the quiet state.\<close>

definition calm_with :: "RedisConfig \<Rightarrow> RedisWorld \<Rightarrow> bool" where
  "calm_with cfg w \<longleftrightarrow> calm w \<and> config_ok cfg"

interpretation redis_sessions: session_directory "redis_session_store_ops (Some Command) cfg" "calm_with cfg"
  "\<lambda>w. token_view cfg (rw_store w)" "\<lambda>w. presence_view cfg (rw_store w)" "rc_server_id cfg"
  for cfg
proof unfold_locales
  fix w c session issued_at tok uid
  show "\<exists>w'. run_state (igs_Bind (redis_session_store_ops (Some Command) cfg) c session issued_at) w = (True, w') \<and>
        calm_with cfg w' \<and>
        token_view cfg (rw_store w') (cs_token session) = Some \<lparr>st_user_id = cs_user_id session,
          st_username = cs_username session, st_issued_at = issued_at\<rparr> \<and>
        presence_view cfg (rw_store w') (cs_user_id session) =
          Some \<lparr>sp_server_id = rc_server_id cfg, sp_connection_id = c, sp_token = cs_token session\<rparr>"
    if "calm_with cfg w" "session_ok c session" "0 \<le> issued_at" "issued_at \<le> int64_max"
    using that Bind_run [of cfg w c session issued_at]
    by (auto simp: calm_with_def redis_session_store_ops_def presence_of_def)
  show "\<exists>w'. run_state (igs_GetToken (redis_session_store_ops (Some Command) cfg) tok) w =
        (token_view cfg (rw_store w) tok, w') \<and> calm_with cfg w' \<and>
        token_view cfg (rw_store w') = token_view cfg (rw_store w) \<and>
        presence_view cfg (rw_store w') = presence_view cfg (rw_store w)"
    if "calm_with cfg w"
    using that GetToken_run [of w cfg tok] by (auto simp: calm_with_def redis_session_store_ops_def)
  show "\<exists>w'. run_state (igs_GetPresence (redis_session_store_ops (Some Command) cfg) uid) w =
        (presence_view cfg (rw_store w) uid, w') \<and> calm_with cfg w' \<and>
        token_view cfg (rw_store w') = token_view cfg (rw_store w) \<and>
        presence_view cfg (rw_store w') = presence_view cfg (rw_store w)"
    if "calm_with cfg w"
    using that GetPresence_run [of w cfg uid] by (auto simp: calm_with_def redis_session_store_ops_def)
  show "\<exists>w'. run_state (igs_RevokeSession (redis_session_store_ops (Some Command) cfg) c session) w = (True, w') \<and>
        calm_with cfg w' \<and> token_view cfg (rw_store w') (cs_token session) = None"
    if "calm_with cfg w" "session_ok c session"
    using that RevokeSession_run [of w c session cfg]
    by (auto simp: calm_with_def redis_session_store_ops_def drop_presence_view(1) [OF _ refl] views_without_token)
qed

section \<open>Properties\<close>

text \<open>C20. A session that was bound can be resumed with its token, which names its user, its user name and
  its time of issue, and its user is found at the binding server and connection. A login of the same
  user with another token invalidates the first token, and a revoked token is gone.\<close>

theorem session_tokens_follow_logins:
  assumes "calm_with cfg w" "session_ok c1 s1" "session_ok c2 s2"
    and "cs_user_id s1 = cs_user_id s2" "cs_token s1 \<noteq> cs_token s2"
    and "0 \<le> t1" "t1 \<le> int64_max" "0 \<le> t2" "t2 \<le> int64_max"
  shows "fst (run_state (do { _ \<leftarrow> Bind (Some Command) cfg c1 s1 t1; GetToken (Some Command) cfg (cs_token s1) }) w) =
      Some \<lparr>st_user_id = cs_user_id s1, st_username = cs_username s1, st_issued_at = t1\<rparr> \<and>
    fst (run_state (do { _ \<leftarrow> Bind (Some Command) cfg c1 s1 t1; _ \<leftarrow> Bind (Some Command) cfg c2 s2 t2;
      old \<leftarrow> GetToken (Some Command) cfg (cs_token s1); presence \<leftarrow> GetPresence (Some Command) cfg (cs_user_id s2);
      ret (old, presence) }) w) = (None, Some (presence_of cfg c2 s2)) \<and>
    fst (run_state (do { _ \<leftarrow> Bind (Some Command) cfg c1 s1 t1; _ \<leftarrow> RevokeSession (Some Command) cfg c1 s1;
      GetToken (Some Command) cfg (cs_token s1) }) w) = None"
proof (intro conjI)
  show "fst (run_state (do { _ \<leftarrow> Bind (Some Command) cfg c1 s1 t1; GetToken (Some Command) cfg (cs_token s1) }) w) =
      Some \<lparr>st_user_id = cs_user_id s1, st_username = cs_username s1, st_issued_at = t1\<rparr>"
    using redis_sessions.bound_session_resumes [OF assms(1,2,6,7)] by (simp add: redis_session_store_ops_def)
  show "fst (run_state (do { _ \<leftarrow> Bind (Some Command) cfg c1 s1 t1; _ \<leftarrow> RevokeSession (Some Command) cfg c1 s1;
      GetToken (Some Command) cfg (cs_token s1) }) w) = None"
    using redis_sessions.revoked_session_gone [OF assms(1,2,6,7)] by (simp add: redis_session_store_ops_def)
  have cfg: "config_ok cfg" "calm w"
    using assms(1) by (simp_all add: calm_with_def)
  obtain w1 where 1: "run_state (Bind (Some Command) cfg c1 s1 t1) w = (True, w1)" "calm w1"
    "hget (rw_store w1) (UserSessionKey cfg (cs_user_id s1)) ''token'' = Some (cs_token s1)"
    using Bind_run [OF cfg assms(2,6,7)] by blast
  obtain w2 where 2: "run_state (Bind (Some Command) cfg c2 s2 t2) w1 = (True, w2)" "calm w2"
    "token_view cfg (rw_store w2) (cs_token s1) = None"
    "presence_view cfg (rw_store w2) (cs_user_id s2) = Some (presence_of cfg c2 s2)"
    using Bind_run [OF cfg(1) 1(2) assms(3,8,9)] 1(3) assms(4,5) by metis
  obtain w3 where 3: "run_state (GetToken (Some Command) cfg (cs_token s1)) w2 = (None, w3)" "calm w3"
    "presence_view cfg (rw_store w3) = presence_view cfg (rw_store w2)"
    using GetToken_run [OF 2(2), of cfg "cs_token s1"] 2(3) by auto
  show "fst (run_state (do { _ \<leftarrow> Bind (Some Command) cfg c1 s1 t1; _ \<leftarrow> Bind (Some Command) cfg c2 s2 t2;
      old \<leftarrow> GetToken (Some Command) cfg (cs_token s1); presence \<leftarrow> GetPresence (Some Command) cfg (cs_user_id s2);
      ret (old, presence) }) w) = (None, Some (presence_of cfg c2 s2))"
    using 1 2 3 GetPresence_run [OF 3(2), of cfg "cs_user_id s2"] by force
qed

definition sample_store :: RedisWorld where
  "sample_store = \<lparr>rw_store = \<lparr>rs_hashes = Map.empty, rs_strings = Map.empty, rs_now = 0,
     rs_stream_calls = 0, rs_stream_server = (\<lambda>_ _. REDIS_REPLY_NIL)\<rparr>, rw_events = []\<rparr>"

definition sample_session :: "char \<Rightarrow> ConnectionSession" where
  "sample_session c = \<lparr>cs_authenticated = True, cs_user_id = 7, cs_username = ''bob'', cs_token = replicate 64 c\<rparr>"

lemma sample_store_calm: "calm_with default_RedisConfig sample_store"
  by (simp add: calm_with_def calm_def config_ok_def ValidateRedisConfig_def default_RedisConfig_def
      sample_store_def)

lemma sample_session_ok:
  "isxdigit c \<Longrightarrow> session_ok 5 (sample_session c)"
  by (simp add: session_ok_def IsValidSession_def sample_session_def ok_Token list_all_iff int64_max_def)

lemma sample_tokens_differ: "c \<noteq> d \<Longrightarrow> cs_token (sample_session c) \<noteq> cs_token (sample_session d)"
  by (simp add: sample_session_def replicate_eq_replicate)

theorem session_tokens_follow_logins_witness:
  "fst (run_state (do { _ \<leftarrow> Bind (Some Command) default_RedisConfig 5 (sample_session (CHR ''a'')) 100;
      _ \<leftarrow> Bind (Some Command) default_RedisConfig 5 (sample_session (CHR ''b'')) 200;
      old \<leftarrow> GetToken (Some Command) default_RedisConfig (cs_token (sample_session (CHR ''a'')));
      presence \<leftarrow> GetPresence (Some Command) default_RedisConfig (cs_user_id (sample_session (CHR ''b'')));
      ret (old, presence) }) sample_store) =
    (None, Some (presence_of default_RedisConfig 5 (sample_session (CHR ''b''))))"
proof -
  have digits: "isxdigit (CHR ''a'')" "isxdigit (CHR ''b'')"
    by (simp_all add: isxdigit_def is_digit_def byte_def of_char_def)
  have "cs_user_id (sample_session (CHR ''a'')) = cs_user_id (sample_session (CHR ''b''))"
    by (simp add: sample_session_def)
  moreover have "cs_token (sample_session (CHR ''a'')) \<noteq> cs_token (sample_session (CHR ''b''))"
    by (rule sample_tokens_differ) simp
  ultimately show ?thesis
    using session_tokens_follow_logins [OF sample_store_calm sample_session_ok [OF digits(1)]
        sample_session_ok [OF digits(2)], of 100 200]
    by (simp add: int64_max_def)
qed

text \<open>An old connection cannot disturb a newer login of the same user, even from another server
  process: whatever the old connection does when it refreshes, clears its presence or revokes its
  session, the user is still found at the new connection, and the refresh is refused.\<close>

theorem newer_login_wins:
  assumes "calm w" "config_ok cfg1" "config_ok cfg2" "rc_key_prefix cfg1 = rc_key_prefix cfg2"
    and "session_ok c1 s1" "session_ok c2 s2" "cs_user_id s1 = cs_user_id s2"
    and "presence_of cfg1 c1 s1 \<noteq> presence_of cfg2 c2 s2" "0 \<le> t" "t \<le> int64_max"
  shows "fst (run_state (do { _ \<leftarrow> Bind (Some Command) cfg2 c2 s2 t; _ \<leftarrow> ClearPresence (Some Command) cfg1 c1 s1;
      GetPresence (Some Command) cfg2 (cs_user_id s2) }) w) = Some (presence_of cfg2 c2 s2) \<and>
    fst (run_state (do { _ \<leftarrow> Bind (Some Command) cfg2 c2 s2 t; _ \<leftarrow> RevokeSession (Some Command) cfg1 c1 s1;
      GetPresence (Some Command) cfg2 (cs_user_id s2) }) w) = Some (presence_of cfg2 c2 s2) \<and>
    fst (run_state (do { _ \<leftarrow> Bind (Some Command) cfg2 c2 s2 t; refreshed \<leftarrow> Refresh (Some Command) cfg1 c1 s1;
      presence \<leftarrow> GetPresence (Some Command) cfg2 (cs_user_id s2); ret (refreshed, presence) }) w) =
      (False, Some (presence_of cfg2 c2 s2))"
proof -
  have keys: "UserPresenceKey cfg1 = UserPresenceKey cfg2"
    using assms(4) by (simp add: fun_eq_iff UserPresenceKey_def)
  have views: "presence_view cfg1 = presence_view cfg2"
    by (simp add: fun_eq_iff presence_view_def keys)
  obtain w1 where 1: "run_state (Bind (Some Command) cfg2 c2 s2 t) w = (True, w1)" "calm w1"
    "presence_view cfg2 (rw_store w1) (cs_user_id s2) = Some (presence_of cfg2 c2 s2)"
    using Bind_run [OF assms(3,1,6,9,10)] by blast
  have other: "presence_view cfg1 (rw_store w1) (cs_user_id s1) \<noteq> Some (presence_of cfg1 c1 s1)"
    using 1(3) assms(7,8) by (simp add: views)
  have found: "fst (run_state (GetPresence (Some Command) cfg2 (cs_user_id s2)) w2) = Some (presence_of cfg2 c2 s2)"
    if "calm w2" "presence_view cfg1 (rw_store w2) (cs_user_id s1) = presence_view cfg1 (rw_store w1) (cs_user_id s1)"
    for w2
    using that 1(3) GetPresence_run [OF that(1), of cfg2 "cs_user_id s2"] assms(7) by (force simp: views)
  have clear: "presence_view cfg1 (drop_presence (UserPresenceKey cfg1 (cs_user_id s1)) (rc_server_id cfg1)
      (nat_to_string c1) (cs_token s1) s) (cs_user_id s1) = presence_view cfg1 (rw_store w1) (cs_user_id s1)"
    if "presence_view cfg1 s (cs_user_id s1) = presence_view cfg1 (rw_store w1) (cs_user_id s1)" for s
    using drop_presence_view(3) [OF assms(5) refl, of cfg1 s] that other by simp
  obtain w3 where 3: "run_state (Refresh (Some Command) cfg1 c1 s1) w1 = (False, w3)" "calm w3"
    "presence_view cfg1 (rw_store w3) = presence_view cfg1 (rw_store w1)"
    using Refresh_run [OF 1(2) assms(5,2)] presence_fields [of cfg1 "rw_store w1" "cs_user_id s1"]
      1(3) assms(7,8) session_okD [OF assms(5)]
    by (fastforce simp: views presence_of_def)
  show ?thesis
    using 1 3 found [of w3] found clear
    by (simp add: ClearPresence_run [OF 1(2) assms(5)] RevokeSession_run [OF 1(2) assms(5)]
        views_del_connection views_without_token split_beta)
qed

theorem newer_login_wins_witness:
  "fst (run_state (do { _ \<leftarrow> Bind (Some Command) default_RedisConfig 5 (sample_session (CHR ''b'')) 200;
      _ \<leftarrow> ClearPresence (Some Command) default_RedisConfig 5 (sample_session (CHR ''a''));
      GetPresence (Some Command) default_RedisConfig (cs_user_id (sample_session (CHR ''b''))) }) sample_store) =
    Some (presence_of default_RedisConfig 5 (sample_session (CHR ''b'')))"
proof -
  have digits: "isxdigit (CHR ''a'')" "isxdigit (CHR ''b'')"
    by (simp_all add: isxdigit_def is_digit_def byte_def of_char_def)
  have users: "cs_user_id (sample_session (CHR ''a'')) = cs_user_id (sample_session (CHR ''b''))"
    by (simp add: sample_session_def)
  have presences: "presence_of default_RedisConfig 5 (sample_session (CHR ''a'')) \<noteq>
      presence_of default_RedisConfig 5 (sample_session (CHR ''b''))"
    using sample_tokens_differ [of "CHR ''a''" "CHR ''b''"] by (simp add: presence_of_def)
  have "calm sample_store" "config_ok default_RedisConfig"
    using sample_store_calm by (simp_all add: calm_with_def)
  then show ?thesis
    using newer_login_wins [OF _ _ _ refl sample_session_ok [OF digits(1)] sample_session_ok [OF digits(2)]
        users presences, of sample_store 200]
    by (simp add: int64_max_def)
qed

end
