(* ===== verification/UserRepository.thy ===== *)
theory UserRepository
  imports MySql
begin

text \<open>
  The user table, \<^verbatim>\<open>src/src/db/user_repository.cc\<close>. Names are compared under the collation of the
  column. The locale \<^verbatim>\<open>user_directory\<close> is what the services rely on.
\<close>

section \<open>Interface\<close>

record FindUserResult =
  fu_status :: RepositoryStatus
  fu_user :: "UserRecord option"

record CreateUserResult =
  cu_status :: RepositoryStatus
  cu_user_id :: userId

record 'w IUserRepository =
  iu_findByUsername :: "string \<Rightarrow> ('w, FindUserResult) state"
  iu_findById :: "userId \<Rightarrow> ('w, FindUserResult) state"
  iu_createUser :: "string \<Rightarrow> string \<Rightarrow> string \<Rightarrow> ('w, CreateUserResult) state"
  iu_updatePasswordHash :: "userId \<Rightarrow> string \<Rightarrow> ('w, RepositoryStatus) state"

text \<open>The default body of \<^verbatim>\<open>IUserRepository::updatePasswordHash\<close>.\<close>

definition default_updatePasswordHash :: "userId \<Rightarrow> string \<Rightarrow> ('w, RepositoryStatus) state" where
  "default_updatePasswordHash uid hash = ret kQueryFailed"

definition user_failure :: "RepositoryStatus \<Rightarrow> FindUserResult" where
  "user_failure status = \<lparr>fu_status = status, fu_user = None\<rparr>"

section \<open>Statements\<close>

definition select_user_by_name :: "string \<Rightarrow> (UserRecord option) stmt" where
  "select_user_by_name name ck now t = Inr (t, find (\<lambda>u. ck (u_username u) = ck name) (t_users t))"

definition select_user_by_id :: "userId \<Rightarrow> (UserRecord option) stmt" where
  "select_user_by_id uid ck now t = Inr (t, find (\<lambda>u. u_id u = uid) (t_users t))"

text \<open>Error 1467 is the failure to read the next value of an exhausted auto-increment column.\<close>

definition insert_user :: "string \<Rightarrow> string \<Rightarrow> string \<Rightarrow> int stmt" where
  "insert_user name hash nickname ck now t =
     (if \<exists>u \<in> set (t_users t). ck (u_username u) = ck name then Inl kMysqlDuplicateEntryError
      else if t_next_user_id t > int64_max then Inl 1467
      else Inr (t\<lparr>t_users := t_users t @ [\<lparr>u_id = t_next_user_id t, u_username = name,
                    u_password_hash = hash, u_nickname = nickname, u_status = 1,
                    u_created_at = now, u_updated_at = now\<rparr>],
                  t_next_user_id := t_next_user_id t + 1\<rparr>, t_next_user_id t))"

text \<open>The affected rows of an update are those whose value changes.\<close>

definition update_user_hash :: "userId \<Rightarrow> string \<Rightarrow> nat stmt" where
  "update_user_hash uid hash ck now t =
     (let P = (\<lambda>u. u_id u = uid \<and> u_password_hash u \<noteq> hash)
      in Inr (t\<lparr>t_users := map (\<lambda>u. if P u then u\<lparr>u_password_hash := hash, u_updated_at := now\<rparr> else u)
                  (t_users t)\<rparr>,
              length (filter P (t_users t))))"

section \<open>Methods\<close>

definition user_fits :: "UserRecord \<Rightarrow> bool" where
  "user_fits u \<longleftrightarrow>
     length (u_username u) \<le> 65 \<and> length (u_password_hash u) \<le> 129 \<and>
     length (u_nickname u) \<le> 257 \<and> length (u_created_at u) \<le> 32 \<and> length (u_updated_at u) \<le> 32"

definition ReadUser :: "(UserRecord option) stmt \<Rightarrow> (Db, FindUserResult) state" where
  "ReadUser stmt = do {
     r \<leftarrow> run_sql stmt;
     case r of
       Inl err \<Rightarrow> do { status \<leftarrow> StatementFailure err kQueryFailed; ret (user_failure status) }
     | Inr found \<Rightarrow>
         (case found of
            None \<Rightarrow> ret (user_failure kNotFound)
          | Some u \<Rightarrow>
              if \<not> user_fits u then ret (user_failure kQueryFailed)
              else ret \<lparr>fu_status = kOk, fu_user = Some u\<rparr>)
   }"

definition findByUsername :: "string \<Rightarrow> (Db, FindUserResult) state" where
  "findByUsername username = do {
     e \<leftarrow> borrow_connection;
     if e \<noteq> kNone then ret (user_failure (MapBorrowError e))
     else ReadUser (select_user_by_name username)
   }"

definition findById :: "userId \<Rightarrow> (Db, FindUserResult) state" where
  "findById uid = do {
     e \<leftarrow> borrow_connection;
     if e \<noteq> kNone then ret (user_failure (MapBorrowError e))
     else ReadUser (select_user_by_id uid)
   }"

definition createUser :: "string \<Rightarrow> string \<Rightarrow> string \<Rightarrow> (Db, CreateUserResult) state" where
  "createUser username password_hash nickname = do {
     e \<leftarrow> borrow_connection;
     if e \<noteq> kNone then ret \<lparr>cu_status = MapBorrowError e, cu_user_id = 0\<rparr>
     else do {
       r \<leftarrow> run_sql (insert_user username password_hash nickname);
       case r of
         Inl err \<Rightarrow>
           if err = kMysqlDuplicateEntryError then ret \<lparr>cu_status = kDuplicate, cu_user_id = 0\<rparr>
           else do {
             status \<leftarrow> StatementFailure err kInsertFailed;
             ret \<lparr>cu_status = status, cu_user_id = 0\<rparr>
           }
       | Inr insert_id \<Rightarrow>
           if wrap_int64 insert_id \<le> 0 then ret \<lparr>cu_status = kInsertFailed, cu_user_id = 0\<rparr>
           else ret \<lparr>cu_status = kOk, cu_user_id = wrap_int64 insert_id\<rparr>
     }
   }"

definition updatePasswordHash :: "userId \<Rightarrow> string \<Rightarrow> (Db, RepositoryStatus) state" where
  "updatePasswordHash uid password_hash = do {
     e \<leftarrow> borrow_connection;
     if e \<noteq> kNone then ret (MapBorrowError e)
     else do {
       r \<leftarrow> run_sql (update_user_hash uid password_hash);
       case r of
         Inl err \<Rightarrow> StatementFailure err kQueryFailed
       | Inr rows \<Rightarrow> ret (if rows = 1 then kOk else kNotFound)
     }
   }"

definition user_repository_ops :: "Db IUserRepository" where
  "user_repository_ops =
     \<lparr>iu_findByUsername = findByUsername, iu_findById = findById, iu_createUser = createUser,
      iu_updatePasswordHash = updatePasswordHash\<rparr>"

section \<open>Every statement lets the tables grow\<close>

lemma reading_user_selects [simp]:
  "reading (select_user_by_name n)" "reading (select_user_by_id u)"
  by (auto simp: reading_def select_user_by_name_def select_user_by_id_def)

lemma tables_ok_users:
  "tables_ok ck (t\<lparr>t_users := us\<rparr>) \<longleftrightarrow>
     users_ok ck (t\<lparr>t_users := us\<rparr>) \<and> messages_ok ck t \<and> friendships_ok t \<and> groups_ok ck t"
  "tables_ok ck (t\<lparr>t_users := us, t_next_user_id := i\<rparr>) \<longleftrightarrow>
     users_ok ck (t\<lparr>t_users := us, t_next_user_id := i\<rparr>) \<and> messages_ok ck t \<and> friendships_ok t \<and>
     groups_ok ck t"
  by (auto simp: tables_ok_def messages_ok_def friendships_ok_def groups_ok_def)

lemma messages_grow_users [simp]:
  "messages_grow t (t\<lparr>t_users := us\<rparr>)" "messages_grow t (t\<lparr>t_users := us, t_next_user_id := i\<rparr>)"
  by (rule messages_grow_subset; simp)+

lemma friends_grow_users [simp]:
  "friends_grow t (t\<lparr>t_users := us\<rparr>)" "friends_grow t (t\<lparr>t_users := us, t_next_user_id := i\<rparr>)"
  by (simp_all add: friends_grow_same)

lemma growing_insert_user: "growing (insert_user name hash nickname)"
proof (unfold growing_def, intro allI impI)
  fix ck now t t' a
  assume ok: "tables_ok ck t" and run: "insert_user name hash nickname ck now t = Inr (t', a)"
  define u where "u = \<lparr>u_id = t_next_user_id t, u_username = name, u_password_hash = hash,
    u_nickname = nickname, u_status = 1, u_created_at = now, u_updated_at = now\<rparr>"
  have t': "t' = t\<lparr>t_users := t_users t @ [u], t_next_user_id := t_next_user_id t + 1\<rparr>"
    and fresh: "\<forall>v \<in> set (t_users t). ck (u_username v) \<noteq> ck name"
    using run by (auto simp: insert_user_def u_def split: if_splits)
  have "users_ok ck t'"
    using ok fresh by (auto simp: t' tables_ok_def users_ok_def u_def)
  moreover have "users_grow t t'"
    by (auto simp: t' users_grow_def)
  ultimately show "db_grow ck t t'"
    using ok by (simp add: t' db_grow_def tables_ok_users tables_ok_def [of ck t])
qed

lemma growing_update_hash: "growing (update_user_hash uid hash)"
proof (unfold growing_def, intro allI impI)
  fix ck now t t' a
  assume ok: "tables_ok ck t" and run: "update_user_hash uid hash ck now t = Inr (t', a)"
  define f where "f = (\<lambda>u :: UserRecord. if u_id u = uid \<and> u_password_hash u \<noteq> hash
    then u\<lparr>u_password_hash := hash, u_updated_at := now\<rparr> else u)"
  have t': "t' = t\<lparr>t_users := map f (t_users t)\<rparr>"
    using run by (simp add: update_user_hash_def f_def Let_def)
  have f: "u_id (f u) = u_id u" "u_username (f u) = u_username u" for u
    by (simp_all add: f_def)
  have "users_ok ck t'"
    using ok by (auto simp: t' tables_ok_def users_ok_def f o_def)
  moreover have "users_grow t t'"
    using f by (auto simp: t' users_grow_def)
  ultimately show "db_grow ck t t'"
    using ok by (simp add: t' db_grow_def tables_ok_users tables_ok_def [of ck t])
qed

lemma safe_user_repository:
  "safe (findByUsername n)" "safe (findById u)" "safe (createUser n h k)" "safe (updatePasswordHash u h)"
  unfolding findByUsername_def findById_def createUser_def updatePasswordHash_def ReadUser_def
  by (intro safe_sql growing_insert_user growing_update_hash reading_growing reading_user_selects)+

section \<open>Results\<close>

lemma ReadUser_wp:
  assumes "db_inv db" "reading stmt" "db_snapshot db = None"
  shows "wp (ReadUser stmt) (\<lambda>res db'. db_inv db' \<and> db_guar db db' \<and> db_snapshot db' = None \<and>
    (case fu_user res of
       None \<Rightarrow> fu_status res \<noteq> kOk
     | Some u \<Rightarrow> fu_status res = kOk \<and> user_fits u \<and>
         stmt (db_collate db) (db_clock db) (committed db') = Inr (committed db', Some u))) db"
  unfolding ReadUser_def
proof (rule wp_bind, rule wp_mono [OF run_sql_read [OF assms(1,2)]], goal_cases)
  case (1 r db1)
  then show ?case
    using assms(3)
    by (intro wp_intros wp_mono [OF StatementFailure_wp])
      (auto simp: user_failure_def committed_def intro: db_guarantee.R_trans)
qed

definition find_post :: "(UserRecord \<Rightarrow> bool) \<Rightarrow> Db \<Rightarrow> FindUserResult \<Rightarrow> Db \<Rightarrow> bool" where
  "find_post P db res db' \<longleftrightarrow>
     db_inv db' \<and> db_guar db db' \<and> idle db' \<and>
     (case fu_user res of
        None \<Rightarrow> fu_status res \<noteq> kOk
      | Some u \<Rightarrow> fu_status res = kOk \<and> u \<in> set (t_users (committed db')) \<and> P u)"

lemma find_wp:
  assumes "db_inv db" "idle db" "reading stmt"
    and found: "\<And>now t u. stmt (db_collate db) now t = Inr (t, Some u) \<Longrightarrow> u \<in> set (t_users t) \<and> P u"
  shows "wp (do {
       e \<leftarrow> borrow_connection;
       if e \<noteq> kNone then ret (user_failure (MapBorrowError e)) else ReadUser stmt
     }) (find_post P db) db"
proof (rule wp_bind, rule wp_mono [OF borrow_wp [OF assms(1,2)]], goal_cases)
  case (1 e db1)
  then have step: "db_inv db1" "db_guar db db1" "db_snapshot db1 = None" "db_collate db1 = db_collate db"
    by (auto simp: db_guar_def)
  show ?case
  proof (intro wp_intros, goal_cases)
    case 1
    then show ?case
      using step by (auto simp: find_post_def user_failure_def idle_def MapBorrowError_def)
  next
    case 2
    show ?case
      by (rule wp_mono [OF ReadUser_wp [OF step(1) assms(3) step(3)]])
        (use step found in \<open>auto simp: find_post_def idle_def split: option.splits
          intro: db_guarantee.R_trans\<close>)
  qed
qed

lemma findByUsername_wp:
  assumes "db_inv db" "idle db"
  shows "wp (findByUsername name)
    (find_post (\<lambda>u. db_collate db (u_username u) = db_collate db name) db) db"
  unfolding findByUsername_def
  by (rule find_wp [OF assms reading_user_selects(1)])
    (auto simp: select_user_by_name_def find_Some_iff)

lemma findById_wp:
  assumes "db_inv db" "idle db"
  shows "wp (findById uid) (find_post (\<lambda>u. u_id u = uid) db) db"
  unfolding findById_def
  by (rule find_wp [OF assms reading_user_selects(2)]) (auto simp: select_user_by_id_def find_Some_iff)

text \<open>A user that was created: a fresh row whose name and id nobody had.\<close>

definition user_created :: "string \<Rightarrow> string \<Rightarrow> string \<Rightarrow> userId \<Rightarrow> Db \<Rightarrow> Db \<Rightarrow> bool" where
  "user_created name hash nickname uid db db' \<longleftrightarrow>
     0 < uid \<and> uid \<le> int64_max \<and>
     (\<exists>u \<in> set (t_users (committed db')). u_id u = uid \<and> u_username u = name \<and>
        u_password_hash u = hash \<and> u_nickname u = nickname \<and> u_status u = 1) \<and>
     (\<forall>v \<in> set (t_users (committed db)). u_id v \<noteq> uid \<and>
        db_collate db (u_username v) \<noteq> db_collate db name)"

lemma insert_user_result:
  assumes "tables_ok ck t" "insert_user name hash nickname ck now t = Inr (t', i)"
  shows "0 < i \<and> i \<le> int64_max \<and>
    (\<exists>u \<in> set (t_users t'). u_id u = i \<and> u_username u = name \<and> u_password_hash u = hash \<and>
       u_nickname u = nickname \<and> u_status u = 1) \<and>
    (\<forall>v \<in> set (t_users t). u_id v \<noteq> i \<and> ck (u_username v) \<noteq> ck name)"
  using assms by (auto simp: insert_user_def tables_ok_def users_ok_def split: if_splits)

lemma users_grow_fresh:
  assumes "users_grow t t1" "\<forall>v \<in> set (t_users t1). u_id v \<noteq> i \<and> ck (u_username v) \<noteq> ck name"
  shows "\<forall>v \<in> set (t_users t). u_id v \<noteq> i \<and> ck (u_username v) \<noteq> ck name"
  using assms unfolding users_grow_def by metis

lemma createUser_wp:
  assumes "db_inv db" "idle db"
  shows "wp (createUser name hash nickname) (\<lambda>res db'. db_inv db' \<and> db_guar db db' \<and> idle db' \<and>
    (cu_status res = kOk \<longrightarrow> user_created name hash nickname (cu_user_id res) db db')) db"
  unfolding createUser_def
proof (rule wp_bind, rule wp_mono [OF borrow_wp [OF assms]], goal_cases)
  case borrowed: (1 e db1)
  then have step: "db_inv db1" "db_guar db db1" "db_snapshot db1 = None"
    and base: "db_grow (db_collate db) (committed db) (db_tables db1)"
    and ck: "db_collate db1 = db_collate db"
    by (auto simp: db_guar_def committed_def)
  show ?case
  proof (intro wp_intros, goal_cases)
    case 1
    then show ?case
      using step by (auto simp: idle_def MapBorrowError_def)
  next
    case 2
    show ?case
    proof (rule wp_mono [OF run_sql_auto [OF step(1,3) growing_insert_user]], goal_cases)
      case (1 r db2)
      then have step2: "db_inv db2" "db_guar db db2" "db_snapshot db2 = None"
        using step by (auto intro: db_guarantee.R_trans)
      have created: "user_created name hash nickname i db db2 \<and> wrap_int64 i = i"
        if "db_grow (db_collate db) (db_tables db1) t1" "tables_ok (db_collate db) t1"
          "insert_user name hash nickname (db_collate db) (db_clock db1) t1 = Inr (db_tables db2, i)"
        for i t1
        using insert_user_result [OF that(2,3)] step2(3) db_grow_trans [OF base that(1)]
          users_grow_fresh [of "committed db" t1 i "db_collate db" name]
        by (auto simp: user_created_def committed_def [of db2] db_grow_def in_int64_def
            int64_min_def)
      show ?case
        using 1 step2 ck created
        by (intro wp_intros wp_mono [OF StatementFailure_wp])
          (auto simp: idle_def user_created_def intro: db_guarantee.R_trans)
    qed
  qed
qed

lemma updatePasswordHash_wp:
  assumes "db_inv db" "idle db"
  shows "wp (updatePasswordHash uid hash) (\<lambda>res db'. db_inv db' \<and> db_guar db db' \<and> idle db') db"
  unfolding updatePasswordHash_def
proof (rule wp_bind, rule wp_mono [OF borrow_wp [OF assms]], goal_cases)
  case (1 e db1)
  then have step: "db_inv db1" "db_guar db db1" "db_snapshot db1 = None"
    by auto
  show ?case
  proof (intro wp_intros, goal_cases)
    case 2
    show ?case
      by (rule wp_mono [OF run_sql_auto [OF step(1,3) growing_update_hash]],
          intro wp_intros wp_mono [OF StatementFailure_wp])
        (use step in \<open>auto simp: idle_def intro: db_guarantee.R_trans\<close>)
  qed (use step in \<open>simp add: idle_def\<close>)
qed

section \<open>The contract of a user directory\<close>

locale user_directory =
  fixes repo :: "'w IUserRepository"
    and inv :: "'w \<Rightarrow> bool"
    and later :: "'w \<Rightarrow> 'w \<Rightarrow> bool"
    and users :: "'w \<Rightarrow> UserRecord list"
    and key :: "'w \<Rightarrow> string \<Rightarrow> string"
  assumes later_refl: "later w w"
    and later_trans: "later w w1 \<Longrightarrow> later w1 w2 \<Longrightarrow> later w w2"
    and later_key: "later w w' \<Longrightarrow> key w' = key w"
    and later_users: "later w w' \<Longrightarrow> u \<in> set (users w) \<Longrightarrow>
      \<exists>u' \<in> set (users w'). u_id u' = u_id u \<and> u_username u' = u_username u"
    and unique_user: "inv w \<Longrightarrow> u \<in> set (users w) \<Longrightarrow> u' \<in> set (users w) \<Longrightarrow>
      u_id u = u_id u' \<or> key w (u_username u) = key w (u_username u') \<Longrightarrow> u = u'"
    and user_id_positive: "inv w \<Longrightarrow> u \<in> set (users w) \<Longrightarrow> 0 < u_id u"
    and name_keeps: "inv w \<Longrightarrow> run_state (iu_findByUsername repo n) w = (fres, w') \<Longrightarrow> inv w' \<and> later w w'"
    and name_found: "inv w \<Longrightarrow> run_state (iu_findByUsername repo n) w = (fres, w') \<Longrightarrow>
      (case fu_user fres of
         None \<Rightarrow> fu_status fres \<noteq> kOk
       | Some u \<Rightarrow> fu_status fres = kOk \<and> u \<in> set (users w') \<and> key w (u_username u) = key w n)"
    and id_keeps: "inv w \<Longrightarrow> run_state (iu_findById repo uid) w = (fres, w') \<Longrightarrow> inv w' \<and> later w w'"
    and id_found: "inv w \<Longrightarrow> run_state (iu_findById repo uid) w = (fres, w') \<Longrightarrow>
      (case fu_user fres of
         None \<Rightarrow> fu_status fres \<noteq> kOk
       | Some u \<Rightarrow> fu_status fres = kOk \<and> u \<in> set (users w') \<and> u_id u = uid)"
    and create_keeps: "inv w \<Longrightarrow> run_state (iu_createUser repo n h k) w = (cres, w') \<Longrightarrow> inv w' \<and> later w w'"
    and create_fresh: "inv w \<Longrightarrow> run_state (iu_createUser repo n h k) w = (cres, w') \<Longrightarrow>
      cu_status cres = kOk \<Longrightarrow> 0 < cu_user_id cres \<and>
      (\<exists>u \<in> set (users w'). u_id u = cu_user_id cres \<and> u_username u = n \<and> u_password_hash u = h \<and>
         u_nickname u = k \<and> u_status u = 1) \<and>
      (\<forall>v \<in> set (users w). u_id v \<noteq> cu_user_id cres \<and> key w (u_username v) \<noteq> key w n)"
    and update_keeps: "inv w \<Longrightarrow> run_state (iu_updatePasswordHash repo uid h) w = (st, w') \<Longrightarrow>
      inv w' \<and> later w w'"
begin

text \<open>Once a name is registered, registering it again in any spelling the directory identifies
  never succeeds.\<close>

lemma no_second_registration:
  assumes "inv w" "run_state (iu_createUser repo n h k) w = (r1, w1)" "cu_status r1 = kOk"
    and "later w1 w2" "inv w2" "key w n' = key w n"
    and "run_state (iu_createUser repo n' h' k') w2 = (r2, w3)"
  shows "cu_status r2 \<noteq> kOk"
proof
  assume ok: "cu_status r2 = kOk"
  have k: "key w2 = key w"
    using create_keeps [OF assms(1,2)] later_key assms(4) by metis
  obtain u where u: "u \<in> set (users w1)" "u_username u = n"
    using create_fresh [OF assms(1-3)] by blast
  obtain u' where u': "u' \<in> set (users w2)" "u_username u' = n"
    using later_users [OF assms(4) u(1)] u(2) by auto
  then show False
    using create_fresh [OF assms(5,7) ok] assms(6) k by auto
qed

end

definition stored_users :: "Db \<Rightarrow> UserRecord list" where
  "stored_users db = t_users (committed db)"

interpretation mysql_users: user_directory user_repository_ops repo_inv db_guar stored_users db_collate
proof unfold_locales
  fix db db1 db2 db' :: Db and u u' n uid h k fres cres st
  show "db_guar db db"
    by (rule db_guarantee.R_refl)
  show "db_guar db db1 \<Longrightarrow> db_guar db1 db2 \<Longrightarrow> db_guar db db2"
    by (rule db_guarantee.R_trans)
  show "db_guar db db' \<Longrightarrow> db_collate db' = db_collate db"
    by (simp add: db_guar_def)
  show "db_guar db db' \<Longrightarrow> u \<in> set (stored_users db) \<Longrightarrow>
      \<exists>u' \<in> set (stored_users db'). u_id u' = u_id u \<and> u_username u' = u_username u"
    by (auto simp: db_guar_def db_grow_def users_grow_def stored_users_def)
  show "u = u'" if "repo_inv db" "u \<in> set (stored_users db)" "u' \<in> set (stored_users db)"
    "u_id u = u_id u' \<or> db_collate db (u_username u) = db_collate db (u_username u')"
    using that by (auto simp: repo_inv_def db_inv_def tables_ok_def users_ok_def stored_users_def
        distinct_map inj_on_def)
  show "0 < u_id u" if "repo_inv db" "u \<in> set (stored_users db)"
    using that by (auto simp: repo_inv_def db_inv_def tables_ok_def users_ok_def stored_users_def)
  show "repo_inv db' \<and> db_guar db db'"
    if "repo_inv db" "run_state (iu_findByUsername user_repository_ops n) db = (fres, db')"
    using that findByUsername_wp [of db n]
    by (auto simp: repo_inv_def user_repository_ops_def find_post_def dest: wpD)
  show "case fu_user fres of
         None \<Rightarrow> fu_status fres \<noteq> kOk
       | Some u \<Rightarrow> fu_status fres = kOk \<and> u \<in> set (stored_users db') \<and>
           db_collate db (u_username u) = db_collate db n"
    if "repo_inv db" "run_state (iu_findByUsername user_repository_ops n) db = (fres, db')"
    using that wpD [OF findByUsername_wp [of db n]]
    by (auto simp: repo_inv_def user_repository_ops_def find_post_def stored_users_def
        split: option.splits)
  show "repo_inv db' \<and> db_guar db db'"
    if "repo_inv db" "run_state (iu_findById user_repository_ops uid) db = (fres, db')"
    using that findById_wp [of db uid]
    by (auto simp: repo_inv_def user_repository_ops_def find_post_def dest: wpD)
  show "case fu_user fres of
         None \<Rightarrow> fu_status fres \<noteq> kOk
       | Some u \<Rightarrow> fu_status fres = kOk \<and> u \<in> set (stored_users db') \<and> u_id u = uid"
    if "repo_inv db" "run_state (iu_findById user_repository_ops uid) db = (fres, db')"
    using that wpD [OF findById_wp [of db uid]]
    by (auto simp: repo_inv_def user_repository_ops_def find_post_def stored_users_def
        split: option.splits)
  show "repo_inv db' \<and> db_guar db db'"
    if "repo_inv db" "run_state (iu_createUser user_repository_ops n h k) db = (cres, db')"
    using that wpD [OF createUser_wp [of db n h k]]
    by (auto simp: repo_inv_def user_repository_ops_def)
  show "0 < cu_user_id cres \<and>
      (\<exists>u \<in> set (stored_users db'). u_id u = cu_user_id cres \<and> u_username u = n \<and>
         u_password_hash u = h \<and> u_nickname u = k \<and> u_status u = 1) \<and>
      (\<forall>v \<in> set (stored_users db). u_id v \<noteq> cu_user_id cres \<and>
         db_collate db (u_username v) \<noteq> db_collate db n)"
    if "repo_inv db" "run_state (iu_createUser user_repository_ops n h k) db = (cres, db')"
      "cu_status cres = kOk"
    using that wpD [OF createUser_wp [of db n h k]]
    by (auto simp: repo_inv_def user_repository_ops_def user_created_def stored_users_def)
  show "repo_inv db' \<and> db_guar db db'"
    if "repo_inv db" "run_state (iu_updatePasswordHash user_repository_ops uid h) db = (st, db')"
    using that wpD [OF updatePasswordHash_wp [of db uid h]]
    by (auto simp: repo_inv_def user_repository_ops_def)
qed

end
