(* ===== verification/Caches.thy ===== *)
theory Caches
  imports SessionStore UserRepository
begin

text \<open>
  The three caches on Redis: the fixed-window rate limiter (\<^verbatim>\<open>src/src/cache/redis_rate_limiter.cc\<close>), the
  message deduplication cache (\<^verbatim>\<open>src/src/cache/message_dedup_cache.cc\<close>) and the user repository with
  negative caching (\<^verbatim>\<open>src/src/cache/cached_user_repository.cc\<close>). A null Redis client is \<^term>\<open>None\<close>.
\<close>

section \<open>Rate limiter\<close>

record RateLimitResult =
  rl_allowed :: bool
  rl_retry_after_seconds :: nat

type_synonym 'w IRateLimiter = "int \<Rightarrow> string \<Rightarrow> string \<Rightarrow> nat \<Rightarrow> nat \<Rightarrow> ('w, RateLimitResult) state"

definition allow_all :: RateLimitResult where
  "allow_all = \<lparr>rl_allowed = True, rl_retry_after_seconds = 0\<rparr>"

text \<open>The division of C++ truncates towards zero.\<close>

definition truncated_div :: "int \<Rightarrow> int \<Rightarrow> int" where
  "truncated_div a b = sgn a * sgn b * (\<bar>a\<bar> div \<bar>b\<bar>)"

definition RateKey :: "RedisConfig \<Rightarrow> string \<Rightarrow> string \<Rightarrow> int \<Rightarrow> string" where
  "RateKey config kind identity bucket =
     rc_key_prefix config @ '':ratelimit:'' @ kind @ '':'' @ identity @ '':'' @ int_to_string bucket"

text \<open>The first argument after the configuration is the reading of the clock.\<close>

definition Allow :: "'w IRedisClient option \<Rightarrow> RedisConfig \<Rightarrow> 'w IRateLimiter" where
  "Allow redis config clock kind identity limit window_seconds =
     (case redis of
        None \<Rightarrow> ret allow_all
      | Some command \<Rightarrow>
          if kind = [] \<or> identity = [] \<or> limit = 0 \<or> window_seconds = 0 then ret allow_all
          else do {
            r \<leftarrow> command (EVAL kRateLimitScript
                  [RateKey config kind identity (truncated_div clock (int window_seconds))]
                  [nat_to_string window_seconds]);
            ret (case rr_elements (rcr_reply r) of
                   [count, ttl] \<Rightarrow>
                     if \<not> rcr_success r \<or> rr_type (rcr_reply r) \<noteq> kArray \<or>
                        rr_type count \<noteq> kInteger \<or> rr_type ttl \<noteq> kInteger
                     then allow_all
                     else if rr_integer_value count \<le> int limit
                     then \<lparr>rl_allowed = True, rl_retry_after_seconds = 0\<rparr>
                     else \<lparr>rl_allowed = False,
                           rl_retry_after_seconds =
                             nat ((if rr_integer_value ttl > 0 then rr_integer_value ttl
                                   else int window_seconds) mod 2 ^ 32)\<rparr>
                 | _ \<Rightarrow> allow_all)
          })"

section \<open>Message deduplication\<close>

record 'w IMessageDedupCache =
  idc_Lookup :: "userId \<Rightarrow> string \<Rightarrow> ('w, string option) state"
  idc_Save :: "userId \<Rightarrow> string \<Rightarrow> string \<Rightarrow> ('w, unit) state"
  idc_Remove :: "userId \<Rightarrow> string \<Rightarrow> ('w, unit) state"

definition DedupKey :: "RedisConfig \<Rightarrow> userId \<Rightarrow> string \<Rightarrow> string" where
  "DedupKey config from_user_id client_msg_id =
     rc_key_prefix config @ '':dedup:msg:'' @ int_to_string from_user_id @ '':'' @ client_msg_id"

definition Lookup ::
  "'w IRedisClient option \<Rightarrow> RedisConfig \<Rightarrow> userId \<Rightarrow> string \<Rightarrow> ('w, string option) state" where
  "Lookup redis config from_user_id client_msg_id =
     (case redis of
        None \<Rightarrow> ret None
      | Some command \<Rightarrow> do {
          r \<leftarrow> command (GET (DedupKey config from_user_id client_msg_id));
          ret (if \<not> rcr_success r \<or> rr_type (rcr_reply r) \<noteq> kString \<or> rr_string_value (rcr_reply r) = []
               then None else Some (rr_string_value (rcr_reply r)))
        })"

definition Save ::
  "'w IRedisClient option \<Rightarrow> RedisConfig \<Rightarrow> userId \<Rightarrow> string \<Rightarrow> string \<Rightarrow> ('w, unit) state" where
  "Save redis config from_user_id client_msg_id message_id =
     (case redis of
        None \<Rightarrow> ret ()
      | Some command \<Rightarrow>
          if message_id = [] then ret ()
          else do {
            _ \<leftarrow> command (SETEX (DedupKey config from_user_id client_msg_id)
                   (nat_to_string (rc_message_dedup_ttl_seconds config)) message_id);
            ret ()
          })"

definition Remove :: "'w IRedisClient option \<Rightarrow> RedisConfig \<Rightarrow> userId \<Rightarrow> string \<Rightarrow> ('w, unit) state" where
  "Remove redis config from_user_id client_msg_id =
     (case redis of
        None \<Rightarrow> ret ()
      | Some command \<Rightarrow> do {
          _ \<leftarrow> command (DEL [DedupKey config from_user_id client_msg_id]);
          ret ()
        })"

definition dedup_cache_ops :: "'w IRedisClient option \<Rightarrow> RedisConfig \<Rightarrow> 'w IMessageDedupCache" where
  "dedup_cache_ops redis config =
     \<lparr>idc_Lookup = Lookup redis config, idc_Save = Save redis config, idc_Remove = Remove redis config\<rparr>"

section \<open>Cached user repository\<close>

definition kNotFoundValue :: string where
  "kNotFoundValue = ''__not_found__''"

definition UserKey :: "RedisConfig \<Rightarrow> userId \<Rightarrow> string" where
  "UserKey config uid = rc_key_prefix config @ '':user:id:'' @ int_to_string uid"

definition UsernameKey :: "RedisConfig \<Rightarrow> string \<Rightarrow> string" where
  "UsernameKey config username = rc_key_prefix config @ '':user:name:'' @ username"

text \<open>\<^verbatim>\<open>std::stoll\<close> reads a decimal prefix; it throws (\<^term>\<open>None\<close>) when there is none or when it is out of
  range.\<close>

definition stoll :: "string \<Rightarrow> int option" where
  "stoll value =
     (let (sign, body) = strtoll_sign (dropWhile isspace (takeWhile (\<lambda>c. byte c \<noteq> 0) value));
          ds = takeWhile is_digit body;
          n = sign * int (digits_value ds)
      in if ds = [] \<or> \<not> in_int64 n then None else Some n)"

definition CacheNotFound :: "'w IRedisClient option \<Rightarrow> RedisConfig \<Rightarrow> string \<Rightarrow> ('w, unit) state" where
  "CacheNotFound redis config key =
     (case redis of
        None \<Rightarrow> ret ()
      | Some command \<Rightarrow> do {
          _ \<leftarrow> command (SETEX key (nat_to_string (rc_user_not_found_ttl_seconds config)) kNotFoundValue);
          ret ()
        })"

definition cached_value :: "'w IRedisClient option \<Rightarrow> string \<Rightarrow> ('w, string option) state" where
  "cached_value redis key =
     (case redis of
        None \<Rightarrow> ret None
      | Some command \<Rightarrow> do {
          r \<leftarrow> command (GET key);
          ret (if rcr_success r \<and> rr_type (rcr_reply r) = kString
               then Some (rr_string_value (rcr_reply r)) else None)
        })"

definition from_source ::
  "'w IRedisClient option \<Rightarrow> RedisConfig \<Rightarrow> string \<Rightarrow> ('w, FindUserResult) state \<Rightarrow> ('w, FindUserResult) state" where
  "from_source redis config key query = do {
     result \<leftarrow> query;
     (if fu_status result = kNotFound then CacheNotFound redis config key else ret ());
     ret result
   }"

definition cached_findById ::
  "'w IUserRepository \<Rightarrow> 'w IRedisClient option \<Rightarrow> RedisConfig \<Rightarrow> userId \<Rightarrow> ('w, FindUserResult) state" where
  "cached_findById source redis config uid = do {
     cached \<leftarrow> cached_value redis (UserKey config uid);
     if cached = Some kNotFoundValue then ret (user_failure kNotFound)
     else from_source redis config (UserKey config uid) (iu_findById source uid)
   }"

definition cached_findByUsername ::
  "'w IUserRepository \<Rightarrow> 'w IRedisClient option \<Rightarrow> RedisConfig \<Rightarrow> string \<Rightarrow> ('w, FindUserResult) state" where
  "cached_findByUsername source redis config username = do {
     cached \<leftarrow> cached_value redis (UsernameKey config username);
     if cached = Some kNotFoundValue then ret (user_failure kNotFound)
     else do {
       by_id \<leftarrow> (case cached of
          None \<Rightarrow> ret None
        | Some v \<Rightarrow>
            (case stoll v of
               None \<Rightarrow> do { forget redis (UsernameKey config username); ret None }
             | Some uid \<Rightarrow> do {
                 r \<leftarrow> cached_findById source redis config uid;
                 ret (if fu_status r = kOk then Some r else None)
               }));
       case by_id of
         Some r \<Rightarrow> ret r
       | None \<Rightarrow> from_source redis config (UsernameKey config username) (iu_findByUsername source username)
     }
   }"

definition cached_createUser ::
  "'w IUserRepository \<Rightarrow> 'w IRedisClient option \<Rightarrow> RedisConfig \<Rightarrow> string \<Rightarrow> string \<Rightarrow> string \<Rightarrow>
   ('w, CreateUserResult) state" where
  "cached_createUser source redis config username password_hash nickname = do {
     result \<leftarrow> iu_createUser source username password_hash nickname;
     (case redis of
        None \<Rightarrow> ret ()
      | Some command \<Rightarrow>
          if cu_status result = kOk
          then do {
            _ \<leftarrow> command (DEL [UsernameKey config username, UserKey config (cu_user_id result)]);
            ret ()
          }
          else ret ());
     ret result
   }"

definition cached_updatePasswordHash ::
  "'w IUserRepository \<Rightarrow> 'w IRedisClient option \<Rightarrow> RedisConfig \<Rightarrow> userId \<Rightarrow> string \<Rightarrow>
   ('w, RepositoryStatus) state" where
  "cached_updatePasswordHash source redis config uid password_hash = do {
     status \<leftarrow> iu_updatePasswordHash source uid password_hash;
     (case redis of
        None \<Rightarrow> ret ()
      | Some command \<Rightarrow>
          if status = kOk then do { _ \<leftarrow> command (DEL [UserKey config uid]); ret () } else ret ());
     ret status
   }"

definition cached_user_repository_ops ::
  "'w IUserRepository \<Rightarrow> 'w IRedisClient option \<Rightarrow> RedisConfig \<Rightarrow> 'w IUserRepository" where
  "cached_user_repository_ops source redis config =
     \<lparr>iu_findByUsername = cached_findByUsername source redis config,
      iu_findById = cached_findById source redis config,
      iu_createUser = cached_createUser source redis config,
      iu_updatePasswordHash = cached_updatePasswordHash source redis config\<rparr>"


section \<open>The cached repository keeps the contract of its source\<close>

text \<open>What the cache relies on: a user directory, a Redis client whose commands leave the database
  alone, and that a name key never holds anything but the marker for an unknown name.\<close>

locale cached_users =
  source: user_directory source inv later users key
  for source :: "'w IUserRepository"
    and inv :: "'w \<Rightarrow> bool"
    and later :: "'w \<Rightarrow> 'w \<Rightarrow> bool"
    and users :: "'w \<Rightarrow> UserRecord list"
    and key :: "'w \<Rightarrow> string \<Rightarrow> string" +
  fixes redis :: "'w IRedisClient"
    and cfg :: RedisConfig
  assumes command_get: "assured inv later (redis (GET k))"
    and command_del: "assured inv later (redis (DEL ks))"
    and command_put: "assured inv later (redis (SETEX k ttl kNotFoundValue))"
    and command_users: "run_state (redis cmd) w = (r, w') \<Longrightarrow> users w' = users w"
    and names: "inv w \<Longrightarrow> run_state (redis (GET (UsernameKey cfg n))) w = (r, w') \<Longrightarrow> rcr_success r \<Longrightarrow>
      rr_type (rcr_reply r) = kString \<Longrightarrow> rr_string_value (rcr_reply r) = kNotFoundValue"

sublocale cached_users \<subseteq> keeps: preorder_guarantee inv later
  by unfold_locales (auto intro: source.later_refl source.later_trans)

context cached_users
begin

lemma cached_value_assured: "assured inv later (cached_value (Some redis) k)"
  by (auto simp: cached_value_def intro!: keeps.assured_rules command_get)

lemma CacheNotFound_assured: "assured inv later (CacheNotFound (Some redis) cfg k)"
  by (auto simp: CacheNotFound_def intro!: keeps.assured_rules command_put)

definition found :: "(UserRecord \<Rightarrow> bool) \<Rightarrow> FindUserResult \<Rightarrow> 'w \<Rightarrow> bool" where
  "found P r w \<longleftrightarrow>
     (case fu_user r of
        None \<Rightarrow> fu_status r \<noteq> kOk
      | Some u \<Rightarrow> fu_status r = kOk \<and> u \<in> set (users w) \<and> P u)"

lemma from_source_wp:
  assumes query: "\<And>r w'. run_state query w = (r, w') \<Longrightarrow> inv w' \<and> later w w' \<and> found P r w'"
  shows "wp (from_source (Some redis) cfg k query) (\<lambda>r w'. inv w' \<and> later w w' \<and> found P r w') w"
  unfolding from_source_def
proof (rule wp_bind, rule wpI, goal_cases)
  case (1 r w1)
  then have w1: "inv w1" "later w w1" "found P r w1"
    using query by blast+
  show ?case
  proof (cases "fu_status r = kNotFound")
    case True
    then have cache: "wp (if fu_status r = kNotFound then CacheNotFound (Some redis) cfg k else ret ())
        (\<lambda>_ w'. inv w' \<and> later w1 w') w1"
      using CacheNotFound_assured w1(1) by (simp add: assured_def)
    show ?thesis
      by (rule wp_bind, rule wp_mono [OF cache], rule wp_ret)
        (use True w1(3) in \<open>auto simp: found_def intro: source.later_trans [OF w1(2)] split: option.splits\<close>)
  next
    case False
    then show ?thesis
      using w1 by (auto intro!: wp_bind wp_ret)
  qed
qed

lemma found_not_found [simp]: "found P (user_failure kNotFound) w"
  by (simp add: found_def user_failure_def)

lemma cached_value_wp: "inv w \<Longrightarrow> wp (cached_value (Some redis) k) (\<lambda>_ w'. inv w' \<and> later w w') w"
  using cached_value_assured by (simp add: assured_def)

lemma cached_findById_wp:
  assumes "inv w"
  shows "wp (cached_findById source (Some redis) cfg uid)
    (\<lambda>r w'. inv w' \<and> later w w' \<and> found (\<lambda>u. u_id u = uid) r w') w"
  unfolding cached_findById_def
proof (rule wp_bind, rule wp_mono [OF cached_value_wp [OF assms]], goal_cases)
  case (1 cached w1)
  then have w1: "inv w1" "later w w1"
    by auto
  have "wp (from_source (Some redis) cfg (UserKey cfg uid) (iu_findById source uid))
      (\<lambda>r w'. inv w' \<and> later w1 w' \<and> found (\<lambda>u. u_id u = uid) r w') w1"
    by (rule from_source_wp) (use source.id_keeps [OF w1(1)] source.id_found [OF w1(1)] in \<open>auto simp: found_def\<close>)
  then show ?case
    using w1 by (auto intro!: wp_if wp_ret intro: wp_mono source.later_trans [OF w1(2)])
qed

lemma name_value:
  assumes "inv w" "run_state (cached_value (Some redis) (UsernameKey cfg n)) w = (v, w')"
  shows "v = None \<or> v = Some kNotFoundValue"
proof -
  obtain r w1 where r: "run_state (redis (GET (UsernameKey cfg n))) w = (r, w1)"
    by fastforce
  then show ?thesis
    using assms names [OF assms(1) r] by (auto simp: cached_value_def split: if_splits)
qed

lemma cached_findByUsername_wp:
  assumes "inv w"
  shows "wp (cached_findByUsername source (Some redis) cfg n)
    (\<lambda>r w'. inv w' \<and> later w w' \<and> found (\<lambda>u. key w (u_username u) = key w n) r w') w"
  unfolding cached_findByUsername_def
proof (rule wp_bind, rule wpI, goal_cases)
  case (1 cached w1)
  have w1: "inv w1" "later w w1"
    using keeps.assured_run [OF cached_value_assured assms 1] by auto
  have k: "key w1 = key w"
    using source.later_key [OF w1(2)] .
  have "wp (from_source (Some redis) cfg (UsernameKey cfg n) (iu_findByUsername source n))
      (\<lambda>r w'. inv w' \<and> later w1 w' \<and> found (\<lambda>u. key w (u_username u) = key w n) r w') w1"
    by (rule from_source_wp)
      (use source.name_keeps [OF w1(1)] source.name_found [OF w1(1), unfolded k] in \<open>auto simp: found_def\<close>)
  then have "wp (from_source (Some redis) cfg (UsernameKey cfg n) (iu_findByUsername source n))
      (\<lambda>r w'. inv w' \<and> later w w' \<and> found (\<lambda>u. key w (u_username u) = key w n) r w') w1"
    by (rule wp_mono) (auto intro: source.later_trans [OF w1(2)])
  then show ?case
    using name_value [OF assms 1] w1 by (auto intro!: wp_if wp_ret wp_bind)
qed

lemma invalidate_wp:
  assumes "inv w"
  shows "wp (if b then redis (DEL ks) \<bind> (\<lambda>_. ret ()) else ret ())
    (\<lambda>_ w'. inv w' \<and> later w w' \<and> users w' = users w) w"
proof (rule wp_if, goal_cases)
  case 1
  show ?case
    by (rule wp_bind, rule wpI, rule wp_ret)
      (use keeps.assured_run [OF command_del assms] command_users in blast)
qed (use assms source.later_refl in \<open>auto intro!: wp_ret\<close>)

lemma cached_createUser_wp:
  assumes "inv w"
  shows "wp (cached_createUser source (Some redis) cfg n h k)
    (\<lambda>r w'. inv w' \<and> later w w' \<and>
       (\<exists>w1. run_state (iu_createUser source n h k) w = (r, w1) \<and> users w' = users w1)) w"
  unfolding cached_createUser_def option.case
proof (rule wp_bind, rule wpI, goal_cases)
  case (1 r w1)
  then have w1: "inv w1" "later w w1"
    using source.create_keeps [OF assms] by blast+
  show ?case
    by (rule wp_bind, rule wp_mono [OF invalidate_wp [OF w1(1)]], rule wp_ret)
      (use 1 source.later_trans [OF w1(2)] in blast)
qed

lemma cached_update_wp: "inv w \<Longrightarrow>
  wp (cached_updatePasswordHash source (Some redis) cfg uid h) (\<lambda>_ w'. inv w' \<and> later w w') w"
  unfolding cached_updatePasswordHash_def option.case
proof (rule wp_bind, rule wpI, goal_cases)
  case (1 st w1)
  then have w1: "inv w1" "later w w1"
    using source.update_keeps by blast+
  show ?case
    by (rule wp_bind, rule wp_mono [OF invalidate_wp [OF w1(1)]], rule wp_ret)
      (use source.later_trans [OF w1(2)] in blast)
qed

end

sublocale cached_users \<subseteq> cached: user_directory "cached_user_repository_ops source (Some redis) cfg" inv later users key
proof unfold_locales
  fix w w' n uid fres h k cres st u u' w1 w2
  show "later w w" "later w w1 \<Longrightarrow> later w1 w2 \<Longrightarrow> later w w2" "later w w' \<Longrightarrow> key w' = key w"
    "later w w' \<Longrightarrow> u \<in> set (users w) \<Longrightarrow> \<exists>u' \<in> set (users w'). u_id u' = u_id u \<and> u_username u' = u_username u"
    "inv w \<Longrightarrow> u \<in> set (users w) \<Longrightarrow> u' \<in> set (users w) \<Longrightarrow>
      u_id u = u_id u' \<or> key w (u_username u) = key w (u_username u') \<Longrightarrow> u = u'"
    "inv w \<Longrightarrow> u \<in> set (users w) \<Longrightarrow> 0 < u_id u"
    by (rule source.later_refl source.later_trans source.later_key source.later_users source.unique_user
        source.user_id_positive; assumption)+
  show "inv w' \<and> later w w'"
    "case fu_user fres of None \<Rightarrow> fu_status fres \<noteq> kOk
       | Some u \<Rightarrow> fu_status fres = kOk \<and> u \<in> set (users w') \<and> key w (u_username u) = key w n"
    if "inv w" "run_state (iu_findByUsername (cached_user_repository_ops source (Some redis) cfg) n) w = (fres, w')"
    using wpD [OF cached_findByUsername_wp [OF that(1)], of n fres w'] that(2)
    by (simp_all add: cached_user_repository_ops_def found_def)
  show "inv w' \<and> later w w'"
    "case fu_user fres of None \<Rightarrow> fu_status fres \<noteq> kOk
       | Some u \<Rightarrow> fu_status fres = kOk \<and> u \<in> set (users w') \<and> u_id u = uid"
    if "inv w" "run_state (iu_findById (cached_user_repository_ops source (Some redis) cfg) uid) w = (fres, w')"
    using wpD [OF cached_findById_wp [OF that(1)], of uid fres w'] that(2)
    by (simp_all add: cached_user_repository_ops_def found_def)
  show "inv w' \<and> later w w'"
    if "inv w" "run_state (iu_createUser (cached_user_repository_ops source (Some redis) cfg) n h k) w = (cres, w')"
    using wpD [OF cached_createUser_wp [OF that(1)], of n h k cres w'] that(2)
    by (simp add: cached_user_repository_ops_def)
  show "0 < cu_user_id cres \<and>
      (\<exists>u \<in> set (users w'). u_id u = cu_user_id cres \<and> u_username u = n \<and> u_password_hash u = h \<and>
         u_nickname u = k \<and> u_status u = 1) \<and>
      (\<forall>v \<in> set (users w). u_id v \<noteq> cu_user_id cres \<and> key w (u_username v) \<noteq> key w n)"
    if "inv w" "run_state (iu_createUser (cached_user_repository_ops source (Some redis) cfg) n h k) w = (cres, w')"
      "cu_status cres = kOk"
    using wpD [OF cached_createUser_wp [OF that(1)], of n h k cres w'] that(2,3) source.create_fresh [OF that(1)]
    by (auto simp: cached_user_repository_ops_def)
  show "inv w' \<and> later w w'"
    if "inv w" "run_state (iu_updatePasswordHash (cached_user_repository_ops source (Some redis) cfg) uid h) w = (st, w')"
    using wpD [OF cached_update_wp [OF that(1)], of uid h st w'] that(2)
    by (simp add: cached_user_repository_ops_def)
qed


section \<open>The rate limiter counts\<close>

text \<open>Successive calls with the given clock readings.\<close>

primrec allow_calls ::
  "RedisConfig \<Rightarrow> string \<Rightarrow> string \<Rightarrow> nat \<Rightarrow> nat \<Rightarrow> int list \<Rightarrow> (RedisWorld, RateLimitResult list) state" where
  "allow_calls cfg kind identity limit window [] = ret []"
| "allow_calls cfg kind identity limit window (clock # clocks) = do {
     r \<leftarrow> Allow (Some Command) cfg clock kind identity limit window;
     rs \<leftarrow> allow_calls cfg kind identity limit window clocks;
     ret (r # rs)
   }"

text \<open>A server on which time passes by the given numbers of seconds before the coming commands, with no
  failures and no other client.\<close>

definition tick :: "nat \<Rightarrow> redis_event" where
  "tick d = \<lparr>re_env = (\<lambda>s. s\<lparr>rs_now := rs_now s + int d\<rparr>), re_fault = None\<rparr>"

definition counting :: "string \<Rightarrow> nat \<Rightarrow> int \<Rightarrow> RedisStore \<Rightarrow> bool" where
  "counting k c deadline s \<longleftrightarrow> rs_strings s k = Some (nat_to_string c, Some deadline) \<and> rs_now s < deadline"

lemma counting_step:
  assumes "counting k c deadline s" "c \<noteq> 0"
  shows "run_rate_limit [k] [nat_to_string window] s =
      (REDIS_REPLY_ARRAY [REDIS_REPLY_INTEGER (int (Suc c)), REDIS_REPLY_INTEGER (deadline - rs_now s)],
       s\<lparr>rs_strings := (rs_strings s)(k \<mapsto> (nat_to_string (Suc c), Some deadline))\<rparr>)"
  using assms by (simp add: counting_def incr_def string_at_def alive_def ttl_of_def)

lemma first_count:
  assumes "string_at s k = None" "0 < window"
  shows "\<exists>s'. run_rate_limit [k] [nat_to_string window] s =
      (REDIS_REPLY_ARRAY [REDIS_REPLY_INTEGER 1, REDIS_REPLY_INTEGER (int window)], s') \<and>
    rs_now s' = rs_now s \<and> counting k 1 (rs_now s + int window) s'"
proof -
  have "nat_to_string 1 = ''1''"
    by code_simp
  then show ?thesis
    using assms
    by (simp add: counting_def incr_def string_at_def alive_def ttl_of_def expire_def expire_entry_def)
qed


definition limit_answer :: "nat \<Rightarrow> nat \<Rightarrow> int \<Rightarrow> int \<Rightarrow> RateLimitResult" where
  "limit_answer limit window count ttl =
     (if count \<le> int limit then allow_all
      else \<lparr>rl_allowed = False, rl_retry_after_seconds = nat ((if ttl > 0 then ttl else int window) mod 2 ^ 32)\<rparr>)"

lemma Allow_run:
  assumes "kind \<noteq> []" "identity \<noteq> []" "0 < limit" "0 < window"
    and "run_rate_limit [RateKey cfg kind identity (truncated_div clock (int window))] [nat_to_string window]
      ((rw_store w)\<lparr>rs_now := rs_now (rw_store w) + int d\<rparr>) =
      (REDIS_REPLY_ARRAY [REDIS_REPLY_INTEGER count, REDIS_REPLY_INTEGER ttl], s')"
    and "rw_events w = tick d # events"
  shows "run_state (Allow (Some Command) cfg clock kind identity limit window) w =
    (limit_answer limit window count ttl, \<lparr>rw_store = s', rw_events = events\<rparr>)"
  using assms by (simp add: Allow_def Command_def tick_def redis_answer_def Execute_def limit_answer_def allow_all_def)

lemma later_calls:
  assumes "kind \<noteq> []" "identity \<noteq> []" "0 < limit" "0 < window" "c \<noteq> 0"
    and "\<forall>clock \<in> set clocks. truncated_div clock (int window) = bucket" "length clocks = length ds"
    and "counting (RateKey cfg kind identity bucket) c deadline (rw_store w)"
    and "rs_now (rw_store w) + int (sum_list ds) < deadline" "rw_events w = map tick ds"
  shows "map rl_allowed (fst (run_state (allow_calls cfg kind identity limit window clocks) w)) =
    map (\<lambda>i. c + i < limit) [0..<length clocks]"
  using assms(5-)
proof (induction clocks arbitrary: c ds w)
  case (Cons clock clocks)
  let ?k = "RateKey cfg kind identity bucket"
  obtain d ds' where ds: "ds = d # ds'"
    using Cons.prems(3) by (cases ds) auto
  let ?s = "(rw_store w)\<lparr>rs_now := rs_now (rw_store w) + int d\<rparr>"
  have now: "counting ?k c deadline ?s"
    using Cons.prems(4,5) ds by (simp add: counting_def)
  define s' where "s' = ?s\<lparr>rs_strings := (rs_strings ?s)(?k \<mapsto> (nat_to_string (Suc c), Some deadline))\<rparr>"
  have step: "run_state (Allow (Some Command) cfg clock kind identity limit window) w =
      (limit_answer limit window (int (Suc c)) (deadline - rs_now ?s), \<lparr>rw_store = s', rw_events = map tick ds'\<rparr>)"
    using counting_step [OF now Cons.prems(1), of window] Cons.prems(2,6) ds
    by (intro Allow_run [OF assms(1-4)]) (simp_all add: s'_def)
  have "map rl_allowed (fst (run_state (allow_calls cfg kind identity limit window clocks)
      \<lparr>rw_store = s', rw_events = map tick ds'\<rparr>)) = map (\<lambda>i. Suc c + i < limit) [0..<length clocks]"
    using Cons.prems ds now by (intro Cons.IH [where ds = ds']) (auto simp: s'_def counting_def)
  moreover have "rl_allowed (limit_answer limit window (int (Suc c)) ttl) = (c < limit)" for ttl
    by (auto simp: limit_answer_def allow_all_def)
  moreover have "map (\<lambda>i. c + i < limit) [0..<length (clock # clocks)] =
      (c < limit) # map (\<lambda>i. Suc c + i < limit) [0..<length clocks]"
    by (simp add: upt_conv_Cons map_Suc_upt [symmetric] del: upt_Suc)
  ultimately show ?case
    using step by (simp add: split_beta)
qed simp


section \<open>Properties\<close>



end
