(* ===== verification/ChatService.thy ===== *)
theory ChatService
  imports MessageRepository Caches
begin

text \<open>
  The single-chat service (\<^verbatim>\<open>src/src/service/chat_service.cc\<close>): sending a message, pulling the offline
  messages and reporting messages as delivered or read. The service is a record of the interfaces
  it was constructed with; a pointer that may be null is an option. Clock readings, the process id,
  the value of the static message counter and the random number are arguments.

  The locale \<^verbatim>\<open>chat_backend\<close> says what the service relies on: a message store, a user directory and a
  session registry over one world, and Redis-backed helpers that leave the data of the database
  alone. The lemmas of the service are proved in it; theory \<^verbatim>\<open>World\<close> instantiates it with the
  objects \<^verbatim>\<open>main\<close> wires together.
\<close>

unbundle bit_operations_syntax

section \<open>Data\<close>

record RemotePushEvent =
  rpe_event_id :: string
  rpe_message_id :: string
  rpe_from_user_id :: userId
  rpe_to_user_id :: userId
  rpe_target_connection_id :: connectionId
  rpe_payload :: string

datatype RemoteDeliveryOutcome = kRemoteDelivered | kInvalidTarget | kRetry

type_synonym 'w IRemotePushPublisher = "string \<Rightarrow> RemotePushEvent \<Rightarrow> ('w, bool) state"

record SendMessageResult =
  sr_code :: ErrorCode
  sr_message :: string
  sr_from_user_id :: userId
  sr_from_username :: string
  sr_to_user_id :: userId
  sr_to_conn_id :: connectionId
  sr_to_conn_ids :: "connectionId list"
  sr_sender_sync_conn_ids :: "connectionId list"
  sr_remote_server_id :: string
  sr_remote_conn_id :: connectionId
  sr_content :: string
  sr_server_time :: timestamp
  sr_message_id :: messageId
  sr_conversation_id :: conversationId
  sr_sequence :: int
  sr_status :: int
  sr_created_at :: timestamp
  sr_retry_after_seconds :: nat

definition SendMessageResult_default :: SendMessageResult where
  "SendMessageResult_default =
     \<lparr>sr_code = OK, sr_message = [], sr_from_user_id = 0, sr_from_username = [], sr_to_user_id = 0,
      sr_to_conn_id = 0, sr_to_conn_ids = [], sr_sender_sync_conn_ids = [], sr_remote_server_id = [],
      sr_remote_conn_id = 0, sr_content = [], sr_server_time = 0, sr_message_id = [],
      sr_conversation_id = [], sr_sequence = 0, sr_status = 0, sr_created_at = 0,
      sr_retry_after_seconds = 0\<rparr>"

record PullOfflineMessagesResult =
  po_code :: ErrorCode
  po_message :: string
  po_messages :: "OfflineMessage list"
  po_has_more :: bool

record MessageStateUpdateResult =
  su_code :: ErrorCode
  su_message :: string
  su_message_ids :: "messageId list"
  su_affected_rows :: int

record 'w ChatService =
  ch_session_manager :: "'w ISessionManager"
  ch_message_repository :: "'w IMessageRepository"
  ch_user_repository :: "'w IUserRepository"
  ch_rate_limiter :: "'w IRateLimiter option"
  ch_dedup_cache :: "'w IMessageDedupCache option"
  ch_redis_config :: RedisConfig
  ch_global_session_store :: "'w IGlobalSessionStore option"
  ch_remote_push_publisher :: "'w IRemotePushPublisher option"

text \<open>What one call of \<^verbatim>\<open>sendMessage\<close> reads from outside: the clock of the rate limiter, the system
  time, the process id, the new value of \<^verbatim>\<open>msg_seq\<close> and the output of the random generator.\<close>

record SendInputs =
  si_limiter_clock :: int
  si_now :: timestamp
  si_pid :: int
  si_msg_seq :: "64 word"
  si_random :: "64 word"

section \<open>Helpers\<close>

definition kMaxPullOfflineLimit :: int where
  "kMaxPullOfflineLimit = 100"

definition chat_MapRepositoryError :: "RepositoryStatus \<Rightarrow> ErrorCode" where
  "chat_MapRepositoryError status =
     (case status of
        kInsertFailed \<Rightarrow> DB_INSERT_FAILED
      | kDuplicate \<Rightarrow> DB_INSERT_FAILED
      | kQueryFailed \<Rightarrow> DB_QUERY_FAILED
      | kConnectionUnavailable \<Rightarrow> DB_QUERY_FAILED
      | kBorrowTimeout \<Rightarrow> DB_QUERY_FAILED
      | kNotFound \<Rightarrow> DB_QUERY_FAILED
      | _ \<Rightarrow> INTERNAL_ERROR)"

definition BuildConversationId :: "userId \<Rightarrow> userId \<Rightarrow> conversationId" where
  "BuildConversationId a b = ''conv_'' @ int_to_string (min a b) @ ''_'' @ int_to_string (max a b)"

definition BuildMessageId :: "timestamp \<Rightarrow> int \<Rightarrow> userId \<Rightarrow> 64 word \<Rightarrow> 64 word \<Rightarrow> messageId" where
  "BuildMessageId now pid from_user_id seq random_part =
     (let mixed_part = push_bit 32 (word_of_int now) XOR push_bit 16 (word_of_int pid) XOR
            word_of_int from_user_id XOR seq
      in ''msg_'' @ hex16 mixed_part @ hex16 random_part)"

definition IsSameIdempotentMessage :: "MessageRecord \<Rightarrow> MessageRecord \<Rightarrow> bool" where
  "IsSameIdempotentMessage expected actual \<longleftrightarrow>
     m_conversation_id expected = m_conversation_id actual \<and>
     m_client_msg_id expected = m_client_msg_id actual \<and>
     m_from_user_id expected = m_from_user_id actual \<and>
     m_to_user_id expected = m_to_user_id actual \<and>
     m_content expected = m_content actual"

fun first_invalid_id :: "messageId list \<Rightarrow> string option" where
  "first_invalid_id [] = None"
| "first_invalid_id (i # is) =
     (let validation = MessageId i
      in if ok validation then first_invalid_id is else Some (vr_message validation))"

definition ValidateMessageIds :: "messageId list \<Rightarrow> string option" where
  "ValidateMessageIds message_ids =
     (if message_ids = [] then Some ''message_ids is empty''
      else if length message_ids > 100 then Some ''message_ids exceeds maximum batch size''
      else first_invalid_id message_ids)"

definition GetAuthenticatedSession ::
  "'w ISessionManager \<Rightarrow> connectionId \<Rightarrow> 'w \<Rightarrow> ConnectionSession option" where
  "GetAuthenticatedSession session_manager conn_id w =
     (case im_GetSession session_manager conn_id w of
        None \<Rightarrow> None
      | Some session \<Rightarrow> if cs_authenticated session then Some session else None)"

section \<open>Operations\<close>

definition send_refused :: "ErrorCode \<Rightarrow> string \<Rightarrow> SendMessageResult" where
  "send_refused code message = SendMessageResult_default\<lparr>sr_code := code, sr_message := message\<rparr>"

text \<open>The message built from the request before it is stored.\<close>

definition pending_message :: "SendInputs \<Rightarrow> ConnectionSession \<Rightarrow> SendMessageRequest \<Rightarrow> MessageRecord" where
  "pending_message inputs session req =
     \<lparr>m_id = BuildMessageId (si_now inputs) (si_pid inputs) (cs_user_id session) (si_msg_seq inputs)
        (si_random inputs),
      m_conversation_id = BuildConversationId (cs_user_id session) (sm_to_user_id req),
      m_client_msg_id = sm_client_msg_id req, m_sequence = 0, m_from_user_id = cs_user_id session,
      m_to_user_id = sm_to_user_id req, m_content = sm_content req, m_status = kStored,
      m_created_at = si_now inputs, m_delivered_at = 0, m_read_at = 0\<rparr>"

text \<open>The deduplication cache names a message id; it counts only when the database has that message
  under the same client id.\<close>

definition find_cached ::
  "'w ChatService \<Rightarrow> userId \<Rightarrow> string \<Rightarrow> ('w, MessageRecord option) state" where
  "find_cached srv uid client_msg_id =
     (case ch_dedup_cache srv of
        None \<Rightarrow> ret None
      | Some cache \<Rightarrow> do {
          cached \<leftarrow> idc_Lookup cache uid client_msg_id;
          case cached of
            None \<Rightarrow> ret None
          | Some cached_message_id \<Rightarrow> do {
              existing \<leftarrow> imr_findMessageByClientMsgId (ch_message_repository srv) uid client_msg_id;
              case fm_message existing of
                Some m \<Rightarrow>
                  if fm_status existing = kOk \<and> m_id m = cached_message_id then ret (Some m)
                  else do { idc_Remove cache uid client_msg_id; ret None }
              | None \<Rightarrow> do { idc_Remove cache uid client_msg_id; ret None }
            }
        })"

definition store_message :: "'w ChatService \<Rightarrow> MessageRecord \<Rightarrow> ('w, CreateMessageResult) state" where
  "store_message srv pending = do {
     cached \<leftarrow> find_cached srv (m_from_user_id pending) (m_client_msg_id pending);
     case cached of
       Some m \<Rightarrow> ret \<lparr>cmr_status = kOk, cmr_message_id = m_id m, cmr_message = Some m, cmr_created = False\<rparr>
     | None \<Rightarrow> imr_createMessage (ch_message_repository srv) pending
   }"

text \<open>The local connections to push to and the preferred one, and the presence of the receiver.\<close>

definition route_push ::
  "'w ChatService \<Rightarrow> bool \<Rightarrow> userId \<Rightarrow>
   ('w, connectionId option \<times> connectionId list \<times> StoredUserPresence option) state" where
  "route_push srv can_attempt_push to_user_id = do {
     presence \<leftarrow> (case ch_global_session_store srv of
        None \<Rightarrow> ret None
      | Some store \<Rightarrow> if can_attempt_push then igs_GetPresence store to_user_id else ret None);
     if \<not> can_attempt_push then ret (None, [], presence)
     else case presence of
       Some p \<Rightarrow>
         if sp_server_id p = rc_server_id (ch_redis_config srv)
         then do {
           conn_ids \<leftarrow> gets (im_GetConnectionIds (ch_session_manager srv) to_user_id);
           ret (if sp_connection_id p \<in> set conn_ids
                then (Some (sp_connection_id p), conn_ids, presence) else (None, [], presence))
         }
         else ret (None, [], presence)
     | None \<Rightarrow> do {
         conn_ids \<leftarrow> gets (im_GetConnectionIds (ch_session_manager srv) to_user_id);
         ret (if conn_ids = [] then None else Some (hd conn_ids), conn_ids, presence)
       }
   }"

definition send_success ::
  "RedisConfig \<Rightarrow> timestamp \<Rightarrow> ConnectionSession \<Rightarrow> MessageRecord \<Rightarrow> bool \<Rightarrow>
   connectionId option \<times> connectionId list \<times> StoredUserPresence option \<Rightarrow> connectionId list \<Rightarrow>
   SendMessageResult" where
  "send_success config now session stored can_attempt_push route sync_conn_ids =
     (case route of (target_conn_id, local_target_conn_ids, presence) \<Rightarrow>
        let is_local = (case presence of None \<Rightarrow> True | Some p \<Rightarrow> sp_server_id p = rc_server_id config);
            conn_ids = (if can_attempt_push \<and> is_local then local_target_conn_ids else [])
        in \<lparr>sr_code = OK, sr_message = ''Success'', sr_from_user_id = cs_user_id session,
            sr_from_username = cs_username session, sr_to_user_id = m_to_user_id stored,
            sr_to_conn_id = (if conn_ids = [] then (case target_conn_id of None \<Rightarrow> 0 | Some c \<Rightarrow> c)
                             else hd conn_ids),
            sr_to_conn_ids = conn_ids, sr_sender_sync_conn_ids = sync_conn_ids,
            sr_remote_server_id =
              (case presence of
                 Some p \<Rightarrow> if can_attempt_push \<and> \<not> is_local then sp_server_id p else []
               | None \<Rightarrow> []),
            sr_remote_conn_id =
              (case presence of
                 Some p \<Rightarrow> if can_attempt_push \<and> \<not> is_local then sp_connection_id p else 0
               | None \<Rightarrow> 0),
            sr_content = m_content stored, sr_server_time = now, sr_message_id = m_id stored,
            sr_conversation_id = m_conversation_id stored, sr_sequence = m_sequence stored,
            sr_status = ToProtocolMessageStatus (m_status stored), sr_created_at = m_created_at stored,
            sr_retry_after_seconds = 0\<rparr>)"

text \<open>The part of \<^verbatim>\<open>sendMessage\<close> after the receiver was found.\<close>

definition send_to ::
  "'w ChatService \<Rightarrow> SendInputs \<Rightarrow> connectionId \<Rightarrow> ConnectionSession \<Rightarrow> SendMessageRequest \<Rightarrow>
   ('w, SendMessageResult) state" where
  "send_to srv inputs from_conn_id session req = do {
     let pending = pending_message inputs session req;
     create_result \<leftarrow> store_message srv pending;
     case cmr_message create_result of
       None \<Rightarrow> ret (send_refused (chat_MapRepositoryError (cmr_status create_result)) ''store message failed'')
     | Some stored \<Rightarrow>
         if cmr_status create_result \<noteq> kOk
         then ret (send_refused (chat_MapRepositoryError (cmr_status create_result)) ''store message failed'')
         else if \<not> IsSameIdempotentMessage pending stored
         then ret (send_refused IDEMPOTENCY_CONFLICT ''client_msg_id conflicts with existing message'')
         else do {
           _ \<leftarrow> (case ch_dedup_cache srv of
              None \<Rightarrow> ret ()
            | Some cache \<Rightarrow> idc_Save cache (cs_user_id session) (sm_client_msg_id req) (m_id stored));
           let can_attempt_push = cmr_created create_result \<or> m_status stored = kStored;
           route \<leftarrow> route_push srv can_attempt_push (m_to_user_id stored);
           sender_conn_ids \<leftarrow> gets (im_GetConnectionIds (ch_session_manager srv) (cs_user_id session));
           ret (send_success (ch_redis_config srv) (si_now inputs) session stored can_attempt_push route
             (if can_attempt_push then filter (\<lambda>c. c \<noteq> from_conn_id) sender_conn_ids else []))
         }
   }"

definition check_send_rate :: "'w ChatService \<Rightarrow> SendInputs \<Rightarrow> userId \<Rightarrow> ('w, RateLimitResult) state" where
  "check_send_rate srv inputs uid =
     (case ch_rate_limiter srv of
        None \<Rightarrow> ret allow_all
      | Some allow \<Rightarrow>
          allow (si_limiter_clock inputs) ''send'' (int_to_string uid)
            (rc_send_rate_limit (ch_redis_config srv)) (rc_send_rate_window_seconds (ch_redis_config srv)))"

definition sendMessage ::
  "'w ChatService \<Rightarrow> SendInputs \<Rightarrow> connectionId \<Rightarrow> SendMessageRequest \<Rightarrow> ('w, SendMessageResult) state" where
  "sendMessage srv inputs from_conn_id req =
     (let content_validation = MessageContent (sm_content req);
          client_id_validation = ClientMessageId (sm_client_msg_id req)
      in if \<not> ok content_validation
      then ret (send_refused
             (if length (sm_content req) > kMessageMaxBytes then MESSAGE_TOO_LONG else INVALID_PARAM)
             (vr_message content_validation))
      else if \<not> ok client_id_validation
      then ret (send_refused INVALID_PARAM (vr_message client_id_validation))
      else if sm_to_user_id req \<le> 0
      then ret (send_refused INVALID_PARAM ''to_user_id must be greater than 0'')
      else do {
        from_session \<leftarrow> gets (im_GetSession (ch_session_manager srv) from_conn_id);
        case from_session of
          None \<Rightarrow> ret (send_refused NOT_LOGGED_IN ''User not logged in'')
        | Some session \<Rightarrow>
            if \<not> cs_authenticated session then ret (send_refused NOT_LOGGED_IN ''User not logged in'')
            else if sm_to_user_id req = cs_user_id session
            then ret (send_refused CANNOT_SEND_TO_SELF ''Cannot send message to yourself'')
            else do {
              limit \<leftarrow> check_send_rate srv inputs (cs_user_id session);
              if \<not> rl_allowed limit
              then ret ((send_refused RATE_LIMITED ''send message rate limit exceeded'')
                     \<lparr>sr_retry_after_seconds := rl_retry_after_seconds limit\<rparr>)
              else do {
                target_user \<leftarrow> iu_findById (ch_user_repository srv) (sm_to_user_id req);
                if fu_status target_user = kNotFound \<or> (fu_status target_user = kOk \<and> fu_user target_user = None)
                then ret (send_refused USER_NOT_FOUND ''target user not found'')
                else if fu_status target_user \<noteq> kOk
                then ret (send_refused (chat_MapRepositoryError (fu_status target_user))
                       ''query target user failed'')
                else send_to srv inputs from_conn_id session req
              }
            }
      })"

definition publishRemotePush :: "'w ChatService \<Rightarrow> SendMessageResult \<Rightarrow> string \<Rightarrow> ('w, bool) state" where
  "publishRemotePush srv result payload =
     (case ch_remote_push_publisher srv of
        None \<Rightarrow> ret False
      | Some publish \<Rightarrow>
          if sr_remote_server_id result = [] \<or> sr_remote_conn_id result = 0 \<or> sr_message_id result = [] \<or>
             payload = []
          then ret False
          else publish (sr_remote_server_id result)
            \<lparr>rpe_event_id = sr_message_id result, rpe_message_id = sr_message_id result,
             rpe_from_user_id = sr_from_user_id result, rpe_to_user_id = sr_to_user_id result,
             rpe_target_connection_id = sr_remote_conn_id result, rpe_payload = payload\<rparr>)"


definition pull_refused :: "ErrorCode \<Rightarrow> string \<Rightarrow> PullOfflineMessagesResult" where
  "pull_refused code message =
     \<lparr>po_code = code, po_message = message, po_messages = [], po_has_more = False\<rparr>"

definition offline_message :: "MessageRecord \<Rightarrow> OfflineMessage" where
  "offline_message m =
     \<lparr>om_message_id = m_id m, om_conversation_id = m_conversation_id m, om_sequence = m_sequence m,
      om_from_user_id = m_from_user_id m, om_to_user_id = m_to_user_id m, om_content = m_content m,
      om_created_at = m_created_at m, om_status = ToProtocolMessageStatus (m_status m)\<rparr>"

definition pullOfflineMessages ::
  "'w ChatService \<Rightarrow> connectionId \<Rightarrow> PullOfflineMessagesRequest \<Rightarrow> ('w, PullOfflineMessagesResult) state" where
  "pullOfflineMessages srv from_conn_id req = do {
     from_session \<leftarrow> gets (im_GetSession (ch_session_manager srv) from_conn_id);
     case from_session of
       None \<Rightarrow> ret (pull_refused NOT_LOGGED_IN ''User not logged in'')
     | Some session \<Rightarrow>
         if \<not> cs_authenticated session then ret (pull_refused NOT_LOGGED_IN ''User not logged in'')
         else if pr_before_message_id req \<noteq> []
         then ret (pull_refused INVALID_PARAM ''before_message_id is not supported'')
         else if pr_limit req \<le> 0 \<or> pr_limit req > kMaxPullOfflineLimit
         then ret (pull_refused INVALID_PARAM ''limit must be between 1 and 100'')
         else if \<not> ok (Cursor (pr_since_message_id req))
         then ret (pull_refused INVALID_PARAM (vr_message (Cursor (pr_since_message_id req))))
         else do {
           list_result \<leftarrow> imr_listOfflineMessages (ch_message_repository srv) (cs_user_id session)
             (pr_limit req) (pr_since_message_id req);
           ret (if lom_status list_result \<noteq> kOk
                then pull_refused (chat_MapRepositoryError (lom_status list_result))
                       ''list offline messages failed''
                else \<lparr>po_code = OK, po_message = ''Success'',
                      po_messages = map offline_message (lom_messages list_result),
                      po_has_more = lom_has_more list_result\<rparr>)
         }
   }"

definition state_refused :: "ErrorCode \<Rightarrow> string \<Rightarrow> MessageStateUpdateResult" where
  "state_refused code message =
     \<lparr>su_code = code, su_message = message, su_message_ids = [], su_affected_rows = 0\<rparr>"

text \<open>\<^verbatim>\<open>acknowledgeMessages\<close> and \<^verbatim>\<open>markMessagesRead\<close> differ in the repository operation and in one
  message.\<close>

definition update_message_state ::
  "'w ChatService \<Rightarrow> (userId \<Rightarrow> messageId list \<Rightarrow> ('w, MarkResult) state) \<Rightarrow> string \<Rightarrow> connectionId \<Rightarrow>
   messageId list \<Rightarrow> ('w, MessageStateUpdateResult) state" where
  "update_message_state srv mark failure conn_id message_ids = do {
     session \<leftarrow> gets (GetAuthenticatedSession (ch_session_manager srv) conn_id);
     case session of
       None \<Rightarrow> ret (state_refused NOT_LOGGED_IN ''User not logged in'')
     | Some s \<Rightarrow>
         (case ValidateMessageIds message_ids of
            Some validation_error \<Rightarrow> ret (state_refused INVALID_PARAM validation_error)
          | None \<Rightarrow> do {
              mark_result \<leftarrow> mark (cs_user_id s) message_ids;
              ret (if mk_status mark_result \<noteq> kOk
                   then state_refused (chat_MapRepositoryError (mk_status mark_result)) failure
                   else \<lparr>su_code = OK, su_message = ''Success'', su_message_ids = message_ids,
                         su_affected_rows = mk_affected_rows mark_result\<rparr>)
            })
   }"

definition acknowledgeMessages ::
  "'w ChatService \<Rightarrow> timestamp \<Rightarrow> connectionId \<Rightarrow> MessageAckRequest \<Rightarrow> ('w, MessageStateUpdateResult) state" where
  "acknowledgeMessages srv now conn_id req =
     update_message_state srv (imr_markDelivered (ch_message_repository srv) now)
       ''mark messages delivered failed'' conn_id (ma_message_ids req)"

definition markMessagesRead ::
  "'w ChatService \<Rightarrow> timestamp \<Rightarrow> connectionId \<Rightarrow> MarkMessageReadRequest \<Rightarrow>
   ('w, MessageStateUpdateResult) state" where
  "markMessagesRead srv now conn_id req =
     update_message_state srv (imr_markRead (ch_message_repository srv) now)
       ''mark messages read failed'' conn_id (mr_message_ids req)"

definition markMessagesDelivered ::
  "'w ChatService \<Rightarrow> timestamp \<Rightarrow> userId \<Rightarrow> messageId list \<Rightarrow> ('w, unit) state" where
  "markMessagesDelivered srv now user_id message_ids =
     (if user_id \<le> 0 \<or> message_ids = [] then ret ()
      else if list_ex (\<lambda>i. \<not> ok (MessageId i)) message_ids then ret ()
      else do {
        _ \<leftarrow> imr_markDelivered (ch_message_repository srv) now user_id message_ids;
        ret ()
      })"

section \<open>Generated identifiers\<close>

lemma length_BuildMessageId [simp]: "length (BuildMessageId now pid uid seq rnd) = 36"
  by (simp add: BuildMessageId_def Let_def)

lemma ok_BuildMessageId [simp]: "ok (MessageId (BuildMessageId now pid uid seq rnd))"
proof -
  have "isalnum (CHR ''m'')" "isalnum (CHR ''s'')" "isalnum (CHR ''g'')"
    by (simp_all add: isalnum_def is_digit_def byte_def of_char_def)
  moreover have "list_all isalnum (hex16 x)" for x
    using hex16_digits [of _ x] by (simp add: list_all_iff)
  then have "list_all (\<lambda>ch. isalnum ch \<or> ch = CHR ''_'' \<or> ch = CHR ''-'') (hex16 x)" for x
    by (rule list.pred_mono_strong) simp
  ultimately have "IsValidIdentifier (BuildMessageId now pid uid seq rnd)"
    by (simp add: IsValidIdentifier_def BuildMessageId_def Let_def)
  moreover have "BuildMessageId now pid uid seq rnd \<noteq> []"
    by (simp add: BuildMessageId_def)
  ultimately show ?thesis
    by (simp add: MessageId_def ok_RequiredIdentifier kIdMaxLength_def)
qed

text \<open>Laws of exclusive or on words.\<close>

lemma xor_cancel: "(a :: 64 word) XOR x = a XOR y \<longleftrightarrow> x = y"
  by (auto simp: bit_eq_iff bit_xor_iff)


section \<open>What the service relies on\<close>

locale chat_backend =
  messages: message_store "ch_message_repository srv" inv later rows key +
  users: user_directory "ch_user_repository srv" inv later users key +
  registry: session_registry "ch_session_manager srv" inv sess conns
  for srv :: "'w ChatService"
    and inv :: "'w \<Rightarrow> bool"
    and later :: "'w \<Rightarrow> 'w \<Rightarrow> bool"
    and rows :: "'w \<Rightarrow> MessageRow list"
    and key :: "'w \<Rightarrow> string \<Rightarrow> string"
    and users :: "'w \<Rightarrow> UserRecord list"
    and sess :: "'w \<Rightarrow> connectionId \<rightharpoonup> ConnectionSession"
    and conns :: "'w \<Rightarrow> userId \<Rightarrow> connectionId list" +
  assumes limiter: "ch_rate_limiter srv = Some allow \<Longrightarrow>
      assured inv later (allow clock kind identity limit window)"
    and dedup_lookup: "ch_dedup_cache srv = Some cache \<Longrightarrow> assured inv later (idc_Lookup cache uid cid)"
    and dedup_save: "ch_dedup_cache srv = Some cache \<Longrightarrow> assured inv later (idc_Save cache uid cid mid)"
    and dedup_remove: "ch_dedup_cache srv = Some cache \<Longrightarrow> assured inv later (idc_Remove cache uid cid)"
    and presence: "ch_global_session_store srv = Some store \<Longrightarrow> assured inv later (igs_GetPresence store uid)"

sublocale chat_backend \<subseteq> keeps: preorder_guarantee inv later
  by unfold_locales (auto intro: messages.later_refl messages.later_trans)

text \<open>The row of the database a successful send vouches for.\<close>

definition sent_row :: "ConnectionSession \<Rightarrow> SendMessageRequest \<Rightarrow> SendMessageResult \<Rightarrow> MessageRow \<Rightarrow> bool" where
  "sent_row session req res row \<longleftrightarrow>
     r_id row = sr_message_id res \<and> r_conversation_id row = sr_conversation_id res \<and>
     r_sequence row = sr_sequence res \<and> r_created_at row = sr_created_at res \<and>
     r_from_user_id row = cs_user_id session \<and> r_to_user_id row = sm_to_user_id req \<and>
     r_client_msg_id row = sm_client_msg_id req \<and> r_content row = sm_content req \<and>
     sr_conversation_id res = BuildConversationId (cs_user_id session) (sm_to_user_id req)"

definition no_delivery :: "SendMessageResult \<Rightarrow> bool" where
  "no_delivery res \<longleftrightarrow>
     sr_message_id res = [] \<and> sr_to_conn_ids res = [] \<and> sr_to_conn_id res = 0 \<and>
     sr_sender_sync_conn_ids res = [] \<and> sr_remote_server_id res = [] \<and> sr_remote_conn_id res = 0"

lemma send_refused_simps [simp]:
  "sr_code (send_refused code message) = code" "no_delivery (send_refused code message)"
  "no_delivery ((send_refused code message)\<lparr>sr_retry_after_seconds := n\<rparr>)"
  by (simp_all add: send_refused_def SendMessageResult_default_def no_delivery_def)

lemma mapped_errors [simp]: "chat_MapRepositoryError status \<noteq> OK"
  by (cases status) (simp_all add: chat_MapRepositoryError_def)

context chat_backend
begin

lemma later_sent_row:
  assumes "later w w'" "row \<in> set (rows w)" "sent_row session req res row"
  shows "\<exists>row' \<in> set (rows w'). sent_row session req res row'"
  using messages.later_rows [OF assms(1,2)] assms(3) by (auto simp: sent_row_def same_message_def)

lemma wp_assured: "assured inv later m \<Longrightarrow> inv w \<Longrightarrow> wp m (\<lambda>_ w'. inv w' \<and> later w w') w"
  by (simp add: assured_def)

definition stored_post :: "MessageRecord \<Rightarrow> 'w \<Rightarrow> CreateMessageResult \<Rightarrow> 'w \<Rightarrow> bool" where
  "stored_post m w r w' \<longleftrightarrow> inv w' \<and> later w w' \<and>
     (cmr_status r = kOk \<longrightarrow> (\<exists>s row. cmr_message r = Some s \<and> row \<in> set (rows w') \<and> holds row s))"

lemma find_cached_wp:
  assumes "inv w"
  shows "wp (find_cached srv uid cid)
    (\<lambda>r w'. inv w' \<and> later w w' \<and>
       (case r of None \<Rightarrow> True | Some s \<Rightarrow> \<exists>row \<in> set (rows w'). holds row s)) w"
proof (cases "ch_dedup_cache srv")
  case None
  then show ?thesis
    using assms messages.later_refl by (simp add: find_cached_def wp_ret)
next
  case (Some cache)
  have drop: "wp (do { idc_Remove cache uid cid; ret None })
      (\<lambda>r w'. inv w' \<and> later w w' \<and>
        (case r of None \<Rightarrow> True | Some s \<Rightarrow> \<exists>row \<in> set (rows w'). holds row s)) w2"
    if "inv w2" "later w w2" for w2
    by (rule wp_bind, rule wp_mono [OF wp_assured [OF dedup_remove [OF Some] that(1)]])
      (auto intro!: wp_ret intro: messages.later_trans [OF that(2)])
  have look: "wp (imr_findMessageByClientMsgId (ch_message_repository srv) uid cid)
      (\<lambda>fres w'. inv w' \<and> later w w' \<and>
      (case fm_message fres of None \<Rightarrow> True | Some s \<Rightarrow> \<exists>row \<in> set (rows w'). holds row s)) w1"
    if "inv w1" "later w w1" for w1
    by (rule wpI, drule messages.find_result [OF that(1)])
      (auto intro: messages.later_trans [OF that(2)] split: option.splits)
  show ?thesis
    unfolding find_cached_def Some option.case
  proof (rule wp_bind, rule wp_mono [OF wp_assured [OF dedup_lookup [OF Some] assms]], goal_cases)
    case (1 cached w1)
    then have w1: "inv w1" "later w w1"
      by auto
    show ?case
    proof (rule wp_case_option, goal_cases)
      case 1
      show ?case using w1 by (simp add: wp_ret)
    next
      case (2 mid)
      show ?case
      proof (rule wp_bind, rule wp_mono [OF look [OF w1]], goal_cases)
        case (1 fres w2)
        then show ?case
          using drop by (auto intro!: wp_ret wp_if split: option.splits)
      qed
    qed
  qed
qed

lemma store_message_wp: "inv w \<Longrightarrow> wp (store_message srv m) (stored_post m w) w"
  unfolding store_message_def
proof (rule wp_bind, rule wp_mono [OF find_cached_wp], assumption, goal_cases)
  case (1 cached w1)
  then have w1: "inv w1" "later w w1"
    by auto
  show ?case
  proof (rule wp_case_option, goal_cases)
    case 1
    show ?case
      by (rule wpI) (use w1 messages.create_keeps [OF w1(1), of m] messages.create_stored [OF w1(1), of m]
        in \<open>force simp: stored_post_def intro: messages.later_trans\<close>)
  next
    case (2 s)
    then show ?case
      using 1 w1 by (auto simp: stored_post_def intro!: wp_ret)
  qed
qed

end


context chat_backend
begin

lemma route_push_wp:
  assumes "inv w"
  shows "wp (route_push srv can uid)
    (\<lambda>(target, ids, p) w'. inv w' \<and> later w w' \<and> (ids = [] \<or> ids = conns w' uid) \<and>
       (\<forall>c. target = Some c \<longrightarrow> c \<in> set ids)) w"
proof -
  have 1: "wp (case ch_global_session_store srv of None \<Rightarrow> ret None
      | Some store \<Rightarrow> if can then igs_GetPresence store uid else ret None) (\<lambda>_ w'. inv w' \<and> later w w') w"
    using assms by (cases "ch_global_session_store srv")
      (auto intro!: wp_ret intro: messages.later_refl wp_assured [OF presence])
  show ?thesis
    unfolding route_push_def
    by (rule wp_bind, rule wp_mono [OF 1])
      (auto intro!: wp_intros simp: registry.get_ids split: option.splits if_splits)
qed

definition sent_post ::
  "connectionId \<Rightarrow> ConnectionSession \<Rightarrow> SendMessageRequest \<Rightarrow> 'w \<Rightarrow> SendMessageResult \<Rightarrow> 'w \<Rightarrow> bool" where
  "sent_post conn session req w res w' \<longleftrightarrow> inv w' \<and> later w w' \<and>
     (if sr_code res = OK
      then (\<exists>row \<in> set (rows w'). sent_row session req res row) \<and>
        sr_from_user_id res = cs_user_id session \<and> sr_to_user_id res = sm_to_user_id req \<and>
        sr_content res = sm_content req \<and>
        (sr_to_conn_ids res = [] \<or> sr_to_conn_ids res = conns w' (sm_to_user_id req)) \<and>
        (sr_sender_sync_conn_ids res = [] \<or>
         sr_sender_sync_conn_ids res = filter (\<lambda>c. c \<noteq> conn) (conns w' (cs_user_id session)))
      else no_delivery res)"

lemma send_to_wp:
  assumes "inv w"
  shows "wp (send_to srv inputs conn session req) (sent_post conn session req w) w"
  unfolding send_to_def Let_def
proof (rule wp_bind, rule wp_mono [OF store_message_wp [OF assms]], goal_cases)
  case (1 created w1)
  then have w1: "inv w1" "later w w1"
    by (auto simp: stored_post_def)
  have refused: "wp (ret (send_refused code message)) (sent_post conn session req w) w1"
    if "code \<noteq> OK" for code message
    using w1 that by (auto intro!: wp_ret simp: sent_post_def)
  show ?case
  proof (rule wp_case_option, goal_cases)
    case 1
    show ?case by (rule refused) simp
  next
    case (2 s)
    show ?case
    proof (rule wp_if, goal_cases)
      case 1
      show ?case by (rule refused) simp
    next
      case ok: 2
      show ?case
      proof (rule wp_if, goal_cases)
        case 1
        show ?case by (rule refused) simp
      next
        case same: 2
        obtain row where row: "row \<in> set (rows w1)" "holds row s"
          using 1 2 ok by (auto simp: stored_post_def)
        have save: "wp (case ch_dedup_cache srv of None \<Rightarrow> ret ()
            | Some cache \<Rightarrow> idc_Save cache (cs_user_id session) (sm_client_msg_id req) (m_id s))
            (\<lambda>_ w'. inv w' \<and> later w1 w') w1"
          using w1(1) by (cases "ch_dedup_cache srv")
            (auto intro!: wp_ret intro: messages.later_refl wp_assured [OF dedup_save])
        show ?case
        proof (rule wp_bind, rule wp_mono [OF save], rule wp_bind, rule wp_mono [OF route_push_wp], goal_cases)
          case (2 x w2 route w3)
          obtain target ids p where route: "route = (target, ids, p)"
            by (cases route) auto
          then have w3: "inv w3" "later w1 w3" "ids = [] \<or> ids = conns w3 (sm_to_user_id req)"
            using 2 same messages.later_trans
            by (auto simp: IsSameIdempotentMessage_def pending_message_def)
          obtain row' where row': "row' \<in> set (rows w3)" "same_message row row'"
            using messages.later_rows [OF w3(2) row(1)] by blast
          have "later w w3"
            using w1(2) w3(2) by (rule messages.later_trans)
          then show ?case
            using w3 row' row(2) same route
            by (auto intro!: wp_bind wp_gets wp_ret bexI [of _ row'] simp: sent_post_def send_success_def Let_def
                sent_row_def IsSameIdempotentMessage_def pending_message_def holds_def same_message_def
                registry.get_ids split: option.splits)
        qed simp
      qed
    qed
  qed
qed

end


definition send_checked :: "ConnectionSession \<Rightarrow> SendMessageRequest \<Rightarrow> bool" where
  "send_checked session req \<longleftrightarrow> cs_authenticated session \<and> ok (MessageContent (sm_content req)) \<and>
     ok (ClientMessageId (sm_client_msg_id req)) \<and> 0 < sm_to_user_id req \<and>
     sm_to_user_id req \<noteq> cs_user_id session"

context chat_backend
begin

definition send_post :: "connectionId \<Rightarrow> SendMessageRequest \<Rightarrow> 'w \<Rightarrow> SendMessageResult \<Rightarrow> 'w \<Rightarrow> bool" where
  "send_post conn req w res w' \<longleftrightarrow> inv w' \<and> later w w' \<and>
     (if sr_code res = OK
      then (\<exists>session. sess w conn = Some session \<and> send_checked session req \<and>
        (\<exists>u \<in> set (users w'). u_id u = sm_to_user_id req) \<and>
        (\<exists>w2. sent_post conn session req w2 res w'))
      else no_delivery res)"

lemma send_post_refused: "inv w' \<Longrightarrow> later w w' \<Longrightarrow> code \<noteq> OK \<Longrightarrow>
  wp (ret (send_refused code message)) (send_post conn req w) w'"
  by (auto intro!: wp_ret simp: send_post_def)

lemma check_rate_wp: "inv w \<Longrightarrow> wp (check_send_rate srv inputs uid) (\<lambda>_ w'. inv w' \<and> later w w') w"
  unfolding check_send_rate_def
  by (cases "ch_rate_limiter srv")
    (auto intro!: wp_ret intro: messages.later_refl wp_assured [OF limiter])

lemma send_after_lookup:
  assumes "inv w1" "later w w1" "sess w conn = Some session" "send_checked session req"
  shows "wp (do {
      target_user \<leftarrow> iu_findById (ch_user_repository srv) (sm_to_user_id req);
      if fu_status target_user = kNotFound \<or> (fu_status target_user = kOk \<and> fu_user target_user = None)
      then ret (send_refused USER_NOT_FOUND ''target user not found'')
      else if fu_status target_user \<noteq> kOk
      then ret (send_refused (chat_MapRepositoryError (fu_status target_user)) ''query target user failed'')
      else send_to srv inputs conn session req }) (send_post conn req w) w1"
proof (rule wp_bind, rule wpI, goal_cases)
  case (1 target w2)
  have w2: "inv w2" "later w w2"
    using users.id_keeps [OF assms(1) 1] assms(2) messages.later_trans by blast+
  have found: "case fu_user target of None \<Rightarrow> fu_status target \<noteq> kOk
      | Some u \<Rightarrow> fu_status target = kOk \<and> u \<in> set (users w2) \<and> u_id u = sm_to_user_id req"
    by (rule users.id_found [OF assms(1) 1])
  show ?case
  proof (intro wp_if send_post_refused w2 mapped_errors, goal_cases)
    case 2
    then obtain u where u: "u \<in> set (users w2)" "u_id u = sm_to_user_id req"
      using found by (auto split: option.splits)
    show ?case
    proof (rule wp_mono [OF send_to_wp [OF w2(1)]], goal_cases)
      case (1 res w3)
      then have w3: "inv w3" "later w2 w3"
        by (auto simp: sent_post_def)
      have "\<exists>u \<in> set (users w3). u_id u = sm_to_user_id req"
        using users.later_users [OF w3(2) u(1)] u(2) by auto
      then show ?case
        using 1 w3 assms(3,4) messages.later_trans [OF w2(2) w3(2)]
        by (auto simp: send_post_def sent_post_def)
    qed
  qed simp_all
qed

lemma sendMessage_wp: "inv w \<Longrightarrow> wp (sendMessage srv inputs conn req) (send_post conn req w) w"
  unfolding sendMessage_def Let_def
proof (intro wp_if send_post_refused wp_bind wp_gets wp_case_option, simp_all add: messages.later_refl registry.get_session,
    goal_cases)
  case (1 session)
  then have checked: "send_checked session req"
    by (simp add: send_checked_def)
  show ?case
  proof (rule wp_mono [OF check_rate_wp], goal_cases)
    case (2 limit w1)
    then show ?case
      using send_after_lookup [OF _ _ _ checked] 1
      by (auto intro!: wp_if intro: wp_ret simp: send_post_def)
  qed (use 1 in simp)
qed

end


context chat_backend
begin

lemma sendMessage_sent:
  assumes "inv w" "run_state (sendMessage srv inputs conn req) w = (res, w')" "sr_code res = OK"
  obtains session row where "sess w conn = Some session" "send_checked session req"
    "row \<in> set (rows w')" "sent_row session req res row"
  using wpD [OF sendMessage_wp [OF assms(1)] assms(2)] assms(3)
  by (auto simp: send_post_def sent_post_def)

lemma resend_same_message:
  assumes first: "inv w" "run_state (sendMessage srv inputs1 conn1 req1) w = (res1, w1)" "sr_code res1 = OK"
    and between: "later w1 w2" "inv w2"
    and again: "run_state (sendMessage srv inputs2 conn2 req2) w2 = (res2, w3)" "sr_code res2 = OK"
    and same: "sess w conn1 = Some s1" "sess w2 conn2 = Some s2" "cs_user_id s1 = cs_user_id s2"
      "sm_client_msg_id req1 = sm_client_msg_id req2"
  shows "sr_message_id res2 = sr_message_id res1 \<and> sr_sequence res2 = sr_sequence res1 \<and>
    sr_created_at res2 = sr_created_at res1 \<and> sm_to_user_id req2 = sm_to_user_id req1 \<and>
    sm_content req2 = sm_content req1"
proof -
  obtain row1 where row1: "row1 \<in> set (rows w1)" "sent_row s1 req1 res1 row1"
    using sendMessage_sent [OF first] same(1) by (metis option.inject)
  obtain row2 where row2: "row2 \<in> set (rows w3)" "sent_row s2 req2 res2 row2"
    using sendMessage_sent [OF between(2) again] same(2) by (metis option.inject)
  have w3: "inv w3" "later w2 w3"
    using wpD [OF sendMessage_wp [OF between(2)] again(1)] by (auto simp: send_post_def)
  obtain row where row: "row \<in> set (rows w3)" "same_message row1 row"
    using messages.later_rows [OF messages.later_trans [OF between(1) w3(2)] row1(1)] by blast
  have "row = row2"
    using messages.unique_client_id [OF w3(1) row(1) row2(1)] row(2) row1(2) row2(2) same
    by (auto simp: sent_row_def same_message_def)
  then show ?thesis
    using row(2) row1(2) row2(2) by (auto simp: sent_row_def same_message_def)
qed

definition pull_post ::
  "connectionId \<Rightarrow> PullOfflineMessagesRequest \<Rightarrow> 'w \<Rightarrow> PullOfflineMessagesResult \<Rightarrow> 'w \<Rightarrow> bool" where
  "pull_post conn req w res w' \<longleftrightarrow> inv w' \<and> later w w' \<and>
    (if po_code res = OK
     then \<exists>session. sess w conn = Some session \<and> cs_authenticated session \<and>
       1 \<le> pr_limit req \<and> pr_limit req \<le> kMaxPullOfflineLimit \<and>
       (\<forall>m \<in> set (po_messages res). om_to_user_id m = cs_user_id session \<and> om_status m = 0 \<and>
          (\<exists>row \<in> set (rows w'). r_id row = om_message_id m \<and> r_content row = om_content m \<and>
             r_from_user_id row = om_from_user_id m \<and> r_sequence row = om_sequence m))
     else po_messages res = [] \<and> \<not> po_has_more res)"

lemma pull_refused_post: "inv w \<Longrightarrow> code \<noteq> OK \<Longrightarrow> wp (ret (pull_refused code message)) (pull_post conn req w) w"
  by (auto intro!: wp_ret simp: pull_post_def pull_refused_def messages.later_refl)

lemma pullOfflineMessages_wp:
  assumes "inv w"
  shows "wp (pullOfflineMessages srv conn req) (pull_post conn req w) w"
  unfolding pullOfflineMessages_def
proof (rule wp_bind, rule wp_gets, intro wp_case_option wp_if pull_refused_post assms,
    simp_all only: ErrorCode.distinct simp_thms, goal_cases)
  case hyps: (1 session)
  show ?case
  proof (rule wp_bind, rule wpI, rule wp_ret, goal_cases)
    case (1 r w1)
    have "inv w1" "later w w1"
      using messages.list_keeps [OF assms 1] by auto
    moreover have "om_to_user_id m = cs_user_id session \<and> om_status m = 0 \<and>
        (\<exists>row \<in> set (rows w1). r_id row = om_message_id m \<and> r_content row = om_content m \<and>
           r_from_user_id row = om_from_user_id m \<and> r_sequence row = om_sequence m)"
      if "lom_status r = kOk" "m \<in> set (map offline_message (lom_messages r))" for m
      using messages.list_own [OF assms 1 that(1)] that(2)
      by (fastforce simp: offline_message_def ToProtocolMessageStatus_def holds_def)
    ultimately show ?case
      using hyps by (auto simp: pull_post_def pull_refused_def registry.get_session)
  qed
qed

end

end
