(* ===== verification/PasswordHasher.thy ===== *)
theory PasswordHasher
  imports Text
begin

text \<open>
  Password hashing (\<^verbatim>\<open>src/src/security/password_hasher.cc\<close>): new hashes are bcrypt, hashes of the form the
  server stored before (a decimal \<^verbatim>\<open>std::hash\<close> value) still verify and are marked for an upgrade.
  \<^verbatim>\<open>libcrypt\<close> is a parameter: \<^verbatim>\<open>crypt_r\<close> and \<^verbatim>\<open>crypt_gensalt_rn\<close> as functions that may fail. The
  outcomes of successive \<^verbatim>\<open>getrandom\<close> calls are a list; a call beyond its end fails. The machine is
  little-endian with 64-bit \<^verbatim>\<open>size_t\<close>, as \<^verbatim>\<open>memcpy\<close> of a block assumes.
\<close>

unbundle bit_operations_syntax

section \<open>Random bytes\<close>

datatype getrandom_result = GotBytes string | Interrupted | RandomFailed

text \<open>The loop of \<^verbatim>\<open>FillRandom\<close>: the bytes still needed, and the outcomes to come. An interrupted call is
  repeated.\<close>

fun FillRandom :: "nat \<Rightarrow> getrandom_result list \<Rightarrow> string option" where
  "FillRandom 0 outcomes = Some []"
| "FillRandom (Suc n) [] = None"
| "FillRandom (Suc n) (GotBytes bs # outcomes) =
     (if bs = [] then None
      else map_option ((@) (take (Suc n) bs)) (FillRandom (Suc n - length bs) outcomes))"
| "FillRandom (Suc n) (Interrupted # outcomes) = FillRandom (Suc n) outcomes"
| "FillRandom (Suc n) (RandomFailed # outcomes) = None"

section \<open>Hash formats\<close>

definition kBcryptHashLength :: nat where
  "kBcryptHashLength = 60"

definition kBcryptSaltBytes :: nat where
  "kBcryptSaltBytes = 16"

definition HasEmbeddedNul :: "string \<Rightarrow> bool" where
  "HasEmbeddedNul value \<longleftrightarrow> list_ex (\<lambda>c. byte c = 0) value"

definition IsBcryptHash :: "string \<Rightarrow> bool" where
  "IsBcryptHash encoded_hash \<longleftrightarrow>
     length encoded_hash = kBcryptHashLength \<and>
     (take 4 encoded_hash = ''$2a$'' \<or> take 4 encoded_hash = ''$2b$'' \<or> take 4 encoded_hash = ''$2y$'')"

definition IsLegacyDecimalHash :: "string \<Rightarrow> bool" where
  "IsLegacyDecimalHash encoded_hash \<longleftrightarrow>
     \<not> (encoded_hash = [] \<or> length encoded_hash > 20) \<and> list_all is_digit encoded_hash"

definition byte_word :: "char \<Rightarrow> 8 word" where
  "byte_word c = word_of_nat (byte c)"

definition ConstantTimeEquals :: "string \<Rightarrow> string \<Rightarrow> bool" where
  "ConstantTimeEquals left right \<longleftrightarrow>
     length left = length right \<and>
     fold (\<lambda>(l, r) difference. difference OR (byte_word l XOR byte_word r)) (zip left right) 0 = 0"

section \<open>The legacy hash\<close>

definition kMultiplier :: "64 word" where
  "kMultiplier = 0xc6a4a7935bd1e995"

definition kSeed :: "64 word" where
  "kSeed = 0xc70f6907"

definition kShift :: nat where
  "kShift = 47"

text \<open>Eight bytes copied into an integer.\<close>

fun load_bytes :: "string \<Rightarrow> 64 word" where
  "load_bytes [] = 0"
| "load_bytes (c # cs) = word_of_nat (byte c) + 256 * load_bytes cs"

definition mix_block :: "64 word \<Rightarrow> 64 word \<Rightarrow> 64 word" where
  "mix_block hash loaded =
     (let block = loaded * kMultiplier;
          block = block XOR drop_bit kShift block;
          block = block * kMultiplier
      in (hash XOR block) * kMultiplier)"

function mix_blocks :: "string \<Rightarrow> 64 word \<Rightarrow> string \<times> 64 word" where
  "mix_blocks data hash =
     (if length data \<ge> 8 then mix_blocks (drop 8 data) (mix_block hash (load_bytes (take 8 data)))
      else (data, hash))"
  by auto
termination
  by (relation "measure (\<lambda>(data, hash). length data)") auto

declare mix_blocks.simps [simp del]

text \<open>The fall-through of the switch adds the bytes from the last to the first.\<close>

definition mix_tail :: "string \<Rightarrow> 64 word \<Rightarrow> 64 word" where
  "mix_tail data hash =
     (if data = [] then hash
      else fold (\<lambda>i h. h XOR push_bit (8 * i) (word_of_nat (byte (data ! i)))) (rev [0..<length data]) hash *
        kMultiplier)"

definition LegacyLibstdcxxHash :: "string \<Rightarrow> 64 word" where
  "LegacyLibstdcxxHash password =
     (let hash = kSeed XOR (word_of_nat (length password) * kMultiplier);
          (data, hash) = mix_blocks password hash;
          hash = mix_tail data hash;
          hash = hash XOR drop_bit kShift hash;
          hash = hash * kMultiplier
      in hash XOR drop_bit kShift hash)"

definition LegacyHash :: "string \<Rightarrow> string" where
  "LegacyHash password = nat_to_string (unat (LegacyLibstdcxxHash password))"

section \<open>The hasher\<close>

record libcrypt =
  crypt_r :: "string \<Rightarrow> string \<Rightarrow> string option"
  crypt_gensalt_rn :: "string \<Rightarrow> nat \<Rightarrow> string \<Rightarrow> string option"

record IPasswordHasher =
  ph_Hash :: "getrandom_result list \<Rightarrow> string \<Rightarrow> string option"
  ph_Verify :: "string \<Rightarrow> string \<Rightarrow> bool"
  ph_NeedsRehash :: "string \<Rightarrow> bool"

definition Hash :: "libcrypt \<Rightarrow> nat \<Rightarrow> getrandom_result list \<Rightarrow> string \<Rightarrow> string option" where
  "Hash lib cost random password =
     (if password = [] \<or> length password > 72 \<or> HasEmbeddedNul password \<or> cost < 4 \<or> cost > 31 then None
      else case FillRandom kBcryptSaltBytes random of
        None \<Rightarrow> None
      | Some random_bytes \<Rightarrow>
          (case crypt_gensalt_rn lib ''$2b$'' cost random_bytes of
             None \<Rightarrow> None
           | Some setting \<Rightarrow>
               (case crypt_r lib password setting of
                  None \<Rightarrow> None
                | Some encoded \<Rightarrow> if IsBcryptHash encoded then Some encoded else None)))"

definition c_str :: "string \<Rightarrow> string" where
  "c_str s = takeWhile (\<lambda>c. byte c \<noteq> 0) s"

definition Verify :: "libcrypt \<Rightarrow> string \<Rightarrow> string \<Rightarrow> bool" where
  "Verify lib password encoded_hash =
     (if password = [] \<or> length password > 72 \<or> HasEmbeddedNul password then False
      else if IsLegacyDecimalHash encoded_hash then ConstantTimeEquals (LegacyHash password) encoded_hash
      else if \<not> IsBcryptHash encoded_hash then False
      else case crypt_r lib password (c_str encoded_hash) of
        None \<Rightarrow> False
      | Some candidate \<Rightarrow> ConstantTimeEquals candidate encoded_hash)"

text \<open>\<^verbatim>\<open>strtoul\<close> of a short text, \<^term>\<open>None\<close> when something is left unread.\<close>

definition strtoul_all :: "string \<Rightarrow> nat option" where
  "strtoul_all value =
     (let s = c_str value;
          (sign, body) = strtoll_sign (dropWhile isspace s);
          ds = takeWhile is_digit body;
          n = min (digits_value ds) (2 ^ 64 - 1)
      in if ds = [] then (if s = [] then Some 0 else None)
         else if dropWhile is_digit body \<noteq> [] then None
         else Some (if sign < 0 then wrap_uint64 (- int n) else n))"

definition NeedsRehash :: "nat \<Rightarrow> string \<Rightarrow> bool" where
  "NeedsRehash cost encoded_hash =
     (if \<not> IsBcryptHash encoded_hash then True
      else strtoul_all (take 2 (drop 4 encoded_hash)) \<noteq> Some cost)"

definition bcrypt_hasher_ops :: "libcrypt \<Rightarrow> nat \<Rightarrow> IPasswordHasher" where
  "bcrypt_hasher_ops lib cost =
     \<lparr>ph_Hash = Hash lib cost, ph_Verify = Verify lib, ph_NeedsRehash = NeedsRehash cost\<rparr>"


section \<open>Comparison and formats\<close>

lemma byte_word_inject [simp]: "byte_word c = byte_word d \<longleftrightarrow> c = d"
proof
  assume "byte_word c = byte_word d"
  then have "unat (byte_word c) = unat (byte_word d)"
    by simp
  then show "c = d"
    by (simp add: byte_word_def unsigned_of_nat take_bit_nat_eq_self)
qed simp

lemma or_eq_zero: "(a :: 8 word) OR b = 0 \<longleftrightarrow> a = 0 \<and> b = 0"
  by (auto simp: bit_eq_iff bit_or_iff)

lemma xor_eq_zero: "(a :: 8 word) XOR b = 0 \<longleftrightarrow> a = b"
  by (auto simp: bit_eq_iff bit_xor_iff)

lemma difference_zero:
  "fold (\<lambda>(l, r) difference. difference OR (byte_word l XOR byte_word r)) ps d = 0 \<longleftrightarrow>
   d = 0 \<and> (\<forall>(l, r) \<in> set ps. l = r)"
  by (induction ps arbitrary: d) (auto simp: or_eq_zero xor_eq_zero)

lemma ConstantTimeEquals_iff: "ConstantTimeEquals left right \<longleftrightarrow> left = right"
proof -
  have "length left = length right \<Longrightarrow> (\<forall>(l, r) \<in> set (zip left right). l = r) \<longleftrightarrow> left = right"
    by (induction left right rule: list_induct2) auto
  then show ?thesis
    unfolding ConstantTimeEquals_def difference_zero by auto
qed

lemma length_nat_to_string: "0 < k \<Longrightarrow> n < 10 ^ k \<Longrightarrow> length (nat_to_string n) \<le> k"
proof (induction n arbitrary: k rule: nat_to_string.induct)
  case (1 n)
  show ?case
  proof (cases "n < 10")
    case True
    then show ?thesis
      using "1.prems" by (subst nat_to_string.simps) simp
  next
    case False
    then obtain j where j: "k = Suc j" "0 < j"
      using "1.prems" by (cases k; cases "k - 1") auto
    have "n div 10 < 10 ^ j"
      using "1.prems"(2) j by (simp add: less_mult_imp_div_less mult.commute)
    then have "length (nat_to_string (n div 10)) \<le> j"
      using "1.IH" [OF False j(2)] by simp
    then show ?thesis
      using False j by (subst nat_to_string.simps) simp
  qed
qed

lemma legacy_hash_format: "IsLegacyDecimalHash (LegacyHash password)"
proof -
  have "unat (LegacyLibstdcxxHash password) < 2 ^ 64"
    using unsigned_less [of "LegacyLibstdcxxHash password"] by simp
  then have "unat (LegacyLibstdcxxHash password) < 10 ^ 20"
    by simp
  then show ?thesis
    using length_nat_to_string [of 20 "unat (LegacyLibstdcxxHash password)"] nat_to_string_digits
    by (simp add: IsLegacyDecimalHash_def LegacyHash_def list_all_iff)
qed

lemma legacy_not_bcrypt: "IsLegacyDecimalHash e \<Longrightarrow> \<not> IsBcryptHash e"
  by (auto simp: IsLegacyDecimalHash_def IsBcryptHash_def kBcryptHashLength_def)

lemma bcrypt_not_legacy: "IsBcryptHash e \<Longrightarrow> \<not> IsLegacyDecimalHash e"
  using legacy_not_bcrypt by blast

section \<open>Properties\<close>

definition two_digits :: "nat \<Rightarrow> string" where
  "two_digits n = [digit_char (n div 10), digit_char (n mod 10)]"

text \<open>What \<^verbatim>\<open>crypt(5)\<close> documents of \<^verbatim>\<open>libcrypt\<close>: a hash is a setting that reproduces it, hashes are texts
  without NUL bytes, and a bcrypt hash starts with the prefix and the two-digit cost of the setting it
  was made with.\<close>

definition crypt_documented :: "libcrypt \<Rightarrow> bool" where
  "crypt_documented lib \<longleftrightarrow>
     (\<forall>p s e. crypt_r lib p s = Some e \<longrightarrow> crypt_r lib p e = Some e \<and> \<not> HasEmbeddedNul e) \<and>
     (\<forall>cost r s p e. crypt_gensalt_rn lib ''$2b$'' cost r = Some s \<longrightarrow> crypt_r lib p s = Some e \<longrightarrow>
        take 7 e = ''$2b$'' @ two_digits cost @ ''$'')"

lemma c_str_id: "\<not> HasEmbeddedNul s \<Longrightarrow> c_str s = s"
  by (simp add: c_str_def HasEmbeddedNul_def list_ex_iff)

lemma strtoul_two_digits:
  assumes "n < 100"
  shows "strtoul_all (two_digits n) = Some n"
proof -
  have d: "is_digit (digit_char k)" "byte (digit_char k) \<noteq> 0" "\<not> isspace (digit_char k)"
    "digit_char k \<noteq> CHR ''-''" "digit_char k \<noteq> CHR ''+''" if "k < 10" for k
    using that byte_digit_char [OF that]
    by (auto simp: isspace_def byte_def of_char_def simp flip: byte_inject)
  have "n div 10 < 10" "n mod 10 < 10"
    using assms by auto
  note dd = d [OF this(1)] d [OF this(2)] this
  have "digits_value (two_digits n) = n"
    using dd by (simp add: two_digits_def digits_value_def)
  then show ?thesis
    using dd assms
    by (simp add: strtoul_all_def c_str_def two_digits_def strtoll_sign_def)
qed


lemma Hash_parts:
  assumes "Hash lib cost random password = Some e"
  obtains setting bytes where "crypt_gensalt_rn lib ''$2b$'' cost bytes = Some setting"
    "crypt_r lib password setting = Some e" "IsBcryptHash e" "password \<noteq> []" "length password \<le> 72"
    "\<not> HasEmbeddedNul password" "4 \<le> cost" "cost \<le> 31"
  using assms by (auto simp: Hash_def split: if_splits option.splits)

lemma password_hash_verifies:
  assumes "crypt_documented lib" "Hash lib cost random password = Some e"
  shows "Verify lib password e"
proof -
  obtain setting bytes where s: "crypt_gensalt_rn lib ''$2b$'' cost bytes = Some setting"
    "crypt_r lib password setting = Some e" "IsBcryptHash e" "password \<noteq> []" "length password \<le> 72"
    "\<not> HasEmbeddedNul password"
    using Hash_parts [OF assms(2)] .
  have "crypt_r lib password e = Some e" "\<not> HasEmbeddedNul e"
    using assms(1) s(2) unfolding crypt_documented_def by blast+
  then show ?thesis
    using s by (simp add: Verify_def bcrypt_not_legacy c_str_id ConstantTimeEquals_iff)
qed

text \<open>C24. A hash made for a password verifies that password and is not sent through another rehash, for
  every cost the hasher accepts, provided \<^verbatim>\<open>libcrypt\<close> behaves as documented.\<close>

theorem password_hash_roundtrip:
  assumes "crypt_documented lib" "Hash lib cost random password = Some e"
  shows "Verify lib password e \<and> \<not> NeedsRehash cost e"
proof -
  obtain setting bytes where s: "crypt_gensalt_rn lib ''$2b$'' cost bytes = Some setting"
    "crypt_r lib password setting = Some e" "IsBcryptHash e" "password \<noteq> []" "length password \<le> 72"
    "\<not> HasEmbeddedNul password" "4 \<le> cost" "cost \<le> 31"
    using Hash_parts [OF assms(2)] .
  have "take 7 e = ''$2b$'' @ two_digits cost @ ''$''"
    using assms(1) s(1,2) unfolding crypt_documented_def by blast
  then have "take 2 (drop 4 (take 7 e)) = two_digits cost"
    by (simp add: two_digits_def)
  then have "take 2 (drop 4 e) = two_digits cost"
    by (simp add: drop_take min_def)
  then have "\<not> NeedsRehash cost e"
    using s strtoul_two_digits [of cost] by (simp add: NeedsRehash_def)
  then show ?thesis
    using password_hash_verifies [OF assms] by simp
qed

text \<open>An implementation of the documented interface: the hash keeps the first seven characters of the
  setting and appends a padded digest.\<close>

definition sample_digest :: "string \<Rightarrow> string" where
  "sample_digest p = take 53 (LegacyHash p @ replicate 53 (CHR ''.''))"

definition sample_libcrypt :: libcrypt where
  "sample_libcrypt =
     \<lparr>crypt_r = (\<lambda>p s. if \<not> HasEmbeddedNul s \<and> 7 \<le> length s then Some (take 7 s @ sample_digest p) else None),
      crypt_gensalt_rn = (\<lambda>kind cost r. if cost < 100 then Some (kind @ two_digits cost @ ''$'') else None)\<rparr>"

lemma sample_digest_length [simp]: "length (sample_digest p) = 53"
  by (simp only: sample_digest_def length_take length_append length_replicate)

lemma HasEmbeddedNul_append [simp]: "HasEmbeddedNul (a @ b) \<longleftrightarrow> HasEmbeddedNul a \<or> HasEmbeddedNul b"
  by (simp add: HasEmbeddedNul_def)

lemma HasEmbeddedNul_take: "HasEmbeddedNul (take n s) \<Longrightarrow> HasEmbeddedNul s"
  by (auto simp: HasEmbeddedNul_def list_ex_iff dest: in_set_takeD)

lemma digits_no_nul: "list_all is_digit s \<Longrightarrow> \<not> HasEmbeddedNul s"
  by (auto simp: HasEmbeddedNul_def list_ex_iff list_all_iff is_digit_def)

lemma sample_digest_no_nul [simp]: "\<not> HasEmbeddedNul (sample_digest p)"
proof -
  have "\<not> HasEmbeddedNul (replicate n (CHR ''.''))" for n
    by (simp add: HasEmbeddedNul_def list_ex_iff byte_def of_char_def)
  moreover have "\<not> HasEmbeddedNul (LegacyHash p)"
    using legacy_hash_format [of p] digits_no_nul by (simp add: IsLegacyDecimalHash_def)
  ultimately show ?thesis
    unfolding sample_digest_def by (metis HasEmbeddedNul_take HasEmbeddedNul_append)
qed

lemma sample_libcrypt_documented: "crypt_documented sample_libcrypt"
  unfolding crypt_documented_def
proof (intro conjI allI impI)
  fix p s e cost r
  show "\<not> HasEmbeddedNul e" "crypt_r sample_libcrypt p e = Some e" if "crypt_r sample_libcrypt p s = Some e"
    using that by (auto simp: sample_libcrypt_def split: if_splits dest: HasEmbeddedNul_take)
  show "take 7 e = ''$2b$'' @ two_digits cost @ ''$''"
    if "crypt_gensalt_rn sample_libcrypt ''$2b$'' cost r = Some s" "crypt_r sample_libcrypt p s = Some e"
    using that by (auto simp: sample_libcrypt_def two_digits_def split: if_splits)
qed

lemma FillRandom_step:
  "FillRandom n (Interrupted # outcomes) = (if n = 0 then Some [] else FillRandom n outcomes)"
  "0 < n \<Longrightarrow> bs \<noteq> [] \<Longrightarrow> FillRandom n (GotBytes bs # outcomes) =
     map_option ((@) (take n bs)) (FillRandom (n - length bs) outcomes)"
  by (cases n; simp)+

definition sample_random :: "getrandom_result list" where
  "sample_random = [Interrupted, GotBytes (replicate 10 (CHR ''a'')), GotBytes (replicate 6 (CHR ''b''))]"

lemma sample_fill: "FillRandom 16 sample_random \<noteq> None"
  by (simp add: sample_random_def FillRandom_step)

lemma two_digits_no_nul: "n < 100 \<Longrightarrow> \<not> HasEmbeddedNul (two_digits n)"
  by (simp add: HasEmbeddedNul_def two_digits_def)

lemma sample_hash: "\<exists>e. Hash sample_libcrypt 12 sample_random ''secret'' = Some e"
proof -
  obtain bytes where bytes: "FillRandom kBcryptSaltBytes sample_random = Some bytes"
    using sample_fill by (auto simp: kBcryptSaltBytes_def)
  have "\<not> HasEmbeddedNul ''$2b$''" "\<not> HasEmbeddedNul ''$''" and secret: "\<not> HasEmbeddedNul ''secret''"
    by (simp_all add: HasEmbeddedNul_def byte_def of_char_def)
  then have no_nul: "\<not> HasEmbeddedNul (''$2b$'' @ two_digits 12 @ ''$'')"
    using two_digits_no_nul [of 12] by (simp only: HasEmbeddedNul_append) simp
  have "crypt_r sample_libcrypt ''secret'' (''$2b$'' @ two_digits 12 @ ''$'') =
      Some (''$2b$'' @ two_digits 12 @ ''$'' @ sample_digest ''secret'')"
    using no_nul by (simp add: sample_libcrypt_def two_digits_def)
  moreover have "IsBcryptHash (''$2b$'' @ two_digits 12 @ ''$'' @ sample_digest ''secret'')"
    by (simp add: IsBcryptHash_def kBcryptHashLength_def two_digits_def)
  moreover have "crypt_gensalt_rn sample_libcrypt ''$2b$'' 12 bytes = Some (''$2b$'' @ two_digits 12 @ ''$'')"
    by (simp add: sample_libcrypt_def)
  ultimately show ?thesis
    using bytes secret by (simp add: Hash_def)
qed

theorem password_hash_roundtrip_witness:
  "\<exists>e. Hash sample_libcrypt 12 sample_random ''secret'' = Some e \<and> Verify sample_libcrypt ''secret'' e"
  using sample_hash password_hash_roundtrip [OF sample_libcrypt_documented] by blast

text \<open>A hash the server stored before bcrypt verifies exactly the passwords it was made of, whatever
  \<^verbatim>\<open>libcrypt\<close> does, and always asks for a rehash; every password the validator accepts has such a
  hash of at most 20 digits.\<close>

theorem legacy_hashes_verify_and_migrate:
  assumes "ok (LoginPassword password)"
  shows "IsLegacyDecimalHash (LegacyHash password) \<and>
    (\<forall>e. IsLegacyDecimalHash e \<longrightarrow> (Verify lib password e \<longleftrightarrow> e = LegacyHash password) \<and> NeedsRehash cost e)"
proof -
  have "password \<noteq> []" "length password \<le> 72" "\<not> HasEmbeddedNul password"
    using assms by (auto simp: LoginPassword_def kPasswordMaxLength_def HasNul_def HasEmbeddedNul_def
        list_ex_iff split: if_splits)
  then show ?thesis
    using legacy_hash_format legacy_not_bcrypt
    by (auto simp: Verify_def NeedsRehash_def ConstantTimeEquals_iff)
qed

theorem legacy_hashes_verify_and_migrate_witness:
  "Verify sample_libcrypt ''secret'' (LegacyHash ''secret'') \<and> NeedsRehash 12 (LegacyHash ''secret'')"
proof -
  have "ok (LoginPassword ''secret'')"
    by (simp add: LoginPassword_def kPasswordMaxLength_def HasNul_def byte_def of_char_def)
  then show ?thesis
    using legacy_hashes_verify_and_migrate [of "''secret''" sample_libcrypt 12] by blast
qed

end
