(* ===== verification/UserService.thy ===== *)
theory UserService
  imports Caches PasswordHasher
begin

text \<open>
  The user service (\<^verbatim>\<open>src/src/service/user_service.cc\<close>): registration, login, resuming, logging out and the
  session bookkeeping the I/O thread asks for. As in the chat service, a record holds the interfaces
  the object was built with. What a call reads from outside (the clock of the rate limiter, the
  system time and the results of \<^verbatim>\<open>getrandom\<close>) is an argument.
\<close>

section \<open>Data\<close>

record RegisterResult =
  rg_code :: ErrorCode
  rg_message :: string
  rg_data :: RegisterResponseData
  rg_retry_after_seconds :: nat

record LoginResult =
  lg_code :: ErrorCode
  lg_message :: string
  lg_data :: LoginResponseData
  lg_session :: ConnectionSession
  lg_retry_after_seconds :: nat

record ResumeSessionResult =
  rsm_code :: ErrorCode
  rsm_message :: string
  rsm_session :: ConnectionSession

record LogoutResult =
  lo_code :: ErrorCode
  lo_message :: string

record WhoAmIResult =
  wai_code :: ErrorCode
  wai_message :: string
  wai_data :: ConnectionSession

record 'w UserService =
  us_user_repository :: "'w IUserRepository"
  us_session_manager :: "'w ISessionManager"
  us_global_session_store :: "'w IGlobalSessionStore option"
  us_rate_limiter :: "'w IRateLimiter option"
  us_redis_config :: RedisConfig
  us_password_hasher :: IPasswordHasher

record UserInputs =
  ui_limiter_clock :: int
  ui_salt :: "getrandom_result list"
  ui_token :: "getrandom_result list"

definition no_session :: ConnectionSession where
  "no_session = \<lparr>cs_authenticated = False, cs_user_id = 0, cs_username = [], cs_token = []\<rparr>"

definition register_refused :: "ErrorCode \<Rightarrow> string \<Rightarrow> RegisterResult" where
  "register_refused code message =
     \<lparr>rg_code = code, rg_message = message, rg_data = \<lparr>rrd_user_id = 0\<rparr>, rg_retry_after_seconds = 0\<rparr>"

definition login_refused :: "ErrorCode \<Rightarrow> string \<Rightarrow> LoginResult" where
  "login_refused code message =
     \<lparr>lg_code = code, lg_message = message,
      lg_data = \<lparr>lrd_user_id = 0, lrd_nickname = [], lrd_token = []\<rparr>, lg_session = no_session,
      lg_retry_after_seconds = 0\<rparr>"

section \<open>Validation and tokens\<close>

fun first_error :: "ValidationResult list \<Rightarrow> string option" where
  "first_error [] = None"
| "first_error (v # vs) = (if ok v then first_error vs else Some (vr_message v))"

definition validateRegisterRequest :: "RegisterRequest \<Rightarrow> string option" where
  "validateRegisterRequest req =
     first_error [Username (rr_username req), RegisterPassword (rr_password req), Nickname (rr_nickname req)]"

definition validateLoginRequest :: "LoginRequest \<Rightarrow> string option" where
  "validateLoginRequest req = first_error [Username (lr_username req), LoginPassword (lr_password req)]"

text \<open>The loop of \<^verbatim>\<open>generateToken\<close> gives up on every call that brings nothing, interrupted ones included.\<close>

fun token_bytes :: "nat \<Rightarrow> getrandom_result list \<Rightarrow> string option" where
  "token_bytes 0 outcomes = Some []"
| "token_bytes (Suc n) (GotBytes bs # outcomes) =
     (if bs = [] then None
      else map_option ((@) (take (Suc n) bs)) (token_bytes (Suc n - length bs) outcomes))"
| "token_bytes (Suc n) _ = None"

definition generateToken :: "getrandom_result list \<Rightarrow> token" where
  "generateToken outcomes =
     (case token_bytes 32 outcomes of
        None \<Rightarrow> []
      | Some bytes \<Rightarrow> concat (map (\<lambda>b. pad_left 2 (CHR ''0'') (nat_to_hex (byte b))) bytes))"

section \<open>Operations\<close>

definition check_user_rate ::
  "'w UserService \<Rightarrow> int \<Rightarrow> string \<Rightarrow> string \<Rightarrow> nat \<Rightarrow> nat \<Rightarrow> ('w, RateLimitResult) state" where
  "check_user_rate srv clock kind identity limit window =
     (case us_rate_limiter srv of
        None \<Rightarrow> ret allow_all
      | Some allow \<Rightarrow> if identity = [] then ret allow_all else allow clock kind identity limit window)"

definition query_failed :: "RepositoryStatus \<Rightarrow> bool" where
  "query_failed status \<longleftrightarrow> status = kQueryFailed \<or> status = kConnectionUnavailable \<or> status = kBorrowTimeout"

definition insert_failed :: "RepositoryStatus \<Rightarrow> bool" where
  "insert_failed status \<longleftrightarrow> status = kInsertFailed \<or> status = kConnectionUnavailable \<or> status = kBorrowTimeout"

definition registerUser ::
  "'w UserService \<Rightarrow> UserInputs \<Rightarrow> RegisterRequest \<Rightarrow> string \<Rightarrow> ('w, RegisterResult) state" where
  "registerUser srv inputs req identity =
     (case validateRegisterRequest req of
        Some err \<Rightarrow> ret (register_refused INVALID_PARAM err)
      | None \<Rightarrow> do {
          limit \<leftarrow> check_user_rate srv (ui_limiter_clock inputs) ''register'' identity
            (rc_register_rate_limit (us_redis_config srv)) (rc_register_rate_window_seconds (us_redis_config srv));
          if \<not> rl_allowed limit
          then ret ((register_refused RATE_LIMITED ''register rate limit exceeded'')
                 \<lparr>rg_retry_after_seconds := rl_retry_after_seconds limit\<rparr>)
          else do {
            find_result \<leftarrow> iu_findByUsername (us_user_repository srv) (rr_username req);
            if fu_status find_result = kOk
            then ret (register_refused USER_ALREADY_EXISTS ''username already exists'')
            else if query_failed (fu_status find_result)
            then ret (register_refused DB_QUERY_FAILED ''query user failed'')
            else if fu_status find_result \<noteq> kNotFound
            then ret (register_refused INTERNAL_ERROR ''unexpected repository status'')
            else case ph_Hash (us_password_hasher srv) (ui_salt inputs) (rr_password req) of
              None \<Rightarrow> ret (register_refused INTERNAL_ERROR ''password hashing failed'')
            | Some password_hash \<Rightarrow> do {
                create_result \<leftarrow> iu_createUser (us_user_repository srv) (rr_username req) password_hash
                  (rr_nickname req);
                ret (if cu_status create_result = kDuplicate
                     then register_refused USER_ALREADY_EXISTS ''username already exists''
                     else if insert_failed (cu_status create_result)
                     then register_refused DB_INSERT_FAILED ''create user failed''
                     else if cu_status create_result \<noteq> kOk
                     then register_refused INTERNAL_ERROR ''unexpected repository status''
                     else (register_refused OK ''register success'')
                            \<lparr>rg_data := \<lparr>rrd_user_id = cu_user_id create_result\<rparr>\<rparr>)
              }
          }
        })"

text \<open>The end of \<^verbatim>\<open>login\<close>, once the password was verified: an outdated hash is replaced, then a token is
  drawn.\<close>

definition upgrade_hash ::
  "'w UserService \<Rightarrow> UserInputs \<Rightarrow> string \<Rightarrow> UserRecord \<Rightarrow> ('w, bool) state" where
  "upgrade_hash srv inputs password user =
     (if ph_NeedsRehash (us_password_hasher srv) (u_password_hash user)
      then case ph_Hash (us_password_hasher srv) (ui_salt inputs) password of
        None \<Rightarrow> ret False
      | Some upgraded_hash \<Rightarrow> do {
          status \<leftarrow> iu_updatePasswordHash (us_user_repository srv) (u_id user) upgraded_hash;
          ret (status = kOk)
        }
      else ret True)"

definition login_session :: "UserRecord \<Rightarrow> token \<Rightarrow> ConnectionSession" where
  "login_session user tok =
     \<lparr>cs_authenticated = True, cs_user_id = u_id user, cs_username = u_username user, cs_token = tok\<rparr>"

definition login_result :: "UserRecord \<Rightarrow> token \<Rightarrow> LoginResult" where
  "login_result user tok =
     (if tok = [] then login_refused INTERNAL_ERROR ''generate token failed''
      else \<lparr>lg_code = OK, lg_message = ''login success'',
            lg_data = \<lparr>lrd_user_id = u_id user, lrd_nickname = u_nickname user, lrd_token = tok\<rparr>,
            lg_session = login_session user tok, lg_retry_after_seconds = 0\<rparr>)"

definition login ::
  "'w UserService \<Rightarrow> UserInputs \<Rightarrow> LoginRequest \<Rightarrow> connectionId \<Rightarrow> string \<Rightarrow> ('w, LoginResult) state" where
  "login srv inputs req conn_id identity =
     (case validateLoginRequest req of
        Some err \<Rightarrow> ret (login_refused INVALID_PARAM err)
      | None \<Rightarrow> do {
          limit \<leftarrow> check_user_rate srv (ui_limiter_clock inputs) ''login'' identity
            (rc_login_rate_limit (us_redis_config srv)) (rc_login_rate_window_seconds (us_redis_config srv));
          if \<not> rl_allowed limit
          then ret ((login_refused RATE_LIMITED ''login rate limit exceeded'')
                 \<lparr>lg_retry_after_seconds := rl_retry_after_seconds limit\<rparr>)
          else do {
            find_result \<leftarrow> iu_findByUsername (us_user_repository srv) (lr_username req);
            if query_failed (fu_status find_result)
            then ret (login_refused DB_QUERY_FAILED ''query user failed'')
            else if fu_status find_result = kNotFound
            then ret (login_refused INVALID_CREDENTIALS ''invalid username or password'')
            else if fu_status find_result \<noteq> kOk
            then ret (login_refused INTERNAL_ERROR ''unexpected repository result'')
            else case fu_user find_result of
              None \<Rightarrow> ret (login_refused INTERNAL_ERROR ''unexpected repository result'')
            | Some user \<Rightarrow>
                if \<not> ph_Verify (us_password_hasher srv) (lr_password req) (u_password_hash user)
                then ret (login_refused INVALID_CREDENTIALS ''invalid username or password'')
                else do {
                  upgraded \<leftarrow> upgrade_hash srv inputs (lr_password req) user;
                  ret (if \<not> upgraded then login_refused INTERNAL_ERROR ''credential upgrade failed''
                       else login_result user (generateToken (ui_token inputs)))
                }
          }
        })"


definition resume_refused :: ResumeSessionResult where
  "resume_refused =
     \<lparr>rsm_code = INVALID_CREDENTIALS, rsm_message = ''invalid or expired token'', rsm_session = no_session\<rparr>"

definition resumeSession :: "'w UserService \<Rightarrow> token \<Rightarrow> ('w, ResumeSessionResult) state" where
  "resumeSession srv tok =
     (case us_global_session_store srv of
        None \<Rightarrow> ret resume_refused
      | Some store \<Rightarrow>
          if \<not> ok (Token tok) then ret resume_refused
          else do {
            stored \<leftarrow> igs_GetToken store tok;
            ret (case stored of
                   None \<Rightarrow> resume_refused
                 | Some s \<Rightarrow>
                     \<lparr>rsm_code = OK, rsm_message = ''resume session success'',
                      rsm_session = \<lparr>cs_authenticated = True, cs_user_id = st_user_id s,
                        cs_username = st_username s, cs_token = tok\<rparr>\<rparr>)
          })"

definition requestTokenMatches :: "'w UserService \<Rightarrow> connectionId \<Rightarrow> token \<Rightarrow> ('w, bool) state" where
  "requestTokenMatches srv conn_id tok =
     (if \<not> ok (Token tok) then ret False
      else do {
        session \<leftarrow> gets (im_GetSession (us_session_manager srv) conn_id);
        case session of
          None \<Rightarrow> ret False
        | Some s \<Rightarrow>
            if \<not> cs_authenticated s \<or> cs_token s \<noteq> tok then ret False
            else (case us_global_session_store srv of
                None \<Rightarrow> ret True
              | Some store \<Rightarrow> do {
                  stored \<leftarrow> igs_GetToken store tok;
                  ret (case stored of
                         None \<Rightarrow> False
                       | Some t \<Rightarrow> st_user_id t = cs_user_id s \<and> st_username t = cs_username s)
                })
      })"

definition logout :: "'w UserService \<Rightarrow> connectionId \<Rightarrow> ('w, LogoutResult) state" where
  "logout srv conn_id = do {
     session \<leftarrow> gets (im_GetSession (us_session_manager srv) conn_id);
     ret (if session = None then \<lparr>lo_code = USER_NOT_FOUND, lo_message = ''user not logged in''\<rparr>
          else \<lparr>lo_code = OK, lo_message = ''logout success''\<rparr>)
   }"

definition whoami :: "'w UserService \<Rightarrow> connectionId \<Rightarrow> ('w, WhoAmIResult) state" where
  "whoami srv conn_id = do {
     session \<leftarrow> gets (im_GetSession (us_session_manager srv) conn_id);
     ret (case session of
            Some s \<Rightarrow>
              if cs_authenticated s then \<lparr>wai_code = OK, wai_message = ''ok'', wai_data = s\<rparr>
              else \<lparr>wai_code = USER_NOT_FOUND, wai_message = ''user not logged in'', wai_data = no_session\<rparr>
          | None \<Rightarrow>
              \<lparr>wai_code = USER_NOT_FOUND, wai_message = ''user not logged in'', wai_data = no_session\<rparr>)
   }"

definition bindSession :: "'w UserService \<Rightarrow> timestamp \<Rightarrow> connectionId \<Rightarrow> ConnectionSession \<Rightarrow> ('w, unit) state" where
  "bindSession srv issued_at conn_id session = do {
     bound \<leftarrow> State (im_BindSession (us_session_manager srv) conn_id session);
     case us_global_session_store srv of
       None \<Rightarrow> ret ()
     | Some store \<Rightarrow>
         if \<not> bound then ret ()
         else do { _ \<leftarrow> igs_Bind store conn_id session issued_at; ret () }
   }"

definition logoutSession :: "'w UserService \<Rightarrow> connectionId \<Rightarrow> ('w, unit) state" where
  "logoutSession srv conn_id = do {
     session \<leftarrow> gets (im_GetSession (us_session_manager srv) conn_id);
     case session of
       None \<Rightarrow> ret ()
     | Some s \<Rightarrow> do {
         modify (im_ClearSession (us_session_manager srv) conn_id);
         case us_global_session_store srv of
           None \<Rightarrow> ret ()
         | Some store \<Rightarrow> do { _ \<leftarrow> igs_RevokeSession store conn_id s; ret () }
       }
   }"

definition clearSession :: "'w UserService \<Rightarrow> connectionId \<Rightarrow> ('w, unit) state" where
  "clearSession srv conn_id = do {
     session \<leftarrow> gets (im_GetSession (us_session_manager srv) conn_id);
     case session of
       None \<Rightarrow> ret ()
     | Some s \<Rightarrow> do {
         modify (im_ClearSession (us_session_manager srv) conn_id);
         case us_global_session_store srv of
           None \<Rightarrow> ret ()
         | Some store \<Rightarrow> do { _ \<leftarrow> igs_ClearPresence store conn_id s; ret () }
       }
   }"

definition refreshPresence :: "'w UserService \<Rightarrow> connectionId \<Rightarrow> ('w, unit) state" where
  "refreshPresence srv conn_id = do {
     session \<leftarrow> gets (im_GetSession (us_session_manager srv) conn_id);
     case (session, us_global_session_store srv) of
       (Some s, Some store) \<Rightarrow> do { _ \<leftarrow> igs_Refresh store conn_id s; ret () }
     | _ \<Rightarrow> ret ()
   }"

definition isConnectionBoundToUser :: "'w UserService \<Rightarrow> connectionId \<Rightarrow> userId \<Rightarrow> 'w \<Rightarrow> bool" where
  "isConnectionBoundToUser srv conn_id user_id w =
     (case im_GetSession (us_session_manager srv) conn_id w of
        None \<Rightarrow> False
      | Some s \<Rightarrow> cs_authenticated s \<and> cs_user_id s = user_id)"

section \<open>Tokens\<close>

lemma token_bytes_length: "token_bytes n outcomes = Some bs \<Longrightarrow> length bs = n"
proof (induction n outcomes arbitrary: bs rule: token_bytes.induct)
  case (2 n got outcomes)
  obtain rest where rest: "got \<noteq> []" "token_bytes (Suc n - length got) outcomes = Some rest"
    "bs = take (Suc n) got @ rest"
    using "2.prems" by (auto split: if_splits)
  have "length rest = Suc n - length got"
    using rest by (intro "2.IH")
  then show ?case
    using rest(3) by simp
qed simp_all

lemma two_hex: "length (pad_left 2 (CHR ''0'') (nat_to_hex (byte b))) = 2"
  using length_nat_to_hex [of 2 "byte b"] byte_bound [of b] by (simp add: pad_left_def)

lemma generated_token:
  assumes "generateToken outcomes \<noteq> []"
  shows "ok (Token (generateToken outcomes))"
proof -
  obtain bytes where bytes: "token_bytes 32 outcomes = Some bytes"
    using assms by (auto simp: generateToken_def split: option.splits)
  then have t: "generateToken outcomes = concat (map (\<lambda>b. pad_left 2 (CHR ''0'') (nat_to_hex (byte b))) bytes)"
    by (simp add: generateToken_def)
  have "isxdigit (CHR ''0'')"
    by (simp add: isxdigit_def is_digit_def byte_def of_char_def)
  then have "isxdigit c" if "c \<in> set (pad_left 2 (CHR ''0'') (nat_to_hex n))" for c n
    using that nat_to_hex_digits [of c n] by (auto simp: pad_left_def split: if_splits)
  then have "list_all isxdigit (generateToken outcomes)"
    unfolding t list_all_iff by auto
  moreover have "length (generateToken outcomes) = 64"
    using token_bytes_length [OF bytes] by (simp add: t length_concat comp_def two_hex sum_list_triv)
  ultimately show ?thesis
    by (simp add: ok_Token)
qed


section \<open>What the service relies on\<close>

locale user_backend =
  users: user_directory "us_user_repository srv" inv later users key +
  registry: session_registry "us_session_manager srv" inv sess conns
  for srv :: "'w UserService"
    and inv :: "'w \<Rightarrow> bool"
    and later :: "'w \<Rightarrow> 'w \<Rightarrow> bool"
    and users :: "'w \<Rightarrow> UserRecord list"
    and key :: "'w \<Rightarrow> string \<Rightarrow> string"
    and sess :: "'w \<Rightarrow> connectionId \<rightharpoonup> ConnectionSession"
    and conns :: "'w \<Rightarrow> userId \<Rightarrow> connectionId list" +
  assumes limiter: "us_rate_limiter srv = Some allow \<Longrightarrow>
      assured inv later (allow clock kind identity limit window)"
    and bind_later: "inv w \<Longrightarrow> later w (snd (im_BindSession (us_session_manager srv) cid s w))"
    and clear_later: "inv w \<Longrightarrow> later w (im_ClearSession (us_session_manager srv) cid w)"
    and token: "us_global_session_store srv = Some store \<Longrightarrow> assured inv later (igs_GetToken store tok)"
    and bind: "us_global_session_store srv = Some store \<Longrightarrow> assured inv later (igs_Bind store cid s now)"
    and refresh: "us_global_session_store srv = Some store \<Longrightarrow> assured inv later (igs_Refresh store cid s)"
    and clear: "us_global_session_store srv = Some store \<Longrightarrow> assured inv later (igs_ClearPresence store cid s)"
    and revoke: "us_global_session_store srv = Some store \<Longrightarrow> assured inv later (igs_RevokeSession store cid s)"

sublocale user_backend \<subseteq> keeps: preorder_guarantee inv later
  by unfold_locales (auto intro: users.later_refl users.later_trans)

lemma refused_simps [simp]:
  "rg_code (register_refused code message) = code"
  "rrd_user_id (rg_data (register_refused code message)) = 0"
  "lg_code (login_refused code message) = code"
  "lg_session (login_refused code message) = no_session"
  "lrd_token (lg_data (login_refused code message)) = []"
  by (simp_all add: register_refused_def login_refused_def)

definition register_checked :: "RegisterRequest \<Rightarrow> bool" where
  "register_checked req \<longleftrightarrow>
     ok (Username (rr_username req)) \<and> ok (RegisterPassword (rr_password req)) \<and> ok (Nickname (rr_nickname req))"

lemma validated_register: "validateRegisterRequest req = None \<Longrightarrow> register_checked req"
  by (simp add: validateRegisterRequest_def register_checked_def split: if_splits)

context user_backend
begin

lemma wp_assured: "assured inv later m \<Longrightarrow> inv w \<Longrightarrow> wp m (\<lambda>_ w'. inv w' \<and> later w w') w"
  by (simp add: assured_def)

lemma check_rate_wp:
  "inv w \<Longrightarrow> wp (check_user_rate srv clock kind identity limit window) (\<lambda>_ w'. inv w' \<and> later w w') w"
  unfolding check_user_rate_def
  by (cases "us_rate_limiter srv")
    (auto intro!: wp_ret intro: users.later_refl wp_assured [OF limiter])

definition register_post :: "UserInputs \<Rightarrow> RegisterRequest \<Rightarrow> 'w \<Rightarrow> RegisterResult \<Rightarrow> 'w \<Rightarrow> bool" where
  "register_post inputs req w res w' \<longleftrightarrow> inv w' \<and> later w w' \<and>
     (if rg_code res = OK
      then register_checked req \<and>
        (\<exists>u \<in> set (users w'). u_id u = rrd_user_id (rg_data res) \<and> 0 < u_id u \<and>
           u_username u = rr_username req \<and> u_nickname u = rr_nickname req \<and>
           ph_Hash (us_password_hasher srv) (ui_salt inputs) (rr_password req) = Some (u_password_hash u)) \<and>
        (\<forall>v \<in> set (users w). u_id v \<noteq> rrd_user_id (rg_data res) \<and>
           key w (u_username v) \<noteq> key w (rr_username req))
      else rrd_user_id (rg_data res) = 0)"

lemma register_created:
  assumes "inv w1" "later w w1" "run_state (iu_createUser (us_user_repository srv) n h k) w1 = (cres, w2)"
    "cu_status cres = kOk"
  shows "inv w2 \<and> later w w2 \<and>
    (\<exists>u \<in> set (users w2). u_id u = cu_user_id cres \<and> 0 < u_id u \<and> u_username u = n \<and> u_nickname u = k \<and>
      u_password_hash u = h) \<and>
    (\<forall>v \<in> set (users w). u_id v \<noteq> cu_user_id cres \<and> key w (u_username v) \<noteq> key w n)"
proof -
  have "key w1 = key w"
    using users.later_key [OF assms(2)] by simp
  then show ?thesis
    using users.create_keeps [OF assms(1,3)] users.create_fresh [OF assms(1,3,4)]
      users.later_users [OF assms(2)] users.later_trans [OF assms(2)]
    by (metis (no_types, lifting))
qed

lemma registerUser_wp:
  assumes "inv w"
  shows "wp (registerUser srv inputs req identity) (register_post inputs req w) w"
proof -
  have refused: "wp (ret res) (register_post inputs req w) w'"
    if "inv w'" "later w w'" "rg_code res \<noteq> OK" "rrd_user_id (rg_data res) = 0" for res w'
    using that by (auto intro!: wp_ret simp: register_post_def)
  have create: "wp (iu_createUser (us_user_repository srv) (rr_username req) h (rr_nickname req) \<bind>
      (\<lambda>cr. ret (if cu_status cr = kDuplicate then register_refused USER_ALREADY_EXISTS ''username already exists''
         else if insert_failed (cu_status cr) then register_refused DB_INSERT_FAILED ''create user failed''
         else if cu_status cr \<noteq> kOk then register_refused INTERNAL_ERROR ''unexpected repository status''
         else (register_refused OK ''register success'')\<lparr>rg_data := \<lparr>rrd_user_id = cu_user_id cr\<rparr>\<rparr>)))
      (register_post inputs req w) w1"
    if w1: "inv w1" "later w w1" and req: "validateRegisterRequest req = None"
      and hash: "ph_Hash (us_password_hasher srv) (ui_salt inputs) (rr_password req) = Some h" for h w1
  proof (rule wp_bind, rule wpI, rule wp_ret, goal_cases)
    case (1 cres w2)
    have "inv w2" "later w w2"
      using users.create_keeps [OF w1(1) 1] users.later_trans [OF w1(2)] by blast+
    then show ?case
      using register_created [OF w1 1] validated_register [OF req] hash
      by (auto simp: register_post_def)
  qed
  show ?thesis
    unfolding registerUser_def
  proof (rule wp_case_option [rotated], goal_cases)
    case 2
    show ?case
    proof (rule wp_bind, rule wp_mono [OF check_rate_wp [OF assms]], goal_cases)
      case (1 limit w1)
      then have w1: "inv w1" "later w w1"
        by auto
      show ?case
      proof (rule wp_if, goal_cases)
        case 2
        show ?case
        proof (rule wp_bind, rule wpI, goal_cases)
          case (1 fres w2)
          have w2: "inv w2" "later w w2"
            using users.name_keeps [OF w1(1) 1] users.later_trans [OF w1(2)] by blast+
          show ?case
            using create [OF w2 \<open>validateRegisterRequest req = None\<close>]
            by (intro wp_if wp_case_option refused w2) simp_all
        qed
      qed (rule refused, use w1 in \<open>simp_all add: register_refused_def\<close>)
    qed
  qed (rule refused, use assms users.later_refl in \<open>simp_all add: register_refused_def\<close>)
qed

lemma register_once:
  assumes "inv w" "run_state (registerUser srv i1 req1 id1) w = (res1, w1)" "rg_code res1 = OK"
    and "later w1 w2" "inv w2" "run_state (registerUser srv i2 req2 id2) w2 = (res2, w3)"
    and "key w (rr_username req1) = key w (rr_username req2)"
  shows "rg_code res2 \<noteq> OK"
proof
  assume ok: "rg_code res2 = OK"
  have 1: "register_post i1 req1 w res1 w1"
    using registerUser_wp [OF assms(1)] assms(2) by (rule wpD)
  have 2: "register_post i2 req2 w2 res2 w3"
    using registerUser_wp [OF assms(5)] assms(6) by (rule wpD)
  obtain u where u: "u \<in> set (users w1)" "u_username u = rr_username req1"
    using 1 assms(3) by (auto simp: register_post_def)
  obtain v where v: "v \<in> set (users w2)" "u_username v = rr_username req1"
    using users.later_users [OF assms(4) u(1)] u(2) by auto
  have "key w2 = key w"
    using 1 users.later_key [of w w1] users.later_key [OF assms(4)] by (simp add: register_post_def)
  then show False
    using 2 ok v assms(7) by (auto simp: register_post_def)
qed

end


definition login_checked :: "LoginRequest \<Rightarrow> bool" where
  "login_checked req \<longleftrightarrow> ok (Username (lr_username req)) \<and> ok (LoginPassword (lr_password req))"

lemma validated_login: "validateLoginRequest req = None \<Longrightarrow> login_checked req"
  by (simp add: validateLoginRequest_def login_checked_def split: if_splits)

context user_backend
begin

definition login_post :: "LoginRequest \<Rightarrow> 'w \<Rightarrow> LoginResult \<Rightarrow> 'w \<Rightarrow> bool" where
  "login_post req w res w' \<longleftrightarrow> inv w' \<and> later w w' \<and>
     (if lg_code res = OK
      then login_checked req \<and>
        (\<exists>wl u tok. later w wl \<and> later wl w' \<and> u \<in> set (users wl) \<and> 0 < u_id u \<and>
           key w (u_username u) = key w (lr_username req) \<and>
           ph_Verify (us_password_hasher srv) (lr_password req) (u_password_hash u) \<and>
           lg_session res = login_session u tok \<and> lrd_user_id (lg_data res) = u_id u \<and>
           lrd_token (lg_data res) = tok \<and> ok (Token tok))
      else lg_session res = no_session \<and> lrd_token (lg_data res) = [])"

lemma upgrade_wp:
  "inv w \<Longrightarrow> wp (upgrade_hash srv inputs password u) (\<lambda>_ w'. inv w' \<and> later w w') w"
  unfolding upgrade_hash_def
  by (intro wp_if wp_case_option wp_ret wp_bind wpI; (simp add: users.later_refl)?)
    (blast dest: users.update_keeps)

lemma login_wp:
  assumes "inv w"
  shows "wp (login srv inputs req conn identity) (login_post req w) w"
proof -
  have refused: "wp (ret res) (login_post req w) w'"
    if "inv w'" "later w w'" "lg_code res \<noteq> OK" "lg_session res = no_session" "lrd_token (lg_data res) = []" for res w'
    using that by (auto intro!: wp_ret simp: login_post_def)
  have finish: "wp (upgrade_hash srv inputs (lr_password req) u \<bind>
      (\<lambda>upgraded. ret (if \<not> upgraded then login_refused INTERNAL_ERROR ''credential upgrade failed''
         else login_result u (generateToken (ui_token inputs))))) (login_post req w) w1"
    if w1: "inv w1" "later w w1" and req: "validateLoginRequest req = None"
      and u: "u \<in> set (users w1)" "key w (u_username u) = key w (lr_username req)"
        "ph_Verify (us_password_hasher srv) (lr_password req) (u_password_hash u)" for u w1
  proof (rule wp_bind, rule wp_mono [OF upgrade_wp [OF w1(1)]], rule wp_ret, goal_cases)
    case (1 upgraded w2)
    then have "inv w2" "later w1 w2" "later w w2"
      using users.later_trans [OF w1(2)] by auto
    then show ?case
      using w1(2) u validated_login [OF req] generated_token [of "ui_token inputs"] users.user_id_positive [OF w1(1) u(1)]
      by (auto simp: login_post_def login_result_def)
  qed
  show ?thesis
    unfolding login_def
  proof (rule wp_case_option [rotated], goal_cases)
    case req: 2
    show ?case
    proof (rule wp_bind, rule wp_mono [OF check_rate_wp [OF assms]], goal_cases)
      case (1 limit w1)
      then have w1: "inv w1" "later w w1"
        by auto
      show ?case
      proof (rule wp_if, goal_cases)
        case 2
        show ?case
        proof (rule wp_bind, rule wpI, goal_cases)
          case (1 fres w2)
          have w2: "inv w2" "later w w2"
            using users.name_keeps [OF w1(1) 1] users.later_trans [OF w1(2)] by blast+
          have "key w1 = key w"
            using users.later_key [OF w1(2)] by simp
          then show ?case
            using users.name_found [OF w1(1) 1]
            by (intro wp_if wp_case_option refused finish w2 req) (simp_all split: option.splits)
        qed
      qed (rule refused, use w1 in \<open>simp_all add: login_refused_def\<close>)
    qed
  qed (rule refused, use assms users.later_refl in \<open>simp_all add: login_refused_def\<close>)
qed

lemma token_matches:
  assumes "inv w" "run_state (requestTokenMatches srv conn tok) w = (True, w')"
  shows "\<exists>s. sess w conn = Some s \<and> cs_authenticated s \<and> cs_token s = tok \<and> ok (Token tok)"
  using assms(2)
  by (auto simp: requestTokenMatches_def registry.get_session split: if_splits option.splits)

end

end
