(* ===== verification/FriendRepository.thy ===== *)
theory FriendRepository
  imports UserRepository Validator
begin

text \<open>
  The friendship table, \<^verbatim>\<open>src/src/db/friend_repository.cc\<close>. A row is keyed by the ordered pair of its
  two users. The status column only ever holds the three literals of its check constraint, which
  the collation tells apart, so the statements compare it literally.
\<close>

section \<open>Interface\<close>

record FindFriendshipResult =
  ff_status :: RepositoryStatus
  ff_friendship :: "FriendshipRecord option"

record CreateFriendshipResult =
  cf_status :: RepositoryStatus
  cf_friendship :: "FriendshipRecord option"
  cf_created :: bool

record UpdateFriendshipResult =
  uf_status :: RepositoryStatus
  uf_friendship :: "FriendshipRecord option"

record DeleteFriendshipResult =
  dfr_status :: RepositoryStatus
  dfr_affected_rows :: int

record ListFriendshipsResult =
  lfr_status :: RepositoryStatus
  lfr_friends :: "FriendshipListItem list"

record 'w IFriendRepository =
  ifr_findFriendship :: "userId \<Rightarrow> userId \<Rightarrow> ('w, FindFriendshipResult) state"
  ifr_createFriendRequest :: "userId \<Rightarrow> userId \<Rightarrow> ('w, CreateFriendshipResult) state"
  ifr_acceptFriendRequest :: "userId \<Rightarrow> userId \<Rightarrow> ('w, UpdateFriendshipResult) state"
  ifr_deleteFriendship :: "userId \<Rightarrow> userId \<Rightarrow> ('w, DeleteFriendshipResult) state"
  ifr_listFriendships :: "userId \<Rightarrow> ('w, ListFriendshipsResult) state"

definition friendship_failure :: "RepositoryStatus \<Rightarrow> FindFriendshipResult" where
  "friendship_failure status = \<lparr>ff_status = status, ff_friendship = None\<rparr>"

section \<open>Statements\<close>

definition OrderedPair :: "userId \<Rightarrow> userId \<Rightarrow> userId \<times> userId" where
  "OrderedPair a b = (min a b, max a b)"

definition select_friendship :: "userId \<times> userId \<Rightarrow> (FriendshipRow option) stmt" where
  "select_friendship pair ck now t =
     Inr (t, find (\<lambda>f. (fr_low f, fr_high f) = pair) (t_friendships t))"

definition select_friendship_by_id :: "int \<Rightarrow> (FriendshipRow option) stmt" where
  "select_friendship_by_id i ck now t = Inr (t, find (\<lambda>f. fr_id f = i) (t_friendships t))"

text \<open>Error 3819 is a violated check constraint.\<close>

definition insert_friendship :: "userId \<Rightarrow> userId \<Rightarrow> userId \<times> userId \<Rightarrow> int stmt" where
  "insert_friendship requester addressee pair ck now t =
     (if requester = addressee \<or> \<not> fst pair < snd pair then Inl 3819
      else if \<exists>f \<in> set (t_friendships t). (fr_low f, fr_high f) = pair
      then Inl kMysqlDuplicateEntryError
      else Inr (t\<lparr>t_friendships := t_friendships t @
                    [\<lparr>fr_id = t_next_friendship_id t, fr_requester_id = requester,
                      fr_addressee_id = addressee, fr_low = fst pair, fr_high = snd pair,
                      fr_status = ''pending'', fr_created_at = now, fr_updated_at = now\<rparr>],
                  t_next_friendship_id := t_next_friendship_id t + 1\<rparr>, t_next_friendship_id t))"

definition awaits :: "userId \<Rightarrow> userId \<Rightarrow> FriendshipRow \<Rightarrow> bool" where
  "awaits requester addressee f \<longleftrightarrow>
     fr_requester_id f = requester \<and> fr_addressee_id f = addressee \<and> fr_status f = ''pending''"

definition accepted_row :: "string \<Rightarrow> FriendshipRow \<Rightarrow> FriendshipRow" where
  "accepted_row now f = f\<lparr>fr_status := ''accepted'', fr_updated_at := now\<rparr>"

definition update_accepted :: "userId \<Rightarrow> userId \<Rightarrow> nat stmt" where
  "update_accepted requester addressee ck now t =
     Inr (t\<lparr>t_friendships := map (\<lambda>f. if awaits requester addressee f then accepted_row now f else f)
              (t_friendships t)\<rparr>,
          length (filter (awaits requester addressee) (t_friendships t)))"

definition delete_pair :: "userId \<times> userId \<Rightarrow> nat stmt" where
  "delete_pair pair ck now t =
     Inr (t\<lparr>t_friendships := filter (\<lambda>f. (fr_low f, fr_high f) \<noteq> pair) (t_friendships t)\<rparr>,
          length (filter (\<lambda>f. (fr_low f, fr_high f) = pair) (t_friendships t)))"

text \<open>The join of \<^verbatim>\<open>listFriendships\<close>: each friendship of the user with the row of the other side,
  most recently updated first. The timestamps are fixed-width text, so their lexicographic order
  is the chronological one.\<close>

definition friendship_peer :: "userId \<Rightarrow> FriendshipRow \<Rightarrow> userId" where
  "friendship_peer uid f = (if fr_requester_id f = uid then fr_addressee_id f else fr_requester_id f)"

definition friendship_join :: "userId \<Rightarrow> Tables \<Rightarrow> (FriendshipRow \<times> UserRecord) list" where
  "friendship_join uid t =
     concat (map (\<lambda>f. map (\<lambda>u. (f, u)) (filter (\<lambda>u. u_id u = friendship_peer uid f) (t_users t)))
       (filter (\<lambda>f. fr_requester_id f = uid \<or> fr_addressee_id f = uid) (t_friendships t)))"

definition select_friend_list :: "userId \<Rightarrow> ((FriendshipRow \<times> UserRecord) list) stmt" where
  "select_friend_list uid ck now t =
     Inr (t, rev (sort_key (\<lambda>(f, u). (fr_updated_at f, fr_id f)) (friendship_join uid t)))"

section \<open>Methods\<close>

definition friendship_fits :: "FriendshipRow \<Rightarrow> bool" where
  "friendship_fits f \<longleftrightarrow>
     length (fr_status f) \<le> 21 \<and> length (fr_created_at f) \<le> 32 \<and> length (fr_updated_at f) \<le> 32"

definition BuildFriendship :: "FriendshipRow \<Rightarrow> FriendshipRecord option" where
  "BuildFriendship f =
     (case ParseFriendshipStatus (fr_status f) of
        None \<Rightarrow> None
      | Some status \<Rightarrow>
          Some \<lparr>f_id = fr_id f, f_requester_id = fr_requester_id f, f_addressee_id = fr_addressee_id f,
                f_status = status, f_created_at = fr_created_at f, f_updated_at = fr_updated_at f\<rparr>)"

definition ReadFriendship :: "(FriendshipRow option) stmt \<Rightarrow> (Db, FindFriendshipResult) state" where
  "ReadFriendship stmt = do {
     r \<leftarrow> run_sql stmt;
     case r of
       Inl err \<Rightarrow> do { status \<leftarrow> StatementFailure err kQueryFailed; ret (friendship_failure status) }
     | Inr found \<Rightarrow>
         (case found of
            None \<Rightarrow> ret (friendship_failure kNotFound)
          | Some f \<Rightarrow>
              if \<not> friendship_fits f then ret (friendship_failure kQueryFailed)
              else (case BuildFriendship f of
                      None \<Rightarrow> ret (friendship_failure kQueryFailed)
                    | Some rec \<Rightarrow> ret \<lparr>ff_status = kOk, ff_friendship = Some rec\<rparr>))
   }"

definition findFriendship :: "userId \<Rightarrow> userId \<Rightarrow> (Db, FindFriendshipResult) state" where
  "findFriendship user_a user_b = do {
     e \<leftarrow> borrow_connection;
     if e \<noteq> kNone then ret (friendship_failure (MapBorrowError e))
     else ReadFriendship (select_friendship (OrderedPair user_a user_b))
   }"

definition createFriendRequest :: "userId \<Rightarrow> userId \<Rightarrow> (Db, CreateFriendshipResult) state" where
  "createFriendRequest requester addressee = do {
     e \<leftarrow> borrow_connection;
     if e \<noteq> kNone then ret \<lparr>cf_status = MapBorrowError e, cf_friendship = None, cf_created = False\<rparr>
     else do {
       r \<leftarrow> ExecuteUpdate (insert_friendship requester addressee (OrderedPair requester addressee))
              kInsertFailed;
       case r of
         Inl (status, err) \<Rightarrow>
           ret \<lparr>cf_status = (if err = kMysqlDuplicateEntryError then kDuplicate else status),
                cf_friendship = None, cf_created = False\<rparr>
       | Inr insert_id \<Rightarrow> do {
           modify (\<lambda>db. db\<lparr>db_last_insert_id := insert_id\<rparr>);
           last_id \<leftarrow> gets db_last_insert_id;
           created \<leftarrow> ReadFriendship (select_friendship_by_id last_id);
           if ff_status created \<noteq> kOk \<or> ff_friendship created = None
           then ret \<lparr>cf_status = ff_status created, cf_friendship = None, cf_created = False\<rparr>
           else ret \<lparr>cf_status = kOk, cf_friendship = ff_friendship created, cf_created = True\<rparr>
         }
     }
   }"

definition acceptFriendRequest :: "userId \<Rightarrow> userId \<Rightarrow> (Db, UpdateFriendshipResult) state" where
  "acceptFriendRequest requester addressee = do {
     e \<leftarrow> borrow_connection;
     if e \<noteq> kNone then ret \<lparr>uf_status = MapBorrowError e, uf_friendship = None\<rparr>
     else do {
       r \<leftarrow> ExecuteUpdate (update_accepted requester addressee) kQueryFailed;
       case r of
         Inl (status, _) \<Rightarrow> ret \<lparr>uf_status = status, uf_friendship = None\<rparr>
       | Inr affected_rows \<Rightarrow>
           if affected_rows \<noteq> 1 then ret \<lparr>uf_status = kNotFound, uf_friendship = None\<rparr>
           else do {
             updated \<leftarrow> ReadFriendship (select_friendship (OrderedPair requester addressee));
             ret \<lparr>uf_status = ff_status updated, uf_friendship = ff_friendship updated\<rparr>
           }
     }
   }"

definition deleteFriendship :: "userId \<Rightarrow> userId \<Rightarrow> (Db, DeleteFriendshipResult) state" where
  "deleteFriendship user_a user_b = do {
     e \<leftarrow> borrow_connection;
     if e \<noteq> kNone then ret \<lparr>dfr_status = MapBorrowError e, dfr_affected_rows = 0\<rparr>
     else do {
       r \<leftarrow> ExecuteUpdate (delete_pair (OrderedPair user_a user_b)) kQueryFailed;
       case r of
         Inl (status, _) \<Rightarrow> ret \<lparr>dfr_status = status, dfr_affected_rows = 0\<rparr>
       | Inr affected_rows \<Rightarrow>
           ret \<lparr>dfr_status = (if affected_rows = 0 then kNotFound else kOk),
                dfr_affected_rows = wrap_int32 (int affected_rows)\<rparr>
     }
   }"

text \<open>The buffers of \<^verbatim>\<open>listFriendships\<close> hold 65 bytes of name and 65 bytes of nickname.\<close>

definition friend_row_fits :: "FriendshipRow \<times> UserRecord \<Rightarrow> bool" where
  "friend_row_fits = (\<lambda>(f, u). friendship_fits f \<and> length (u_username u) \<le> 65 \<and>
     length (u_nickname u) \<le> 65)"

definition friend_item :: "userId \<Rightarrow> FriendshipRow \<times> UserRecord \<Rightarrow> FriendshipListItem option" where
  "friend_item uid = (\<lambda>(f, u).
     case ParseFriendshipStatus (fr_status f) of
       None \<Rightarrow> None
     | Some status \<Rightarrow>
         Some \<lparr>fl_user_id = u_id u, fl_username = u_username u, fl_nickname = u_nickname u,
               fl_status = status,
               fl_direction = (if fr_requester_id f = uid then ''outgoing'' else ''incoming''),
               fl_created_at = fr_created_at f, fl_updated_at = fr_updated_at f\<rparr>)"

fun friend_fetch ::
  "userId \<Rightarrow> (FriendshipRow \<times> UserRecord) list \<Rightarrow> FriendshipListItem list \<Rightarrow>
   (FriendshipListItem list) option" where
  "friend_fetch uid [] acc = Some acc"
| "friend_fetch uid (r # rs) acc =
     (if \<not> friend_row_fits r then None
      else case friend_item uid r of None \<Rightarrow> None | Some item \<Rightarrow> friend_fetch uid rs (acc @ [item]))"

definition listFriendships :: "userId \<Rightarrow> (Db, ListFriendshipsResult) state" where
  "listFriendships uid = do {
     e \<leftarrow> borrow_connection;
     if e \<noteq> kNone then ret \<lparr>lfr_status = MapBorrowError e, lfr_friends = []\<rparr>
     else do {
       r \<leftarrow> run_sql (select_friend_list uid);
       case r of
         Inl err \<Rightarrow> do {
           status \<leftarrow> StatementFailure err kQueryFailed;
           ret \<lparr>lfr_status = status, lfr_friends = []\<rparr>
         }
       | Inr rows \<Rightarrow>
           (case friend_fetch uid rows [] of
              None \<Rightarrow> ret \<lparr>lfr_status = kQueryFailed, lfr_friends = []\<rparr>
            | Some friends \<Rightarrow> ret \<lparr>lfr_status = kOk, lfr_friends = friends\<rparr>)
     }
   }"

definition friend_repository_ops :: "Db IFriendRepository" where
  "friend_repository_ops =
     \<lparr>ifr_findFriendship = findFriendship, ifr_createFriendRequest = createFriendRequest,
      ifr_acceptFriendRequest = acceptFriendRequest, ifr_deleteFriendship = deleteFriendship,
      ifr_listFriendships = listFriendships\<rparr>"

section \<open>Every statement keeps the friendships consistent\<close>

lemma reading_friend_selects [simp]:
  "reading (select_friendship pr)" "reading (select_friendship_by_id i)" "reading (select_friend_list u)"
  by (auto simp: reading_def select_friendship_def select_friendship_by_id_def select_friend_list_def)

lemma db_grow_friendships:
  assumes "friendships_ok (t\<lparr>t_friendships := fs, t_next_friendship_id := i\<rparr>)"
    and "friends_grow t (t\<lparr>t_friendships := fs, t_next_friendship_id := i\<rparr>)"
  shows "db_grow ck t (t\<lparr>t_friendships := fs, t_next_friendship_id := i\<rparr>)"
proof -
  have "messages_grow t (t\<lparr>t_friendships := fs, t_next_friendship_id := i\<rparr>)"
    by (rule messages_grow_subset) simp_all
  then show ?thesis
    using assms
    by (auto simp: db_grow_def tables_ok_def messages_ok_def users_ok_def groups_ok_def users_grow_def)
qed

lemma db_grow_friendship_rows:
  assumes "friendships_ok (t\<lparr>t_friendships := fs\<rparr>)" "friends_grow t (t\<lparr>t_friendships := fs\<rparr>)"
  shows "db_grow ck t (t\<lparr>t_friendships := fs\<rparr>)"
proof -
  have "messages_grow t (t\<lparr>t_friendships := fs\<rparr>)"
    by (rule messages_grow_subset) simp_all
  then show ?thesis
    using assms
    by (auto simp: db_grow_def tables_ok_def messages_ok_def users_ok_def groups_ok_def users_grow_def)
qed

lemma growing_insert_friendship:
  "growing (insert_friendship requester addressee (OrderedPair requester addressee))"
proof (unfold growing_def, intro allI impI)
  fix ck now t t' a
  assume "tables_ok ck t"
    and run: "insert_friendship requester addressee (OrderedPair requester addressee) ck now t = Inr (t', a)"
  then show "db_grow ck t t'"
    by (auto simp: insert_friendship_def OrderedPair_def split: if_splits intro!: db_grow_friendships)
      (auto simp: tables_ok_def friendships_ok_def friends_grow_def)
qed

lemma growing_update_accepted: "growing (update_accepted requester addressee)"
proof (unfold growing_def, intro allI impI)
  fix ck now t t' a
  assume ok: "tables_ok ck t" and run: "update_accepted requester addressee ck now t = Inr (t', a)"
  define g where "g = (\<lambda>f. if awaits requester addressee f then accepted_row now f else f)"
  have g: "fr_id (g f) = fr_id f" "fr_low (g f) = fr_low f" "fr_high (g f) = fr_high f"
    "fr_requester_id (g f) = fr_requester_id f" "fr_addressee_id (g f) = fr_addressee_id f"
    for f
    by (auto simp: g_def accepted_row_def)
  have status: "fr_status (g f) = ''pending'' \<or> fr_status (g f) = ''accepted'' \<or> fr_status (g f) = ''blocked''"
    if "f \<in> set (t_friendships t)" for f
    using ok that by (auto simp: g_def accepted_row_def tables_ok_def friendships_ok_def)
  have "friendships_ok (t\<lparr>t_friendships := map g (t_friendships t)\<rparr>)"
    using ok status by (auto simp: tables_ok_def friendships_ok_def g o_def)
  moreover have "friends_grow t (t\<lparr>t_friendships := map g (t_friendships t)\<rparr>)"
    by (auto simp: friends_grow_def g_def accepted_row_def awaits_def)
  ultimately show "db_grow ck t t'"
    using run db_grow_friendship_rows [where t = t and fs = "map g (t_friendships t)" and ck = ck]
    by (simp add: update_accepted_def g_def)
qed

lemma growing_delete_pair: "growing (delete_pair pr)"
proof (unfold growing_def, intro allI impI)
  fix ck now t t' a
  assume ok: "tables_ok ck t" and run: "delete_pair pr ck now t = Inr (t', a)"
  define fs where "fs = filter (\<lambda>f. (fr_low f, fr_high f) \<noteq> pr) (t_friendships t)"
  have "friendships_ok (t\<lparr>t_friendships := fs\<rparr>)"
    using ok by (auto simp: tables_ok_def friendships_ok_def fs_def distinct_map inj_on_def)
  moreover have "friends_grow t (t\<lparr>t_friendships := fs\<rparr>)"
    by (auto simp: friends_grow_def fs_def)
  ultimately show "db_grow ck t t'"
    using run db_grow_friendship_rows [where t = t and fs = fs and ck = ck] by (simp add: delete_pair_def fs_def)
qed

lemmas growing_friend_statements = growing_insert_friendship growing_update_accepted
  growing_delete_pair reading_growing [OF reading_friend_selects(1)]
  reading_growing [OF reading_friend_selects(2)] reading_growing [OF reading_friend_selects(3)]

lemma auto_ReadFriendship: "reading stmt \<Longrightarrow> auto_safe (ReadFriendship stmt)"
  unfolding ReadFriendship_def by (intro auto_sql reading_growing)

lemma friend_ops_keep:
  assumes "repo_inv db"
  shows "run_state (findFriendship a b) db = (r1, db') \<Longrightarrow> repo_inv db' \<and> db_guar db db'"
    and "run_state (createFriendRequest a b) db = (r2, db') \<Longrightarrow> repo_inv db' \<and> db_guar db db'"
    and "run_state (acceptFriendRequest a b) db = (r3, db') \<Longrightarrow> repo_inv db' \<and> db_guar db db'"
    and "run_state (deleteFriendship a b) db = (r4, db') \<Longrightarrow> repo_inv db' \<and> db_guar db db'"
    and "run_state (listFriendships a) db = (r5, db') \<Longrightarrow> repo_inv db' \<and> db_guar db db'"
  unfolding findFriendship_def createFriendRequest_def acceptFriendRequest_def deleteFriendship_def
    listFriendships_def
  by (erule borrow_then [OF assms, rotated],
      intro auto_sql growing_friend_statements auto_ReadFriendship reading_friend_selects)+

section \<open>Results\<close>

lemma BuildFriendship_SomeD:
  "BuildFriendship f = Some rec \<Longrightarrow> f_id rec = fr_id f \<and> f_requester_id rec = fr_requester_id f \<and>
     f_addressee_id rec = fr_addressee_id f \<and> fr_status f = ToStorageFriendshipStatus (f_status rec)"
  by (auto simp: BuildFriendship_def dest: ParseFriendshipStatus_SomeD split: option.splits)

lemma ReadFriendship_wp:
  assumes "auto_inv db" "reading stmt"
  shows "wp (ReadFriendship stmt) (\<lambda>res db'. auto_inv db' \<and> db_guar db db' \<and>
    (case ff_friendship res of
       None \<Rightarrow> ff_status res \<noteq> kOk
     | Some rec \<Rightarrow> ff_status res = kOk \<and> (\<exists>f. BuildFriendship f = Some rec \<and>
         stmt (db_collate db) (db_clock db) (committed db') = Inr (committed db', Some f)))) db"
  unfolding ReadFriendship_def
proof (rule wp_bind, rule wp_mono [OF run_sql_read], goal_cases)
  case (3 r db1)
  then show ?case
    using assms(1)
    by (intro wp_intros wp_mono [OF StatementFailure_wp])
      (auto simp: friendship_failure_def committed_def auto_inv_def intro: db_guarantee.R_trans)
qed (use assms in \<open>auto simp: auto_inv_def\<close>)

lemma findFriendship_result:
  assumes "repo_inv db" "run_state (findFriendship a b) db = (res, db')"
  shows "case ff_friendship res of
      None \<Rightarrow> ff_status res \<noteq> kOk
    | Some rec \<Rightarrow> ff_status res = kOk \<and>
        (\<exists>f \<in> set (t_friendships (committed db')). BuildFriendship f = Some rec \<and>
           (fr_low f, fr_high f) = OrderedPair a b)"
proof -
  have "wp (findFriendship a b) (\<lambda>res db'. case ff_friendship res of
      None \<Rightarrow> ff_status res \<noteq> kOk
    | Some rec \<Rightarrow> ff_status res = kOk \<and>
        (\<exists>f \<in> set (t_friendships (committed db')). BuildFriendship f = Some rec \<and>
           (fr_low f, fr_high f) = OrderedPair a b)) db"
    unfolding findFriendship_def
  proof (rule wp_bind, rule wp_mono [OF borrow_wp], goal_cases)
    case (3 e db1)
    show ?case
    proof (intro wp_intros, goal_cases)
      case 1
      then show ?case by (simp add: friendship_failure_def MapBorrowError_def)
    next
      case 2
      show ?case
        by (rule wp_mono [OF ReadFriendship_wp [OF _ reading_friend_selects(1)]])
          (use 3 in \<open>auto simp: auto_inv_def select_friendship_def find_Some_iff
            split: option.splits\<close>)
    qed
  qed (use assms(1) in \<open>auto simp: repo_inv_def\<close>)
  then show ?thesis
    using assms(2) by (rule wpD)
qed

lemma ordered_row_users:
  assumes "friendships_ok t" "f \<in> set (t_friendships t)" "(fr_low f, fr_high f) = OrderedPair a b"
  shows "{fr_requester_id f, fr_addressee_id f} = {a, b} \<and> fr_requester_id f \<noteq> fr_addressee_id f"
proof -
  have row: "fr_low f = min (fr_requester_id f) (fr_addressee_id f)"
    "fr_high f = max (fr_requester_id f) (fr_addressee_id f)" "fr_requester_id f \<noteq> fr_addressee_id f"
    using assms(1,2) by (auto simp: friendships_ok_def)
  have "{min x y, max x y} = {x, y}" for x y :: int
    by (auto simp: min_def max_def)
  moreover have "{fst (OrderedPair a b), snd (OrderedPair a b)} = {a, b}"
    by (auto simp: OrderedPair_def)
  ultimately show ?thesis
    using row assms(3) by (metis fst_conv snd_conv)
qed

text \<open>A created request: whatever others do meanwhile, the record handed back is the one inserted.\<close>

lemma insert_friendship_row:
  assumes "insert_friendship requester addressee pair ck now t = Inr (t', i)" "friendships_ok t"
    and "friends_grow t' t''" "friendships_ok t'" "f \<in> set (t_friendships t'')" "fr_id f = i"
  shows "fr_requester_id f = requester \<and> fr_addressee_id f = addressee"
proof -
  define new where "new = \<lparr>fr_id = i, fr_requester_id = requester, fr_addressee_id = addressee,
    fr_low = fst pair, fr_high = snd pair, fr_status = ''pending'', fr_created_at = now,
    fr_updated_at = now\<rparr>"
  have t': "t_friendships t' = t_friendships t @ [new]" "t_next_friendship_id t' = i + 1"
    using assms(1) by (auto simp: insert_friendship_def new_def split: if_splits)
  obtain g where g: "g \<in> set (t_friendships t')" "fr_id g = i"
    "fr_requester_id g = fr_requester_id f" "fr_addressee_id g = fr_addressee_id f"
    using assms(3,5,6) t'(2) unfolding friends_grow_def by force
  have "new \<in> set (t_friendships t')" "fr_id new = i"
    by (simp_all add: t' new_def)
  then have "g = new"
    using assms(4) g(1,2) by (auto simp: friendships_ok_def distinct_map inj_on_def)
  then show ?thesis
    using g by (simp add: new_def)
qed

lemma createFriendRequest_result:
  assumes "repo_inv db" "run_state (createFriendRequest a b) db = (res, db')"
  shows "case cf_friendship res of
      None \<Rightarrow> cf_status res \<noteq> kOk \<and> \<not> cf_created res
    | Some rec \<Rightarrow> cf_status res = kOk \<and> cf_created res \<and> f_requester_id rec = a \<and> f_addressee_id rec = b"
proof -
  have "wp (createFriendRequest a b) (\<lambda>res db'. case cf_friendship res of
      None \<Rightarrow> cf_status res \<noteq> kOk \<and> \<not> cf_created res
    | Some rec \<Rightarrow> cf_status res = kOk \<and> cf_created res \<and> f_requester_id rec = a \<and> f_addressee_id rec = b) db"
    unfolding createFriendRequest_def
  proof (rule wp_bind, rule wp_mono [OF borrow_wp], goal_cases)
    case borrowed: (3 e db1)
    show ?case
    proof (intro wp_intros, goal_cases)
      case 1
      then show ?case by (simp add: MapBorrowError_def)
    next
      case 2
      show ?case
      proof (rule wp_mono [OF ExecuteUpdate_auto [OF _ _ growing_insert_friendship]], goal_cases)
        case (4 r db2)
        show ?case
        proof (intro wp_intros, goal_cases)
          case (1 err status e)
          then show ?case
            using 4 by simp
        next
          case (2 i)
          define db3 where "db3 = db2\<lparr>db_last_insert_id := i\<rparr>"
          have inv3: "auto_inv db3" and ok3: "friendships_ok (db_tables db2)"
            using 4 db_inv_tables [of db2]
            by (auto simp: db3_def auto_inv_def db_inv_def env_ok_def tables_ok_def)
          obtain t1 where t1: "friendships_ok t1"
            "insert_friendship a b (OrderedPair a b) (db_collate db1) (db_clock db1) t1 = Inr (db_tables db2, i)"
            using 4 2 by (auto simp: tables_ok_def)
          have rec: "f_requester_id rec = a \<and> f_addressee_id rec = b"
            if "db_guar db3 db4" "auto_inv db4" "BuildFriendship f = Some rec"
              "find (\<lambda>f. fr_id f = i) (t_friendships (committed db4)) = Some f" for db4 rec f
          proof -
            have "friends_grow (db_tables db2) (committed db4)"
              using that(1) 4 by (auto simp: db_guar_def db_grow_def db3_def committed_def [of db2])
            then show ?thesis
              using insert_friendship_row [OF t1(2,1) _ ok3, of "committed db4" f] that(4)
                BuildFriendship_SomeD [OF that(3)]
              by (auto simp: find_Some_iff)
          qed
          have "wp (ReadFriendship (select_friendship_by_id i)) (\<lambda>created.
              wp (if ff_status created \<noteq> kOk \<or> ff_friendship created = None
                  then ret \<lparr>cf_status = ff_status created, cf_friendship = None, cf_created = False\<rparr>
                  else ret \<lparr>cf_status = kOk, cf_friendship = ff_friendship created, cf_created = True\<rparr>)
               (\<lambda>res db'. case cf_friendship res of
                  None \<Rightarrow> cf_status res \<noteq> kOk \<and> \<not> cf_created res
                | Some rec \<Rightarrow> cf_status res = kOk \<and> cf_created res \<and> f_requester_id rec = a \<and>
                    f_addressee_id rec = b)) db3"
            by (rule wp_mono [OF ReadFriendship_wp [OF inv3 reading_friend_selects(2)]],
                intro wp_intros)
              (auto simp: select_friendship_by_id_def split: option.splits dest: rec)
          then show ?case
            by (simp add: db3_def)
        qed
      qed (use borrowed in auto)
    qed
  qed (use assms(1) in \<open>auto simp: repo_inv_def\<close>)
  then show ?thesis
    using assms(2) by (rule wpD)
qed

text \<open>An acceptance that took effect: in the tables other clients left there was exactly one pending
  request of this direction, and only it changed.\<close>

definition request_accepted :: "userId \<Rightarrow> userId \<Rightarrow> Db \<Rightarrow> Db \<Rightarrow> bool" where
  "request_accepted requester addressee db db' \<longleftrightarrow>
     (\<exists>t1 t2. db_grow (db_collate db) (committed db) t1 \<and> tables_ok (db_collate db) t1 \<and>
        update_accepted requester addressee (db_collate db) (db_clock db) t1 = Inr (t2, 1) \<and>
        db_grow (db_collate db) t2 (committed db'))"

lemma acceptFriendRequest_result:
  assumes "repo_inv db" "run_state (acceptFriendRequest a b) db = (res, db')"
  shows "(uf_status res = kOk \<longleftrightarrow> uf_friendship res \<noteq> None) \<and>
    (uf_status res = kOk \<longrightarrow> request_accepted a b db db')"
proof -
  have "wp (acceptFriendRequest a b) (\<lambda>res db'. (uf_status res = kOk \<longleftrightarrow> uf_friendship res \<noteq> None) \<and>
    (uf_status res = kOk \<longrightarrow> request_accepted a b db db')) db"
    unfolding acceptFriendRequest_def
  proof (rule wp_bind, rule wp_mono [OF borrow_wp], goal_cases)
    case borrowed: (3 e db1)
    then have base: "db_grow (db_collate db) (committed db) (db_tables db1)"
      and same: "db_collate db1 = db_collate db" "db_clock db1 = db_clock db"
      by (auto simp: db_guar_def committed_def)
    show ?case
    proof (intro wp_intros, goal_cases)
      case 1
      then show ?case by (simp add: MapBorrowError_def)
    next
      case 2
      show ?case
      proof (rule wp_mono [OF ExecuteUpdate_auto [OF _ _ growing_update_accepted]], goal_cases)
        case (4 r db2)
        show ?case
        proof (intro wp_intros, goal_cases)
          case (1 err status e)
          then show ?case using 4 by simp
        next
          case (2 n)
          then show ?case by simp
        next
          case (3 n)
          have inv2: "auto_inv db2"
            using 4 by (simp add: auto_inv_def)
          obtain t1 where "db_grow (db_collate db) (db_tables db1) t1" "tables_ok (db_collate db) t1"
            "update_accepted a b (db_collate db) (db_clock db) t1 = Inr (db_tables db2, 1)"
            using 4 3 same by auto
          then have acc: "request_accepted a b db db3" if "db_guar db2 db3" for db3
            using that 4 same db_grow_trans [OF base]
            unfolding request_accepted_def
            by (intro exI [of _ t1] exI [of _ "db_tables db2"])
              (auto simp: db_guar_def committed_def [of db2])
          show ?case
            by (rule wp_mono [OF ReadFriendship_wp [OF inv2 reading_friend_selects(1)]], intro wp_intros)
              (auto simp: acc split: option.splits)
        qed
      qed (use borrowed in auto)
    qed
  qed (use assms(1) in \<open>auto simp: repo_inv_def\<close>)
  then show ?thesis
    using assms(2) by (rule wpD)
qed

section \<open>The contract of a friendship store\<close>

locale friendship_store =
  fixes repo :: "'w IFriendRepository"
    and inv :: "'w \<Rightarrow> bool"
    and later :: "'w \<Rightarrow> 'w \<Rightarrow> bool"
    and accepted_by :: "userId \<Rightarrow> userId \<Rightarrow> 'w \<Rightarrow> 'w \<Rightarrow> bool"
  assumes later_refl: "later w w"
    and later_trans: "later w w1 \<Longrightarrow> later w1 w2 \<Longrightarrow> later w w2"
    and find_keeps: "inv w \<Longrightarrow> run_state (ifr_findFriendship repo a b) w = (r1, w') \<Longrightarrow> inv w' \<and> later w w'"
    and create_keeps: "inv w \<Longrightarrow> run_state (ifr_createFriendRequest repo a b) w = (r2, w') \<Longrightarrow>
      inv w' \<and> later w w'"
    and accept_keeps: "inv w \<Longrightarrow> run_state (ifr_acceptFriendRequest repo a b) w = (r3, w') \<Longrightarrow>
      inv w' \<and> later w w'"
    and delete_keeps: "inv w \<Longrightarrow> run_state (ifr_deleteFriendship repo a b) w = (r4, w') \<Longrightarrow>
      inv w' \<and> later w w'"
    and list_keeps: "inv w \<Longrightarrow> run_state (ifr_listFriendships repo a) w = (r5, w') \<Longrightarrow> inv w' \<and> later w w'"
    and find_result: "inv w \<Longrightarrow> run_state (ifr_findFriendship repo a b) w = (r1, w') \<Longrightarrow>
      (case ff_friendship r1 of
         None \<Rightarrow> ff_status r1 \<noteq> kOk
       | Some f \<Rightarrow> ff_status r1 = kOk \<and>
           {f_requester_id f, f_addressee_id f} = {a, b} \<and> f_requester_id f \<noteq> f_addressee_id f)"
    and create_result: "inv w \<Longrightarrow> run_state (ifr_createFriendRequest repo a b) w = (r2, w') \<Longrightarrow>
      (case cf_friendship r2 of
         None \<Rightarrow> cf_status r2 \<noteq> kOk
       | Some f \<Rightarrow> cf_status r2 = kOk \<and> f_requester_id f = a \<and> f_addressee_id f = b)"
    and accept_result: "inv w \<Longrightarrow> run_state (ifr_acceptFriendRequest repo a b) w = (r3, w') \<Longrightarrow>
      (uf_status r3 = kOk \<longleftrightarrow> uf_friendship r3 \<noteq> None) \<and>
      (uf_status r3 = kOk \<longrightarrow> accepted_by a b w w')"

interpretation mysql_friends: friendship_store friend_repository_ops repo_inv db_guar request_accepted
proof unfold_locales
  fix db db' :: Db and a b r1 r2 r3
  show "case ff_friendship r1 of
         None \<Rightarrow> ff_status r1 \<noteq> kOk
       | Some f \<Rightarrow> ff_status r1 = kOk \<and>
           {f_requester_id f, f_addressee_id f} = {a, b} \<and> f_requester_id f \<noteq> f_addressee_id f"
    if inv: "repo_inv db" and run: "run_state (ifr_findFriendship friend_repository_ops a b) db = (r1, db')"
  proof -
    have run': "run_state (findFriendship a b) db = (r1, db')"
      using run by (simp add: friend_repository_ops_def)
    have "friendships_ok (committed db')"
      using friend_ops_keep(1) [OF inv run'] by (simp add: repo_inv_def db_inv_def tables_ok_def)
    then show ?thesis
      using findFriendship_result [OF inv run']
      using ordered_row_users [of "committed db'" _ a b]
      by (cases "ff_friendship r1") (simp, force dest!: BuildFriendship_SomeD)
  qed
  show "case cf_friendship r2 of
         None \<Rightarrow> cf_status r2 \<noteq> kOk
       | Some f \<Rightarrow> cf_status r2 = kOk \<and> f_requester_id f = a \<and> f_addressee_id f = b"
    if "repo_inv db" "run_state (ifr_createFriendRequest friend_repository_ops a b) db = (r2, db')"
    using that createFriendRequest_result [of db a b r2 db']
    by (auto simp: friend_repository_ops_def split: option.splits)
  show "(uf_status r3 = kOk \<longleftrightarrow> uf_friendship r3 \<noteq> None) \<and>
      (uf_status r3 = kOk \<longrightarrow> request_accepted a b db db')"
    if "repo_inv db" "run_state (ifr_acceptFriendRequest friend_repository_ops a b) db = (r3, db')"
    using that acceptFriendRequest_result [of db a b r3 db'] by (simp add: friend_repository_ops_def)
qed (auto simp: friend_repository_ops_def dest: friend_ops_keep
    intro: db_guarantee.R_refl db_guarantee.R_trans)

section \<open>Properties\<close>



definition long_nickname :: string where
  "long_nickname = concat (replicate 33 (utf8_encode 0xe9))"

definition friends_with_long_nickname :: Tables where
  "friends_with_long_nickname = empty_tables\<lparr>
     t_users := [\<lparr>u_id = 2, u_username = ''bob'', u_password_hash = ''h'', u_nickname = long_nickname,
       u_status = 1, u_created_at = ''now'', u_updated_at = ''now''\<rparr>],
     t_friendships := [\<lparr>fr_id = 1, fr_requester_id = 1, fr_addressee_id = 2, fr_low = 1, fr_high = 2,
       fr_status = ''accepted'', fr_created_at = ''now'', fr_updated_at = ''now''\<rparr>]\<rparr>"

lemma long_nickname_length: "length long_nickname = 66"
  by (simp add: long_nickname_def utf8_encode_def length_concat sum_list_replicate)


end
