(* ===== verification/FriendService.thy ===== *)
theory FriendService
  imports FriendRepository ChatService
begin

text \<open>
  The friendship service (\<^verbatim>\<open>src/src/service/friend_service.cc\<close>). Every operation acts for the user logged in
  on the calling connection; the locale \<^verbatim>\<open>friend_backend\<close> combines the friendship store, the user
  directory and the session registry it works on, and shows who may do what.
\<close>

section \<open>Data\<close>

record FriendshipActionResult =
  far_code :: ErrorCode
  far_message :: string
  far_friendship :: "FriendshipRecord option"
  far_friend_user_id :: userId
  far_deleted :: bool

record ListFriendsResult =
  lfs_code :: ErrorCode
  lfs_message :: string
  lfs_friends :: "FriendshipListItem list"

record 'w FriendService =
  fs_session_manager :: "'w ISessionManager"
  fs_friend_repository :: "'w IFriendRepository"
  fs_user_repository :: "'w IUserRepository"

section \<open>Helpers\<close>

definition friend_MapRepositoryError :: "RepositoryStatus \<Rightarrow> ErrorCode" where
  "friend_MapRepositoryError status =
     (case status of
        kInsertFailed \<Rightarrow> DB_INSERT_FAILED
      | kDuplicate \<Rightarrow> DB_INSERT_FAILED
      | kQueryFailed \<Rightarrow> DB_QUERY_FAILED
      | kConnectionUnavailable \<Rightarrow> DB_QUERY_FAILED
      | kBorrowTimeout \<Rightarrow> DB_QUERY_FAILED
      | kNotFound \<Rightarrow> DB_QUERY_FAILED
      | _ \<Rightarrow> INTERNAL_ERROR)"

definition MakeActionError :: "ErrorCode \<Rightarrow> string \<Rightarrow> FriendshipActionResult" where
  "MakeActionError code message =
     \<lparr>far_code = code, far_message = message, far_friendship = None, far_friend_user_id = 0,
      far_deleted = False\<rparr>"

definition MakeListError :: "ErrorCode \<Rightarrow> string \<Rightarrow> ListFriendsResult" where
  "MakeListError code message = \<lparr>lfs_code = code, lfs_message = message, lfs_friends = []\<rparr>"

definition ValidateUserExists ::
  "'w IUserRepository \<Rightarrow> userId \<Rightarrow> string \<Rightarrow> string \<Rightarrow> ('w, FriendshipActionResult option) state" where
  "ValidateUserExists user_repository user_id missing_message query_failed_message = do {
     user \<leftarrow> iu_findById user_repository user_id;
     ret (if fu_status user = kNotFound \<or> (fu_status user = kOk \<and> fu_user user = None)
          then Some (MakeActionError USER_NOT_FOUND missing_message)
          else if fu_status user \<noteq> kOk
          then Some (MakeActionError (friend_MapRepositoryError (fu_status user)) query_failed_message)
          else None)
   }"

definition ExistingFriendshipError :: "FriendshipRecord \<Rightarrow> FriendshipActionResult" where
  "ExistingFriendshipError friendship =
     (if f_status friendship = kAccepted
      then MakeActionError FRIENDSHIP_ALREADY_EXISTS ''friendship already exists''
      else if f_status friendship = kBlocked
      then MakeActionError FRIENDSHIP_BLOCKED ''friendship is blocked''
      else MakeActionError FRIEND_REQUEST_ALREADY_EXISTS ''friend request already exists'')"

section \<open>Operations\<close>

definition request_friendship :: "'w FriendService \<Rightarrow> userId \<Rightarrow> userId \<Rightarrow> ('w, FriendshipActionResult) state" where
  "request_friendship srv user_id target_user_id = do {
     existing \<leftarrow> ifr_findFriendship (fs_friend_repository srv) user_id target_user_id;
     if ff_status existing = kOk \<and> ff_friendship existing \<noteq> None
     then ret (ExistingFriendshipError (the (ff_friendship existing)))
     else if ff_status existing \<noteq> kNotFound
     then ret (MakeActionError (friend_MapRepositoryError (ff_status existing)) ''query friendship failed'')
     else do {
       created \<leftarrow> ifr_createFriendRequest (fs_friend_repository srv) user_id target_user_id;
       ret (if cf_status created = kDuplicate
            then MakeActionError FRIEND_REQUEST_ALREADY_EXISTS ''friend request already exists''
            else if cf_status created \<noteq> kOk \<or> cf_friendship created = None
            then MakeActionError (friend_MapRepositoryError (cf_status created)) ''create friend request failed''
            else \<lparr>far_code = OK, far_message = ''friend request sent'', far_friendship = cf_friendship created,
                  far_friend_user_id = target_user_id, far_deleted = False\<rparr>)
     }
   }"

definition addFriend ::
  "'w FriendService \<Rightarrow> connectionId \<Rightarrow> AddFriendRequest \<Rightarrow> ('w, FriendshipActionResult) state" where
  "addFriend srv conn_id req =
     (if af_target_user_id req \<le> 0
      then ret (MakeActionError INVALID_PARAM ''target_user_id must be greater than 0'')
      else do {
        session \<leftarrow> gets (GetAuthenticatedSession (fs_session_manager srv) conn_id);
        case session of
          None \<Rightarrow> ret (MakeActionError NOT_LOGGED_IN ''User not logged in'')
        | Some s \<Rightarrow>
            if af_target_user_id req = cs_user_id s
            then ret (MakeActionError CANNOT_SEND_TO_SELF ''cannot add yourself as friend'')
            else do {
              err \<leftarrow> ValidateUserExists (fs_user_repository srv) (af_target_user_id req)
                ''target user not found'' ''query target user failed'';
              case err of
                Some e \<Rightarrow> ret e
              | None \<Rightarrow> request_friendship srv (cs_user_id s) (af_target_user_id req)
            }
      })"

definition accept_request :: "'w FriendService \<Rightarrow> userId \<Rightarrow> userId \<Rightarrow> ('w, FriendshipActionResult) state" where
  "accept_request srv requester_user_id user_id = do {
     existing \<leftarrow> ifr_findFriendship (fs_friend_repository srv) requester_user_id user_id;
     if ff_status existing = kNotFound
     then ret (MakeActionError FRIEND_REQUEST_NOT_FOUND ''friend request not found'')
     else if ff_status existing \<noteq> kOk
     then ret (MakeActionError (friend_MapRepositoryError (ff_status existing)) ''query friendship failed'')
     else case ff_friendship existing of
       None \<Rightarrow> ret (MakeActionError FRIEND_REQUEST_NOT_FOUND ''friend request not found'')
     | Some friendship \<Rightarrow>
         if f_status friendship = kAccepted
         then ret (MakeActionError FRIENDSHIP_ALREADY_EXISTS ''friendship already exists'')
         else if f_status friendship = kBlocked
         then ret (MakeActionError FRIENDSHIP_BLOCKED ''friendship is blocked'')
         else if f_requester_id friendship \<noteq> requester_user_id \<or> f_addressee_id friendship \<noteq> user_id
         then ret (MakeActionError FRIEND_REQUEST_NOT_FOUND ''friend request not found'')
         else do {
           accepted \<leftarrow> ifr_acceptFriendRequest (fs_friend_repository srv) requester_user_id user_id;
           ret (if uf_status accepted = kNotFound
                then MakeActionError FRIEND_REQUEST_NOT_FOUND ''friend request not found''
                else if uf_status accepted \<noteq> kOk
                then MakeActionError (friend_MapRepositoryError (uf_status accepted)) ''accept friend request failed''
                else if uf_friendship accepted = None
                then MakeActionError FRIEND_REQUEST_NOT_FOUND ''friend request not found''
                else \<lparr>far_code = OK, far_message = ''friend request accepted'',
                      far_friendship = uf_friendship accepted, far_friend_user_id = requester_user_id,
                      far_deleted = False\<rparr>)
         }
   }"

definition acceptFriend ::
  "'w FriendService \<Rightarrow> connectionId \<Rightarrow> AcceptFriendRequest \<Rightarrow> ('w, FriendshipActionResult) state" where
  "acceptFriend srv conn_id req =
     (if acf_requester_user_id req \<le> 0
      then ret (MakeActionError INVALID_PARAM ''requester_user_id must be greater than 0'')
      else do {
        session \<leftarrow> gets (GetAuthenticatedSession (fs_session_manager srv) conn_id);
        case session of
          None \<Rightarrow> ret (MakeActionError NOT_LOGGED_IN ''User not logged in'')
        | Some s \<Rightarrow>
            if acf_requester_user_id req = cs_user_id s
            then ret (MakeActionError CANNOT_SEND_TO_SELF ''cannot accept your own friend request'')
            else do {
              err \<leftarrow> ValidateUserExists (fs_user_repository srv) (acf_requester_user_id req)
                ''requester user not found'' ''query requester user failed'';
              case err of
                Some e \<Rightarrow> ret e
              | None \<Rightarrow> accept_request srv (acf_requester_user_id req) (cs_user_id s)
            }
      })"

definition deleteFriend ::
  "'w FriendService \<Rightarrow> connectionId \<Rightarrow> DeleteFriendRequest \<Rightarrow> ('w, FriendshipActionResult) state" where
  "deleteFriend srv conn_id req =
     (if df_friend_user_id req \<le> 0
      then ret (MakeActionError INVALID_PARAM ''friend_user_id must be greater than 0'')
      else do {
        session \<leftarrow> gets (GetAuthenticatedSession (fs_session_manager srv) conn_id);
        case session of
          None \<Rightarrow> ret (MakeActionError NOT_LOGGED_IN ''User not logged in'')
        | Some s \<Rightarrow>
            if df_friend_user_id req = cs_user_id s
            then ret (MakeActionError CANNOT_SEND_TO_SELF ''cannot delete yourself as friend'')
            else do {
              deleted \<leftarrow> ifr_deleteFriendship (fs_friend_repository srv) (cs_user_id s) (df_friend_user_id req);
              ret (if dfr_status deleted = kNotFound
                   then MakeActionError FRIENDSHIP_NOT_FOUND ''friendship not found''
                   else if dfr_status deleted \<noteq> kOk
                   then MakeActionError (friend_MapRepositoryError (dfr_status deleted)) ''delete friendship failed''
                   else if dfr_affected_rows deleted = 0
                   then MakeActionError FRIENDSHIP_NOT_FOUND ''friendship not found''
                   else \<lparr>far_code = OK, far_message = ''friendship deleted'', far_friendship = None,
                         far_friend_user_id = df_friend_user_id req, far_deleted = True\<rparr>)
            }
      })"

definition listFriends :: "'w FriendService \<Rightarrow> connectionId \<Rightarrow> ('w, ListFriendsResult) state" where
  "listFriends srv conn_id = do {
     session \<leftarrow> gets (GetAuthenticatedSession (fs_session_manager srv) conn_id);
     case session of
       None \<Rightarrow> ret (MakeListError NOT_LOGGED_IN ''User not logged in'')
     | Some s \<Rightarrow> do {
         lst \<leftarrow> ifr_listFriendships (fs_friend_repository srv) (cs_user_id s);
         ret (if lfr_status lst \<noteq> kOk
              then MakeListError (friend_MapRepositoryError (lfr_status lst)) ''list friends failed''
              else \<lparr>lfs_code = OK, lfs_message = ''Success'', lfs_friends = lfr_friends lst\<rparr>)
       }
   }"


section \<open>What the service relies on\<close>

locale friend_backend =
  friends: friendship_store "fs_friend_repository srv" inv later accepted_by +
  users: user_directory "fs_user_repository srv" inv later users key +
  registry: session_registry "fs_session_manager srv" inv sess conns
  for srv :: "'w FriendService"
    and inv :: "'w \<Rightarrow> bool"
    and later :: "'w \<Rightarrow> 'w \<Rightarrow> bool"
    and accepted_by :: "userId \<Rightarrow> userId \<Rightarrow> 'w \<Rightarrow> 'w \<Rightarrow> bool"
    and users :: "'w \<Rightarrow> UserRecord list"
    and key :: "'w \<Rightarrow> string \<Rightarrow> string"
    and sess :: "'w \<Rightarrow> connectionId \<rightharpoonup> ConnectionSession"
    and conns :: "'w \<Rightarrow> userId \<Rightarrow> connectionId list"

lemma action_error_simps [simp]:
  "far_code (MakeActionError code message) = code" "far_friendship (MakeActionError code message) = None"
  "\<not> far_deleted (MakeActionError code message)"
  by (simp_all add: MakeActionError_def)

lemma friend_mapped_errors [simp]: "friend_MapRepositoryError status \<noteq> OK"
  by (cases status) (simp_all add: friend_MapRepositoryError_def)

lemma existing_error [simp]: "far_code (ExistingFriendshipError f) \<noteq> OK"
  by (simp add: ExistingFriendshipError_def)

context friend_backend
begin

lemma authenticated:
  "GetAuthenticatedSession (fs_session_manager srv) conn w = Some s \<longleftrightarrow> sess w conn = Some s \<and> cs_authenticated s"
  by (auto simp: GetAuthenticatedSession_def registry.get_session split: option.splits)

lemma ValidateUserExists_wp:
  assumes "inv w"
  shows "wp (ValidateUserExists (fs_user_repository srv) uid m1 m2)
    (\<lambda>r w'. inv w' \<and> later w w' \<and>
       (case r of None \<Rightarrow> \<exists>u \<in> set (users w'). u_id u = uid | Some e \<Rightarrow> far_code e \<noteq> OK)) w"
  unfolding ValidateUserExists_def
proof (rule wp_bind, rule wpI, rule wp_ret, goal_cases)
  case (1 fres w1)
  then show ?case
    using users.id_keeps [OF assms 1] users.id_found [OF assms 1] by (auto split: option.splits)
qed

definition add_post :: "connectionId \<Rightarrow> AddFriendRequest \<Rightarrow> 'w \<Rightarrow> FriendshipActionResult \<Rightarrow> 'w \<Rightarrow> bool" where
  "add_post conn req w res w' \<longleftrightarrow> inv w' \<and> later w w' \<and>
     (far_code res = OK \<longrightarrow>
        (\<exists>s f. sess w conn = Some s \<and> cs_authenticated s \<and> far_friendship res = Some f \<and>
           f_requester_id f = cs_user_id s \<and> f_addressee_id f = af_target_user_id req \<and>
           af_target_user_id req \<noteq> cs_user_id s \<and> (\<exists>u \<in> set (users w'). u_id u = af_target_user_id req)))"

lemma request_friendship_wp:
  assumes "inv w"
  shows "wp (request_friendship srv a b)
    (\<lambda>res w'. inv w' \<and> later w w' \<and> (far_code res = OK \<longrightarrow>
       (\<exists>f. far_friendship res = Some f \<and> f_requester_id f = a \<and> f_addressee_id f = b))) w"
  unfolding request_friendship_def
proof (rule wp_bind, rule wpI, goal_cases)
  case (1 fres w1)
  have w1: "inv w1" "later w w1"
    using friends.find_keeps [OF assms 1] by auto
  show ?case
  proof (intro wp_if, goal_cases)
    case 3
    show ?case
    proof (rule wp_bind, rule wpI, rule wp_ret, goal_cases)
      case (1 cres w2)
      then show ?case
        using friends.create_keeps [OF w1(1) 1] friends.create_result [OF w1(1) 1] friends.later_trans [OF w1(2)]
        by (auto split: option.splits)
    qed
  qed (use w1 in \<open>auto intro!: wp_ret\<close>)
qed

lemma addFriend_wp:
  assumes "inv w"
  shows "wp (addFriend srv conn req) (add_post conn req w) w"
  unfolding addFriend_def
proof (intro wp_if wp_bind wp_gets wp_case_option, goal_cases)
  case (4 s)
  show ?case
  proof (rule wp_mono [OF ValidateUserExists_wp [OF assms]], goal_cases)
    case (1 err w1)
    then have w1: "inv w1" "later w w1" and err: "case err of None \<Rightarrow> \<exists>u \<in> set (users w1). u_id u = af_target_user_id req
        | Some e \<Rightarrow> far_code e \<noteq> OK"
      by auto
    show ?case
    proof (rule wp_case_option, goal_cases)
      case 1
      show ?case
      proof (rule wp_mono [OF request_friendship_wp [OF w1(1)]], goal_cases)
        case (1 res w2)
        then have "later w1 w2"
          by blast
        moreover obtain u where "u \<in> set (users w1)" "u_id u = af_target_user_id req"
          using err \<open>err = None\<close> by auto
        ultimately have "\<exists>u \<in> set (users w2). u_id u = af_target_user_id req" "later w w2"
          using users.later_users [of w1 w2 u] friends.later_trans [OF w1(2)] by auto
        then show ?case
          using 1 4 by (auto simp: add_post_def authenticated)
      qed
    qed (use w1 err in \<open>auto intro!: wp_ret simp: add_post_def\<close>)
  qed
qed (auto intro!: wp_ret simp: add_post_def assms friends.later_refl)

definition accept_post :: "connectionId \<Rightarrow> AcceptFriendRequest \<Rightarrow> 'w \<Rightarrow> FriendshipActionResult \<Rightarrow> 'w \<Rightarrow> bool" where
  "accept_post conn req w res w' \<longleftrightarrow> inv w' \<and> later w w' \<and>
     (far_code res = OK \<longrightarrow>
        (\<exists>s w1. sess w conn = Some s \<and> cs_authenticated s \<and> acf_requester_user_id req \<noteq> cs_user_id s \<and>
           inv w1 \<and> later w w1 \<and> accepted_by (acf_requester_user_id req) (cs_user_id s) w1 w'))"

lemma accept_request_wp:
  assumes "inv w"
  shows "wp (accept_request srv a b)
    (\<lambda>res w'. inv w' \<and> later w w' \<and> (far_code res = OK \<longrightarrow> (\<exists>w1. inv w1 \<and> later w w1 \<and> accepted_by a b w1 w'))) w"
  unfolding accept_request_def
proof (rule wp_bind, rule wpI, goal_cases)
  case (1 fres w1)
  have w1: "inv w1" "later w w1"
    using friends.find_keeps [OF assms 1] by auto
  show ?case
  proof (intro wp_if wp_case_option, goal_cases)
    case (7 f)
    show ?case
    proof (rule wp_bind, rule wpI, rule wp_ret, goal_cases)
      case (1 ures w2)
      then show ?case
        using friends.accept_keeps [OF w1(1) 1] friends.accept_result [OF w1(1) 1] w1 friends.later_trans [OF w1(2)]
        by auto
    qed
  qed (use w1 in \<open>auto intro!: wp_ret\<close>)
qed

lemma acceptFriend_wp:
  assumes "inv w"
  shows "wp (acceptFriend srv conn req) (accept_post conn req w) w"
  unfolding acceptFriend_def
proof (intro wp_if wp_bind wp_gets wp_case_option, goal_cases)
  case (4 s)
  show ?case
  proof (rule wp_mono [OF ValidateUserExists_wp [OF assms]], goal_cases)
    case (1 err w1)
    then have w1: "inv w1" "later w w1" and err: "err \<noteq> None \<Longrightarrow> far_code (the err) \<noteq> OK"
      by (auto split: option.splits)
    show ?case
    proof (rule wp_case_option, goal_cases)
      case 1
      show ?case
        by (rule wp_mono [OF accept_request_wp [OF w1(1)]])
          (use 4 in \<open>auto simp: accept_post_def authenticated intro: friends.later_trans [OF w1(2)]\<close>)
    qed (use w1 err in \<open>auto intro!: wp_ret simp: accept_post_def\<close>)
  qed
qed (auto intro!: wp_ret simp: accept_post_def assms friends.later_refl)

end

end
