(* ===== verification/GroupRepository.thy ===== *)
theory GroupRepository
  imports MySql Validator "HOL-Library.Sublist"
begin

text \<open>
  The group tables, \<^verbatim>\<open>src/src/db/group_repository.cc\<close>. A group is created together with its conversation
  and its first members in one transaction. The transaction helpers are those of the message
  repository (theory \<^verbatim>\<open>MySql\<close>), except that \<^verbatim>\<open>Rollback\<close> here keeps the connection when the rollback
  fails with an error other than a lost connection.
\<close>

section \<open>Interface\<close>

record GroupRepositoryCreateResult =
  gc_status :: RepositoryStatus
  gc_group :: "GroupRecord option"
  gc_created :: bool

record GroupRepositoryFindResult =
  gf_status :: RepositoryStatus
  gf_group :: "GroupRecord option"

record GroupRepositoryAddMemberResult =
  ga_status :: RepositoryStatus
  ga_member :: "GroupMemberRecord option"
  ga_created :: bool

record GroupRepositoryListMembersResult =
  gl_status :: RepositoryStatus
  gl_members :: "GroupMemberRecord list"

record 'w IGroupRepository =
  igr_createGroup :: "GroupRecord \<Rightarrow> GroupMemberRecord list \<Rightarrow> ('w, GroupRepositoryCreateResult) state"
  igr_findGroup :: "string \<Rightarrow> ('w, GroupRepositoryFindResult) state"
  igr_addMember :: "GroupMemberRecord \<Rightarrow> ('w, GroupRepositoryAddMemberResult) state"
  igr_listMembers :: "string \<Rightarrow> ('w, GroupRepositoryListMembersResult) state"

definition group_failure :: "RepositoryStatus \<Rightarrow> GroupRepositoryCreateResult" where
  "group_failure status = \<lparr>gc_status = status, gc_group = None, gc_created = False\<rparr>"

definition duplicate_or :: "RepositoryStatus \<Rightarrow> nat \<Rightarrow> RepositoryStatus" where
  "duplicate_or status err = (if err = kMysqlDuplicateEntryError then kDuplicate else status)"

section \<open>Statements\<close>

definition select_group :: "string \<Rightarrow> (GroupRecord option) stmt" where
  "select_group gid ck now t = Inr (t, find (\<lambda>g. ck (g_id g) = ck gid) (t_groups t))"

definition new_group_conversation :: "string \<Rightarrow> ConversationRow" where
  "new_group_conversation cid =
     \<lparr>cv_id = cid, cv_type = ''group'', cv_single_chat_key = None, cv_last_seq = 0\<rparr>"

definition insert_group_conversation :: "string \<Rightarrow> unit stmt" where
  "insert_group_conversation cid ck now t =
     (if \<exists>c \<in> set (t_conversations t). ck (cv_id c) = ck cid then Inl kMysqlDuplicateEntryError
      else Inr (t\<lparr>t_conversations := t_conversations t @ [new_group_conversation cid]\<rparr>, ()))"

definition insert_group :: "GroupRecord \<Rightarrow> unit stmt" where
  "insert_group grp ck now t =
     (if \<exists>g \<in> set (t_groups t). ck (g_id g) = ck (g_id grp) \<or>
           ck (g_conversation_id g) = ck (g_conversation_id grp)
      then Inl kMysqlDuplicateEntryError
      else Inr (t\<lparr>t_groups := t_groups t @
                    [\<lparr>g_id = g_id grp, g_name = g_name grp, g_owner_id = g_owner_id grp,
                      g_conversation_id = g_conversation_id grp, g_created_at = now,
                      g_updated_at = now\<rparr>]\<rparr>, ()))"

definition same_member :: "(string \<Rightarrow> string) \<Rightarrow> GroupMemberRecord \<Rightarrow> GroupMemberRecord \<Rightarrow> bool" where
  "same_member ck member m \<longleftrightarrow>
     ck (gm_group_id m) = ck (gm_group_id member) \<and> gm_user_id m = gm_user_id member"

definition member_row :: "GroupMemberRecord \<Rightarrow> string \<Rightarrow> GroupMemberRecord" where
  "member_row member now =
     \<lparr>gm_group_id = gm_group_id member, gm_user_id = gm_user_id member, gm_role = gm_role member,
      gm_joined_at = now\<rparr>"

definition insert_group_member :: "GroupMemberRecord \<Rightarrow> unit stmt" where
  "insert_group_member member ck now t =
     (if \<exists>m \<in> set (t_group_members t). same_member ck member m then Inl kMysqlDuplicateEntryError
      else Inr (t\<lparr>t_group_members := t_group_members t @ [member_row member now]\<rparr>, ()))"

text \<open>\<^verbatim>\<open>ON DUPLICATE KEY UPDATE role=VALUES(role)\<close>.\<close>

definition upsert_group_member :: "GroupMemberRecord \<Rightarrow> unit stmt" where
  "upsert_group_member member ck now t =
     (if \<exists>m \<in> set (t_group_members t). same_member ck member m
      then Inr (t\<lparr>t_group_members :=
                    map (\<lambda>m. if same_member ck member m then m\<lparr>gm_role := gm_role member\<rparr> else m)
                      (t_group_members t)\<rparr>, ())
      else Inr (t\<lparr>t_group_members := t_group_members t @ [member_row member now]\<rparr>, ()))"

definition select_group_members :: "string \<Rightarrow> (GroupMemberRecord list) stmt" where
  "select_group_members gid ck now t =
     Inr (t, sort_key (\<lambda>m. (gm_joined_at m, gm_user_id m))
        (filter (\<lambda>m. ck (gm_group_id m) = ck gid) (t_group_members t)))"

section \<open>Methods\<close>

definition group_Rollback :: "(Db, unit) state" where
  "group_Rollback = do {
     e \<leftarrow> next_event;
     if se_errno e \<noteq> 0 then (if IsConnectionError (se_errno e) then markBad else ret ())
     else discard
   }"

text \<open>The buffers of \<^verbatim>\<open>ReadGroup\<close> hold 65 bytes of identifier and 129 bytes of name.\<close>

definition group_fits :: "GroupRecord \<Rightarrow> bool" where
  "group_fits g \<longleftrightarrow>
     length (g_id g) \<le> 65 \<and> length (g_name g) \<le> 129 \<and> length (g_conversation_id g) \<le> 65 \<and>
     length (g_created_at g) \<le> 32 \<and> length (g_updated_at g) \<le> 32"

definition ReadGroup :: "string \<Rightarrow> (Db, GroupRepositoryFindResult) state" where
  "ReadGroup gid = do {
     r \<leftarrow> run_sql (select_group gid);
     case r of
       Inl err \<Rightarrow> do {
         status \<leftarrow> StatementFailure err kQueryFailed;
         ret \<lparr>gf_status = status, gf_group = None\<rparr>
       }
     | Inr found \<Rightarrow>
         (case found of
            None \<Rightarrow> ret \<lparr>gf_status = kNotFound, gf_group = None\<rparr>
          | Some g \<Rightarrow>
              if \<not> group_fits g then ret \<lparr>gf_status = kQueryFailed, gf_group = None\<rparr>
              else ret \<lparr>gf_status = kOk, gf_group = Some g\<rparr>)
   }"

text \<open>The member loop of \<^verbatim>\<open>createGroup\<close>; the result is the status of the first failure.\<close>

fun insert_members :: "GroupMemberRecord list \<Rightarrow> (Db, RepositoryStatus option) state" where
  "insert_members [] = ret None"
| "insert_members (member # rest) = do {
     r \<leftarrow> ExecuteUpdate (upsert_group_member member) kInsertFailed;
     case r of
       Inl (status, _) \<Rightarrow> do { group_Rollback; ret (Some status) }
     | Inr _ \<Rightarrow> insert_members rest
   }"

definition createGroup_members ::
  "GroupRecord \<Rightarrow> GroupMemberRecord list \<Rightarrow> (Db, GroupRepositoryCreateResult) state" where
  "createGroup_members grp initial_members = do {
     failed \<leftarrow> insert_members initial_members;
     case failed of
       Some status \<Rightarrow> ret (group_failure status)
     | None \<Rightarrow> do {
         c \<leftarrow> Commit;
         if \<not> c then do { group_Rollback; ret (group_failure kQueryFailed) }
         else ret \<lparr>gc_status = kOk, gc_group = Some grp, gc_created = True\<rparr>
       }
   }"

definition createGroup ::
  "GroupRecord \<Rightarrow> GroupMemberRecord list \<Rightarrow> (Db, GroupRepositoryCreateResult) state" where
  "createGroup grp initial_members = do {
     e \<leftarrow> borrow_connection;
     if e \<noteq> kNone then ret (group_failure (MapBorrowError e))
     else do {
       b \<leftarrow> Begin;
       if \<not> b then ret (group_failure kQueryFailed)
       else do {
         r \<leftarrow> ExecuteUpdate (insert_group_conversation (g_conversation_id grp)) kInsertFailed;
         case r of
           Inl (status, err) \<Rightarrow> do { group_Rollback; ret (group_failure (duplicate_or status err)) }
         | Inr _ \<Rightarrow> do {
             r2 \<leftarrow> ExecuteUpdate (insert_group grp) kInsertFailed;
             case r2 of
               Inl (status, err) \<Rightarrow> do { group_Rollback; ret (group_failure (duplicate_or status err)) }
             | Inr _ \<Rightarrow> createGroup_members grp initial_members
           }
       }
     }
   }"

definition findGroup :: "string \<Rightarrow> (Db, GroupRepositoryFindResult) state" where
  "findGroup gid = do {
     e \<leftarrow> borrow_connection;
     if e \<noteq> kNone then ret \<lparr>gf_status = MapBorrowError e, gf_group = None\<rparr>
     else ReadGroup gid
   }"

definition addMember :: "GroupMemberRecord \<Rightarrow> (Db, GroupRepositoryAddMemberResult) state" where
  "addMember member = do {
     e \<leftarrow> borrow_connection;
     if e \<noteq> kNone then ret \<lparr>ga_status = MapBorrowError e, ga_member = None, ga_created = False\<rparr>
     else do {
       r \<leftarrow> ExecuteUpdate (insert_group_member member) kInsertFailed;
       case r of
         Inl (status, err) \<Rightarrow>
           ret \<lparr>ga_status = duplicate_or status err, ga_member = None, ga_created = False\<rparr>
       | Inr _ \<Rightarrow> ret \<lparr>ga_status = kOk, ga_member = Some member, ga_created = True\<rparr>
     }
   }"

definition member_fits :: "GroupMemberRecord \<Rightarrow> bool" where
  "member_fits m \<longleftrightarrow>
     length (gm_group_id m) \<le> 65 \<and> length (gm_role m) \<le> 21 \<and> length (gm_joined_at m) \<le> 32"

text \<open>The fetch loop of \<^verbatim>\<open>listMembers\<close>.\<close>

fun member_fetch :: "GroupMemberRecord list \<Rightarrow> GroupMemberRecord list \<Rightarrow> (GroupMemberRecord list) option" where
  "member_fetch [] acc = Some acc"
| "member_fetch (m # ms) acc = (if \<not> member_fits m then None else member_fetch ms (acc @ [m]))"

definition listMembers :: "string \<Rightarrow> (Db, GroupRepositoryListMembersResult) state" where
  "listMembers gid = do {
     e \<leftarrow> borrow_connection;
     if e \<noteq> kNone then ret \<lparr>gl_status = MapBorrowError e, gl_members = []\<rparr>
     else do {
       r \<leftarrow> run_sql (select_group_members gid);
       case r of
         Inl err \<Rightarrow> do {
           status \<leftarrow> StatementFailure err kQueryFailed;
           ret \<lparr>gl_status = status, gl_members = []\<rparr>
         }
       | Inr rows \<Rightarrow>
           (case member_fetch rows [] of
              None \<Rightarrow> ret \<lparr>gl_status = kQueryFailed, gl_members = []\<rparr>
            | Some members \<Rightarrow> ret \<lparr>gl_status = kOk, gl_members = members\<rparr>)
     }
   }"

definition group_repository_ops :: "Db IGroupRepository" where
  "group_repository_ops =
     \<lparr>igr_createGroup = createGroup, igr_findGroup = findGroup, igr_addMember = addMember,
      igr_listMembers = listMembers\<rparr>"

section \<open>Every statement keeps the groups consistent\<close>

lemma reading_group_selects [simp]:
  "reading (select_group gid)" "reading (select_group_members gid)"
  by (auto simp: reading_def select_group_def select_group_members_def)

lemma growing_insert_group_conversation: "growing (insert_group_conversation cid)"
proof (unfold growing_def, intro allI impI)
  fix ck now t t' a
  assume "tables_ok ck t" and "insert_group_conversation cid ck now t = Inr (t', a)"
  then have t': "t' = t\<lparr>t_conversations := t_conversations t @ [new_group_conversation cid]\<rparr>"
    and fresh: "\<forall>c \<in> set (t_conversations t). ck (cv_id c) \<noteq> ck cid"
    by (auto simp: insert_group_conversation_def split: if_splits)
  have "messages_grow t t'"
    by (rule messages_grow_subset) (auto simp: t')
  moreover have "messages_ok ck t \<Longrightarrow> messages_ok ck t'"
    using fresh by (fastforce simp: t' messages_ok_def new_group_conversation_def int64_max_def)
  ultimately show "db_grow ck t t'"
    by (auto simp: db_grow_def tables_ok_def t' users_ok_def friendships_ok_def groups_ok_def
        users_grow_def intro: friends_grow_same)
qed

lemma db_grow_groups:
  assumes "groups_ok ck (t\<lparr>t_groups := gs, t_group_members := ms\<rparr>)"
  shows "db_grow ck t (t\<lparr>t_groups := gs, t_group_members := ms\<rparr>)"
proof -
  have "messages_grow t (t\<lparr>t_groups := gs, t_group_members := ms\<rparr>)"
    by (rule messages_grow_subset) simp_all
  then show ?thesis
    using assms
    by (auto simp: db_grow_def tables_ok_def messages_ok_def users_ok_def friendships_ok_def
        users_grow_def intro: friends_grow_same)
qed

lemma growing_insert_group: "growing (insert_group grp)"
proof (unfold growing_def, intro allI impI)
  fix ck now t t' a
  assume "tables_ok ck t" "insert_group grp ck now t = Inr (t', a)"
  then show "db_grow ck t t'"
    using db_grow_groups [where t = t and gs = "t_groups t'" and ms = "t_group_members t" and ck = ck]
    by (fastforce simp: insert_group_def tables_ok_def groups_ok_def image_iff split: if_splits)
qed

lemma member_keys_role:
  "map (\<lambda>m. (ck (gm_group_id m), gm_user_id m)) (map (\<lambda>m. if P m then m\<lparr>gm_role := r\<rparr> else m) ms) =
   map (\<lambda>m. (ck (gm_group_id m), gm_user_id m)) ms"
  by simp

lemma growing_group_members:
  "growing (insert_group_member member)" "growing (upsert_group_member member)"
proof -
  have new: "db_grow ck t (t\<lparr>t_group_members := t_group_members t @ [member_row member now]\<rparr>)"
    if "groups_ok ck t" "\<not> (\<exists>m \<in> set (t_group_members t). same_member ck member m)" for ck now t
    using that db_grow_groups [where t = t and gs = "t_groups t" and ck = ck
        and ms = "t_group_members t @ [member_row member now]"]
    by (fastforce simp: groups_ok_def same_member_def member_row_def image_iff)
  have role: "db_grow ck t (t\<lparr>t_group_members :=
      map (\<lambda>m. if same_member ck member m then m\<lparr>gm_role := gm_role member\<rparr> else m) (t_group_members t)\<rparr>)"
    if "groups_ok ck t" for ck t
    using that db_grow_groups [where t = t and gs = "t_groups t" and ck = ck
        and ms = "map (\<lambda>m. if same_member ck member m then m\<lparr>gm_role := gm_role member\<rparr> else m)
          (t_group_members t)"]
    by (simp add: groups_ok_def member_keys_role del: map_map)
  show "growing (insert_group_member member)" "growing (upsert_group_member member)"
    using new role
    by (auto simp: growing_def insert_group_member_def upsert_group_member_def tables_ok_def
        split: if_splits)
qed

lemmas growing_group_statements = growing_insert_group_conversation growing_insert_group
  growing_group_members reading_growing [OF reading_group_selects(1)]
  reading_growing [OF reading_group_selects(2)]

lemma auto_ReadGroup: "auto_safe (ReadGroup gid)"
  unfolding ReadGroup_def by (intro auto_sql growing_group_statements)

lemma group_ops_keep:
  assumes "repo_inv db"
  shows "run_state (findGroup gid) db = (r1, db') \<Longrightarrow> repo_inv db' \<and> db_guar db db'"
    and "run_state (addMember m) db = (r2, db') \<Longrightarrow> repo_inv db' \<and> db_guar db db'"
    and "run_state (listMembers gid) db = (r3, db') \<Longrightarrow> repo_inv db' \<and> db_guar db db'"
  unfolding findGroup_def addMember_def listMembers_def
  by (erule borrow_then [OF assms, rotated],
      intro auto_sql growing_group_statements auto_ReadGroup)+

lemma safe_group_Rollback: "safe group_Rollback"
  unfolding group_Rollback_def by (intro safe_rules)

lemma safe_insert_members: "safe (insert_members ms)"
  by (induction ms) (auto intro!: safe_sql safe_group_Rollback growing_group_statements)

lemma safe_createGroup: "safe (createGroup grp ms)"
  unfolding createGroup_def createGroup_members_def
  by (intro safe_sql safe_group_Rollback safe_insert_members growing_group_statements)

section \<open>Creating a group is atomic\<close>

text \<open>The step from \<^term>\<open>db\<close> to \<^term>\<open>db'\<close> committed nothing of its own: the committed tables are what
  some of the other clients' commits make of the first ones.\<close>

definition others_only :: "Db \<Rightarrow> Db \<Rightarrow> bool" where
  "others_only db db' \<longleftrightarrow>
     db_collate db' = db_collate db \<and> db_clock db' = db_clock db \<and>
     (\<exists>used es. db_events db = used @ db_events db' \<and> subseq es used \<and>
        committed db' = fold se_env es (committed db))"

lemma others_only_refl [simp]: "others_only db db"
  unfolding others_only_def by (auto intro!: exI [of _ "[]"])

lemma others_only_trans:
  assumes "others_only a b" "others_only b c"
  shows "others_only a c"
proof -
  obtain u1 e1 u2 e2 where steps:
    "db_events a = u1 @ db_events b" "subseq e1 u1" "committed b = fold se_env e1 (committed a)"
    "db_events b = u2 @ db_events c" "subseq e2 u2" "committed c = fold se_env e2 (committed b)"
    using assms unfolding others_only_def by blast
  have params: "db_collate c = db_collate a" "db_clock c = db_clock a"
    using assms by (simp_all add: others_only_def)
  have "db_events a = (u1 @ u2) @ db_events c" "subseq (e1 @ e2) (u1 @ u2)"
    "committed c = fold se_env (e1 @ e2) (committed a)"
    using steps by (simp_all add: list_emb_append_mono)
  then show ?thesis
    unfolding others_only_def using params by blast
qed

text \<open>In an open transaction nothing is committed, and a statement acts on the tables of the
  transaction alone.\<close>

definition txn_open :: "Db \<Rightarrow> bool" where
  "txn_open db \<longleftrightarrow> db_snapshot db \<noteq> None"

lemma others_only_event:
  "wp next_event (\<lambda>e db'. others_only db db' \<and> db_snapshot db' = db_snapshot db \<and>
    (txn_open db \<longrightarrow> db_tables db' = db_tables db)) db"
proof (cases "db_events db")
  case Nil
  then show ?thesis
    by (simp add: wp_def next_event_def)
next
  case (Cons e es)
  show ?thesis
  proof (cases "db_snapshot db")
    case None
    then have "others_only db (db\<lparr>db_events := es, db_tables := se_env e (db_tables db)\<rparr>)"
      unfolding others_only_def using Cons
      by (intro conjI exI [of _ "[e]"]) (simp_all add: committed_def)
    then show ?thesis
      using None Cons by (simp add: wp_def next_event_def txn_open_def)
  next
    case (Some t)
    then have "others_only db (db\<lparr>db_events := es\<rparr>)"
      unfolding others_only_def using Cons
      by (intro conjI exI [of _ "[e]"] exI [of _ "[]"]) (simp_all add: committed_def)
    then show ?thesis
      using Some Cons by (simp add: wp_def next_event_def txn_open_def)
  qed
qed

lemma others_only_frame:
  "others_only db (db\<lparr>db_bad := b\<rparr>)" "others_only db (db\<lparr>db_borrows := bs\<rparr>)"
  "others_only db (db\<lparr>db_tables := committed db, db_snapshot := None\<rparr>)"
  "others_only db (db\<lparr>db_snapshot := Some (committed db)\<rparr>)"
  "txn_open db \<Longrightarrow> others_only db (db\<lparr>db_tables := t\<rparr>)"
  unfolding others_only_def txn_open_def committed_def
  by (auto intro!: exI [of _ "[]"] split: option.splits)

lemma others_only_StatementFailure:
  "wp (StatementFailure err fallback) (\<lambda>status db'. others_only db db' \<and> db_snapshot db' = db_snapshot db \<and>
    db_tables db' = db_tables db \<and> (fallback \<noteq> kOk \<longrightarrow> status \<noteq> kOk)) db"
  by (simp add: wp_def StatementFailure_def markBad_def others_only_frame)

lemma ExecuteUpdate_open:
  assumes "txn_open db" "fallback \<noteq> kOk"
  shows "wp (ExecuteUpdate stmt fallback) (\<lambda>r db'. others_only db db' \<and> db_snapshot db' = db_snapshot db \<and>
    (case r of
       Inl (status, err) \<Rightarrow> status \<noteq> kOk
     | Inr a \<Rightarrow> stmt (db_collate db) (db_clock db) (db_tables db) = Inr (db_tables db', a))) db"
proof -
  have act: "wp (apply_stmt stmt) (\<lambda>r db'. others_only db1 db' \<and> db_snapshot db' = db_snapshot db1 \<and>
      (case r of Inl err \<Rightarrow> True
       | Inr a \<Rightarrow> stmt (db_collate db1) (db_clock db1) (db_tables db1) = Inr (db_tables db', a))) db1"
    if "txn_open db1" for db1
    using that by (auto simp: wp_def apply_stmt_def others_only_frame split: sum.splits)
  have run: "wp (run_sql stmt) (\<lambda>r db'. others_only db db' \<and> db_snapshot db' = db_snapshot db \<and>
      (case r of Inl err \<Rightarrow> True
       | Inr a \<Rightarrow> stmt (db_collate db) (db_clock db) (db_tables db) = Inr (db_tables db', a))) db"
    unfolding run_sql_def
  proof (rule wp_bind, rule wp_mono [OF others_only_event], goal_cases)
    case (1 e db1)
    then have "txn_open db1" "db_tables db1 = db_tables db"
      "db_collate db1 = db_collate db" "db_clock db1 = db_clock db"
      using assms(1) by (auto simp: txn_open_def others_only_def)
    then show ?case
      using 1 by (intro wp_intros wp_mono [OF act])
        (auto intro: others_only_trans split: sum.splits)
  qed
  show ?thesis
    unfolding ExecuteUpdate_def
    by (rule wp_bind, rule wp_mono [OF run], intro wp_intros wp_mono [OF others_only_StatementFailure])
      (use assms(2) in \<open>auto intro: others_only_trans\<close>)
qed

lemma others_only_Rollback: "wp group_Rollback (\<lambda>_ db'. others_only db db') db"
  unfolding group_Rollback_def
proof (rule wp_bind, rule wp_mono [OF others_only_event], goal_cases)
  case (1 e db1)
  then show ?case
    unfolding markBad_def discard_def
    by (intro wp_intros) (auto intro: others_only_trans [OF _ others_only_frame(1)]
        others_only_trans [OF _ others_only_frame(3)])
qed

lemma others_only_borrow: "wp borrow_connection (\<lambda>_ db'. others_only db db') db"
  by (auto simp: wp_def borrow_connection_def reconnect_def others_only_def
      intro!: exI [of _ "[]"] split: list.splits)

lemma others_only_Begin:
  assumes "db_snapshot db = None"
  shows "wp Begin (\<lambda>b db'. others_only db db' \<and>
    (b \<longrightarrow> db_snapshot db' = Some (db_tables db'))) db"
  unfolding Begin_def
proof (rule wp_bind, rule wp_mono [OF others_only_event], goal_cases)
  case (1 e db1)
  then have "committed db1 = db_tables db1"
    using assms by (simp add: committed_def)
  then show ?case
    using 1 others_only_frame(4) [of db1]
    by (intro wp_intros wp_mono [OF others_only_StatementFailure]) (auto intro: others_only_trans)
qed

text \<open>A commit either made the tables of the transaction the committed ones or did nothing.\<close>

lemma Commit_open:
  assumes "db_snapshot db = Some t0"
  shows "wp Commit (\<lambda>c db'. if committed db' = db_tables db \<and> db_snapshot db' = None
    then others_only (db\<lparr>db_snapshot := None\<rparr>) db' else \<not> c \<and> others_only db db') db"
proof -
  obtain e db1 where ev: "run_state next_event db = (e, db1)"
    by fastforce
  have db1: "others_only db db1" "db_snapshot db1 = Some t0" "db_tables db1 = db_tables db"
    using wpD [OF others_only_event ev] assms by (auto simp: txn_open_def)
  have closed: "others_only (db\<lparr>db_snapshot := None\<rparr>) (db1\<lparr>db_snapshot := None, db_bad := b\<rparr>)"
    for b
  proof -
    obtain used where "db_events db = used @ db_events db1"
      using db1(1) by (auto simp: others_only_def)
    then show ?thesis
      using db1 unfolding others_only_def
      by (intro conjI exI [of _ used] exI [of _ "[]"]) (simp_all add: committed_def)
  qed
  have unchanged: "db1\<lparr>db_snapshot := None, db_bad := db_bad db1\<rparr> = db1\<lparr>db_snapshot := None\<rparr>"
    by simp
  show ?thesis
    using db1 ev closed [of True] closed [of "db_bad db1", unfolded unchanged]
      others_only_trans [OF db1(1) others_only_frame(1)]
    by (auto simp: wp_def Commit_def StatementFailure_def markBad_def committed_def)
qed

text \<open>The whole effect of the transaction on the tables it began with.\<close>

definition upserted :: "(string \<Rightarrow> string) \<Rightarrow> string \<Rightarrow> GroupMemberRecord \<Rightarrow> Tables \<Rightarrow> Tables" where
  "upserted ck now member t =
     (case upsert_group_member member ck now t of Inl _ \<Rightarrow> t | Inr (t', _) \<Rightarrow> t')"

definition group_effect ::
  "GroupRecord \<Rightarrow> GroupMemberRecord list \<Rightarrow> (string \<Rightarrow> string) \<Rightarrow> string \<Rightarrow> Tables \<Rightarrow> Tables option" where
  "group_effect grp members ck now t =
     (case insert_group_conversation (g_conversation_id grp) ck now t of
        Inl _ \<Rightarrow> None
      | Inr (t1, _) \<Rightarrow>
          (case insert_group grp ck now t1 of
             Inl _ \<Rightarrow> None
           | Inr (t2, _) \<Rightarrow> Some (fold (upserted ck now) members t2)))"

lemma upserted_run: "upsert_group_member member ck now t = Inr (t', a) \<Longrightarrow> upserted ck now member t = t'"
  by (simp add: upserted_def)

lemma insert_members_open:
  assumes "txn_open db"
  shows "wp (insert_members ms) (\<lambda>r db'. others_only db db' \<and> r \<noteq> Some kOk \<and>
    (r = None \<longrightarrow> db_snapshot db' = db_snapshot db \<and>
       db_tables db' = fold (upserted (db_collate db) (db_clock db)) ms (db_tables db))) db"
  using assms
proof (induction ms arbitrary: db)
  case Nil
  then show ?case by (auto intro: wp_intros)
next
  case (Cons m ms)
  show ?case
    unfolding insert_members.simps
  proof (rule wp_bind, rule wp_mono [OF ExecuteUpdate_open], goal_cases)
    case (3 r db1)
    then have open1: "txn_open db1" and params: "db_collate db1 = db_collate db" "db_clock db1 = db_clock db"
      using Cons.prems by (auto simp: txn_open_def others_only_def)
    show ?case
      using 3 params
      by (intro wp_intros wp_mono [OF others_only_Rollback] wp_mono [OF Cons.IH [OF open1]])
        (auto simp: upserted_run intro: others_only_trans)
  qed (use Cons.prems in auto)
qed

text \<open>The group was created on top of other clients' commits, and only such commits followed.\<close>

definition group_committed :: "GroupRecord \<Rightarrow> GroupMemberRecord list \<Rightarrow> Db \<Rightarrow> Db \<Rightarrow> bool" where
  "group_committed grp members db db' \<longleftrightarrow>
     (\<exists>mid t. others_only db mid \<and>
        group_effect grp members (db_collate db) (db_clock db) (committed mid) = Some t \<and>
        others_only (mid\<lparr>db_tables := t, db_snapshot := None\<rparr>) db')"

definition create_group_post ::
  "GroupRecord \<Rightarrow> GroupMemberRecord list \<Rightarrow> Db \<Rightarrow> GroupRepositoryCreateResult \<Rightarrow> Db \<Rightarrow> bool" where
  "create_group_post grp members db res db' \<longleftrightarrow>
     (if gc_status res = kOk
      then res = \<lparr>gc_status = kOk, gc_group = Some grp, gc_created = True\<rparr> \<and> db_snapshot db' = None \<and>
        (\<exists>mid. others_only db mid \<and>
           group_effect grp members (db_collate db) (db_clock db) (committed mid) = Some (committed db'))
      else gc_group res = None \<and> (others_only db db' \<or> group_committed grp members db db'))"

lemma create_group_fails:
  "others_only db db1 \<Longrightarrow> status \<noteq> kOk \<Longrightarrow>
   wp (do { group_Rollback; ret (group_failure status) }) (create_group_post grp members db) db1"
  by (intro wp_intros wp_mono [OF others_only_Rollback])
    (auto simp: create_group_post_def group_failure_def intro: others_only_trans)

lemma createGroup_members_post:
  assumes "others_only db db1" "db_snapshot db1 = Some t0"
    and effect: "group_effect grp members (db_collate db) (db_clock db) t0 =
      Some (fold (upserted (db_collate db) (db_clock db)) members (db_tables db1))"
  shows "wp (createGroup_members grp members) (create_group_post grp members db) db1"
  unfolding createGroup_members_def
proof (rule wp_bind, rule wp_mono [OF insert_members_open], goal_cases)
  case 1
  then show ?case using assms(2) by (simp add: txn_open_def)
next
  case (2 r db2)
  have params: "db_collate db1 = db_collate db" "db_clock db1 = db_clock db"
    using assms(1) by (auto simp: others_only_def)
  have step2: "others_only db db2"
    using others_only_trans [OF assms(1)] 2 by blast
  show ?case
  proof (intro wp_case_option, goal_cases)
    case 1
    then have snap: "db_snapshot db2 = Some t0"
      and tables: "group_effect grp members (db_collate db) (db_clock db) t0 = Some (db_tables db2)"
      using 2 assms(2) effect params by auto
    show ?case
    proof (rule wp_bind, rule wp_mono [OF Commit_open [OF snap]], goal_cases)
      case (1 c db3)
      have mid: "committed db2 = t0"
        using snap by (simp add: committed_def)
      have same: "db2\<lparr>db_tables := db_tables db2, db_snapshot := None\<rparr> = db2\<lparr>db_snapshot := None\<rparr>"
        by simp
      have fin: "group_committed grp members db db4"
        if "others_only (db2\<lparr>db_snapshot := None\<rparr>) db4" for db4
        unfolding group_committed_def
        using step2 tables mid that same
        by (intro exI [of _ db2] exI [of _ "db_tables db2"]) simp
      show ?case
      proof (cases "committed db3 = db_tables db2 \<and> db_snapshot db3 = None")
        case True
        then show ?thesis
          using 1 step2 tables mid fin
          by (intro wp_intros wp_mono [OF others_only_Rollback])
            (auto simp: create_group_post_def group_failure_def intro: others_only_trans)
      next
        case False
        then show ?thesis
          using 1 others_only_trans [OF step2, of db3]
          by (auto intro!: create_group_fails)
      qed
    qed
  next
    case (2 status)
    then show ?case
      using \<open>_ \<and> r \<noteq> Some kOk \<and> _\<close> step2
      by (auto intro!: wp_intros simp: create_group_post_def group_failure_def)
  qed
qed

lemma createGroup_post:
  assumes "db_inv db" "idle db"
  shows "wp (createGroup grp members) (create_group_post grp members db) db"
  unfolding createGroup_def
proof (rule wp_bind, rule wp_mono [OF wp_conj [OF borrow_wp [OF assms] others_only_borrow]], goal_cases)
  case (1 e db1)
  have quit: "create_group_post grp members db (group_failure status) db2"
    if "others_only db db2" "status \<noteq> kOk" for db2 status
    using that by (simp add: create_group_post_def group_failure_def)
  have dup: "status \<noteq> kOk \<Longrightarrow> duplicate_or status err \<noteq> kOk" for status err
    by (simp add: duplicate_or_def)
  show ?case
  proof (rule wp_if, goal_cases)
    case 1
    then show ?case
      using \<open>_ \<and> others_only db db1\<close> by (auto intro!: wp_intros quit simp: MapBorrowError_def)
  next
    case 2
    show ?case
    proof (rule wp_bind, rule wp_mono [OF others_only_Begin], goal_cases)
      case 1
      then show ?case using \<open>_ \<and> others_only db db1\<close> by simp
    next
      case (2 b db2)
      have step2: "others_only db db2"
        using 2 \<open>_ \<and> others_only db db1\<close> others_only_trans by blast
      show ?case
      proof (rule wp_if, goal_cases)
        case 1
        then show ?case using step2 by (auto intro!: wp_intros quit)
      next
        case begun: 2
        then have snap2: "db_snapshot db2 = Some (db_tables db2)"
          using 2 by simp
        show ?case
        proof (rule wp_bind, rule wp_mono [OF ExecuteUpdate_open], goal_cases)
          case (3 r db3)
          have step3: "others_only db db3"
            using 3 step2 others_only_trans by blast
          show ?case
          proof (rule wp_case_sum, goal_cases)
            case (1 f)
            then show ?case
              using 3 step3 by (auto intro!: wp_intros(8) create_group_fails dup)
          next
            case (2 u)
            show ?case
            proof (rule wp_bind, rule wp_mono [OF ExecuteUpdate_open], goal_cases)
              case r2: (3 r2 db4)
              have step4: "others_only db db4"
                using r2 step3 others_only_trans by blast
              have effect: "group_effect grp members (db_collate db) (db_clock db) (db_tables db2) =
                Some (fold (upserted (db_collate db) (db_clock db)) members (db_tables db4))"
                if "r2 = Inr v" for v
                using 2 3 r2 that step2 step3 unfolding group_effect_def
                by (simp add: others_only_def)
              show ?case
                using r2 3 snap2 step4
                by (auto intro!: wp_case_sum create_group_fails dup createGroup_members_post effect
                    split: prod.splits)
            qed (use 3 snap2 in \<open>auto simp: txn_open_def\<close>)
          qed
        qed (use snap2 in \<open>auto simp: txn_open_def\<close>)
      qed
    qed
  qed
qed

text \<open>What the effect consists of: the conversation, the group and every listed member with its role.\<close>

definition member_present :: "(string \<Rightarrow> string) \<Rightarrow> GroupMemberRecord \<Rightarrow> Tables \<Rightarrow> bool" where
  "member_present ck member t \<longleftrightarrow>
     (\<exists>m \<in> set (t_group_members t). same_member ck member m \<and> gm_role m = gm_role member)"

lemma upserted_present: "member_present ck member (upserted ck now member t)"
proof (cases "\<exists>m \<in> set (t_group_members t). same_member ck member m")
  case True
  then obtain m where m: "m \<in> set (t_group_members t)" "same_member ck member m"
    by blast
  then have "m\<lparr>gm_role := gm_role member\<rparr> \<in> set (t_group_members (upserted ck now member t))"
    by (force simp: upserted_def upsert_group_member_def)
  then show ?thesis
    using m(2) unfolding member_present_def
    by (intro bexI [of _ "m\<lparr>gm_role := gm_role member\<rparr>"]) (auto simp: same_member_def)
next
  case False
  then show ?thesis
    by (auto simp: member_present_def upserted_def upsert_group_member_def same_member_def member_row_def)
qed

lemma upserted_other:
  "member_present ck member t \<Longrightarrow> \<not> same_member ck other member \<Longrightarrow>
   member_present ck member (upserted ck now other t)"
  by (fastforce simp: member_present_def upserted_def upsert_group_member_def same_member_def image_iff)

lemma fold_upserted_keep:
  "member_present ck member t \<Longrightarrow> \<forall>o' \<in> set ms. \<not> same_member ck o' member \<Longrightarrow>
   member_present ck member (fold (upserted ck now) ms t)"
  by (induction ms arbitrary: t) (simp_all add: upserted_other)

lemma fold_upserted_present:
  "distinct (map gm_user_id ms) \<Longrightarrow> member \<in> set ms \<Longrightarrow>
   member_present ck member (fold (upserted ck now) ms t)"
proof (induction ms arbitrary: t)
  case (Cons m ms)
  show ?case
  proof (cases "member = m")
    case True
    then have "\<forall>o' \<in> set ms. \<not> same_member ck o' member"
      using Cons.prems(1) by (force simp: same_member_def)
    then show ?thesis
      using True by (simp add: fold_upserted_keep upserted_present)
  next
    case False
    then show ?thesis
      using Cons by simp
  qed
qed simp

lemma fold_upserted_frame:
  "t_groups (fold (upserted ck now) ms t) = t_groups t \<and>
   t_conversations (fold (upserted ck now) ms t) = t_conversations t \<and>
   t_messages (fold (upserted ck now) ms t) = t_messages t"
  by (induction ms arbitrary: t) (auto simp: upserted_def upsert_group_member_def)

lemma group_effect_content:
  assumes "group_effect grp members ck now t = Some t'"
  shows "t_groups t' = t_groups t @ [grp\<lparr>g_created_at := now, g_updated_at := now\<rparr>] \<and>
    t_conversations t' = t_conversations t @ [new_group_conversation (g_conversation_id grp)] \<and>
    t_messages t' = t_messages t \<and>
    (distinct (map gm_user_id members) \<longrightarrow> list_all (\<lambda>m. member_present ck m t') members)"
  using assms fold_upserted_present [of members _ ck now]
  by (cases grp)
    (auto simp: group_effect_def insert_group_conversation_def insert_group_def fold_upserted_frame
      list_all_iff split: if_splits)

lemma group_create_keeps:
  assumes "repo_inv db" "run_state (createGroup grp members) db = (res, db')"
  shows "db_guar db db' \<and> (gc_status res = kOk \<longrightarrow> repo_inv db')"
proof -
  have "db_inv db'" "db_guar db db'"
    using db_guarantee.assured_run [OF safe_createGroup _ assms(2)] assms(1) by (auto simp: repo_inv_def)
  moreover have "create_group_post grp members db res db'"
    using wpD [OF createGroup_post assms(2)] assms(1) by (simp add: repo_inv_def)
  ultimately show ?thesis
    by (simp add: create_group_post_def repo_inv_def idle_def)
qed

section \<open>The contract of a group store\<close>

definition members_in :: "string \<Rightarrow> Db \<Rightarrow> GroupMemberRecord set" where
  "members_in gid db =
     {m \<in> set (t_group_members (committed db)). db_collate db (gm_group_id m) = db_collate db gid}"

definition group_in :: "string \<Rightarrow> GroupRecord \<Rightarrow> Db \<Rightarrow> bool" where
  "group_in gid g db \<longleftrightarrow>
     g \<in> set (t_groups (committed db)) \<and> db_collate db (g_id g) = db_collate db gid"

lemma member_fetch_all: "member_fetch ms acc = Some out \<Longrightarrow> out = acc @ ms"
  by (induction ms arbitrary: acc) (force split: if_splits)+

lemma findGroup_result:
  assumes "repo_inv db" "run_state (findGroup gid) db = (res, db')"
  shows "case gf_group res of None \<Rightarrow> gf_status res \<noteq> kOk | Some g \<Rightarrow> gf_status res = kOk \<and> group_in gid g db'"
proof -
  have "wp (findGroup gid) (\<lambda>res db'.
      case gf_group res of None \<Rightarrow> gf_status res \<noteq> kOk | Some g \<Rightarrow> gf_status res = kOk \<and> group_in gid g db') db"
    unfolding findGroup_def ReadGroup_def
  proof (rule wp_bind, rule wp_mono [OF borrow_wp], goal_cases)
    case borrowed: (3 e db1)
    show ?case
    proof (rule wp_if, goal_cases)
      case 2
      show ?case
      proof (rule wp_bind, rule wp_mono [OF run_sql_read], goal_cases)
        case (3 r db2)
        have "group_in gid g db2" if "r = Inr (Some g)" for g
          using 3 borrowed that
          by (auto simp: group_in_def select_group_def find_Some_iff committed_def db_guar_def)
        then show ?case
          using 3 by (intro wp_intros wp_mono [OF StatementFailure_wp]) auto
      qed (use borrowed in auto)
    qed (auto intro!: wp_intros simp: MapBorrowError_def)
  qed (use assms(1) in \<open>auto simp: repo_inv_def\<close>)
  then show ?thesis
    using assms(2) by (rule wpD)
qed

lemma listMembers_result:
  assumes "repo_inv db" "run_state (listMembers gid) db = (res, db')" "gl_status res = kOk"
  shows "set (gl_members res) = members_in gid db'"
proof -
  have "wp (listMembers gid) (\<lambda>res db'. gl_status res = kOk \<longrightarrow> set (gl_members res) = members_in gid db') db"
    unfolding listMembers_def
  proof (rule wp_bind, rule wp_mono [OF borrow_wp], goal_cases)
    case borrowed: (3 e db1)
    show ?case
    proof (rule wp_if, goal_cases)
      case 2
      show ?case
      proof (rule wp_bind, rule wp_mono [OF run_sql_read], goal_cases)
        case (3 r db2)
        have "set rows = members_in gid db2" if r: "r = Inr rows" for rows
        proof -
          have "select_group_members gid (db_collate db1) (db_clock db1) (db_tables db2) =
              Inr (db_tables db2, rows)" "db_collate db2 = db_collate db1" "committed db2 = db_tables db2"
            using 3 borrowed r by (simp_all add: committed_def db_guar_def)
          then show ?thesis
            by (auto simp: select_group_members_def members_in_def)
        qed
        then have fetched: "set members = members_in gid db2"
          if "r = Inr rows" "member_fetch rows [] = Some members" for rows members
          using that member_fetch_all by fastforce
        have failed: "wp (StatementFailure err kQueryFailed) (\<lambda>status. wp (ret \<lparr>gl_status = status, gl_members = []\<rparr>)
            (\<lambda>res db'. gl_status res = kOk \<longrightarrow> set (gl_members res) = members_in gid db')) db2" for err
          using 3 by (intro wp_mono [OF StatementFailure_wp] wp_ret) auto
        show ?case
          by (intro wp_intros failed) (simp_all add: fetched)
      qed (use borrowed in auto)
    qed (auto intro!: wp_intros simp: MapBorrowError_def)
  qed (use assms(1) in \<open>auto simp: repo_inv_def\<close>)
  then show ?thesis
    using assms(2,3) by (blast dest: wpD)
qed

text \<open>A member that was added: the row was inserted where no row of this group and user was.\<close>

definition member_added :: "GroupMemberRecord \<Rightarrow> Db \<Rightarrow> Db \<Rightarrow> bool" where
  "member_added member db db' \<longleftrightarrow>
     (\<exists>t. db_grow (db_collate db) (committed db) t \<and>
        insert_group_member member (db_collate db) (db_clock db) t = Inr (committed db', ()))"

lemma addMember_result:
  assumes "repo_inv db" "run_state (addMember member) db = (res, db')"
  shows "(ga_status res = kOk \<longleftrightarrow> ga_member res \<noteq> None) \<and>
    (ga_status res = kOk \<longrightarrow> ga_member res = Some member \<and> member_added member db db')"
proof -
  have "wp (addMember member) (\<lambda>res db'. (ga_status res = kOk \<longleftrightarrow> ga_member res \<noteq> None) \<and>
    (ga_status res = kOk \<longrightarrow> ga_member res = Some member \<and> member_added member db db')) db"
    unfolding addMember_def
  proof (rule wp_bind, rule wp_mono [OF borrow_wp], goal_cases)
    case (3 e db1)
    then have base: "db_grow (db_collate db) (committed db) (db_tables db1)"
      and same: "db_collate db1 = db_collate db" "db_clock db1 = db_clock db"
      by (auto simp: db_guar_def committed_def)
    show ?case
    proof (rule wp_if, goal_cases)
      case 2
      show ?case
      proof (rule wp_bind, rule wp_mono [OF ExecuteUpdate_auto [OF _ _ growing_group_members(1)]], goal_cases)
        case (4 r db2)
        have "member_added member db db2" if r: "r = Inr a" for a
        proof -
          obtain t where "db_grow (db_collate db) (db_tables db1) t"
            "insert_group_member member (db_collate db) (db_clock db) t = Inr (db_tables db2, ())"
            using 4 r same by auto
          then show ?thesis
            using 4 db_grow_trans [OF base] unfolding member_added_def
            by (intro exI [of _ t]) (simp add: committed_def)
        qed
        then show ?case
          using 4 by (cases r) (auto intro!: wp_intros simp: duplicate_or_def split: if_splits)
      qed (use 3 in auto)
    qed (auto intro!: wp_intros simp: MapBorrowError_def)
  qed (use assms(1) in \<open>auto simp: repo_inv_def\<close>)
  then show ?thesis
    using assms(2) by (rule wpD)
qed

text \<open>Creating a group keeps the invariant only when it succeeds: a rollback that fails leaves the
  transaction open.\<close>

locale group_store =
  fixes repo :: "'w IGroupRepository"
    and inv :: "'w \<Rightarrow> bool"
    and later :: "'w \<Rightarrow> 'w \<Rightarrow> bool"
    and members_of :: "string \<Rightarrow> 'w \<Rightarrow> GroupMemberRecord set"
    and has_group :: "string \<Rightarrow> GroupRecord \<Rightarrow> 'w \<Rightarrow> bool"
    and added :: "GroupMemberRecord \<Rightarrow> 'w \<Rightarrow> 'w \<Rightarrow> bool"
  assumes later_refl: "later w w"
    and later_trans: "later w w1 \<Longrightarrow> later w1 w2 \<Longrightarrow> later w w2"
    and create_keeps: "inv w \<Longrightarrow> run_state (igr_createGroup repo grp ms) w = (r1, w') \<Longrightarrow>
      later w w' \<and> (gc_status r1 = kOk \<longrightarrow> inv w' \<and> gc_group r1 = Some grp)"
    and find_group: "inv w \<Longrightarrow> run_state (igr_findGroup repo gid) w = (r2, w') \<Longrightarrow>
      inv w' \<and> later w w' \<and>
      (case gf_group r2 of None \<Rightarrow> gf_status r2 \<noteq> kOk
       | Some g \<Rightarrow> gf_status r2 = kOk \<and> has_group gid g w')"
    and add_member: "inv w \<Longrightarrow> run_state (igr_addMember repo m) w = (r3, w') \<Longrightarrow>
      inv w' \<and> later w w' \<and> (ga_status r3 = kOk \<longleftrightarrow> ga_member r3 \<noteq> None) \<and>
      (ga_status r3 = kOk \<longrightarrow> ga_member r3 = Some m \<and> added m w w')"
    and list_members: "inv w \<Longrightarrow> run_state (igr_listMembers repo gid) w = (r4, w') \<Longrightarrow>
      inv w' \<and> later w w' \<and> (gl_status r4 = kOk \<longrightarrow> set (gl_members r4) = members_of gid w')"

interpretation mysql_groups: group_store group_repository_ops repo_inv db_guar members_in group_in member_added
proof unfold_locales
  fix db db' :: Db and grp ms r1 gid r2 m r3 r4
  show "db_guar db db' \<and> (gc_status r1 = kOk \<longrightarrow> repo_inv db' \<and> gc_group r1 = Some grp)"
    if inv: "repo_inv db" and run: "run_state (igr_createGroup group_repository_ops grp ms) db = (r1, db')"
  proof -
    have run': "run_state (createGroup grp ms) db = (r1, db')"
      using run by (simp add: group_repository_ops_def)
    then show ?thesis
      using group_create_keeps [OF inv run'] wpD [OF createGroup_post run'] inv
      by (auto simp: create_group_post_def repo_inv_def)
  qed
  show "repo_inv db' \<and> db_guar db db' \<and>
      (case gf_group r2 of None \<Rightarrow> gf_status r2 \<noteq> kOk | Some g \<Rightarrow> gf_status r2 = kOk \<and> group_in gid g db')"
    if inv: "repo_inv db" and run: "run_state (igr_findGroup group_repository_ops gid) db = (r2, db')"
    using group_ops_keep(1) [OF inv] findGroup_result [OF inv] run by (simp add: group_repository_ops_def)
  show "repo_inv db' \<and> db_guar db db' \<and> (ga_status r3 = kOk \<longleftrightarrow> ga_member r3 \<noteq> None) \<and>
      (ga_status r3 = kOk \<longrightarrow> ga_member r3 = Some m \<and> member_added m db db')"
    if inv: "repo_inv db" and run: "run_state (igr_addMember group_repository_ops m) db = (r3, db')"
    using group_ops_keep(2) [OF inv] addMember_result [OF inv] run by (simp add: group_repository_ops_def)
  show "repo_inv db' \<and> db_guar db db' \<and> (gl_status r4 = kOk \<longrightarrow> set (gl_members r4) = members_in gid db')"
    if inv: "repo_inv db" and run: "run_state (igr_listMembers group_repository_ops gid) db = (r4, db')"
    using group_ops_keep(3) [OF inv] listMembers_result [OF inv] run by (simp add: group_repository_ops_def)
qed (auto intro: db_guarantee.R_refl db_guarantee.R_trans)

section \<open>Properties\<close>

text \<open>C14. \<^verbatim>\<open>createGroup\<close> is all or nothing, whatever statement fails and even when the reply to the
  commit is lost. On success the committed tables are those that other clients had committed plus
  exactly the conversation, the group and its members, each with its role. On failure either only
  other clients' commits are visible, or (the lost reply) the whole group is.\<close>

theorem createGroup_atomic:
  assumes "repo_inv db" "run_state (createGroup grp members) db = (res, db')"
  shows "(gc_status res = kOk \<longrightarrow>
      (\<exists>mid. others_only db mid \<and>
         group_effect grp members (db_collate db) (db_clock db) (committed mid) = Some (committed db') \<and>
         t_groups (committed db') =
           t_groups (committed mid) @ [grp\<lparr>g_created_at := db_clock db, g_updated_at := db_clock db\<rparr>] \<and>
         (distinct (map gm_user_id members) \<longrightarrow>
            list_all (\<lambda>m. member_present (db_collate db) m (committed db')) members))) \<and>
    (gc_status res \<noteq> kOk \<longrightarrow> others_only db db' \<or> group_committed grp members db db')"
proof -
  have post: "create_group_post grp members db res db'"
    using wpD [OF createGroup_post assms(2)] assms(1) by (simp add: repo_inv_def)
  show ?thesis
  proof (cases "gc_status res = kOk")
    case True
    then obtain mid where mid: "others_only db mid"
      "group_effect grp members (db_collate db) (db_clock db) (committed mid) = Some (committed db')"
      using post by (auto simp: create_group_post_def)
    then show ?thesis
      using True group_effect_content [OF mid(2)] by (intro conjI impI exI [of _ mid]) simp_all
  next
    case False
    then show ?thesis
      using post by (simp add: create_group_post_def)
  qed
qed

definition sample_group :: GroupRecord where
  "sample_group = \<lparr>g_id = ''g1'', g_name = ''team'', g_owner_id = 1, g_conversation_id = ''c1'',
     g_created_at = [], g_updated_at = []\<rparr>"

definition sample_members :: "GroupMemberRecord list" where
  "sample_members =
     [\<lparr>gm_group_id = ''g1'', gm_user_id = 1, gm_role = ''owner'', gm_joined_at = []\<rparr>,
      \<lparr>gm_group_id = ''g1'', gm_user_id = 2, gm_role = ''member'', gm_joined_at = []\<rparr>]"

lemmas group_run_eval = createGroup_def createGroup_members_def borrow_connection_def reconnect_def
  quiet_db_def Begin_def Commit_def ExecuteUpdate_def run_sql_def next_event_def quiet_event_def
  apply_stmt_def insert_group_conversation_def insert_group_def upsert_group_member_def
  empty_tables_def same_member_def member_row_def

lemma createGroup_quiet:
  "run_state (createGroup grp sample_members) (quiet_db empty_tables) =
     (\<lparr>gc_status = kOk, gc_group = Some grp, gc_created = True\<rparr>,
      quiet_db (empty_tables\<lparr>
        t_conversations := [new_group_conversation (g_conversation_id grp)],
        t_groups := [grp\<lparr>g_created_at := ''now'', g_updated_at := ''now''\<rparr>],
        t_group_members := map (\<lambda>m. m\<lparr>gm_joined_at := ''now''\<rparr>) sample_members\<rparr>))"
  by (cases grp) (simp add: group_run_eval sample_members_def)

theorem createGroup_atomic_witness:
  "gc_status (fst (run_state (createGroup sample_group sample_members) (quiet_db empty_tables))) = kOk \<and>
   (\<exists>mid. others_only (quiet_db empty_tables) mid \<and>
      t_groups (committed (snd (run_state (createGroup sample_group sample_members) (quiet_db empty_tables)))) =
        t_groups (committed mid) @ [sample_group\<lparr>g_created_at := ''now'', g_updated_at := ''now''\<rparr>])"
proof -
  have "gc_status (fst (run_state (createGroup sample_group sample_members) (quiet_db empty_tables))) = kOk"
    by (simp add: createGroup_quiet)
  moreover have "db_clock (quiet_db empty_tables) = ''now''"
    by (simp add: quiet_db_def)
  ultimately show ?thesis
    using createGroup_atomic [OF quiet_db_inv [OF empty_tables_ok], of sample_group sample_members
        "fst (run_state (createGroup sample_group sample_members) (quiet_db empty_tables))"
        "snd (run_state (createGroup sample_group sample_members) (quiet_db empty_tables))"]
    by auto
qed

definition long_group :: GroupRecord where
  "long_group = sample_group\<lparr>g_name := concat (replicate 44 (utf8_encode 0x7fa4))\<rparr>"

text \<open>The 129-byte name buffer of \<^verbatim>\<open>ReadGroup\<close> is too small for a name the service accepts and the
  table stores: a group whose name has 44 three-byte characters is created, and from then on every
  lookup of it fails on a faultless server.\<close>

theorem findGroup_rejects_valid_name:
  "ok (Nickname (g_name long_group)) \<and>
   gc_status (fst (run_state (createGroup long_group sample_members) (quiet_db empty_tables))) = kOk \<and>
   gf_status (fst (run_state (findGroup ''g1'')
     (snd (run_state (createGroup long_group sample_members) (quiet_db empty_tables))))) = kQueryFailed"
proof -
  have "ok (Nickname (g_name long_group))"
    unfolding long_group_def
    using ok_Nickname_repeat [of "0x7fa4" 44]
    by (simp add: kNicknameMaxLength_def scalar_value_def is_control_def)
  moreover have name: "length (g_name long_group) = 132" "g_id long_group = ''g1''"
    by (simp_all add: long_group_def utf8_encode_def length_concat sum_list_replicate sample_group_def
       )
  ultimately show ?thesis
    unfolding createGroup_quiet
    by (simp add: findGroup_def ReadGroup_def select_group_def group_fits_def
        borrow_connection_def reconnect_def quiet_db_def run_sql_def next_event_def quiet_event_def
        apply_stmt_def)
qed

definition leak_db :: Db where
  "leak_db = (quiet_db (empty_tables\<lparr>t_groups := [sample_group\<lparr>g_conversation_id := ''c0''\<rparr>]\<rparr>))
     \<lparr>db_events := [quiet_event, quiet_event, quiet_event, quiet_event\<lparr>se_errno := 2000\<rparr>]\<rparr>"

definition second_group :: GroupRecord where
  "second_group = sample_group\<lparr>g_id := ''g2'', g_conversation_id := ''c2''\<rparr>"


end
