(* ===== verification/GroupService.thy ===== *)
theory GroupService
  imports GroupRepository ChatService UserService
begin

text \<open>
  The group service (\<^verbatim>\<open>src/src/service/group_service.cc\<close>): creating a group, adding a member and sending a
  message to all members, one stored row per receiver. \<^verbatim>\<open>std::hash\<close> of strings is left open by the
  C++ standard; it is a field of the service record. The static counter and the random generator
  give a pair of numbers per stored row, the n-th pair for the n-th receiver.
\<close>

unbundle bit_operations_syntax

section \<open>Data\<close>

record CreateGroupResult =
  cgr_code :: ErrorCode
  cgr_message :: string
  cgr_group :: "GroupRecord option"
  cgr_member_ids :: "userId list"

record AddGroupMemberResult =
  agr_code :: ErrorCode
  agr_message :: string
  agr_member :: "GroupMemberRecord option"

record SendGroupMessageResult =
  sgr_code :: ErrorCode
  sgr_message :: string
  sgr_group_id :: string
  sgr_conversation_id :: string
  sgr_from_user_id :: userId
  sgr_from_username :: string
  sgr_content :: string
  sgr_server_time :: timestamp
  sgr_messages :: "GroupMessageDelivery list"

record 'w GroupService =
  gs_session_manager :: "'w ISessionManager"
  gs_group_repository :: "'w IGroupRepository"
  gs_message_repository :: "'w IMessageRepository"
  gs_user_repository :: "'w IUserRepository"
  gs_string_hash :: "string \<Rightarrow> 64 word"

record GroupSendInputs =
  gi_now :: timestamp
  gi_pid :: int
  gi_draws :: "nat \<Rightarrow> 64 word \<times> 64 word"

section \<open>Helpers\<close>

definition kMaxInitialGroupMembers :: nat where
  "kMaxInitialGroupMembers = 50"

definition group_MapRepositoryError :: "RepositoryStatus \<Rightarrow> ErrorCode" where
  "group_MapRepositoryError status =
     (case status of
        kDuplicate \<Rightarrow> GROUP_MEMBER_ALREADY_EXISTS
      | kInsertFailed \<Rightarrow> DB_INSERT_FAILED
      | kQueryFailed \<Rightarrow> DB_QUERY_FAILED
      | kConnectionUnavailable \<Rightarrow> DB_QUERY_FAILED
      | kBorrowTimeout \<Rightarrow> DB_QUERY_FAILED
      | kNotFound \<Rightarrow> DB_QUERY_FAILED
      | _ \<Rightarrow> INTERNAL_ERROR)"

definition RoleCanManageMembers :: "string \<Rightarrow> bool" where
  "RoleCanManageMembers role \<longleftrightarrow> role = ''owner'' \<or> role = ''admin''"

definition FindMember :: "GroupMemberRecord list \<Rightarrow> userId \<Rightarrow> GroupMemberRecord option" where
  "FindMember members user_id = find (\<lambda>m. gm_user_id m = user_id) members"

definition RandomHex :: "nat \<Rightarrow> getrandom_result list \<Rightarrow> string" where
  "RandomHex byte_count outcomes =
     (case token_bytes byte_count outcomes of
        None \<Rightarrow> []
      | Some bytes \<Rightarrow> concat (map (\<lambda>b. pad_left 2 (CHR ''0'') (nat_to_hex (byte b))) bytes))"

definition BuildGroupId :: "getrandom_result list \<Rightarrow> groupId" where
  "BuildGroupId outcomes =
     (let random = RandomHex 12 outcomes in if random = [] then [] else ''grp_'' @ random)"

definition BuildGroupConversationId :: "groupId \<Rightarrow> conversationId" where
  "BuildGroupConversationId group_id = ''gconv_'' @ group_id"

definition BuildGroupMessageId ::
  "timestamp \<Rightarrow> int \<Rightarrow> userId \<Rightarrow> userId \<Rightarrow> 64 word \<Rightarrow> 64 word \<Rightarrow> messageId" where
  "BuildGroupMessageId now pid from_user_id to_user_id seq random_part =
     (let mixed_part = push_bit 32 (word_of_int now) XOR push_bit 16 (word_of_int pid) XOR
            word_of_int from_user_id XOR push_bit 8 (word_of_int to_user_id) XOR seq
      in ''gmsg_'' @ hex16 mixed_part @ hex16 random_part)"

definition BuildRecipientClientMessageId :: "(string \<Rightarrow> 64 word) \<Rightarrow> groupId \<Rightarrow> string \<Rightarrow> userId \<Rightarrow> string" where
  "BuildRecipientClientMessageId string_hash group_id client_msg_id to_user_id =
     ''gcm_'' @ nat_to_hex (unat (string_hash (group_id @ '':'' @ client_msg_id @ '':'' @ int_to_string to_user_id)))"

definition SameStoredGroupMessage :: "MessageRecord \<Rightarrow> MessageRecord \<Rightarrow> bool" where
  "SameStoredGroupMessage expected actual \<longleftrightarrow>
     m_conversation_id expected = m_conversation_id actual \<and>
     m_client_msg_id expected = m_client_msg_id actual \<and>
     m_from_user_id expected = m_from_user_id actual \<and>
     m_to_user_id expected = m_to_user_id actual \<and>
     m_content expected = m_content actual"

definition ValidateGroupId :: "groupId \<Rightarrow> string option" where
  "ValidateGroupId group_id =
     (let validation = ConversationId group_id in if ok validation then None else Some (vr_message validation))"

text \<open>Whether the user exists, and the status of the query.\<close>

definition UserExists :: "'w IUserRepository \<Rightarrow> userId \<Rightarrow> ('w, bool \<times> RepositoryStatus) state" where
  "UserExists user_repository user_id = do {
     user \<leftarrow> iu_findById user_repository user_id;
     ret (fu_status user = kOk \<and> fu_user user \<noteq> None, fu_status user)
   }"

section \<open>Creating a group\<close>

definition create_refused :: "ErrorCode \<Rightarrow> string \<Rightarrow> CreateGroupResult" where
  "create_refused code message =
     \<lparr>cgr_code = code, cgr_message = message, cgr_group = None, cgr_member_ids = []\<rparr>"

text \<open>The members in the order of the request without repetition, \<^term>\<open>None\<close> on an id that is not
  positive.\<close>

fun collect_members :: "userId list \<Rightarrow> userId list \<Rightarrow> userId list option" where
  "collect_members unique_members [] = Some unique_members"
| "collect_members unique_members (member_id # member_ids) =
     (if member_id \<le> 0 then None
      else collect_members
        (if member_id \<in> set unique_members then unique_members else unique_members @ [member_id]) member_ids)"

primrec check_members :: "'w IUserRepository \<Rightarrow> userId list \<Rightarrow> ('w, ErrorCode option) state" where
  "check_members user_repository [] = ret None"
| "check_members user_repository (member_id # member_ids) = do {
     (exists, user_status) \<leftarrow> UserExists user_repository member_id;
     if \<not> exists
     then ret (Some (if user_status = kNotFound then USER_NOT_FOUND else group_MapRepositoryError user_status))
     else check_members user_repository member_ids
   }"

definition initial_members :: "groupId \<Rightarrow> userId \<Rightarrow> userId list \<Rightarrow> GroupMemberRecord list" where
  "initial_members group_id owner_id unique_members =
     map (\<lambda>member_id. \<lparr>gm_group_id = group_id, gm_user_id = member_id,
       gm_role = (if member_id = owner_id then ''owner'' else ''member''), gm_joined_at = []\<rparr>) unique_members"

definition new_group :: "groupId \<Rightarrow> string \<Rightarrow> userId \<Rightarrow> GroupRecord" where
  "new_group group_id name owner_id =
     \<lparr>g_id = group_id, g_name = name, g_owner_id = owner_id,
      g_conversation_id = BuildGroupConversationId group_id, g_created_at = [], g_updated_at = []\<rparr>"

definition service_createGroup ::
  "'w GroupService \<Rightarrow> getrandom_result list \<Rightarrow> connectionId \<Rightarrow> CreateGroupRequest \<Rightarrow>
   ('w, CreateGroupResult) state" where
  "service_createGroup srv random conn_id req = do {
     session \<leftarrow> gets (GetAuthenticatedSession (gs_session_manager srv) conn_id);
     case session of
       None \<Rightarrow> ret (create_refused NOT_LOGGED_IN ''User not logged in'')
     | Some s \<Rightarrow>
         if \<not> ok (Nickname (cg_name req))
         then ret (create_refused INVALID_PARAM (vr_message (Nickname (cg_name req))))
         else if length (cg_member_ids req) > kMaxInitialGroupMembers
         then ret (create_refused INVALID_PARAM ''too many initial group members'')
         else case collect_members [cs_user_id s] (cg_member_ids req) of
           None \<Rightarrow> ret (create_refused INVALID_PARAM ''member_id must be greater than 0'')
         | Some unique_members \<Rightarrow> do {
             err \<leftarrow> check_members (gs_user_repository srv) unique_members;
             case err of
               Some code \<Rightarrow> ret (create_refused code ''group member not found'')
             | None \<Rightarrow>
                 let group_id = BuildGroupId random
                 in if group_id = [] then ret (create_refused INTERNAL_ERROR ''generate group id failed'')
                 else do {
                   created \<leftarrow> igr_createGroup (gs_group_repository srv)
                     (new_group group_id (cg_name req) (cs_user_id s))
                     (initial_members group_id (cs_user_id s) unique_members);
                   ret (if gc_status created \<noteq> kOk \<or> gc_group created = None
                        then create_refused (group_MapRepositoryError (gc_status created)) ''create group failed''
                        else \<lparr>cgr_code = OK, cgr_message = ''group created'', cgr_group = gc_group created,
                              cgr_member_ids = unique_members\<rparr>)
                 }
           }
   }"

section \<open>Adding a member\<close>

definition add_refused :: "ErrorCode \<Rightarrow> string \<Rightarrow> AddGroupMemberResult" where
  "add_refused code message = \<lparr>agr_code = code, agr_message = message, agr_member = None\<rparr>"

definition new_member :: "AddGroupMemberRequest \<Rightarrow> GroupMemberRecord" where
  "new_member req =
     \<lparr>gm_group_id = ag_group_id req, gm_user_id = ag_user_id req, gm_role = ''member'', gm_joined_at = []\<rparr>"

definition admit_member :: "'w GroupService \<Rightarrow> userId \<Rightarrow> AddGroupMemberRequest \<Rightarrow> ('w, AddGroupMemberResult) state" where
  "admit_member srv user_id req = do {
     members \<leftarrow> igr_listMembers (gs_group_repository srv) (ag_group_id req);
     if gl_status members \<noteq> kOk
     then ret (add_refused (group_MapRepositoryError (gl_status members)) ''list group members failed'')
     else if \<not> (case FindMember (gl_members members) user_id of
                  None \<Rightarrow> False | Some actor \<Rightarrow> RoleCanManageMembers (gm_role actor))
     then ret (add_refused PERMISSION_DENIED ''permission denied'')
     else if FindMember (gl_members members) (ag_user_id req) \<noteq> None
     then ret (add_refused GROUP_MEMBER_ALREADY_EXISTS ''group member already exists'')
     else do {
       added \<leftarrow> igr_addMember (gs_group_repository srv) (new_member req);
       ret (if ga_status added = kDuplicate
            then add_refused GROUP_MEMBER_ALREADY_EXISTS ''group member already exists''
            else if ga_status added \<noteq> kOk \<or> ga_member added = None
            then add_refused (group_MapRepositoryError (ga_status added)) ''add group member failed''
            else \<lparr>agr_code = OK, agr_message = ''group member added'', agr_member = ga_member added\<rparr>)
     }
   }"

definition addGroupMember ::
  "'w GroupService \<Rightarrow> connectionId \<Rightarrow> AddGroupMemberRequest \<Rightarrow> ('w, AddGroupMemberResult) state" where
  "addGroupMember srv conn_id req = do {
     session \<leftarrow> gets (GetAuthenticatedSession (gs_session_manager srv) conn_id);
     case session of
       None \<Rightarrow> ret (add_refused NOT_LOGGED_IN ''User not logged in'')
     | Some s \<Rightarrow>
         (case ValidateGroupId (ag_group_id req) of
            Some validation_error \<Rightarrow> ret (add_refused INVALID_PARAM validation_error)
          | None \<Rightarrow>
              if ag_user_id req \<le> 0 then ret (add_refused INVALID_PARAM ''user_id must be greater than 0'')
              else do {
                (exists, user_status) \<leftarrow> UserExists (gs_user_repository srv) (ag_user_id req);
                if \<not> exists
                then ret (add_refused
                       (if user_status = kNotFound then USER_NOT_FOUND else group_MapRepositoryError user_status)
                       ''target user not found'')
                else do {
                  grp \<leftarrow> igr_findGroup (gs_group_repository srv) (ag_group_id req);
                  if gf_status grp = kNotFound then ret (add_refused GROUP_NOT_FOUND ''group not found'')
                  else if gf_status grp \<noteq> kOk \<or> gf_group grp = None
                  then ret (add_refused (group_MapRepositoryError (gf_status grp)) ''query group failed'')
                  else admit_member srv (cs_user_id s) req
                }
              })
   }"


section \<open>Sending to a group\<close>

definition group_send_refused :: "ErrorCode \<Rightarrow> string \<Rightarrow> SendGroupMessageResult" where
  "group_send_refused code message =
     \<lparr>sgr_code = code, sgr_message = message, sgr_group_id = [], sgr_conversation_id = [],
      sgr_from_user_id = 0, sgr_from_username = [], sgr_content = [], sgr_server_time = 0,
      sgr_messages = []\<rparr>"

definition group_pending ::
  "'w GroupService \<Rightarrow> GroupSendInputs \<Rightarrow> userId \<Rightarrow> conversationId \<Rightarrow> SendGroupMessageRequest \<Rightarrow> nat \<Rightarrow> userId \<Rightarrow>
   MessageRecord" where
  "group_pending srv inputs from_user_id conversation_id req i to_user_id =
     (case gi_draws inputs i of (seq, random_part) \<Rightarrow>
        \<lparr>m_id = BuildGroupMessageId (gi_now inputs) (gi_pid inputs) from_user_id to_user_id seq random_part,
         m_conversation_id = conversation_id,
         m_client_msg_id =
           BuildRecipientClientMessageId (gs_string_hash srv) (sg_group_id req) (sg_client_msg_id req) to_user_id,
         m_sequence = 0, m_from_user_id = from_user_id, m_to_user_id = to_user_id,
         m_content = sg_content req, m_status = kStored, m_created_at = gi_now inputs,
         m_delivered_at = 0, m_read_at = 0\<rparr>)"

definition group_delivery :: "groupId \<Rightarrow> MessageRecord \<Rightarrow> connectionId option \<Rightarrow> GroupMessageDelivery" where
  "group_delivery group_id m conn =
     \<lparr>gd_message_id = m_id m, gd_group_id = group_id, gd_conversation_id = m_conversation_id m,
      gd_sequence = m_sequence m, gd_to_user_id = m_to_user_id m,
      gd_target_conn_id = (case conn of None \<Rightarrow> 0 | Some c \<Rightarrow> c),
      gd_status = ToProtocolMessageStatus (m_status m), gd_created_at = m_created_at m\<rparr>"

text \<open>The loop over the members: either the refusal it ends with or the deliveries so far. The number
  counts the rows stored before.\<close>

fun deliver_all ::
  "'w GroupService \<Rightarrow> GroupSendInputs \<Rightarrow> userId \<Rightarrow> conversationId \<Rightarrow> SendGroupMessageRequest \<Rightarrow> nat \<Rightarrow>
   GroupMemberRecord list \<Rightarrow> ('w, SendGroupMessageResult + GroupMessageDelivery list) state" where
  "deliver_all srv inputs from_user_id conversation_id req i [] = ret (Inr [])"
| "deliver_all srv inputs from_user_id conversation_id req i (member # members) =
     (if gm_user_id member = from_user_id
      then deliver_all srv inputs from_user_id conversation_id req i members
      else do {
        let pending = group_pending srv inputs from_user_id conversation_id req i (gm_user_id member);
        created \<leftarrow> imr_createMessage (gs_message_repository srv) pending;
        case cmr_message created of
          None \<Rightarrow> ret (Inl (group_send_refused (group_MapRepositoryError (cmr_status created))
                 ''store group message failed''))
        | Some stored \<Rightarrow>
            if cmr_status created \<noteq> kOk
            then ret (Inl (group_send_refused (group_MapRepositoryError (cmr_status created))
                   ''store group message failed''))
            else if \<not> SameStoredGroupMessage pending stored
            then ret (Inl (group_send_refused IDEMPOTENCY_CONFLICT
                   ''client_msg_id conflicts with existing group message''))
            else do {
              conn \<leftarrow> gets (im_GetConnectionId (gs_session_manager srv) (m_to_user_id stored));
              rest \<leftarrow> deliver_all srv inputs from_user_id conversation_id req (Suc i) members;
              ret (case rest of
                     Inl refusal \<Rightarrow> Inl refusal
                   | Inr deliveries \<Rightarrow> Inr (group_delivery (sg_group_id req) stored conn # deliveries))
            }
      })"

definition send_to_members ::
  "'w GroupService \<Rightarrow> GroupSendInputs \<Rightarrow> ConnectionSession \<Rightarrow> GroupRecord \<Rightarrow> SendGroupMessageRequest \<Rightarrow>
   ('w, SendGroupMessageResult) state" where
  "send_to_members srv inputs session grp req = do {
     members \<leftarrow> igr_listMembers (gs_group_repository srv) (sg_group_id req);
     if gl_status members \<noteq> kOk
     then ret (group_send_refused (group_MapRepositoryError (gl_status members)) ''list group members failed'')
     else if FindMember (gl_members members) (cs_user_id session) = None
     then ret (group_send_refused PERMISSION_DENIED ''permission denied'')
     else do {
       outcome \<leftarrow> deliver_all srv inputs (cs_user_id session) (g_conversation_id grp) req 0 (gl_members members);
       ret (case outcome of
              Inl refusal \<Rightarrow> refusal
            | Inr deliveries \<Rightarrow>
                \<lparr>sgr_code = OK, sgr_message = ''Success'', sgr_group_id = sg_group_id req,
                 sgr_conversation_id = g_conversation_id grp, sgr_from_user_id = cs_user_id session,
                 sgr_from_username = cs_username session, sgr_content = sg_content req,
                 sgr_server_time = gi_now inputs, sgr_messages = deliveries\<rparr>)
     }
   }"

definition sendGroupMessage ::
  "'w GroupService \<Rightarrow> GroupSendInputs \<Rightarrow> connectionId \<Rightarrow> SendGroupMessageRequest \<Rightarrow>
   ('w, SendGroupMessageResult) state" where
  "sendGroupMessage srv inputs conn_id req = do {
     session \<leftarrow> gets (GetAuthenticatedSession (gs_session_manager srv) conn_id);
     case session of
       None \<Rightarrow> ret (group_send_refused NOT_LOGGED_IN ''User not logged in'')
     | Some s \<Rightarrow>
         (case ValidateGroupId (sg_group_id req) of
            Some validation_error \<Rightarrow> ret (group_send_refused INVALID_PARAM validation_error)
          | None \<Rightarrow>
              if \<not> ok (ClientMessageId (sg_client_msg_id req))
              then ret (group_send_refused INVALID_PARAM (vr_message (ClientMessageId (sg_client_msg_id req))))
              else if \<not> ok (MessageContent (sg_content req))
              then ret (group_send_refused
                     (if length (sg_content req) > kMessageMaxBytes then MESSAGE_TOO_LONG else INVALID_PARAM)
                     (vr_message (MessageContent (sg_content req))))
              else do {
                grp \<leftarrow> igr_findGroup (gs_group_repository srv) (sg_group_id req);
                if gf_status grp = kNotFound then ret (group_send_refused GROUP_NOT_FOUND ''group not found'')
                else if gf_status grp \<noteq> kOk
                then ret (group_send_refused (group_MapRepositoryError (gf_status grp)) ''query group failed'')
                else case gf_group grp of
                  None \<Rightarrow> ret (group_send_refused (group_MapRepositoryError (gf_status grp)) ''query group failed'')
                | Some g \<Rightarrow> send_to_members srv inputs s g req
              })
   }"

section \<open>What the service relies on\<close>

locale group_backend =
  groups: group_store "gs_group_repository srv" inv later members_of has_group added +
  messages: message_store "gs_message_repository srv" inv later rows key +
  users: user_directory "gs_user_repository srv" inv later users key +
  registry: session_registry "gs_session_manager srv" inv sess conns
  for srv :: "'w GroupService"
    and inv :: "'w \<Rightarrow> bool"
    and later :: "'w \<Rightarrow> 'w \<Rightarrow> bool"
    and members_of :: "string \<Rightarrow> 'w \<Rightarrow> GroupMemberRecord set"
    and has_group :: "string \<Rightarrow> GroupRecord \<Rightarrow> 'w \<Rightarrow> bool"
    and added :: "GroupMemberRecord \<Rightarrow> 'w \<Rightarrow> 'w \<Rightarrow> bool"
    and rows :: "'w \<Rightarrow> MessageRow list"
    and key :: "'w \<Rightarrow> string \<Rightarrow> string"
    and users :: "'w \<Rightarrow> UserRecord list"
    and sess :: "'w \<Rightarrow> connectionId \<rightharpoonup> ConnectionSession"
    and conns :: "'w \<Rightarrow> userId \<Rightarrow> connectionId list"

lemma group_refused_simps [simp]:
  "sgr_code (group_send_refused code message) = code" "sgr_messages (group_send_refused code message) = []"
  "agr_code (add_refused code message) = code" "agr_member (add_refused code message) = None"
  "cgr_code (create_refused code message) = code" "cgr_group (create_refused code message) = None"
  by (simp_all add: group_send_refused_def add_refused_def create_refused_def)

lemma group_mapped_errors [simp]: "group_MapRepositoryError status \<noteq> OK"
  by (cases status) (simp_all add: group_MapRepositoryError_def)

lemma FindMember_SomeD: "FindMember ms uid = Some m \<Longrightarrow> m \<in> set ms \<and> gm_user_id m = uid"
  by (auto simp: FindMember_def find_Some_iff)

lemma FindMember_None: "FindMember ms uid = None \<longleftrightarrow> uid \<notin> gm_user_id ` set ms"
  by (auto simp: FindMember_def find_None_iff)

text \<open>The row stored for one delivery.\<close>

definition member_copy :: "userId \<Rightarrow> SendGroupMessageRequest \<Rightarrow> GroupMessageDelivery \<Rightarrow> MessageRow \<Rightarrow> bool" where
  "member_copy from_user_id req d row \<longleftrightarrow>
     r_id row = gd_message_id d \<and> r_conversation_id row = gd_conversation_id d \<and>
     r_sequence row = gd_sequence d \<and> r_to_user_id row = gd_to_user_id d \<and>
     r_created_at row = gd_created_at d \<and> r_from_user_id row = from_user_id \<and> r_content row = sg_content req"


context group_backend
begin

lemma authenticated:
  "GetAuthenticatedSession (gs_session_manager srv) conn w = Some s \<longleftrightarrow> sess w conn = Some s \<and> cs_authenticated s"
  by (auto simp: GetAuthenticatedSession_def registry.get_session split: option.splits)

definition delivered_all ::
  "userId \<Rightarrow> conversationId \<Rightarrow> SendGroupMessageRequest \<Rightarrow> GroupMemberRecord list \<Rightarrow> 'w \<Rightarrow>
   SendGroupMessageResult + GroupMessageDelivery list \<Rightarrow> 'w \<Rightarrow> bool" where
  "delivered_all uid conv req ms w r w' \<longleftrightarrow> inv w' \<and> later w w' \<and>
     (case r of
        Inl e \<Rightarrow> sgr_code e \<noteq> OK
      | Inr ds \<Rightarrow> map gd_to_user_id ds = map gm_user_id (filter (\<lambda>m. gm_user_id m \<noteq> uid) ms) \<and>
          (\<forall>d \<in> set ds. gd_conversation_id d = conv \<and> (\<exists>row \<in> set (rows w'). member_copy uid req d row)))"

lemma deliver_one_wp:
  assumes "inv w"
  shows "wp (imr_createMessage (gs_message_repository srv) m)
    (\<lambda>r w'. inv w' \<and> later w w' \<and>
       (cmr_status r = kOk \<longrightarrow> (\<exists>s row. cmr_message r = Some s \<and> row \<in> set (rows w') \<and> holds row s))) w"
  by (rule wpI) (use messages.create_keeps [OF assms] messages.create_stored [OF assms] in blast)

lemma deliver_all_wp:
  "inv w \<Longrightarrow> wp (deliver_all srv inputs uid conv req i ms) (delivered_all uid conv req ms w) w"
proof (induction ms arbitrary: i w)
  case Nil
  then show ?case
    by (auto intro!: wp_ret simp: delivered_all_def messages.later_refl)
next
  case (Cons m ms)
  show ?case
  proof (cases "gm_user_id m = uid")
    case True
    have "wp (deliver_all srv inputs uid conv req i ms) (delivered_all uid conv req (m # ms) w) w"
      by (rule wp_mono [OF Cons.IH [OF Cons.prems]])
        (use True in \<open>auto simp: delivered_all_def split: sum.splits\<close>)
    then show ?thesis
      using True by simp
  next
    case other: False
    let ?p = "group_pending srv inputs uid conv req i (gm_user_id m)"
    show ?thesis
      unfolding deliver_all.simps if_not_P [OF other] Let_def
    proof (rule wp_bind, rule wp_mono [OF deliver_one_wp [OF Cons.prems]], goal_cases)
      case (1 r w1)
      then have w1: "inv w1" "later w w1"
        by auto
      show ?case
      proof (intro wp_case_option wp_if, goal_cases)
        case (4 s)
        then obtain row where row: "row \<in> set (rows w1)" "holds row s"
          using 1 by auto
        show ?case
        proof (rule wp_bind, rule wp_gets, rule wp_bind, rule wp_mono [OF Cons.IH [OF w1(1)]], rule wp_ret, goal_cases)
          case (1 rest w2)
          then have w2: "inv w2" "later w1 w2"
            by (auto simp: delivered_all_def)
          obtain row' where row': "row' \<in> set (rows w2)" "same_message row row'"
            using messages.later_rows [OF w2(2) row(1)] by blast
          have "member_copy uid req (group_delivery (sg_group_id req) s c) row'"
            "gd_conversation_id (group_delivery (sg_group_id req) s c) = conv"
            "gd_to_user_id (group_delivery (sg_group_id req) s c) = gm_user_id m" for c
            using 4 row(2) row'(2)
            by (auto simp: member_copy_def group_delivery_def SameStoredGroupMessage_def holds_def
                same_message_def group_pending_def split: prod.splits)
          then show ?case
            using 1 w1 row'(1) other messages.later_trans [OF w1(2) w2(2)]
            by (auto simp: delivered_all_def split: sum.splits)
        qed
      qed (use w1 in \<open>auto intro!: wp_ret simp: delivered_all_def\<close>)
    qed
  qed
qed

definition group_sent ::
  "connectionId \<Rightarrow> SendGroupMessageRequest \<Rightarrow> 'w \<Rightarrow> SendGroupMessageResult \<Rightarrow> 'w \<Rightarrow> bool" where
  "group_sent conn req w res w' \<longleftrightarrow> inv w' \<and> later w w' \<and>
     (sgr_code res = OK \<longrightarrow>
        (\<exists>s w1. sess w conn = Some s \<and> cs_authenticated s \<and> later w w1 \<and> later w1 w' \<and>
           ok (MessageContent (sg_content req)) \<and> ok (ClientMessageId (sg_client_msg_id req)) \<and>
           cs_user_id s \<in> gm_user_id ` members_of (sg_group_id req) w1 \<and>
           set (map gd_to_user_id (sgr_messages res)) =
             gm_user_id ` members_of (sg_group_id req) w1 - {cs_user_id s} \<and>
           (\<forall>d \<in> set (sgr_messages res). \<exists>row \<in> set (rows w'). member_copy (cs_user_id s) req d row)))"

lemma send_to_members_wp:
  assumes "inv w1" "later w w1" "sess w conn = Some s" "cs_authenticated s"
    "ok (MessageContent (sg_content req))" "ok (ClientMessageId (sg_client_msg_id req))"
  shows "wp (send_to_members srv inputs s g req) (group_sent conn req w) w1"
  unfolding send_to_members_def
proof (rule wp_bind, rule wpI, goal_cases)
  case (1 lres w2)
  have w2: "inv w2" "later w w2" and members: "gl_status lres = kOk \<Longrightarrow>
      set (gl_members lres) = members_of (sg_group_id req) w2"
    using groups.list_members [OF assms(1) 1] groups.later_trans [OF assms(2)] by auto
  show ?case
  proof (intro wp_if, goal_cases)
    case 3
    show ?case
    proof (rule wp_bind, rule wp_mono [OF deliver_all_wp [OF w2(1)]], rule wp_ret, goal_cases)
      case (1 outcome w3)
      then have w3: "inv w3" "later w2 w3"
        by (auto simp: delivered_all_def)
      have me: "cs_user_id s \<in> gm_user_id ` members_of (sg_group_id req) w2"
        using 3 members by (simp add: FindMember_None)
      show ?case
      proof (cases outcome)
        case (Inr ds)
        then have ds: "map gd_to_user_id ds =
            map gm_user_id (filter (\<lambda>m. gm_user_id m \<noteq> cs_user_id s) (gl_members lres))"
          "\<forall>d \<in> set ds. \<exists>row \<in> set (rows w3). member_copy (cs_user_id s) req d row"
          using 1 by (auto simp: delivered_all_def)
        have "set (map gd_to_user_id ds) = gm_user_id ` members_of (sg_group_id req) w2 - {cs_user_id s}"
          using members 3 unfolding ds(1) by auto
        then show ?thesis
          unfolding group_sent_def Inr sum.case
          using w2(2) w3 assms(3-6) groups.later_trans [OF w2(2) w3(2)] me ds(2)
          by (intro conjI impI exI [of _ s] exI [of _ w2]) simp_all
      qed (use 1 w3 groups.later_trans [OF w2(2) w3(2)] in \<open>auto simp: delivered_all_def group_sent_def\<close>)
    qed
  qed (use w2 in \<open>auto intro!: wp_ret simp: group_sent_def\<close>)
qed

lemma sendGroupMessage_wp:
  assumes "inv w"
  shows "wp (sendGroupMessage srv inputs conn req) (group_sent conn req w) w"
proof -
  have refused: "wp (ret (group_send_refused code message)) (group_sent conn req w) w'"
    if "inv w'" "later w w'" "code \<noteq> OK" for code message w'
    using that by (auto intro!: wp_ret simp: group_sent_def)
  show ?thesis
    unfolding sendGroupMessage_def
  proof (intro wp_bind wp_gets wp_case_option wp_if refused assms groups.later_refl, simp_all split: if_splits,
      rule wpI, goal_cases)
    case (1 s gres w1)
    have w1: "inv w1" "later w w1"
      using groups.find_group [OF assms 1(5)] by auto
    show ?case
      using 1 by (intro wp_if wp_case_option refused w1 send_to_members_wp) (simp_all add: authenticated)
  qed
qed

end


lemma collect_members_result:
  "collect_members acc ids = Some us \<Longrightarrow> distinct acc \<Longrightarrow>
   distinct us \<and> set us = set acc \<union> set ids \<and> (\<forall>i \<in> set ids. 0 < i) \<and> (\<exists>rest. us = acc @ rest)"
proof (induction acc ids rule: collect_members.induct)
  case (2 acc i ids)
  have i: "0 < i"
    using "2.prems"(1) by (auto split: if_splits)
  have "distinct (if i \<in> set acc then acc else acc @ [i])"
    using "2.prems"(2) by simp
  then show ?case
    using "2.IH" i "2.prems"(1) by (auto split: if_splits)
qed simp

context group_backend
begin

lemma UserExists_wp:
  assumes "inv w"
  shows "wp (UserExists (gs_user_repository srv) uid)
    (\<lambda>(e, _) w'. inv w' \<and> later w w' \<and> (e \<longrightarrow> (\<exists>u \<in> set (users w'). u_id u = uid))) w"
  unfolding UserExists_def
proof (rule wp_bind, rule wpI, rule wp_ret, goal_cases)
  case (1 fres w1)
  then show ?case
    using users.id_keeps [OF assms 1] users.id_found [OF assms 1] by (auto split: option.splits)
qed

lemma later_user: "later w w' \<Longrightarrow> \<exists>u \<in> set (users w). u_id u = uid \<Longrightarrow> \<exists>u \<in> set (users w'). u_id u = uid"
  using users.later_users by force

lemma check_members_wp:
  "inv w \<Longrightarrow> wp (check_members (gs_user_repository srv) ids)
    (\<lambda>r w'. inv w' \<and> later w w' \<and>
       (case r of Some code \<Rightarrow> code \<noteq> OK | None \<Rightarrow> \<forall>i \<in> set ids. \<exists>u \<in> set (users w'). u_id u = i)) w"
proof (induction ids arbitrary: w)
  case Nil
  then show ?case
    by (auto intro!: wp_ret simp: groups.later_refl)
next
  case (Cons i ids)
  show ?case
    unfolding check_members.simps
  proof (rule wp_bind, rule wp_mono [OF UserExists_wp [OF Cons.prems]], rule wp_case_prod, goal_cases)
    case (1 x w1 e st)
    then have w1: "inv w1" "later w w1" "e \<Longrightarrow> \<exists>u \<in> set (users w1). u_id u = i"
      by auto
    show ?case
    proof (rule wp_if, goal_cases)
      case 2
      show ?case
      proof (rule wp_mono [OF Cons.IH [OF w1(1)]], goal_cases)
        case (1 r w2)
        then have "later w w2" "\<exists>u \<in> set (users w2). u_id u = i"
          using w1 2 groups.later_trans [OF w1(2)] later_user [of w1 w2] by auto
        then show ?case
          using 1 by (auto split: option.splits)
      qed
    qed (use w1 in \<open>auto intro!: wp_ret\<close>)
  qed
qed

definition group_created ::
  "connectionId \<Rightarrow> CreateGroupRequest \<Rightarrow> 'w \<Rightarrow> CreateGroupResult \<Rightarrow> 'w \<Rightarrow> bool" where
  "group_created conn req w res w' \<longleftrightarrow> later w w' \<and>
     (cgr_code res = OK \<longrightarrow> inv w' \<and>
        (\<exists>s g. sess w conn = Some s \<and> cs_authenticated s \<and> cgr_group res = Some g \<and>
           g_name g = cg_name req \<and> g_owner_id g = cs_user_id s \<and> ok (Nickname (cg_name req)) \<and>
           g_conversation_id g = BuildGroupConversationId (g_id g) \<and> distinct (cgr_member_ids res) \<and>
           set (cgr_member_ids res) = insert (cs_user_id s) (set (cg_member_ids req)) \<and>
           (\<forall>i \<in> set (cgr_member_ids res). \<exists>u \<in> set (users w'). u_id u = i)))"

lemma create_for_members:
  assumes "inv w" "later w0 w" "sess w0 conn = Some s" "cs_authenticated s" "ok (Nickname (cg_name req))"
    "collect_members [cs_user_id s] (cg_member_ids req) = Some us"
    "\<forall>i \<in> set us. \<exists>u \<in> set (users w). u_id u = i"
  shows "wp (igr_createGroup (gs_group_repository srv) (new_group gid (cg_name req) (cs_user_id s)) ms \<bind>
      (\<lambda>created. ret (if gc_status created \<noteq> kOk \<or> gc_group created = None
         then create_refused (group_MapRepositoryError (gc_status created)) ''create group failed''
         else \<lparr>cgr_code = OK, cgr_message = ''group created'', cgr_group = gc_group created,
               cgr_member_ids = us\<rparr>))) (group_created conn req w0) w"
proof (rule wp_bind, rule wpI, rule wp_ret, goal_cases)
  case (1 r w1)
  have k: "later w w1" "gc_status r = kOk \<Longrightarrow> inv w1 \<and> gc_group r = Some (new_group gid (cg_name req) (cs_user_id s))"
    using groups.create_keeps [OF assms(1) 1] by auto
  have "\<forall>i \<in> set us. \<exists>u \<in> set (users w1). u_id u = i"
    using assms(7) later_user [OF k(1)] by blast
  then show ?case
    using k assms(3-5) collect_members_result [OF assms(6)] groups.later_trans [OF assms(2) k(1)]
    by (auto simp: group_created_def new_group_def)
qed

lemma service_createGroup_wp:
  assumes "inv w"
  shows "wp (service_createGroup srv random conn req) (group_created conn req w) w"
proof -
  have refused: "wp (ret (create_refused code message)) (group_created conn req w) w'"
    if "later w w'" "code \<noteq> OK" for code message w'
    using that by (auto intro!: wp_ret simp: group_created_def)
  show ?thesis
    unfolding service_createGroup_def
  proof (intro wp_bind wp_gets wp_case_option wp_if refused groups.later_refl, simp_all only: ErrorCode.distinct simp_thms,
      goal_cases)
    case (1 s us)
    then have s: "sess w conn = Some s" "cs_authenticated s"
      by (simp_all add: authenticated)
    show ?case
    proof (rule wp_mono [OF check_members_wp [OF assms]], goal_cases)
      case (1 err w1)
      then show ?case
        using create_for_members [OF _ _ s] \<open>collect_members _ _ = _\<close> \<open>ok (Nickname (cg_name req))\<close>
        by (auto simp: Let_def intro!: wp_if refused split: option.splits)
    qed
  qed
qed

definition member_admitted ::
  "connectionId \<Rightarrow> AddGroupMemberRequest \<Rightarrow> 'w \<Rightarrow> AddGroupMemberResult \<Rightarrow> 'w \<Rightarrow> bool" where
  "member_admitted conn req w res w' \<longleftrightarrow> inv w' \<and> later w w' \<and>
     (agr_code res = OK \<longrightarrow>
        (\<exists>s w1 actor. sess w conn = Some s \<and> cs_authenticated s \<and> later w w1 \<and>
           actor \<in> members_of (ag_group_id req) w1 \<and> gm_user_id actor = cs_user_id s \<and>
           RoleCanManageMembers (gm_role actor) \<and>
           ag_user_id req \<notin> gm_user_id ` members_of (ag_group_id req) w1 \<and>
           added (new_member req) w1 w' \<and> agr_member res = Some (new_member req)))"

lemma admit_member_wp:
  assumes "inv w1" "later w w1" "sess w conn = Some s" "cs_authenticated s"
  shows "wp (admit_member srv (cs_user_id s) req) (member_admitted conn req w) w1"
  unfolding admit_member_def
proof (rule wp_bind, rule wpI, goal_cases)
  case (1 lres w2)
  have w2: "inv w2" "later w w2" and members: "gl_status lres = kOk \<Longrightarrow>
      set (gl_members lres) = members_of (ag_group_id req) w2"
    using groups.list_members [OF assms(1) 1] groups.later_trans [OF assms(2)] by auto
  show ?case
  proof (intro wp_if, goal_cases)
    case hyps: 4
    then obtain actor where actor: "actor \<in> members_of (ag_group_id req) w2" "gm_user_id actor = cs_user_id s"
      "RoleCanManageMembers (gm_role actor)"
      using members by (auto dest: FindMember_SomeD split: option.splits)
    have new: "ag_user_id req \<notin> gm_user_id ` members_of (ag_group_id req) w2"
      using hyps members FindMember_None [of "gl_members lres" "ag_user_id req"] by auto
    show ?case
    proof (rule wp_bind, rule wpI, rule wp_ret, goal_cases)
      case (1 ares w3)
      show ?case
        using groups.add_member [OF w2(1) 1] w2 assms(3,4) actor new groups.later_trans [OF w2(2)]
        unfolding member_admitted_def by auto
    qed
  qed (use w2 in \<open>auto intro!: wp_ret simp: member_admitted_def\<close>)
qed

lemma addGroupMember_wp:
  assumes "inv w"
  shows "wp (addGroupMember srv conn req) (member_admitted conn req w) w"
proof -
  have refused: "wp (ret (add_refused code message)) (member_admitted conn req w) w'"
    if "inv w'" "later w w'" "code \<noteq> OK" for code message w'
    using that by (auto intro!: wp_ret simp: member_admitted_def)
  show ?thesis
    unfolding addGroupMember_def
  proof (intro wp_bind wp_gets wp_case_option wp_if refused assms groups.later_refl,
      simp_all only: ErrorCode.distinct simp_thms, goal_cases)
    case (1 s)
    then have s: "sess w conn = Some s" "cs_authenticated s"
      by (simp_all add: authenticated)
    show ?case
    proof (rule wp_mono [OF UserExists_wp [OF assms]], rule wp_case_prod, goal_cases)
      case (1 x w1 e st)
      then have w1: "inv w1" "later w w1"
        by auto
      show ?case
      proof (rule wp_if, goal_cases)
        case 2
        show ?case
        proof (rule wp_bind, rule wpI, goal_cases)
          case (1 gres w2)
          then have "inv w2" "later w w2"
            using groups.find_group [OF w1(1) 1] groups.later_trans [OF w1(2)] by auto
          then show ?case
            by (intro wp_if refused admit_member_wp s) simp_all
        qed
      qed (use w1 in \<open>auto intro!: refused\<close>)
    qed
  qed
qed

end

end
