(* ===== verification/World.thy ===== *)
theory World
  imports ChatService UserService FriendService GroupService
begin

text \<open>
  The server process as \<^verbatim>\<open>main\<close> (\<^verbatim>\<open>src/src/main.cc\<close>) wires it: one database, one Redis server and one session
  manager form the world, the repositories and caches are lifted to it, and the four services are
  built from them the way \<^verbatim>\<open>main\<close> builds them. Every call that leaves the process takes time in which
  other threads bind and clear sessions; the world carries what they do, one step per call.

  The contracts of the component theories are instantiated here with the lifted objects, and the
  end-to-end properties of the services follow from the lemmas proved in the contracts.
\<close>

section \<open>The world\<close>

record World =
  w_db :: Db
  w_redis :: RedisWorld
  w_sessions :: SessionManager
  w_session_env :: "(SessionManager \<Rightarrow> SessionManager) list"

definition settle :: "World \<Rightarrow> World" where
  "settle w =
     (case w_session_env w of
        [] \<Rightarrow> w
      | f # fs \<Rightarrow> w\<lparr>w_sessions := f (w_sessions w), w_session_env := fs\<rparr>)"

definition on_db :: "(Db, 'a) state \<Rightarrow> (World, 'a) state" where
  "on_db m = State (\<lambda>w. case run_state m (w_db w) of (a, db) \<Rightarrow> (a, settle (w\<lparr>w_db := db\<rparr>)))"

definition on_redis :: "(RedisWorld, 'a) state \<Rightarrow> (World, 'a) state" where
  "on_redis m = State (\<lambda>w. case run_state m (w_redis w) of (a, r) \<Rightarrow> (a, settle (w\<lparr>w_redis := r\<rparr>)))"

section \<open>Wiring\<close>

definition redis_client :: "World IRedisClient" where
  "redis_client cmd = on_redis (Command cmd)"

definition message_repo :: "World IMessageRepository" where
  "message_repo =
     \<lparr>imr_findOrCreateSingleConversation = (\<lambda>a b. on_db (findOrCreateSingleConversation a b)),
      imr_createMessage = (\<lambda>m. on_db (createMessage m)),
      imr_findMessageByClientMsgId = (\<lambda>u c. on_db (findMessageByClientMsgId u c)),
      imr_listOfflineMessages = (\<lambda>u l c. on_db (listOfflineMessages u l c)),
      imr_markDelivered = (\<lambda>now u ids. on_db (markDelivered now u ids)),
      imr_markRead = (\<lambda>now u ids. on_db (markRead now u ids))\<rparr>"

definition user_repo :: "World IUserRepository" where
  "user_repo =
     \<lparr>iu_findByUsername = (\<lambda>n. on_db (findByUsername n)), iu_findById = (\<lambda>u. on_db (findById u)),
      iu_createUser = (\<lambda>n h k. on_db (createUser n h k)),
      iu_updatePasswordHash = (\<lambda>u h. on_db (updatePasswordHash u h))\<rparr>"

definition friend_repo :: "World IFriendRepository" where
  "friend_repo =
     \<lparr>ifr_findFriendship = (\<lambda>a b. on_db (findFriendship a b)),
      ifr_createFriendRequest = (\<lambda>a b. on_db (createFriendRequest a b)),
      ifr_acceptFriendRequest = (\<lambda>a b. on_db (acceptFriendRequest a b)),
      ifr_deleteFriendship = (\<lambda>a b. on_db (deleteFriendship a b)),
      ifr_listFriendships = (\<lambda>a. on_db (listFriendships a))\<rparr>"

definition group_repo :: "World IGroupRepository" where
  "group_repo =
     \<lparr>igr_createGroup = (\<lambda>g ms. on_db (createGroup g ms)), igr_findGroup = (\<lambda>g. on_db (findGroup g)),
      igr_addMember = (\<lambda>m. on_db (addMember m)), igr_listMembers = (\<lambda>g. on_db (listMembers g))\<rparr>"

definition session_manager :: "World ISessionManager" where
  "session_manager =
     \<lparr>im_BindSession = (\<lambda>c s w. case BindSession c s (w_sessions w) of (b, sm) \<Rightarrow> (b, w\<lparr>w_sessions := sm\<rparr>)),
      im_GetConnectionId = (\<lambda>u w. GetConnectionId u (w_sessions w)),
      im_GetConnectionIds = (\<lambda>u w. GetConnectionIds u (w_sessions w)),
      im_GetSession = (\<lambda>c w. GetSession c (w_sessions w)),
      im_ClearSession = (\<lambda>c w. w\<lparr>w_sessions := ClearSession c (w_sessions w)\<rparr>)\<rparr>"

text \<open>The objects that exist only when Redis is enabled.\<close>

definition enabled :: "RedisConfig \<Rightarrow> 'a \<Rightarrow> 'a option" where
  "enabled cfg x = (if rc_enabled cfg then Some x else None)"

definition session_store :: "RedisConfig \<Rightarrow> World IGlobalSessionStore option" where
  "session_store cfg = enabled cfg (redis_session_store_ops (Some redis_client) cfg)"

definition rate_limiter :: "RedisConfig \<Rightarrow> World IRateLimiter option" where
  "rate_limiter cfg = enabled cfg (Allow (Some redis_client) cfg)"

definition dedup_cache :: "RedisConfig \<Rightarrow> World IMessageDedupCache option" where
  "dedup_cache cfg = enabled cfg (dedup_cache_ops (Some redis_client) cfg)"

definition active_user_repo :: "RedisConfig \<Rightarrow> World IUserRepository" where
  "active_user_repo cfg =
     (if rc_enabled cfg then cached_user_repository_ops user_repo (Some redis_client) cfg else user_repo)"

definition user_service :: "RedisConfig \<Rightarrow> libcrypt \<Rightarrow> World UserService" where
  "user_service cfg lib =
     \<lparr>us_user_repository = active_user_repo cfg, us_session_manager = session_manager,
      us_global_session_store = session_store cfg, us_rate_limiter = rate_limiter cfg,
      us_redis_config = cfg, us_password_hasher = bcrypt_hasher_ops lib 12\<rparr>"

definition chat_service :: "RedisConfig \<Rightarrow> World IRemotePushPublisher option \<Rightarrow> World ChatService" where
  "chat_service cfg push_stream =
     \<lparr>ch_session_manager = session_manager, ch_message_repository = message_repo,
      ch_user_repository = active_user_repo cfg, ch_rate_limiter = rate_limiter cfg,
      ch_dedup_cache = dedup_cache cfg, ch_redis_config = cfg,
      ch_global_session_store = session_store cfg, ch_remote_push_publisher = push_stream\<rparr>"

definition friend_service :: "RedisConfig \<Rightarrow> World FriendService" where
  "friend_service cfg =
     \<lparr>fs_session_manager = session_manager, fs_friend_repository = friend_repo,
      fs_user_repository = active_user_repo cfg\<rparr>"

definition group_service :: "RedisConfig \<Rightarrow> (string \<Rightarrow> 64 word) \<Rightarrow> World GroupService" where
  "group_service cfg string_hash =
     \<lparr>gs_session_manager = session_manager, gs_group_repository = group_repo,
      gs_message_repository = message_repo, gs_user_repository = active_user_repo cfg,
      gs_string_hash = string_hash\<rparr>"

section \<open>The invariant of the world\<close>

definition names_ok :: "RedisConfig \<Rightarrow> RedisStore \<Rightarrow> bool" where
  "names_ok cfg s \<longleftrightarrow> (\<forall>n v t. rs_strings s (UsernameKey cfg n) = Some (v, t) \<longrightarrow> v = kNotFoundValue)"

definition redis_ok :: "RedisConfig \<Rightarrow> RedisWorld \<Rightarrow> bool" where
  "redis_ok cfg r \<longleftrightarrow> names_ok cfg (rw_store r) \<and>
     (\<forall>e \<in> set (rw_events r). \<forall>s. names_ok cfg s \<longrightarrow> names_ok cfg (re_env e s))"

definition w_inv :: "RedisConfig \<Rightarrow> World \<Rightarrow> bool" where
  "w_inv cfg w \<longleftrightarrow> repo_inv (w_db w) \<and> redis_ok cfg (w_redis w) \<and> sm_inv (w_sessions w) \<and>
     (\<forall>f \<in> set (w_session_env w). \<forall>sm. sm_inv sm \<longrightarrow> sm_inv (f sm))"

definition w_later :: "World \<Rightarrow> World \<Rightarrow> bool" where
  "w_later w w' \<longleftrightarrow> db_guar (w_db w) (w_db w')"

definition w_rows :: "World \<Rightarrow> MessageRow list" where
  "w_rows w = stored_rows (w_db w)"

definition w_users :: "World \<Rightarrow> UserRecord list" where
  "w_users w = stored_users (w_db w)"

definition w_key :: "World \<Rightarrow> string \<Rightarrow> string" where
  "w_key w = db_collate (w_db w)"

definition w_sess :: "World \<Rightarrow> connectionId \<rightharpoonup> ConnectionSession" where
  "w_sess w = connection_to_session (w_sessions w)"

definition w_conns :: "World \<Rightarrow> userId \<Rightarrow> connectionId list" where
  "w_conns w = sm_conns (w_sessions w)"


lemma settle_simps [simp]: "w_db (settle w) = w_db w" "w_redis (settle w) = w_redis w"
  by (simp_all add: settle_def split: list.splits)

lemma settle_inv: "w_inv cfg w \<Longrightarrow> w_inv cfg (settle w)"
  by (auto simp: w_inv_def settle_def split: list.splits)

lemma on_dbD: "run_state (on_db m) w = (a, w') \<Longrightarrow> run_state m (w_db w) = (a, w_db w')"
  by (auto simp: on_db_def split: prod.splits)

lemma on_db_inv:
  assumes "w_inv cfg w" "run_state (on_db m) w = (a, w')" "repo_inv (w_db w')"
  shows "w_inv cfg w'"
proof -
  obtain db where "w' = settle (w\<lparr>w_db := db\<rparr>)"
    using assms(2) by (auto simp: on_db_def split: prod.splits)
  moreover have "w_inv cfg (w\<lparr>w_db := db\<rparr>)"
    using assms(1,3) calculation by (simp add: w_inv_def)
  ultimately show ?thesis
    using settle_inv by simp
qed

lemma on_redisD: "run_state (on_redis m) w = (a, w') \<Longrightarrow> run_state m (w_redis w) = (a, w_redis w') \<and> w_db w' = w_db w"
  by (auto simp: on_redis_def split: prod.splits)

lemma on_redis_inv:
  assumes "w_inv cfg w" "run_state (on_redis m) w = (a, w')" "redis_ok cfg (w_redis w')"
  shows "w_inv cfg w'"
proof -
  obtain r where "w' = settle (w\<lparr>w_redis := r\<rparr>)"
    using assms(2) by (auto simp: on_redis_def split: prod.splits)
  moreover have "w_inv cfg (w\<lparr>w_redis := r\<rparr>)"
    using assms(1,3) calculation by (simp add: w_inv_def)
  ultimately show ?thesis
    using settle_inv by simp
qed

lemmas world_defs = w_rows_def w_users_def w_key_def w_later_def

interpretation world: preorder_guarantee "w_inv cfg" w_later for cfg
  by unfold_locales (auto simp: w_later_def intro: db_guarantee.R_refl db_guarantee.R_trans)

lemma repo_invD: "w_inv cfg w \<Longrightarrow> repo_inv (w_db w)"
  by (simp add: w_inv_def)

text \<open>Lifting: what a repository operation keeps of the database it keeps of the world.\<close>

lemma on_db_keeps:
  assumes "w_inv cfg w" "run_state (on_db m) w = (a, w')"
    and "\<And>db db'. repo_inv db \<Longrightarrow> run_state m db = (a, db') \<Longrightarrow> repo_inv db' \<and> db_guar db db'"
  shows "w_inv cfg w' \<and> w_later w w'"
  using assms(3) [OF repo_invD [OF assms(1)] on_dbD [OF assms(2)]] on_db_inv [OF assms(1,2)]
  by (simp add: w_later_def)

interpretation world_messages: message_store message_repo "w_inv cfg" w_later w_rows w_key for cfg
proof unfold_locales
  note ops = message_repo_def message_repository_ops_def
  fix w w' w1 w2 r r' m res uid cid fres lim cur lres s now ids mres
  show "w_later w w" "w_later w w1 \<Longrightarrow> w_later w1 w2 \<Longrightarrow> w_later w w2"
    by (rule world.R_refl world.R_trans; assumption)+
  show "w_later w w' \<Longrightarrow> w_key w' = w_key w"
    by (simp add: world_defs mysql_messages.later_key)
  show "w_later w w' \<Longrightarrow> r \<in> set (w_rows w) \<Longrightarrow> \<exists>r' \<in> set (w_rows w'). same_message r r'"
    unfolding world_defs by (rule mysql_messages.later_rows)
  show "w_inv cfg w \<Longrightarrow> r \<in> set (w_rows w) \<Longrightarrow> r' \<in> set (w_rows w) \<Longrightarrow> r_from_user_id r = r_from_user_id r' \<Longrightarrow>
      w_key w (r_client_msg_id r) = w_key w (r_client_msg_id r') \<Longrightarrow> r = r'"
    unfolding world_defs using repo_invD by (rule mysql_messages.unique_client_id)
  show "w_inv cfg w' \<and> w_later w w'"
    if "w_inv cfg w" "run_state (imr_createMessage message_repo m) w = (res, w')"
    using on_db_keeps [OF that(1), of "createMessage m" res w'] that(2) mysql_messages.create_keeps
    by (simp add: ops)
  show "\<exists>s row. cmr_message res = Some s \<and> row \<in> set (w_rows w') \<and> holds row s \<and>
        m_from_user_id s = m_from_user_id m \<and> w_key w (m_client_msg_id s) = w_key w (m_client_msg_id m) \<and>
        (cmr_created res \<longrightarrow> s = m\<lparr>m_sequence := m_sequence s\<rparr> \<and>
           (\<forall>r \<in> set (w_rows w). \<not> (r_from_user_id r = m_from_user_id m \<and>
              w_key w (r_client_msg_id r) = w_key w (m_client_msg_id m))))"
    if "w_inv cfg w" "run_state (imr_createMessage message_repo m) w = (res, w')" "cmr_status res = kOk"
    unfolding world_defs
    using mysql_messages.create_stored [OF repo_invD [OF that(1)], of m res "w_db w'"] on_dbD [of "createMessage m" w res w']
      that(2,3) by (simp add: ops)
  show "cmr_message res = None \<and> \<not> cmr_created res"
    if "w_inv cfg w" "run_state (imr_createMessage message_repo m) w = (res, w')" "cmr_status res \<noteq> kOk"
    using mysql_messages.create_failed [OF repo_invD [OF that(1)], of m res "w_db w'"] on_dbD [of "createMessage m" w res w']
      that(2,3) by (simp add: ops)
  show "w_inv cfg w' \<and> w_later w w' \<and>
      (case fm_message fres of
         None \<Rightarrow> fm_status fres \<noteq> kOk
       | Some s \<Rightarrow> fm_status fres = kOk \<and> m_from_user_id s = uid \<and>
           w_key w (m_client_msg_id s) = w_key w cid \<and> (\<exists>row \<in> set (w_rows w'). holds row s))"
    if "w_inv cfg w" "run_state (imr_findMessageByClientMsgId message_repo uid cid) w = (fres, w')"
    unfolding world_defs
    using mysql_messages.find_result [OF repo_invD [OF that(1)], of uid cid fres "w_db w'"]
      on_dbD [of "findMessageByClientMsgId uid cid" w fres w']
      on_db_inv [OF that(1), of "findMessageByClientMsgId uid cid" fres w'] that(2) by (simp add: ops)
  show "w_inv cfg w' \<and> w_later w w'"
    if "w_inv cfg w" "run_state (imr_listOfflineMessages message_repo uid lim cur) w = (lres, w')"
    using on_db_keeps [OF that(1), of "listOfflineMessages uid lim cur" lres w'] that(2) mysql_messages.list_keeps
    by (simp add: ops)
  show "m_to_user_id s = uid \<and> m_status s = kStored \<and> (\<exists>row \<in> set (w_rows w'). holds row s)"
    if "w_inv cfg w" "run_state (imr_listOfflineMessages message_repo uid lim cur) w = (lres, w')"
      "lom_status lres = kOk" "s \<in> set (lom_messages lres)"
    unfolding world_defs
    using mysql_messages.list_own [OF repo_invD [OF that(1)], of uid lim cur lres "w_db w'" s]
      on_dbD [of "listOfflineMessages uid lim cur" w lres w'] that(2-) by (simp add: ops)
  show "w_inv cfg w' \<and> w_later w w'"
    if "w_inv cfg w" "run_state (imr_markDelivered message_repo now uid ids) w = (mres, w')"
    using on_db_keeps [OF that(1), of "markDelivered now uid ids" mres w'] that(2) mysql_messages.mark_delivered_keeps
    by (simp add: ops)
  show "w_inv cfg w' \<and> w_later w w'"
    if "w_inv cfg w" "run_state (imr_markRead message_repo now uid ids) w = (mres, w')"
    using on_db_keeps [OF that(1), of "markRead now uid ids" mres w'] that(2) mysql_messages.mark_read_keeps
    by (simp add: ops)
qed


interpretation world_users: user_directory user_repo "w_inv cfg" w_later w_users w_key for cfg
proof unfold_locales
  note ops = user_repo_def user_repository_ops_def
  fix w w' w1 w2 u u' n fres uid h k cres st
  show "w_later w w" "w_later w w1 \<Longrightarrow> w_later w1 w2 \<Longrightarrow> w_later w w2"
    by (rule world.R_refl world.R_trans; assumption)+
  show "w_later w w' \<Longrightarrow> w_key w' = w_key w"
    by (simp add: world_defs mysql_users.later_key)
  show "w_later w w' \<Longrightarrow> u \<in> set (w_users w) \<Longrightarrow>
      \<exists>u' \<in> set (w_users w'). u_id u' = u_id u \<and> u_username u' = u_username u"
    unfolding world_defs by (rule mysql_users.later_users)
  show "w_inv cfg w \<Longrightarrow> u \<in> set (w_users w) \<Longrightarrow> u' \<in> set (w_users w) \<Longrightarrow>
      u_id u = u_id u' \<or> w_key w (u_username u) = w_key w (u_username u') \<Longrightarrow> u = u'"
    unfolding world_defs using repo_invD by (rule mysql_users.unique_user)
  show "w_inv cfg w \<Longrightarrow> u \<in> set (w_users w) \<Longrightarrow> 0 < u_id u"
    unfolding world_defs using repo_invD by (rule mysql_users.user_id_positive)
  show "w_inv cfg w' \<and> w_later w w'"
    if "w_inv cfg w" "run_state (iu_findByUsername user_repo n) w = (fres, w')"
    using on_db_keeps [OF that(1), of "findByUsername n" fres w'] that(2) mysql_users.name_keeps by (simp add: ops)
  show "case fu_user fres of None \<Rightarrow> fu_status fres \<noteq> kOk
       | Some u \<Rightarrow> fu_status fres = kOk \<and> u \<in> set (w_users w') \<and> w_key w (u_username u) = w_key w n"
    if "w_inv cfg w" "run_state (iu_findByUsername user_repo n) w = (fres, w')"
    unfolding world_defs
    using mysql_users.name_found [OF repo_invD [OF that(1)], of n fres "w_db w'"] on_dbD [of "findByUsername n" w fres w']
      that(2) by (simp add: ops)
  show "w_inv cfg w' \<and> w_later w w'"
    if "w_inv cfg w" "run_state (iu_findById user_repo uid) w = (fres, w')"
    using on_db_keeps [OF that(1), of "findById uid" fres w'] that(2) mysql_users.id_keeps by (simp add: ops)
  show "case fu_user fres of None \<Rightarrow> fu_status fres \<noteq> kOk
       | Some u \<Rightarrow> fu_status fres = kOk \<and> u \<in> set (w_users w') \<and> u_id u = uid"
    if "w_inv cfg w" "run_state (iu_findById user_repo uid) w = (fres, w')"
    unfolding world_defs
    using mysql_users.id_found [OF repo_invD [OF that(1)], of uid fres "w_db w'"] on_dbD [of "findById uid" w fres w']
      that(2) by (simp add: ops)
  show "w_inv cfg w' \<and> w_later w w'"
    if "w_inv cfg w" "run_state (iu_createUser user_repo n h k) w = (cres, w')"
    using on_db_keeps [OF that(1), of "createUser n h k" cres w'] that(2) mysql_users.create_keeps by (simp add: ops)
  show "0 < cu_user_id cres \<and>
      (\<exists>u \<in> set (w_users w'). u_id u = cu_user_id cres \<and> u_username u = n \<and> u_password_hash u = h \<and>
         u_nickname u = k \<and> u_status u = 1) \<and>
      (\<forall>v \<in> set (w_users w). u_id v \<noteq> cu_user_id cres \<and> w_key w (u_username v) \<noteq> w_key w n)"
    if "w_inv cfg w" "run_state (iu_createUser user_repo n h k) w = (cres, w')" "cu_status cres = kOk"
    unfolding world_defs
    using mysql_users.create_fresh [OF repo_invD [OF that(1)], of n h k cres "w_db w'"]
      on_dbD [of "createUser n h k" w cres w'] that(2,3) by (simp add: ops)
  show "w_inv cfg w' \<and> w_later w w'"
    if "w_inv cfg w" "run_state (iu_updatePasswordHash user_repo uid h) w = (st, w')"
    using on_db_keeps [OF that(1), of "updatePasswordHash uid h" st w'] that(2) mysql_users.update_keeps
    by (simp add: ops)
qed

interpretation world_sessions: session_registry session_manager "w_inv cfg" w_sess w_conns for cfg
proof unfold_locales
  note ops = session_manager_def session_manager_ops_def w_sess_def w_conns_def w_inv_def
  fix w w' c u s b
  show "im_GetSession session_manager c w = w_sess w c"
    using local_sessions.get_session [of c "w_sessions w"] by (simp add: ops)
  show "im_GetConnectionIds session_manager u w = w_conns w u"
    using local_sessions.get_ids [of u "w_sessions w"] by (simp add: ops)
  show "im_GetConnectionId session_manager u w = (if w_conns w u = [] then None else Some (last (w_conns w u)))"
    using local_sessions.get_id [of u "w_sessions w"] by (simp add: ops)
  show "\<not> valid_session s \<Longrightarrow> im_BindSession session_manager c s w = (False, w)"
    using local_sessions.bind_refused [of s c "w_sessions w"] by (simp add: ops)
  show "b \<and> w_inv cfg w' \<and> w_sess w' = (w_sess w)(c \<mapsto> s) \<and>
      (\<forall>uid. w_conns w' uid = removeAll c (w_conns w uid) @ (if uid = cs_user_id s then [c] else []))"
    if "valid_session s" "w_inv cfg w" "im_BindSession session_manager c s w = (b, w')"
  proof -
    obtain r sm where r: "BindSession c s (w_sessions w) = (r, sm)"
      by fastforce
    then have "b = r" "w' = w\<lparr>w_sessions := sm\<rparr>"
      using that(3) by (simp_all add: ops)
    then show ?thesis
      using local_sessions.bind_result [of s "w_sessions w" c r sm] that(1,2) r by (simp add: ops)
  qed
  show "w_inv cfg (im_ClearSession session_manager c w) \<and>
      w_sess (im_ClearSession session_manager c w) = (w_sess w)(c := None) \<and>
      w_conns (im_ClearSession session_manager c w) u = removeAll c (w_conns w u)" if "w_inv cfg w"
    using local_sessions.clear_result [of "w_sessions w" c u] that by (simp add: ops)
  show "distinct (w_conns w u) \<and> (c \<in> set (w_conns w u) \<longleftrightarrow> (\<exists>s. w_sess w c = Some s \<and> cs_user_id s = u))"
    if "w_inv cfg w"
    using local_sessions.index_agrees [of "w_sessions w" u c] that by (simp add: ops)
  show "w_inv cfg w \<Longrightarrow> w_sess w c = Some s \<Longrightarrow> valid_session s"
    using local_sessions.inv_valid [of "w_sessions w" c s] by (simp add: ops)
qed

section \<open>Redis commands\<close>

text \<open>The commands that keep the name keys clean: only the marker is written to them, and they are never
  counters.\<close>

definition cmd_ok :: "RedisConfig \<Rightarrow> redis_command \<Rightarrow> bool" where
  "cmd_ok cfg cmd \<longleftrightarrow>
     (case cmd of
        SETEX k ttl v \<Rightarrow> v = kNotFoundValue \<or> (\<forall>n. k \<noteq> UsernameKey cfg n)
      | SETNX k v ttl \<Rightarrow> \<forall>n. k \<noteq> UsernameKey cfg n
      | EVAL script ks argv \<Rightarrow> script = kRateLimitScript \<longrightarrow> (\<forall>k \<in> set ks. \<forall>n. k \<noteq> UsernameKey cfg n)
      | _ \<Rightarrow> True)"

lemma names_ok_del [simp]: "names_ok cfg s \<Longrightarrow> names_ok cfg (del k s)"
  by (auto simp: names_ok_def del_def)

lemma names_ok_hset [simp]: "names_ok cfg (hset k fvs s) = names_ok cfg s"
  by (auto simp: names_ok_def hset_def split: option.splits)

lemma names_ok_expire [simp]: "names_ok cfg s \<Longrightarrow> names_ok cfg (expire k ttl s)"
  by (auto simp: names_ok_def expire_def expire_entry_def alive_def split: option.splits if_splits)

lemma names_ok_scripts:
  assumes "names_ok cfg s"
  shows "names_ok cfg (snd (run_bind ks argv s))" "names_ok cfg (snd (run_refresh ks argv s))"
    "names_ok cfg (snd (run_clear ks argv s))" "names_ok cfg (snd (run_revoke ks argv s))"
proof -
  have drop: "names_ok cfg (drop_presence a b c d t)" "names_ok cfg (bind_drop_token a b c t)"
    "names_ok cfg (bind_drop_connection x y a t)" "names_ok cfg (bind_drop_user a b c d t)" if "names_ok cfg t" for a b c d x y t
    using that by (auto simp: drop_presence_def bind_drop_token_def bind_drop_connection_def bind_drop_user_def
        split: option.splits)
  show "names_ok cfg (snd (run_bind ks argv s))"
    by (rule run_bind.cases [of "(ks, argv, s)"]) (simp_all add: assms drop Let_def)
  show "names_ok cfg (snd (run_refresh ks argv s))"
    by (rule run_refresh.cases [of "(ks, argv, s)"]) (simp_all add: assms)
  show "names_ok cfg (snd (run_clear ks argv s))"
    by (rule run_clear.cases [of "(ks, argv, s)"]) (simp_all add: assms drop)
  show "names_ok cfg (snd (run_revoke ks argv s))"
    by (rule run_revoke.cases [of "(ks, argv, s)"]) (simp_all add: assms drop Let_def)
qed


lemma names_ok_rate_limit:
  assumes "names_ok cfg s" "\<forall>k \<in> set ks. \<forall>n. k \<noteq> UsernameKey cfg n"
  shows "names_ok cfg (snd (run_rate_limit ks argv s))"
proof (rule run_rate_limit.cases [of "(ks, argv, s)"])
  fix k window t
  assume eq: "(ks, argv, s) = ([k], [window], t)"
  have "names_ok cfg (snd (incr k t))"
    using assms eq by (auto simp: names_ok_def incr_def split: option.splits)
  then show ?thesis
    using eq by (simp add: Let_def split_beta)
qed (use assms in simp_all)

lemma exec_names:
  assumes "cmd_ok cfg cmd" "names_ok cfg s"
  shows "names_ok cfg (snd (exec cmd s))"
proof (cases cmd)
  case (EVAL script ks argv)
  then show ?thesis
    using assms names_ok_scripts names_ok_rate_limit by (cases script) (auto simp: cmd_ok_def)
next
  case (DEL ks)
  have "names_ok cfg t \<Longrightarrow> names_ok cfg (fold del ks t)" for t
    by (induction ks arbitrary: t) auto
  then show ?thesis
    using DEL assms by simp
qed (use assms in \<open>auto simp: cmd_ok_def names_ok_def\<close>)

lemma Command_redis_ok:
  assumes "cmd_ok cfg cmd" "redis_ok cfg r"
  shows "redis_ok cfg (snd (run_state (Command cmd) r))"
  using assms exec_names [OF assms(1)]
  by (auto simp: Command_def redis_ok_def redis_answer_def split: list.splits option.splits)

lemma redis_client_assured:
  assumes "cmd_ok cfg cmd"
  shows "assured (w_inv cfg) w_later (redis_client cmd)"
  unfolding assured_def
proof (intro allI impI wpI)
  fix w a w'
  assume w: "w_inv cfg w" and run: "run_state (redis_client cmd) w = (a, w')"
  have "redis_ok cfg (w_redis w')" "w_db w' = w_db w"
    using Command_redis_ok [OF assms, of "w_redis w"] on_redisD [of "Command cmd" w a w'] w run
    by (simp_all add: redis_client_def w_inv_def)
  then show "w_inv cfg w' \<and> w_later w w'"
    using on_redis_inv [OF w, of "Command cmd" a w'] run
    by (simp add: redis_client_def w_later_def db_guarantee.R_refl)
qed

lemma key_families_names [simp]:
  "UsernameKey cfg n \<noteq> DedupKey cfg u c" "UsernameKey cfg n \<noteq> RateKey cfg k i b"
  "DedupKey cfg u c \<noteq> UsernameKey cfg n" "RateKey cfg k i b \<noteq> UsernameKey cfg n"
  by (simp_all add: UsernameKey_def DedupKey_def RateKey_def)

lemma cmd_ok_simps [simp]:
  "cmd_ok cfg (GET k)" "cmd_ok cfg (DEL ks)" "cmd_ok cfg (HMGET k fs)" "cmd_ok cfg (STREAM ws)"
  "cmd_ok cfg (SETEX k ttl kNotFoundValue)" "cmd_ok cfg (SETEX (DedupKey cfg u c) ttl v)"
  "cmd_ok cfg (EVAL kRateLimitScript [RateKey cfg kind i b] argv)"
  "script \<noteq> kRateLimitScript \<Longrightarrow> cmd_ok cfg (EVAL script ks argv)"
  by (simp_all add: cmd_ok_def)

lemmas redis_assured = world.assured_rules redis_client_assured

lemma rate_limiter_assured: "assured (w_inv cfg) w_later (Allow (Some redis_client) cfg clock kind i limit window)"
  by (auto simp: Allow_def intro!: redis_assured)

lemma dedup_assured:
  "assured (w_inv cfg) w_later (Lookup (Some redis_client) cfg u c)"
  "assured (w_inv cfg) w_later (Save (Some redis_client) cfg u c m)"
  "assured (w_inv cfg) w_later (Remove (Some redis_client) cfg u c)"
  by (auto simp: Lookup_def Save_def Remove_def intro!: redis_assured)

lemma session_store_assured:
  "assured (w_inv cfg) w_later (Bind (Some redis_client) cfg c s now)"
  "assured (w_inv cfg) w_later (Refresh (Some redis_client) cfg c s)"
  "assured (w_inv cfg) w_later (ClearPresence (Some redis_client) cfg c s)"
  "assured (w_inv cfg) w_later (RevokeSession (Some redis_client) cfg c s)"
  "assured (w_inv cfg) w_later (GetToken (Some redis_client) cfg tok)"
  "assured (w_inv cfg) w_later (GetPresence (Some redis_client) cfg uid)"
  unfolding Bind_def Refresh_def ClearPresence_def RevokeSession_def GetToken_def GetPresence_def
    ReadHash_def forget_def Let_def option.case
  by (intro redis_assured; simp)+

interpretation world_cached: cached_users user_repo "w_inv cfg" w_later w_users w_key redis_client cfg for cfg
proof unfold_locales
  fix k ks ttl cmd w w' r n
  show "assured (w_inv cfg) w_later (redis_client (GET k))" "assured (w_inv cfg) w_later (redis_client (DEL ks))"
    "assured (w_inv cfg) w_later (redis_client (SETEX k ttl kNotFoundValue))"
    by (simp_all add: redis_client_assured)
  show "run_state (redis_client cmd) w = (r, w') \<Longrightarrow> w_users w' = w_users w"
    by (auto simp: redis_client_def w_users_def dest: on_redisD)
  show "rr_string_value (rcr_reply r) = kNotFoundValue"
    if "w_inv cfg w" "run_state (redis_client (GET (UsernameKey cfg n))) w = (r, w')" "rcr_success r"
      "rr_type (rcr_reply r) = kString"
  proof -
    note hyps = that
    have run: "run_state (Command (GET (UsernameKey cfg n))) (w_redis w) = (r, w_redis w')"
      using on_redisD [of "Command (GET (UsernameKey cfg n))" w r w'] that(2) by (simp add: redis_client_def)
    obtain s where s: "names_ok cfg s" "r = Execute True [GET (UsernameKey cfg n)] (Inr (string_reply (string_at s (UsernameKey cfg n))))"
      using run hyps(1,3)
      by (force simp: Command_def redis_answer_def w_inv_def redis_ok_def MakeRedisError_def
          split: list.splits option.splits)
    then show ?thesis
      using that(3,4) by (auto simp: string_reply_def string_at_def alive_def names_ok_def Execute_def MakeRedisError_def
          split: option.splits if_splits)
  qed
qed


interpretation world_active: user_directory "active_user_repo cfg" "w_inv cfg" w_later w_users w_key for cfg
  using world_cached.cached.user_directory_axioms [of cfg] world_users.user_directory_axioms [of cfg]
  by (simp add: active_user_repo_def)

section \<open>The services\<close>

lemmas wired = enabled_def session_store_def rate_limiter_def dedup_cache_def dedup_cache_ops_def
  redis_session_store_ops_def

interpretation chat: chat_backend "chat_service cfg push" "w_inv cfg" w_later w_rows w_key w_users w_sess w_conns
  for cfg push
  by (intro chat_backend.intro chat_backend_axioms.intro)
    (auto simp: chat_service_def world_messages.message_store_axioms world_active.user_directory_axioms
      world_sessions.session_registry_axioms wired split: if_splits
      intro: rate_limiter_assured dedup_assured session_store_assured)

lemma session_ops_later:
  "w_later w (snd (im_BindSession session_manager c s w))" "w_later w (im_ClearSession session_manager c w)"
  by (simp_all add: session_manager_def w_later_def db_guarantee.R_refl split_beta)

interpretation accounts: user_backend "user_service cfg lib" "w_inv cfg" w_later w_users w_key w_sess w_conns
  for cfg lib
  by (intro user_backend.intro user_backend_axioms.intro)
    (auto simp: user_service_def world_active.user_directory_axioms
      world_sessions.session_registry_axioms session_ops_later wired split: if_splits
      intro: rate_limiter_assured session_store_assured)

interpretation world_friends: friendship_store friend_repo "w_inv cfg" w_later
  "\<lambda>a b w w'. request_accepted a b (w_db w) (w_db w')" for cfg
proof unfold_locales
  note ops = friend_repo_def friend_repository_ops_def
  fix w w' w1 w2 a b r1 r2 r3 r4 r5
  show "w_later w w" "w_later w w1 \<Longrightarrow> w_later w1 w2 \<Longrightarrow> w_later w w2"
    by (rule world.R_refl world.R_trans; assumption)+
  show "w_inv cfg w' \<and> w_later w w'" if "w_inv cfg w" "run_state (ifr_findFriendship friend_repo a b) w = (r1, w')"
    using on_db_keeps [OF that(1), of "findFriendship a b" r1 w'] that(2) mysql_friends.find_keeps by (simp add: ops)
  show "w_inv cfg w' \<and> w_later w w'" if "w_inv cfg w" "run_state (ifr_createFriendRequest friend_repo a b) w = (r2, w')"
    using on_db_keeps [OF that(1), of "createFriendRequest a b" r2 w'] that(2) mysql_friends.create_keeps
    by (simp add: ops)
  show "w_inv cfg w' \<and> w_later w w'" if "w_inv cfg w" "run_state (ifr_acceptFriendRequest friend_repo a b) w = (r3, w')"
    using on_db_keeps [OF that(1), of "acceptFriendRequest a b" r3 w'] that(2) mysql_friends.accept_keeps
    by (simp add: ops)
  show "w_inv cfg w' \<and> w_later w w'" if "w_inv cfg w" "run_state (ifr_deleteFriendship friend_repo a b) w = (r4, w')"
    using on_db_keeps [OF that(1), of "deleteFriendship a b" r4 w'] that(2) mysql_friends.delete_keeps
    by (simp add: ops)
  show "w_inv cfg w' \<and> w_later w w'" if "w_inv cfg w" "run_state (ifr_listFriendships friend_repo a) w = (r5, w')"
    using on_db_keeps [OF that(1), of "listFriendships a" r5 w'] that(2) mysql_friends.list_keeps by (simp add: ops)
  show "case ff_friendship r1 of None \<Rightarrow> ff_status r1 \<noteq> kOk
       | Some f \<Rightarrow> ff_status r1 = kOk \<and>
           {f_requester_id f, f_addressee_id f} = {a, b} \<and> f_requester_id f \<noteq> f_addressee_id f"
    if "w_inv cfg w" "run_state (ifr_findFriendship friend_repo a b) w = (r1, w')"
    using mysql_friends.find_result [OF repo_invD [OF that(1)], of a b r1 "w_db w'"]
      on_dbD [of "findFriendship a b" w r1 w'] that(2) by (simp add: ops)
  show "case cf_friendship r2 of None \<Rightarrow> cf_status r2 \<noteq> kOk
       | Some f \<Rightarrow> cf_status r2 = kOk \<and> f_requester_id f = a \<and> f_addressee_id f = b"
    if "w_inv cfg w" "run_state (ifr_createFriendRequest friend_repo a b) w = (r2, w')"
    using mysql_friends.create_result [OF repo_invD [OF that(1)], of a b r2 "w_db w'"]
      on_dbD [of "createFriendRequest a b" w r2 w'] that(2) by (simp add: ops)
  show "(uf_status r3 = kOk \<longleftrightarrow> uf_friendship r3 \<noteq> None) \<and>
      (uf_status r3 = kOk \<longrightarrow> request_accepted a b (w_db w) (w_db w'))"
    if "w_inv cfg w" "run_state (ifr_acceptFriendRequest friend_repo a b) w = (r3, w')"
    using mysql_friends.accept_result [OF repo_invD [OF that(1)], of a b r3 "w_db w'"]
      on_dbD [of "acceptFriendRequest a b" w r3 w'] that(2) by (simp add: ops)
qed

interpretation friends: friend_backend "friend_service cfg" "w_inv cfg" w_later
  "\<lambda>a b w w'. request_accepted a b (w_db w) (w_db w')" w_users w_key w_sess w_conns for cfg
  by (intro friend_backend.intro)
    (simp_all add: friend_service_def world_friends.friendship_store_axioms world_active.user_directory_axioms
      world_sessions.session_registry_axioms)

interpretation world_groups: group_store group_repo "w_inv cfg" w_later "\<lambda>g w. members_in g (w_db w)"
  "\<lambda>i g w. group_in i g (w_db w)" "\<lambda>m w w'. member_added m (w_db w) (w_db w')" for cfg
proof unfold_locales
  note ops = group_repo_def group_repository_ops_def
  fix w w' w1 w2 grp ms r1 gid r2 m r3 r4
  show "w_later w w" "w_later w w1 \<Longrightarrow> w_later w1 w2 \<Longrightarrow> w_later w w2"
    by (rule world.R_refl world.R_trans; assumption)+
  show "w_later w w' \<and> (gc_status r1 = kOk \<longrightarrow> w_inv cfg w' \<and> gc_group r1 = Some grp)"
    if "w_inv cfg w" "run_state (igr_createGroup group_repo grp ms) w = (r1, w')"
    using mysql_groups.create_keeps [OF repo_invD [OF that(1)], of grp ms r1 "w_db w'"]
      on_dbD [of "createGroup grp ms" w r1 w'] on_db_inv [OF that(1), of "createGroup grp ms" r1 w'] that(2)
    by (simp add: ops w_later_def)
  show "w_inv cfg w' \<and> w_later w w' \<and>
      (case gf_group r2 of None \<Rightarrow> gf_status r2 \<noteq> kOk | Some g \<Rightarrow> gf_status r2 = kOk \<and> group_in gid g (w_db w'))"
    if "w_inv cfg w" "run_state (igr_findGroup group_repo gid) w = (r2, w')"
    using mysql_groups.find_group [OF repo_invD [OF that(1)], of gid r2 "w_db w'"]
      on_dbD [of "findGroup gid" w r2 w'] on_db_inv [OF that(1), of "findGroup gid" r2 w'] that(2)
    by (simp add: ops w_later_def)
  show "w_inv cfg w' \<and> w_later w w' \<and> (ga_status r3 = kOk \<longleftrightarrow> ga_member r3 \<noteq> None) \<and>
      (ga_status r3 = kOk \<longrightarrow> ga_member r3 = Some m \<and> member_added m (w_db w) (w_db w'))"
    if "w_inv cfg w" "run_state (igr_addMember group_repo m) w = (r3, w')"
    using mysql_groups.add_member [OF repo_invD [OF that(1)], of m r3 "w_db w'"]
      on_dbD [of "addMember m" w r3 w'] on_db_inv [OF that(1), of "addMember m" r3 w'] that(2)
    by (simp add: ops w_later_def)
  show "w_inv cfg w' \<and> w_later w w' \<and> (gl_status r4 = kOk \<longrightarrow> set (gl_members r4) = members_in gid (w_db w'))"
    if "w_inv cfg w" "run_state (igr_listMembers group_repo gid) w = (r4, w')"
    using mysql_groups.list_members [OF repo_invD [OF that(1)], of gid r4 "w_db w'"]
      on_dbD [of "listMembers gid" w r4 w'] on_db_inv [OF that(1), of "listMembers gid" r4 w'] that(2)
    by (simp add: ops w_later_def)
qed

interpretation groups: group_backend "group_service cfg h" "w_inv cfg" w_later "\<lambda>g w. members_in g (w_db w)"
  "\<lambda>i g w. group_in i g (w_db w)" "\<lambda>m w w'. member_added m (w_db w) (w_db w')" w_rows w_key w_users w_sess w_conns
  for cfg h
  by (intro group_backend.intro)
    (simp_all add: group_service_def world_groups.group_store_axioms world_messages.message_store_axioms
      world_active.user_directory_axioms world_sessions.session_registry_axioms)

end
