(* ===== verification/Samples.thy ===== *)
theory Samples
  imports World
begin

text \<open>
  A small concrete world (two users, one of them logged in) and runs of the services in it. The
  closed instances of the end-to-end properties are evaluated here.
\<close>

section \<open>A sample world\<close>

definition sample_user :: "userId \<Rightarrow> string \<Rightarrow> UserRecord" where
  "sample_user uid name =
     \<lparr>u_id = uid, u_username = name, u_password_hash = LegacyHash ''secret'', u_nickname = name, u_status = 1,
      u_created_at = ''now'', u_updated_at = ''now''\<rparr>"

definition sample_tables :: Tables where
  "sample_tables = empty_tables\<lparr>t_users := [sample_user 1 ''alice'', sample_user 2 ''bob''], t_next_user_id := 3\<rparr>"

definition alice_session :: ConnectionSession where
  "alice_session = login_session (sample_user 1 ''alice'') (replicate 64 (CHR ''a''))"

definition sample_world :: World where
  "sample_world =
     \<lparr>w_db = quiet_db sample_tables, w_redis = sample_store,
      w_sessions = snd (BindSession 10 alice_session SessionManager_new), w_session_env = []\<rparr>"

definition sample_inputs :: SendInputs where
  "sample_inputs = \<lparr>si_limiter_clock = 0, si_now = 100, si_pid = 7, si_msg_seq = 1, si_random = 5\<rparr>"

definition sample_request :: SendMessageRequest where
  "sample_request = \<lparr>sm_client_msg_id = ''c1'', sm_to_user_id = 2, sm_content = ''hi''\<rparr>"

lemma sample_tables_ok: "tables_ok (\<lambda>s. s) sample_tables"
  by (auto simp: tables_ok_def messages_ok_def users_ok_def friendships_ok_def groups_ok_def
      empty_tables_def sample_tables_def sample_user_def)

lemma sample_session_bound:
  "GetSession c (w_sessions sample_world) = (if c = 10 then Some alice_session else None)"
  by (simp add: sample_world_def BindSession_def GetSession_def SessionManager_new_def alice_session_def
      login_session_def sample_user_def valid_session_def Let_def)

lemma sample_world_inv: "w_inv cfg sample_world"
proof -
  have "sm_inv SessionManager_new" "valid_session alice_session"
    by (simp_all add: sm_inv_def SessionManager_new_def conns_at_def valid_session_def alice_session_def
        login_session_def sample_user_def)
  then have "sm_inv (snd (BindSession 10 alice_session SessionManager_new))"
    using local_sessions.bind_result [of alice_session SessionManager_new 10, OF _ _ prod.collapse [symmetric]]
    by (simp add: session_manager_ops_def)
  then show ?thesis
    using quiet_db_inv [OF sample_tables_ok]
    by (simp add: w_inv_def sample_world_def redis_ok_def names_ok_def sample_store_def)
qed


lemma sample_request_ok:
  "ok (MessageContent (sm_content sample_request))" "ok (ClientMessageId (sm_client_msg_id sample_request))"
  by (simp_all add: sample_request_def ok_MessageContent ClientMessageId_def ok_RequiredIdentifier kMessageMaxBytes_def
      kIdMaxLength_def IsValidIdentifier_def HasNul_def isalnum_def is_digit_def byte_def of_char_def)

lemmas plain_services = chat_service_def user_service_def active_user_repo_def wired default_RedisConfig_def

lemmas quiet_read = borrow_connection_def reconnect_def quiet_db_def run_sql_def next_event_def quiet_event_def
  apply_stmt_def ReadUser_def select_user_by_id_def select_user_by_name_def user_fits_def

lemma sample_user_fits: "length (LegacyHash p) \<le> 129"
  using legacy_hash_format [of p] by (simp add: IsLegacyDecimalHash_def)

lemma sample_find:
  "run_state (findById 2) (quiet_db sample_tables) =
     (\<lparr>fu_status = kOk, fu_user = Some (sample_user 2 ''bob'')\<rparr>, quiet_db sample_tables)"
  by (simp add: findById_def quiet_read sample_tables_def sample_user_def sample_user_fits)

lemma sample_create:
  "\<exists>t n. run_state (createMessage m) (quiet_db sample_tables) =
     (\<lparr>cmr_status = kOk, cmr_message_id = m_id m, cmr_message = Some (m\<lparr>m_sequence := 1\<rparr>), cmr_created = True\<rparr>,
      (quiet_db t)\<lparr>db_last_insert_id := n\<rparr>) \<and>
   t_users t = t_users sample_tables \<and> t_messages t = [message_row m 1]"
  by (simp add: sql_eval statement_eval sample_tables_def find_failure_def int64_max_def)

lemma sample_create_again:
  assumes "t_messages t = [message_row m 1]" "message_fits (message_row m 1)"
    "m_from_user_id m' = m_from_user_id m" "m_client_msg_id m' = m_client_msg_id m"
  shows "run_state (createMessage m') ((quiet_db t)\<lparr>db_last_insert_id := n\<rparr>) =
    (existing_result (the (Build (message_row m 1))), (quiet_db t)\<lparr>db_last_insert_id := n\<rparr>)"
  using assms by (simp add: sql_eval select_message_by_client_def message_row_def Build_def)

definition sample_send :: "SendMessageResult \<times> World" where
  "sample_send =
     run_state (sendMessage (chat_service default_RedisConfig None) sample_inputs 10 sample_request) sample_world"

definition sample_resend :: "SendMessageResult \<times> World" where
  "sample_resend =
     run_state (sendMessage (chat_service default_RedisConfig None) (sample_inputs\<lparr>si_msg_seq := 2\<rparr>) 10 sample_request)
       (snd sample_send)"

abbreviation sample_pending :: "SendInputs \<Rightarrow> MessageRecord" where
  "sample_pending inputs \<equiv> pending_message inputs alice_session sample_request"

text \<open>One send, given the answer of the message repository.\<close>

lemma plain_send:
  assumes "w_db w = db" "w_session_env w = []" "GetSession 10 (w_sessions w) = Some alice_session"
    and "run_state (findById 2) db = (\<lparr>fu_status = kOk, fu_user = Some (sample_user 2 ''bob'')\<rparr>, db)"
    and "run_state (createMessage (sample_pending inputs)) db = (res, db')" "cmr_status res = kOk"
      "cmr_message res = Some m" "IsSameIdempotentMessage (sample_pending inputs) m"
  shows "sr_code (fst (run_state (sendMessage (chat_service default_RedisConfig None) inputs 10 sample_request) w)) = OK \<and>
    snd (run_state (sendMessage (chat_service default_RedisConfig None) inputs 10 sample_request) w) = w\<lparr>w_db := db'\<rparr>"
proof -
  have s: "cs_authenticated alice_session" "cs_user_id alice_session = 1"
    by (simp_all add: alice_session_def login_session_def sample_user_def)
  have r: "sm_to_user_id sample_request = 2" "rl_allowed allow_all"
    by (simp_all add: sample_request_def allow_all_def)
  show ?thesis
    using assms s r sample_request_ok
    by (simp add: sendMessage_def check_send_rate_def plain_services session_manager_def user_repo_def
        message_repo_def on_db_def settle_def send_to_def
        store_message_def find_cached_def Let_def route_push_def send_success_def split_beta)
qed

lemma sample_pending_row: "message_fits (message_row (sample_pending inputs) 1)"
proof -
  have "BuildConversationId 1 2 = ''conv_1_2''"
    by code_simp
  then show ?thesis
    by (simp add: message_fits_def message_row_def pending_message_def sample_request_def alice_session_def
        login_session_def sample_user_def)
qed

lemma sample_sends:
  "sr_code (fst sample_send) = OK" "sr_code (fst sample_resend) = OK" "w_sessions (snd sample_send) = w_sessions sample_world"
proof -
  obtain t n where t: "run_state (createMessage (sample_pending sample_inputs)) (quiet_db sample_tables) =
     (\<lparr>cmr_status = kOk, cmr_message_id = m_id (sample_pending sample_inputs),
       cmr_message = Some ((sample_pending sample_inputs)\<lparr>m_sequence := 1\<rparr>), cmr_created = True\<rparr>,
      (quiet_db t)\<lparr>db_last_insert_id := n\<rparr>)"
    "t_users t = t_users sample_tables" "t_messages t = [message_row (sample_pending sample_inputs) 1]"
    using sample_create by blast
  have same: "IsSameIdempotentMessage (sample_pending sample_inputs) ((sample_pending sample_inputs)\<lparr>m_sequence := 1\<rparr>)"
    by (simp add: IsSameIdempotentMessage_def)
  have first: "sr_code (fst sample_send) = OK" "snd sample_send = sample_world\<lparr>w_db := (quiet_db t)\<lparr>db_last_insert_id := n\<rparr>\<rparr>"
    using plain_send [OF _ _ _ sample_find t(1) _ _ same, of sample_world] sample_session_bound
    by (simp_all add: sample_send_def, simp_all add: sample_world_def)
  have find: "run_state (findById 2) ((quiet_db t)\<lparr>db_last_insert_id := n\<rparr>) =
      (\<lparr>fu_status = kOk, fu_user = Some (sample_user 2 ''bob'')\<rparr>, (quiet_db t)\<lparr>db_last_insert_id := n\<rparr>)"
    using t(2) by (simp add: findById_def quiet_read sample_tables_def sample_user_def sample_user_fits)
  have same': "IsSameIdempotentMessage (sample_pending (sample_inputs\<lparr>si_msg_seq := 2\<rparr>))
      (the (Build (message_row (sample_pending sample_inputs) 1)))"
    by (simp add: IsSameIdempotentMessage_def Build_def message_row_def pending_message_def ParseMessageStatus_def)
  have again: "run_state (createMessage (sample_pending (sample_inputs\<lparr>si_msg_seq := 2\<rparr>)))
      ((quiet_db t)\<lparr>db_last_insert_id := n\<rparr>) =
      (existing_result (the (Build (message_row (sample_pending sample_inputs) 1))), (quiet_db t)\<lparr>db_last_insert_id := n\<rparr>)"
    by (rule sample_create_again [OF t(3) sample_pending_row]) (simp_all add: pending_message_def)
  show "sr_code (fst sample_resend) = OK"
    using plain_send [OF _ _ _ find again _ _ same', of "snd sample_send"] sample_session_bound first(2)
    by (simp add: sample_resend_def existing_result_def sample_world_def)
  show "sr_code (fst sample_send) = OK" "w_sessions (snd sample_send) = w_sessions sample_world"
    using first by simp_all
qed


section \<open>A world with messages, a friend request and a group\<close>

definition busy_tables :: Tables where
  "busy_tables = sample_tables\<lparr>
     t_users := t_users sample_tables @ [sample_user 3 ''carol''], t_next_user_id := 4,
     t_friendships := [\<lparr>fr_id = 1, fr_requester_id = 2, fr_addressee_id = 1, fr_low = 1, fr_high = 2,
       fr_status = ''pending'', fr_created_at = ''now'', fr_updated_at = ''now''\<rparr>],
     t_next_friendship_id := 2,
     t_conversations := [\<lparr>cv_id = ''conv_1_2'', cv_type = ''single'', cv_single_chat_key = None, cv_last_seq = 1\<rparr>,
        \<lparr>cv_id = ''group_g1'', cv_type = ''group'', cv_single_chat_key = None, cv_last_seq = 0\<rparr>],
     t_groups := [\<lparr>g_id = ''g1'', g_name = ''team'', g_owner_id = 1, g_conversation_id = ''group_g1'',
       g_created_at = ''now'', g_updated_at = ''now''\<rparr>],
     t_group_members := [\<lparr>gm_group_id = ''g1'', gm_user_id = 1, gm_role = ''owner'', gm_joined_at = ''now''\<rparr>,
       \<lparr>gm_group_id = ''g1'', gm_user_id = 2, gm_role = ''member'', gm_joined_at = ''now''\<rparr>],
     t_messages := [\<lparr>r_id = ''m1'', r_conversation_id = ''conv_1_2'', r_sequence = 1, r_client_msg_id = ''c9'',
       r_from_user_id = 2, r_to_user_id = 1, r_content = ''hello'', r_status = 0, r_created_at = 50,
       r_delivered_at = None, r_read_at = None\<rparr>]\<rparr>"

definition busy_world :: World where
  "busy_world = sample_world\<lparr>w_db := quiet_db busy_tables\<rparr>"

lemma busy_tables_ok: "tables_ok (\<lambda>s. s) busy_tables"
  by (auto simp: tables_ok_def messages_ok_def users_ok_def friendships_ok_def groups_ok_def
      empty_tables_def sample_tables_def sample_user_def busy_tables_def int64_max_def)

lemma busy_world_inv: "w_inv cfg busy_world"
  using sample_world_inv [of cfg] quiet_db_inv [OF busy_tables_ok]
  by (simp add: w_inv_def sample_world_def busy_world_def redis_ok_def names_ok_def sample_store_def)

lemma busy_session:
  "GetSession c (w_sessions busy_world) = (if c = 10 then Some alice_session else None)"
  "w_session_env busy_world = []" "w_db busy_world = quiet_db busy_tables"
  using sample_session_bound [of c] by (simp_all add: busy_world_def, simp add: sample_world_def)

lemma alice_logged_in: "cs_authenticated alice_session" "cs_user_id alice_session = 1"
  by (simp_all add: alice_session_def login_session_def sample_user_def)

lemmas busy_tables = busy_tables_def sample_tables_def sample_user_def sample_user_fits

lemmas world_eval = session_manager_def user_repo_def message_repo_def friend_repo_def group_repo_def on_db_def
  settle_def split_beta busy_session alice_logged_in


lemma busy_rows:
  "t_users busy_tables = [sample_user 1 ''alice'', sample_user 2 ''bob'', sample_user 3 ''carol'']"
  "t_friendships busy_tables =
     [\<lparr>fr_id = 1, fr_requester_id = 2, fr_addressee_id = 1, fr_low = 1, fr_high = 2,
       fr_status = ''pending'', fr_created_at = ''now'', fr_updated_at = ''now''\<rparr>]"
  "t_groups busy_tables =
     [\<lparr>g_id = ''g1'', g_name = ''team'', g_owner_id = 1, g_conversation_id = ''group_g1'',
       g_created_at = ''now'', g_updated_at = ''now''\<rparr>]"
  "t_group_members busy_tables =
     [\<lparr>gm_group_id = ''g1'', gm_user_id = 1, gm_role = ''owner'', gm_joined_at = ''now''\<rparr>,
      \<lparr>gm_group_id = ''g1'', gm_user_id = 2, gm_role = ''member'', gm_joined_at = ''now''\<rparr>]"
  "t_messages busy_tables =
     [\<lparr>r_id = ''m1'', r_conversation_id = ''conv_1_2'', r_sequence = 1, r_client_msg_id = ''c9'',
       r_from_user_id = 2, r_to_user_id = 1, r_content = ''hello'', r_status = 0, r_created_at = 50,
       r_delivered_at = None, r_read_at = None\<rparr>]"
  "t_next_user_id busy_tables = 4"
  by (simp_all add: busy_tables_def sample_tables_def)

lemma busy_find_user:
  "uid \<in> {1, 2, 3} \<Longrightarrow> \<exists>u. run_state (findById uid) (quiet_db busy_tables) =
     (\<lparr>fu_status = kOk, fu_user = Some u\<rparr>, quiet_db busy_tables)"
  by (auto simp: findById_def quiet_read busy_rows sample_user_def sample_user_fits)

subsection \<open>Pulling messages\<close>

definition pull_request :: PullOfflineMessagesRequest where
  "pull_request = \<lparr>pr_limit = 10, pr_before_message_id = [], pr_since_message_id = []\<rparr>"

definition sample_pull :: "PullOfflineMessagesResult \<times> World" where
  "sample_pull = run_state (pullOfflineMessages (chat_service default_RedisConfig None) 10 pull_request) busy_world"

lemma sample_pull_ok: "po_code (fst sample_pull) = OK" "map om_content (po_messages (fst sample_pull)) = [''hello'']"
proof -
  have "lom_status (fst (run_state (listOfflineMessages 1 10 []) (quiet_db busy_tables))) = kOk"
    "map m_content (lom_messages (fst (run_state (listOfflineMessages 1 10 []) (quiet_db busy_tables)))) = [''hello'']"
    by (simp_all add: listOfflineMessages_def quiet_read select_offline_def offline_rows_def busy_rows
        after_cursor_def Build_def ParseMessageStatus_def message_fits_def)
  then show "po_code (fst sample_pull) = OK" "map om_content (po_messages (fst sample_pull)) = [''hello'']"
    by (simp_all add: sample_pull_def pullOfflineMessages_def plain_services world_eval pull_request_def
        kMaxPullOfflineLimit_def Cursor_def offline_message_def comp_def)
qed

subsection \<open>Accepting a friend request\<close>

definition sample_accept :: "FriendshipActionResult \<times> World" where
  "sample_accept = run_state (acceptFriend (friend_service default_RedisConfig) 10 \<lparr>acf_requester_user_id = 2\<rparr>) busy_world"

lemmas friendship_eval = quiet_read ReadFriendship_def select_friendship_def OrderedPair_def busy_rows
  friendship_fits_def BuildFriendship_def ParseFriendshipStatus_def

lemma sample_accept_ok: "far_code (fst sample_accept) = OK"
proof -
  obtain u where u: "run_state (findById 2) (quiet_db busy_tables) =
      (\<lparr>fu_status = kOk, fu_user = Some u\<rparr>, quiet_db busy_tables)"
    using busy_find_user [of 2] by auto
  have find: "run_state (findFriendship 2 1) (quiet_db busy_tables) =
      (\<lparr>ff_status = kOk, ff_friendship =
          Some \<lparr>f_id = 1, f_requester_id = 2, f_addressee_id = 1, f_status = kPending,
                f_created_at = ''now'', f_updated_at = ''now''\<rparr>\<rparr>, quiet_db busy_tables)"
    by (simp add: findFriendship_def friendship_eval)
  have "uf_status (fst (run_state (acceptFriendRequest 2 1) (quiet_db busy_tables))) = kOk"
    "uf_friendship (fst (run_state (acceptFriendRequest 2 1) (quiet_db busy_tables))) \<noteq> None"
    by (simp_all add: acceptFriendRequest_def ExecuteUpdate_def update_accepted_def awaits_def
        accepted_row_def friendship_eval)
  then show ?thesis
    by (simp add: sample_accept_def acceptFriend_def GetAuthenticatedSession_def friend_service_def
        plain_services world_eval ValidateUserExists_def accept_request_def u find)
qed

subsection \<open>Group operations\<close>

lemma busy_group:
  "run_state (findGroup ''g1'') (quiet_db busy_tables) =
     (\<lparr>gf_status = kOk, gf_group = Some (hd (t_groups busy_tables))\<rparr>, quiet_db busy_tables)"
  "run_state (listMembers ''g1'') (quiet_db busy_tables) =
     (\<lparr>gl_status = kOk, gl_members = t_group_members busy_tables\<rparr>, quiet_db busy_tables)"
  "ok (ConversationId ''g1'')"
  by (simp_all add: findGroup_def listMembers_def ReadGroup_def select_group_def select_group_members_def
      group_fits_def member_fits_def quiet_read busy_rows ConversationId_def ok_RequiredIdentifier
      kIdMaxLength_def IsValidIdentifier_def HasNul_def isalnum_def is_digit_def byte_def of_char_def)

definition add_request :: AddGroupMemberRequest where
  "add_request = \<lparr>ag_group_id = ''g1'', ag_user_id = 3\<rparr>"

definition sample_add :: "AddGroupMemberResult \<times> World" where
  "sample_add = run_state (addGroupMember (group_service default_RedisConfig (\<lambda>_. 0)) 10 add_request) busy_world"

lemma sample_add_ok: "agr_code (fst sample_add) = OK"
proof -
  have r: "ag_group_id add_request = ''g1''" "ag_user_id add_request = 3"
    by (simp_all add: add_request_def)
  obtain u where u: "run_state (findById 3) (quiet_db busy_tables) =
      (\<lparr>fu_status = kOk, fu_user = Some u\<rparr>, quiet_db busy_tables)"
    using busy_find_user [of 3] by auto
  have "fst (run_state (addMember (new_member add_request)) (quiet_db busy_tables)) =
      \<lparr>ga_status = kOk, ga_member = Some (new_member add_request), ga_created = True\<rparr>"
    by (simp add: addMember_def ExecuteUpdate_def insert_group_member_def same_member_def new_member_def
        add_request_def quiet_read busy_rows)
  then show ?thesis
    by (simp add: sample_add_def addGroupMember_def admit_member_def group_service_def plain_services world_eval
        ValidateGroupId_def GetAuthenticatedSession_def UserExists_def busy_group busy_rows FindMember_def
        RoleCanManageMembers_def r u)
qed

definition group_request :: SendGroupMessageRequest where
  "group_request = \<lparr>sg_group_id = ''g1'', sg_client_msg_id = ''c1'', sg_content = ''hi''\<rparr>"

definition group_inputs :: GroupSendInputs where
  "group_inputs = \<lparr>gi_now = 100, gi_pid = 7, gi_draws = (\<lambda>n. (of_nat n, 5))\<rparr>"

definition sample_group_send :: "SendGroupMessageResult \<times> World" where
  "sample_group_send =
     run_state (sendGroupMessage (group_service default_RedisConfig (\<lambda>_. 0)) group_inputs 10 group_request) busy_world"

lemma busy_create:
  assumes "m_conversation_id m = ''group_g1''" "m_from_user_id m = 1" "m_id m \<noteq> ''m1''"
  obtains n where "cmr_status (fst (run_state (createMessage m) (quiet_db busy_tables))) = kOk"
    "cmr_message (fst (run_state (createMessage m) (quiet_db busy_tables))) = Some (m\<lparr>m_sequence := n\<rparr>)"
  using assms
  by (simp add: sql_eval statement_eval busy_tables_def sample_tables_def find_failure_def int64_max_def)

lemma sample_group_send_ok: "sgr_code (fst sample_group_send) = OK"
proof -
  define pending where "pending = group_pending (group_service default_RedisConfig (\<lambda>_. 0)) group_inputs 1 ''group_g1'' group_request 0 2"
  have r: "sg_group_id group_request = ''g1''" "ok (MessageContent (sg_content group_request))"
    "ok (ClientMessageId (sg_client_msg_id group_request))"
    using sample_request_ok by (simp_all add: group_request_def sample_request_def)
  have "m_conversation_id pending = ''group_g1''" "m_from_user_id pending = 1" "m_id pending \<noteq> ''m1''"
    by (simp_all add: pending_def group_pending_def group_inputs_def BuildGroupMessageId_def Let_def)
  then obtain n where n: "cmr_status (fst (run_state (createMessage pending) (quiet_db busy_tables))) = kOk"
    "cmr_message (fst (run_state (createMessage pending) (quiet_db busy_tables))) = Some (pending\<lparr>m_sequence := n\<rparr>)"
    by (rule busy_create)
  have "SameStoredGroupMessage pending (pending\<lparr>m_sequence := n\<rparr>)"
    by (simp add: SameStoredGroupMessage_def)
  then show ?thesis
    using n unfolding pending_def group_service_def plain_services
    by (simp add: sample_group_send_def sendGroupMessage_def send_to_members_def group_service_def plain_services
        world_eval ValidateGroupId_def GetAuthenticatedSession_def busy_group busy_rows FindMember_def Let_def r)
qed

subsection \<open>Registering and logging in\<close>

definition user_inputs :: UserInputs where
  "user_inputs =
     \<lparr>ui_limiter_clock = 0, ui_salt = sample_random, ui_token = [GotBytes (replicate 32 (CHR ''x''))]\<rparr>"

definition register_request :: RegisterRequest where
  "register_request = \<lparr>rr_username = ''dave'', rr_password = ''secret'', rr_nickname = ''d''\<rparr>"

definition sample_register :: "RegisterResult \<times> World" where
  "sample_register =
     run_state (registerUser (user_service default_RedisConfig sample_libcrypt) user_inputs register_request []) busy_world"

definition login_request :: LoginRequest where
  "login_request = \<lparr>lr_username = ''alice'', lr_password = ''secret''\<rparr>"

definition sample_login :: "LoginResult \<times> World" where
  "sample_login =
     run_state (login (user_service default_RedisConfig sample_libcrypt) user_inputs login_request 11 []) busy_world"

lemma sample_credentials_ok:
  "validateRegisterRequest register_request = None" "validateLoginRequest login_request = None"
proof -
  have "ok (Username ''dave'')" "ok (Username ''alice'')"
    by (simp_all add: Username_def kUsernameMinLength_def kUsernameMaxLength_def IsValidIdentifier_def HasNul_def
        isalnum_def byte_def of_char_def)
  moreover have "ok (RegisterPassword ''secret'')" "ok (LoginPassword ''secret'')"
    by (simp_all add: RegisterPassword_def LoginPassword_def kRegisterPasswordMinLength_def kPasswordMaxLength_def
        HasNul_def byte_def of_char_def)
  moreover have "utf8_encode 100 = ''d''"
    by code_simp
  then have "ok (Nickname ''d'')"
    using ok_Nickname_repeat [of 100 1] by (simp add: scalar_value_def is_control_def kNicknameMaxLength_def)
  ultimately show "validateRegisterRequest register_request = None" "validateLoginRequest login_request = None"
    by (simp_all add: validateRegisterRequest_def validateLoginRequest_def register_request_def login_request_def)
qed

lemma sample_register_ok: "rg_code (fst sample_register) = OK"
proof -
  obtain e where e: "Hash sample_libcrypt 12 sample_random ''secret'' = Some e"
    using sample_hash by blast
  have "fu_status (fst (run_state (findByUsername ''dave'') (quiet_db busy_tables))) = kNotFound"
    "snd (run_state (findByUsername ''dave'') (quiet_db busy_tables)) = quiet_db busy_tables"
    by (simp_all add: findByUsername_def quiet_read busy_rows sample_user_def user_failure_def)
  moreover have "cu_status (fst (run_state (createUser ''dave'' e ''d'') (quiet_db busy_tables))) = kOk"
    by (simp add: createUser_def insert_user_def quiet_read busy_rows sample_user_def wrap_int64_def int64_max_def)
  ultimately show ?thesis
    using sample_credentials_ok e
    by (simp add: sample_register_def registerUser_def register_request_def check_user_rate_def plain_services
        world_eval query_failed_def insert_failed_def user_inputs_def bcrypt_hasher_ops_def allow_all_def register_refused_def)
qed

lemma sample_login_ok: "lg_code (fst sample_login) = OK"
proof -
  obtain e where e: "Hash sample_libcrypt 12 sample_random ''secret'' = Some e"
    using sample_hash by blast
  have find: "run_state (findByUsername ''alice'') (quiet_db busy_tables) =
      (\<lparr>fu_status = kOk, fu_user = Some (sample_user 1 ''alice'')\<rparr>, quiet_db busy_tables)"
    by (simp add: findByUsername_def quiet_read busy_rows sample_user_def sample_user_fits)
  have "\<not> HasEmbeddedNul ''secret''"
    by code_simp
  then have legacy: "Verify sample_libcrypt ''secret'' (LegacyHash ''secret'')" "NeedsRehash 12 (LegacyHash ''secret'')"
    using legacy_hash_format legacy_not_bcrypt by (simp_all add: Verify_def NeedsRehash_def ConstantTimeEquals_iff)
  have "e \<noteq> LegacyHash ''secret''"
    using e legacy_not_bcrypt [OF legacy_hash_format] by (auto simp: Hash_def split: if_splits option.splits)
  then have "fst (run_state (updatePasswordHash 1 e) (quiet_db busy_tables)) = kOk"
    by (simp add: updatePasswordHash_def update_user_hash_def quiet_read busy_rows sample_user_def Let_def)
  moreover have "generateToken [GotBytes (replicate 32 (CHR ''x''))] \<noteq> []"
    by code_simp
  ultimately show ?thesis
    using sample_credentials_ok e legacy
    by (simp add: sample_login_def login_def login_request_def check_user_rate_def plain_services world_eval
        query_failed_def user_inputs_def bcrypt_hasher_ops_def allow_all_def find upgrade_hash_def login_result_def
        sample_user_def)
qed

end
