(* ===== verification/CondVar.thy ===== *)
theory CondVar
  imports Main "HOL-Library.Multiset"
begin

text \<open>
  Threads at a condition variable, shared by the two connection pools. The threads of a component are
  a multiset of their local states; a notification wakes one sleeping thread, if there is one, or all
  of them. The locale states what the pools' thread states must satisfy and how the numbers of
  sleeping and woken threads change.
\<close>

datatype notification = notify_one | notify_all

text \<open>The effect of \<^verbatim>\<open>notify_one()\<close> and \<^verbatim>\<open>notify_all()\<close> on the other threads.\<close>

inductive notified ::
  "('b \<Rightarrow> bool) \<Rightarrow> ('b \<Rightarrow> 'b) \<Rightarrow> notification list \<Rightarrow> 'b multiset \<Rightarrow> 'b multiset \<Rightarrow> bool" for asleep wake where
  none: "notified asleep wake [] ts ts"
| missed: "notified asleep wake ns ts ts' \<Longrightarrow> \<forall>b \<in># ts. \<not> asleep b \<Longrightarrow>
    notified asleep wake (notify_one # ns) ts ts'"
| one: "notified asleep wake ns (add_mset (wake b) ts) ts' \<Longrightarrow> asleep b \<Longrightarrow>
    notified asleep wake (notify_one # ns) (add_mset b ts) ts'"
| everyone: "notified asleep wake ns (image_mset wake ts) ts' \<Longrightarrow>
    notified asleep wake (notify_all # ns) ts ts'"

lemma notified_nothing: "notified asleep wake [] ts ts' \<Longrightarrow> ts' = ts"
  by (auto elim: notified.cases)

section \<open>Counting threads\<close>

definition number :: "('b \<Rightarrow> bool) \<Rightarrow> 'b multiset \<Rightarrow> nat" where
  "number P ts = size (filter_mset P ts)"

lemma number_simps [simp]:
  "number P {#} = 0" "number P (add_mset b ts) = (if P b then Suc (number P ts) else number P ts)"
  "number (\<lambda>b. False) ts = 0"
  by (simp_all add: number_def)

lemma number_image: "number P (image_mset f ts) = number (\<lambda>b. P (f b)) ts"
  by (induction ts) auto

lemma number_none: "\<forall>b \<in># ts. \<not> P b \<Longrightarrow> number P ts = 0"
  by (auto simp: number_def)

lemma number_member: "b \<in># ts \<Longrightarrow> P b \<Longrightarrow> 0 < number P ts"
  by (auto dest!: multi_member_split)

section \<open>What the threads of a component satisfy\<close>

locale condition_variable =
  fixes asleep :: "'b \<Rightarrow> bool"
    and woken :: "'b \<Rightarrow> bool"
    and owns :: "'b \<Rightarrow> bool"
    and objects :: "'b \<Rightarrow> 'o multiset"
    and wake :: "'b \<Rightarrow> 'b"
  assumes wake_owns: "owns (wake b) = owns b"
    and wake_objects: "objects (wake b) = objects b"
    and wake_asleep: "\<not> asleep (wake b)"
    and wake_woken: "woken (wake b) \<longleftrightarrow> asleep b \<or> woken b"
    and not_both: "asleep b \<Longrightarrow> \<not> woken b"
begin

lemmas wake_keeps = wake_owns wake_objects wake_asleep wake_woken

lemma number_or: "number (\<lambda>b. asleep b \<or> woken b) ts = number asleep ts + number woken ts"
proof (induction ts)
  case (add b ts)
  then show ?case
    using not_both [of b] by auto
qed simp

text \<open>A notification moves sleeping threads to the woken ones and changes nothing else.\<close>

lemma notified_keeps:
  assumes "notified asleep wake ns ts ts'"
  shows "number owns ts' = number owns ts" "(\<Sum>b\<in>#ts'. objects b) = (\<Sum>b\<in>#ts. objects b)"
    "number asleep ts' + number woken ts' = number asleep ts + number woken ts"
    "number asleep ts' = (if notify_all \<in> set ns then 0 else number asleep ts - length ns)"
  using assms
proof (induction rule: notified.induct)
  case (missed ns ts ts')
  {
    case 4
    show ?case
      unfolding missed.IH(4) number_none [OF missed.hyps(2)] by simp
  }
qed (auto simp: number_image wake_keeps image_mset.compositionality comp_def number_or dest: not_both)

lemma notified_one:
  assumes "notified asleep wake [notify_one] ts ts'"
  shows "number asleep ts' = number asleep ts - 1"
    "0 < number asleep ts \<Longrightarrow> number woken ts' = Suc (number woken ts)"
  using notified_keeps(3,4) [OF assms] by simp_all

lemma notified_all:
  assumes "notified asleep wake [notify_all] ts ts'"
  shows "number asleep ts' = 0"
  using notified_keeps(4) [OF assms] by simp

end

section \<open>Exclusive ownership\<close>

definition exclusive :: "'o multiset \<Rightarrow> bool" where
  "exclusive hs \<longleftrightarrow> (\<forall>h. count hs h \<le> 1)"

lemma exclusive_mono: "exclusive hs \<Longrightarrow> hs' \<subseteq># hs \<Longrightarrow> exclusive hs'"
  by (meson exclusive_def mset_subset_eq_count order_trans)

lemma exclusive_add: "exclusive hs \<Longrightarrow> h \<notin># hs \<Longrightarrow> exclusive (add_mset h hs)"
  by (simp add: exclusive_def not_in_iff)

lemma exclusive_mset: "distinct xs \<Longrightarrow> exclusive (mset xs)"
  by (simp add: exclusive_def distinct_count_atmost_1 count_eq_zero_iff)

end
