(* ===== verification/DbPool.thy ===== *)
theory DbPool
  imports MySql CondVar "HOL-Library.Word"
begin

text \<open>
  The pool of database connections, \<^verbatim>\<open>src/src/db/db_pool.cc\<close> and \<^verbatim>\<open>src/src/db/db_connection.cc\<close>. The
  parts of \<^verbatim>\<open>borrow\<close>, \<^verbatim>\<open>returnConnection\<close> and \<^verbatim>\<open>stop\<close> that run under the mutex are functions on the
  pool; a step relation interleaves them for any number of threads, together with the calls made
  without the lock (ping, connect) and the condition variable. It is shown that the pool counts its
  connections exactly and never exceeds its maximum, lends each connection to one thread only, and
  loses no wake-up.
\<close>

section \<open>Configuration\<close>

record DbConfig =
  dbc_host :: string
  dbc_port :: "16 word"
  dbc_username :: string
  dbc_password :: string
  dbc_database :: string
  dbc_connect_timeout_seconds :: "32 word"
  dbc_read_timeout_seconds :: "32 word"
  dbc_write_timeout_seconds :: "32 word"
  dbc_charset :: string

record DbPoolConfig =
  pc_min_connections :: "64 word"
  pc_max_connections :: "64 word"
  pc_borrow_timeout_ms :: "32 word"
  pc_connect_retry_count :: "32 word"
  pc_connect_retry_delay_ms :: "32 word"
  pc_idle_timeout_ms :: "32 word"
  pc_max_lifetime_ms :: "32 word"

definition default_DbPoolConfig :: DbPoolConfig where
  "default_DbPoolConfig =
     \<lparr>pc_min_connections = 1, pc_max_connections = 4, pc_borrow_timeout_ms = 1000, pc_connect_retry_count = 1,
      pc_connect_retry_delay_ms = 100, pc_idle_timeout_ms = 300000, pc_max_lifetime_ms = 1800000\<rparr>"

section \<open>One connection\<close>

text \<open>
  The handle of the client library and what its calls answer are inputs: whether \<^verbatim>\<open>mysql_init\<close> gives a
  handle, the error of each of the four \<^verbatim>\<open>mysql_options\<close> calls, and the error of \<^verbatim>\<open>mysql_real_connect\<close>.
\<close>

type_synonym mysql_error = "32 word \<times> string"

record connect_answers =
  ca_handle :: "nat option"
  ca_options :: "mysql_error option list"
  ca_connect :: "mysql_error option"

record DbConnectionResult =
  dr_success :: bool
  dr_error_code :: "32 word"
  dr_error_message :: string

text \<open>The connection holds an open handle or none; the second component lists the handles closed.\<close>

type_synonym DbConnection = "nat option"

definition isConnected :: "DbConnection \<Rightarrow> bool" where
  "isConnected conn \<longleftrightarrow> conn \<noteq> None"

fun set_options :: "mysql_error option list \<Rightarrow> mysql_error option" where
  "set_options [] = None"
| "set_options (Some err # rest) = Some err"
| "set_options (None # rest) = set_options rest"

definition connect :: "connect_answers \<Rightarrow> DbConnection \<Rightarrow> DbConnectionResult \<times> DbConnection \<times> nat list" where
  "connect answers conn =
     (if isConnected conn then (\<lparr>dr_success = True, dr_error_code = 0, dr_error_message = []\<rparr>, conn, [])
      else case ca_handle answers of
        None \<Rightarrow> (\<lparr>dr_success = False, dr_error_code = 0, dr_error_message = ''mysql_init failed''\<rparr>, conn, [])
      | Some raw \<Rightarrow>
          (case set_options (ca_options answers) of
             Some (code, text) \<Rightarrow>
               (\<lparr>dr_success = False, dr_error_code = code, dr_error_message = text\<rparr>, conn, [raw])
           | None \<Rightarrow>
               (case ca_connect answers of
                  Some (code, text) \<Rightarrow>
                    (\<lparr>dr_success = False, dr_error_code = code, dr_error_message = text\<rparr>, conn, [raw])
                | None \<Rightarrow> (\<lparr>dr_success = True, dr_error_code = 0, dr_error_message = []\<rparr>, Some raw, []))))"

definition close :: "DbConnection \<Rightarrow> DbConnection \<times> nat list" where
  "close conn = (case conn of Some raw \<Rightarrow> (None, [raw]) | None \<Rightarrow> (None, []))"

definition ping :: "(nat \<Rightarrow> bool) \<Rightarrow> DbConnection \<Rightarrow> bool" where
  "ping mysql_ping conn = (case conn of Some raw \<Rightarrow> mysql_ping raw | None \<Rightarrow> False)"

section \<open>State of the pool\<close>

text \<open>
  Connections are named by the object that the factory allocated. Times are in nanoseconds of the
  steady clock.
\<close>

type_synonym conn_object = nat
type_synonym steady_time = int

record IdleConnection =
  ic_conn :: conn_object
  ic_create_time :: steady_time
  ic_last_return_time :: steady_time

record Stats =
  st_waiting_threads :: "64 word"
  st_total_created :: "64 word"
  st_total_ping_failed :: "64 word"
  st_total_invalidated :: "64 word"
  st_total_expired :: "64 word"
  st_total_timeouts :: "64 word"

record DbPool =
  dp_idle_connections :: "IdleConnection list"
  dp_total_connections :: "64 word"
  dp_stopping :: bool
  dp_initialized :: bool
  dp_stats :: Stats

definition DbPool_new :: DbPool where
  "DbPool_new =
     \<lparr>dp_idle_connections = [], dp_total_connections = 0, dp_stopping = False, dp_initialized = False,
      dp_stats = \<lparr>st_waiting_threads = 0, st_total_created = 0, st_total_ping_failed = 0,
        st_total_invalidated = 0, st_total_expired = 0, st_total_timeouts = 0\<rparr>\<rparr>"

abbreviation count_stat :: "((64 word \<Rightarrow> 64 word) \<Rightarrow> Stats \<Rightarrow> Stats) \<Rightarrow> DbPool \<Rightarrow> DbPool" where
  "count_stat upd p \<equiv> p\<lparr>dp_stats := upd (\<lambda>n. n + 1) (dp_stats p)\<rparr>"

text \<open>The answer of \<^verbatim>\<open>getStats\<close> and \<^verbatim>\<open>snapshotStatsLocked\<close>: idle, total and the counters.\<close>

definition getStats :: "DbPool \<Rightarrow> 64 word \<times> 64 word \<times> Stats" where
  "getStats p = (of_nat (length (dp_idle_connections p)), dp_total_connections p, dp_stats p)"

definition isExpired :: "DbPoolConfig \<Rightarrow> IdleConnection \<Rightarrow> steady_time \<Rightarrow> bool" where
  "isExpired cfg c now \<longleftrightarrow>
     now - ic_last_return_time c > uint (pc_idle_timeout_ms cfg) * 1000000 \<or>
     now - ic_create_time c > uint (pc_max_lifetime_ms cfg) * 1000000"

section \<open>Creating connections\<close>

text \<open>One attempt: the factory gives nothing, or the object it gives connects or not.\<close>

datatype create_attempt = FactoryNull | Connected conn_object | ConnectError "32 word" string

record CreateConnectionResult =
  cc_connection :: "conn_object option"
  cc_error :: DbPoolError
  cc_mysql_error_code :: "32 word"
  cc_message :: string

fun create_attempts :: "nat \<Rightarrow> create_attempt list \<Rightarrow> CreateConnectionResult \<Rightarrow> CreateConnectionResult" where
  "create_attempts (Suc n) (FactoryNull # rest) res =
     \<lparr>cc_connection = None, cc_error = kConnectFailed, cc_mysql_error_code = 0,
      cc_message = ''connection factory returned null''\<rparr>"
| "create_attempts (Suc n) (Connected h # rest) res =
     \<lparr>cc_connection = Some h, cc_error = kNone, cc_mysql_error_code = 0, cc_message = []\<rparr>"
| "create_attempts (Suc n) (ConnectError code text # rest) res =
     create_attempts n rest
       (res\<lparr>cc_error := kConnectFailed, cc_mysql_error_code := code, cc_message := text\<rparr>)"
| "create_attempts _ _ res = res"

text \<open>The number of attempts is computed in 32 bits; \<^verbatim>\<open>attempts\<close> has at least that many elements.\<close>

definition createConnection :: "DbPoolConfig \<Rightarrow> create_attempt list \<Rightarrow> CreateConnectionResult" where
  "createConnection cfg attempts =
     create_attempts (unat (pc_connect_retry_count cfg + 1)) attempts
       \<lparr>cc_connection = None, cc_error = kNone, cc_mysql_error_code = 0, cc_message = []\<rparr>"

section \<open>Initialisation\<close>

record DbPoolInitResult =
  di_success :: bool
  di_error :: DbPoolError
  di_mysql_error_code :: "32 word"
  di_message :: string

definition init_refused :: "DbPoolError \<Rightarrow> 32 word \<Rightarrow> string \<Rightarrow> DbPoolInitResult" where
  "init_refused err code text =
     \<lparr>di_success = False, di_error = err, di_mysql_error_code = code, di_message = text\<rparr>"

definition check_config :: "DbConfig \<Rightarrow> DbPoolConfig \<Rightarrow> string option" where
  "check_config db cfg =
     (if dbc_host db = [] \<or> dbc_port db = 0 \<or> dbc_username db = [] \<or> dbc_database db = []
      then Some ''host, port, username, or database is empty''
      else if pc_min_connections cfg > pc_max_connections cfg then Some ''min_connections > max_connections''
      else if pc_max_connections cfg \<le> 0 then Some ''max_connections <= 0''
      else if pc_borrow_timeout_ms cfg = 0 then Some ''borrow_timeout_ms == 0''
      else if pc_connect_retry_count cfg > 0 \<and> pc_connect_retry_delay_ms cfg = 0
      then Some ''connect_retry_delay_ms == 0''
      else None)"

text \<open>The connections created before the lock is taken, one list of attempts and one time for each.\<close>

fun initial_connections ::
  "DbPoolConfig \<Rightarrow> nat \<Rightarrow> (create_attempt list \<times> steady_time) list \<Rightarrow> IdleConnection list \<Rightarrow>
   CreateConnectionResult + IdleConnection list" where
  "initial_connections cfg (Suc n) ((attempts, now) # rest) acc =
     (let res = createConnection cfg attempts
      in case cc_connection res of
           None \<Rightarrow> Inl res
         | Some h \<Rightarrow> initial_connections cfg n rest
             (acc @ [\<lparr>ic_conn = h, ic_create_time = now, ic_last_return_time = now\<rparr>]))"
| "initial_connections cfg _ _ acc = Inr acc"

definition add_idle :: "IdleConnection \<Rightarrow> DbPool \<Rightarrow> DbPool" where
  "add_idle c p =
     count_stat st_total_created_update
       (p\<lparr>dp_idle_connections := dp_idle_connections p @ [c], dp_total_connections := dp_total_connections p + 1\<rparr>)"

definition init ::
  "DbConfig \<Rightarrow> DbPoolConfig \<Rightarrow> (create_attempt list \<times> steady_time) list \<Rightarrow> DbPool \<Rightarrow> DbPoolInitResult \<times> DbPool" where
  "init db cfg creations p =
     (case check_config db cfg of
        Some text \<Rightarrow> (init_refused kInvalidConfig 0 text, p)
      | None \<Rightarrow>
          (case initial_connections cfg (unat (pc_min_connections cfg)) creations [] of
             Inl res \<Rightarrow>
               (init_refused (cc_error res) (cc_mysql_error_code res)
                  (''failed to create initial connection: '' @ cc_message res), p)
           | Inr conns \<Rightarrow>
               (\<lparr>di_success = True, di_error = kNone, di_mysql_error_code = 0, di_message = ''init success''\<rparr>,
                (fold add_idle conns p)\<lparr>dp_initialized := True\<rparr>)))"


section \<open>Borrowing\<close>

text \<open>
  Where a thread is: before the lock at the top of the loop of \<^verbatim>\<open>borrow\<close>, between two locked parts, in
  the wait (asleep, or woken and about to take the lock again), done with an error, or in possession
  of a connection. The flag \<^verbatim>\<open>encountered_health_check\<close> is kept by the threads inside \<^verbatim>\<open>borrow\<close>; a woken
  thread knows whether its time is up.
\<close>

datatype borrower =
  Borrowing bool
  | Checking IdleConnection bool
  | Creating bool
  | Sleeping bool
  | Woken bool bool
  | Failed DbPoolError "32 word" string
  | Using conn_object steady_time bool

text \<open>The loop from its top to the point where the lock is released.\<close>

definition borrow_top :: "DbPoolConfig \<Rightarrow> bool \<Rightarrow> DbPool \<Rightarrow> DbPool \<times> borrower" where
  "borrow_top cfg health p =
     (if \<not> dp_initialized p then (p, Failed kNotInitialized 0 ''DbPool is not initialized'')
      else if dp_stopping p then (p, Failed kStopping 0 ''DbPool is stopping'')
      else case dp_idle_connections p of
        c # rest \<Rightarrow> (p\<lparr>dp_idle_connections := rest\<rparr>, Checking c health)
      | [] \<Rightarrow>
          if dp_total_connections p < pc_max_connections cfg
          then (p\<lparr>dp_total_connections := dp_total_connections p + 1\<rparr>, Creating health)
          else (count_stat st_waiting_threads_update p, Sleeping health))"

definition drop_one :: "DbPool \<Rightarrow> DbPool" where
  "drop_one p = p\<lparr>dp_total_connections := dp_total_connections p - 1\<rparr>"

text \<open>After the health check of an idle connection. An expired one is not pinged.\<close>

definition borrow_checked ::
  "DbPoolConfig \<Rightarrow> steady_time \<Rightarrow> bool \<Rightarrow> IdleConnection \<Rightarrow> bool \<Rightarrow> DbPool \<Rightarrow> DbPool \<times> notification list \<times> borrower" where
  "borrow_checked cfg now healthy c health p =
     (if isExpired cfg c now
      then (case borrow_top cfg health (drop_one (count_stat st_total_expired_update p)) of
              (p', b) \<Rightarrow> (p', [notify_one], b))
      else if dp_stopping p then (drop_one p, [notify_all], Failed kStopping 0 ''DbPool is stopping'')
      else if healthy then (p, [], Using (ic_conn c) (ic_create_time c) True)
      else (drop_one (count_stat st_total_ping_failed_update p), [notify_one], Borrowing True))"

text \<open>After an attempt to create a connection.\<close>

definition borrow_created ::
  "CreateConnectionResult \<Rightarrow> steady_time \<Rightarrow> bool \<Rightarrow> DbPool \<Rightarrow> DbPool \<times> notification list \<times> borrower" where
  "borrow_created res now health p =
     (if dp_stopping p then (drop_one p, [notify_all], Failed kStopping 0 ''DbPool is stopping'')
      else case cc_connection res of
        Some h \<Rightarrow> (count_stat st_total_created_update p, [], Using h now True)
      | None \<Rightarrow>
          (drop_one p, [notify_one],
           Failed (if health then kHealthCheckFailed else cc_error res) (cc_mysql_error_code res) (cc_message res)))"

text \<open>The wait: its predicate, and what a woken thread does once it has the lock again.\<close>

definition may_proceed :: "DbPoolConfig \<Rightarrow> DbPool \<Rightarrow> bool" where
  "may_proceed cfg p \<longleftrightarrow>
     dp_stopping p \<or> dp_idle_connections p \<noteq> [] \<or> dp_total_connections p < pc_max_connections cfg"

definition borrow_woken :: "DbPoolConfig \<Rightarrow> bool \<Rightarrow> bool \<Rightarrow> DbPool \<Rightarrow> DbPool \<times> borrower" where
  "borrow_woken cfg health timed_out p =
     (let wait_success = may_proceed cfg p;
          p1 = p\<lparr>dp_stats := st_waiting_threads_update (\<lambda>n. n - 1) (dp_stats p)\<rparr>
      in if \<not> wait_success \<and> \<not> timed_out then (p, Sleeping health)
         else if dp_stopping p then (p1, Failed kStopping 0 ''DbPool is stopping'')
         else if \<not> wait_success \<and> dp_idle_connections p = []
         then (count_stat st_total_timeouts_update p1,
               Failed (if health then kHealthCheckFailed else kBorrowTimeoutError) 0 ''borrow connection timeout'')
         else borrow_top cfg health p1)"

section \<open>Returning and stopping\<close>

text \<open>\<^verbatim>\<open>returnConnection\<close> of a connection, once \<^verbatim>\<open>reusable && conn->ping()\<close> is known.\<close>

definition returnConnection ::
  "conn_object \<Rightarrow> steady_time \<Rightarrow> bool \<Rightarrow> bool \<Rightarrow> steady_time \<Rightarrow> DbPool \<Rightarrow> DbPool \<times> notification list" where
  "returnConnection h create_time reusable ping_ok now p =
     (let is_healthy = reusable \<and> ping_ok
      in if dp_stopping p \<or> \<not> is_healthy
         then (drop_one (if \<not> dp_stopping p \<and> \<not> is_healthy then count_stat st_total_invalidated_update p else p),
               [notify_one])
         else (p\<lparr>dp_idle_connections := dp_idle_connections p @
                   [\<lparr>ic_conn = h, ic_create_time = create_time, ic_last_return_time = now\<rparr>]\<rparr>, [notify_one]))"

text \<open>The connections to close come second.\<close>

definition stop :: "DbPool \<Rightarrow> DbPool \<times> notification list \<times> conn_object list" where
  "stop p =
     (if dp_stopping p then (p, [], [])
      else (p\<lparr>dp_stopping := True, dp_idle_connections := [],
              dp_total_connections := dp_total_connections p - of_nat (length (dp_idle_connections p))\<rparr>,
            [notify_all], map ic_conn (dp_idle_connections p)))"

section \<open>Threads\<close>

text \<open>
  All threads that are inside \<^verbatim>\<open>borrow\<close> or hold a connection, as a multiset. A notification reaches one
  sleeping thread, if there is one, or all of them.
\<close>

fun wake :: "borrower \<Rightarrow> borrower" where
  "wake (Sleeping health) = Woken health False"
| "wake b = b"

fun asleep :: "borrower \<Rightarrow> bool" where
  "asleep (Sleeping health) = True"
| "asleep _ = False"

fun woken :: "borrower \<Rightarrow> bool" where
  "woken (Woken health timed_out) = True"
| "woken _ = False"

fun owns :: "borrower \<Rightarrow> bool" where
  "owns (Checking c health) = True"
| "owns (Creating health) = True"
| "owns (Using h create_time reusable) = True"
| "owns _ = False"

fun objects :: "borrower \<Rightarrow> conn_object multiset" where
  "objects (Checking c health) = {#ic_conn c#}"
| "objects (Using h create_time reusable) = {#h#}"
| "objects _ = {#}"

definition all_objects :: "DbPool \<Rightarrow> borrower multiset \<Rightarrow> conn_object multiset" where
  "all_objects p ts = mset (map ic_conn (dp_idle_connections p)) + (\<Sum>b\<in>#ts. objects b)"

text \<open>
  One step of one thread. The calls without the lock (clock, ping, connect) have any outcome; an
  object the factory allocates is none of those in use. A sleeping thread may wake up at any time, by
  time-out or spuriously; a thread with a connection may mark it bad and returns it in the end.
\<close>

inductive pool_step ::
  "DbPoolConfig \<Rightarrow> DbPool \<times> borrower multiset \<Rightarrow> DbPool \<times> borrower multiset \<Rightarrow> bool" for cfg where
  call: "pool_step cfg (p, ts) (p, add_mset (Borrowing False) ts)"
| top: "borrow_top cfg health p = (p', b) \<Longrightarrow>
    pool_step cfg (p, add_mset (Borrowing health) ts) (p', add_mset b ts)"
| checked: "borrow_checked cfg now healthy c health p = (p', ns, b) \<Longrightarrow> notified asleep wake ns ts ts' \<Longrightarrow>
    pool_step cfg (p, add_mset (Checking c health) ts) (p', add_mset b ts')"
| created: "createConnection cfg attempts = res \<Longrightarrow>
    (\<forall>h. cc_connection res = Some h \<longrightarrow> h \<notin># all_objects p ts) \<Longrightarrow>
    borrow_created res now health p = (p', ns, b) \<Longrightarrow> notified asleep wake ns ts ts' \<Longrightarrow>
    pool_step cfg (p, add_mset (Creating health) ts) (p', add_mset b ts')"
| wakes: "pool_step cfg (p, add_mset (Sleeping health) ts) (p, add_mset (Woken health timed_out) ts)"
| woken: "borrow_woken cfg health timed_out p = (p', b) \<Longrightarrow>
    pool_step cfg (p, add_mset (Woken health timed_out) ts) (p', add_mset b ts)"
| gives_up: "pool_step cfg (p, add_mset (Failed err code text) ts) (p, ts)"
| marks_bad: "pool_step cfg (p, add_mset (Using h create_time reusable) ts) (p, add_mset (Using h create_time False) ts)"
| returns: "returnConnection h create_time reusable ping_ok now p = (p', ns) \<Longrightarrow> notified asleep wake ns ts ts' \<Longrightarrow>
    pool_step cfg (p, add_mset (Using h create_time reusable) ts) (p', ts')"
| stops: "stop p = (p', ns, closed) \<Longrightarrow> notified asleep wake ns ts ts' \<Longrightarrow> pool_step cfg (p, ts) (p', ts')"

section \<open>Invariant\<close>

text \<open>The connections that exist or are being made, and the places a borrower could still take.\<close>

definition in_pool :: "DbPool \<Rightarrow> borrower multiset \<Rightarrow> nat" where
  "in_pool p ts = length (dp_idle_connections p) + number owns ts"

definition available :: "DbPoolConfig \<Rightarrow> DbPool \<Rightarrow> borrower multiset \<Rightarrow> nat" where
  "available cfg p ts = unat (pc_max_connections cfg) - number owns ts"

definition pool_inv :: "DbPoolConfig \<Rightarrow> DbPool \<times> borrower multiset \<Rightarrow> bool" where
  "pool_inv cfg = (\<lambda>(p, ts).
     dp_initialized p \<and>
     dp_total_connections p = of_nat (in_pool p ts) \<and> in_pool p ts \<le> unat (pc_max_connections cfg) \<and>
     st_waiting_threads (dp_stats p) = of_nat (number (\<lambda>b. asleep b \<or> woken b) ts) \<and>
     exclusive (all_objects p ts) \<and>
     (dp_stopping p \<longrightarrow> dp_idle_connections p = [] \<and> number asleep ts = 0) \<and>
     (\<not> dp_stopping p \<and> 0 < number asleep ts \<longrightarrow> available cfg p ts \<le> number woken ts))"


interpretation pool_cv: condition_variable asleep woken owns objects wake
proof
  show "owns (wake b) = owns b" "objects (wake b) = objects b" "\<not> asleep (wake b)"
    "woken (wake b) \<longleftrightarrow> asleep b \<or> woken b" "asleep b \<Longrightarrow> \<not> woken b" for b
    by (cases b; simp)+
qed

subsection \<open>Preservation\<close>

lemma total_exact:
  assumes "pool_inv cfg (p, ts)"
  shows "unat (dp_total_connections p) = in_pool p ts"
proof -
  have "in_pool p ts < 2 ^ LENGTH(64)"
    using assms unsigned_less [of "pc_max_connections cfg", where ?'a = nat] by (auto simp: pool_inv_def)
  then show ?thesis
    using assms by (simp add: pool_inv_def unat_of_nat take_bit_nat_eq_self)
qed

lemma has_room:
  assumes "pool_inv cfg (p, ts)"
  shows "dp_total_connections p < pc_max_connections cfg \<longleftrightarrow> in_pool p ts < unat (pc_max_connections cfg)"
  using total_exact [OF assms] by (simp add: word_less_nat_alt)

lemmas counts = in_pool_def available_def pool_cv.number_or

lemma all_objects_simps:
  "all_objects p (add_mset b ts) = objects b + all_objects p ts"
  "all_objects (p\<lparr>dp_idle_connections := c # cs\<rparr>) ts = add_mset (ic_conn c) (all_objects (p\<lparr>dp_idle_connections := cs\<rparr>) ts)"
  "all_objects (p\<lparr>dp_idle_connections := cs @ [c]\<rparr>) ts = add_mset (ic_conn c) (all_objects (p\<lparr>dp_idle_connections := cs\<rparr>) ts)"
  "all_objects (p\<lparr>dp_total_connections := n\<rparr>) ts = all_objects p ts"
  "all_objects (p\<lparr>dp_stats := s\<rparr>) ts = all_objects p ts"
  "all_objects (drop_one p) ts = all_objects p ts"
  by (simp_all add: all_objects_def drop_one_def)

lemma all_objects_front:
  "dp_idle_connections p = c # cs \<Longrightarrow>
   all_objects p ts = add_mset (ic_conn c) (all_objects (p\<lparr>dp_idle_connections := cs\<rparr>) ts)"
  by (simp add: all_objects_def)

lemma all_objects_notified: "notified asleep wake ns ts ts' \<Longrightarrow> all_objects p ts' = all_objects p ts"
  using pool_cv.notified_keeps(2) by (simp add: all_objects_def)

lemma borrow_top_inv:
  assumes "pool_inv cfg (p, add_mset b0 ts)" "\<not> owns b0" "objects b0 = {#}" "\<not> asleep b0" "\<not> woken b0"
    and "borrow_top cfg health p = (p', b)"
  shows "pool_inv cfg (p', add_mset b ts)"
proof (cases "dp_initialized p \<and> \<not> dp_stopping p")
  case False
  then show ?thesis
    using assms by (auto simp: borrow_top_def pool_inv_def counts all_objects_simps)
next
  case True
  consider (idle) c rest where "dp_idle_connections p = c # rest"
    | (room) "dp_idle_connections p = []" "in_pool p ts < unat (pc_max_connections cfg)"
    | (full) "dp_idle_connections p = []" "\<not> in_pool p ts < unat (pc_max_connections cfg)"
    by (cases "dp_idle_connections p") auto
  then show ?thesis
  proof cases
    case idle
    then show ?thesis
      using assms True all_objects_front [OF idle]
      by (auto simp: borrow_top_def pool_inv_def counts all_objects_simps)
  next
    case room
    then show ?thesis
      using assms True has_room [OF assms(1)]
      by (simp add: borrow_top_def pool_inv_def counts all_objects_simps) (auto simp: all_objects_simps)
  next
    case full
    then show ?thesis
      using assms True has_room [OF assms(1)]
      by (simp add: borrow_top_def pool_inv_def counts all_objects_simps) (auto simp: all_objects_simps)
  qed
qed

text \<open>A thread gives its connection up: one place more, and the waiting threads hear of it.\<close>

lemma give_up_inv:
  assumes "pool_inv cfg (p, add_mset b0 ts)" "owns b0" "notified asleep wake ns ts ts'" "ns \<in> {[notify_one], [notify_all]}"
    and "\<not> owns b" "objects b = {#}" "\<not> asleep b" "\<not> woken b" "st_waiting_threads s = st_waiting_threads (dp_stats p)"
  shows "pool_inv cfg (drop_one (p\<lparr>dp_stats := s\<rparr>), add_mset b ts')" "pool_inv cfg (drop_one (p\<lparr>dp_stats := s\<rparr>), ts')"
proof -
  note keeps = pool_cv.notified_keeps [OF assms(3)]
  have sleep: "0 < number asleep ts' \<Longrightarrow> number woken ts' = Suc (number woken ts) \<and> 0 < number asleep ts"
    using keeps(3,4) assms(4) by (auto split: if_splits)
  have b0: "\<not> asleep b0" "\<not> woken b0"
    using assms(2) by (cases b0; simp)+
  have total: "dp_total_connections (drop_one (p\<lparr>dp_stats := s\<rparr>)) = of_nat (in_pool p ts')" "in_pool p ts' \<le> unat (pc_max_connections cfg)"
    using assms(1,2) keeps(1) by (simp_all add: pool_inv_def in_pool_def drop_one_def)
  have "exclusive (objects b0 + all_objects p ts)"
    using assms(1) by (simp add: pool_inv_def all_objects_simps)
  then have objs: "exclusive (all_objects p ts')"
    unfolding all_objects_notified [OF assms(3)] by (rule exclusive_mono) simp
  have waiting: "st_waiting_threads s = of_nat (number asleep ts' + number woken ts')"
    using assms(1,9) keeps(3) b0 by (simp add: pool_inv_def pool_cv.number_or)
  have stopped: "dp_stopping p \<longrightarrow> dp_idle_connections p = [] \<and> number asleep ts' = 0"
    using assms(1) keeps(4) b0 by (auto simp: pool_inv_def)
  have awake: "available cfg p ts' \<le> number woken ts'" if "\<not> dp_stopping p" "0 < number asleep ts'"
    using assms(1,2) that sleep [OF that(2)] b0 keeps(1) by (auto simp: pool_inv_def available_def)
  have "dp_initialized p"
    using assms(1) by (simp add: pool_inv_def)
  then show "pool_inv cfg (drop_one (p\<lparr>dp_stats := s\<rparr>), ts')"
    using total objs waiting stopped awake
    by (simp add: pool_inv_def counts all_objects_simps) (simp add: drop_one_def)
  then show "pool_inv cfg (drop_one (p\<lparr>dp_stats := s\<rparr>), add_mset b ts')"
    using assms(5-8) by (simp add: pool_inv_def counts all_objects_simps)
qed


lemma borrow_checked_inv:
  assumes "pool_inv cfg (p, add_mset (Checking c health) ts)"
    and "borrow_checked cfg now healthy c health p = (p', ns, b)" "notified asleep wake ns ts ts'"
  shows "pool_inv cfg (p', add_mset b ts')"
proof -
  note give_up = give_up_inv [OF assms(1) _ assms(3)]
  show ?thesis
  proof (cases "isExpired cfg c now")
    case True
    then obtain p1 where p1: "p1 = drop_one (count_stat st_total_expired_update p)"
      "borrow_top cfg health p1 = (p', b)" "ns = [notify_one]"
      using assms(2) by (auto simp: borrow_checked_def split: prod.splits)
    have "pool_inv cfg (p1, add_mset (Borrowing health) ts')"
      unfolding p1(1) by (rule give_up(1)) (simp_all add: p1(3))
    then show ?thesis
      by (rule borrow_top_inv) (use p1 in simp_all)
  next
    case False
    then consider (stopped) "p' = drop_one p" "ns = [notify_all]" "b = Failed kStopping 0 ''DbPool is stopping''"
      | (healthy) "p' = p" "ns = []" "b = Using (ic_conn c) (ic_create_time c) True"
      | (broken) "p' = drop_one (count_stat st_total_ping_failed_update p)" "ns = [notify_one]" "b = Borrowing True"
      using assms(2) by (auto simp: borrow_checked_def split: if_splits)
    then show ?thesis
    proof cases
      case stopped
      then show ?thesis
        using give_up(1) [of b "dp_stats p"] by simp
    next
      case healthy
      then show ?thesis
        using assms(1) notified_nothing assms(3) by (fastforce simp: pool_inv_def counts all_objects_simps)
    next
      case broken
      then show ?thesis
        using give_up(1) [of b "st_total_ping_failed_update (\<lambda>n. n + 1) (dp_stats p)"] by simp
    qed
  qed
qed

lemma borrow_created_inv:
  assumes "pool_inv cfg (p, add_mset (Creating health) ts)"
    and "\<forall>h. cc_connection res = Some h \<longrightarrow> h \<notin># all_objects p ts"
    and "borrow_created res now health p = (p', ns, b)" "notified asleep wake ns ts ts'"
  shows "pool_inv cfg (p', add_mset b ts')"
proof (cases "dp_stopping p \<or> cc_connection res = None")
  case True
  then have "p' = drop_one p" "ns \<in> {[notify_one], [notify_all]}" "\<exists>err code text. b = Failed err code text"
    using assms(3) by (auto simp: borrow_created_def split: if_splits option.splits)
  then show ?thesis
    using give_up_inv(1) [OF assms(1) _ assms(4), of b "dp_stats p"] by auto
next
  case False
  then obtain h where h: "cc_connection res = Some h" "p' = count_stat st_total_created_update p" "ns = []"
    "b = Using h now True"
    using assms(3) by (auto simp: borrow_created_def split: if_splits)
  then have "exclusive (add_mset h (all_objects p ts))"
    using assms(1,2) by (simp add: pool_inv_def all_objects_simps exclusive_add)
  then show ?thesis
    using assms(1) notified_nothing assms(4) h by (fastforce simp: pool_inv_def counts all_objects_simps)
qed

lemma borrow_woken_inv:
  assumes "pool_inv cfg (p, add_mset (Woken health timed_out) ts)" "borrow_woken cfg health timed_out p = (p', b)"
  shows "pool_inv cfg (p', add_mset b ts)"
proof (cases "may_proceed cfg p \<and> \<not> dp_stopping p")
  case False
  have "available cfg p ts = 0" if "\<not> may_proceed cfg p"
    using that assms(1) has_room [OF assms(1)] by (auto simp: may_proceed_def pool_inv_def counts)
  moreover have "may_proceed cfg p" if "dp_stopping p"
    using that by (simp add: may_proceed_def)
  ultimately show ?thesis
    using False assms
    by (auto simp: borrow_woken_def pool_inv_def counts all_objects_simps Let_def may_proceed_def split: if_splits)
next
  case True
  then consider (idle) c rest where "dp_idle_connections p = c # rest"
    | (room) "dp_idle_connections p = []" "dp_total_connections p < pc_max_connections cfg"
    by (cases "dp_idle_connections p") (auto simp: may_proceed_def)
  then show ?thesis
  proof cases
    case idle
    then show ?thesis
      using True assms
      by (auto simp: borrow_woken_def borrow_top_def pool_inv_def counts all_objects_def Let_def)
  next
    case room
    then show ?thesis
      using True assms has_room [OF assms(1)]
      by (auto simp: borrow_woken_def borrow_top_def pool_inv_def counts all_objects_def Let_def)
  qed
qed

lemma returnConnection_inv:
  assumes "pool_inv cfg (p, add_mset (Using h create_time reusable) ts)"
    and "returnConnection h create_time reusable ping_ok now p = (p', ns)" "notified asleep wake ns ts ts'"
  shows "pool_inv cfg (p', ts')"
proof (cases "dp_stopping p \<or> \<not> (reusable \<and> ping_ok)")
  case True
  then have "ns = [notify_one]"
    "p' = drop_one p \<or> p' = drop_one (count_stat st_total_invalidated_update p)"
    using assms(2) by (auto simp: returnConnection_def Let_def)
  then show ?thesis
    using give_up_inv(2) [OF assms(1) _ assms(3), of "Borrowing True" "dp_stats p"]
      give_up_inv(2) [OF assms(1) _ assms(3), of "Borrowing True" "st_total_invalidated_update (\<lambda>n. n + 1) (dp_stats p)"]
    by auto
next
  case False
  define c where "c = \<lparr>ic_conn = h, ic_create_time = create_time, ic_last_return_time = now\<rparr>"
  have p': "p' = p\<lparr>dp_idle_connections := dp_idle_connections p @ [c]\<rparr>" "ns = [notify_one]"
    using False assms(2) by (auto simp: returnConnection_def Let_def c_def)
  note one = pool_cv.notified_one [OF assms(3) [unfolded p'(2)]]
  note keeps = pool_cv.notified_keeps [OF assms(3)]
  have objs: "all_objects p' ts' = all_objects p (add_mset (Using h create_time reusable) ts)"
    using all_objects_notified [OF assms(3)] by (simp add: p'(1) all_objects_simps c_def)
  have waiting: "st_waiting_threads (dp_stats p) = of_nat (number asleep ts' + number woken ts')"
    using assms(1) keeps(3) by (simp add: pool_inv_def pool_cv.number_or)
  have awake: "available cfg p' ts' \<le> number woken ts'" if "0 < number asleep ts'"
    using assms(1) that one keeps(1) False by (auto simp: pool_inv_def available_def)
  show ?thesis
    using False assms(1) waiting awake objs keeps(1) by (simp add: pool_inv_def pool_cv.number_or) (simp add: in_pool_def p'(1))
qed

lemma stop_inv:
  assumes "pool_inv cfg (p, ts)" "stop p = (p', ns, closed)" "notified asleep wake ns ts ts'"
  shows "pool_inv cfg (p', ts')"
proof (cases "dp_stopping p")
  case True
  then show ?thesis
    using assms notified_nothing by (fastforce simp: stop_def)
next
  case False
  then have p': "p' = p\<lparr>dp_stopping := True, dp_idle_connections := [],
      dp_total_connections := dp_total_connections p - of_nat (length (dp_idle_connections p))\<rparr>" "ns = [notify_all]"
    using assms(2) by (auto simp: stop_def)
  have "all_objects p' ts \<subseteq># all_objects p ts"
    by (simp add: p'(1) all_objects_def)
  then have objs: "exclusive (all_objects p' ts')"
    using assms(1) all_objects_notified [OF assms(3)] exclusive_mono by (auto simp: pool_inv_def)
  have waiting: "st_waiting_threads (dp_stats p) = of_nat (number asleep ts' + number woken ts')"
    using assms(1) pool_cv.notified_keeps(3) [OF assms(3)] by (simp add: pool_inv_def pool_cv.number_or)
  show ?thesis
    using assms(1) objs waiting pool_cv.notified_keeps(1) [OF assms(3)] pool_cv.notified_all [OF assms(3) [unfolded p'(2)]]
    by (simp add: pool_inv_def pool_cv.number_or) (simp add: in_pool_def p'(1))
qed

lemma pool_step_inv: "pool_step cfg s s' \<Longrightarrow> pool_inv cfg s \<Longrightarrow> pool_inv cfg s'"
proof (induction rule: pool_step.induct)
  case (top health p p' b ts)
  show ?case
    by (rule borrow_top_inv [OF top(2) _ _ _ _ top(1)]) simp_all
next
  case (checked now healthy c health p p' ns b ts ts')
  then show ?case
    by (blast intro: borrow_checked_inv)
next
  case (created attempts res p ts now health p' ns b ts')
  then show ?case
    by (blast intro: borrow_created_inv)
next
  case (woken health timed_out p p' b ts)
  then show ?case
    by (blast intro: borrow_woken_inv)
next
  case (returns h create_time reusable ping_ok now p p' ns ts ts')
  then show ?case
    by (blast intro: returnConnection_inv)
next
  case (stops p p' ns closed ts ts')
  then show ?case
    by (blast intro: stop_inv)
qed (auto simp: pool_inv_def counts all_objects_simps)


subsection \<open>Initialisation\<close>

lemma initial_connections_length:
  "initial_connections cfg n creations acc = Inr conns \<Longrightarrow> length conns \<le> length acc + n"
  by (induction cfg n creations acc rule: initial_connections.induct)
    (auto simp: Let_def split: option.splits)

lemma fold_add_idle:
  "dp_idle_connections (fold add_idle conns p) = dp_idle_connections p @ conns"
  "dp_total_connections (fold add_idle conns p) = dp_total_connections p + of_nat (length conns)"
  "dp_stopping (fold add_idle conns p) = dp_stopping p"
  "st_waiting_threads (dp_stats (fold add_idle conns p)) = st_waiting_threads (dp_stats p)"
  by (induction conns arbitrary: p) (simp_all add: add_idle_def)

text \<open>The objects the initial connections were made of are distinct, as the factory allocates each.\<close>

definition fresh_pool :: "DbConfig \<Rightarrow> DbPoolConfig \<Rightarrow> DbPool \<Rightarrow> bool" where
  "fresh_pool db cfg p \<longleftrightarrow>
     (\<exists>creations res. init db cfg creations DbPool_new = (res, p) \<and> di_success res \<and>
        distinct (map ic_conn (dp_idle_connections p)))"

lemma fresh_pool_inv:
  assumes "fresh_pool db cfg p"
  shows "pool_inv cfg (p, {#})"
proof -
  obtain creations res where init: "init db cfg creations DbPool_new = (res, p)" "di_success res"
    and distinct: "distinct (map ic_conn (dp_idle_connections p))"
    using assms by (auto simp: fresh_pool_def)
  then obtain conns where conns: "initial_connections cfg (unat (pc_min_connections cfg)) creations [] = Inr conns"
    "p = (fold add_idle conns DbPool_new)\<lparr>dp_initialized := True\<rparr>" "check_config db cfg = None"
    by (auto simp: init_def init_refused_def split: option.splits sum.splits)
  have "length conns \<le> unat (pc_max_connections cfg)"
    using initial_connections_length [OF conns(1)] conns(3)
    by (auto simp: check_config_def word_less_nat_alt split: if_splits)
  moreover have "exclusive (mset (map ic_conn conns))"
    using distinct exclusive_mset by (fastforce simp: conns(2) fold_add_idle DbPool_new_def)
  ultimately show ?thesis
    by (simp add: pool_inv_def counts all_objects_def conns(2) fold_add_idle DbPool_new_def)
qed

abbreviation pool_run :: "DbPoolConfig \<Rightarrow> DbPool \<times> borrower multiset \<Rightarrow> DbPool \<times> borrower multiset \<Rightarrow> bool" where
  "pool_run cfg \<equiv> (pool_step cfg)\<^sup>*\<^sup>*"

lemma pool_run_inv: "pool_run cfg s s' \<Longrightarrow> pool_inv cfg s \<Longrightarrow> pool_inv cfg s'"
  by (induction rule: rtranclp_induct) (auto intro: pool_step_inv)

section \<open>Properties\<close>

text \<open>C18. However threads borrow, mark bad and return connections, and whatever pings and connection
  attempts answer: the pool counts exactly the connections that are idle, being checked, being made or
  in use, never more than \<^verbatim>\<open>max_connections\<close>, so that \<^verbatim>\<open>total_connections_\<close> never wraps around; no two
  threads hold the same connection and none that is in use is idle; \<^verbatim>\<open>waiting_threads\<close> is the number of
  threads in the wait.\<close>

theorem pool_counts_connections:
  assumes "fresh_pool db cfg p0" "pool_run cfg (p0, {#}) (p, ts)"
  shows "unat (dp_total_connections p) = length (dp_idle_connections p) + number owns ts \<and>
    unat (dp_total_connections p) \<le> unat (pc_max_connections cfg) \<and>
    (\<forall>h. count (all_objects p ts) h \<le> 1) \<and>
    st_waiting_threads (dp_stats p) = of_nat (number asleep ts + number woken ts)"
proof -
  have "pool_inv cfg (p, ts)"
    using pool_run_inv [OF assms(2) fresh_pool_inv [OF assms(1)]] .
  then have "in_pool p ts \<le> unat (pc_max_connections cfg)" "exclusive (all_objects p ts)"
    "st_waiting_threads (dp_stats p) = of_nat (number asleep ts + number woken ts)"
    "unat (dp_total_connections p) = in_pool p ts"
    using total_exact by (auto simp: pool_inv_def pool_cv.number_or)
  then show ?thesis
    by (simp add: in_pool_def exclusive_def)
qed

lemma woken_proceeds: "may_proceed cfg p \<Longrightarrow> \<not> asleep (snd (borrow_woken cfg health timed_out p))"
  by (auto simp: borrow_woken_def borrow_top_def may_proceed_def Let_def split: list.splits)

text \<open>C19. No wake-up is lost: a thread that stays asleep in \<^verbatim>\<open>borrow\<close> while nobody is on its way out of the
  wait sleeps only because all \<^verbatim>\<open>max_connections\<close> places are taken by other threads, with no connection
  idle and the pool not stopping. Whichever connection is given back next, broken or not, wakes a
  sleeper, and the sleeper then finds a connection or a free place instead of sleeping again.\<close>

theorem pool_loses_no_wakeup:
  assumes "fresh_pool db cfg p0" "pool_run cfg (p0, {#}) (p, ts)" "Sleeping health \<in># ts" "number woken ts = 0"
  shows "number owns ts = unat (pc_max_connections cfg) \<and> dp_idle_connections p = [] \<and> \<not> dp_stopping p \<and>
    (\<forall>h create_time reusable ping_ok now p' ns rest ts'.
       ts = add_mset (Using h create_time reusable) rest \<and>
       returnConnection h create_time reusable ping_ok now p = (p', ns) \<and> notified asleep wake ns rest ts' \<longrightarrow>
       number woken ts' = 1 \<and> (\<forall>timed_out. \<not> asleep (snd (borrow_woken cfg health timed_out p'))))"
proof -
  have inv: "pool_inv cfg (p, ts)"
    using pool_run_inv [OF assms(2) fresh_pool_inv [OF assms(1)]] .
  have asleep: "0 < number asleep ts"
    using assms(3) by (auto dest!: multi_member_split)
  then have "\<not> dp_stopping p" "unat (pc_max_connections cfg) \<le> number owns ts"
    "length (dp_idle_connections p) + number owns ts \<le> unat (pc_max_connections cfg)"
    using inv assms(4) by (auto simp: pool_inv_def counts)
  then have busy: "number owns ts = unat (pc_max_connections cfg)" "dp_idle_connections p = []" "\<not> dp_stopping p"
    by (simp_all flip: length_0_conv)
  have "number woken ts' = 1 \<and> (\<forall>timed_out. \<not> asleep (snd (borrow_woken cfg health timed_out p')))"
    if "ts = add_mset (Using h create_time reusable) rest"
      "returnConnection h create_time reusable ping_ok now p = (p', ns)" "notified asleep wake ns rest ts'"
    for h create_time reusable ping_ok now p' ns rest ts'
  proof -
    have "pool_inv cfg (p', ts')"
      by (rule returnConnection_inv [OF inv [unfolded that(1)] that(2,3)])
    then have room: "unat (dp_total_connections p') = length (dp_idle_connections p') + number owns rest"
      using total_exact pool_cv.notified_keeps(1) [OF that(3)] by (fastforce simp: in_pool_def)
    have ns: "ns = [notify_one]"
      using that(2) by (auto simp: returnConnection_def Let_def split: if_splits)
    have "number woken ts' = 1"
      using pool_cv.notified_one(2) [OF that(3) [unfolded ns]] asleep assms(4) that(1) by simp
    moreover have "dp_idle_connections p' \<noteq> [] \<or> number owns rest < unat (pc_max_connections cfg)"
      using busy(1) that(1) by simp
    ultimately show ?thesis
      using room woken_proceeds by (auto simp: may_proceed_def word_less_nat_alt)
  qed
  then show ?thesis
    using busy by blast
qed


subsection \<open>A run of the pool\<close>

definition sample_db_config :: DbConfig where
  "sample_db_config =
     \<lparr>dbc_host = ''db'', dbc_port = 3306, dbc_username = ''chat'', dbc_password = [], dbc_database = ''chat'',
      dbc_connect_timeout_seconds = 5, dbc_read_timeout_seconds = 5, dbc_write_timeout_seconds = 5,
      dbc_charset = ''utf8mb4''\<rparr>"

definition one_connection :: DbPoolConfig where
  "one_connection = default_DbPoolConfig\<lparr>pc_max_connections := 1\<rparr>"

definition small_pool :: DbPool where
  "small_pool = snd (init sample_db_config one_connection [([ConnectError 2002 ''refused'', Connected 7], 0)] DbPool_new)"

lemma small_pool_init:
  "init sample_db_config one_connection [([ConnectError 2002 ''refused'', Connected 7], 0)] DbPool_new =
     (\<lparr>di_success = True, di_error = kNone, di_mysql_error_code = 0, di_message = ''init success''\<rparr>,
      DbPool_new\<lparr>dp_idle_connections := [\<lparr>ic_conn = 7, ic_create_time = 0, ic_last_return_time = 0\<rparr>],
        dp_total_connections := 1, dp_initialized := True, dp_stats := (dp_stats DbPool_new)\<lparr>st_total_created := 1\<rparr>\<rparr>)"
proof -
  have "cc_connection (createConnection one_connection [ConnectError 2002 ''refused'', Connected 7]) = Some 7"
  proof -
    have "unat (pc_connect_retry_count one_connection + 1) = Suc (Suc 0)"
      by (simp add: one_connection_def default_DbPoolConfig_def)
    then show ?thesis
      by (simp add: createConnection_def)
  qed
  moreover have "check_config sample_db_config one_connection = None"
    by (simp add: check_config_def sample_db_config_def one_connection_def default_DbPoolConfig_def)
  moreover have "unat (pc_min_connections one_connection) = Suc 0"
    by (simp add: one_connection_def default_DbPoolConfig_def)
  ultimately show ?thesis
    by (simp add: init_def add_idle_def DbPool_new_def)
qed

lemma small_pool_fresh: "fresh_pool sample_db_config one_connection small_pool"
proof -
  have "distinct (map ic_conn (dp_idle_connections small_pool))"
    by (simp add: small_pool_def small_pool_init)
  then show ?thesis
    unfolding fresh_pool_def small_pool_def using small_pool_init by fastforce
qed

definition lent_pool :: DbPool where
  "lent_pool = small_pool\<lparr>dp_idle_connections := [], dp_stats := (dp_stats small_pool)\<lparr>st_waiting_threads := 1\<rparr>\<rparr>"

lemma small_pool_run: "pool_run one_connection (small_pool, {#}) (lent_pool, {#Sleeping False, Using 7 0 True#})"
proof -
  define c where "c = \<lparr>ic_conn = 7, ic_create_time = 0, ic_last_return_time = 0\<rparr>"
  let ?p = "small_pool\<lparr>dp_idle_connections := []\<rparr>"
  have pool: "dp_initialized small_pool" "\<not> dp_stopping small_pool" "dp_idle_connections small_pool = [c]"
    "dp_total_connections small_pool = 1" "st_waiting_threads (dp_stats small_pool) = 0"
    unfolding small_pool_def small_pool_init by (simp_all add: DbPool_new_def c_def)
  have cfg: "pc_max_connections one_connection = 1" "\<not> isExpired one_connection c 0"
    by (simp_all add: c_def isExpired_def one_connection_def default_DbPoolConfig_def)
  have s1: "pool_step one_connection (small_pool, {#}) (small_pool, {#Borrowing False#})"
    by (rule pool_step.call)
  have s2: "pool_step one_connection (small_pool, {#Borrowing False#}) (?p, {#Checking c False#})"
    by (rule pool_step.top) (simp add: borrow_top_def pool cfg)
  have s3: "pool_step one_connection (?p, {#Checking c False#}) (?p, {#Using 7 0 True#})"
    by (rule pool_step.checked [of _ 0 True _ _ _ _ "[]"])
      (simp_all add: borrow_checked_def pool cfg notified.none, simp add: c_def)
  have s4: "pool_step one_connection (?p, {#Using 7 0 True#}) (?p, {#Borrowing False, Using 7 0 True#})"
    by (rule pool_step.call)
  have s5: "pool_step one_connection (?p, {#Borrowing False, Using 7 0 True#}) (lent_pool, {#Sleeping False, Using 7 0 True#})"
    by (rule pool_step.top) (simp add: borrow_top_def pool cfg lent_pool_def)
  show ?thesis
    using s1 s2 s3 s4 s5 by (meson converse_rtranclp_into_rtranclp rtranclp.rtrancl_refl)
qed

theorem pool_counts_connections_witness:
  "pool_run one_connection (small_pool, {#}) (lent_pool, {#Sleeping False, Using 7 0 True#}) \<and>
   unat (dp_total_connections lent_pool) = 1"
  using pool_counts_connections [OF small_pool_fresh small_pool_run] small_pool_run
  by (simp add: lent_pool_def)

theorem pool_loses_no_wakeup_witness:
  "pool_run one_connection (small_pool, {#}) (lent_pool, {#Sleeping False, Using 7 0 True#}) \<and>
   number owns {#Sleeping False, Using 7 0 True#} = unat (pc_max_connections one_connection)"
  using pool_loses_no_wakeup [OF small_pool_fresh small_pool_run, of False] small_pool_run
  by simp

end
