(* ===== verification/RedisPool.thy ===== *)
theory RedisPool
  imports Redis CondVar "HOL-Library.Word"
begin

text \<open>
  The pool of Redis connections, \<^verbatim>\<open>src/src/redis/redis_pool.cc\<close>, the set-up of a connection in
  \<^verbatim>\<open>src/src/redis/redis_connection.cc\<close> and the client of \<^verbatim>\<open>src/src/redis/redis_client.cc\<close>. As for the
  database pool, the parts under the mutex are functions and a step relation interleaves them for any
  number of threads. Until the pool is stopped it counts its connections exactly; stopping it while a
  connection is being made can leave the counter below zero.
\<close>

section \<open>One connection\<close>

definition ToTimeval :: "32 word \<Rightarrow> int \<times> int" where
  "ToTimeval milliseconds = (uint (milliseconds div 1000), uint (milliseconds mod 1000 * 1000))"

text \<open>
  What the client library answers while connecting: no context, a context with an error, or a usable
  one, whether \<^verbatim>\<open>errno\<close> then says that the time was up, and the outcomes of the set-up commands.
\<close>

record connect_outcome =
  co_context :: "string option option"
  co_timed_out :: bool
  co_auth :: "(bool \<times> string) + redisReply"
  co_select :: "(bool \<times> string) + redisReply"

text \<open>The second component tells whether the connection keeps its context.\<close>

definition RunSetupCommand ::
  "string list \<Rightarrow> RedisError \<Rightarrow> (bool \<times> string) + redisReply \<Rightarrow> RedisCommandResult \<times> bool" where
  "RunSetupCommand args setup_error outcome =
     (let result = Execute True args outcome
      in if \<not> rcr_success result then (MakeRedisError setup_error (rcr_message result), False)
         else (result, True))"

definition connect_success :: RedisCommandResult where
  "connect_success =
     \<lparr>rcr_success = True, rcr_error = kRedisNone, rcr_message = ''connect success'', rcr_reply = empty_reply\<rparr>"

definition select_database :: "RedisConfig \<Rightarrow> connect_outcome \<Rightarrow> RedisCommandResult \<times> bool" where
  "select_database config outcome =
     (if rc_database config \<noteq> 0
      then case RunSetupCommand [''SELECT'', int_to_string (rc_database config)] kSelectFailed (co_select outcome) of
        (sel, kept) \<Rightarrow> if \<not> rcr_success sel then (sel, kept) else (connect_success, kept)
      else (connect_success, True))"

definition Connect :: "RedisConfig \<Rightarrow> connect_outcome \<Rightarrow> RedisCommandResult \<times> bool" where
  "Connect config outcome =
     (let validation = ValidateRedisConfig config
      in if \<not> rcf_success validation then (MakeRedisError kRedisInvalidConfig (rcf_message validation), False)
         else case co_context outcome of
           None \<Rightarrow>
             (MakeRedisError (if co_timed_out outcome then kTimeout else kRedisConnectionUnavailable)
                ''cannot allocate redis context'', False)
         | Some (Some errstr) \<Rightarrow>
             (MakeRedisError (if co_timed_out outcome then kTimeout else kRedisConnectionUnavailable) errstr, False)
         | Some None \<Rightarrow>
             if rc_password config \<noteq> []
             then case RunSetupCommand [''AUTH'', rc_password config] kAuthFailed (co_auth outcome) of
               (auth, kept) \<Rightarrow> if \<not> rcr_success auth then (auth, kept) else select_database config outcome
             else select_database config outcome)"

lemma Connect_success_keeps_context: "rcr_success (fst (Connect config outcome)) \<longleftrightarrow> snd (Connect config outcome)"
  by (auto simp: Connect_def RunSetupCommand_def select_database_def connect_success_def MakeRedisError_def Let_def
      split: option.splits prod.splits if_splits)

section \<open>State of the pool\<close>

type_synonym redis_object = nat

record RedisPoolStats =
  rst_waiting :: "64 word"
  rst_invalidated :: "64 word"
  rst_timeouts :: "64 word"

record RedisPool =
  rp_idle :: "redis_object list"
  rp_total :: "64 word"
  rp_initialized :: bool
  rp_stopping :: bool
  rp_stats :: RedisPoolStats

definition RedisPool_new :: RedisPool where
  "RedisPool_new =
     \<lparr>rp_idle = [], rp_total = 0, rp_initialized = False, rp_stopping = False,
      rp_stats = \<lparr>rst_waiting = 0, rst_invalidated = 0, rst_timeouts = 0\<rparr>\<rparr>"

text \<open>\<^verbatim>\<open>GetStats\<close>: idle, total and the counters.\<close>

definition GetStats :: "RedisPool \<Rightarrow> 64 word \<times> 64 word \<times> RedisPoolStats" where
  "GetStats p = (of_nat (length (rp_idle p)), rp_total p, rp_stats p)"

abbreviation pool_size :: "RedisConfig \<Rightarrow> 64 word" where
  "pool_size config \<equiv> of_nat (rc_pool_size config)"

text \<open>
  \<^verbatim>\<open>CreateConnected\<close>: there may be no factory, the factory may give nothing, or it gives an object whose
  \<^verbatim>\<open>Connect\<close> has the given outcome.
\<close>

datatype factory_answer = NoFactory | FactoryNull | Created redis_object connect_outcome

definition CreateConnected :: "RedisConfig \<Rightarrow> factory_answer \<Rightarrow> RedisCommandResult + redis_object" where
  "CreateConnected config answer =
     (case answer of
        NoFactory \<Rightarrow> Inl (MakeRedisError kRedisConnectionUnavailable ''redis connection factory is null'')
      | FactoryNull \<Rightarrow> Inl (MakeRedisError kRedisConnectionUnavailable ''redis connection factory returned null'')
      | Created h outcome \<Rightarrow>
          (let error = fst (Connect config outcome) in if rcr_success error then Inr h else Inl error))"

record RedisPoolInitResult =
  ri_success :: bool
  ri_error :: RedisError
  ri_message :: string

fun create_all :: "RedisConfig \<Rightarrow> nat \<Rightarrow> factory_answer list \<Rightarrow> redis_object list \<Rightarrow> RedisCommandResult + redis_object list" where
  "create_all config (Suc n) (answer # rest) created =
     (case CreateConnected config answer of
        Inl error \<Rightarrow> Inl error
      | Inr h \<Rightarrow> create_all config n rest (created @ [h]))"
| "create_all config _ _ created = Inr created"

text \<open>There is one answer for each of the \<^verbatim>\<open>pool_size\<close> connections.\<close>

definition Init :: "RedisConfig \<Rightarrow> factory_answer list \<Rightarrow> RedisPool \<Rightarrow> RedisPoolInitResult \<times> RedisPool" where
  "Init config answers p =
     (case create_all config (rc_pool_size config) answers [] of
        Inl error \<Rightarrow>
          (\<lparr>ri_success = False, ri_error = rcr_error error, ri_message = rcr_message error\<rparr>, p)
      | Inr created \<Rightarrow>
          (\<lparr>ri_success = True, ri_error = kRedisNone, ri_message = ''init success''\<rparr>,
           p\<lparr>rp_idle := rp_idle p @ created, rp_total := rp_total p + of_nat (length created),
             rp_initialized := True, rp_stopping := False\<rparr>))"

section \<open>Borrowing and returning\<close>

datatype redis_borrower =
  RBorrowing
  | RCreating
  | RSleeping
  | RWoken bool
  | RFailed RedisError string
  | RUsing redis_object bool

definition Borrow_top :: "RedisConfig \<Rightarrow> RedisPool \<Rightarrow> RedisPool \<times> redis_borrower" where
  "Borrow_top config p =
     (if \<not> rp_initialized p \<or> rp_stopping p
      then (p, RFailed kRedisConnectionUnavailable ''redis pool is unavailable'')
      else case rp_idle p of
        h # rest \<Rightarrow> (p\<lparr>rp_idle := rest\<rparr>, RUsing h True)
      | [] \<Rightarrow>
          if rp_total p < pool_size config then (p\<lparr>rp_total := rp_total p + 1\<rparr>, RCreating)
          else (p\<lparr>rp_stats := rst_waiting_update (\<lambda>n. n + 1) (rp_stats p)\<rparr>, RSleeping))"

definition Borrow_created ::
  "RedisCommandResult + redis_object \<Rightarrow> RedisPool \<Rightarrow> RedisPool \<times> notification list \<times> redis_borrower" where
  "Borrow_created created p =
     (case created of
        Inl error \<Rightarrow> (p\<lparr>rp_total := rp_total p - 1\<rparr>, [notify_one], RFailed (rcr_error error) (rcr_message error))
      | Inr h \<Rightarrow> (p, [], RUsing h True))"

definition ready :: "RedisConfig \<Rightarrow> RedisPool \<Rightarrow> bool" where
  "ready config p \<longleftrightarrow> rp_stopping p \<or> rp_idle p \<noteq> [] \<or> rp_total p < pool_size config"

definition Borrow_woken :: "RedisConfig \<Rightarrow> bool \<Rightarrow> RedisPool \<Rightarrow> RedisPool \<times> redis_borrower" where
  "Borrow_woken config timed_out p =
     (if \<not> ready config p \<and> \<not> timed_out then (p, RSleeping)
      else let p1 = p\<lparr>rp_stats := rst_waiting_update (\<lambda>n. n - 1) (rp_stats p)\<rparr>
           in if \<not> ready config p
              then (p1\<lparr>rp_stats := rst_timeouts_update (\<lambda>n. n + 1) (rp_stats p1)\<rparr>,
                    RFailed kTimeout ''borrow redis connection timeout'')
              else Borrow_top config p1)"

definition Return :: "redis_object \<Rightarrow> bool \<Rightarrow> bool \<Rightarrow> RedisPool \<Rightarrow> RedisPool \<times> notification list" where
  "Return h reusable connected p =
     (if \<not> rp_stopping p \<and> rp_initialized p \<and> reusable \<and> connected
      then (p\<lparr>rp_idle := rp_idle p @ [h]\<rparr>, [notify_one])
      else ((if rp_total p > 0 then p\<lparr>rp_total := rp_total p - 1\<rparr> else p)
              \<lparr>rp_stats := rst_invalidated_update (\<lambda>n. n + 1) (rp_stats p)\<rparr>, [notify_one]))"

definition Stop :: "RedisPool \<Rightarrow> RedisPool \<times> notification list" where
  "Stop p = (p\<lparr>rp_stopping := True, rp_initialized := False, rp_idle := [], rp_total := 0\<rparr>, [notify_all])"

text \<open>\<^verbatim>\<open>RedisClient::Command\<close> marks the connection bad after these errors.\<close>

definition marks_bad :: "RedisCommandResult \<Rightarrow> bool" where
  "marks_bad result \<longleftrightarrow> rcr_error result = kRedisConnectionUnavailable \<or> rcr_error result = kTimeout"

section \<open>Threads\<close>

fun redis_wake :: "redis_borrower \<Rightarrow> redis_borrower" where
  "redis_wake RSleeping = RWoken False"
| "redis_wake b = b"

fun redis_asleep :: "redis_borrower \<Rightarrow> bool" where
  "redis_asleep RSleeping = True"
| "redis_asleep _ = False"

fun redis_woken :: "redis_borrower \<Rightarrow> bool" where
  "redis_woken (RWoken timed_out) = True"
| "redis_woken _ = False"

fun redis_owns :: "redis_borrower \<Rightarrow> bool" where
  "redis_owns RCreating = True"
| "redis_owns (RUsing h reusable) = True"
| "redis_owns _ = False"

fun redis_objects :: "redis_borrower \<Rightarrow> redis_object multiset" where
  "redis_objects (RUsing h reusable) = {#h#}"
| "redis_objects _ = {#}"

interpretation redis_cv: condition_variable redis_asleep redis_woken redis_owns redis_objects redis_wake
proof
  show "redis_owns (redis_wake b) = redis_owns b" "redis_objects (redis_wake b) = redis_objects b"
    "\<not> redis_asleep (redis_wake b)" "redis_woken (redis_wake b) \<longleftrightarrow> redis_asleep b \<or> redis_woken b"
    "redis_asleep b \<Longrightarrow> \<not> redis_woken b" for b
    by (cases b; simp)+
qed

abbreviation redis_notified ::
  "notification list \<Rightarrow> redis_borrower multiset \<Rightarrow> redis_borrower multiset \<Rightarrow> bool" where
  "redis_notified \<equiv> notified redis_asleep redis_wake"

definition redis_all :: "RedisPool \<Rightarrow> redis_borrower multiset \<Rightarrow> redis_object multiset" where
  "redis_all p ts = mset (rp_idle p) + (\<Sum>b\<in>#ts. redis_objects b)"

inductive redis_pool_step ::
  "RedisConfig \<Rightarrow> RedisPool \<times> redis_borrower multiset \<Rightarrow> RedisPool \<times> redis_borrower multiset \<Rightarrow> bool" for config where
  call: "redis_pool_step config (p, ts) (p, add_mset RBorrowing ts)"
| top: "Borrow_top config p = (p', b) \<Longrightarrow> redis_pool_step config (p, add_mset RBorrowing ts) (p', add_mset b ts)"
| created: "CreateConnected config answer = res \<Longrightarrow> (\<forall>h. res = Inr h \<longrightarrow> h \<notin># redis_all p ts) \<Longrightarrow>
    Borrow_created res p = (p', ns, b) \<Longrightarrow> redis_notified ns ts ts' \<Longrightarrow>
    redis_pool_step config (p, add_mset RCreating ts) (p', add_mset b ts')"
| wakes: "redis_pool_step config (p, add_mset RSleeping ts) (p, add_mset (RWoken timed_out) ts)"
| woken: "Borrow_woken config timed_out p = (p', b) \<Longrightarrow>
    redis_pool_step config (p, add_mset (RWoken timed_out) ts) (p', add_mset b ts)"
| gives_up: "redis_pool_step config (p, add_mset (RFailed err text) ts) (p, ts)"
| executes: "Execute connected (args :: string list) outcome = result \<Longrightarrow>
    redis_pool_step config (p, add_mset (RUsing h reusable) ts) (p, add_mset (RUsing h (reusable \<and> \<not> marks_bad result)) ts)"
| returns: "Return h reusable connected p = (p', ns) \<Longrightarrow> redis_notified ns ts ts' \<Longrightarrow>
    redis_pool_step config (p, add_mset (RUsing h reusable) ts) (p', ts')"
| stops: "Stop p = (p', ns) \<Longrightarrow> redis_notified ns ts ts' \<Longrightarrow> redis_pool_step config (p, ts) (p', ts')"

section \<open>Invariant\<close>

text \<open>While the pool runs; once stopped it only stays empty and without sleeping threads.\<close>

definition redis_in_pool :: "RedisPool \<Rightarrow> redis_borrower multiset \<Rightarrow> nat" where
  "redis_in_pool p ts = length (rp_idle p) + number redis_owns ts"

definition redis_inv :: "RedisConfig \<Rightarrow> RedisPool \<times> redis_borrower multiset \<Rightarrow> bool" where
  "redis_inv config = (\<lambda>(p, ts).
     rst_waiting (rp_stats p) = of_nat (number redis_asleep ts + number redis_woken ts) \<and>
     exclusive (redis_all p ts) \<and>
     (if rp_stopping p then \<not> rp_initialized p \<and> rp_idle p = [] \<and> number redis_asleep ts = 0
      else rp_initialized p \<and> rp_total p = of_nat (redis_in_pool p ts) \<and>
        redis_in_pool p ts \<le> rc_pool_size config \<and>
        (0 < number redis_asleep ts \<longrightarrow> rc_pool_size config - number redis_owns ts \<le> number redis_woken ts)))"


lemmas redis_counts = redis_in_pool_def redis_all_def

lemma redis_room:
  assumes "redis_inv config (p, ts)" "\<not> rp_stopping p" "rc_pool_size config < 2 ^ 64"
  shows "rp_total p < pool_size config \<longleftrightarrow> redis_in_pool p ts < rc_pool_size config"
    "unat (rp_total p) = redis_in_pool p ts"
proof -
  have "rp_total p = of_nat (redis_in_pool p ts)" "redis_in_pool p ts \<le> rc_pool_size config"
    using assms(1,2) by (auto simp: redis_inv_def)
  then show "rp_total p < pool_size config \<longleftrightarrow> redis_in_pool p ts < rc_pool_size config"
    "unat (rp_total p) = redis_in_pool p ts"
    using assms(3) by (simp_all add: word_less_nat_alt unat_of_nat take_bit_nat_eq_self)
qed

lemma Borrow_top_inv:
  assumes "redis_inv config (p, add_mset RBorrowing ts)" "rc_pool_size config < 2 ^ 64"
    and "Borrow_top config p = (p', b)"
  shows "redis_inv config (p', add_mset b ts)"
proof (cases "rp_stopping p")
  case True
  then show ?thesis
    using assms(1,3) by (auto simp: Borrow_top_def redis_inv_def redis_all_def)
next
  case False
  then show ?thesis
    using assms(1,3) redis_room [OF assms(1) False assms(2)]
    by (auto simp: Borrow_top_def redis_inv_def redis_counts split: list.splits if_splits)
qed

lemma Borrow_created_inv:
  assumes "redis_inv config (p, add_mset RCreating ts)"
    and "\<forall>h. res = Inr h \<longrightarrow> h \<notin># redis_all p ts" "Borrow_created res p = (p', ns, b)" "redis_notified ns ts ts'"
  shows "redis_inv config (p', add_mset b ts')"
proof (cases res)
  case (Inl error)
  then have p': "p' = p\<lparr>rp_total := rp_total p - 1\<rparr>" "ns = [notify_one]" "b = RFailed (rcr_error error) (rcr_message error)"
    using assms(3) by (auto simp: Borrow_created_def)
  note keeps = redis_cv.notified_keeps [OF assms(4)]
  have "0 < number redis_asleep ts' \<Longrightarrow> number redis_woken ts' = Suc (number redis_woken ts) \<and> 0 < number redis_asleep ts"
    using keeps(3,4) by (auto simp: p'(2))
  moreover have "number redis_asleep ts' \<le> number redis_asleep ts"
    using keeps(4) by simp
  moreover have "rst_waiting (rp_stats p) = of_nat (number redis_asleep ts' + number redis_woken ts')"
    using assms(1) unfolding keeps(3) by (simp add: redis_inv_def)
  moreover have "redis_all p' ts' = redis_all p (add_mset RCreating ts)"
    using keeps(2) by (simp add: p'(1) redis_all_def)
  ultimately show ?thesis
    using assms(1) keeps(1) unfolding p'
    by (cases "rp_stopping p") (auto simp: redis_inv_def redis_counts)
next
  case (Inr h)
  then have "exclusive (add_mset h (redis_all p ts))"
    using assms(1,2) by (auto simp: redis_inv_def redis_all_def intro: exclusive_add)
  then show ?thesis
    using assms(1,3,4) Inr notified_nothing
    by (fastforce simp: Borrow_created_def redis_inv_def redis_counts)
qed

lemma Borrow_woken_inv:
  assumes "redis_inv config (p, add_mset (RWoken timed_out) ts)" "rc_pool_size config < 2 ^ 64"
    and "Borrow_woken config timed_out p = (p', b)"
  shows "redis_inv config (p', add_mset b ts)"
proof (cases "rp_stopping p")
  case True
  then show ?thesis
    using assms(1,3) by (auto simp: Borrow_woken_def Borrow_top_def ready_def redis_inv_def redis_all_def Let_def)
next
  case False
  then show ?thesis
    using assms(1,3) redis_room [OF assms(1) False assms(2)]
    by (auto simp: Borrow_woken_def Borrow_top_def ready_def redis_inv_def redis_counts Let_def
        split: list.splits if_splits)
qed

lemma Return_inv:
  assumes "redis_inv config (p, add_mset (RUsing h reusable) ts)" "rc_pool_size config < 2 ^ 64"
    and "Return h reusable connected p = (p', ns)" "redis_notified ns ts ts'"
  shows "redis_inv config (p', ts')"
proof -
  have ns: "ns = [notify_one]"
    using assms(3) by (auto simp: Return_def split: if_splits)
  note keeps = redis_cv.notified_keeps [OF assms(4)]
  have sleep: "0 < number redis_asleep ts' \<Longrightarrow> number redis_woken ts' = Suc (number redis_woken ts) \<and> 0 < number redis_asleep ts"
    "number redis_asleep ts' \<le> number redis_asleep ts"
    using keeps(3,4) by (auto simp: ns)
  have waiting: "rst_waiting (rp_stats p') = of_nat (number redis_asleep ts' + number redis_woken ts')"
    using assms(1,3) unfolding keeps(3) by (auto simp: redis_inv_def Return_def split: if_splits)
  have "redis_all p' ts \<subseteq># redis_all p (add_mset (RUsing h reusable) ts)"
    using assms(3) by (auto simp: Return_def redis_all_def split: if_splits)
  then have objs: "exclusive (redis_all p' ts')"
    using assms(1) keeps(2) exclusive_mono by (force simp: redis_inv_def redis_all_def)
  show ?thesis
  proof (cases "rp_stopping p")
    case True
    then show ?thesis
      using assms(1,3) waiting objs sleep(2) by (auto simp: Return_def redis_inv_def split: if_splits)
  next
    case False
    have "rp_total p > 0"
      using redis_room(2) [OF assms(1) False assms(2)] by (simp add: redis_in_pool_def word_less_nat_alt)
    then have "rp_stopping p' = rp_stopping p" "rp_initialized p'" "rp_total p' = of_nat (redis_in_pool p' ts')"
      "redis_in_pool p' ts' \<le> rc_pool_size config"
      using assms(1,3) False keeps(1) by (auto simp: Return_def redis_inv_def redis_in_pool_def split: if_splits)
    then show ?thesis
      using assms(1) False waiting objs sleep keeps(1) by (simp add: redis_inv_def) arith
  qed
qed

lemma Stop_inv:
  assumes "redis_inv config (p, ts)" "Stop p = (p', ns)" "redis_notified ns ts ts'"
  shows "redis_inv config (p', ts')"
proof -
  have p': "p' = p\<lparr>rp_stopping := True, rp_initialized := False, rp_idle := [], rp_total := 0\<rparr>" "ns = [notify_all]"
    using assms(2) by (auto simp: Stop_def)
  note keeps = redis_cv.notified_keeps [OF assms(3)]
  have "redis_all p' ts \<subseteq># redis_all p ts"
    by (simp add: p'(1) redis_all_def)
  then have "exclusive (redis_all p' ts')"
    using assms(1) keeps(2) exclusive_mono by (force simp: redis_inv_def redis_all_def)
  moreover have "rst_waiting (rp_stats p) = of_nat (number redis_asleep ts' + number redis_woken ts')"
    using assms(1) unfolding keeps(3) by (simp add: redis_inv_def)
  ultimately show ?thesis
    using redis_cv.notified_all [OF assms(3) [unfolded p'(2)]] by (simp add: redis_inv_def p'(1))
qed

lemma redis_pool_step_inv:
  "redis_pool_step config s s' \<Longrightarrow> rc_pool_size config < 2 ^ 64 \<Longrightarrow> redis_inv config s \<Longrightarrow> redis_inv config s'"
proof (induction rule: redis_pool_step.induct)
  case (top p p' b ts)
  then show ?case
    by (blast intro: Borrow_top_inv)
next
  case (created answer res p ts p' ns b ts')
  then show ?case
    by (blast intro: Borrow_created_inv)
next
  case (woken timed_out p p' b ts)
  then show ?case
    by (blast intro: Borrow_woken_inv)
next
  case (returns h reusable connected p p' ns ts ts')
  then show ?case
    by (blast intro: Return_inv)
next
  case (stops p p' ns ts ts')
  then show ?case
    by (blast intro: Stop_inv)
qed (auto simp: redis_inv_def redis_counts)


subsection \<open>Initialisation\<close>

lemma create_all_length: "create_all config n answers acc = Inr created \<Longrightarrow> length created \<le> length acc + n"
  by (induction config n answers acc rule: create_all.induct) (auto split: sum.splits)

text \<open>The objects come from one allocation each.\<close>

definition fresh_redis_pool :: "RedisConfig \<Rightarrow> RedisPool \<Rightarrow> bool" where
  "fresh_redis_pool config p \<longleftrightarrow>
     (\<exists>answers res. Init config answers RedisPool_new = (res, p) \<and> ri_success res \<and> distinct (rp_idle p))"

lemma fresh_redis_pool_inv:
  assumes "fresh_redis_pool config p"
  shows "redis_inv config (p, {#})"
proof -
  obtain answers created where created: "create_all config (rc_pool_size config) answers [] = Inr created"
    "p = RedisPool_new\<lparr>rp_idle := created, rp_total := of_nat (length created), rp_initialized := True,
      rp_stopping := False\<rparr>" "distinct created"
  proof -
    obtain answers res where init: "Init config answers RedisPool_new = (res, p)" "ri_success res" "distinct (rp_idle p)"
      using assms by (auto simp: fresh_redis_pool_def)
    then show ?thesis
      using that by (cases "create_all config (rc_pool_size config) answers []") (auto simp: Init_def RedisPool_new_def)
  qed
  then show ?thesis
    using create_all_length [OF created(1)] exclusive_mset [OF created(3)]
    by (simp add: redis_inv_def redis_counts RedisPool_new_def)
qed

abbreviation redis_run ::
  "RedisConfig \<Rightarrow> RedisPool \<times> redis_borrower multiset \<Rightarrow> RedisPool \<times> redis_borrower multiset \<Rightarrow> bool" where
  "redis_run config \<equiv> (redis_pool_step config)\<^sup>*\<^sup>*"

lemma redis_run_inv:
  "redis_run config s s' \<Longrightarrow> rc_pool_size config < 2 ^ 64 \<Longrightarrow> redis_inv config s \<Longrightarrow> redis_inv config s'"
  by (induction rule: rtranclp_induct) (auto intro: redis_pool_step_inv)

section \<open>Properties\<close>

text \<open>C26. However threads borrow and return Redis connections: no two hold the same connection, and until
  the pool is stopped it counts exactly the connections that are idle, being made or in use, at most
  \<^verbatim>\<open>pool_size\<close>. A thread that sleeps in \<^verbatim>\<open>Borrow\<close> while nobody is being woken sleeps only because all
  \<^verbatim>\<open>pool_size\<close> connections are with other threads, and after \<^verbatim>\<open>Stop\<close> nobody stays asleep.\<close>

theorem redis_pool_exact:
  assumes "fresh_redis_pool config p0" "redis_run config (p0, {#}) (p, ts)" "rc_pool_size config < 2 ^ 64"
  shows "(\<forall>h. count (redis_all p ts) h \<le> 1) \<and>
    (if rp_stopping p then number redis_asleep ts = 0
     else unat (rp_total p) = length (rp_idle p) + number redis_owns ts \<and>
       unat (rp_total p) \<le> rc_pool_size config \<and>
       (0 < number redis_asleep ts \<and> number redis_woken ts = 0 \<longrightarrow>
          rp_idle p = [] \<and> number redis_owns ts = rc_pool_size config))"
proof -
  have inv: "redis_inv config (p, ts)"
    by (rule redis_run_inv [OF assms(2,3) fresh_redis_pool_inv [OF assms(1)]])
  then have objs: "exclusive (redis_all p ts)" and stopped: "rp_stopping p \<Longrightarrow> number redis_asleep ts = 0"
    by (auto simp: redis_inv_def)
  have "unat (rp_total p) = redis_in_pool p ts" "redis_in_pool p ts \<le> rc_pool_size config"
    "0 < number redis_asleep ts \<Longrightarrow> rc_pool_size config - number redis_owns ts \<le> number redis_woken ts"
    if "\<not> rp_stopping p"
    using redis_room(2) [OF inv that assms(3)] inv that by (auto simp: redis_inv_def)
  then show ?thesis
    using objs stopped by (auto simp: exclusive_def redis_in_pool_def simp flip: length_0_conv)
qed

subsection \<open>Stopping while a connection is being made\<close>

definition sample_answer :: "redis_object \<Rightarrow> factory_answer" where
  "sample_answer h =
     Created h \<lparr>co_context = Some None, co_timed_out = False, co_auth = Inr REDIS_REPLY_NIL,
       co_select = Inr REDIS_REPLY_NIL\<rparr>"

definition one_redis :: RedisConfig where
  "one_redis = default_RedisConfig\<lparr>rc_pool_size := 1\<rparr>"

definition small_redis :: RedisPool where
  "small_redis = snd (Init one_redis [sample_answer 7] RedisPool_new)"

lemma small_redis_init:
  "Init one_redis [sample_answer 7] RedisPool_new =
     (\<lparr>ri_success = True, ri_error = kRedisNone, ri_message = ''init success''\<rparr>,
      RedisPool_new\<lparr>rp_idle := [7], rp_total := 1, rp_initialized := True\<rparr>)"
proof -
  have "CreateConnected one_redis (sample_answer 7) = Inr 7"
    by (simp add: CreateConnected_def sample_answer_def Connect_def select_database_def connect_success_def
        ValidateRedisConfig_def one_redis_def default_RedisConfig_def Let_def)
  moreover have "rc_pool_size one_redis = Suc 0"
    by (simp add: one_redis_def)
  ultimately show ?thesis
    by (simp add: Init_def RedisPool_new_def)
qed

lemma small_redis_fresh: "fresh_redis_pool one_redis small_redis"
  using small_redis_init by (fastforce simp: fresh_redis_pool_def small_redis_def)

lemma small_redis_facts:
  "rp_idle small_redis = [7]" "rp_total small_redis = 1" "rp_initialized small_redis" "\<not> rp_stopping small_redis"
  "rst_waiting (rp_stats small_redis) = 0" "rc_pool_size one_redis = 1"
  unfolding small_redis_def small_redis_init by (simp_all add: RedisPool_new_def one_redis_def)

lemma small_redis_run:
  "redis_run one_redis (small_redis, {#}) (small_redis\<lparr>rp_idle := []\<rparr>, {#RUsing 7 True#})"
proof -
  have "redis_pool_step one_redis (small_redis, {#}) (small_redis, {#RBorrowing#})"
    by (rule redis_pool_step.call)
  moreover have "redis_pool_step one_redis (small_redis, {#RBorrowing#}) (small_redis\<lparr>rp_idle := []\<rparr>, {#RUsing 7 True#})"
    by (rule redis_pool_step.top) (simp add: Borrow_top_def small_redis_facts)
  ultimately show ?thesis
    by (meson converse_rtranclp_into_rtranclp rtranclp.rtrancl_refl)
qed

theorem redis_pool_exact_witness:
  "redis_run one_redis (small_redis, {#}) (small_redis\<lparr>rp_idle := []\<rparr>, {#RUsing 7 True#}) \<and>
   unat (rp_total (small_redis\<lparr>rp_idle := []\<rparr>)) = 1"
  using redis_pool_exact [OF small_redis_fresh small_redis_run] small_redis_run by (simp add: small_redis_facts)

text \<open>C27. \<^verbatim>\<open>Borrow\<close> does not look at \<^verbatim>\<open>stopping_\<close> when its attempt to connect comes back: a pool stopped in
  between, which has set its counter to zero, counts down to the largest number of 64 bits when the
  attempt fails, and hands out a new connection when it succeeds.\<close>

theorem redis_stop_during_connect:
  "\<exists>p_failed p_lent. redis_run one_redis (small_redis, {#}) (p_failed, {#RFailed kRedisConnectionUnavailable ''redis connection factory returned null''#}) \<and>
     rp_stopping p_failed \<and> rp_total p_failed = - 1 \<and>
     redis_run one_redis (small_redis, {#}) (p_lent, {#RUsing 8 True#}) \<and> rp_stopping p_lent"
proof -
  let ?p0 = "small_redis\<lparr>rp_idle := []\<rparr>"
  let ?p1 = "?p0\<lparr>rp_total := 0, rp_stats := rst_invalidated_update (\<lambda>n. n + 1) (rp_stats small_redis)\<rparr>"
  let ?p2 = "?p1\<lparr>rp_total := 1\<rparr>"
  let ?p3 = "?p1\<lparr>rp_stopping := True, rp_initialized := False\<rparr>"
  have "redis_notified [notify_all] {#RCreating#} {#RCreating#}"
    by (rule notified.everyone) (simp add: notified.none)
  moreover have "redis_pool_step one_redis (?p0, {#RUsing 7 True#}) (?p1, {#})"
    by (rule redis_pool_step.returns [of _ _ False _ _ "[notify_one]"])
      (auto simp: Return_def small_redis_facts intro: notified.intros)
  moreover have "redis_pool_step one_redis (?p1, {#}) (?p1, {#RBorrowing#})"
    by (rule redis_pool_step.call)
  moreover have "redis_pool_step one_redis (?p1, {#RBorrowing#}) (?p2, {#RCreating#})"
    by (rule redis_pool_step.top) (simp add: Borrow_top_def small_redis_facts)
  moreover have "redis_pool_step one_redis (?p2, {#RCreating#}) (?p3, {#RCreating#})"
    by (rule redis_pool_step.stops [of _ _ "[notify_all]"])
      (simp_all add: Stop_def calculation(1))
  ultimately have stopped: "redis_run one_redis (small_redis, {#}) (?p3, {#RCreating#})"
    using small_redis_run by (meson rtranclp.rtrancl_into_rtrancl)
  have "redis_pool_step one_redis (?p3, {#RCreating#})
      (?p3\<lparr>rp_total := - 1\<rparr>, {#RFailed kRedisConnectionUnavailable ''redis connection factory returned null''#})"
    by (rule redis_pool_step.created [of _ FactoryNull _ _ _ _ "[notify_one]"])
      (auto simp: CreateConnected_def Borrow_created_def MakeRedisError_def intro: notified.intros)
  moreover have "redis_pool_step one_redis (?p3, {#RCreating#}) (?p3, {#RUsing 8 True#})"
    by (rule redis_pool_step.created [of _ "sample_answer 8" "Inr 8" _ _ _ "[]"])
      (auto simp: CreateConnected_def sample_answer_def Connect_def select_database_def connect_success_def
        ValidateRedisConfig_def one_redis_def default_RedisConfig_def Let_def Borrow_created_def redis_all_def
        intro: notified.intros)
  ultimately show ?thesis
    using stopped by (intro exI [of _ "?p3\<lparr>rp_total := - 1\<rparr>"] exI [of _ ?p3])
      (auto intro: rtranclp.rtrancl_into_rtrancl)
qed

end
