(* ===== verification/DbSchedule.thy ===== *)
theory DbSchedule
  imports MessageRepository UserRepository FriendRepository GroupRepository
begin

text \<open>
  The schedule of the database: every operation of the repositories uses up events and adds none. When
  statements fail by losing the connection only, a rollback that fails marks the connection bad, and
  creating a group never leaves a transaction open.
\<close>

definition uses_up :: "Db \<Rightarrow> Db \<Rightarrow> bool" where
  "uses_up db db' \<longleftrightarrow> set (db_events db') \<subseteq> set (db_events db)"

definition losses_only :: "Db \<Rightarrow> bool" where
  "losses_only db \<longleftrightarrow> (\<forall>e\<in>set (db_events db). se_errno e \<noteq> 0 \<longrightarrow> IsConnectionError (se_errno e))"

lemma losses_only_uses_up: "losses_only db \<Longrightarrow> uses_up db db' \<Longrightarrow> losses_only db'"
  by (auto simp: losses_only_def uses_up_def)

interpretation schedule: preorder_guarantee "\<lambda>_. True" uses_up
  by unfold_locales (auto simp: uses_up_def)

abbreviation consuming :: "(Db, 'a) state \<Rightarrow> bool" where
  "consuming \<equiv> assured (\<lambda>_. True) uses_up"

section \<open>Statements\<close>

lemma consuming_primitives:
  "consuming next_event" "consuming (apply_stmt stmt)" "consuming markBad" "consuming discard"
  "consuming borrow_connection" "consuming (modify (db_snapshot_update f))"
  "consuming (modify (\<lambda>db. db\<lparr>db_snapshot := g db\<rparr>))" "consuming (modify (db_last_insert_id_update k))"
  by (auto simp: assured_def wp_def uses_up_def next_event_def apply_stmt_def markBad_def discard_def
      borrow_connection_def reconnect_def split: list.split sum.split)

lemma consuming_sql:
  "consuming (run_sql stmt)" "consuming (StatementFailure err fallback)" "consuming (ExecuteUpdate stmt2 fallback)"
  "consuming Begin" "consuming Commit" "consuming Rollback" "consuming group_Rollback"
  unfolding run_sql_def StatementFailure_def ExecuteUpdate_def Begin_def Commit_def Rollback_def group_Rollback_def
  by (intro schedule.assured_rules consuming_primitives)+

lemmas consuming_rules = schedule.assured_rules consuming_primitives consuming_sql

section \<open>Repositories\<close>

lemma consuming_status:
  "consuming m \<Longrightarrow> consuming n \<Longrightarrow> consuming (case st of kOk \<Rightarrow> m | _ \<Rightarrow> n)"
  by (cases st) simp_all

lemma consuming_message_parts:
  "consuming (ReadMessageByClientId u c)" "consuming SelectLastInsertId" "consuming (rollback_with x)"
  unfolding ReadMessageByClientId_def SelectLastInsertId_def rollback_with_def
  by (intro consuming_rules)+

lemma consuming_upsert_members: "consuming (upsert_members conv us)"
  by (induction us) (simp_all only: upsert_members.simps, (intro consuming_rules consuming_message_parts; assumption)+)

lemma consuming_messages:
  "consuming (createMessage m)" "consuming (findMessageByClientMsgId u c)"
  "consuming (listOfflineMessages u l c)" "consuming (markDelivered now u ids)" "consuming (markRead now u ids)"
  unfolding createMessage_def createMessage_transaction_def createMessage_sequence_def createMessage_store_def
    insert_refused_def findMessageByClientMsgId_def listOfflineMessages_def markDelivered_def markRead_def mark_messages_def Let_def prod.case
  by (intro consuming_rules consuming_message_parts consuming_upsert_members consuming_status)+

lemma consuming_users:
  "consuming (findByUsername n)" "consuming (findById u)" "consuming (createUser n h k)" "consuming (updatePasswordHash u h)"
  unfolding findByUsername_def findById_def createUser_def updatePasswordHash_def ReadUser_def Let_def
  by (intro consuming_rules)+

lemma consuming_friends:
  "consuming (findFriendship a b)" "consuming (createFriendRequest a b)" "consuming (acceptFriendRequest a b)"
  "consuming (deleteFriendship a b)" "consuming (listFriendships a)"
  unfolding findFriendship_def createFriendRequest_def acceptFriendRequest_def deleteFriendship_def listFriendships_def
    ReadFriendship_def Let_def
  by (intro consuming_rules)+

lemma consuming_insert_members: "consuming (insert_members ms)"
  by (induction ms) (simp_all only: insert_members.simps, (intro consuming_rules; assumption)+)

lemma consuming_groups:
  "consuming (createGroup g ms)" "consuming (findGroup gid)" "consuming (addMember m)" "consuming (listMembers gid)"
  unfolding createGroup_def createGroup_members_def findGroup_def addMember_def listMembers_def ReadGroup_def Let_def
  by (intro consuming_rules consuming_insert_members)+

section \<open>A group is never left half created\<close>

lemma losses_kept:
  assumes "consuming m" "losses_only db"
  shows "wp m (\<lambda>_. losses_only) db"
  using assms by (auto simp: assured_def wp_def intro: losses_only_uses_up split: prod.splits)

lemma group_Rollback_idle:
  assumes "losses_only db"
  shows "wp group_Rollback (\<lambda>_. idle) db"
  using assms
  by (cases "db_events db"; cases "db_snapshot db")
    (auto simp: wp_def group_Rollback_def next_event_def quiet_event_def losses_only_def markBad_def discard_def idle_def)

lemma losses_then:
  assumes "consuming m" "losses_only db" "\<And>a db'. losses_only db' \<Longrightarrow> wp (f a) Q db'"
  shows "wp (m \<bind> f) Q db"
  by (intro wp_bind wp_mono [OF losses_kept [OF assms(1,2)]] assms(3))

lemma rollback_then_idle:
  assumes "losses_only db"
  shows "wp (group_Rollback \<bind> (\<lambda>_. ret x)) (\<lambda>_. idle) db"
  by (intro wp_bind wp_mono [OF group_Rollback_idle [OF assms]] wp_ret)

lemma insert_members_idle:
  assumes "losses_only db"
  shows "wp (insert_members ms) (\<lambda>failed db'. losses_only db' \<and> (failed \<noteq> None \<longrightarrow> idle db')) db"
  using assms
proof (induction ms arbitrary: db)
  case (Cons m ms)
  have "wp (group_Rollback \<bind> (\<lambda>_. ret (Some st))) (\<lambda>failed db'. losses_only db' \<and> (failed \<noteq> None \<longrightarrow> idle db')) db1"
    if "losses_only db1" for st db1
    by (intro wp_bind wp_ret wp_mono [OF wp_conj [OF losses_kept [OF consuming_sql(7) that] group_Rollback_idle [OF that]]]) simp
  then show ?case
    unfolding insert_members.simps
    by (intro losses_then [OF consuming_sql(3) Cons.prems] wp_case_sum wp_case_prod Cons.IH)
qed (auto intro: wp_ret)

lemma Commit_idle: "wp Commit (\<lambda>c db'. c \<longrightarrow> idle db') db"
  by (cases "db_events db")
    (auto simp: wp_def Commit_def next_event_def quiet_event_def idle_def markBad_def discard_def split: prod.splits)

lemma createGroup_members_idle:
  assumes "losses_only db"
  shows "wp (createGroup_members grp ms) (\<lambda>_. idle) db"
proof -
  have commit: "wp (Commit \<bind> (\<lambda>c. if \<not> c then group_Rollback \<bind> (\<lambda>_. ret x) else ret y)) (\<lambda>_. idle) db'"
    if "losses_only db'" for db' and x y :: GroupRepositoryCreateResult
    by (intro wp_bind, rule wp_mono [OF wp_conj [OF Commit_idle losses_kept [OF consuming_sql(5) that]]])
      (auto intro!: rollback_then_idle wp_ret)
  show ?thesis
    unfolding createGroup_members_def
    by (intro wp_bind, rule wp_mono [OF insert_members_idle [OF assms]])
      (auto intro!: commit wp_ret split: option.splits)
qed

lemma createGroup_idle:
  assumes "losses_only db" "idle db"
  shows "wp (createGroup grp ms) (\<lambda>_. idle) db"
proof -
  have borrowed: "wp borrow_connection (\<lambda>_ db'. losses_only db' \<and> db_snapshot db' = None) db"
    using losses_kept [OF consuming_primitives(5) assms(1)] assms(2)
    by (auto simp: wp_def idle_def borrow_connection_def reconnect_def split: prod.splits list.splits option.splits)
  have started: "wp Begin (\<lambda>b db'. losses_only db' \<and> (\<not> b \<longrightarrow> idle db')) db1"
    if "losses_only db1 \<and> db_snapshot db1 = None" for db1
    using losses_kept [OF consuming_sql(4), of db1] that
    by (cases "db_events db1")
      (auto simp: wp_def Begin_def next_event_def quiet_event_def idle_def markBad_def StatementFailure_def split: prod.splits if_splits)
  have filled: "wp (ExecuteUpdate (insert_group_conversation c) kInsertFailed \<bind> (\<lambda>r. case r of
         Inl (status, err) \<Rightarrow> group_Rollback \<bind> (\<lambda>_. ret (group_failure (duplicate_or status err)))
       | Inr _ \<Rightarrow> ExecuteUpdate (insert_group grp) kInsertFailed \<bind> (\<lambda>r2. case r2 of
           Inl (status, err) \<Rightarrow> group_Rollback \<bind> (\<lambda>_. ret (group_failure (duplicate_or status err)))
         | Inr _ \<Rightarrow> createGroup_members grp ms))) (\<lambda>_. idle) db1" if "losses_only db1" for db1 c
    by (intro losses_then [OF consuming_sql(3) that] losses_then [OF consuming_sql(3)] wp_case_sum wp_case_prod rollback_then_idle
        createGroup_members_idle)
  show ?thesis
    unfolding createGroup_def
    by (intro wp_bind, rule wp_mono [OF borrowed], intro wp_if wp_ret, (simp add: idle_def), intro wp_bind,
        rule wp_mono [OF started], assumption) (auto intro!: wp_ret filled)
qed

end
