(* ===== verification/JsonCodec.thy ===== *)
theory JsonCodec
  imports Models
begin

text \<open>
  The JSON codec, \<^verbatim>\<open>src/src/codec/json_codec.cc\<close>: the envelope of requests and responses, the extraction
  of every request structure from its \<^verbatim>\<open>data\<close> object and the construction of every response. The JSON
  library is a parameter: a type of values with the operations the codec calls.
\<close>

section \<open>The JSON library\<close>

text \<open>
  \<^verbatim>\<open>parse\<close> answers a value or the text of its exception, \<^verbatim>\<open>dump\<close> has no result when it throws. \<^verbatim>\<open>js_at\<close> is
  \<^verbatim>\<open>contains\<close> together with \<^verbatim>\<open>operator[]\<close>; the three readers answer for values of their type only, the
  second for integers. \<^verbatim>\<open>js_set\<close> assigns to a member of an object and makes an object of null.
\<close>

record 'j Json =
  js_parse :: "string \<Rightarrow> string + 'j"
  js_dump :: "'j \<Rightarrow> string option"
  js_at :: "'j \<Rightarrow> string \<Rightarrow> 'j option"
  js_string :: "'j \<Rightarrow> string option"
  js_integer :: "'j \<Rightarrow> int option"
  js_array :: "'j \<Rightarrow> 'j list option"
  js_is_object :: "'j \<Rightarrow> bool"
  js_is_null :: "'j \<Rightarrow> bool"
  js_null :: 'j
  js_object :: 'j
  js_of_string :: "string \<Rightarrow> 'j"
  js_of_integer :: "int \<Rightarrow> 'j"
  js_of_bool :: "bool \<Rightarrow> 'j"
  js_of_array :: "'j list \<Rightarrow> 'j"
  js_set :: "'j \<Rightarrow> string \<Rightarrow> 'j \<Rightarrow> 'j"

text \<open>\<^verbatim>\<open>get<T>()\<close> converts an integer with \<^verbatim>\<open>static_cast\<close>.\<close>

definition get_uint64 :: "int \<Rightarrow> int" where
  "get_uint64 i = i mod 2 ^ 64"

definition get_int64 :: "int \<Rightarrow> int" where
  "get_int64 i = (i + 2 ^ 63) mod 2 ^ 64 - 2 ^ 63"

definition get_int32 :: "int \<Rightarrow> int" where
  "get_int32 i = (i + 2 ^ 31) mod 2 ^ 32 - 2 ^ 31"

section \<open>Envelopes\<close>

record 'j Message =
  msg_type :: string
  msg_seq :: int
  msg_token :: token
  msg_data :: 'j

record 'j Response =
  rs_msg_type :: string
  rs_seq :: int
  rs_code :: ErrorCode
  rs_message :: string
  rs_data :: 'j

definition Message_default :: "'j Json \<Rightarrow> 'j Message" where
  "Message_default J = \<lparr>msg_type = [], msg_seq = 0, msg_token = [], msg_data = js_null J\<rparr>"

text \<open>Members of a value that are there and have the type.\<close>

definition string_field :: "'j Json \<Rightarrow> 'j \<Rightarrow> string \<Rightarrow> string option" where
  "string_field J v name = Option.bind (js_at J v name) (js_string J)"

definition integer_field :: "'j Json \<Rightarrow> 'j \<Rightarrow> string \<Rightarrow> int option" where
  "integer_field J v name = Option.bind (js_at J v name) (js_integer J)"

text \<open>The error comes with the message as far as it was filled.\<close>

definition decodeMessage :: "'j Json \<Rightarrow> string \<Rightarrow> (string \<times> 'j Message) + 'j Message" where
  "decodeMessage J raw =
     (case js_parse J raw of
        Inl what \<Rightarrow> Inl (''JSON parsing error: '' @ what, Message_default J)
      | Inr v \<Rightarrow>
          (case string_field J v ''msg_type'' of
             None \<Rightarrow> Inl (''Missing or invalid 'msg_type' field'', Message_default J)
           | Some mtype \<Rightarrow>
               (case integer_field J v ''seq'' of
                  None \<Rightarrow> Inl (''Missing or invalid 'seq' field'', Message_default J)
                | Some seq \<Rightarrow>
                    (case js_at J v ''data'' of
                       None \<Rightarrow> Inl (''Missing or invalid 'data' field'', Message_default J)
                     | Some data \<Rightarrow>
                         if \<not> js_is_object J data then Inl (''Missing or invalid 'data' field'', Message_default J)
                         else let msg = \<lparr>msg_type = mtype, msg_seq = get_uint64 seq, msg_token = [], msg_data = data\<rparr>
                              in case js_at J v ''token'' of
                                None \<Rightarrow> Inr msg
                              | Some t \<Rightarrow>
                                  (case js_string J t of
                                     None \<Rightarrow> Inl (''Missing or invalid 'token' field'', msg)
                                   | Some tok \<Rightarrow> Inr (msg\<lparr>msg_token := tok\<rparr>))))))"

definition response_value :: "'j Json \<Rightarrow> 'j Response \<Rightarrow> 'j" where
  "response_value J resp =
     js_set J (js_set J (js_set J (js_set J (js_set J (js_null J)
       ''msg_type'' (js_of_string J (rs_msg_type resp)))
       ''seq'' (js_of_integer J (rs_seq resp)))
       ''code'' (js_of_integer J (error_value (rs_code resp))))
       ''message'' (js_of_string J (rs_message resp)))
       ''data'' (if js_is_null J (rs_data resp) then js_object J else rs_data resp)"

definition encodeResponse :: "'j Json \<Rightarrow> 'j Response \<Rightarrow> string option" where
  "encodeResponse J resp = js_dump J (response_value J resp)"

section \<open>Requests\<close>

definition parseRegisterRequest :: "'j Json \<Rightarrow> 'j Message \<Rightarrow> string + RegisterRequest" where
  "parseRegisterRequest J msg =
     (case string_field J (msg_data msg) ''username'' of
        None \<Rightarrow> Inl ''Missing or invalid 'username' field in data''
      | Some username \<Rightarrow>
          (case string_field J (msg_data msg) ''password'' of
             None \<Rightarrow> Inl ''Missing or invalid 'password' field in data''
           | Some password \<Rightarrow>
               Inr \<lparr>rr_username = username, rr_password = password,
                    rr_nickname = (case string_field J (msg_data msg) ''nickname'' of None \<Rightarrow> [] | Some n \<Rightarrow> n)\<rparr>))"

definition parseLoginRequest :: "'j Json \<Rightarrow> 'j Message \<Rightarrow> string + LoginRequest" where
  "parseLoginRequest J msg =
     (case string_field J (msg_data msg) ''username'' of
        None \<Rightarrow> Inl ''Missing or invalid 'username' field in data''
      | Some username \<Rightarrow>
          (case string_field J (msg_data msg) ''password'' of
             None \<Rightarrow> Inl ''Missing or invalid 'password' field in data''
           | Some password \<Rightarrow> Inr \<lparr>lr_username = username, lr_password = password\<rparr>))"

text \<open>The other parsers tell a missing member from one of the wrong type.\<close>

definition quoted :: "string \<Rightarrow> string" where
  "quoted name = CHR 0x27 # name @ [CHR 0x27]"

definition need_field :: "'j Json \<Rightarrow> ('j \<Rightarrow> 'a option) \<Rightarrow> string \<Rightarrow> 'j \<Rightarrow> string \<Rightarrow> string + 'a" where
  "need_field J read expected v name =
     (case js_at J v name of
        None \<Rightarrow> Inl (''Missing '' @ quoted name @ '' field in data'')
      | Some x \<Rightarrow>
          (case read x of
             None \<Rightarrow> Inl (''Invalid '' @ quoted name @ '' field in data: must be '' @ expected)
           | Some a \<Rightarrow> Inr a))"

definition need_string :: "'j Json \<Rightarrow> 'j \<Rightarrow> string \<Rightarrow> string + string" where
  "need_string J = need_field J (js_string J) ''a string''"

definition need_integer :: "'j Json \<Rightarrow> 'j \<Rightarrow> string \<Rightarrow> string + int" where
  "need_integer J = need_field J (js_integer J) ''an integer''"

definition optional_string :: "'j Json \<Rightarrow> 'j \<Rightarrow> string \<Rightarrow> string + string" where
  "optional_string J v name = (case js_at J v name of None \<Rightarrow> Inr [] | Some x \<Rightarrow> need_string J v name)"

abbreviation bind_result :: "'e + 'a \<Rightarrow> ('a \<Rightarrow> 'e + 'b) \<Rightarrow> 'e + 'b" where
  "bind_result r f \<equiv> (case r of Inl e \<Rightarrow> Inl e | Inr a \<Rightarrow> f a)"

definition parseSendMessageRequest :: "'j Json \<Rightarrow> 'j Message \<Rightarrow> string + SendMessageRequest" where
  "parseSendMessageRequest J msg =
     bind_result (need_string J (msg_data msg) ''client_msg_id'') (\<lambda>client_msg_id.
     bind_result (need_integer J (msg_data msg) ''to_user_id'') (\<lambda>to_user_id.
     bind_result (need_string J (msg_data msg) ''content'') (\<lambda>content.
       Inr \<lparr>sm_client_msg_id = client_msg_id, sm_to_user_id = get_int64 to_user_id, sm_content = content\<rparr>)))"

definition parsePullOfflineMessagesRequest :: "'j Json \<Rightarrow> 'j Message \<Rightarrow> string + PullOfflineMessagesRequest" where
  "parsePullOfflineMessagesRequest J msg =
     bind_result (need_integer J (msg_data msg) ''limit'') (\<lambda>limit.
     bind_result (optional_string J (msg_data msg) ''before_message_id'') (\<lambda>before.
     bind_result (optional_string J (msg_data msg) ''since_message_id'') (\<lambda>since.
       Inr \<lparr>pr_limit = get_int32 limit, pr_before_message_id = before, pr_since_message_id = since\<rparr>)))"

fun read_strings :: "'j Json \<Rightarrow> 'j list \<Rightarrow> string list option" where
  "read_strings J [] = Some []"
| "read_strings J (v # vs) =
     (case js_string J v of None \<Rightarrow> None | Some s \<Rightarrow> map_option (Cons s) (read_strings J vs))"

fun read_integers :: "'j Json \<Rightarrow> 'j list \<Rightarrow> int list option" where
  "read_integers J [] = Some []"
| "read_integers J (v # vs) =
     (case js_integer J v of None \<Rightarrow> None | Some i \<Rightarrow> map_option (Cons (get_int64 i)) (read_integers J vs))"

definition ParseMessageIds :: "'j Json \<Rightarrow> 'j \<Rightarrow> string + string list" where
  "ParseMessageIds J data =
     bind_result
       (case js_at J data ''message_id'' of
          None \<Rightarrow> Inr []
        | Some v \<Rightarrow>
            (case js_string J v of
               None \<Rightarrow> Inl ''Invalid 'message_id' field in data: must be a string''
             | Some s \<Rightarrow> Inr [s])) (\<lambda>single.
     bind_result
       (case js_at J data ''message_ids'' of
          None \<Rightarrow> Inr []
        | Some v \<Rightarrow>
            (case js_array J v of
               None \<Rightarrow> Inl ''Invalid 'message_ids' field in data: must be an array''
             | Some items \<Rightarrow>
                 (case read_strings J items of
                    None \<Rightarrow> Inl ''Invalid 'message_ids' field in data: every item must be a string''
                  | Some ids \<Rightarrow> Inr ids))) (\<lambda>several.
     if single @ several = [] then Inl ''Missing 'message_id' or 'message_ids' field in data''
     else Inr (single @ several)))"

definition parseMessageAckRequest :: "'j Json \<Rightarrow> 'j Message \<Rightarrow> string + MessageAckRequest" where
  "parseMessageAckRequest J msg = bind_result (ParseMessageIds J (msg_data msg)) (\<lambda>ids. Inr \<lparr>ma_message_ids = ids\<rparr>)"

definition parseMarkMessageReadRequest :: "'j Json \<Rightarrow> 'j Message \<Rightarrow> string + MarkMessageReadRequest" where
  "parseMarkMessageReadRequest J msg = bind_result (ParseMessageIds J (msg_data msg)) (\<lambda>ids. Inr \<lparr>mr_message_ids = ids\<rparr>)"

definition parseAddFriendRequest :: "'j Json \<Rightarrow> 'j Message \<Rightarrow> string + AddFriendRequest" where
  "parseAddFriendRequest J msg =
     bind_result (need_integer J (msg_data msg) ''target_user_id'') (\<lambda>u. Inr \<lparr>af_target_user_id = get_int64 u\<rparr>)"

definition parseAcceptFriendRequest :: "'j Json \<Rightarrow> 'j Message \<Rightarrow> string + AcceptFriendRequest" where
  "parseAcceptFriendRequest J msg =
     bind_result (need_integer J (msg_data msg) ''requester_user_id'') (\<lambda>u. Inr \<lparr>acf_requester_user_id = get_int64 u\<rparr>)"

definition parseDeleteFriendRequest :: "'j Json \<Rightarrow> 'j Message \<Rightarrow> string + DeleteFriendRequest" where
  "parseDeleteFriendRequest J msg =
     bind_result (need_integer J (msg_data msg) ''friend_user_id'') (\<lambda>u. Inr \<lparr>df_friend_user_id = get_int64 u\<rparr>)"

definition parseCreateGroupRequest :: "'j Json \<Rightarrow> 'j Message \<Rightarrow> string + CreateGroupRequest" where
  "parseCreateGroupRequest J msg =
     (case string_field J (msg_data msg) ''name'' of
        None \<Rightarrow> Inl ''Missing or invalid 'name' field in data''
      | Some name \<Rightarrow>
          (case js_at J (msg_data msg) ''member_ids'' of
             None \<Rightarrow> Inr \<lparr>cg_name = name, cg_member_ids = []\<rparr>
           | Some v \<Rightarrow>
               (case js_array J v of
                  None \<Rightarrow> Inl ''Invalid 'member_ids' field in data: must be an array''
                | Some items \<Rightarrow>
                    (case read_integers J items of
                       None \<Rightarrow> Inl ''Invalid 'member_ids' field in data: every item must be an integer''
                     | Some ids \<Rightarrow> Inr \<lparr>cg_name = name, cg_member_ids = ids\<rparr>))))"

definition parseAddGroupMemberRequest :: "'j Json \<Rightarrow> 'j Message \<Rightarrow> string + AddGroupMemberRequest" where
  "parseAddGroupMemberRequest J msg =
     (case string_field J (msg_data msg) ''group_id'' of
        None \<Rightarrow> Inl ''Missing or invalid 'group_id' field in data''
      | Some group_id \<Rightarrow>
          (case integer_field J (msg_data msg) ''user_id'' of
             None \<Rightarrow> Inl ''Missing or invalid 'user_id' field in data''
           | Some u \<Rightarrow> Inr \<lparr>ag_group_id = group_id, ag_user_id = get_int64 u\<rparr>))"

definition parseSendGroupMessageRequest :: "'j Json \<Rightarrow> 'j Message \<Rightarrow> string + SendGroupMessageRequest" where
  "parseSendGroupMessageRequest J msg =
     (case string_field J (msg_data msg) ''group_id'' of
        None \<Rightarrow> Inl ''Missing or invalid 'group_id' field in data''
      | Some group_id \<Rightarrow>
          (case string_field J (msg_data msg) ''client_msg_id'' of
             None \<Rightarrow> Inl ''Missing or invalid 'client_msg_id' field in data''
           | Some client_msg_id \<Rightarrow>
               (case string_field J (msg_data msg) ''content'' of
                  None \<Rightarrow> Inl ''Missing or invalid 'content' field in data''
                | Some content \<Rightarrow>
                    Inr \<lparr>sg_group_id = group_id, sg_client_msg_id = client_msg_id, sg_content = content\<rparr>)))"

section \<open>Responses\<close>

text \<open>Assignments to members, from left to right.\<close>

definition put_all :: "'j Json \<Rightarrow> (string \<times> 'j) list \<Rightarrow> 'j \<Rightarrow> 'j" where
  "put_all J members v = fold (\<lambda>(name, x) v. js_set J v name x) members v"

definition fill :: "'j Json \<Rightarrow> (string \<times> 'j) list \<Rightarrow> 'j Response \<Rightarrow> 'j Response" where
  "fill J members resp = resp\<lparr>rs_data := put_all J members (rs_data resp)\<rparr>"

definition fillRegisterResponse :: "'j Json \<Rightarrow> RegisterResponseData \<Rightarrow> 'j Response \<Rightarrow> 'j Response" where
  "fillRegisterResponse J d = fill J [(''user_id'', js_of_integer J (rrd_user_id d))]"

definition fillLoginResponse :: "'j Json \<Rightarrow> LoginResponseData \<Rightarrow> 'j Response \<Rightarrow> 'j Response" where
  "fillLoginResponse J d = fill J
     [(''user_id'', js_of_integer J (lrd_user_id d)), (''nickname'', js_of_string J (lrd_nickname d)),
      (''token'', js_of_string J (lrd_token d))]"

definition fillHeartbeatResponse :: "'j Json \<Rightarrow> timestamp \<Rightarrow> 'j Response \<Rightarrow> 'j Response" where
  "fillHeartbeatResponse J server_time = fill J [(''server_time'', js_of_integer J server_time)]"

definition fillSendMessageAck :: "'j Json \<Rightarrow> SendMessageAckData \<Rightarrow> 'j Response \<Rightarrow> 'j Response" where
  "fillSendMessageAck J d = fill J
     [(''message_id'', js_of_string J (ack_message_id d)),
      (''conversation_id'', js_of_string J (ack_conversation_id d)),
      (''sequence'', js_of_integer J (ack_sequence d)), (''to_user_id'', js_of_integer J (ack_to_user_id d)),
      (''status'', js_of_integer J (ack_status d)), (''created_at'', js_of_integer J (ack_created_at d))]"

definition fillMessagePush :: "'j Json \<Rightarrow> MessagePushData \<Rightarrow> 'j Response \<Rightarrow> 'j Response" where
  "fillMessagePush J d = fill J
     [(''message_id'', js_of_string J (push_message_id d)),
      (''conversation_id'', js_of_string J (push_conversation_id d)),
      (''sequence'', js_of_integer J (push_sequence d)), (''from_user_id'', js_of_integer J (push_from_user_id d)),
      (''from_username'', js_of_string J (push_from_username d)), (''to_user_id'', js_of_integer J (push_to_user_id d)),
      (''content'', js_of_string J (push_content d)), (''created_at'', js_of_integer J (push_created_at d)),
      (''server_time'', js_of_integer J (push_server_time d))]"

definition offline_item :: "'j Json \<Rightarrow> OfflineMessage \<Rightarrow> 'j" where
  "offline_item J m = put_all J
     [(''message_id'', js_of_string J (om_message_id m)),
      (''conversation_id'', js_of_string J (om_conversation_id m)),
      (''sequence'', js_of_integer J (om_sequence m)), (''from_user_id'', js_of_integer J (om_from_user_id m)),
      (''to_user_id'', js_of_integer J (om_to_user_id m)), (''content'', js_of_string J (om_content m)),
      (''created_at'', js_of_integer J (om_created_at m)), (''status'', js_of_integer J (om_status m))] (js_null J)"

definition fillPullOfflineMessagesResponse ::
  "'j Json \<Rightarrow> PullOfflineMessagesResponseData \<Rightarrow> 'j Response \<Rightarrow> 'j Response" where
  "fillPullOfflineMessagesResponse J d = fill J
     [(''messages'', js_of_array J (map (offline_item J) (pd_messages d))), (''has_more'', js_of_bool J (pd_has_more d))]"

definition fillMessageStateUpdateResponse ::
  "'j Json \<Rightarrow> MessageStateUpdateResponseData \<Rightarrow> 'j Response \<Rightarrow> 'j Response" where
  "fillMessageStateUpdateResponse J d = fill J
     [(''message_ids'', js_of_array J (map (js_of_string J) (ms_message_ids d))),
      (''affected_rows'', js_of_integer J (ms_affected_rows d))]"

definition fillFriendshipActionResponse ::
  "'j Json \<Rightarrow> FriendshipActionResponseData \<Rightarrow> 'j Response \<Rightarrow> 'j Response" where
  "fillFriendshipActionResponse J d = fill J
     ([(''requester_id'', js_of_integer J (fa_requester_id d)), (''addressee_id'', js_of_integer J (fa_addressee_id d)),
       (''friend_user_id'', js_of_integer J (fa_friend_user_id d)),
       (''status'', js_of_string J (ToProtocolFriendshipStatus (fa_status d)))] @
      (if fa_created_at d = [] then [] else [(''created_at'', js_of_string J (fa_created_at d))]) @
      (if fa_updated_at d = [] then [] else [(''updated_at'', js_of_string J (fa_updated_at d))]))"

definition fillDeleteFriendResponse :: "'j Json \<Rightarrow> DeleteFriendResponseData \<Rightarrow> 'j Response \<Rightarrow> 'j Response" where
  "fillDeleteFriendResponse J d = fill J
     [(''friend_user_id'', js_of_integer J (dfd_friend_user_id d)), (''deleted'', js_of_bool J (dfd_deleted d))]"

definition friend_item :: "'j Json \<Rightarrow> FriendshipListItem \<Rightarrow> 'j" where
  "friend_item J i = put_all J
     [(''user_id'', js_of_integer J (fl_user_id i)), (''username'', js_of_string J (fl_username i)),
      (''nickname'', js_of_string J (fl_nickname i)),
      (''status'', js_of_string J (ToProtocolFriendshipStatus (fl_status i))),
      (''direction'', js_of_string J (fl_direction i)), (''created_at'', js_of_string J (fl_created_at i)),
      (''updated_at'', js_of_string J (fl_updated_at i))] (js_null J)"

definition fillListFriendsResponse :: "'j Json \<Rightarrow> ListFriendsResponseData \<Rightarrow> 'j Response \<Rightarrow> 'j Response" where
  "fillListFriendsResponse J d = fill J [(''friends'', js_of_array J (map (friend_item J) (lf_friends d)))]"

definition fillCreateGroupResponse :: "'j Json \<Rightarrow> CreateGroupResponseData \<Rightarrow> 'j Response \<Rightarrow> 'j Response" where
  "fillCreateGroupResponse J d = fill J
     [(''group_id'', js_of_string J (g_id (cgd_group d))), (''name'', js_of_string J (g_name (cgd_group d))),
      (''owner_id'', js_of_integer J (g_owner_id (cgd_group d))),
      (''conversation_id'', js_of_string J (g_conversation_id (cgd_group d))),
      (''member_ids'', js_of_array J (map (js_of_integer J) (cgd_member_ids d)))]"

definition fillAddGroupMemberResponse :: "'j Json \<Rightarrow> AddGroupMemberResponseData \<Rightarrow> 'j Response \<Rightarrow> 'j Response" where
  "fillAddGroupMemberResponse J d = fill J
     [(''group_id'', js_of_string J (gm_group_id (agd_member d))), (''user_id'', js_of_integer J (gm_user_id (agd_member d))),
      (''role'', js_of_string J (gm_role (agd_member d)))]"

definition delivery_item :: "'j Json \<Rightarrow> GroupMessageDelivery \<Rightarrow> 'j" where
  "delivery_item J m = put_all J
     [(''message_id'', js_of_string J (gd_message_id m)), (''group_id'', js_of_string J (gd_group_id m)),
      (''conversation_id'', js_of_string J (gd_conversation_id m)), (''sequence'', js_of_integer J (gd_sequence m)),
      (''to_user_id'', js_of_integer J (gd_to_user_id m)), (''status'', js_of_integer J (gd_status m)),
      (''created_at'', js_of_integer J (gd_created_at m))] (js_null J)"

definition fillSendGroupMessageResponse :: "'j Json \<Rightarrow> SendGroupMessageResponseData \<Rightarrow> 'j Response \<Rightarrow> 'j Response" where
  "fillSendGroupMessageResponse J d = fill J
     [(''group_id'', js_of_string J (sgd_group_id d)), (''conversation_id'', js_of_string J (sgd_conversation_id d)),
      (''messages'', js_of_array J (map (delivery_item J) (sgd_messages d)))]"

end
