(* ===== verification/TcpServer.thy ===== *)
theory TcpServer
  imports ConnectionContext ChatService "HOL-Library.AList"
begin

text \<open>
  The epoll server, \<^verbatim>\<open>src/src/TcpServer.cc\<close>: the tables of connections, the I/O thread that reads,
  writes, answers and times out, the worker pool that runs the handler, and the queues between them.
  Every callback of the I/O thread and every task of a worker is a function on the state of the server
  and the world of the handler; a step relation interleaves them. Answers of the operating system
  (\<^verbatim>\<open>recv\<close>, \<^verbatim>\<open>send\<close>, \<^verbatim>\<open>epoll_ctl\<close>, the clock) are inputs.
\<close>

section \<open>The handler interface\<close>

datatype SessionAction = NONE | BIND | UNBIND

record RequestContext =
  rq_conn_id :: connectionId
  rq_peer_ip :: string

record OutboundMessage =
  ob_target_conn_id :: connectionId
  ob_target_user_id :: userId
  ob_payload :: string
  ob_message_id :: messageId

record HandleResult =
  hr_response :: string
  hr_pushes :: "OutboundMessage list"
  hr_session_action :: SessionAction
  hr_pending_session :: ConnectionSession
  hr_delivered_message_ids :: "messageId list"
  hr_delivered_user_id :: userId

text \<open>\<^verbatim>\<open>handle\<close> may throw: it then has no result. Exceptions of the other callbacks are caught by the tasks
  that run them.\<close>

record 'w IMessageHandler =
  mh_handle :: "string \<Rightarrow> RequestContext \<Rightarrow> ('w, HandleResult option) state"
  mh_onConnectionClosed :: "connectionId \<Rightarrow> ('w, unit) state"
  mh_applyBindSession :: "connectionId \<Rightarrow> ConnectionSession \<Rightarrow> ('w, unit) state"
  mh_applyUnbindSession :: "connectionId \<Rightarrow> ('w, unit) state"
  mh_isConnectionBoundToUser :: "connectionId \<Rightarrow> userId \<Rightarrow> 'w \<Rightarrow> bool"
  mh_onMessagesDelivered :: "userId \<Rightarrow> messageId list \<Rightarrow> ('w, unit) state"

section \<open>State of the server\<close>

record TcpServerTimeoutOptions =
  to_idle_timeout_ms :: nat
  to_heartbeat_timeout_ms :: nat
  to_scan_interval_ms :: nat

record ResponseTask =
  rt_conn_id :: connectionId
  rt_response :: string
  rt_sequence :: nat
  rt_close_after :: bool
  rt_session_action :: SessionAction
  rt_pending_session :: ConnectionSession
  rt_pushes :: "OutboundMessage list"
  rt_delivered_message_ids :: "messageId list"
  rt_delivered_user_id :: userId

record PostDeliveryEvent =
  pe_conn_id :: connectionId
  pe_finish_current_request :: bool

text \<open>
  The tasks of the worker pool: a request, the clean-up after a connection was closed, and the two
  kinds of delivery marks, for the connection whose request asked for them (its next request waits for
  the mark) and for another connection (whose requests are fenced off meanwhile). \<^verbatim>\<open>ResumeTask\<close> is what
  is left of the last one between lowering the fence and reporting it.
\<close>

datatype worker_task =
  RequestTask connectionId string string
  | CleanupTask connectionId
  | MarkOwn userId "messageId list" connectionId
  | MarkOther userId "messageId list" connectionId
  | ResumeTask connectionId

text \<open>A remote push is identified by its ticket, which names its promise and its state.\<close>

record RemotePushTask =
  pt_event :: RemotePushEvent
  pt_ticket :: nat

datatype push_state = PushPending | PushClaimed | PushCancelled

text \<open>
  Where the I/O thread is: waiting for events, in one of the three loops of
  \<^verbatim>\<open>onWorkerResultReadable\<close> with the entries still to be processed, waiting for the workers to end, or
  past the end of \<^verbatim>\<open>start\<close>.
\<close>

datatype io_position =
  IoWait
  | IoRemote "RemotePushTask list"
  | IoTasks "ResponseTask list"
  | IoEvents "PostDeliveryEvent list"
  | IoJoin
  | IoDone

text \<open>
  A context object is named by its connection id. \<^verbatim>\<open>connections_\<close> holds the ids it has an entry for; a
  context outside of it lives on only while a thread still holds a pointer to it. \<^verbatim>\<open>sv_event_ready\<close> says
  that the event descriptor of the workers has been written since the I/O thread last read it. A task
  is in \<^verbatim>\<open>sv_running\<close> from the moment a worker takes it from the queue of the pool.
\<close>

record Server =
  sv_stopping :: bool
  sv_worker_event_fd :: bool
  sv_event_ready :: bool
  sv_next_conn_id :: nat
  sv_next_response_task_id :: nat
  sv_contexts :: "connectionId \<Rightarrow> ConnectionContext"
  sv_connections :: "connectionId set"
  sv_fd_to_context :: "int \<rightharpoonup> connectionId"
  sv_authenticated :: "userId \<rightharpoonup> connectionId list"
  sv_timeout_scan_queue :: "connectionId list"
  sv_completed_tasks :: "ResponseTask list"
  sv_post_delivery_events :: "PostDeliveryEvent list"
  sv_remote_push_tasks :: "RemotePushTask list"
  sv_push_state :: "nat \<Rightarrow> push_state"
  sv_push_outcome :: "nat \<rightharpoonup> RemoteDeliveryOutcome"
  sv_next_ticket :: nat
  sv_pool_stopped :: bool
  sv_pool_tasks :: "worker_task list"
  sv_running :: "worker_task list"
  sv_io :: io_position

type_synonym 'w net = "Server \<times> 'w"

definition on_context :: "connectionId \<Rightarrow> (ConnectionContext \<Rightarrow> ConnectionContext) \<Rightarrow> Server \<Rightarrow> Server" where
  "on_context cid f s = s\<lparr>sv_contexts := (sv_contexts s)(cid := f (sv_contexts s cid))\<rparr>"

definition getConnectionContextByFd :: "int \<Rightarrow> Server \<Rightarrow> connectionId option" where
  "getConnectionContextByFd fd s = sv_fd_to_context s fd"

definition getConnectionContextById :: "connectionId \<Rightarrow> Server \<Rightarrow> connectionId option" where
  "getConnectionContextById cid s = (if cid \<in> sv_connections s then Some cid else None)"

text \<open>\<^verbatim>\<open>epoll_ctl\<close> on a descriptor that was closed fails; otherwise the system decides.\<close>

definition set_writable :: "bool \<Rightarrow> int \<Rightarrow> bool" where
  "set_writable ctl_ok fd \<longleftrightarrow> ctl_ok \<and> fd \<noteq> - 1"

section \<open>Worker pool and queues\<close>

text \<open>\<^verbatim>\<open>ThreadPool::submit\<close> throws once the pool is stopped.\<close>

definition submit :: "worker_task \<Rightarrow> Server \<Rightarrow> Server option" where
  "submit task s = (if sv_pool_stopped s then None else Some (s\<lparr>sv_pool_tasks := sv_pool_tasks s @ [task]\<rparr>))"

definition submitRequestTask :: "connectionId \<Rightarrow> string \<Rightarrow> string \<Rightarrow> Server \<Rightarrow> Server option" where
  "submitRequestTask cid ip request s =
     (if sv_stopping s then None else submit (RequestTask cid ip request) s)"

definition notifyWorkerEventFd :: "Server \<Rightarrow> Server" where
  "notifyWorkerEventFd s = s\<lparr>sv_event_ready := True\<rparr>"

definition enqueuePostDeliveryEvent :: "connectionId \<Rightarrow> bool \<Rightarrow> Server \<Rightarrow> Server" where
  "enqueuePostDeliveryEvent cid finish s =
     notifyWorkerEventFd (s\<lparr>sv_post_delivery_events := sv_post_delivery_events s @
       [\<lparr>pe_conn_id = cid, pe_finish_current_request = finish\<rparr>]\<rparr>)"

definition enqueueResponseTask :: "ResponseTask \<Rightarrow> Server \<Rightarrow> Server option" where
  "enqueueResponseTask task s =
     (if sv_stopping s \<or> \<not> sv_worker_event_fd s then None
      else Some (notifyWorkerEventFd (s\<lparr>sv_completed_tasks := sv_completed_tasks s @ [task]\<rparr>)))"

section \<open>Opening and closing connections\<close>

definition registerConnection :: "int \<Rightarrow> int \<Rightarrow> string \<Rightarrow> nat \<Rightarrow> Server \<Rightarrow> Server" where
  "registerConnection now fd ip port s =
     (let cid = sv_next_conn_id s
      in s\<lparr>sv_next_conn_id := (cid + 1) mod 2 ^ 64,
           sv_contexts := (sv_contexts s)(cid :=
             ConnectionContext_new \<lparr>conn_fd = fd, peer_ip = ip, peer_port = port\<rparr> cid now),
           sv_connections := insert cid (sv_connections s),
           sv_fd_to_context := (sv_fd_to_context s)(fd \<mapsto> cid),
           sv_timeout_scan_queue := sv_timeout_scan_queue s @ [cid]\<rparr>)"

definition forget_authenticated :: "userId \<Rightarrow> connectionId \<Rightarrow> Server \<Rightarrow> Server" where
  "forget_authenticated uid cid s =
     (case sv_authenticated s uid of
        None \<Rightarrow> s
      | Some cids \<Rightarrow>
          let rest = filter (\<lambda>c. c \<noteq> cid) cids
          in s\<lparr>sv_authenticated := (sv_authenticated s)(uid := (if rest = [] then None else Some rest))\<rparr>)"

definition auth_user :: "connectionId \<Rightarrow> Server \<Rightarrow> userId" where
  "auth_user cid s = authenticated_user_id (meta (sv_contexts s cid))"

definition unregisterConnection :: "connectionId \<Rightarrow> Server \<Rightarrow> Server option" where
  "unregisterConnection cid s =
     (if cid \<notin> sv_connections s then None
      else let s1 = on_context cid markClosing s;
               s2 = s1\<lparr>sv_fd_to_context := (sv_fd_to_context s1)(ctx_fd (sv_contexts s1 cid) := None),
                       sv_connections := sv_connections s1 - {cid}\<rparr>
           in Some (forget_authenticated (auth_user cid s2) cid s2))"

text \<open>\<^verbatim>\<open>closeConnection\<close> closes the socket.\<close>

definition closeConnection :: "ConnectionContext \<Rightarrow> ConnectionContext" where
  "closeConnection c = c\<lparr>connection := snd (tcp_close (connection c))\<rparr>"

definition dispatchConnectionClosed :: "'w IMessageHandler \<Rightarrow> connectionId \<Rightarrow> 'w net \<Rightarrow> 'w net" where
  "dispatchConnectionClosed h cid = (\<lambda>(s, w).
     case submit (CleanupTask cid) s of
       Some s' \<Rightarrow> (s', w)
     | None \<Rightarrow> (s, snd (run_state (mh_onConnectionClosed h cid) w)))"

definition closeClientFd :: "'w IMessageHandler \<Rightarrow> int \<Rightarrow> 'w net \<Rightarrow> 'w net" where
  "closeClientFd h fd = (\<lambda>(s, w).
     case getConnectionContextByFd fd s of
       None \<Rightarrow> (s, w)
     | Some cid \<Rightarrow>
         (case unregisterConnection cid s of
            None \<Rightarrow> (s, w)
          | Some s1 \<Rightarrow>
              dispatchConnectionClosed h cid
                (on_context cid (markClosed \<circ> closeConnection \<circ> clearPendingRequests \<circ> clearPendingSend) s1, w)))"

definition unbindAuthenticatedConnection :: "connectionId \<Rightarrow> Server \<Rightarrow> Server" where
  "unbindAuthenticatedConnection cid s =
     on_context cid clearAuthenticatedUserId (forget_authenticated (auth_user cid s) cid s)"

definition bindAuthenticatedConnection :: "connectionId \<Rightarrow> userId \<Rightarrow> Server \<Rightarrow> Server" where
  "bindAuthenticatedConnection cid uid s =
     (let s1 = unbindAuthenticatedConnection cid s;
          cids = (case sv_authenticated s1 uid of None \<Rightarrow> [] | Some cs \<Rightarrow> cs);
          cids' = (if cid \<in> set cids then cids else cids @ [cid])
      in on_context cid (setAuthenticatedUserId uid) (s1\<lparr>sv_authenticated := (sv_authenticated s1)(uid \<mapsto> cids')\<rparr>))"

section \<open>Reading and writing\<close>

text \<open>What one call of \<^verbatim>\<open>recv\<close> answers.\<close>

datatype recv_answer = RecvBytes string | RecvClosed | RecvAgain | RecvError

text \<open>The packets of one chunk; the flag tells that the connection was closed.\<close>

fun start_packets :: "'w IMessageHandler \<Rightarrow> int \<Rightarrow> connectionId \<Rightarrow> string list \<Rightarrow> 'w net \<Rightarrow> bool \<times> 'w net" where
  "start_packets h fd cid [] n = (False, n)"
| "start_packets h fd cid (packet # packets) (s, w) =
     (if packet = [] then start_packets h fd cid packets (s, w)
      else case startRequestOrQueue packet (sv_contexts s cid) of
        (start, c') \<Rightarrow>
          let s1 = on_context cid (\<lambda>_. c') s
          in if \<not> start then start_packets h fd cid packets (s1, w)
             else case submitRequestTask cid (meta_peer_ip (meta (sv_contexts s cid))) packet s1 of
               Some s2 \<Rightarrow> start_packets h fd cid packets (s2, w)
             | None \<Rightarrow> (True, closeClientFd h fd (s1, w)))"

fun read_loop :: "'w IMessageHandler \<Rightarrow> int \<Rightarrow> int \<Rightarrow> connectionId \<Rightarrow> recv_answer list \<Rightarrow> 'w net \<Rightarrow> 'w net" where
  "read_loop h now fd cid (RecvBytes chunk # answers) (s, w) =
     (let c1 = touchOnRecv now (length chunk) (sv_contexts s cid)
      in case feedPacketData now c1 chunk [] of
        (success, packets, c2) \<Rightarrow>
          let s2 = on_context cid (\<lambda>_. c2) s
          in if \<not> success then closeClientFd h fd (s2, w)
             else case start_packets h fd cid packets (s2, w) of
               (closed, n) \<Rightarrow> if closed then n else read_loop h now fd cid answers n)"
| "read_loop h now fd cid (RecvError # answers) n = closeClientFd h fd n"
| "read_loop h now fd cid _ n = n"

definition onReadable :: "'w IMessageHandler \<Rightarrow> int \<Rightarrow> int \<Rightarrow> recv_answer list \<Rightarrow> 'w net \<Rightarrow> 'w net" where
  "onReadable h now fd answers = (\<lambda>(s, w).
     case getConnectionContextByFd fd s of
       None \<Rightarrow> (s, w)
     | Some cid \<Rightarrow> read_loop h now fd cid answers (s, w))"

text \<open>What one call of \<^verbatim>\<open>send\<close> answers; the number of bytes sent is at least one and at most what was
  offered. The list ends when the socket takes no more.\<close>

datatype send_answer = SentBytes nat | SendClosed | SendAgain | SendError

fun write_loop ::
  "'w IMessageHandler \<Rightarrow> int \<Rightarrow> bool \<Rightarrow> int \<Rightarrow> connectionId \<Rightarrow> send_answer list \<Rightarrow> 'w net \<Rightarrow> 'w net" where
  "write_loop h now ctl_ok fd cid answers (s, w) =
     (if \<not> fst (peekPendingSend (sv_contexts s cid))
      then if set_writable ctl_ok fd then (s, w) else closeClientFd h fd (s, w)
      else case answers of
        SentBytes n # rest \<Rightarrow>
          write_loop h now ctl_ok fd cid rest
            (on_context cid (consumePendingSend n \<circ> touchOnSend now n) s, w)
      | SendClosed # rest \<Rightarrow> closeClientFd h fd (s, w)
      | SendError # rest \<Rightarrow> closeClientFd h fd (s, w)
      | _ \<Rightarrow> (s, w))"

definition onWritable :: "'w IMessageHandler \<Rightarrow> int \<Rightarrow> bool \<Rightarrow> int \<Rightarrow> send_answer list \<Rightarrow> 'w net \<Rightarrow> 'w net" where
  "onWritable h now ctl_ok fd answers = (\<lambda>(s, w).
     case getConnectionContextByFd fd s of
       None \<Rightarrow> (s, w)
     | Some cid \<Rightarrow> write_loop h now ctl_ok fd cid answers (s, w))"

definition server_hasPendingSend :: "int \<Rightarrow> Server \<Rightarrow> bool" where
  "server_hasPendingSend fd s =
     (case getConnectionContextByFd fd s of None \<Rightarrow> False | Some cid \<Rightarrow> hasPendingSend (sv_contexts s cid))"

text \<open>The treatment of one event of a connected socket in the event loop.\<close>

record epoll_event =
  ev_err :: bool
  ev_in :: bool
  ev_out :: bool
  ev_hup :: bool

definition client_event ::
  "'w IMessageHandler \<Rightarrow> int \<Rightarrow> bool \<Rightarrow> int \<Rightarrow> epoll_event \<Rightarrow> recv_answer list \<Rightarrow> send_answer list \<Rightarrow> 'w net \<Rightarrow> 'w net" where
  "client_event h now ctl_ok fd ev received sent n =
     (if ev_err ev then closeClientFd h fd n
      else let n1 = (if ev_in ev then onReadable h now fd received n else n);
               n2 = (if ev_out ev then onWritable h now ctl_ok fd sent n1 else n1)
           in if ev_hup ev \<and> \<not> server_hasPendingSend fd (fst n2) then closeClientFd h fd n2 else n2)"


section \<open>Finishing requests\<close>

text \<open>Both functions answer false when the next request could not be handed to the pool.\<close>

definition start_next :: "connectionId \<Rightarrow> string option \<times> ConnectionContext \<Rightarrow> Server \<Rightarrow> bool \<times> Server" where
  "start_next cid popped s =
     (case popped of
        (None, c') \<Rightarrow> (True, on_context cid (\<lambda>_. c') s)
      | (Some request, c') \<Rightarrow>
          (let s1 = on_context cid (\<lambda>_. c') s
           in case submitRequestTask cid (meta_peer_ip (meta c')) request s1 of
                Some s2 \<Rightarrow> (True, s2)
              | None \<Rightarrow> (False, on_context cid clearPendingRequests s1)))"

definition finishCurrentRequestAndSubmitNext :: "connectionId \<Rightarrow> Server \<Rightarrow> bool \<times> Server" where
  "finishCurrentRequestAndSubmitNext cid s = start_next cid (finishRequestAndPopNext (sv_contexts s cid)) s"

definition submitNextQueuedRequestIfIdle :: "connectionId \<Rightarrow> Server \<Rightarrow> bool \<times> Server" where
  "submitNextQueuedRequestIfIdle cid s = start_next cid (popNextRequestIfIdle (sv_contexts s cid)) s"

section \<open>Results of the workers\<close>

text \<open>The delivery marks collected while the pushes of a task are handed out: message ids of pushes to
  the connection itself with the user, and to other connections.\<close>

record collected_marks =
  cm_own :: "messageId list"
  cm_own_user :: userId
  cm_other :: "(connectionId \<times> messageId list \<times> userId) list"

definition add_other_mark ::
  "connectionId \<Rightarrow> messageId \<Rightarrow> userId \<Rightarrow> (connectionId \<times> messageId list \<times> userId) list \<Rightarrow>
   (connectionId \<times> messageId list \<times> userId) list" where
  "add_other_mark target mid uid marks =
     (case map_of marks target of
        None \<Rightarrow> marks @ [(target, [mid], uid)]
      | Some (mids, u) \<Rightarrow> AList.update target (mids @ [mid], if u = 0 then uid else u) marks)"

text \<open>One push of a task; \<^verbatim>\<open>ctl_ok\<close> is the answer of \<^verbatim>\<open>epoll_ctl\<close>.\<close>

definition hand_out_push ::
  "'w IMessageHandler \<Rightarrow> bool \<Rightarrow> connectionId \<Rightarrow> OutboundMessage \<Rightarrow> 'w net \<times> collected_marks \<Rightarrow> 'w net \<times> collected_marks" where
  "hand_out_push h ctl_ok cid push = (\<lambda>((s, w), marks).
     if \<not> mh_isConnectionBoundToUser h (ob_target_conn_id push) (ob_target_user_id push) w then ((s, w), marks)
     else case getConnectionContextById (ob_target_conn_id push) s of
       None \<Rightarrow> ((s, w), marks)
     | Some target \<Rightarrow>
         if ob_payload push = [] then ((s, w), marks)
         else let s1 = on_context target (appendPendingSend (encode (ob_payload push))) s;
                  fd = ctx_fd (sv_contexts s1 target)
              in if \<not> set_writable ctl_ok fd then (closeClientFd h fd (s1, w), marks)
                 else if ob_message_id push = [] then ((s1, w), marks)
                 else if ob_target_conn_id push = cid
                 then ((s1, w), marks\<lparr>cm_own := cm_own marks @ [ob_message_id push],
                         cm_own_user := (if cm_own_user marks = 0 then ob_target_user_id push else cm_own_user marks)\<rparr>)
                 else ((s1, w), marks\<lparr>cm_other :=
                         add_other_mark (ob_target_conn_id push) (ob_message_id push) (ob_target_user_id push)
                           (cm_other marks)\<rparr>))"

fun hand_out_pushes ::
  "'w IMessageHandler \<Rightarrow> (nat \<Rightarrow> bool) \<Rightarrow> nat \<Rightarrow> connectionId \<Rightarrow> OutboundMessage list \<Rightarrow> 'w net \<times> collected_marks \<Rightarrow>
   'w net \<times> collected_marks" where
  "hand_out_pushes h ctl i cid [] acc = acc"
| "hand_out_pushes h ctl i cid (push # pushes) acc =
     hand_out_pushes h ctl (Suc i) cid pushes (hand_out_push h (ctl i) cid push acc)"

text \<open>The fence of one other connection goes up, and its mark goes to the pool.\<close>

definition mark_other :: "connectionId \<times> messageId list \<times> userId \<Rightarrow> Server \<Rightarrow> Server" where
  "mark_other = (\<lambda>(target, mids, uid) s.
     case getConnectionContextById target s of
       None \<Rightarrow> s
     | Some t \<Rightarrow>
         (let s1 = on_context t incrementPendingDeliveryMarks s
          in case submit (MarkOther uid mids target) s1 of
               Some s2 \<Rightarrow> s2
             | None \<Rightarrow> enqueuePostDeliveryEvent target False (on_context t decrementPendingDeliveryMarks s1)))"

text \<open>A mark that holds back the next request; the flag says whether it was submitted.\<close>

definition mark_own :: "userId \<Rightarrow> messageId list \<Rightarrow> connectionId \<Rightarrow> Server \<Rightarrow> bool \<times> Server" where
  "mark_own uid mids cid s =
     (case submit (MarkOwn uid mids cid) s of Some s1 \<Rightarrow> (True, s1) | None \<Rightarrow> (False, s))"

definition apply_session_action :: "'w IMessageHandler \<Rightarrow> ResponseTask \<Rightarrow> 'w net \<Rightarrow> 'w net" where
  "apply_session_action h task = (\<lambda>(s, w).
     case rt_session_action task of
       BIND \<Rightarrow>
         (bindAuthenticatedConnection (rt_conn_id task) (cs_user_id (rt_pending_session task)) s,
          snd (run_state (mh_applyBindSession h (rt_conn_id task) (rt_pending_session task)) w))
     | UNBIND \<Rightarrow>
         (unbindAuthenticatedConnection (rt_conn_id task) s,
          snd (run_state (mh_applyUnbindSession h (rt_conn_id task)) w))
     | NONE \<Rightarrow> (s, w))"

text \<open>What follows once the response is queued: session, pushes, marks, and the next request unless a
  mark holds it back.\<close>

definition finish_response ::
  "'w IMessageHandler \<Rightarrow> (nat \<Rightarrow> bool) \<Rightarrow> ResponseTask \<Rightarrow> bool \<Rightarrow> 'w net \<Rightarrow> 'w net" where
  "finish_response h ctl task deferred n =
     (let cid = rt_conn_id task;
          ((s1, w1), marks) = hand_out_pushes h ctl 1 cid (rt_pushes task)
            (apply_session_action h task n, \<lparr>cm_own = [], cm_own_user = 0, cm_other = []\<rparr>);
          s2 = fold mark_other (cm_other marks) s1;
          (own_deferred, s3) =
            (if cm_own marks = [] then (False, s2) else mark_own (cm_own_user marks) (cm_own marks) cid s2)
      in if deferred \<or> own_deferred then (s3, w1)
         else case finishCurrentRequestAndSubmitNext cid s3 of
           (submitted, s4) \<Rightarrow>
             if submitted then (s4, w1) else closeClientFd h (ctx_fd (sv_contexts s4 cid)) (s4, w1))"

text \<open>
  One response task. The pointer of the task is valid if the connection is in the table, and may be
  valid for a closed one (\<^verbatim>\<open>locked\<close>).
\<close>

definition process_response ::
  "'w IMessageHandler \<Rightarrow> (nat \<Rightarrow> bool) \<Rightarrow> bool \<Rightarrow> ResponseTask \<Rightarrow> 'w net \<Rightarrow> 'w net" where
  "process_response h ctl locked task = (\<lambda>(s, w).
     let cid = rt_conn_id task;
         fd = ctx_fd (sv_contexts s cid)
     in if cid \<notin> sv_connections s \<and> \<not> locked then (s, w)
        else if rt_close_after task then closeClientFd h fd (s, w)
        else if rt_response task = [] then finish_response h ctl task False (s, w)
        else let s1 = on_context cid (appendPendingSend (encode (rt_response task))) s
             in if \<not> set_writable (ctl 0) fd then closeClientFd h fd (s1, w)
                else if rt_delivered_message_ids task = [] then finish_response h ctl task False (s1, w)
                else case mark_own (rt_delivered_user_id task) (rt_delivered_message_ids task) cid s1 of
                  (deferred, s2) \<Rightarrow> finish_response h ctl task deferred (s2, w))"

definition process_event :: "'w IMessageHandler \<Rightarrow> PostDeliveryEvent \<Rightarrow> 'w net \<Rightarrow> 'w net" where
  "process_event h event = (\<lambda>(s, w).
     case getConnectionContextById (pe_conn_id event) s of
       None \<Rightarrow> (s, w)
     | Some cid \<Rightarrow>
         (case (if pe_finish_current_request event then finishCurrentRequestAndSubmitNext cid s
                else submitNextQueuedRequestIfIdle cid s) of
            (submitted, s1) \<Rightarrow>
              if submitted then (s1, w) else closeClientFd h (ctx_fd (sv_contexts s1 cid)) (s1, w)))"

section \<open>Pushes from other servers\<close>

definition set_outcome :: "nat \<Rightarrow> RemoteDeliveryOutcome \<Rightarrow> Server \<Rightarrow> Server" where
  "set_outcome ticket outcome s = s\<lparr>sv_push_outcome := (sv_push_outcome s)(ticket \<mapsto> outcome)\<rparr>"

definition process_remote :: "'w IMessageHandler \<Rightarrow> bool \<Rightarrow> RemotePushTask \<Rightarrow> 'w net \<Rightarrow> 'w net" where
  "process_remote h ctl_ok task = (\<lambda>(s, w).
     if sv_push_state s (pt_ticket task) \<noteq> PushPending then (s, w)
     else let s1 = s\<lparr>sv_push_state := (sv_push_state s)(pt_ticket task := PushClaimed)\<rparr>;
              event = pt_event task
          in case (if mh_isConnectionBoundToUser h (rpe_target_connection_id event) (rpe_to_user_id event) w
                   then getConnectionContextById (rpe_target_connection_id event) s1 else None) of
            None \<Rightarrow> (set_outcome (pt_ticket task) kInvalidTarget s1, w)
          | Some target \<Rightarrow>
              (let s2 = on_context target (appendPendingSend (encode (rpe_payload event))) s1;
                   fd = ctx_fd (sv_contexts s2 target)
               in if set_writable ctl_ok fd then (set_outcome (pt_ticket task) kRemoteDelivered s2, w)
                  else case closeClientFd h fd (s2, w) of
                    (s3, w3) \<Rightarrow> (set_outcome (pt_ticket task) kRetry s3, w3)))"

text \<open>A new task with the state its ticket is left in.\<close>

definition with_push :: "RemotePushEvent \<Rightarrow> push_state \<Rightarrow> Server \<Rightarrow> Server" where
  "with_push push ps s = s\<lparr>sv_next_ticket := sv_next_ticket s + 1,
     sv_push_state := (sv_push_state s)(sv_next_ticket s := ps),
     sv_remote_push_tasks := sv_remote_push_tasks s @ [\<lparr>pt_event = push, pt_ticket = sv_next_ticket s\<rparr>]\<rparr>"

text \<open>
  \<^verbatim>\<open>deliverRemotePush\<close> up to its wait: the outcome when it returns at once, otherwise the ticket. The two
  looks at \<^verbatim>\<open>stopping_\<close> are arguments, because the server may be stopped after either; \<^verbatim>\<open>written\<close> tells
  whether the write to the event descriptor succeeded; if not, the task is cancelled unless the I/O
  thread has claimed it meanwhile, and then the call waits as after a successful write.
\<close>

definition deliverRemotePush ::
  "bool \<Rightarrow> bool \<Rightarrow> bool \<Rightarrow> RemotePushEvent \<Rightarrow> Server \<Rightarrow> (RemoteDeliveryOutcome + nat) \<times> Server" where
  "deliverRemotePush stopping1 stopping2 written event s =
     (if stopping1 \<or> rpe_target_connection_id event = 0 \<or> rpe_to_user_id event \<le> 0 \<or> rpe_payload event = []
      then (Inl kInvalidTarget, s)
      else if stopping2 \<or> \<not> sv_worker_event_fd s then (Inl kRetry, s)
      else if written then (Inr (sv_next_ticket s), notifyWorkerEventFd (with_push event PushPending s))
      else (Inl kRetry, with_push event PushCancelled s))"

text \<open>The time-out of the wait: a push nobody has claimed is cancelled; otherwise the wait goes on.\<close>

definition push_timeout :: "nat \<Rightarrow> Server \<Rightarrow> RemoteDeliveryOutcome option \<times> Server" where
  "push_timeout t s =
     (if sv_push_state s t = PushPending
      then (Some kRetry, s\<lparr>sv_push_state := (sv_push_state s)(t := PushCancelled)\<rparr>)
      else (sv_push_outcome s t, s))"

section \<open>Stopping\<close>

definition cancel_push :: "RemotePushTask \<Rightarrow> Server \<Rightarrow> Server" where
  "cancel_push task s =
     (if sv_push_state s (pt_ticket task) = PushPending
      then set_outcome (pt_ticket task) kRetry
             (s\<lparr>sv_push_state := (sv_push_state s)(pt_ticket task := PushCancelled)\<rparr>)
      else s)"

definition stop_server :: "Server \<Rightarrow> Server" where
  "stop_server s =
     (if sv_stopping s then s
      else let s1 = fold cancel_push (sv_remote_push_tasks s)
                      (s\<lparr>sv_stopping := True, sv_remote_push_tasks := []\<rparr>)
           in if sv_worker_event_fd s1 then notifyWorkerEventFd s1 else s1)"

section \<open>Time-outs\<close>

definition kMaxTimeoutScanBatch :: nat where
  "kMaxTimeoutScanBatch = 256"

text \<open>Times of the steady clock are in nanoseconds; \<^verbatim>\<open>duration_cast\<close> truncates to milliseconds.\<close>

definition elapsed_ms :: "int \<Rightarrow> int \<Rightarrow> int" where
  "elapsed_ms now t = (if now \<ge> t then (now - t) div 1000000 else - ((t - now) div 1000000))"

definition timed_out :: "TcpServerTimeoutOptions \<Rightarrow> int \<Rightarrow> ConnectionContext \<Rightarrow> bool" where
  "timed_out opts now c \<longleftrightarrow>
     \<not> shouldDeferTimeout c \<and>
     (elapsed_ms now (max (last_recv_at (meta c)) (last_send_at (meta c))) \<ge> int (to_idle_timeout_ms opts) \<or>
      authenticated_user_id (meta c) > 0 \<and>
      elapsed_ms now (last_active_at (meta c)) \<ge> int (to_heartbeat_timeout_ms opts))"

fun scan_timeouts :: "'w IMessageHandler \<Rightarrow> TcpServerTimeoutOptions \<Rightarrow> int \<Rightarrow> nat \<Rightarrow> 'w net \<Rightarrow> 'w net" where
  "scan_timeouts h opts now 0 n = n"
| "scan_timeouts h opts now (Suc k) (s, w) =
     (case sv_timeout_scan_queue s of
        [] \<Rightarrow> (s, w)
      | cid # queue \<Rightarrow>
          let s1 = s\<lparr>sv_timeout_scan_queue := queue\<rparr>
          in scan_timeouts h opts now k
               (case getConnectionContextById cid s1 of
                  None \<Rightarrow> (s1, w)
                | Some c \<Rightarrow>
                    if timed_out opts now (sv_contexts s1 c) then closeClientFd h (ctx_fd (sv_contexts s1 c)) (s1, w)
                    else (s1\<lparr>sv_timeout_scan_queue := sv_timeout_scan_queue s1 @ [cid]\<rparr>, w)))"

definition scanConnectionTimeouts :: "'w IMessageHandler \<Rightarrow> TcpServerTimeoutOptions \<Rightarrow> int \<Rightarrow> 'w net \<Rightarrow> 'w net" where
  "scanConnectionTimeouts h opts now = (\<lambda>(s, w).
     scan_timeouts h opts now (min kMaxTimeoutScanBatch (length (sv_timeout_scan_queue s))) (s, w))"

section \<open>Workers\<close>

definition response_task :: "connectionId \<Rightarrow> HandleResult \<Rightarrow> nat \<Rightarrow> ResponseTask" where
  "response_task cid r seq =
     \<lparr>rt_conn_id = cid, rt_response = hr_response r, rt_sequence = seq, rt_close_after = False,
      rt_session_action = hr_session_action r, rt_pending_session = hr_pending_session r,
      rt_pushes = hr_pushes r, rt_delivered_message_ids = hr_delivered_message_ids r,
      rt_delivered_user_id = hr_delivered_user_id r\<rparr>"

definition close_task :: "connectionId \<Rightarrow> nat \<Rightarrow> ResponseTask" where
  "close_task cid seq =
     \<lparr>rt_conn_id = cid, rt_response = [], rt_sequence = seq, rt_close_after = True, rt_session_action = NONE,
      rt_pending_session = \<lparr>cs_authenticated = False, cs_user_id = 0, cs_username = [], cs_token = []\<rparr>,
      rt_pushes = [], rt_delivered_message_ids = [], rt_delivered_user_id = 0\<rparr>"

definition take_sequence :: "Server \<Rightarrow> nat \<times> Server" where
  "take_sequence s =
     (sv_next_response_task_id s, s\<lparr>sv_next_response_task_id := (sv_next_response_task_id s + 1) mod 2 ^ 64\<rparr>)"

text \<open>A task of the pool; \<^verbatim>\<open>locked\<close> is as for response tasks.\<close>

fun run_task :: "'w IMessageHandler \<Rightarrow> bool \<Rightarrow> worker_task \<Rightarrow> 'w net \<Rightarrow> 'w net" where
  "run_task h locked (RequestTask cid ip request) (s, w) =
     (case run_state (mh_handle h request \<lparr>rq_conn_id = cid, rq_peer_ip = ip\<rparr>) w of
        (result, w1) \<Rightarrow>
          if cid \<notin> sv_connections s \<and> \<not> locked then (s, w1)
          else case take_sequence s of
            (seq, s1) \<Rightarrow>
              (case result of
                 Some r \<Rightarrow>
                   (case enqueueResponseTask (response_task cid r seq) s1 of Some s2 \<Rightarrow> (s2, w1) | None \<Rightarrow> (s1, w1))
               | None \<Rightarrow>
                   (case enqueueResponseTask (close_task cid seq) s1 of
                      Some s2 \<Rightarrow> (s2, w1)
                    | None \<Rightarrow> (on_context cid clearPendingRequests s1, w1))))"
| "run_task h locked (CleanupTask cid) (s, w) = (s, snd (run_state (mh_onConnectionClosed h cid) w))"
| "run_task h locked (MarkOwn uid mids cid) (s, w) =
     (enqueuePostDeliveryEvent cid True s, snd (run_state (mh_onMessagesDelivered h uid mids) w))"
| "run_task h locked (MarkOther uid mids cid) (s, w) =
     (case getConnectionContextById cid s of
        None \<Rightarrow> (s, snd (run_state (mh_onMessagesDelivered h uid mids) w))
      | Some c \<Rightarrow>
          (let s1 = on_context c decrementPendingDeliveryMarks s
           in (s1\<lparr>sv_running := sv_running s1 @ [ResumeTask cid]\<rparr>,
               snd (run_state (mh_onMessagesDelivered h uid mids) w))))"
| "run_task h locked (ResumeTask cid) (s, w) = (enqueuePostDeliveryEvent cid False s, w)"

text \<open>\<^verbatim>\<open>Taketask\<close>: a worker takes the oldest task; it leaves only when the pool is stopped and empty.\<close>

definition Taketask :: "Server \<Rightarrow> Server option" where
  "Taketask s =
     (case sv_pool_tasks s of
        [] \<Rightarrow> None
      | task # tasks \<Rightarrow> Some (s\<lparr>sv_pool_tasks := tasks, sv_running := sv_running s @ [task]\<rparr>))"

section \<open>Start and shutdown\<close>

text \<open>\<^verbatim>\<open>TcpServer\<close> and \<^verbatim>\<open>createWorkerEventFd\<close>: the state in which the event loop begins.\<close>

definition server_init :: Server where
  "server_init =
     \<lparr>sv_stopping = False, sv_worker_event_fd = True, sv_event_ready = False, sv_next_conn_id = 1,
      sv_next_response_task_id = 1,
      sv_contexts = (\<lambda>cid. ConnectionContext_new tcp_moved_from cid 0), sv_connections = {},
      sv_fd_to_context = Map.empty, sv_authenticated = Map.empty, sv_timeout_scan_queue = [],
      sv_completed_tasks = [], sv_post_delivery_events = [], sv_remote_push_tasks = [],
      sv_push_state = (\<lambda>_. PushPending), sv_push_outcome = Map.empty, sv_next_ticket = 0,
      sv_pool_stopped = False, sv_pool_tasks = [], sv_running = [], sv_io = IoWait\<rparr>"

text \<open>One call of \<^verbatim>\<open>accept\<close>; a socket that cannot be set up is closed again.\<close>

datatype accept_answer = Accepted int string nat bool | AcceptAgain | AcceptError

fun accept_one :: "int \<Rightarrow> accept_answer \<Rightarrow> Server \<Rightarrow> Server" where
  "accept_one now (Accepted fd ip port set_up) s = (if set_up then registerConnection now fd ip port s else s)"
| "accept_one now AcceptAgain s = s"
| "accept_one now AcceptError s = stop_server s"

text \<open>\<^verbatim>\<open>cleanup_resources\<close> up to the moment when the pool is told to stop, and after the workers ended. The
  descriptors come in the order of the hash table.\<close>

definition close_clients :: "'w IMessageHandler \<Rightarrow> int list \<Rightarrow> 'w net \<Rightarrow> 'w net" where
  "close_clients h fds = (\<lambda>(s, w). fold (closeClientFd h) fds (stop_server s, w))"

definition shutdown :: "'w IMessageHandler \<Rightarrow> int list \<Rightarrow> 'w net \<Rightarrow> 'w net" where
  "shutdown h fds n =
     (case close_clients h fds n of (s, w) \<Rightarrow> (s\<lparr>sv_pool_stopped := True, sv_io := IoJoin\<rparr>, w))"

definition release_resources :: "Server \<Rightarrow> Server" where
  "release_resources s = s\<lparr>sv_completed_tasks := [], sv_worker_event_fd := False, sv_io := IoDone\<rparr>"

section \<open>Interleavings\<close>

text \<open>
  The steps of the I/O thread, of the workers and of the threads that deliver remote pushes, in any
  order. Every iteration of a loop of \<^verbatim>\<open>onWorkerResultReadable\<close> is a step of its own. The last component
  lists the connections for which the clean-up of the handler has run. A descriptor that the system
  returns from \<^verbatim>\<open>accept\<close> is not open in the process, and the ids of connections do not wrap around.
\<close>

type_synonym 'w run = "Server \<times> 'w \<times> connectionId list"

inductive server_step :: "'w IMessageHandler \<Rightarrow> TcpServerTimeoutOptions \<Rightarrow> 'w run \<Rightarrow> 'w run \<Rightarrow> bool"
  for h opts where
  accept: "sv_io s = IoWait \<Longrightarrow> 0 \<le> fd \<Longrightarrow> sv_fd_to_context s fd = None \<Longrightarrow> sv_next_conn_id s + 1 < 2 ^ 64 \<Longrightarrow>
    server_step h opts (s, w, log) (accept_one now (Accepted fd ip port set_up) s, w, log)"
| accept_failed: "sv_io s = IoWait \<Longrightarrow> server_step h opts (s, w, log) (accept_one now AcceptError s, w, log)"
| client: "sv_io s = IoWait \<Longrightarrow> client_event h now ctl_ok fd ev received sent (s, w) = (s', w') \<Longrightarrow>
    server_step h opts (s, w, log) (s', w', log)"
| timer: "sv_io s = IoWait \<Longrightarrow> scanConnectionTimeouts h opts now (s, w) = (s', w') \<Longrightarrow>
    server_step h opts (s, w, log) (s', w', log)"
| worker_event: "sv_io s = IoWait \<Longrightarrow> sv_event_ready s \<Longrightarrow>
    server_step h opts (s, w, log)
      (s\<lparr>sv_event_ready := False, sv_remote_push_tasks := [], sv_io := IoRemote (sv_remote_push_tasks s)\<rparr>, w, log)"
| remote: "sv_io s = IoRemote (task # tasks) \<Longrightarrow>
    process_remote h ctl_ok task (s\<lparr>sv_io := IoRemote tasks\<rparr>, w) = (s', w') \<Longrightarrow>
    server_step h opts (s, w, log) (s', w', log)"
| remote_done: "sv_io s = IoRemote [] \<Longrightarrow>
    server_step h opts (s, w, log) (s\<lparr>sv_completed_tasks := [], sv_io := IoTasks (sv_completed_tasks s)\<rparr>, w, log)"
| response: "sv_io s = IoTasks (task # tasks) \<Longrightarrow>
    process_response h ctl locked task (s\<lparr>sv_io := IoTasks tasks\<rparr>, w) = (s', w') \<Longrightarrow>
    server_step h opts (s, w, log) (s', w', log)"
| response_done: "sv_io s = IoTasks [] \<Longrightarrow>
    server_step h opts (s, w, log)
      (s\<lparr>sv_post_delivery_events := [], sv_io := IoEvents (sv_post_delivery_events s)\<rparr>, w, log)"
| event: "sv_io s = IoEvents (ev # evs) \<Longrightarrow>
    process_event h ev (s\<lparr>sv_io := IoEvents evs\<rparr>, w) = (s', w') \<Longrightarrow>
    server_step h opts (s, w, log) (s', w', log)"
| event_done: "sv_io s = IoEvents [] \<Longrightarrow> server_step h opts (s, w, log) (s\<lparr>sv_io := IoWait\<rparr>, w, log)"
| close_down: "sv_io s = IoWait \<Longrightarrow> set fds = dom (sv_fd_to_context s) \<Longrightarrow> shutdown h fds (s, w) = (s', w') \<Longrightarrow>
    server_step h opts (s, w, log) (s', w', log)"
| join: "sv_io s = IoJoin \<Longrightarrow> sv_pool_tasks s = [] \<Longrightarrow> sv_running s = [] \<Longrightarrow>
    server_step h opts (s, w, log) (release_resources s, w, log)"
| take_task: "Taketask s = Some s' \<Longrightarrow> server_step h opts (s, w, log) (s', w, log)"
| run: "task \<in> set (sv_running s) \<Longrightarrow>
    run_task h locked task (s\<lparr>sv_running := remove1 task (sv_running s)\<rparr>, w) = (s', w') \<Longrightarrow>
    server_step h opts (s, w, log)
      (s', w', log @ (case task of CleanupTask cid \<Rightarrow> [cid] | _ \<Rightarrow> []))"
| deliver: "deliverRemotePush stopping1 stopping2 written push s = (r, s') \<Longrightarrow>
    (stopping1 \<longrightarrow> sv_stopping s) \<Longrightarrow> (stopping2 \<longrightarrow> sv_stopping s) \<Longrightarrow>
    server_step h opts (s, w, log) (s', w, log)"
| give_up: "ticket < sv_next_ticket s \<Longrightarrow> push_timeout ticket s = (r, s') \<Longrightarrow>
    server_step h opts (s, w, log) (s', w, log)"
| stop: "server_step h opts (s, w, log) (stop_server s, w, log)"

inductive_cases server_stepE: "server_step h opts (s, w, log) (s', w', log')"

inductive server_reach :: "'w IMessageHandler \<Rightarrow> TcpServerTimeoutOptions \<Rightarrow> 'w \<Rightarrow> 'w run \<Rightarrow> bool"
  for h opts w0 where
  init: "server_reach h opts w0 (server_init, w0, [])"
| step: "server_reach h opts w0 n \<Longrightarrow> server_step h opts n n' \<Longrightarrow> server_reach h opts w0 n'"

end
