(* ===== verification/ServerTables.thy ===== *)
theory ServerTables
  imports TcpServer
begin

text \<open>
  The connection tables of the epoll server and the frame of the callbacks of its I/O thread: the index
  by descriptor, the index of authenticated users and the queue of the time-out scan agree with the set
  of open connections, every callback keeps them so, and none touches a queue it does not own.
\<close>

section \<open>Frame of the operations\<close>

lemma on_context_fields [simp]:
  "sv_stopping (on_context c f s) = sv_stopping s"
  "sv_worker_event_fd (on_context c f s) = sv_worker_event_fd s"
  "sv_event_ready (on_context c f s) = sv_event_ready s"
  "sv_next_conn_id (on_context c f s) = sv_next_conn_id s"
  "sv_connections (on_context c f s) = sv_connections s"
  "sv_fd_to_context (on_context c f s) = sv_fd_to_context s"
  "sv_authenticated (on_context c f s) = sv_authenticated s"
  "sv_timeout_scan_queue (on_context c f s) = sv_timeout_scan_queue s"
  "sv_completed_tasks (on_context c f s) = sv_completed_tasks s"
  "sv_post_delivery_events (on_context c f s) = sv_post_delivery_events s"
  "sv_remote_push_tasks (on_context c f s) = sv_remote_push_tasks s"
  "sv_push_state (on_context c f s) = sv_push_state s"
  "sv_push_outcome (on_context c f s) = sv_push_outcome s"
  "sv_next_ticket (on_context c f s) = sv_next_ticket s"
  "sv_pool_stopped (on_context c f s) = sv_pool_stopped s"
  "sv_pool_tasks (on_context c f s) = sv_pool_tasks s"
  "sv_running (on_context c f s) = sv_running s"
  "sv_io (on_context c f s) = sv_io s"
  "sv_contexts (on_context c f s) = (sv_contexts s)(c := f (sv_contexts s c))"
  by (simp_all add: on_context_def)

text \<open>The part of a context that orders its requests, and the part the tables index.\<close>

definition flow_of :: "ConnectionContext \<Rightarrow> bool \<times> string list \<times> int" where
  "flow_of c = (request_in_flight c, pending_requests c, pending_delivery_marks c)"

definition key_of :: "ConnectionContext \<Rightarrow> int \<times> userId" where
  "key_of c = (ctx_fd c, authenticated_user_id (meta c))"

lemma flow_of_frame [simp]:
  "flow_of (appendPendingSend d c) = flow_of c"
  "flow_of (consumePendingSend n c) = flow_of c"
  "flow_of (touchOnSend t n c) = flow_of c"
  "flow_of (touchOnRecv t n c) = flow_of c"
  "flow_of (setAuthenticatedUserId u c) = flow_of c"
  "flow_of (clearAuthenticatedUserId c) = flow_of c"
  by (simp_all add: flow_of_def ctx_defs)

lemma key_of_frame [simp]:
  "key_of (appendPendingSend d c) = key_of c"
  "key_of (consumePendingSend n c) = key_of c"
  "key_of (touchOnSend t n c) = key_of c"
  "key_of (touchOnRecv t n c) = key_of c"
  "key_of (clearPendingRequests c) = key_of c"
  "key_of (incrementPendingDeliveryMarks c) = key_of c"
  "key_of (decrementPendingDeliveryMarks c) = key_of c"
  by (simp_all add: key_of_def ctx_defs)

lemma feedPacketData_frame:
  "feedPacketData now c chunk [] = (fed, packets, c') \<Longrightarrow> flow_of c' = flow_of c \<and> key_of c' = key_of c"
  by (auto simp: feedPacketData_def Let_def flow_of_def key_of_def ctx_defs split: prod.splits if_splits)

lemma request_ops_key:
  "startRequestOrQueue r c = (b, c') \<Longrightarrow> key_of c' = key_of c"
  "finishRequestAndPopNext c = (n, c') \<Longrightarrow> key_of c' = key_of c"
  "popNextRequestIfIdle c = (n, c') \<Longrightarrow> key_of c' = key_of c"
  by (auto simp: key_of_def ctx_defs split: if_splits)

section \<open>Closing a connection\<close>

text \<open>What \<^verbatim>\<open>closeClientFd\<close> does to a connection of the table.\<close>

definition closed_context :: "ConnectionContext \<Rightarrow> ConnectionContext" where
  "closed_context = markClosed \<circ> closeConnection \<circ> clearPendingRequests \<circ> clearPendingSend \<circ> markClosing"

definition closed_server :: "connectionId \<Rightarrow> Server \<Rightarrow> Server" where
  "closed_server cid s =
     on_context cid closed_context (forget_authenticated (auth_user cid s) cid
       (s\<lparr>sv_fd_to_context := (sv_fd_to_context s)(ctx_fd (sv_contexts s cid) := None),
          sv_connections := sv_connections s - {cid}\<rparr>))"

lemma forget_authenticated_fields [simp]:
  "sv_contexts (forget_authenticated u c s) = sv_contexts s"
  "sv_connections (forget_authenticated u c s) = sv_connections s"
  "sv_fd_to_context (forget_authenticated u c s) = sv_fd_to_context s"
  "sv_timeout_scan_queue (forget_authenticated u c s) = sv_timeout_scan_queue s"
  "sv_next_conn_id (forget_authenticated u c s) = sv_next_conn_id s"
  "sv_stopping (forget_authenticated u c s) = sv_stopping s"
  "sv_worker_event_fd (forget_authenticated u c s) = sv_worker_event_fd s"
  "sv_event_ready (forget_authenticated u c s) = sv_event_ready s"
  "sv_completed_tasks (forget_authenticated u c s) = sv_completed_tasks s"
  "sv_post_delivery_events (forget_authenticated u c s) = sv_post_delivery_events s"
  "sv_remote_push_tasks (forget_authenticated u c s) = sv_remote_push_tasks s"
  "sv_push_state (forget_authenticated u c s) = sv_push_state s"
  "sv_push_outcome (forget_authenticated u c s) = sv_push_outcome s"
  "sv_next_ticket (forget_authenticated u c s) = sv_next_ticket s"
  "sv_pool_stopped (forget_authenticated u c s) = sv_pool_stopped s"
  "sv_pool_tasks (forget_authenticated u c s) = sv_pool_tasks s"
  "sv_running (forget_authenticated u c s) = sv_running s"
  "sv_io (forget_authenticated u c s) = sv_io s"
  by (simp_all add: forget_authenticated_def Let_def split: option.splits)

lemma forget_authenticated_on_context:
  "forget_authenticated u c (on_context d f s) = on_context d f (forget_authenticated u c s)"
  by (simp add: forget_authenticated_def on_context_def Let_def split: option.splits)

lemma unregisterConnection_eq:
  assumes "cid \<in> sv_connections s"
  shows "map_option (on_context cid (markClosed \<circ> closeConnection \<circ> clearPendingRequests \<circ> clearPendingSend))
           (unregisterConnection cid s) = Some (closed_server cid s)"
  using assms
  by (simp add: unregisterConnection_def closed_server_def Let_def auth_user_def on_context_def
      forget_authenticated_def closed_context_def ctx_defs comp_def split: option.splits)

lemma closeClientFd_eq:
  assumes "\<And>c. sv_fd_to_context s fd = Some c \<Longrightarrow> c \<in> sv_connections s"
  shows "closeClientFd h fd (s, w) =
    (case sv_fd_to_context s fd of None \<Rightarrow> (s, w) | Some cid \<Rightarrow> dispatchConnectionClosed h cid (closed_server cid s, w))"
proof (cases "sv_fd_to_context s fd")
  case None
  then show ?thesis by (simp add: closeClientFd_def getConnectionContextByFd_def)
next
  case (Some cid)
  from unregisterConnection_eq [OF assms [OF Some]] obtain s1 where "unregisterConnection cid s = Some s1"
    "on_context cid (markClosed \<circ> closeConnection \<circ> clearPendingRequests \<circ> clearPendingSend) s1 = closed_server cid s"
    by (auto simp: map_option_case split: option.splits)
  with Some show ?thesis by (simp add: closeClientFd_def getConnectionContextByFd_def)
qed

section \<open>The connection tables\<close>

definition tables_inv :: "Server \<Rightarrow> bool" where
  "tables_inv s \<longleftrightarrow>
     0 < sv_next_conn_id s \<and>
     (\<forall>c\<in>sv_connections s. 0 < c \<and> c < sv_next_conn_id s) \<and>
     (\<forall>fd c. sv_fd_to_context s fd = Some c \<longleftrightarrow> c \<in> sv_connections s \<and> ctx_fd (sv_contexts s c) = fd) \<and>
     (\<forall>c. if c \<in> sv_connections s then 0 \<le> ctx_fd (sv_contexts s c) else ctx_fd (sv_contexts s c) = - 1)"

definition members :: "userId \<Rightarrow> Server \<Rightarrow> connectionId list" where
  "members uid s = (case sv_authenticated s uid of None \<Rightarrow> [] | Some cs \<Rightarrow> cs)"

definition auth_inv :: "Server \<Rightarrow> bool" where
  "auth_inv s \<longleftrightarrow>
     (\<forall>uid. sv_authenticated s uid \<noteq> Some []) \<and> (\<forall>uid. distinct (members uid s)) \<and>
     (\<forall>uid c. c \<in> set (members uid s) \<longrightarrow> c \<in> sv_connections s \<and> auth_user c s = uid) \<and>
     (\<forall>c\<in>sv_connections s. auth_user c s \<noteq> 0 \<longrightarrow> c \<in> set (members (auth_user c s) s))"

definition scan_inv :: "Server \<Rightarrow> bool" where
  "scan_inv s \<longleftrightarrow>
     distinct (sv_timeout_scan_queue s) \<and> sv_connections s \<subseteq> set (sv_timeout_scan_queue s) \<and>
     (\<forall>c\<in>set (sv_timeout_scan_queue s). c < sv_next_conn_id s)"

definition index_inv :: "Server \<Rightarrow> bool" where
  "index_inv s \<longleftrightarrow> tables_inv s \<and> auth_inv s \<and> scan_inv s"

lemma members_forget [simp]:
  "members u (forget_authenticated v c s) = (if u = v then filter (\<lambda>d. d \<noteq> c) (members v s) else members u s)"
  by (auto simp: members_def forget_authenticated_def Let_def split: option.splits)

lemma ctx_fd_closed [simp]: "ctx_fd (closed_context c) = - 1"
  by (simp add: closed_context_def closeConnection_def ctx_defs tcp_close_def tcp_isValid_def)

lemma closed_server_fields [simp]:
  "sv_connections (closed_server c s) = sv_connections s - {c}"
  "sv_contexts (closed_server c s) = (sv_contexts s)(c := closed_context (sv_contexts s c))"
  "sv_fd_to_context (closed_server c s) = (sv_fd_to_context s)(ctx_fd (sv_contexts s c) := None)"
  "sv_timeout_scan_queue (closed_server c s) = sv_timeout_scan_queue s"
  "sv_next_conn_id (closed_server c s) = sv_next_conn_id s"
  "sv_stopping (closed_server c s) = sv_stopping s"
  "sv_worker_event_fd (closed_server c s) = sv_worker_event_fd s"
  "sv_event_ready (closed_server c s) = sv_event_ready s"
  "sv_completed_tasks (closed_server c s) = sv_completed_tasks s"
  "sv_post_delivery_events (closed_server c s) = sv_post_delivery_events s"
  "sv_remote_push_tasks (closed_server c s) = sv_remote_push_tasks s"
  "sv_push_state (closed_server c s) = sv_push_state s"
  "sv_push_outcome (closed_server c s) = sv_push_outcome s"
  "sv_next_ticket (closed_server c s) = sv_next_ticket s"
  "sv_pool_stopped (closed_server c s) = sv_pool_stopped s"
  "sv_pool_tasks (closed_server c s) = sv_pool_tasks s"
  "sv_running (closed_server c s) = sv_running s"
  "sv_io (closed_server c s) = sv_io s"
  by (simp_all add: closed_server_def)

lemma members_drop:
  assumes "auth_inv s"
  shows "members u (closed_server c s) = filter (\<lambda>d. d \<noteq> c) (members u s)"
proof -
  have "members u (closed_server c s) =
      (if u = auth_user c s then filter (\<lambda>d. d \<noteq> c) (members u s) else members u s)"
    unfolding closed_server_def members_def
    by (simp add: forget_authenticated_def Let_def split: option.splits)
  moreover have "filter (\<lambda>d. d \<noteq> c) (members u s) = members u s" if "u \<noteq> auth_user c s"
    using assms that unfolding auth_inv_def by (intro filter_True) blast
  ultimately show ?thesis by auto
qed


lemma authenticated_closed:
  assumes "auth_inv s"
  shows "sv_authenticated (closed_server c s) u \<noteq> Some []"
  using assms
  by (auto simp: closed_server_def forget_authenticated_def auth_inv_def Let_def split: option.splits)

lemma fd_unique:
  assumes "tables_inv s" "d \<in> sv_connections s" "ctx_fd (sv_contexts s d) = ctx_fd (sv_contexts s c)"
  shows "d = c"
proof -
  have "c \<in> sv_connections s"
    using assms unfolding tables_inv_def by (metis neg_0_le_iff_le not_one_le_zero)
  with assms have "sv_fd_to_context s (ctx_fd (sv_contexts s c)) = Some c"
    "sv_fd_to_context s (ctx_fd (sv_contexts s d)) = Some d"
    unfolding tables_inv_def by blast+
  with assms(3) show ?thesis by simp
qed

lemma index_inv_closed:
  assumes "index_inv s"
  shows "index_inv (closed_server c s)"
proof -
  have t: "tables_inv s" and a: "auth_inv s" and q: "scan_inv s"
    using assms by (simp_all add: index_inv_def)
  have "tables_inv (closed_server c s)"
    using t fd_unique [OF t] unfolding tables_inv_def by (auto split: if_splits)
  moreover have "auth_inv (closed_server c s)"
    using a authenticated_closed [OF a] unfolding auth_inv_def
    by (auto simp: members_drop [OF a] auth_user_def)
  moreover have "scan_inv (closed_server c s)"
    using q by (auto simp: scan_inv_def)
  ultimately show ?thesis by (simp add: index_inv_def)
qed

text \<open>A change of a context that keeps its key keeps the tables.\<close>

lemma index_inv_on_context:
  assumes "index_inv s" "key_of (f (sv_contexts s c)) = key_of (sv_contexts s c)"
  shows "index_inv (on_context c f s)"
proof -
  have "key_of (sv_contexts (on_context c f s) d) = key_of (sv_contexts s d)" for d
    using assms(2) by simp
  then have k: "ctx_fd (sv_contexts (on_context c f s) d) = ctx_fd (sv_contexts s d)"
    "auth_user d (on_context c f s) = auth_user d s" for d
    by (auto simp: key_of_def auth_user_def)
  have "index_inv (on_context c f s) = index_inv s"
    unfolding index_inv_def tables_inv_def auth_inv_def scan_inv_def members_def k on_context_fields(1-18) ..
  with assms(1) show ?thesis by simp
qed

lemma index_inv_pool [simp]:
  "index_inv (s\<lparr>sv_pool_tasks := ts\<rparr>) = index_inv s"
  "index_inv (s\<lparr>sv_running := ts\<rparr>) = index_inv s"
  "index_inv (s\<lparr>sv_io := p\<rparr>) = index_inv s"
  "index_inv (s\<lparr>sv_push_state := ps\<rparr>) = index_inv s"
  "index_inv (s\<lparr>sv_push_outcome := os\<rparr>) = index_inv s"
  "index_inv (s\<lparr>sv_event_ready := b\<rparr>) = index_inv s"
  "index_inv (s\<lparr>sv_stopping := b\<rparr>) = index_inv s"
  "index_inv (s\<lparr>sv_pool_stopped := b\<rparr>) = index_inv s"
  "index_inv (s\<lparr>sv_worker_event_fd := b\<rparr>) = index_inv s"
  "index_inv (s\<lparr>sv_completed_tasks := cts\<rparr>) = index_inv s"
  "index_inv (s\<lparr>sv_post_delivery_events := pes\<rparr>) = index_inv s"
  "index_inv (s\<lparr>sv_remote_push_tasks := pts\<rparr>) = index_inv s"
  "index_inv (s\<lparr>sv_next_ticket := n\<rparr>) = index_inv s"
  "index_inv (s\<lparr>sv_next_response_task_id := n\<rparr>) = index_inv s"
  by (simp_all add: index_inv_def tables_inv_def auth_inv_def scan_inv_def members_def auth_user_def)

lemma index_inv_submit: "submit task s = Some s' \<Longrightarrow> index_inv s' = index_inv s"
  by (auto simp: submit_def split: if_splits)

lemma index_inv_submitRequestTask: "submitRequestTask c ip r s = Some s' \<Longrightarrow> index_inv s' = index_inv s"
  by (auto simp: submitRequestTask_def dest: index_inv_submit split: if_splits)

lemma index_inv_enqueue:
  "index_inv (enqueuePostDeliveryEvent c b s) = index_inv s"
  "enqueueResponseTask task s = Some s' \<Longrightarrow> index_inv s' = index_inv s"
  by (auto simp: enqueuePostDeliveryEvent_def enqueueResponseTask_def notifyWorkerEventFd_def split: if_splits)

lemma index_inv_fd: "index_inv s \<Longrightarrow> sv_fd_to_context s fd = Some c \<Longrightarrow> c \<in> sv_connections s \<and> ctx_fd (sv_contexts s c) = fd"
  by (auto simp: index_inv_def tables_inv_def)

lemma closeClientFd_inv:
  assumes "index_inv s"
  shows "closeClientFd h fd (s, w) =
    (case sv_fd_to_context s fd of None \<Rightarrow> (s, w) | Some cid \<Rightarrow> dispatchConnectionClosed h cid (closed_server cid s, w))"
  by (rule closeClientFd_eq) (use index_inv_fd [OF assms] in blast)

lemma index_inv_closeClientFd:
  assumes "index_inv s"
  shows "index_inv (fst (closeClientFd h fd (s, w)))"
proof (cases "sv_fd_to_context s fd")
  case None
  then show ?thesis using assms by (simp add: closeClientFd_inv [OF assms])
next
  case (Some c)
  show ?thesis
    unfolding closeClientFd_inv [OF assms] Some
    by (auto simp: dispatchConnectionClosed_def index_inv_submit index_inv_closed [OF assms] split: option.splits)
qed

lemma members_unbind:
  assumes "auth_inv s"
  shows "members u (unbindAuthenticatedConnection c s) = filter (\<lambda>d. d \<noteq> c) (members u s)"
proof -
  have "members u (unbindAuthenticatedConnection c s) =
      (if u = auth_user c s then filter (\<lambda>d. d \<noteq> c) (members u s) else members u s)"
    unfolding unbindAuthenticatedConnection_def members_def
    by (simp add: forget_authenticated_def Let_def split: option.splits)
  moreover have "filter (\<lambda>d. d \<noteq> c) (members u s) = members u s" if "u \<noteq> auth_user c s"
    using assms that unfolding auth_inv_def by (intro filter_True) blast
  ultimately show ?thesis by auto
qed

lemma index_inv_unbind:
  assumes "index_inv s" "c \<in> sv_connections s"
  shows "index_inv (unbindAuthenticatedConnection c s)"
proof -
  let ?s = "unbindAuthenticatedConnection c s"
  have a: "auth_inv s" using assms by (simp add: index_inv_def)
  have key: "ctx_fd (sv_contexts ?s d) = ctx_fd (sv_contexts s d)"
    "auth_user d ?s = (if d = c then 0 else auth_user d s)" for d
    by (auto simp: unbindAuthenticatedConnection_def ctx_defs auth_user_def)
  note m = members_unbind [OF a]
  have n: "sv_authenticated ?s u \<noteq> Some []" for u
    using a by (auto simp: unbindAuthenticatedConnection_def forget_authenticated_def auth_inv_def Let_def split: option.splits)
  have [simp]: "sv_connections ?s = sv_connections s" "sv_fd_to_context ?s = sv_fd_to_context s"
    "sv_timeout_scan_queue ?s = sv_timeout_scan_queue s" "sv_next_conn_id ?s = sv_next_conn_id s"
    by (simp_all add: unbindAuthenticatedConnection_def)
  have "auth_inv ?s"
    using a n unfolding auth_inv_def by (auto simp: m key split: if_splits)
  then show ?thesis
    using assms(1) by (simp add: index_inv_def tables_inv_def scan_inv_def key)
qed


lemma index_inv_bind:
  assumes "index_inv s" "c \<in> sv_connections s"
  shows "index_inv (bindAuthenticatedConnection c uid s)"
proof -
  let ?t = "unbindAuthenticatedConnection c s"
  let ?s = "bindAuthenticatedConnection c uid s"
  have i: "index_inv ?t" by (rule index_inv_unbind [OF assms])
  then have a: "auth_inv ?t" by (simp add: index_inv_def)
  have out: "c \<notin> set (members u ?t)" for u
    using assms(1) by (simp add: members_unbind index_inv_def)
  have s: "?s = on_context c (setAuthenticatedUserId uid)
      (?t\<lparr>sv_authenticated := (sv_authenticated ?t)(uid \<mapsto> members uid ?t @ [c])\<rparr>)"
    using out [of uid] by (simp add: bindAuthenticatedConnection_def Let_def members_def [symmetric])
  have m: "members u ?s = (if u = uid then members uid ?t @ [c] else members u ?t)" for u
    by (simp add: s members_def)
  have key: "ctx_fd (sv_contexts ?s d) = ctx_fd (sv_contexts ?t d)"
    "auth_user d ?s = (if d = c then uid else auth_user d ?t)" for d
    by (auto simp: s ctx_defs auth_user_def)
  have [simp]: "sv_connections ?s = sv_connections ?t" "sv_fd_to_context ?s = sv_fd_to_context ?t"
    "sv_timeout_scan_queue ?s = sv_timeout_scan_queue ?t" "sv_next_conn_id ?s = sv_next_conn_id ?t"
    by (simp_all add: s)
  have c: "c \<in> sv_connections ?t" using assms(2) by (simp add: unbindAuthenticatedConnection_def)
  have "sv_authenticated ?s u \<noteq> Some []" for u
    using a by (auto simp: s auth_inv_def)
  then have "auth_inv ?s"
    using a c out unfolding auth_inv_def by (auto simp: m key)
  then show ?thesis
    using i by (simp add: index_inv_def tables_inv_def scan_inv_def key)
qed

lemma index_inv_register:
  assumes "index_inv s" "0 \<le> fd" "sv_fd_to_context s fd = None" "sv_next_conn_id s + 1 < 2 ^ 64"
  shows "index_inv (registerConnection now fd ip port s)"
proof -
  let ?c = "sv_next_conn_id s" and ?s = "registerConnection now fd ip port s"
  have t: "tables_inv s" and a: "auth_inv s" and q: "scan_inv s"
    using assms(1) by (simp_all add: index_inv_def)
  have new: "?c \<notin> sv_connections s" using t by (auto simp: tables_inv_def)
  have ctx: "sv_contexts ?s d = (if d = ?c then ConnectionContext_new \<lparr>conn_fd = fd, peer_ip = ip, peer_port = port\<rparr> ?c now
      else sv_contexts s d)" for d
    by (simp add: registerConnection_def Let_def)
  have [simp]: "sv_next_conn_id ?s = ?c + 1" "sv_connections ?s = insert ?c (sv_connections s)"
    "sv_fd_to_context ?s = (sv_fd_to_context s)(fd \<mapsto> ?c)" "sv_authenticated ?s = sv_authenticated s"
    "sv_timeout_scan_queue ?s = sv_timeout_scan_queue s @ [?c]" "members u ?s = members u s" for u
    using assms(4) by (simp_all add: registerConnection_def Let_def members_def)
  have key: "ctx_fd (sv_contexts ?s d) = (if d = ?c then fd else ctx_fd (sv_contexts s d))"
    "auth_user d ?s = (if d = ?c then 0 else auth_user d s)" for d
    by (simp_all add: ctx ConnectionContext_new_def ctx_fd_def auth_user_def)
  have "c \<in> sv_connections s \<Longrightarrow> ctx_fd (sv_contexts s c) \<noteq> fd" for c
    using t assms(3) unfolding tables_inv_def by (metis option.distinct(1))
  then have "tables_inv ?s"
    using t new assms(2) unfolding tables_inv_def by (auto simp: key less_Suc_eq)
  moreover have "auth_inv ?s"
    using a new unfolding auth_inv_def by (fastforce simp: key)
  moreover have "scan_inv ?s"
    using q unfolding scan_inv_def by (auto simp: less_Suc_eq)
  ultimately show ?thesis by (simp add: index_inv_def)
qed

section \<open>What the I/O thread leaves alone\<close>

text \<open>
  Between two looks at the queues the I/O thread only adds tasks to the pool and closes connections,
  each with one clean-up task. If it starts no request and sets no mark, only clean-up tasks are added
  and the request state of the connections that stay open is the same.
\<close>

fun cleanups :: "worker_task list \<Rightarrow> connectionId list" where
  "cleanups [] = []"
| "cleanups (CleanupTask c # ts) = c # cleanups ts"
| "cleanups (_ # ts) = cleanups ts"

lemma cleanups_append [simp]: "cleanups (ts @ us) = cleanups ts @ cleanups us"
  by (induction ts rule: cleanups.induct) auto

lemma cleanups_map [simp]: "cleanups (map CleanupTask cs) = cs"
  by (induction cs) auto

definition same_queues :: "Server \<Rightarrow> Server \<Rightarrow> bool" where
  "same_queues s s' \<longleftrightarrow>
     sv_stopping s' = sv_stopping s \<and> sv_worker_event_fd s' = sv_worker_event_fd s \<and>
     sv_event_ready s' = sv_event_ready s \<and> sv_next_conn_id s' = sv_next_conn_id s \<and>
     sv_completed_tasks s' = sv_completed_tasks s \<and> sv_post_delivery_events s' = sv_post_delivery_events s \<and>
     sv_remote_push_tasks s' = sv_remote_push_tasks s \<and> sv_push_state s' = sv_push_state s \<and>
     sv_push_outcome s' = sv_push_outcome s \<and> sv_next_ticket s' = sv_next_ticket s \<and>
     sv_pool_stopped s' = sv_pool_stopped s \<and> sv_running s' = sv_running s \<and> sv_io s' = sv_io s"

definition busy :: "Server \<Rightarrow> Server \<Rightarrow> bool" where
  "busy s s' \<longleftrightarrow> same_queues s s' \<and>
     (\<exists>ts. sv_pool_tasks s' = sv_pool_tasks s @ ts \<and> distinct (cleanups ts) \<and>
        set (cleanups ts) \<subseteq> sv_connections s \<and> sv_connections s' = sv_connections s - set (cleanups ts))"

definition quiet :: "Server \<Rightarrow> Server \<Rightarrow> bool" where
  "quiet s s' \<longleftrightarrow> busy s s' \<and>
     (\<exists>cs. sv_pool_tasks s' = sv_pool_tasks s @ map CleanupTask cs) \<and>
     (\<forall>c\<in>sv_connections s'. flow_of (sv_contexts s' c) = flow_of (sv_contexts s c))"

lemma same_queues_trans: "same_queues s t \<Longrightarrow> same_queues t u \<Longrightarrow> same_queues s u"
  by (simp add: same_queues_def)

lemma busy_refl: "busy s s"
  by (simp add: busy_def same_queues_def exI [of _ "[]"])

lemma busy_trans:
  assumes "busy s t" "busy t u"
  shows "busy s u"
proof -
  obtain ts where ts: "sv_pool_tasks t = sv_pool_tasks s @ ts" "distinct (cleanups ts)"
    "set (cleanups ts) \<subseteq> sv_connections s" "sv_connections t = sv_connections s - set (cleanups ts)"
    using assms(1) unfolding busy_def by blast
  obtain us where us: "sv_pool_tasks u = sv_pool_tasks t @ us" "distinct (cleanups us)"
    "set (cleanups us) \<subseteq> sv_connections t" "sv_connections u = sv_connections t - set (cleanups us)"
    using assms(2) unfolding busy_def by blast
  have "\<exists>vs. sv_pool_tasks u = sv_pool_tasks s @ vs \<and> distinct (cleanups vs) \<and>
      set (cleanups vs) \<subseteq> sv_connections s \<and> sv_connections u = sv_connections s - set (cleanups vs)"
    using ts us by (intro exI [of _ "ts @ us"]) auto
  then show ?thesis
    using assms same_queues_trans [of s t u] unfolding busy_def by blast
qed

lemma busy_pool_stopped: "busy s t \<Longrightarrow> sv_pool_stopped t = sv_pool_stopped s"
  by (simp add: busy_def same_queues_def)

lemma busy_connections: "busy s t \<Longrightarrow> sv_connections t \<subseteq> sv_connections s"
  by (auto simp: busy_def)

lemma quiet_refl: "quiet s s"
  by (auto simp: quiet_def busy_refl intro: exI [of _ "[]"])

lemma quiet_trans:
  assumes "quiet s t" "quiet t u"
  shows "quiet s u"
proof -
  obtain cs where "sv_pool_tasks t = sv_pool_tasks s @ map CleanupTask cs"
    using assms(1) unfolding quiet_def by blast
  moreover obtain ds where "sv_pool_tasks u = sv_pool_tasks t @ map CleanupTask ds"
    using assms(2) unfolding quiet_def by blast
  ultimately have "\<exists>es. sv_pool_tasks u = sv_pool_tasks s @ map CleanupTask es"
    by (intro exI [of _ "cs @ ds"]) simp
  moreover have "sv_connections u \<subseteq> sv_connections t"
    using assms(2) by (auto simp: quiet_def dest: busy_connections)
  ultimately show ?thesis
    using assms busy_trans [of s t u] unfolding quiet_def by (metis subsetD)
qed

text \<open>The two relations for operations that rely on the tables and on a running pool.\<close>

definition still :: "Server \<Rightarrow> Server \<Rightarrow> bool" where
  "still s s' \<longleftrightarrow> (index_inv s \<and> \<not> sv_pool_stopped s \<longrightarrow> index_inv s' \<and> quiet s s')"

definition moves :: "Server \<Rightarrow> Server \<Rightarrow> bool" where
  "moves s s' \<longleftrightarrow> (index_inv s \<and> \<not> sv_pool_stopped s \<longrightarrow> index_inv s' \<and> busy s s')"

lemma still_refl [intro, simp]: "still s s"
  by (simp add: still_def quiet_refl)

lemma still_trans [trans]: "still s t \<Longrightarrow> still t u \<Longrightarrow> still s u"
  unfolding still_def using quiet_trans busy_pool_stopped quiet_def by metis

lemma still_moves: "still s t \<Longrightarrow> moves s t"
  by (simp add: still_def moves_def quiet_def)

lemma moves_refl [intro, simp]: "moves s s"
  by (simp add: still_moves)

lemma moves_trans [trans]: "moves s t \<Longrightarrow> moves t u \<Longrightarrow> moves s u"
  unfolding moves_def using busy_trans busy_pool_stopped by metis

lemma still_on_context:
  assumes "flow_of (f (sv_contexts s c)) = flow_of (sv_contexts s c)"
    and "key_of (f (sv_contexts s c)) = key_of (sv_contexts s c)"
  shows "still s (on_context c f s)"
  using assms index_inv_on_context [of s f c]
  by (auto simp: still_def quiet_def busy_def same_queues_def intro: exI [of _ "[]"])

lemma still_closeClientFd: "still s (fst (closeClientFd h fd (s, w)))"
proof -
  have "quiet s (fst (closeClientFd h fd (s, w)))" if i: "index_inv s" and p: "\<not> sv_pool_stopped s"
  proof (cases "sv_fd_to_context s fd")
    case None
    then show ?thesis by (simp add: closeClientFd_inv [OF i] quiet_refl)
  next
    case (Some c)
    with index_inv_fd [OF i] have "c \<in> sv_connections s" by blast
    with p Some show ?thesis
      by (auto simp: closeClientFd_inv [OF i] dispatchConnectionClosed_def submit_def quiet_def busy_def
          same_queues_def intro!: exI [of _ "[c]"])
  qed
  then show ?thesis by (simp add: still_def index_inv_closeClientFd)
qed

lemma still_bind:
  assumes "c \<in> sv_connections s"
  shows "still s (bindAuthenticatedConnection c uid s)" "still s (unbindAuthenticatedConnection c s)"
  using assms index_inv_bind index_inv_unbind
  by (auto simp: still_def quiet_def busy_def same_queues_def bindAuthenticatedConnection_def
      unbindAuthenticatedConnection_def Let_def intro: exI [of _ "[]"])


lemma still_write_loop: "still s (fst (write_loop h now ctl_ok fd cid answers (s, w)))"
proof (induction answers arbitrary: s)
  case Nil
  then show ?case by (simp add: still_closeClientFd)
next
  case (Cons a answers)
  show ?case
  proof (cases a)
    case (SentBytes n)
    have "still s (on_context cid (consumePendingSend n \<circ> touchOnSend now n) s)"
      by (rule still_on_context) simp_all
    from still_trans [OF this Cons.IH] SentBytes show ?thesis
      by (simp add: still_closeClientFd del: comp_apply)
  qed (simp_all add: still_closeClientFd)
qed

lemma still_onWritable: "still s (fst (onWritable h now ctl_ok fd answers (s, w)))"
  by (simp add: onWritable_def still_write_loop del: write_loop.simps split: option.split)

lemma still_hand_out_push: "still s (fst (fst (hand_out_push h ctl_ok cid push ((s, w), marks))))"
proof -
  have "still s (fst (closeClientFd h fd (on_context c (appendPendingSend d) s, w)))"
    "still s (on_context c (appendPendingSend d) s)" for fd c d
    by (rule still_trans [OF still_on_context still_closeClientFd] still_on_context; simp)+
  then show ?thesis
    by (simp add: hand_out_push_def Let_def split: option.split)
qed

lemma still_hand_out_pushes: "still s (fst (fst (hand_out_pushes h ctl i cid pushes ((s, w), marks))))"
proof (induction pushes arbitrary: i s w marks)
  case (Cons push pushes)
  obtain s1 w1 marks1 where one: "hand_out_push h (ctl i) cid push ((s, w), marks) = ((s1, w1), marks1)"
    by (metis prod.collapse)
  then have "still s s1" using still_hand_out_push [of s h "ctl i" cid push w marks] by simp
  from still_trans [OF this Cons.IH] one show ?case by simp
qed simp

lemma index_inv_requeue:
  assumes "index_inv s" "sv_timeout_scan_queue s = c # queue"
  shows "c \<notin> sv_connections s \<Longrightarrow> index_inv (s\<lparr>sv_timeout_scan_queue := queue\<rparr>)"
    and "index_inv (s\<lparr>sv_timeout_scan_queue := queue @ [c]\<rparr>)"
  using assms
  by (auto simp: index_inv_def scan_inv_def tables_inv_def auth_inv_def members_def auth_user_def)

lemma closeClientFd_queue:
  "closeClientFd h fd (s\<lparr>sv_timeout_scan_queue := q\<rparr>, w) =
     (case closeClientFd h fd (s, w) of (s', w') \<Rightarrow> (s'\<lparr>sv_timeout_scan_queue := q\<rparr>, w'))"
  by (simp add: closeClientFd_def getConnectionContextByFd_def unregisterConnection_def Let_def on_context_def
      forget_authenticated_def dispatchConnectionClosed_def submit_def auth_user_def split: option.splits)

lemma quiet_queue [simp]: "quiet s (s'\<lparr>sv_timeout_scan_queue := q\<rparr>) = quiet s s'"
  by (simp add: quiet_def busy_def same_queues_def)

definition scan_step ::
  "'w IMessageHandler \<Rightarrow> TcpServerTimeoutOptions \<Rightarrow> int \<Rightarrow> connectionId \<Rightarrow> connectionId list \<Rightarrow> 'w net \<Rightarrow> 'w net" where
  "scan_step h opts now cid queue = (\<lambda>(s, w).
     let s1 = s\<lparr>sv_timeout_scan_queue := queue\<rparr>
     in case getConnectionContextById cid s1 of
          None \<Rightarrow> (s1, w)
        | Some c \<Rightarrow>
            if timed_out opts now (sv_contexts s1 c) then closeClientFd h (ctx_fd (sv_contexts s1 c)) (s1, w)
            else (s1\<lparr>sv_timeout_scan_queue := sv_timeout_scan_queue s1 @ [cid]\<rparr>, w))"

lemma scan_timeouts_Suc:
  "scan_timeouts h opts now (Suc k) (s, w) =
     (case sv_timeout_scan_queue s of
        [] \<Rightarrow> (s, w)
      | cid # queue \<Rightarrow> scan_timeouts h opts now k (scan_step h opts now cid queue (s, w)))"
  by (simp add: scan_step_def Let_def split: list.split)

lemma still_scan_step:
  assumes "sv_timeout_scan_queue s = cid # queue"
  shows "still s (fst (scan_step h opts now cid queue (s, w)))"
proof -
  have "index_inv (fst (scan_step h opts now cid queue (s, w))) \<and> quiet s (fst (scan_step h opts now cid queue (s, w)))"
    if i: "index_inv s" and p: "\<not> sv_pool_stopped s"
  proof (cases "cid \<in> sv_connections s \<and> timed_out opts now (sv_contexts s cid)")
    case True
    let ?fd = "ctx_fd (sv_contexts s cid)"
    have fd: "sv_fd_to_context s ?fd = Some cid"
      using i True by (simp add: index_inv_def tables_inv_def)
    obtain s1 w1 where c: "closeClientFd h ?fd (s, w) = (s1, w1)" by fastforce
    have s1: "index_inv s1" "quiet s s1"
      using still_closeClientFd [of s h ?fd w] c i p by (simp_all add: still_def)
    have "sv_timeout_scan_queue s1 = cid # queue" "cid \<notin> sv_connections s1"
      using c assms p by (auto simp: closeClientFd_inv [OF i] fd dispatchConnectionClosed_def submit_def)
    with s1 have "index_inv (s1\<lparr>sv_timeout_scan_queue := queue\<rparr>)" by (simp add: index_inv_requeue)
    with True s1 c show ?thesis
      by (simp add: scan_step_def Let_def getConnectionContextById_def closeClientFd_queue)
  next
    case False
    then show ?thesis
      using index_inv_requeue [OF i assms]
      by (auto simp: scan_step_def Let_def getConnectionContextById_def quiet_refl split: if_splits)
  qed
  then show ?thesis by (simp add: still_def)
qed

lemma still_scan_timeouts: "still s (fst (scan_timeouts h opts now k (s, w)))"
proof (induction k arbitrary: s w)
  case (Suc k)
  show ?case
  proof (cases "sv_timeout_scan_queue s")
    case Nil
    then show ?thesis by simp
  next
    case (Cons cid queue)
    obtain s1 w1 where one: "scan_step h opts now cid queue (s, w) = (s1, w1)" by fastforce
    with still_scan_step [OF Cons, of h opts now w] have "still s s1" by simp
    from still_trans [OF this Suc.IH] show ?thesis
      by (simp only: scan_timeouts_Suc Cons list.case one)
  qed
qed simp

lemma still_scanConnectionTimeouts: "still s (fst (scanConnectionTimeouts h opts now (s, w)))"
  by (simp add: scanConnectionTimeouts_def still_scan_timeouts)

end
