(* ===== verification/ServerFlow.thy ===== *)
theory ServerFlow
  imports ServerTables
begin

text \<open>
  Requests, delivery marks and notifications of the epoll server over all interleavings. Each open
  connection with a request in flight has exactly one token somewhere between the pool, the queues and
  the I/O thread, and one without has none; a queued request of an idle connection waits for a mark
  that will wake it; a non-empty queue has been announced to the I/O thread.
\<close>

section \<open>Where the requests are\<close>

fun io_tasks :: "io_position \<Rightarrow> ResponseTask list" where
  "io_tasks (IoTasks ts) = ts"
| "io_tasks _ = []"

fun io_events :: "io_position \<Rightarrow> PostDeliveryEvent list" where
  "io_events (IoEvents es) = es"
| "io_events _ = []"

fun io_pushes :: "io_position \<Rightarrow> RemotePushTask list" where
  "io_pushes (IoRemote ts) = ts"
| "io_pushes _ = []"

fun serves :: "connectionId \<Rightarrow> worker_task \<Rightarrow> bool" where
  "serves c (RequestTask d ip r) = (d = c)"
| "serves c (MarkOwn u ms d) = (d = c)"
| "serves c _ = False"

fun fences :: "connectionId \<Rightarrow> worker_task \<Rightarrow> bool" where
  "fences c (MarkOther u ms d) = (d = c)"
| "fences c _ = False"

definition number :: "('a \<Rightarrow> bool) \<Rightarrow> 'a list \<Rightarrow> nat" where
  "number P xs = length (filter P xs)"

lemma tasks_number_simps [simp]:
  "number P [] = 0" "number P (x # xs) = of_bool (P x) + number P xs" "number P (xs @ ys) = number P xs + number P ys"
  by (simp_all add: number_def)

lemma number_remove1: "x \<in> set xs \<Longrightarrow> number P (remove1 x xs) + of_bool (P x) = number P xs"
  by (induction xs) auto

lemma Suc_of_bool [simp]: "Suc n = of_bool b \<longleftrightarrow> b \<and> n = 0"
  by (cases b) auto

lemma number_cleanup [simp]:
  "number (serves c) (map CleanupTask cs) = 0" "number (fences c) (map CleanupTask cs) = 0"
  by (induction cs) auto

text \<open>The tokens of a connection, the marks its fence waits for, and the events that will look at its
  queue again.\<close>

definition tokens :: "connectionId \<Rightarrow> Server \<Rightarrow> nat" where
  "tokens c s =
     number (serves c) (sv_pool_tasks s) + number (serves c) (sv_running s) +
     number (\<lambda>t. rt_conn_id t = c) (sv_completed_tasks s) + number (\<lambda>t. rt_conn_id t = c) (io_tasks (sv_io s)) +
     number (\<lambda>e. pe_conn_id e = c \<and> pe_finish_current_request e) (sv_post_delivery_events s) +
     number (\<lambda>e. pe_conn_id e = c \<and> pe_finish_current_request e) (io_events (sv_io s))"

definition marks :: "connectionId \<Rightarrow> Server \<Rightarrow> nat" where
  "marks c s = number (fences c) (sv_pool_tasks s) + number (fences c) (sv_running s)"

definition resumes :: "connectionId \<Rightarrow> Server \<Rightarrow> nat" where
  "resumes c s =
     number (\<lambda>t. t = ResumeTask c) (sv_running s) +
     number (\<lambda>e. pe_conn_id e = c \<and> \<not> pe_finish_current_request e) (sv_post_delivery_events s) +
     number (\<lambda>e. pe_conn_id e = c \<and> \<not> pe_finish_current_request e) (io_events (sv_io s))"

text \<open>The I/O thread may hold a token or an event itself while it processes an entry: the two numbers in
  front. Nothing refers to a connection id that has not been given out.\<close>

definition flow_ok :: "nat \<Rightarrow> nat \<Rightarrow> nat \<Rightarrow> nat \<Rightarrow> nat \<Rightarrow> bool \<times> string list \<times> int \<Rightarrow> bool" where
  "flow_ok token event ts ms rs = (\<lambda>(in_flight, pending, fence).
     ts + token = of_bool in_flight \<and> fence = int ms \<and>
     (\<not> in_flight \<and> pending \<noteq> [] \<longrightarrow> 0 < ms \<or> 0 < rs + event))"

definition flow_inv :: "(connectionId \<Rightarrow> nat) \<Rightarrow> (connectionId \<Rightarrow> nat) \<Rightarrow> Server \<Rightarrow> bool" where
  "flow_inv token event s \<longleftrightarrow> sv_stopping s \<or>
     (\<forall>c\<in>sv_connections s.
        flow_ok (token c) (event c) (tokens c s) (marks c s) (resumes c s) (flow_of (sv_contexts s c))) \<and>
     (\<forall>c. sv_next_conn_id s \<le> c \<longrightarrow> tokens c s + token c = 0 \<and> marks c s = 0)"

abbreviation none :: "connectionId \<Rightarrow> nat" where
  "none \<equiv> \<lambda>_. 0"

abbreviation one :: "connectionId \<Rightarrow> connectionId \<Rightarrow> nat" where
  "one cid \<equiv> \<lambda>c. of_bool (c = cid)"

lemma flow_inv_cong:
  assumes "flow_inv token event s"
    and "\<And>c. c \<in> sv_connections s \<Longrightarrow> token' c = token c" "\<And>c. c \<in> sv_connections s \<Longrightarrow> event' c = event c"
    and "\<And>c. token' c \<le> token c"
  shows "flow_inv token' event' s"
  using assms(1-3) by (auto simp: flow_inv_def dest: order.trans [OF assms(4)]) (metis assms(4) le_zero_eq)

lemma flow_inv_quiet:
  assumes "flow_inv token event s" "quiet s s'"
  shows "flow_inv token event s'"
proof -
  obtain cs where cs: "sv_pool_tasks s' = sv_pool_tasks s @ map CleanupTask cs"
    using assms(2) by (auto simp: quiet_def)
  have b: "busy s s'" and q: "same_queues s s'"
    using assms(2) by (auto simp: quiet_def busy_def)
  have "tokens c s' = tokens c s" "marks c s' = marks c s" "resumes c s' = resumes c s" for c
    using q by (simp_all add: tokens_def marks_def resumes_def cs same_queues_def)
  then show ?thesis
    using assms busy_connections [OF b] q
    by (auto simp: flow_inv_def quiet_def same_queues_def)
qed

text \<open>The state between two actions of the I/O thread.\<close>

definition sane :: "(connectionId \<Rightarrow> nat) \<Rightarrow> (connectionId \<Rightarrow> nat) \<Rightarrow> Server \<Rightarrow> bool" where
  "sane token event s \<longleftrightarrow> index_inv s \<and> \<not> sv_pool_stopped s \<and> flow_inv token event s"

text \<open>Actions of the I/O thread, with the tokens and events it holds before and after.\<close>

definition works ::
  "(connectionId \<Rightarrow> nat) \<Rightarrow> (connectionId \<Rightarrow> nat) \<Rightarrow> (connectionId \<Rightarrow> nat) \<Rightarrow> (connectionId \<Rightarrow> nat) \<Rightarrow>
   Server \<Rightarrow> Server \<Rightarrow> bool" where
  "works token event token' event' s s' \<longleftrightarrow> (sane token event s \<longrightarrow> sane token' event' s' \<and> busy s s')"

lemma works_trans:
  "works t1 e1 t2 e2 s s' \<Longrightarrow> works t2 e2 t3 e3 s' s'' \<Longrightarrow> works t1 e1 t3 e3 s s''"
  by (auto simp: works_def intro: busy_trans)

lemma works_still: "still s s' \<Longrightarrow> works token event token event s s'"
  using flow_inv_quiet [of token event s s']
  by (auto simp: works_def sane_def still_def quiet_def dest: busy_pool_stopped)

lemma works_refl: "works token event token event s s"
  by (simp add: works_still)

lemma works_cong:
  assumes "works token event token' event' s s'"
    and "\<And>c. c \<in> sv_connections s' \<Longrightarrow> token'' c = token' c" "\<And>c. c \<in> sv_connections s' \<Longrightarrow> event'' c = event' c"
    and "\<And>c. token'' c \<le> token' c"
  shows "works token event token'' event'' s s'"
  using assms flow_inv_cong [of token' event' s' token'' event''] by (auto simp: works_def sane_def)

text \<open>While the server is stopping there is nothing to keep track of.\<close>

lemma works_stopping:
  assumes "sv_stopping s" "moves s s'"
  shows "works token event token' event' s s'"
  using assms by (auto simp: works_def sane_def moves_def flow_inv_def busy_def same_queues_def)

section \<open>Starting requests\<close>

lemma submit_running [simp]: "\<not> sv_pool_stopped s \<Longrightarrow> submit task s = Some (s\<lparr>sv_pool_tasks := sv_pool_tasks s @ [task]\<rparr>)"
  by (simp add: submit_def)

lemma pool_tasks_self [simp]: "(on_context c f s)\<lparr>sv_pool_tasks := sv_pool_tasks s\<rparr> = on_context c f s"
  by (simp add: on_context_def)

lemma on_context_id [simp]: "on_context c (\<lambda>x. x) s = s"
  by (simp add: on_context_def)

text \<open>A change of one context and some new tasks, with the obligation on that connection alone.\<close>

lemma works_update:
  assumes "key_of (f (sv_contexts s cid)) = key_of (sv_contexts s cid)" "cleanups ts = []"
    and "\<And>c. c \<noteq> cid \<Longrightarrow> token' c = token c \<and> event' c = event c"
    and "\<not> sv_stopping s \<Longrightarrow> cid \<in> sv_connections s \<Longrightarrow>
      flow_ok (token cid) (event cid) (tokens cid s) (marks cid s) (resumes cid s) (flow_of (sv_contexts s cid)) \<Longrightarrow>
      flow_ok (token' cid) (event' cid) (tokens cid s + number (serves cid) ts) (marks cid s + number (fences cid) ts)
        (resumes cid s) (flow_of (f (sv_contexts s cid)))"
    and "\<And>c. c \<noteq> cid \<Longrightarrow> number (serves c) ts = 0 \<and> number (fences c) ts = 0"
    and "0 < token cid \<and> token' cid = 0 \<or> cid \<in> sv_connections s"
  shows "works token event token' event' s ((on_context cid f s)\<lparr>sv_pool_tasks := sv_pool_tasks s @ ts\<rparr>)"
    (is "works _ _ _ _ s ?s")
proof -
  have counts: "tokens c ?s = tokens c s + number (serves c) ts" "marks c ?s = marks c s + number (fences c) ts"
    "resumes c ?s = resumes c s" for c
    by (simp_all add: tokens_def marks_def resumes_def)
  have "flow_inv token' event' ?s" if i: "index_inv s" and f: "flow_inv token event s"
  proof (cases "sv_stopping s")
    case True
    then show ?thesis by (simp add: flow_inv_def)
  next
    case False
    have "flow_ok (token' c) (event' c) (tokens c ?s) (marks c ?s) (resumes c ?s) (flow_of (sv_contexts ?s c))"
      if "c \<in> sv_connections s" for c
      unfolding counts using f False that assms(3-5) by (cases "c = cid") (auto simp: flow_inv_def)
    moreover have "tokens c ?s + token' c = 0 \<and> marks c ?s = 0" if c: "sv_next_conn_id s \<le> c" for c
    proof -
      have z: "tokens c s + token c = 0 \<and> marks c s = 0" using f False c by (simp add: flow_inv_def)
      have "c \<notin> sv_connections s" using i c by (auto simp: index_inv_def tables_inv_def)
      with z assms(6) have "c \<noteq> cid" by auto
      with z assms(3,5) show ?thesis by (simp add: counts)
    qed
    ultimately show ?thesis by (simp add: flow_inv_def)
  qed
  moreover have "busy s ?s"
    using assms(2) by (simp add: busy_def same_queues_def)
  ultimately show ?thesis
    using assms(1) by (simp add: works_def sane_def index_inv_on_context)
qed

lemmas works_context = works_update [where ts = "[]", simplified]

lemma works_submitRequestTask:
  assumes "submitRequestTask cid ip r (on_context cid f s) = Some s'" "\<not> sv_pool_stopped s"
    and "key_of (f (sv_contexts s cid)) = key_of (sv_contexts s cid)"
    and "\<And>c. c \<noteq> cid \<Longrightarrow> token' c = token c \<and> event' c = event c"
    and "\<not> sv_stopping s \<Longrightarrow> cid \<in> sv_connections s \<Longrightarrow>
      flow_ok (token cid) (event cid) (tokens cid s) (marks cid s) (resumes cid s) (flow_of (sv_contexts s cid)) \<Longrightarrow>
      flow_ok (token' cid) (event' cid) (tokens cid s + 1) (marks cid s) (resumes cid s) (flow_of (f (sv_contexts s cid)))"
    and "0 < token cid \<and> token' cid = 0 \<or> cid \<in> sv_connections s"
  shows "works token event token' event' s s'"
proof -
  have "s' = (on_context cid f s)\<lparr>sv_pool_tasks := sv_pool_tasks s @ [RequestTask cid ip r]\<rparr>"
    using assms(1,2) by (simp add: submitRequestTask_def split: if_splits)
  moreover have "works token event token' event' s
      ((on_context cid f s)\<lparr>sv_pool_tasks := sv_pool_tasks s @ [RequestTask cid ip r]\<rparr>)"
    by (rule works_update) (use assms(3-6) in simp_all)
  ultimately show ?thesis by simp
qed


lemma sane_running: "sane token event s \<Longrightarrow> \<not> sv_pool_stopped s"
  by (simp add: sane_def)

lemma worksI: "(\<not> sv_pool_stopped s \<Longrightarrow> works token event token' event' s s') \<Longrightarrow> works token event token' event' s s'"
  by (auto simp: works_def sane_def)

lemma submitRequestTask_None: "submitRequestTask cid ip r s = None \<Longrightarrow> \<not> sv_pool_stopped s \<Longrightarrow> sv_stopping s"
  by (simp add: submitRequestTask_def split: if_splits)

text \<open>A request that could not be submitted closes its connection; the server is then stopping.\<close>

lemma works_rejected:
  assumes "sv_stopping s" "key_of (f (sv_contexts s cid)) = key_of (sv_contexts s cid)"
  shows "works token event token' event' s (fst (closeClientFd h fd (on_context cid f s, w)))"
proof -
  have "moves s (on_context cid f s)"
    using assms(2) by (simp add: moves_def index_inv_on_context busy_def same_queues_def)
  then show ?thesis
    by (rule works_stopping [OF assms(1) moves_trans [OF _ still_moves [OF still_closeClientFd]]])
qed

lemma works_start_packet:
  assumes "startRequestOrQueue p (sv_contexts s cid) = (start, c')" "\<not> sv_pool_stopped s" "cid \<in> sv_connections s"
  shows "\<not> start \<Longrightarrow> works none none none none s (on_context cid (\<lambda>_. c') s)"
    and "start \<Longrightarrow> submitRequestTask cid ip p (on_context cid (\<lambda>_. c') s) = Some s' \<Longrightarrow>
      works none none none none s s'"
proof -
  have key: "key_of c' = key_of (sv_contexts s cid)" by (rule request_ops_key(1) [OF assms(1)])
  show "works none none none none s (on_context cid (\<lambda>_. c') s)" if "\<not> start"
    by (rule works_context) (use assms(1,3) that key in \<open>auto simp: flow_ok_def flow_of_def ctx_defs split: if_splits\<close>)
  show "works none none none none s s'"
    if "start" "submitRequestTask cid ip p (on_context cid (\<lambda>_. c') s) = Some s'"
    by (rule works_submitRequestTask [OF that(2) assms(2)])
       (use assms(1,3) that(1) key in \<open>auto simp: flow_ok_def flow_of_def ctx_defs split: if_splits\<close>)
qed

lemma submitRequestTask_connections:
  "submitRequestTask cid ip r s = Some s' \<Longrightarrow> sv_connections s' = sv_connections s"
  by (auto simp: submitRequestTask_def submit_def split: if_splits)

lemma start_packets_open:
  "start_packets h fd cid packets (s, w) = (False, s', w') \<Longrightarrow> sv_connections s' = sv_connections s"
  by (induction packets arbitrary: s)
     (auto simp: Let_def split: if_splits prod.splits option.splits dest!: submitRequestTask_connections)

lemma works_start_packets:
  "cid \<in> sv_connections s \<Longrightarrow> works none none none none s (fst (snd (start_packets h fd cid packets (s, w))))"
proof (induction packets arbitrary: s)
  case Nil
  show ?case by (simp add: works_refl)
next
  case (Cons p packets)
  show ?case
  proof (rule worksI)
    assume run: "\<not> sv_pool_stopped s"
    obtain start c' where st: "startRequestOrQueue p (sv_contexts s cid) = (start, c')" by fastforce
    let ?s1 = "on_context cid (\<lambda>_. c') s" and ?ip = "meta_peer_ip (meta (sv_contexts s cid))"
    show "works none none none none s (fst (snd (start_packets h fd cid (p # packets) (s, w))))"
    proof (cases "p = []")
      case True
      then show ?thesis using Cons by simp
    next
      case False
      show ?thesis
      proof (cases "start \<and> submitRequestTask cid ?ip p ?s1 = None")
        case True
        then have "sv_stopping s" using submitRequestTask_None [of cid ?ip p ?s1] run by simp
        with works_rejected [of s "\<lambda>_. c'" cid none none none none h fd w] request_ops_key(1) [OF st] True False st
        show ?thesis by (simp add: Let_def)
      next
        case ok: False
        show ?thesis
        proof (cases start)
          case True
          with ok obtain s2 where s2: "submitRequestTask cid ?ip p ?s1 = Some s2" by auto
          then have "cid \<in> sv_connections s2" using Cons.prems submitRequestTask_connections by fastforce
          from works_trans [OF works_start_packet(2) [OF st run Cons.prems True s2] Cons.IH [OF this]]
          show ?thesis using True False st s2 by (simp add: Let_def)
        next
          case no: False
          with works_trans [OF works_start_packet(1) [OF st run Cons.prems] Cons.IH] False st Cons.prems
          show ?thesis by (simp add: Let_def)
        qed
      qed
    qed
  qed
qed

lemma works_read_loop:
  "cid \<in> sv_connections s \<Longrightarrow> works none none none none s (fst (read_loop h now fd cid answers (s, w)))"
proof (induction answers arbitrary: s w)
  case Nil
  show ?case by (simp add: works_refl)
next
  case (Cons a answers)
  show ?case
  proof (cases a)
    case (RecvBytes chunk)
    obtain ok1 packets c2 where feed:
      "feedPacketData now (touchOnRecv now (length chunk) (sv_contexts s cid)) chunk [] = (ok1, packets, c2)"
      by (metis prod.exhaust)
    have "still s (on_context cid (\<lambda>_. c2) s)"
      by (rule still_on_context) (use feedPacketData_frame [OF feed] in simp_all)
    then have one: "works none none none none s (on_context cid (\<lambda>_. c2) s)" by (rule works_still)
    obtain closed s3 w3 where ps: "start_packets h fd cid packets (on_context cid (\<lambda>_. c2) s, w) = (closed, s3, w3)"
      by (metis prod.exhaust)
    have two: "works none none none none s s3"
      using works_trans [OF one works_start_packets [of cid _ h fd packets w]] ps Cons.prems by simp
    show ?thesis
      using works_trans [OF one works_still [OF still_closeClientFd [of _ h fd w]]] two
        works_trans [OF two Cons.IH [of s3 w3]] RecvBytes feed ps Cons.prems
        start_packets_open [of h fd cid packets "on_context cid (\<lambda>_. c2) s" w s3 w3]
      by (cases closed) (simp_all add: Let_def)
  qed (simp_all add: works_refl works_still [OF still_closeClientFd])
qed

lemma works_onReadable: "works none none none none s (fst (onReadable h now fd answers (s, w)))"
proof (cases "sv_fd_to_context s fd")
  case (Some cid)
  have "works none none none none s (fst (read_loop h now fd cid answers (s, w)))" if "index_inv s"
    using index_inv_fd [OF that Some] by (simp add: works_read_loop)
  with Some show ?thesis by (auto simp: onReadable_def getConnectionContextByFd_def works_def sane_def)
qed (simp add: onReadable_def getConnectionContextByFd_def works_refl)

lemma works_client_event:
  "works none none none none s (fst (client_event h now ctl_ok fd ev received sent (s, w)))"
proof -
  define n1 where "n1 = (if ev_in ev then onReadable h now fd received (s, w) else (s, w))"
  define n2 where "n2 = (if ev_out ev then onWritable h now ctl_ok fd sent n1 else n1)"
  have 1: "works none none none none s (fst n1)"
    by (simp add: n1_def works_refl works_onReadable)
  have 2: "works none none none none (fst n1) (fst n2)"
    by (cases n1) (simp add: n2_def works_still still_onWritable)
  have 3: "works none none none none (fst n2) (fst (closeClientFd h fd n2))"
    by (cases n2) (simp add: works_still still_closeClientFd)
  show ?thesis
    using works_trans [OF 1 2] works_trans [OF works_trans [OF 1 2] 3]
    by (simp add: client_event_def n1_def [symmetric] n2_def [symmetric] Let_def works_still still_closeClientFd)
qed

section \<open>Finishing requests\<close>

text \<open>Finishing gives up the token of the connection, resuming the event.\<close>

lemma works_finish:
  assumes "finishCurrentRequestAndSubmitNext cid s = (submitted, s')"
  shows "submitted \<Longrightarrow> works (one cid) none none none s s'"
    and "\<not> submitted \<Longrightarrow> works (one cid) none none none s (fst (closeClientFd h fd (s', w)))"
proof -
  obtain popped c' where pop: "finishRequestAndPopNext (sv_contexts s cid) = (popped, c')" by fastforce
  have key: "key_of c' = key_of (sv_contexts s cid)" by (rule request_ops_key(2) [OF pop])
  have none: "works (one cid) none none none s (on_context cid (\<lambda>_. c') s)" if "popped = None"
    by (rule works_context) (use pop that key in \<open>auto simp: flow_ok_def flow_of_def ctx_defs split: if_splits\<close>)
  have some: "works (one cid) none none none s s2"
    if "popped = Some r" "submitRequestTask cid ip r (on_context cid (\<lambda>_. c') s) = Some s2" "\<not> sv_pool_stopped s" for r ip s2
    by (rule works_submitRequestTask [OF that(2,3)])
       (use pop that(1) key in \<open>auto simp: flow_ok_def flow_of_def ctx_defs split: if_splits\<close>)
  show "works (one cid) none none none s s'" if "submitted"
    by (rule worksI)
       (use assms that none some pop in \<open>auto simp: finishCurrentRequestAndSubmitNext_def start_next_def Let_def
          split: option.splits\<close>)
  show "works (one cid) none none none s (fst (closeClientFd h fd (s', w)))" if no: "\<not> submitted"
  proof (rule worksI)
    assume run: "\<not> sv_pool_stopped s"
    with assms no pop have stop: "sv_stopping s" and s': "s' = on_context cid (\<lambda>_. clearPendingRequests c') s"
      by (auto simp: finishCurrentRequestAndSubmitNext_def start_next_def Let_def on_context_def
          split: option.splits dest: submitRequestTask_None)
    show "works (one cid) none none none s (fst (closeClientFd h fd (s', w)))"
      unfolding s' by (rule works_rejected [OF stop]) (simp add: key)
  qed
qed


lemma works_resume:
  assumes "submitNextQueuedRequestIfIdle cid s = (submitted, s')" "cid \<in> sv_connections s"
  shows "submitted \<Longrightarrow> works none (one cid) none none s s'"
    and "\<not> submitted \<Longrightarrow> works none (one cid) none none s (fst (closeClientFd h fd (s', w)))"
proof -
  obtain popped c' where pop: "popNextRequestIfIdle (sv_contexts s cid) = (popped, c')" by fastforce
  have key: "key_of c' = key_of (sv_contexts s cid)" by (rule request_ops_key(3) [OF pop])
  have none: "works none (one cid) none none s (on_context cid (\<lambda>_. c') s)" if "popped = None"
    by (rule works_context) (use pop that key assms(2) in \<open>auto simp: flow_ok_def flow_of_def ctx_defs split: if_splits\<close>)
  have some: "works none (one cid) none none s s2"
    if "popped = Some r" "submitRequestTask cid ip r (on_context cid (\<lambda>_. c') s) = Some s2" "\<not> sv_pool_stopped s" for r ip s2
    by (rule works_submitRequestTask [OF that(2,3)])
       (use pop that(1) key assms(2) in \<open>auto simp: flow_ok_def flow_of_def ctx_defs split: if_splits\<close>)
  show "works none (one cid) none none s s'" if "submitted"
    by (rule worksI)
       (use assms(1) that none some pop in \<open>auto simp: submitNextQueuedRequestIfIdle_def start_next_def Let_def
          split: option.splits\<close>)
  show "works none (one cid) none none s (fst (closeClientFd h fd (s', w)))" if no: "\<not> submitted"
  proof (rule worksI)
    assume run: "\<not> sv_pool_stopped s"
    with assms(1) no pop have stop: "sv_stopping s" and s': "s' = on_context cid (\<lambda>_. clearPendingRequests c') s"
      by (auto simp: submitNextQueuedRequestIfIdle_def start_next_def Let_def on_context_def
          split: option.splits dest: submitRequestTask_None)
    show "works none (one cid) none none s (fst (closeClientFd h fd (s', w)))"
      unfolding s' by (rule works_rejected [OF stop]) (simp add: key)
  qed
qed

text \<open>A mark for the connection itself takes over its token; a mark for another one raises its fence.\<close>

lemma works_mark_own:
  assumes "mark_own uid mids cid s = (deferred, s')" "\<not> sv_pool_stopped s"
  shows "deferred \<and> works (one cid) none none none s s'"
proof -
  have s': "s' = (on_context cid (\<lambda>x. x) s)\<lparr>sv_pool_tasks := sv_pool_tasks s @ [MarkOwn uid mids cid]\<rparr>" and "deferred"
    using assms by (auto simp: mark_own_def)
  moreover have "works (one cid) none none none s s'"
    unfolding s' by (rule works_update) (auto simp: flow_ok_def)
  ultimately show ?thesis by simp
qed

lemma works_mark_other: "works token none token none s (mark_other entry s)"
proof (rule worksI)
  assume run: "\<not> sv_pool_stopped s"
  obtain target mids uid where e: "entry = (target, mids, uid)" by (metis prod.exhaust)
  show "works token none token none s (mark_other entry s)"
  proof (cases "target \<in> sv_connections s")
    case False
    then show ?thesis by (simp add: e mark_other_def getConnectionContextById_def works_refl)
  next
    case True
    have "mark_other entry s =
        (on_context target incrementPendingDeliveryMarks s)\<lparr>sv_pool_tasks := sv_pool_tasks s @ [MarkOther uid mids target]\<rparr>"
      using True run by (simp add: e mark_other_def getConnectionContextById_def Let_def)
    moreover have "works token none token none s
        ((on_context target incrementPendingDeliveryMarks s)\<lparr>sv_pool_tasks := sv_pool_tasks s @ [MarkOther uid mids target]\<rparr>)"
      by (rule works_update) (use True in \<open>auto simp: flow_ok_def flow_of_def key_of_def ctx_defs\<close>)
    ultimately show ?thesis by simp
  qed
qed

lemma works_fold_mark_other: "works token none token none s (fold mark_other entries s)"
proof (induction entries arbitrary: s)
  case (Cons e es)
  from works_trans [OF works_mark_other Cons.IH] show ?case by simp
qed (simp add: works_refl)

section \<open>Processing the queues\<close>

text \<open>What the handler promises of a result: it does not ask for both kinds of own marks, and a session
  action comes with a response.\<close>

definition wf_task :: "ResponseTask \<Rightarrow> bool" where
  "wf_task t \<longleftrightarrow> (rt_delivered_message_ids t = [] \<or> rt_pushes t = []) \<and>
     (rt_session_action t \<noteq> NONE \<longrightarrow> rt_response t \<noteq> [])"

lemma hand_out_pushes_Nil_marks: "pushes = [] \<Longrightarrow> hand_out_pushes h ctl i cid pushes acc = acc"
  by simp

lemma works_finish_or_close:
  "works (one cid) none none none s
     (fst (case finishCurrentRequestAndSubmitNext cid s of
        (submitted, s') \<Rightarrow> if submitted then (s', w) else closeClientFd h (ctx_fd (sv_contexts s' cid)) (s', w)))"
  using works_finish by (auto split: prod.split)

lemma works_resume_or_close:
  "cid \<in> sv_connections s \<Longrightarrow> works none (one cid) none none s
     (fst (case submitNextQueuedRequestIfIdle cid s of
        (submitted, s') \<Rightarrow> if submitted then (s', w) else closeClientFd h (ctx_fd (sv_contexts s' cid)) (s', w)))"
  using works_resume by (auto split: prod.split)

lemma still_session_action:
  assumes "rt_session_action task \<noteq> NONE \<longrightarrow> rt_conn_id task \<in> sv_connections s"
  shows "still s (fst (apply_session_action h task (s, w)))"
  using assms by (cases "rt_session_action task") (auto simp: apply_session_action_def still_bind)

lemma works_finish_response:
  assumes "deferred \<Longrightarrow> rt_pushes task = []"
    and "rt_session_action task \<noteq> NONE \<longrightarrow> rt_conn_id task \<in> sv_connections s"
  shows "works (if deferred then none else one (rt_conn_id task)) none none none s
    (fst (finish_response h ctl task deferred (s, w)))"
proof -
  let ?cid = "rt_conn_id task" and ?start = "\<lparr>cm_own = [], cm_own_user = 0, cm_other = []\<rparr>"
  obtain s0 w0 where a: "apply_session_action h task (s, w) = (s0, w0)" by fastforce
  obtain s1 w1 ms where p: "hand_out_pushes h ctl 1 ?cid (rt_pushes task) ((s0, w0), ?start) = ((s1, w1), ms)"
    by (metis prod.exhaust)
  define s2 where "s2 = fold mark_other (cm_other ms) s1"
  have "still s s0" using still_session_action [OF assms(2), of h w] a by simp
  moreover have "still s0 s1"
    using still_hand_out_pushes [of s0 h ctl 1 ?cid "rt_pushes task" w0 ?start] p by simp
  ultimately have 1: "works T none T none s s2" for T
    unfolding s2_def by (intro works_trans [OF works_still works_fold_mark_other] still_trans [of s s0 s1])
  have own: "deferred \<Longrightarrow> cm_own ms = []" using assms(1) p by auto
  show ?thesis
  proof (cases "sv_pool_stopped s2")
    case True
    then have "\<not> sane T none s2" for T by (simp add: sane_def)
    with 1 show ?thesis by (simp add: works_def)
  next
    case run: False
    show ?thesis
    proof (cases "cm_own ms = []")
      case True
      then show ?thesis
        using works_trans [OF 1 works_finish_or_close [of ?cid s2 w1 h]] 1 a p
        by (cases deferred) (simp_all add: finish_response_def Let_def s2_def)
    next
      case False
      obtain d s3 where m: "mark_own (cm_own_user ms) (cm_own ms) ?cid s2 = (d, s3)" by fastforce
      have "d" "works (one ?cid) none none none s s3" "\<not> deferred"
        using works_mark_own [OF m run] works_trans [OF 1, of "one ?cid"] own False by auto
      with a p m False show ?thesis by (simp add: finish_response_def Let_def s2_def)
    qed
  qed
qed


lemma works_close: "works token event token event s (fst (closeClientFd h fd (s, w)))"
  by (rule works_still [OF still_closeClientFd])

text \<open>A token of a connection that is no longer open does not count.\<close>

lemma works_drop:
  assumes "works (one cid) none (one cid) none s s'" "cid \<notin> sv_connections s'"
  shows "works (one cid) none none none s s'"
  by (rule works_cong [OF assms(1)]) (use assms(2) in auto)

lemma closeClientFd_closes:
  assumes "sane token event s"
  shows "cid \<notin> sv_connections (fst (closeClientFd h (ctx_fd (sv_contexts s cid)) (s, w)))"
proof -
  have i: "index_inv s" and p: "\<not> sv_pool_stopped s" using assms by (simp_all add: sane_def)
  show ?thesis
  proof (cases "cid \<in> sv_connections s")
    case True
    with i have "sv_fd_to_context s (ctx_fd (sv_contexts s cid)) = Some cid"
      by (simp add: index_inv_def tables_inv_def)
    with p show ?thesis by (simp add: closeClientFd_inv [OF i] dispatchConnectionClosed_def)
  next
    case False
    then show ?thesis
      using i p by (auto simp: closeClientFd_inv [OF i] dispatchConnectionClosed_def split: option.split)
  qed
qed

lemma works_close_token:
  "works (one cid) none none none s (fst (closeClientFd h (ctx_fd (sv_contexts s cid)) (s, w)))"
proof -
  have "works (one cid) none none none s (fst (closeClientFd h (ctx_fd (sv_contexts s cid)) (s, w)))"
    if "sane (one cid) none s"
    by (rule works_drop [OF works_close closeClientFd_closes [OF that]])
  then show ?thesis by (auto simp: works_def)
qed

lemma works_process_response:
  assumes "wf_task task"
  shows "works (one (rt_conn_id task)) none none none s (fst (process_response h ctl locked task (s, w)))"
proof (rule worksI)
  let ?cid = "rt_conn_id task"
  assume run: "\<not> sv_pool_stopped s"
  let ?fd = "ctx_fd (sv_contexts s ?cid)"
  let ?s1 = "on_context ?cid (appendPendingSend (encode (rt_response task))) s"
  have s1: "works (one ?cid) none (one ?cid) none s ?s1"
    by (rule works_still [OF still_on_context]) simp_all
  have fd: "ctx_fd (appendPendingSend d c) = ctx_fd c" for d c by (simp add: ctx_defs)
  consider (gone) "?cid \<notin> sv_connections s" "\<not> locked"
    | (close) "?cid \<in> sv_connections s \<or> locked" "rt_close_after task"
    | (silent) "?cid \<in> sv_connections s \<or> locked" "\<not> rt_close_after task" "rt_response task = []"
    | (refused) "?cid \<in> sv_connections s \<or> locked" "\<not> rt_close_after task" "rt_response task \<noteq> []"
        "\<not> set_writable (ctl 0) ?fd"
    | (answered) "?cid \<in> sv_connections s \<or> locked" "\<not> rt_close_after task" "rt_response task \<noteq> []"
        "set_writable (ctl 0) ?fd" "rt_delivered_message_ids task = []"
    | (delivered) "?cid \<in> sv_connections s \<or> locked" "\<not> rt_close_after task" "rt_response task \<noteq> []"
        "set_writable (ctl 0) ?fd" "rt_delivered_message_ids task \<noteq> []"
    by blast
  then show "works (one ?cid) none none none s (fst (process_response h ctl locked task (s, w)))"
  proof cases
    case gone
    then show ?thesis using works_drop [OF works_refl] by (simp add: process_response_def Let_def)
  next
    case close
    then show ?thesis using works_close_token [of ?cid s h w] by (auto simp: process_response_def Let_def)
  next
    case silent
    then have "rt_session_action task = NONE" using assms by (simp add: wf_task_def)
    with silent works_finish_response [of False task s h ctl w] show ?thesis
      by (auto simp: process_response_def Let_def)
  next
    case refused
    with works_trans [OF s1 works_close_token [of ?cid ?s1 h w]] show ?thesis
      by (auto simp: process_response_def Let_def fd)
  next
    case answered
    have "works (one ?cid) none none none s (fst (finish_response h ctl task False (?s1, w)))" if i: "index_inv s"
    proof -
      have "?cid \<in> sv_connections s"
        using i answered(4) by (auto simp: index_inv_def tables_inv_def set_writable_def split: if_splits)
      then show ?thesis
        using works_trans [OF s1] works_finish_response [of False task ?s1 h ctl w] by simp
    qed
    with answered show ?thesis by (auto simp: process_response_def Let_def works_def sane_def)
  next
    case delivered
    obtain d s2 where m: "mark_own (rt_delivered_user_id task) (rt_delivered_message_ids task) ?cid ?s1 = (d, s2)"
      by fastforce
    have d: "d" "works (one ?cid) none none none s s2"
      using works_mark_own [OF m] works_trans [OF s1] run by auto
    have pushes: "rt_pushes task = []" using assms delivered(5) by (simp add: wf_task_def)
    have "works (one ?cid) none none none s (fst (finish_response h ctl task True (s2, w)))" if i: "index_inv s"
    proof -
      have "?cid \<in> sv_connections s"
        using i delivered(4) by (auto simp: index_inv_def tables_inv_def set_writable_def split: if_splits)
      moreover have "sv_connections s2 = sv_connections s" using m run by (auto simp: mark_own_def)
      ultimately show ?thesis
        using works_trans [OF d(2)] works_finish_response [of True task s2 h ctl w] pushes by simp
    qed
    with delivered m d(1) show ?thesis by (auto simp: process_response_def Let_def works_def sane_def)
  qed
qed

lemma works_process_event:
  "works (if pe_finish_current_request e then one (pe_conn_id e) else none)
     (if pe_finish_current_request e then none else one (pe_conn_id e)) none none s (fst (process_event h e (s, w)))"
proof (cases "pe_conn_id e \<in> sv_connections s")
  case False
  have "works T E none none s s" if "T = (if pe_finish_current_request e then one (pe_conn_id e) else none)"
    "E = (if pe_finish_current_request e then none else one (pe_conn_id e))" for T E
    by (rule works_cong [OF works_refl]) (use that False in auto)
  with False show ?thesis by (simp add: process_event_def getConnectionContextById_def)
next
  case True
  then show ?thesis
    by (cases "pe_finish_current_request e")
       (simp_all add: process_event_def getConnectionContextById_def works_finish_or_close works_resume_or_close)
qed

end
