(* ===== verification/ServerRuns.thy ===== *)
theory ServerRuns
  imports ServerFlow
begin

text \<open>
  The invariant of the epoll server over all interleavings of its I/O thread, its workers and the
  threads that deliver remote pushes, for every handler that keeps the contract of
  \<^verbatim>\<open>src/include/net/IMessageHandler.h\<close> which the server relies on.
\<close>

section \<open>The parts of the invariant\<close>

text \<open>The pool is stopped after all connections were closed, and the event descriptor lives longer.\<close>

definition pool_inv :: "Server \<Rightarrow> bool" where
  "pool_inv s \<longleftrightarrow>
     (sv_pool_stopped s \<longleftrightarrow> sv_io s = IoJoin \<or> sv_io s = IoDone) \<and>
     (sv_pool_stopped s \<longrightarrow> sv_stopping s \<and> sv_connections s = {}) \<and>
     (sv_worker_event_fd s \<longleftrightarrow> sv_io s \<noteq> IoDone)"

definition tasks_inv :: "Server \<Rightarrow> bool" where
  "tasks_inv s \<longleftrightarrow> list_all wf_task (sv_completed_tasks s @ io_tasks (sv_io s))"

text \<open>What waits in a queue that the I/O thread has passed, or not yet begun to look at, is announced.\<close>

definition unclaimed :: "Server \<Rightarrow> bool" where
  "unclaimed s \<longleftrightarrow> list_ex (\<lambda>t. sv_push_state s (pt_ticket t) = PushPending) (sv_remote_push_tasks s)"

definition waiting :: "Server \<Rightarrow> bool" where
  "waiting s =
     (case sv_io s of
        IoWait \<Rightarrow> unclaimed s \<or> sv_completed_tasks s \<noteq> [] \<or> sv_post_delivery_events s \<noteq> []
      | IoRemote ts \<Rightarrow> unclaimed s
      | IoTasks ts \<Rightarrow> unclaimed s \<or> sv_completed_tasks s \<noteq> []
      | IoEvents es \<Rightarrow> unclaimed s \<or> sv_completed_tasks s \<noteq> [] \<or> sv_post_delivery_events s \<noteq> []
      | _ \<Rightarrow> False)"

definition wake_inv :: "Server \<Rightarrow> bool" where
  "wake_inv s \<longleftrightarrow> sv_stopping s \<or> (waiting s \<longrightarrow> sv_event_ready s)"

definition cleaning :: "connectionId list \<Rightarrow> Server \<Rightarrow> connectionId \<Rightarrow> nat" where
  "cleaning log s c = count_list log c + count_list (cleanups (sv_pool_tasks s)) c + count_list (cleanups (sv_running s)) c"

definition clean_inv :: "connectionId list \<Rightarrow> Server \<Rightarrow> bool" where
  "clean_inv log s \<longleftrightarrow>
     (\<forall>c. cleaning log s c = of_bool (0 < c \<and> c < sv_next_conn_id s \<and> c \<notin> sv_connections s))"

definition push_inv :: "Server \<Rightarrow> bool" where
  "push_inv s \<longleftrightarrow>
     distinct (map pt_ticket (io_pushes (sv_io s) @ sv_remote_push_tasks s)) \<and>
     (\<forall>t\<in>set (io_pushes (sv_io s) @ sv_remote_push_tasks s). pt_ticket t < sv_next_ticket s) \<and>
     (\<forall>t. sv_push_state s t = PushClaimed \<longrightarrow> sv_push_outcome s t \<noteq> None) \<and>
     (\<forall>t. sv_next_ticket s \<le> t \<longrightarrow> sv_push_outcome s t = None \<and> sv_push_state s t = PushPending)"

definition rest_inv :: "connectionId list \<Rightarrow> Server \<Rightarrow> bool" where
  "rest_inv log s \<longleftrightarrow>
     index_inv s \<and> pool_inv s \<and> tasks_inv s \<and> wake_inv s \<and> clean_inv log s \<and> push_inv s"

definition server_inv :: "connectionId list \<Rightarrow> Server \<Rightarrow> bool" where
  "server_inv log s \<longleftrightarrow> rest_inv log s \<and> flow_inv none none s"

lemmas inv_defs = pool_inv_def tasks_inv_def wake_inv_def waiting_def unclaimed_def clean_inv_def cleaning_def push_inv_def

section \<open>Actions of the I/O thread\<close>

lemma count_list_distinct: "distinct xs \<Longrightarrow> count_list xs c = of_bool (c \<in> set xs)"
  by (induction xs) auto

lemma clean_inv_busy:
  assumes "clean_inv log s" "busy s s'" "index_inv s"
  shows "clean_inv log s'"
proof -
  obtain ts where ts: "sv_pool_tasks s' = sv_pool_tasks s @ ts" "distinct (cleanups ts)"
    "set (cleanups ts) \<subseteq> sv_connections s" "sv_connections s' = sv_connections s - set (cleanups ts)"
    and q: "sv_running s' = sv_running s" "sv_next_conn_id s' = sv_next_conn_id s"
    using assms(2) by (auto simp: busy_def same_queues_def)
  note one = count_list_distinct [OF ts(2)]
  have range: "c \<in> sv_connections s \<Longrightarrow> 0 < c \<and> c < sv_next_conn_id s" for c
    using assms(3) by (simp add: index_inv_def tables_inv_def)
  have "cleaning log s' c = cleaning log s c + of_bool (c \<in> set (cleanups ts))" for c
    using one [of c] by (simp add: cleaning_def ts(1) q)
  then show ?thesis
    using assms(1) ts(3,4) range by (auto simp: clean_inv_def q)
qed


lemma rest_inv_busy:
  assumes "rest_inv log s" "busy s s'" "index_inv s'"
  shows "rest_inv log s'"
proof -
  have c: "sv_connections s' \<subseteq> sv_connections s" by (rule busy_connections [OF assms(2)])
  have q: "same_queues s s'" using assms(2) by (simp add: busy_def)
  then have "waiting s' = waiting s" by (simp add: same_queues_def waiting_def unclaimed_def split: io_position.split)
  then have "wake_inv s'" "tasks_inv s'" "push_inv s'"
    using assms(1) q by (simp_all add: rest_inv_def wake_inv_def tasks_inv_def push_inv_def same_queues_def)
  moreover have "pool_inv s'"
    using assms(1) q c by (auto simp: rest_inv_def pool_inv_def same_queues_def)
  ultimately show ?thesis
    using assms clean_inv_busy [of log s s'] by (simp add: rest_inv_def)
qed

lemma server_inv_works:
  assumes "rest_inv log s" "works token event none none s s'" "flow_inv token event s" "\<not> sv_pool_stopped s"
  shows "server_inv log s'"
  using assms rest_inv_busy [OF assms(1)] by (auto simp: works_def sane_def server_inv_def rest_inv_def)

lemma running_io: "rest_inv log s \<Longrightarrow> sv_io s \<noteq> IoJoin \<Longrightarrow> sv_io s \<noteq> IoDone \<Longrightarrow> \<not> sv_pool_stopped s"
  by (simp add: rest_inv_def pool_inv_def)

lemma server_inv_io:
  assumes "server_inv log s" "sv_io s = IoWait" "works none none none none s s'"
  shows "server_inv log s'"
  using assms running_io [of log s] server_inv_works [of log s none none s'] by (simp add: server_inv_def)

lemma flow_inv_move:
  assumes "flow_inv token event s" "sv_stopping s' = sv_stopping s" "sv_connections s' = sv_connections s"
    and "sv_contexts s' = sv_contexts s" "sv_next_conn_id s' = sv_next_conn_id s"
    and "\<And>c. tokens c s' + token' c = tokens c s + token c" "\<And>c. marks c s' = marks c s"
    and "\<And>c. resumes c s + event c \<le> resumes c s' + event' c"
  shows "flow_inv token' event' s'"
proof -
  have "flow_ok (token' c) (event' c) (tokens c s') (marks c s') (resumes c s') f"
    if "flow_ok (token c) (event c) (tokens c s) (marks c s) (resumes c s) f" for c f
    using that assms(6-8) [of c] by (auto simp: flow_ok_def)
  then show ?thesis
    using assms(1-5) unfolding flow_inv_def by (simp only: assms(6,7)) blast
qed

lemma push_fields_inv [simp]:
  "flow_inv token event (s\<lparr>sv_push_state := ps\<rparr>) = flow_inv token event s"
  "flow_inv token event (s\<lparr>sv_push_outcome := os\<rparr>) = flow_inv token event s"
  "flow_inv token event (s\<lparr>sv_event_ready := b\<rparr>) = flow_inv token event s"
  "flow_inv token event (s\<lparr>sv_remote_push_tasks := ts\<rparr>) = flow_inv token event s"
  "flow_inv token event (s\<lparr>sv_next_ticket := n\<rparr>) = flow_inv token event s"
  "flow_inv token event (s\<lparr>sv_next_response_task_id := n\<rparr>) = flow_inv token event s"
  by (simp_all add: flow_inv_def tokens_def marks_def resumes_def)

text \<open>Taking an entry from one of the three lists puts its token or event into the hands of the thread.\<close>

lemma rest_inv_pop:
  "rest_inv log s \<Longrightarrow> sv_io s = IoRemote (t # ts) \<Longrightarrow> rest_inv log (s\<lparr>sv_io := IoRemote ts\<rparr>)"
  "rest_inv log s \<Longrightarrow> sv_io s = IoTasks (r # rs) \<Longrightarrow> rest_inv log (s\<lparr>sv_io := IoTasks rs\<rparr>)"
  "rest_inv log s \<Longrightarrow> sv_io s = IoEvents (e # es) \<Longrightarrow> rest_inv log (s\<lparr>sv_io := IoEvents es\<rparr>)"
  by (auto simp: rest_inv_def inv_defs)

lemma flow_inv_pop:
  "sv_io s = IoRemote (t # ts) \<Longrightarrow> flow_inv none none s \<Longrightarrow> flow_inv none none (s\<lparr>sv_io := IoRemote ts\<rparr>)"
  "sv_io s = IoTasks (r # rs) \<Longrightarrow> flow_inv none none s \<Longrightarrow>
     flow_inv (one (rt_conn_id r)) none (s\<lparr>sv_io := IoTasks rs\<rparr>)"
  "sv_io s = IoEvents (e # es) \<Longrightarrow> flow_inv none none s \<Longrightarrow>
     flow_inv (if pe_finish_current_request e then one (pe_conn_id e) else none)
       (if pe_finish_current_request e then none else one (pe_conn_id e)) (s\<lparr>sv_io := IoEvents es\<rparr>)"
    by (erule flow_inv_move; auto simp: tokens_def marks_def resumes_def)+

lemma server_inv_response:
  assumes "server_inv log s" "sv_io s = IoTasks (task # tasks)"
    and "process_response h ctl locked task (s\<lparr>sv_io := IoTasks tasks\<rparr>, w) = (s', w')"
  shows "server_inv log s'"
proof -
  let ?s = "s\<lparr>sv_io := IoTasks tasks\<rparr>"
  have "wf_task task" using assms(1,2) by (simp add: server_inv_def rest_inv_def tasks_inv_def)
  from works_process_response [OF this, of ?s h ctl locked w]
  have w: "works (one (rt_conn_id task)) none none none ?s s'" by (simp add: assms(3))
  show ?thesis
    using assms(1,2) running_io [of log s]
    by (intro server_inv_works [OF _ w] rest_inv_pop(2) flow_inv_pop(2)) (auto simp: server_inv_def)
qed

lemma server_inv_event:
  assumes "server_inv log s" "sv_io s = IoEvents (e # es)"
    and "process_event h e (s\<lparr>sv_io := IoEvents es\<rparr>, w) = (s', w')"
  shows "server_inv log s'"
proof -
  let ?s = "s\<lparr>sv_io := IoEvents es\<rparr>"
  from works_process_event [of e ?s h w]
  have w: "works (if pe_finish_current_request e then one (pe_conn_id e) else none)
     (if pe_finish_current_request e then none else one (pe_conn_id e)) none none ?s s'" by (simp add: assms(3))
  show ?thesis
    using assms(1,2) running_io [of log s]
    by (intro server_inv_works [OF _ w] rest_inv_pop(3) flow_inv_pop(3)) (auto simp: server_inv_def)
qed


text \<open>A remote push: the claim, the work on the connection, the outcome.\<close>

lemma process_remote_cases:
  assumes "process_remote h ctl_ok task (s, w) = (s', w')"
  shows "sv_push_state s (pt_ticket task) \<noteq> PushPending \<and> s' = s \<or>
    sv_push_state s (pt_ticket task) = PushPending \<and>
    (\<exists>s2 outcome. still (s\<lparr>sv_push_state := (sv_push_state s)(pt_ticket task := PushClaimed)\<rparr>) s2 \<and>
       s' = set_outcome (pt_ticket task) outcome s2)"
proof (cases "sv_push_state s (pt_ticket task) = PushPending")
  case False
  then show ?thesis using assms by (simp add: process_remote_def)
next
  case True
  define s1 where "s1 = s\<lparr>sv_push_state := (sv_push_state s)(pt_ticket task := PushClaimed)\<rparr>"
  have a: "still s1 (on_context c (appendPendingSend d) s1)" for c d
    by (rule still_on_context) simp_all
  have c: "still s1 x" if "closeClientFd h fd (on_context c (appendPendingSend d) s1, w) = (x, w1)" for c d fd x w1
    using still_trans [OF a still_closeClientFd [of _ h fd w], of c d] that by simp
  from assms True a have "\<exists>s2 outcome. still s1 s2 \<and> s' = set_outcome (pt_ticket task) outcome s2"
    by (auto simp: process_remote_def s1_def [symmetric] Let_def split: option.splits if_splits prod.splits dest!: c) 
  with True show ?thesis by (simp add: s1_def)
qed

lemma server_inv_remote:
  assumes "server_inv log s" "sv_io s = IoRemote (task # tasks)"
    and "process_remote h ctl_ok task (s\<lparr>sv_io := IoRemote tasks\<rparr>, w) = (s', w')"
  shows "server_inv log s'"
proof -
  let ?s = "s\<lparr>sv_io := IoRemote tasks\<rparr>" and ?t = "pt_ticket task"
  have i: "rest_inv log ?s" "flow_inv none none ?s"
    using assms(1,2) rest_inv_pop(1) flow_inv_pop(1) by (auto simp: server_inv_def)
  have ticket: "?t < sv_next_ticket s"
    using assms(1,2) by (simp add: server_inv_def rest_inv_def push_inv_def)
  have run: "\<not> sv_pool_stopped ?s" using running_io [OF i(1)] by simp
  from process_remote_cases [OF assms(3)] consider "s' = ?s"
    | s2 outcome where "still (?s\<lparr>sv_push_state := (sv_push_state s)(?t := PushClaimed)\<rparr>) s2" "s' = set_outcome ?t outcome s2"
    by auto
  then show ?thesis
  proof cases
    case 1
    with i show ?thesis by (simp add: server_inv_def)
  next
    case 2
    let ?s1 = "?s\<lparr>sv_push_state := (sv_push_state s)(?t := PushClaimed)\<rparr>"
    have s2: "index_inv s2" "quiet ?s1 s2"
      using 2(1) i run by (simp_all add: still_def rest_inv_def)
    then have q: "same_queues ?s1 s2" and b: "busy ?s1 s2" by (simp_all add: quiet_def busy_def)
    have "flow_inv none none s2"
      using flow_inv_quiet [OF _ s2(2)] i(2) by simp
    moreover have "clean_inv log s2"
      using clean_inv_busy [OF _ b, of log] i(1) by (simp add: rest_inv_def clean_inv_def cleaning_def)
    moreover have "sv_connections s2 \<subseteq> sv_connections s" using busy_connections [OF b] by simp
    then have "pool_inv s2" using i(1) q by (auto simp: rest_inv_def pool_inv_def same_queues_def)
    moreover have "push_inv s'"
      using i(1) q ticket
      by (auto simp: rest_inv_def push_inv_def same_queues_def 2(2) set_outcome_def)
    moreover have "waiting s2 \<Longrightarrow> waiting ?s"
      using q by (auto simp: waiting_def unclaimed_def same_queues_def list_ex_iff split: if_splits)
    then have "wake_inv s2" using i(1) q by (auto simp: rest_inv_def wake_inv_def same_queues_def)
    moreover have "tasks_inv s2" using i(1) q by (simp add: rest_inv_def tasks_inv_def same_queues_def)
    ultimately show ?thesis
      using s2(1)
      by (simp add: 2(2) server_inv_def rest_inv_def set_outcome_def pool_inv_def tasks_inv_def wake_inv_def
          waiting_def unclaimed_def clean_inv_def cleaning_def split: io_position.splits)
  qed
qed


text \<open>The swaps of \<^verbatim>\<open>onWorkerResultReadable\<close>, and the end of its last loop.\<close>

lemma server_inv_swap:
  "server_inv log s \<Longrightarrow> sv_io s = IoWait \<Longrightarrow>
     server_inv log (s\<lparr>sv_event_ready := False, sv_remote_push_tasks := [], sv_io := IoRemote (sv_remote_push_tasks s)\<rparr>)"
  "server_inv log s \<Longrightarrow> sv_io s = IoRemote [] \<Longrightarrow>
     server_inv log (s\<lparr>sv_completed_tasks := [], sv_io := IoTasks (sv_completed_tasks s)\<rparr>)"
  "server_inv log s \<Longrightarrow> sv_io s = IoTasks [] \<Longrightarrow>
     server_inv log (s\<lparr>sv_post_delivery_events := [], sv_io := IoEvents (sv_post_delivery_events s)\<rparr>)"
  "server_inv log s \<Longrightarrow> sv_io s = IoEvents [] \<Longrightarrow> server_inv log (s\<lparr>sv_io := IoWait\<rparr>)"
  by (auto simp: server_inv_def rest_inv_def inv_defs flow_inv_def tokens_def marks_def resumes_def)

section \<open>Accepting, stopping and shutting down\<close>

lemma server_inv_register:
  assumes "server_inv log s" "sv_io s = IoWait" "0 \<le> fd" "sv_fd_to_context s fd = None" "sv_next_conn_id s + 1 < 2 ^ 64"
  shows "server_inv log (registerConnection now fd ip port s)"
proof -
  let ?s = "registerConnection now fd ip port s" and ?c = "sv_next_conn_id s"
  have i: "index_inv s" and f: "flow_inv none none s" and cl: "clean_inv log s"
    using assms(1) by (simp_all add: server_inv_def rest_inv_def)
  have fields [simp]: "sv_stopping ?s = sv_stopping s" "sv_worker_event_fd ?s = sv_worker_event_fd s"
    "sv_event_ready ?s = sv_event_ready s" "sv_completed_tasks ?s = sv_completed_tasks s"
    "sv_post_delivery_events ?s = sv_post_delivery_events s" "sv_remote_push_tasks ?s = sv_remote_push_tasks s"
    "sv_push_state ?s = sv_push_state s" "sv_push_outcome ?s = sv_push_outcome s" "sv_next_ticket ?s = sv_next_ticket s"
    "sv_pool_stopped ?s = sv_pool_stopped s" "sv_pool_tasks ?s = sv_pool_tasks s" "sv_running ?s = sv_running s"
    "sv_io ?s = sv_io s" "sv_connections ?s = insert ?c (sv_connections s)" "sv_next_conn_id ?s = Suc ?c"
    using assms(5) by (simp_all add: registerConnection_def Let_def)
  have counts: "tokens c ?s = tokens c s" "marks c ?s = marks c s" "resumes c ?s = resumes c s" for c
    by (simp_all add: tokens_def marks_def resumes_def)
  have ctx: "sv_contexts ?s c = (if c = ?c then ConnectionContext_new \<lparr>conn_fd = fd, peer_ip = ip, peer_port = port\<rparr> ?c now
      else sv_contexts s c)" for c
    by (simp add: registerConnection_def Let_def)
  have "flow_inv none none ?s"
  proof (cases "sv_stopping s")
    case False
    then have "tokens ?c s = 0" "marks ?c s = 0" using f by (simp_all add: flow_inv_def)
    then have "flow_ok 0 0 (tokens ?c s) (marks ?c s) (resumes ?c s) (flow_of (sv_contexts ?s ?c))"
      by (simp add: ctx flow_ok_def flow_of_def ConnectionContext_new_def)
    then show ?thesis using f by (auto simp: flow_inv_def counts ctx)
  qed (simp add: flow_inv_def)
  moreover have "clean_inv log ?s"
  proof -
    have "?c \<notin> sv_connections s" "0 < ?c" using i by (auto simp: index_inv_def tables_inv_def)
    moreover have "cleaning log ?s c = cleaning log s c" for c by (simp add: cleaning_def)
    ultimately show ?thesis using cl by (auto simp: clean_inv_def less_Suc_eq)
  qed
  moreover have "waiting ?s = waiting s" by (simp add: waiting_def unclaimed_def split: io_position.split)
  ultimately show ?thesis
    using assms(1,2) index_inv_register [OF i assms(3-5)]
    by (simp add: server_inv_def rest_inv_def pool_inv_def tasks_inv_def wake_inv_def push_inv_def)
qed

lemma cancel_push_fields [simp]:
  "sv_connections (cancel_push t s) = sv_connections s" "sv_pool_stopped (cancel_push t s) = sv_pool_stopped s"
  "sv_worker_event_fd (cancel_push t s) = sv_worker_event_fd s" "sv_io (cancel_push t s) = sv_io s"
  "sv_stopping (cancel_push t s) = sv_stopping s" "sv_completed_tasks (cancel_push t s) = sv_completed_tasks s"
  "sv_pool_tasks (cancel_push t s) = sv_pool_tasks s" "sv_running (cancel_push t s) = sv_running s"
  "sv_next_conn_id (cancel_push t s) = sv_next_conn_id s" "sv_next_ticket (cancel_push t s) = sv_next_ticket s"
  "sv_remote_push_tasks (cancel_push t s) = sv_remote_push_tasks s" "sv_fd_to_context (cancel_push t s) = sv_fd_to_context s"
  "index_inv (cancel_push t s) = index_inv s"
  by (simp_all add: cancel_push_def set_outcome_def)

lemma fold_cancel_push_fields [simp]:
  "sv_connections (fold cancel_push ts s) = sv_connections s" "sv_pool_stopped (fold cancel_push ts s) = sv_pool_stopped s"
  "sv_worker_event_fd (fold cancel_push ts s) = sv_worker_event_fd s" "sv_io (fold cancel_push ts s) = sv_io s"
  "sv_stopping (fold cancel_push ts s) = sv_stopping s" "sv_completed_tasks (fold cancel_push ts s) = sv_completed_tasks s"
  "sv_pool_tasks (fold cancel_push ts s) = sv_pool_tasks s" "sv_running (fold cancel_push ts s) = sv_running s"
  "sv_next_conn_id (fold cancel_push ts s) = sv_next_conn_id s" "sv_next_ticket (fold cancel_push ts s) = sv_next_ticket s"
  "sv_remote_push_tasks (fold cancel_push ts s) = sv_remote_push_tasks s"
  "sv_fd_to_context (fold cancel_push ts s) = sv_fd_to_context s"
  "index_inv (fold cancel_push ts s) = index_inv s"
  by (induction ts arbitrary: s; simp)+

definition push_known :: "Server \<Rightarrow> bool" where
  "push_known s \<longleftrightarrow>
     (\<forall>t. sv_push_state s t = PushClaimed \<longrightarrow> sv_push_outcome s t \<noteq> None) \<and>
     (\<forall>t. sv_next_ticket s \<le> t \<longrightarrow> sv_push_outcome s t = None \<and> sv_push_state s t = PushPending)"

lemma push_known_fold:
  "\<forall>t\<in>set ts. pt_ticket t < sv_next_ticket s \<Longrightarrow> push_known s \<Longrightarrow> push_known (fold cancel_push ts s)"
proof (induction ts arbitrary: s)
  case (Cons t ts)
  have "push_known (cancel_push t s)"
    using Cons.prems by (auto simp: push_known_def cancel_push_def set_outcome_def)
  with Cons show ?case by simp
qed simp

lemma server_inv_stop:
  assumes "server_inv log s"
  shows "server_inv log (stop_server s)"
proof (cases "sv_stopping s")
  case False
  let ?s0 = "s\<lparr>sv_stopping := True, sv_remote_push_tasks := []\<rparr>"
  let ?s1 = "fold cancel_push (sv_remote_push_tasks s) ?s0"
  have "push_known ?s0" and "\<forall>t\<in>set (sv_remote_push_tasks s). pt_ticket t < sv_next_ticket ?s0"
    using assms by (auto simp: server_inv_def rest_inv_def push_inv_def push_known_def)
  then have k: "push_known ?s1" by (intro push_known_fold) auto
  have s: "stop_server s = (if sv_worker_event_fd s then notifyWorkerEventFd ?s1 else ?s1)"
    using False by (simp add: stop_server_def Let_def)
  show ?thesis
    using assms k
    by (simp add: s server_inv_def rest_inv_def inv_defs flow_inv_def notifyWorkerEventFd_def push_known_def)
qed (use assms in \<open>simp add: stop_server_def\<close>)


lemma still_close_all: "still s (fst (fold (closeClientFd h) fds (s, w)))"
proof (induction fds arbitrary: s w)
  case (Cons fd fds)
  obtain s1 w1 where one: "closeClientFd h fd (s, w) = (s1, w1)" by fastforce
  with still_closeClientFd [of s h fd w] have "still s s1" by simp
  from still_trans [OF this Cons.IH] show ?case by (simp add: one)
qed simp

text \<open>Closing every descriptor of the table closes every connection.\<close>

lemma close_all_closes:
  assumes "index_inv s" "\<not> sv_pool_stopped s" "dom (sv_fd_to_context s) \<subseteq> set fds"
  shows "sv_connections (fst (fold (closeClientFd h) fds (s, w))) = {}"
  using assms
proof (induction fds arbitrary: s w)
  case Nil
  then show ?case by (auto simp: index_inv_def tables_inv_def)
next
  case (Cons fd fds)
  obtain s1 w1 where one: "closeClientFd h fd (s, w) = (s1, w1)" by fastforce
  have s1: "index_inv s1" "\<not> sv_pool_stopped s1"
    using still_closeClientFd [of s h fd w] Cons.prems one by (auto simp: still_def quiet_def dest: busy_pool_stopped)
  have "dom (sv_fd_to_context s1) \<subseteq> set fds"
  proof (cases "sv_fd_to_context s fd")
    case None
    then show ?thesis using Cons.prems one by (auto simp: closeClientFd_inv)
  next
    case (Some c)
    then have "ctx_fd (sv_contexts s c) = fd" using index_inv_fd [OF Cons.prems(1)] by blast
    with Some Cons.prems(1,2) one have "sv_fd_to_context s1 = (sv_fd_to_context s)(fd := None)"
      by (auto simp: closeClientFd_inv dispatchConnectionClosed_def)
    then have "dom (sv_fd_to_context s1) = dom (sv_fd_to_context s) - {fd}" by simp
    with Cons.prems(3) show ?thesis by (auto split: if_splits)
  qed
  with Cons.IH [OF s1] one show ?case by simp
qed

lemma server_inv_shutdown:
  assumes "server_inv log s" "sv_io s = IoWait" "set fds = dom (sv_fd_to_context s)" "shutdown h fds (s, w) = (s', w')"
  shows "server_inv log s'"
proof -
  let ?s0 = "stop_server s"
  have i0: "server_inv log ?s0" by (rule server_inv_stop [OF assms(1)])
  have f0: "sv_fd_to_context ?s0 = sv_fd_to_context s" "sv_io ?s0 = IoWait" "sv_stopping ?s0"
    using assms(2) by (simp_all add: stop_server_def Let_def notifyWorkerEventFd_def)
  obtain s1 w1 where c: "fold (closeClientFd h) fds (?s0, w) = (s1, w1)" by fastforce
  have run: "\<not> sv_pool_stopped ?s0" "index_inv ?s0"
    using i0 f0(2) by (simp_all add: server_inv_def rest_inv_def pool_inv_def)
  have b: "works none none none none ?s0 s1"
    using works_still [OF still_close_all [of ?s0 h fds w]] c by simp
  have i1: "server_inv log s1" by (rule server_inv_io [OF i0 f0(2) b])
  have "sv_connections s1 = {}"
    using close_all_closes [OF run(2,1), of fds h w] c assms(3) f0(1) by simp
  moreover have "sv_io s1 = IoWait" "sv_stopping s1"
    using b i0 run f0 by (auto simp: works_def sane_def server_inv_def busy_def same_queues_def)
  moreover have "s' = s1\<lparr>sv_pool_stopped := True, sv_io := IoJoin\<rparr>"
    using assms(4) c by (simp add: shutdown_def close_clients_def)
  ultimately show ?thesis
    using i1 by (simp add: server_inv_def rest_inv_def inv_defs flow_inv_def)
qed

lemma server_inv_join:
  assumes "server_inv log s" "sv_io s = IoJoin"
  shows "server_inv log (release_resources s)"
  using assms by (simp add: server_inv_def rest_inv_def inv_defs flow_inv_def release_resources_def)

section \<open>Remote pushes\<close>


lemma with_push_fields [simp]:
  "sv_stopping (with_push push ps s) = sv_stopping s" "sv_worker_event_fd (with_push push ps s) = sv_worker_event_fd s"
  "sv_event_ready (with_push push ps s) = sv_event_ready s" "sv_io (with_push push ps s) = sv_io s"
  "sv_completed_tasks (with_push push ps s) = sv_completed_tasks s"
  "sv_post_delivery_events (with_push push ps s) = sv_post_delivery_events s"
  "sv_pool_stopped (with_push push ps s) = sv_pool_stopped s" "sv_pool_tasks (with_push push ps s) = sv_pool_tasks s"
  "sv_running (with_push push ps s) = sv_running s" "sv_connections (with_push push ps s) = sv_connections s"
  "sv_next_conn_id (with_push push ps s) = sv_next_conn_id s"
  "index_inv (with_push push ps s) = index_inv s" "flow_inv token event (with_push push ps s) = flow_inv token event s"
  by (simp_all add: with_push_def)

lemma deliver_cases:
  assumes "deliverRemotePush st1 st2 written push s = (r, s')"
  obtains "s' = s" | "s' = notifyWorkerEventFd (with_push push PushPending s)" | "s' = with_push push PushCancelled s"
  using assms unfolding deliverRemotePush_def by (auto split: if_split_asm)

lemma push_inv_with_push:
  assumes "push_inv s" "ps \<noteq> PushClaimed"
  shows "push_inv (with_push push ps s)"
proof -
  let ?t = "sv_next_ticket s"
  have "\<forall>t\<in>set (io_pushes (sv_io s) @ sv_remote_push_tasks s). pt_ticket t < ?t"
    using assms(1) by (simp add: push_inv_def)
  then have "?t \<notin> pt_ticket ` set (io_pushes (sv_io s))" "?t \<notin> pt_ticket ` set (sv_remote_push_tasks s)"
    by auto
  with assms show ?thesis by (simp add: push_inv_def with_push_def less_SucI)
qed

lemma unclaimed_with_push: "push_inv s \<Longrightarrow> unclaimed (with_push push PushCancelled s) = unclaimed s"
proof -
  assume "push_inv s"
  then have "pt_ticket t \<noteq> sv_next_ticket s" if "t \<in> set (sv_remote_push_tasks s)" for t
    using that unfolding push_inv_def by (metis UnCI less_irrefl set_append)
  then show ?thesis by (auto simp: unclaimed_def list_ex_iff with_push_def)
qed

lemma server_inv_with_push:
  assumes "server_inv log s"
  shows "server_inv log (notifyWorkerEventFd (with_push push PushPending s))"
    and "server_inv log (with_push push PushCancelled s)"
proof -
  have p: "push_inv s" using assms by (simp add: server_inv_def rest_inv_def)
  have i: "push_inv (notifyWorkerEventFd (with_push push PushPending s))"
    using push_inv_with_push [OF p, of PushPending push] by (simp add: push_inv_def notifyWorkerEventFd_def)
  then show "server_inv log (notifyWorkerEventFd (with_push push PushPending s))"
    using assms
    by (simp add: server_inv_def rest_inv_def notifyWorkerEventFd_def pool_inv_def tasks_inv_def wake_inv_def
        clean_inv_def cleaning_def)
  have "waiting (with_push push PushCancelled s) = waiting s"
    using unclaimed_with_push [OF p, of push] by (simp add: waiting_def split: io_position.split)
  then show "server_inv log (with_push push PushCancelled s)"
    using assms push_inv_with_push [OF p, of PushCancelled push]
    by (simp add: server_inv_def rest_inv_def wake_inv_def pool_inv_def tasks_inv_def clean_inv_def cleaning_def)
qed

lemma server_inv_deliver:
  assumes "server_inv log s" "deliverRemotePush st1 st2 written push s = (r, s')"
  shows "server_inv log s'"
  using assms(2) by (rule deliver_cases) (simp_all add: assms(1) server_inv_with_push)

lemma server_inv_give_up:
  assumes "server_inv log s" "ticket < sv_next_ticket s" "push_timeout ticket s = (r, s')"
  shows "server_inv log s'"
proof (cases "sv_push_state s ticket = PushPending")
  case True
  then have s': "s' = s\<lparr>sv_push_state := (sv_push_state s)(ticket := PushCancelled)\<rparr>"
    using assms(3) by (simp add: push_timeout_def)
  have "unclaimed s' \<Longrightarrow> unclaimed s" by (auto simp: s' unclaimed_def list_ex_iff split: if_splits)
  then have "waiting s' \<Longrightarrow> waiting s" by (auto simp: s' waiting_def split: io_position.splits)
  with assms(1,2) show ?thesis
    by (auto simp: s' server_inv_def rest_inv_def pool_inv_def tasks_inv_def wake_inv_def
        clean_inv_def cleaning_def push_inv_def)
next
  case False
  then show ?thesis using assms by (simp add: push_timeout_def)
qed


section \<open>Workers\<close>

lemma server_inv_take:
  assumes "server_inv log s" "Taketask s = Some s'"
  shows "server_inv log s'"
proof -
  obtain task tasks where t: "sv_pool_tasks s = task # tasks"
    and s': "s' = s\<lparr>sv_pool_tasks := tasks, sv_running := sv_running s @ [task]\<rparr>"
    using assms(2) by (auto simp: Taketask_def split: list.splits)
  have "flow_inv none none s'"
    by (rule flow_inv_move [of none none s])
       (use assms(1) in \<open>auto simp: s' t server_inv_def tokens_def marks_def resumes_def\<close>)
  moreover have "cleaning log s' c = cleaning log s c" for c
    by (cases task) (simp_all add: cleaning_def s' t)
  moreover have "waiting s' = waiting s" by (simp add: s' waiting_def unclaimed_def split: io_position.split)
  ultimately show ?thesis
    using assms(1)
    by (simp add: server_inv_def rest_inv_def clean_inv_def wake_inv_def s' pool_inv_def tasks_inv_def push_inv_def)
qed

lemma cleanups_remove1:
  "t \<in> set ts \<Longrightarrow> count_list (cleanups (remove1 t ts)) c + count_list (cleanups [t]) c = count_list (cleanups ts) c"
proof (induction ts)
  case (Cons u us)
  then show ?case by (cases "u = t"; cases u) auto
qed simp

text \<open>What a worker does to the queues.\<close>

lemma rest_inv_worker:
  assumes "rest_inv log s" "index_inv s'"
    and "sv_completed_tasks s' = sv_completed_tasks s @ ts" "list_all wf_task ts"
    and "sv_post_delivery_events s' = sv_post_delivery_events s @ es"
    and "sv_event_ready s' = (sv_event_ready s \<or> ts \<noteq> [] \<or> es \<noteq> [])"
    and "sv_pool_tasks s' = sv_pool_tasks s"
    and "\<And>c. count_list log' c + count_list (cleanups (sv_running s')) c =
      count_list log c + count_list (cleanups (sv_running s)) c"
    and "sv_stopping s' = sv_stopping s" "sv_worker_event_fd s' = sv_worker_event_fd s"
      "sv_next_conn_id s' = sv_next_conn_id s" "sv_connections s' = sv_connections s"
      "sv_remote_push_tasks s' = sv_remote_push_tasks s" "sv_push_state s' = sv_push_state s"
      "sv_push_outcome s' = sv_push_outcome s" "sv_next_ticket s' = sv_next_ticket s"
      "sv_pool_stopped s' = sv_pool_stopped s" "sv_io s' = sv_io s"
  shows "rest_inv log' s'"
proof -
  have "cleaning log' s' c = cleaning log s c" for c
    using assms(8) [of c] by (simp add: cleaning_def assms(7))
  moreover have "wake_inv s'"
  proof (cases "ts = [] \<and> es = []")
    case True
    then have "waiting s' = waiting s"
      by (simp add: waiting_def unclaimed_def assms split: io_position.split)
    with assms(1) True show ?thesis by (simp add: rest_inv_def wake_inv_def assms)
  qed (simp add: wake_inv_def assms(6))
  ultimately show ?thesis
    using assms(1-4)
    by (simp add: rest_inv_def clean_inv_def pool_inv_def tasks_inv_def push_inv_def assms)
qed


definition finished :: "worker_task \<Rightarrow> Server \<Rightarrow> Server" where
  "finished task s = s\<lparr>sv_running := remove1 task (sv_running s)\<rparr>"

lemma rest_inv_finished:
  assumes "rest_inv log s" "task \<in> set (sv_running s)" "cleanups [task] = []"
  shows "rest_inv log (finished task s)"
  by (rule rest_inv_worker [OF assms(1), of _ "[]" "[]"])
     (use assms cleanups_remove1 [OF assms(2)] in \<open>simp_all add: finished_def rest_inv_def\<close>)

lemma finished_counts:
  assumes "task \<in> set (sv_running s)"
  shows "tokens c (finished task s) + of_bool (serves c task) = tokens c s"
    and "marks c (finished task s) + of_bool (fences c task) = marks c s"
    and "resumes c (finished task s) + of_bool (task = ResumeTask c) = resumes c s"
  using number_remove1 [OF assms, of "serves c"] number_remove1 [OF assms, of "fences c"]
    number_remove1 [OF assms, of "\<lambda>t. t = ResumeTask c"]
  by (simp_all add: finished_def tokens_def marks_def resumes_def)

lemma server_inv_cleanup:
  assumes "server_inv log s" "CleanupTask cid \<in> set (sv_running s)"
  shows "server_inv (log @ [cid]) (finished (CleanupTask cid) s)"
proof -
  have r: "count_list (cleanups (sv_running s)) c =
      count_list (cleanups (remove1 (CleanupTask cid) (sv_running s))) c + of_bool (cid = c)" for c
    using cleanups_remove1 [OF assms(2), of c] by (cases "cid = c") simp_all
  have "rest_inv (log @ [cid]) (finished (CleanupTask cid) s)"
    by (rule rest_inv_worker [of log s _ "[]" "[]"])
       (use assms in \<open>simp_all add: r finished_def server_inv_def rest_inv_def\<close>)
  moreover have "flow_inv none none (finished (CleanupTask cid) s)"
    by (rule flow_inv_move [of none none s])
       (use assms finished_counts [OF assms(2)] in \<open>simp_all add: server_inv_def, simp_all add: finished_def\<close>)
  ultimately show ?thesis by (simp add: server_inv_def)
qed

lemma enqueuePost_counts:
  "tokens c (enqueuePostDeliveryEvent cid b s) = tokens c s + of_bool (b \<and> c = cid)"
  "marks c (enqueuePostDeliveryEvent cid b s) = marks c s"
  "resumes c (enqueuePostDeliveryEvent cid b s) = resumes c s + of_bool (\<not> b \<and> c = cid)"
  by (auto simp: enqueuePostDeliveryEvent_def notifyWorkerEventFd_def tokens_def marks_def resumes_def)

lemma rest_inv_enqueuePost: "rest_inv log s \<Longrightarrow> rest_inv log (enqueuePostDeliveryEvent cid b s)"
  by (rule rest_inv_worker [of log s _ "[]" "[\<lparr>pe_conn_id = cid, pe_finish_current_request = b\<rparr>]"])
     (auto simp: enqueuePostDeliveryEvent_def notifyWorkerEventFd_def rest_inv_def)

lemma server_inv_mark_own:
  assumes "server_inv log s" "MarkOwn uid mids cid \<in> set (sv_running s)"
  shows "server_inv log (enqueuePostDeliveryEvent cid True (finished (MarkOwn uid mids cid) s))"
proof -
  have "flow_inv none none (enqueuePostDeliveryEvent cid True (finished (MarkOwn uid mids cid) s))"
    by (rule flow_inv_move [of none none s])
       (use assms finished_counts [OF assms(2)] in
        \<open>simp_all add: server_inv_def enqueuePost_counts eq_commute [of cid],
         simp_all add: finished_def enqueuePostDeliveryEvent_def notifyWorkerEventFd_def\<close>)
  then show ?thesis
    using assms rest_inv_enqueuePost [OF rest_inv_finished] by (simp add: server_inv_def)
qed

lemma server_inv_resume:
  assumes "server_inv log s" "ResumeTask cid \<in> set (sv_running s)"
  shows "server_inv log (enqueuePostDeliveryEvent cid False (finished (ResumeTask cid) s))"
proof -
  have "flow_inv none none (enqueuePostDeliveryEvent cid False (finished (ResumeTask cid) s))"
    by (rule flow_inv_move [of none none s])
       (use assms finished_counts [OF assms(2)] in
        \<open>simp_all add: server_inv_def enqueuePost_counts eq_commute [of cid],
         simp_all add: finished_def enqueuePostDeliveryEvent_def notifyWorkerEventFd_def\<close>)
  then show ?thesis
    using assms rest_inv_enqueuePost [OF rest_inv_finished] by (simp add: server_inv_def)
qed


lemma server_inv_mark_other:
  assumes "server_inv log s" "MarkOther uid mids cid \<in> set (sv_running s)" "cid \<in> sv_connections s"
  defines "s1 \<equiv> finished (MarkOther uid mids cid) s"
  defines "s' \<equiv> (on_context cid decrementPendingDeliveryMarks s1)\<lparr>sv_running := sv_running s1 @ [ResumeTask cid]\<rparr>"
  shows "server_inv log s'"
proof -
  have i: "index_inv s" and f: "flow_inv none none s" using assms(1) by (simp_all add: server_inv_def rest_inv_def)
  have idx: "index_inv s'"
    using i index_inv_on_context [of s1 decrementPendingDeliveryMarks cid] by (simp add: s'_def s1_def finished_def)
  have "rest_inv log s'"
    by (rule rest_inv_worker [of log s1 _ "[]" "[]"])
       (use assms(1) idx rest_inv_finished [of log s, OF _ assms(2)] in \<open>simp_all add: server_inv_def s'_def s1_def\<close>)
  moreover have "flow_inv none none s'"
  proof -
    have t: "tokens c s' = tokens c s" "marks c s = marks c s' + of_bool (cid = c)"
      "resumes c s' = resumes c s + of_bool (cid = c)" for c
      using finished_counts [OF assms(2), of c]
      by (auto simp: s'_def s1_def finished_def tokens_def marks_def resumes_def)
    have [simp]: "sv_stopping s' = sv_stopping s" "sv_connections s' = sv_connections s"
      "sv_next_conn_id s' = sv_next_conn_id s"
      "sv_contexts s' = (sv_contexts s)(cid := decrementPendingDeliveryMarks (sv_contexts s cid))"
      by (simp_all add: s'_def s1_def finished_def)
    show ?thesis
    proof (cases "sv_stopping s")
      case False
      have "flow_ok 0 0 (tokens c s') (marks c s') (resumes c s') (flow_of (sv_contexts s' c))"
        if "c \<in> sv_connections s" for c
        using f False that
        by (cases "c = cid") (auto simp: flow_inv_def t flow_ok_def flow_of_def decrementPendingDeliveryMarks_def)
      moreover have "tokens c s' = 0 \<and> marks c s' = 0" if "sv_next_conn_id s \<le> c" for c
        using f False that by (auto simp: flow_inv_def t)
      ultimately show ?thesis by (simp add: flow_inv_def)
    qed (simp add: flow_inv_def)
  qed
  ultimately show ?thesis by (simp add: server_inv_def)
qed

lemma server_inv_mark_other_closed:
  assumes "server_inv log s" "MarkOther uid mids cid \<in> set (sv_running s)" "cid \<notin> sv_connections s"
  shows "server_inv log (finished (MarkOther uid mids cid) s)"
proof -
  let ?s = "finished (MarkOther uid mids cid) s"
  have c: "tokens c ?s = tokens c s" "resumes c ?s = resumes c s" "marks c ?s + of_bool (cid = c) = marks c s" for c
    using finished_counts [OF assms(2), of c] by simp_all
  have m: "marks c ?s = marks c s" if "c \<in> sv_connections s" for c
    using c(3) [of c] assms(3) that by (cases "cid = c") auto
  have "marks c s = 0 \<Longrightarrow> marks c ?s = 0" for c using c(3) [of c] by simp
  then have "flow_inv none none ?s"
    using assms(1) m by (auto simp: server_inv_def flow_inv_def c(1,2)) (simp_all add: finished_def)
  then show ?thesis
    using assms(1) rest_inv_finished [OF _ assms(2)] by (simp add: server_inv_def)
qed

text \<open>A result of the handler becomes a response task; a connection that was closed gets none.\<close>

definition wf_result :: "HandleResult \<Rightarrow> bool" where
  "wf_result r \<longleftrightarrow> (hr_delivered_message_ids r = [] \<or> hr_pushes r = []) \<and>
     (hr_session_action r \<noteq> NONE \<longrightarrow> hr_response r \<noteq> [])"

lemma server_inv_enqueue:
  assumes "server_inv log s" "RequestTask cid ip req \<in> set (sv_running s)" "wf_task task" "rt_conn_id task = cid"
    and "enqueueResponseTask task ((finished (RequestTask cid ip req) s)\<lparr>sv_next_response_task_id := n\<rparr>) = Some s'"
  shows "server_inv log s'"
proof -
  let ?s = "finished (RequestTask cid ip req) s"
  have s': "s' = notifyWorkerEventFd (?s\<lparr>sv_next_response_task_id := n, sv_completed_tasks := sv_completed_tasks ?s @ [task]\<rparr>)"
    using assms(5) by (simp add: enqueueResponseTask_def split: if_splits)
  have "rest_inv log s'"
    by (rule rest_inv_worker [of log ?s _ "[task]" "[]"])
       (use assms(1,3) rest_inv_finished [of log s, OF _ assms(2)] in
        \<open>simp_all add: server_inv_def s' notifyWorkerEventFd_def\<close>, simp add: rest_inv_def finished_def)
  moreover have n: "tokens c s' = tokens c ?s + of_bool (cid = c)" "marks c s' = marks c ?s" "resumes c s' = resumes c ?s" for c
    using assms(4) by (simp_all add: s' notifyWorkerEventFd_def tokens_def marks_def resumes_def)
  have "flow_inv none none s'"
    by (rule flow_inv_move [of none none s])
       (use assms(1) finished_counts [OF assms(2)] n in \<open>simp_all add: server_inv_def\<close>,
         simp_all add: s' notifyWorkerEventFd_def finished_def)
  ultimately show ?thesis by (simp add: server_inv_def)
qed

lemma rest_inv_task_id [simp]: "rest_inv log (s\<lparr>sv_next_response_task_id := n\<rparr>) = rest_inv log s"
proof -
  have "waiting (s\<lparr>sv_next_response_task_id := n\<rparr>) = waiting s"
    by (simp add: waiting_def unclaimed_def split: io_position.split)
  then show ?thesis
    by (simp add: rest_inv_def pool_inv_def tasks_inv_def wake_inv_def clean_inv_def cleaning_def push_inv_def)
qed

text \<open>Without a response task: the server is stopping, or the connection is closed.\<close>

lemma server_inv_dropped:
  assumes "server_inv log s" "RequestTask cid ip req \<in> set (sv_running s)" "sv_stopping s \<or> cid \<notin> sv_connections s"
  shows "server_inv log ((finished (RequestTask cid ip req) s)\<lparr>sv_next_response_task_id := n\<rparr>)"
proof -
  let ?s = "finished (RequestTask cid ip req) s"
  have c: "marks c ?s = marks c s" "resumes c ?s = resumes c s" "tokens c ?s + of_bool (cid = c) = tokens c s" for c
    using finished_counts [OF assms(2), of c] by simp_all
  have m: "tokens c ?s = tokens c s" if "c \<in> sv_connections s" "\<not> sv_stopping s" for c
    using c(3) [of c] assms(3) that by (cases "cid = c") auto
  have "tokens c s = 0 \<Longrightarrow> tokens c ?s = 0" for c using c(3) [of c] by simp
  then have "flow_inv none none ?s"
    using assms(1) m by (auto simp: server_inv_def flow_inv_def c(1,2)) (simp_all add: finished_def)
  moreover have "rest_inv log ?s"
    using assms(1) rest_inv_finished [OF _ assms(2)] by (simp add: server_inv_def)
  ultimately show ?thesis by (simp add: server_inv_def)
qed


lemma enqueueResponseTask_None:
  assumes "server_inv log s" "enqueueResponseTask task (s\<lparr>sv_running := rs, sv_next_response_task_id := n\<rparr>) = None"
  shows "sv_stopping s"
  using assms by (auto simp: enqueueResponseTask_def server_inv_def rest_inv_def pool_inv_def split: if_splits)

lemma server_inv_cleared:
  assumes "server_inv log s" "sv_stopping s"
  shows "server_inv log (on_context cid clearPendingRequests s)"
proof -
  have "rest_inv log (on_context cid clearPendingRequests s)"
    by (rule rest_inv_worker [of log s _ "[]" "[]"])
       (use assms index_inv_on_context [of s clearPendingRequests cid] in \<open>simp_all add: server_inv_def rest_inv_def\<close>)
  with assms(2) show ?thesis by (simp add: server_inv_def flow_inv_def)
qed

lemma server_inv_request:
  assumes "server_inv log s" "RequestTask cid ip req \<in> set (sv_running s)"
    and "run_task h locked (RequestTask cid ip req) (finished (RequestTask cid ip req) s, w) = (s', w')"
    and "\<And>r w1. run_state (mh_handle h req \<lparr>rq_conn_id = cid, rq_peer_ip = ip\<rparr>) w = (Some r, w1) \<Longrightarrow> wf_result r"
  shows "server_inv log s'"
proof -
  let ?s = "finished (RequestTask cid ip req) s"
  define n where "n = (sv_next_response_task_id ?s + 1) mod 2 ^ 64"
  obtain result w1 where h: "run_state (mh_handle h req \<lparr>rq_conn_id = cid, rq_peer_ip = ip\<rparr>) w = (result, w1)"
    by fastforce
  define task where "task = (case result of Some r \<Rightarrow> response_task cid r (sv_next_response_task_id ?s)
    | None \<Rightarrow> close_task cid (sv_next_response_task_id ?s))"
  have wf: "wf_task task" "rt_conn_id task = cid"
    using assms(4) h
    by (auto simp: task_def wf_task_def wf_result_def response_task_def close_task_def split: option.split)
  let ?n = "?s\<lparr>sv_next_response_task_id := n\<rparr>"
  consider (gone) "cid \<notin> sv_connections s" "s' = ?s" | (sent) "enqueueResponseTask task ?n = Some s'"
    | (lost) "enqueueResponseTask task ?n = None" "s' = ?n \<or> s' = on_context cid clearPendingRequests ?n"
    using assms(3) h unfolding task_def n_def
    by (auto simp: take_sequence_def finished_def split: if_splits option.splits)
  then show ?thesis
  proof cases
    case gone
    then show ?thesis
      using server_inv_dropped [OF assms(1,2), of "sv_next_response_task_id ?s"] by simp
  next
    case sent
    then show ?thesis by (rule server_inv_enqueue [OF assms(1,2) wf])
  next
    case lost
    then have stop: "sv_stopping s" using enqueueResponseTask_None [OF assms(1)] by (simp add: finished_def)
    then have i: "server_inv log ?n" by (intro server_inv_dropped [OF assms(1,2)]) simp
    moreover have "sv_stopping ?n" using stop by (simp add: finished_def)
    ultimately show ?thesis using lost(2) server_inv_cleared [OF i] by blast
  qed
qed

lemma server_inv_run:
  assumes "server_inv log s" "task \<in> set (sv_running s)"
    and "run_task h locked task (s\<lparr>sv_running := remove1 task (sv_running s)\<rparr>, w) = (s', w')"
    and "\<And>req ctx w r w1. run_state (mh_handle h req ctx) w = (Some r, w1) \<Longrightarrow> wf_result r"
  shows "server_inv (log @ (case task of CleanupTask cid \<Rightarrow> [cid] | _ \<Rightarrow> [])) s'"
proof (cases task)
  case (RequestTask cid ip req)
  then show ?thesis
    using server_inv_request [OF assms(1) assms(2) [unfolded RequestTask], of h locked w s' w'] assms(3,4)
    by (simp add: finished_def)
next
  case (CleanupTask cid)
  then show ?thesis
    using server_inv_cleanup [OF assms(1) assms(2) [unfolded CleanupTask]] assms(3) by (simp add: finished_def)
next
  case (MarkOwn uid mids cid)
  then show ?thesis
    using server_inv_mark_own [OF assms(1) assms(2) [unfolded MarkOwn]] assms(3) by (simp add: finished_def)
next
  case (MarkOther uid mids cid)
  then show ?thesis
    using server_inv_mark_other [OF assms(1) assms(2) [unfolded MarkOther]]
      server_inv_mark_other_closed [OF assms(1) assms(2) [unfolded MarkOther]] assms(3)
    by (auto simp: finished_def getConnectionContextById_def Let_def split: if_splits)
next
  case (ResumeTask cid)
  then show ?thesis
    using server_inv_resume [OF assms(1) assms(2) [unfolded ResumeTask]] assms(3) by (simp add: finished_def)
qed

section \<open>All runs\<close>

lemma server_inv_init: "server_inv [] server_init"
  by (auto simp: server_inv_def rest_inv_def inv_defs index_inv_def tables_inv_def auth_inv_def scan_inv_def
      members_def flow_inv_def tokens_def marks_def server_init_def ConnectionContext_new_def ctx_fd_def tcp_moved_from_def)

text \<open>
  The part of the contract of \<^verbatim>\<open>IMessageHandler\<close> the server relies on: \<^verbatim>\<open>handle\<close> does not ask for delivery
  marks of pulled messages together with pushes, and a result with a session action has a response.
\<close>

locale message_handler =
  fixes h :: "'w IMessageHandler"
  assumes handle_wf: "run_state (mh_handle h req ctx) w = (Some r, w') \<Longrightarrow> wf_result r"
begin

lemma server_inv_step:
  assumes "server_step h opts (s, w, log) (s', w', log')" "server_inv log s"
  shows "server_inv log' s'"
  using assms(1)
proof (cases rule: server_step.cases)
  case (accept fd now ip port set_up)
  then show ?thesis using assms(2) server_inv_register by (cases set_up) auto
next
  case (client now ctl_ok fd ev received sent)
  then show ?thesis
    using server_inv_io [OF assms(2) _ works_client_event [of s h now ctl_ok fd ev received sent w]] by simp
next
  case (timer now)
  then show ?thesis
    using server_inv_io [OF assms(2) _ works_still [OF still_scanConnectionTimeouts [of s h opts now w]]] by simp
next
  case (run task locked)
  then show ?thesis using server_inv_run [OF assms(2), of task h locked w s' w'] handle_wf by blast
qed (use assms(2) in \<open>auto intro: server_inv_stop server_inv_swap server_inv_remote server_inv_response server_inv_event
      server_inv_shutdown server_inv_join server_inv_take server_inv_deliver server_inv_give_up\<close>)

lemma server_inv_reach: "server_reach h opts w0 (s, w, log) \<Longrightarrow> server_inv log s"
proof (induction "(s, w, log)" arbitrary: s w log rule: server_reach.induct)
  case init
  show ?case by (rule server_inv_init)
next
  case (step n)
  then show ?case by (cases n) (auto intro: server_inv_step)
qed

end

end
