(* ===== verification/MessageHandler.thy ===== *)
theory MessageHandler
  imports JsonCodec ServerRuns UserService FriendService GroupService
begin

text \<open>
  The message handler, \<^verbatim>\<open>src/src/handler/message_handler.cc\<close>: it decodes a request, checks the token of
  protected messages, calls the service and builds the response and the pushes. It is the object behind
  the handler interface of the epoll server, and keeps its contract.
\<close>

section \<open>The handler\<close>

text \<open>Clock readings and random bytes of one call; each call takes the next ones.\<close>

record HandlerInputs =
  hi_user :: UserInputs
  hi_send :: SendInputs
  hi_group_random :: "getrandom_result list"
  hi_group_send :: GroupSendInputs
  hi_now :: timestamp

type_synonym 'w hworld = "'w \<times> (nat \<Rightarrow> HandlerInputs)"

record 'w MessageHandler =
  hd_user_service :: "'w UserService"
  hd_chat_service :: "'w ChatService"
  hd_friend_service :: "'w FriendService option"
  hd_group_service :: "'w GroupService option"

definition HandleResult_default :: HandleResult where
  "HandleResult_default =
     \<lparr>hr_response = [], hr_pushes = [], hr_session_action = NONE, hr_pending_session = no_session,
      hr_delivered_message_ids = [], hr_delivered_user_id = 0\<rparr>"

definition Response_for :: "'j Json \<Rightarrow> string \<Rightarrow> 'j Message \<Rightarrow> ErrorCode \<Rightarrow> string \<Rightarrow> 'j Response" where
  "Response_for J mtype msg code message =
     \<lparr>rs_msg_type = mtype, rs_seq = msg_seq msg, rs_code = code, rs_message = message, rs_data = js_null J\<rparr>"

definition resp_type :: "'j Message \<Rightarrow> string" where
  "resp_type msg = msg_type msg @ ''_resp''"

definition MakeInvalidParamResponse :: "'j Json \<Rightarrow> 'j Message \<Rightarrow> string \<Rightarrow> 'j Response" where
  "MakeInvalidParamResponse J msg message = Response_for J (resp_type msg) msg INVALID_PARAM message"

definition IsProtectedMessage :: "string \<Rightarrow> bool" where
  "IsProtectedMessage message_type \<longleftrightarrow>
     message_type \<in> {''logout'', ''whoami'', ''send_message'', ''pull_offline_messages'', ''message_ack'',
       ''mark_message_read'', ''add_friend'', ''accept_friend'', ''delete_friend'', ''list_friends'',
       ''create_group'', ''add_group_member'', ''send_group_message''}"

text \<open>A result with the encoded response and the rest of \<^verbatim>\<open>res\<close>; no result if encoding throws.\<close>

definition respond :: "'j Json \<Rightarrow> 'j Response \<Rightarrow> HandleResult \<Rightarrow> HandleResult option" where
  "respond J resp res = map_option (\<lambda>s. res\<lparr>hr_response := s\<rparr>) (encodeResponse J resp)"

abbreviation reply :: "'j Json \<Rightarrow> 'j Response \<Rightarrow> HandleResult option" where
  "reply J resp \<equiv> respond J resp HandleResult_default"

definition retry_after :: "'j Json \<Rightarrow> ErrorCode \<Rightarrow> nat \<Rightarrow> 'j Response \<Rightarrow> 'j Response" where
  "retry_after J code seconds resp =
     (if code = RATE_LIMITED then fill J [(''retry_after_seconds'', js_of_integer J (int seconds))] resp else resp)"

section \<open>Accounts and sessions\<close>

definition handleRegister ::
  "'w MessageHandler \<Rightarrow> 'j Json \<Rightarrow> HandlerInputs \<Rightarrow> 'j Message \<Rightarrow> string \<Rightarrow> ('w, HandleResult option) state" where
  "handleRegister self J inputs msg identity =
     (case parseRegisterRequest J msg of
        Inl err \<Rightarrow> ret (reply J (MakeInvalidParamResponse J msg err))
      | Inr req \<Rightarrow> do {
          result \<leftarrow> registerUser (hd_user_service self) (hi_user inputs) req identity;
          let resp = retry_after J (rg_code result) (rg_retry_after_seconds result)
                       (Response_for J (resp_type msg) msg (rg_code result) (rg_message result));
          ret (reply J (if rg_code result = OK then fillRegisterResponse J (rg_data result) resp else resp))
        })"

definition handleLogin ::
  "'w MessageHandler \<Rightarrow> 'j Json \<Rightarrow> HandlerInputs \<Rightarrow> 'j Message \<Rightarrow> connectionId \<Rightarrow> string \<Rightarrow>
   ('w, HandleResult option) state" where
  "handleLogin self J inputs msg conn_id identity =
     (case parseLoginRequest J msg of
        Inl err \<Rightarrow> ret (reply J (MakeInvalidParamResponse J msg err))
      | Inr req \<Rightarrow> do {
          result \<leftarrow> login (hd_user_service self) (hi_user inputs) req conn_id identity;
          let resp = retry_after J (lg_code result) (lg_retry_after_seconds result)
                       (Response_for J (resp_type msg) msg (lg_code result) (lg_message result));
          ret (if lg_code result = OK
               then respond J (fillLoginResponse J (lg_data result) resp)
                      (HandleResult_default\<lparr>hr_session_action := BIND, hr_pending_session := lg_session result\<rparr>)
               else reply J resp)
        })"

definition handleResumeSession :: "'w MessageHandler \<Rightarrow> 'j Json \<Rightarrow> 'j Message \<Rightarrow> ('w, HandleResult option) state" where
  "handleResumeSession self J msg = do {
     resume \<leftarrow> resumeSession (hd_user_service self) (msg_token msg);
     let resp = Response_for J ''resume_session_resp'' msg (rsm_code resume) (rsm_message resume);
     ret (if rsm_code resume = OK
          then respond J (fill J [(''user_id'', js_of_integer J (cs_user_id (rsm_session resume))),
                                  (''username'', js_of_string J (cs_username (rsm_session resume)))] resp)
                 (HandleResult_default\<lparr>hr_session_action := BIND, hr_pending_session := rsm_session resume\<rparr>)
          else reply J resp)
   }"

definition handleLogout :: "'w MessageHandler \<Rightarrow> 'j Json \<Rightarrow> 'j Message \<Rightarrow> connectionId \<Rightarrow> ('w, HandleResult option) state" where
  "handleLogout self J msg conn_id = do {
     result \<leftarrow> logout (hd_user_service self) conn_id;
     let resp = Response_for J (resp_type msg) msg (lo_code result) (lo_message result);
     ret (respond J resp (if lo_code result = OK then HandleResult_default\<lparr>hr_session_action := UNBIND\<rparr>
                          else HandleResult_default))
   }"

definition handleHeartbeat :: "'j Json \<Rightarrow> HandlerInputs \<Rightarrow> 'j Message \<Rightarrow> ('w, HandleResult option) state" where
  "handleHeartbeat J inputs msg =
     ret (reply J (fillHeartbeatResponse J (hi_now inputs) (Response_for J (resp_type msg) msg OK ''Heartbeat received'')))"

definition handleWhoAmI :: "'w MessageHandler \<Rightarrow> 'j Json \<Rightarrow> 'j Message \<Rightarrow> connectionId \<Rightarrow> ('w, HandleResult option) state" where
  "handleWhoAmI self J msg conn_id = do {
     result \<leftarrow> whoami (hd_user_service self) conn_id;
     let resp = Response_for J (resp_type msg) msg (wai_code result) (wai_message result);
     ret (reply J (if wai_code result = OK
                   then fill J [(''user_id'', js_of_integer J (cs_user_id (wai_data result))),
                                (''username'', js_of_string J (cs_username (wai_data result))),
                                (''token'', js_of_string J (cs_token (wai_data result)))] resp
                   else resp))
   }"

definition handleUnknown :: "'j Json \<Rightarrow> 'j Message \<Rightarrow> ('w, HandleResult option) state" where
  "handleUnknown J msg =
     ret (reply J (Response_for J (resp_type msg) msg UNKNOWN_MESSAGE_TYPE (''Unknown message type: '' @ msg_type msg)))"

section \<open>Messages\<close>

definition ack_data :: "SendMessageResult \<Rightarrow> SendMessageAckData" where
  "ack_data result =
     \<lparr>ack_message_id = sr_message_id result, ack_conversation_id = sr_conversation_id result,
      ack_sequence = sr_sequence result, ack_to_user_id = sr_to_user_id result, ack_status = sr_status result,
      ack_created_at = sr_created_at result\<rparr>"

definition push_data :: "SendMessageResult \<Rightarrow> MessagePushData" where
  "push_data result =
     \<lparr>push_message_id = sr_message_id result, push_conversation_id = sr_conversation_id result,
      push_sequence = sr_sequence result, push_from_user_id = sr_from_user_id result,
      push_from_username = sr_from_username result, push_to_user_id = sr_to_user_id result,
      push_content = sr_content result, push_created_at = sr_created_at result,
      push_server_time = sr_server_time result\<rparr>"

definition push_to :: "userId \<Rightarrow> string \<Rightarrow> connectionId \<Rightarrow> OutboundMessage" where
  "push_to uid payload conn_id =
     \<lparr>ob_target_conn_id = conn_id, ob_target_user_id = uid, ob_payload = payload, ob_message_id = []\<rparr>"

text \<open>The pushes of a stored message; publishing to another server comes between the two groups.\<close>

definition send_pushes ::
  "'w MessageHandler \<Rightarrow> 'j Json \<Rightarrow> SendMessageResult \<Rightarrow> ('w, OutboundMessage list option) state" where
  "send_pushes self J result =
     (let push = fillMessagePush J (push_data result)
            \<lparr>rs_msg_type = ''message_push'', rs_seq = 0, rs_code = OK, rs_message = ''new message'', rs_data = js_null J\<rparr>
      in case encodeResponse J push of
           None \<Rightarrow> ret None
         | Some payload \<Rightarrow> do {
             let targets = (if sr_to_conn_ids result = [] \<and> sr_to_conn_id result \<noteq> 0
                            then [sr_to_conn_id result] else sr_to_conn_ids result);
             _ \<leftarrow> (if targets = [] \<and> sr_remote_server_id result \<noteq> []
                   then publishRemotePush (hd_chat_service self) result payload else ret True);
             let pushes = map (push_to (sr_to_user_id result) payload) targets;
             ret (if sr_sender_sync_conn_ids result = [] then Some pushes
                  else map_option (\<lambda>sync. pushes @ map (push_to (sr_from_user_id result) sync) (sr_sender_sync_conn_ids result))
                         (encodeResponse J (push\<lparr>rs_msg_type := ''message_sync_push'', rs_message := ''message synced''\<rparr>)))
           })"

definition handleSendMessage ::
  "'w MessageHandler \<Rightarrow> 'j Json \<Rightarrow> HandlerInputs \<Rightarrow> 'j Message \<Rightarrow> connectionId \<Rightarrow> ('w, HandleResult option) state" where
  "handleSendMessage self J inputs msg conn_id =
     (case parseSendMessageRequest J msg of
        Inl err \<Rightarrow> ret (reply J (MakeInvalidParamResponse J msg err))
      | Inr req \<Rightarrow> do {
          result \<leftarrow> sendMessage (hd_chat_service self) (hi_send inputs) conn_id req;
          let ack = retry_after J (sr_code result) (sr_retry_after_seconds result)
                      (Response_for J ''send_message_resp'' msg (sr_code result) (sr_message result));
          if sr_code result \<noteq> OK then ret (reply J ack)
          else do {
            pushes \<leftarrow> send_pushes self J result;
            ret (case pushes of
                   None \<Rightarrow> None
                 | Some ps \<Rightarrow> respond J (fillSendMessageAck J (ack_data result) ack) (HandleResult_default\<lparr>hr_pushes := ps\<rparr>))
          }
        })"

definition handlePullOfflineMessages ::
  "'w MessageHandler \<Rightarrow> 'j Json \<Rightarrow> 'j Message \<Rightarrow> connectionId \<Rightarrow> ('w, HandleResult option) state" where
  "handlePullOfflineMessages self J msg conn_id =
     (case parsePullOfflineMessagesRequest J msg of
        Inl err \<Rightarrow> ret (reply J (MakeInvalidParamResponse J msg err))
      | Inr req \<Rightarrow> do {
          result \<leftarrow> pullOfflineMessages (hd_chat_service self) conn_id req;
          let resp = Response_for J ''pull_offline_messages_resp'' msg (po_code result) (po_message result);
          ret (reply J (if po_code result = OK
                        then fillPullOfflineMessagesResponse J
                               \<lparr>pd_messages = po_messages result, pd_has_more = po_has_more result\<rparr> resp
                        else resp))
        })"

definition state_response ::
  "'j Json \<Rightarrow> string \<Rightarrow> 'j Message \<Rightarrow> MessageStateUpdateResult \<Rightarrow> HandleResult option" where
  "state_response J mtype msg result =
     (let resp = Response_for J mtype msg (su_code result) (su_message result)
      in reply J (if su_code result = OK
                  then fillMessageStateUpdateResponse J
                         \<lparr>ms_message_ids = su_message_ids result, ms_affected_rows = su_affected_rows result\<rparr> resp
                  else resp))"

definition handleMessageAck ::
  "'w MessageHandler \<Rightarrow> 'j Json \<Rightarrow> HandlerInputs \<Rightarrow> 'j Message \<Rightarrow> connectionId \<Rightarrow> ('w, HandleResult option) state" where
  "handleMessageAck self J inputs msg conn_id =
     (case parseMessageAckRequest J msg of
        Inl err \<Rightarrow> ret (reply J (MakeInvalidParamResponse J msg err))
      | Inr req \<Rightarrow> do {
          result \<leftarrow> acknowledgeMessages (hd_chat_service self) (hi_now inputs) conn_id req;
          ret (state_response J ''message_ack_resp'' msg result)
        })"

definition handleMarkMessageRead ::
  "'w MessageHandler \<Rightarrow> 'j Json \<Rightarrow> HandlerInputs \<Rightarrow> 'j Message \<Rightarrow> connectionId \<Rightarrow> ('w, HandleResult option) state" where
  "handleMarkMessageRead self J inputs msg conn_id =
     (case parseMarkMessageReadRequest J msg of
        Inl err \<Rightarrow> ret (reply J (MakeInvalidParamResponse J msg err))
      | Inr req \<Rightarrow> do {
          result \<leftarrow> markMessagesRead (hd_chat_service self) (hi_now inputs) conn_id req;
          ret (state_response J ''mark_message_read_resp'' msg result)
        })"


section \<open>Friends\<close>

definition unavailable :: "'j Json \<Rightarrow> string \<Rightarrow> 'j Message \<Rightarrow> string \<Rightarrow> HandleResult option" where
  "unavailable J mtype msg message = reply J (Response_for J mtype msg INTERNAL_ERROR message)"

definition friendship_response ::
  "'j Json \<Rightarrow> string \<Rightarrow> 'j Message \<Rightarrow> FriendshipActionResult \<Rightarrow> HandleResult option" where
  "friendship_response J mtype msg result =
     (let resp = Response_for J mtype msg (far_code result) (far_message result)
      in reply J
        (case far_friendship result of
           Some f \<Rightarrow>
             if far_code result = OK
             then fillFriendshipActionResponse J
                    \<lparr>fa_requester_id = f_requester_id f, fa_addressee_id = f_addressee_id f,
                     fa_friend_user_id = far_friend_user_id result, fa_status = f_status f,
                     fa_created_at = f_created_at f, fa_updated_at = f_updated_at f\<rparr> resp
             else resp
         | None \<Rightarrow> resp))"

definition handleAddFriend ::
  "'w MessageHandler \<Rightarrow> 'j Json \<Rightarrow> 'j Message \<Rightarrow> connectionId \<Rightarrow> ('w, HandleResult option) state" where
  "handleAddFriend self J msg conn_id =
     (case hd_friend_service self of
        None \<Rightarrow> ret (unavailable J ''add_friend_resp'' msg ''friend service unavailable'')
      | Some srv \<Rightarrow>
          (case parseAddFriendRequest J msg of
             Inl err \<Rightarrow> ret (reply J (MakeInvalidParamResponse J msg err))
           | Inr req \<Rightarrow> do {
               result \<leftarrow> addFriend srv conn_id req;
               ret (friendship_response J ''add_friend_resp'' msg result)
             }))"

definition handleAcceptFriend ::
  "'w MessageHandler \<Rightarrow> 'j Json \<Rightarrow> 'j Message \<Rightarrow> connectionId \<Rightarrow> ('w, HandleResult option) state" where
  "handleAcceptFriend self J msg conn_id =
     (case hd_friend_service self of
        None \<Rightarrow> ret (unavailable J ''accept_friend_resp'' msg ''friend service unavailable'')
      | Some srv \<Rightarrow>
          (case parseAcceptFriendRequest J msg of
             Inl err \<Rightarrow> ret (reply J (MakeInvalidParamResponse J msg err))
           | Inr req \<Rightarrow> do {
               result \<leftarrow> acceptFriend srv conn_id req;
               ret (friendship_response J ''accept_friend_resp'' msg result)
             }))"

definition handleDeleteFriend ::
  "'w MessageHandler \<Rightarrow> 'j Json \<Rightarrow> 'j Message \<Rightarrow> connectionId \<Rightarrow> ('w, HandleResult option) state" where
  "handleDeleteFriend self J msg conn_id =
     (case hd_friend_service self of
        None \<Rightarrow> ret (unavailable J ''delete_friend_resp'' msg ''friend service unavailable'')
      | Some srv \<Rightarrow>
          (case parseDeleteFriendRequest J msg of
             Inl err \<Rightarrow> ret (reply J (MakeInvalidParamResponse J msg err))
           | Inr req \<Rightarrow> do {
               result \<leftarrow> deleteFriend srv conn_id req;
               let resp = Response_for J ''delete_friend_resp'' msg (far_code result) (far_message result);
               ret (reply J (if far_code result = OK
                             then fillDeleteFriendResponse J
                                    \<lparr>dfd_friend_user_id = far_friend_user_id result, dfd_deleted = far_deleted result\<rparr> resp
                             else resp))
             }))"

definition handleListFriends ::
  "'w MessageHandler \<Rightarrow> 'j Json \<Rightarrow> 'j Message \<Rightarrow> connectionId \<Rightarrow> ('w, HandleResult option) state" where
  "handleListFriends self J msg conn_id =
     (case hd_friend_service self of
        None \<Rightarrow> ret (unavailable J ''list_friends_resp'' msg ''friend service unavailable'')
      | Some srv \<Rightarrow> do {
          result \<leftarrow> listFriends srv conn_id;
          let resp = Response_for J ''list_friends_resp'' msg (lfs_code result) (lfs_message result);
          ret (reply J (if lfs_code result = OK
                        then fillListFriendsResponse J \<lparr>lf_friends = lfs_friends result\<rparr> resp else resp))
        })"

section \<open>Groups\<close>

definition handleCreateGroup ::
  "'w MessageHandler \<Rightarrow> 'j Json \<Rightarrow> HandlerInputs \<Rightarrow> 'j Message \<Rightarrow> connectionId \<Rightarrow> ('w, HandleResult option) state" where
  "handleCreateGroup self J inputs msg conn_id =
     (case hd_group_service self of
        None \<Rightarrow> ret (unavailable J ''create_group_resp'' msg ''group service unavailable'')
      | Some srv \<Rightarrow>
          (case parseCreateGroupRequest J msg of
             Inl err \<Rightarrow> ret (reply J (MakeInvalidParamResponse J msg err))
           | Inr req \<Rightarrow> do {
               result \<leftarrow> service_createGroup srv (hi_group_random inputs) conn_id req;
               let resp = Response_for J ''create_group_resp'' msg (cgr_code result) (cgr_message result);
               ret (reply J
                 (case cgr_group result of
                    Some g \<Rightarrow>
                      if cgr_code result = OK
                      then fillCreateGroupResponse J \<lparr>cgd_group = g, cgd_member_ids = cgr_member_ids result\<rparr> resp
                      else resp
                  | None \<Rightarrow> resp))
             }))"

definition handleAddGroupMember ::
  "'w MessageHandler \<Rightarrow> 'j Json \<Rightarrow> 'j Message \<Rightarrow> connectionId \<Rightarrow> ('w, HandleResult option) state" where
  "handleAddGroupMember self J msg conn_id =
     (case hd_group_service self of
        None \<Rightarrow> ret (unavailable J ''add_group_member_resp'' msg ''group service unavailable'')
      | Some srv \<Rightarrow>
          (case parseAddGroupMemberRequest J msg of
             Inl err \<Rightarrow> ret (reply J (MakeInvalidParamResponse J msg err))
           | Inr req \<Rightarrow> do {
               result \<leftarrow> addGroupMember srv conn_id req;
               let resp = Response_for J ''add_group_member_resp'' msg (agr_code result) (agr_message result);
               ret (reply J
                 (case agr_member result of
                    Some m \<Rightarrow> if agr_code result = OK then fillAddGroupMemberResponse J \<lparr>agd_member = m\<rparr> resp else resp
                  | None \<Rightarrow> resp))
             }))"

definition group_push :: "'j Json \<Rightarrow> SendGroupMessageResult \<Rightarrow> GroupMessageDelivery \<Rightarrow> OutboundMessage option" where
  "group_push J result d =
     map_option (\<lambda>payload. push_to (gd_to_user_id d) payload (gd_target_conn_id d))
       (encodeResponse J (fill J
          [(''message_id'', js_of_string J (gd_message_id d)), (''group_id'', js_of_string J (gd_group_id d)),
           (''conversation_id'', js_of_string J (gd_conversation_id d)),
           (''sequence'', js_of_integer J (gd_sequence d)),
           (''from_user_id'', js_of_integer J (sgr_from_user_id result)),
           (''from_username'', js_of_string J (sgr_from_username result)),
           (''to_user_id'', js_of_integer J (gd_to_user_id d)), (''content'', js_of_string J (sgr_content result)),
           (''created_at'', js_of_integer J (gd_created_at d)),
           (''server_time'', js_of_integer J (sgr_server_time result))]
          \<lparr>rs_msg_type = ''group_message_push'', rs_seq = 0, rs_code = OK, rs_message = ''new group message'',
           rs_data = js_null J\<rparr>))"

fun group_pushes :: "'j Json \<Rightarrow> SendGroupMessageResult \<Rightarrow> GroupMessageDelivery list \<Rightarrow> OutboundMessage list option" where
  "group_pushes J result [] = Some []"
| "group_pushes J result (d # ds) =
     (if gd_target_conn_id d = 0 then group_pushes J result ds
      else case group_push J result d of
        None \<Rightarrow> None
      | Some p \<Rightarrow> map_option (Cons p) (group_pushes J result ds))"

definition handleSendGroupMessage ::
  "'w MessageHandler \<Rightarrow> 'j Json \<Rightarrow> HandlerInputs \<Rightarrow> 'j Message \<Rightarrow> connectionId \<Rightarrow> ('w, HandleResult option) state" where
  "handleSendGroupMessage self J inputs msg conn_id =
     (case hd_group_service self of
        None \<Rightarrow> ret (unavailable J ''send_group_message_resp'' msg ''group service unavailable'')
      | Some srv \<Rightarrow>
          (case parseSendGroupMessageRequest J msg of
             Inl err \<Rightarrow> ret (reply J (MakeInvalidParamResponse J msg err))
           | Inr req \<Rightarrow> do {
               result \<leftarrow> sendGroupMessage srv (hi_group_send inputs) conn_id req;
               let resp = Response_for J ''send_group_message_resp'' msg (sgr_code result) (sgr_message result);
               ret (if sgr_code result \<noteq> OK then reply J resp
                    else case group_pushes J result (sgr_messages result) of
                      None \<Rightarrow> None
                    | Some ps \<Rightarrow>
                        respond J
                          (fillSendGroupMessageResponse J
                             \<lparr>sgd_group_id = sgr_group_id result, sgd_conversation_id = sgr_conversation_id result,
                              sgd_messages = sgr_messages result\<rparr> resp)
                          (HandleResult_default\<lparr>hr_pushes := ps\<rparr>))
             }))"

section \<open>Dispatch\<close>

definition dispatch ::
  "'w MessageHandler \<Rightarrow> 'j Json \<Rightarrow> HandlerInputs \<Rightarrow> 'j Message \<Rightarrow> RequestContext \<Rightarrow> ('w, HandleResult option) state" where
  "dispatch self J inputs msg context =
     (let t = msg_type msg; conn_id = rq_conn_id context
      in if t = ''register'' then handleRegister self J inputs msg (rq_peer_ip context)
         else if t = ''login'' then handleLogin self J inputs msg conn_id (rq_peer_ip context)
         else if t = ''logout'' then handleLogout self J msg conn_id
         else if t = ''heartbeat'' then handleHeartbeat J inputs msg
         else if t = ''whoami'' then handleWhoAmI self J msg conn_id
         else if t = ''send_message'' then handleSendMessage self J inputs msg conn_id
         else if t = ''pull_offline_messages'' then handlePullOfflineMessages self J msg conn_id
         else if t = ''message_ack'' then handleMessageAck self J inputs msg conn_id
         else if t = ''mark_message_read'' then handleMarkMessageRead self J inputs msg conn_id
         else if t = ''add_friend'' then handleAddFriend self J msg conn_id
         else if t = ''accept_friend'' then handleAcceptFriend self J msg conn_id
         else if t = ''delete_friend'' then handleDeleteFriend self J msg conn_id
         else if t = ''list_friends'' then handleListFriends self J msg conn_id
         else if t = ''create_group'' then handleCreateGroup self J inputs msg conn_id
         else if t = ''add_group_member'' then handleAddGroupMember self J msg conn_id
         else if t = ''send_group_message'' then handleSendGroupMessage self J inputs msg conn_id
         else handleUnknown J msg)"

definition handle ::
  "'w MessageHandler \<Rightarrow> 'j Json \<Rightarrow> HandlerInputs \<Rightarrow> string \<Rightarrow> RequestContext \<Rightarrow> ('w, HandleResult option) state" where
  "handle self J inputs raw context =
     (case decodeMessage J raw of
        Inl (err, msg) \<Rightarrow> ret (reply J (MakeInvalidParamResponse J msg err))
      | Inr msg \<Rightarrow>
          if msg_type msg = ''resume_session'' then handleResumeSession self J msg
          else do {
            matches \<leftarrow> (if IsProtectedMessage (msg_type msg) \<and> msg_token msg \<noteq> []
                        then requestTokenMatches (hd_user_service self) (rq_conn_id context) (msg_token msg)
                        else ret True);
            if \<not> matches
            then ret (reply J (Response_for J (resp_type msg) msg INVALID_CREDENTIALS
                                 ''request token does not match connection session''))
            else do {
              _ \<leftarrow> refreshPresence (hd_user_service self) (rq_conn_id context);
              dispatch self J inputs msg context
            }
          })"

text \<open>The handler as the object the epoll server calls.\<close>

definition with_inputs :: "(HandlerInputs \<Rightarrow> ('w, 'a) state) \<Rightarrow> ('w hworld, 'a) state" where
  "with_inputs f = State (\<lambda>(w, inputs).
     case run_state (f (inputs 0)) w of (a, w') \<Rightarrow> (a, w', \<lambda>n. inputs (Suc n)))"

definition message_handler_ops :: "'w MessageHandler \<Rightarrow> 'j Json \<Rightarrow> 'w hworld IMessageHandler" where
  "message_handler_ops self J =
     \<lparr>mh_handle = (\<lambda>raw context. with_inputs (\<lambda>i. handle self J i raw context)),
      mh_onConnectionClosed = (\<lambda>c. with_inputs (\<lambda>i. clearSession (hd_user_service self) c)),
      mh_applyBindSession = (\<lambda>c session. with_inputs (\<lambda>i. bindSession (hd_user_service self) (hi_now i) c session)),
      mh_applyUnbindSession = (\<lambda>c. with_inputs (\<lambda>i. logoutSession (hd_user_service self) c)),
      mh_isConnectionBoundToUser = (\<lambda>c u w. isConnectionBoundToUser (hd_user_service self) c u (fst w)),
      mh_onMessagesDelivered = (\<lambda>u ids. with_inputs (\<lambda>i. markMessagesDelivered (hd_chat_service self) (hi_now i) u ids))\<rparr>"


section \<open>Every request is answered\<close>

text \<open>
  A result carries an encoded response with the sequence number of the request and its type with the
  suffix \<^verbatim>\<open>_resp\<close>, asks for no delivery marks, and its pushes carry no message id.  The handler
  throws, the result \<^term>\<open>None\<close>, only where the library refuses to serialize a response or a push.
\<close>

definition answered :: "'j Json \<Rightarrow> 'j Message \<Rightarrow> HandleResult option \<Rightarrow> bool" where
  "answered J msg r \<longleftrightarrow>
     (case r of
        None \<Rightarrow> \<exists>resp. encodeResponse J resp = None
      | Some res \<Rightarrow>
          (\<exists>resp. encodeResponse J resp = Some (hr_response res) \<and> rs_seq resp = msg_seq msg \<and>
             rs_msg_type resp = resp_type msg) \<and>
          hr_delivered_message_ids res = [] \<and> list_all (\<lambda>p. ob_message_id p = []) (hr_pushes res))"

definition plain_pushes :: "'j Json \<Rightarrow> OutboundMessage list option \<Rightarrow> bool" where
  "plain_pushes J ps \<longleftrightarrow>
     (case ps of
        None \<Rightarrow> \<exists>resp. encodeResponse J resp = None
      | Some l \<Rightarrow> list_all (\<lambda>p. ob_message_id p = []) l)"

lemma fill_envelope [simp]:
  "rs_seq (fill J ms resp) = rs_seq resp" "rs_msg_type (fill J ms resp) = rs_msg_type resp"
  by (simp_all add: fill_def)

lemmas fill_defs = fillRegisterResponse_def fillLoginResponse_def fillHeartbeatResponse_def fillSendMessageAck_def
  fillMessagePush_def fillPullOfflineMessagesResponse_def fillMessageStateUpdateResponse_def
  fillFriendshipActionResponse_def fillDeleteFriendResponse_def fillListFriendsResponse_def
  fillCreateGroupResponse_def fillAddGroupMemberResponse_def fillSendGroupMessageResponse_def

lemma Response_for_envelope [simp]:
  "rs_seq (Response_for J mtype msg code message) = msg_seq msg"
  "rs_msg_type (Response_for J mtype msg code message) = mtype"
  by (simp_all add: Response_for_def)

lemma retry_after_envelope [simp]:
  "rs_seq (retry_after J code n resp) = rs_seq resp" "rs_msg_type (retry_after J code n resp) = rs_msg_type resp"
  by (simp_all add: retry_after_def)

lemma answered_respond:
  assumes "rs_seq resp = msg_seq msg" "rs_msg_type resp = resp_type msg"
    and "hr_delivered_message_ids res = []" "list_all (\<lambda>p. ob_message_id p = []) (hr_pushes res)"
  shows "answered J msg (respond J resp res)"
  using assms by (auto simp: answered_def respond_def split: option.split)

lemma default_result [simp]:
  "hr_delivered_message_ids HandleResult_default = []" "hr_pushes HandleResult_default = []"
  "hr_session_action HandleResult_default = NONE"
  by (simp_all add: HandleResult_default_def)

lemma wp_any: "(\<And>a s'. Q a s') \<Longrightarrow> wp m Q s"
  by (simp add: wp_def split: prod.split)

lemma answered_reply:
  "rs_seq resp = msg_seq msg \<Longrightarrow> rs_msg_type resp = resp_type msg \<Longrightarrow> answered J msg (reply J resp)"
  by (rule answered_respond) simp_all

lemma answered_invalid: "answered J msg (reply J (MakeInvalidParamResponse J msg err))"
  by (rule answered_reply) (simp_all add: MakeInvalidParamResponse_def)

lemma answered_unavailable: "mtype = resp_type msg \<Longrightarrow> answered J msg (unavailable J mtype msg message)"
  unfolding unavailable_def by (rule answered_reply) simp_all

lemma send_pushes_plain:
  "wp (send_pushes self J result) (\<lambda>ps _. plain_pushes J ps) w"
  unfolding send_pushes_def Let_def
  by (intro wp_intros wp_any) (auto simp: push_to_def list_all_iff plain_pushes_def split: option.split)

lemma group_pushes_plain: "plain_pushes J (group_pushes J result ds)"
  by (induction ds) (auto simp: group_push_def push_to_def plain_pushes_def split: option.splits)

lemma answered_pushes:
  assumes "plain_pushes J ps" "rs_seq resp = msg_seq msg" "rs_msg_type resp = resp_type msg"
  shows "answered J msg (case ps of None \<Rightarrow> None | Some l \<Rightarrow> respond J resp (HandleResult_default\<lparr>hr_pushes := l\<rparr>))"
proof (cases ps)
  case None
  then show ?thesis using assms(1) by (simp add: answered_def plain_pushes_def)
next
  case (Some l)
  then show ?thesis using assms by (auto simp: plain_pushes_def intro!: answered_respond)
qed

lemma handlers_answer:
  "wp (handleRegister self J i msg ip) (\<lambda>r _. answered J msg r) w"
  "wp (handleLogin self J i msg c ip) (\<lambda>r _. answered J msg r) w"
  "wp (handleLogout self J msg c) (\<lambda>r _. answered J msg r) w"
  "wp (handleHeartbeat J i msg) (\<lambda>r _. answered J msg r) w"
  "wp (handleWhoAmI self J msg c) (\<lambda>r _. answered J msg r) w"
  "wp (handleUnknown J msg) (\<lambda>r _. answered J msg r) w"
  unfolding handleRegister_def handleLogin_def handleLogout_def handleHeartbeat_def handleWhoAmI_def
    handleUnknown_def Let_def
  by (intro wp_intros answered_invalid wp_any; auto simp: fill_defs intro!: answered_respond)+

lemma chat_handlers_answer:
  "msg_type msg = ''resume_session'' \<Longrightarrow> wp (handleResumeSession self J msg) (\<lambda>r _. answered J msg r) w"
  "msg_type msg = ''send_message'' \<Longrightarrow> wp (handleSendMessage self J i msg c) (\<lambda>r _. answered J msg r) w"
  "msg_type msg = ''pull_offline_messages'' \<Longrightarrow> wp (handlePullOfflineMessages self J msg c) (\<lambda>r _. answered J msg r) w"
  "msg_type msg = ''message_ack'' \<Longrightarrow> wp (handleMessageAck self J i msg c) (\<lambda>r _. answered J msg r) w"
  "msg_type msg = ''mark_message_read'' \<Longrightarrow> wp (handleMarkMessageRead self J i msg c) (\<lambda>r _. answered J msg r) w"
proof -
  show "wp (handleResumeSession self J msg) (\<lambda>r _. answered J msg r) w" if "msg_type msg = ''resume_session''"
    unfolding handleResumeSession_def Let_def
    by (intro wp_intros wp_any) (use that in \<open>auto simp: resp_type_def intro!: answered_respond\<close>)
  show "wp (handleSendMessage self J i msg c) (\<lambda>r _. answered J msg r) w" if "msg_type msg = ''send_message''"
    unfolding handleSendMessage_def Let_def
    by (intro wp_intros answered_invalid wp_mono [OF send_pushes_plain] wp_any)
       (use that in \<open>auto simp: fill_defs resp_type_def intro!: answered_respond answered_pushes\<close>)
  show "wp (handlePullOfflineMessages self J msg c) (\<lambda>r _. answered J msg r) w" if "msg_type msg = ''pull_offline_messages''"
    unfolding handlePullOfflineMessages_def Let_def
    by (intro wp_intros answered_invalid wp_any) (use that in \<open>auto simp: fill_defs resp_type_def intro!: answered_respond\<close>)
  show "wp (handleMessageAck self J i msg c) (\<lambda>r _. answered J msg r) w" if "msg_type msg = ''message_ack''"
    unfolding handleMessageAck_def state_response_def Let_def
    by (intro wp_intros answered_invalid wp_any) (use that in \<open>auto simp: fill_defs resp_type_def intro!: answered_respond\<close>)
  show "wp (handleMarkMessageRead self J i msg c) (\<lambda>r _. answered J msg r) w" if "msg_type msg = ''mark_message_read''"
    unfolding handleMarkMessageRead_def state_response_def Let_def
    by (intro wp_intros answered_invalid wp_any) (use that in \<open>auto simp: fill_defs resp_type_def intro!: answered_respond\<close>)
qed


lemma friendship_response_answers:
  "mtype = resp_type msg \<Longrightarrow> answered J msg (friendship_response J mtype msg result)"
  unfolding friendship_response_def Let_def
  by (rule answered_reply) (auto simp: fill_defs split: option.split)

lemma friend_handlers_answer:
  "msg_type msg = ''add_friend'' \<Longrightarrow> wp (handleAddFriend self J msg c) (\<lambda>r _. answered J msg r) w"
  "msg_type msg = ''accept_friend'' \<Longrightarrow> wp (handleAcceptFriend self J msg c) (\<lambda>r _. answered J msg r) w"
  "msg_type msg = ''delete_friend'' \<Longrightarrow> wp (handleDeleteFriend self J msg c) (\<lambda>r _. answered J msg r) w"
  "msg_type msg = ''list_friends'' \<Longrightarrow> wp (handleListFriends self J msg c) (\<lambda>r _. answered J msg r) w"
  unfolding handleAddFriend_def handleAcceptFriend_def handleDeleteFriend_def handleListFriends_def Let_def
  by (intro wp_intros answered_invalid answered_unavailable wp_any friendship_response_answers;
      auto simp: fill_defs resp_type_def intro!: answered_respond)+

lemma group_handlers_answer:
  "msg_type msg = ''create_group'' \<Longrightarrow> wp (handleCreateGroup self J i msg c) (\<lambda>r _. answered J msg r) w"
  "msg_type msg = ''add_group_member'' \<Longrightarrow> wp (handleAddGroupMember self J msg c) (\<lambda>r _. answered J msg r) w"
  unfolding handleCreateGroup_def handleAddGroupMember_def Let_def
  by (intro wp_intros answered_invalid answered_unavailable wp_any;
      auto simp: fill_defs resp_type_def split: option.split
        intro!: answered_respond)+

lemma handleSendGroupMessage_answers:
  assumes "msg_type msg = ''send_group_message''"
  shows "wp (handleSendGroupMessage self J i msg c) (\<lambda>r _. answered J msg r) w"
  unfolding handleSendGroupMessage_def Let_def
  by (intro wp_intros answered_invalid answered_unavailable wp_any)
     (use assms in \<open>auto simp: fill_defs resp_type_def intro!: answered_reply answered_pushes group_pushes_plain\<close>)

lemma dispatch_answers: "wp (dispatch self J i msg ctx) (\<lambda>r _. answered J msg r) w"
  unfolding dispatch_def Let_def
  by (intro wp_if handlers_answer chat_handlers_answer friend_handlers_answer group_handlers_answer
      handleSendGroupMessage_answers)

lemma handle_answers:
  "wp (handle self J i raw ctx)
     (\<lambda>r _. answered J (case decodeMessage J raw of Inl (_, msg) \<Rightarrow> msg | Inr msg \<Rightarrow> msg) r) w"
proof (cases "decodeMessage J raw")
  case (Inl p)
  then show ?thesis
    unfolding handle_def by (cases p) (simp add: wp_ret answered_invalid)
next
  case (Inr msg)
  have "wp (handle self J i raw ctx) (\<lambda>r _. answered J msg r) w"
    unfolding handle_def Inr sum.case
    by (intro wp_if chat_handlers_answer wp_bind wp_ret answered_reply dispatch_answers;
        (rule wp_any, intro wp_if wp_bind wp_ret answered_reply wp_any dispatch_answers)?) simp_all
  with Inr show ?thesis by simp
qed


section \<open>The contract of the epoll server\<close>

text \<open>
  The server asks two things of a result: no delivery marks together with pushes, and a response with
  every session action. The second needs that the library never serializes to the empty text.
\<close>

definition dump_text :: "'j Json \<Rightarrow> bool" where
  "dump_text J \<longleftrightarrow> (\<forall>v. js_dump J v \<noteq> Some [])"

text \<open>The library with an empty text taken for a failure.\<close>

definition with_text :: "'j Json \<Rightarrow> 'j Json" where
  "with_text J = J\<lparr>js_dump := (\<lambda>v. if js_dump J v = Some [] then None else js_dump J v)\<rparr>"

lemma with_text_same: "dump_text J \<Longrightarrow> with_text J = J"
  by (simp add: with_text_def dump_text_def)

lemma with_text_text: "js_dump (with_text J) v \<noteq> Some []"
  by (simp add: with_text_def)

lemma answered_wf_result: "answered (with_text J) msg (Some r) \<Longrightarrow> wf_result r"
  by (auto simp: answered_def wf_result_def encodeResponse_def with_text_text)

interpretation chat_server: message_handler "message_handler_ops self (with_text J)" for self J
proof unfold_locales
  fix req ctx w r w'
  assume "run_state (mh_handle (message_handler_ops self (with_text J)) req ctx) w = (Some r, w')"
  then obtain v where "run_state (handle self (with_text J) (snd w 0) req ctx) (fst w) = (Some r, v)"
    by (auto simp: message_handler_ops_def with_inputs_def split: prod.splits)
  from wpD [OF handle_answers this] show "wf_result r"
    by (rule answered_wf_result)
qed

lemma chat_server_inv:
  assumes "dump_text J" "server_reach (message_handler_ops self J) opts w0 (s, w, log)"
  shows "server_inv log s"
  using chat_server.server_inv_reach [of self J opts w0 s w log] assms by (simp add: with_text_same)

end
