(* ===== verification/ServerWorld.thy ===== *)
theory ServerWorld
  imports ServerRuns
begin

text \<open>
  What the runs of the epoll server do to the world of its handler. The server changes that world only
  by calling the handler, so an invariant of the world and a relation to its start that every callback
  keeps hold in all runs.
\<close>

locale keeping_handler = preorder_guarantee I R
  for I :: "'w \<Rightarrow> bool" and R :: "'w \<Rightarrow> 'w \<Rightarrow> bool" +
  fixes h :: "'w IMessageHandler"
  assumes handle_keeps: "assured I R (mh_handle h req ctx)"
    and closed_keeps: "assured I R (mh_onConnectionClosed h c)"
    and bind_keeps: "assured I R (mh_applyBindSession h c session)"
    and unbind_keeps: "assured I R (mh_applyUnbindSession h c)"
    and delivered_keeps: "assured I R (mh_onMessagesDelivered h u ids)"
begin

definition kept :: "'w \<Rightarrow> 'w \<Rightarrow> bool" where
  "kept w w' \<longleftrightarrow> (I w \<longrightarrow> I w' \<and> R w w')"

lemma kept_refl: "kept w w"
  by (simp add: kept_def R_refl)

lemma kept_trans: "kept w w1 \<Longrightarrow> kept w1 w2 \<Longrightarrow> kept w w2"
  by (auto simp: kept_def intro: R_trans)

lemma kept_run: "assured I R m \<Longrightarrow> kept w (snd (run_state m w))"
  by (cases "run_state m w") (auto simp: kept_def dest: assured_run)

lemma kept_closeClientFd: "kept w (snd (closeClientFd h fd (s, w)))"
  by (auto simp: closeClientFd_def dispatchConnectionClosed_def kept_refl kept_run [OF closed_keeps]
      split: option.split)

lemma kept_closeClientFd_net: "kept (snd n) (snd (closeClientFd h fd n))"
  by (cases n) (simp add: kept_closeClientFd)

lemma kept_start_packets: "kept w (snd (snd (start_packets h fd cid packets (s, w))))"
  by (induction packets arbitrary: s)
     (auto simp: Let_def kept_refl kept_closeClientFd split: prod.split option.split)

lemma kept_read_loop: "kept w (snd (read_loop h now fd cid answers (s, w)))"
proof (induction answers arbitrary: s w)
  case Nil
  show ?case by (simp add: kept_refl)
next
  case (Cons a answers)
  show ?case
  proof (cases a)
    case (RecvBytes chunk)
    obtain fed packets c2 where feed:
      "feedPacketData now (touchOnRecv now (length chunk) (sv_contexts s cid)) chunk [] = (fed, packets, c2)"
      by (metis prod.exhaust)
    obtain closed s3 w3 where ps: "start_packets h fd cid packets (on_context cid (\<lambda>_. c2) s, w) = (closed, s3, w3)"
      by (metis prod.exhaust)
    have "kept w w3"
      using kept_start_packets [of w fd cid packets "on_context cid (\<lambda>_. c2) s"] ps by simp
    then show ?thesis
      using RecvBytes feed ps kept_closeClientFd kept_trans [OF _ Cons.IH [of w3 s3]]
      by (simp add: Let_def)
  qed (simp_all add: kept_refl kept_closeClientFd)
qed

lemma kept_onReadable: "kept (snd n) (snd (onReadable h now fd answers n))"
  by (cases n) (simp add: onReadable_def kept_refl kept_read_loop split: option.split)

lemma kept_write_loop: "kept w (snd (write_loop h now ctl_ok fd cid answers (s, w)))"
proof (induction answers arbitrary: s)
  case (Cons a answers)
  then show ?case
    by (subst write_loop.simps, cases a) (simp_all del: write_loop.simps add: kept_refl kept_closeClientFd)
qed (simp add: kept_refl kept_closeClientFd)

lemma kept_onWritable: "kept (snd n) (snd (onWritable h now ctl_ok fd answers n))"
  by (cases n) (simp del: write_loop.simps add: onWritable_def kept_refl kept_write_loop split: option.split)

lemma kept_client_event: "kept (snd n) (snd (client_event h now ctl_ok fd ev received sent n))"
proof -
  define n1 where "n1 = (if ev_in ev then onReadable h now fd received n else n)"
  define n2 where "n2 = (if ev_out ev then onWritable h now ctl_ok fd sent n1 else n1)"
  have "kept (snd n) (snd n1)" by (simp add: n1_def kept_refl kept_onReadable)
  then have 2: "kept (snd n) (snd n2)"
    by (rule kept_trans) (simp add: n2_def kept_refl kept_onWritable)
  show ?thesis
    using 2 kept_trans [OF 2 kept_closeClientFd_net]
    by (simp add: client_event_def n1_def [symmetric] n2_def [symmetric] Let_def kept_closeClientFd_net)
qed

lemma kept_hand_out_pushes: "kept (snd (fst acc)) (snd (fst (hand_out_pushes h ctl i cid pushes acc)))"
proof (induction pushes arbitrary: i acc)
  case (Cons push pushes)
  have "kept (snd (fst acc)) (snd (fst (hand_out_push h (ctl i) cid push acc)))"
    by (auto simp: hand_out_push_def Let_def kept_refl kept_closeClientFd split: prod.split option.split)
  then show ?case using kept_trans [OF _ Cons.IH] by simp
qed (simp add: kept_refl)

lemma kept_apply_session_action: "kept (snd n) (snd (apply_session_action h task n))"
  by (cases n) (auto simp: apply_session_action_def kept_refl kept_run [OF bind_keeps] kept_run [OF unbind_keeps]
      split: SessionAction.split)

lemma kept_finish_response: "kept (snd n) (snd (finish_response h ctl task deferred n))"
proof -
  obtain s1 w1 marks where push: "hand_out_pushes h ctl 1 (rt_conn_id task) (rt_pushes task)
      (apply_session_action h task n, \<lparr>cm_own = [], cm_own_user = 0, cm_other = []\<rparr>) = ((s1, w1), marks)"
    by (metis prod.exhaust)
  have "kept (snd (apply_session_action h task n)) w1"
    using kept_hand_out_pushes [of "(apply_session_action h task n, \<lparr>cm_own = [], cm_own_user = 0, cm_other = []\<rparr>)"
        ctl 1 "rt_conn_id task" "rt_pushes task"] unfolding push by simp
  then have "kept (snd n) w1" by (rule kept_trans [OF kept_apply_session_action])
  then show ?thesis
    unfolding finish_response_def Let_def push
    by (auto split: prod.split intro: kept_trans [OF _ kept_closeClientFd])
qed

lemma kept_process_response: "kept (snd n) (snd (process_response h ctl locked task n))"
  by (cases n)
     (auto simp: process_response_def Let_def kept_refl kept_closeClientFd split: prod.split
       intro: kept_finish_response [where n = "(_, _)", simplified])

lemma kept_process_event: "kept (snd n) (snd (process_event h event n))"
  by (cases n) (auto simp: process_event_def kept_refl kept_closeClientFd split: prod.split option.split)

lemma kept_process_remote: "kept (snd n) (snd (process_remote h ctl_ok task n))"
proof -
  have "closeClientFd h fd (s, w) = (s1, w1) \<Longrightarrow> kept w w1" for s w s1 w1 fd
    using kept_closeClientFd [of w fd s] by simp
  then show ?thesis
    by (cases n) (auto simp: process_remote_def Let_def kept_refl split: prod.split option.split)
qed

lemma kept_scan_timeouts: "kept w (snd (scan_timeouts h opts now k (s, w)))"
proof (induction k arbitrary: s w)
  case (Suc k)
  show ?case
  proof (cases "sv_timeout_scan_queue s")
    case (Cons cid queue)
    define n where "n = (let s1 = s\<lparr>sv_timeout_scan_queue := queue\<rparr>
      in case getConnectionContextById cid s1 of
           None \<Rightarrow> (s1, w)
         | Some c \<Rightarrow>
             if timed_out opts now (sv_contexts s1 c) then closeClientFd h (ctx_fd (sv_contexts s1 c)) (s1, w)
             else (s1\<lparr>sv_timeout_scan_queue := sv_timeout_scan_queue s1 @ [cid]\<rparr>, w))"
    have "kept w (snd n)"
      by (auto simp: n_def Let_def kept_refl kept_closeClientFd split: option.split)
    moreover have "scan_timeouts h opts now (Suc k) (s, w) = scan_timeouts h opts now k (fst n, snd n)"
      by (simp add: Cons n_def Let_def)
    ultimately show ?thesis using kept_trans [OF _ Suc.IH [of "snd n" "fst n"]] by (simp only:)
  qed (simp add: kept_refl)
qed (simp add: kept_refl)

lemma kept_shutdown: "kept w (snd (shutdown h fds (s, w)))"
proof -
  have "kept (snd n) (snd (fold (closeClientFd h) fds n))" for n
  proof (induction fds arbitrary: n)
    case (Cons fd fds)
    show ?case using kept_trans [OF kept_closeClientFd_net Cons.IH] by simp
  qed (simp add: kept_refl)
  from this [of "(stop_server s, w)"] show ?thesis
    by (auto simp: shutdown_def close_clients_def split: prod.split)
qed

lemma kept_run_task: "kept (snd n) (snd (run_task h locked task n))"
proof (cases n)
  case (Pair s w)
  have "kept w (snd (run_task h locked task (s, w)))"
  proof (cases task)
    case (RequestTask cid ip req)
    then show ?thesis
      using kept_run [OF handle_keeps [of req "\<lparr>rq_conn_id = cid, rq_peer_ip = ip\<rparr>"], of w]
      by (auto split: prod.split option.split)
  qed (auto simp: Let_def kept_refl kept_run [OF closed_keeps] kept_run [OF delivered_keeps] split: option.split)
  with Pair show ?thesis by simp
qed

lemma kept_step:
  assumes "server_step h opts (s, w, log) (s', w', log')"
  shows "kept w w'"
  using assms
proof (cases rule: server_step.cases)
  case (client now ctl_ok fd ev received sent)
  then show ?thesis using kept_client_event [of "(s, w)" now ctl_ok fd ev received sent] by simp
next
  case (timer now)
  then show ?thesis
    using kept_scan_timeouts [of w opts now "min kMaxTimeoutScanBatch (length (sv_timeout_scan_queue s))" s]
    by (simp add: scanConnectionTimeouts_def)
next
  case (remote task tasks ctl_ok)
  then show ?thesis using kept_process_remote [of "(s\<lparr>sv_io := IoRemote tasks\<rparr>, w)" ctl_ok task] by simp
next
  case (response task tasks ctl locked)
  then show ?thesis using kept_process_response [of "(s\<lparr>sv_io := IoTasks tasks\<rparr>, w)" ctl locked task] by simp
next
  case (event ev evs)
  then show ?thesis using kept_process_event [of "(s\<lparr>sv_io := IoEvents evs\<rparr>, w)" ev] by simp
next
  case (close_down fds)
  then show ?thesis using kept_shutdown [of w fds s] by simp
next
  case (run task locked)
  then show ?thesis
    using kept_run_task [of "(s\<lparr>sv_running := remove1 task (sv_running s)\<rparr>, w)" locked task] by simp
qed (simp_all add: kept_refl)

lemma reach_keeps: "server_reach h opts w0 (s, w, log) \<Longrightarrow> I w0 \<Longrightarrow> I w \<and> R w0 w"
proof (induction "(s, w, log)" arbitrary: s w log rule: server_reach.induct)
  case init
  then show ?case by (simp add: R_refl)
next
  case (step n)
  then show ?case
    using R_trans by (cases n) (auto dest!: kept_step simp: kept_def)
qed

end

end
