(* ===== verification/HandlerWorld.thy ===== *)
theory HandlerWorld
  imports MessageHandler ServerWorld
begin

text \<open>
  What the message handler does to its world: every handler calls its services, every service calls its
  repositories, caches and sessions, so an invariant and a relation that these objects keep are kept by
  the whole handler, and by the epoll server that runs it.
\<close>

context preorder_guarantee
begin

lemma assured_case_option:
  "(x = None \<Longrightarrow> assured I R m) \<Longrightarrow> (\<And>y. x = Some y \<Longrightarrow> assured I R (f y)) \<Longrightarrow>
   assured I R (case x of None \<Rightarrow> m | Some y \<Rightarrow> f y)"
  by (cases x) simp_all

lemmas case_rules = assured_ret assured_gets assured_bind assured_if assured_case_option assured_sum assured_prod

end

section \<open>Objects that keep an invariant\<close>

definition user_repo_keeps :: "('w \<Rightarrow> bool) \<Rightarrow> ('w \<Rightarrow> 'w \<Rightarrow> bool) \<Rightarrow> 'w IUserRepository \<Rightarrow> bool" where
  "user_repo_keeps I R repo \<longleftrightarrow>
     (\<forall>n. assured I R (iu_findByUsername repo n)) \<and> (\<forall>u. assured I R (iu_findById repo u)) \<and>
     (\<forall>n h k. assured I R (iu_createUser repo n h k)) \<and> (\<forall>u h. assured I R (iu_updatePasswordHash repo u h))"

definition message_repo_keeps :: "('w \<Rightarrow> bool) \<Rightarrow> ('w \<Rightarrow> 'w \<Rightarrow> bool) \<Rightarrow> 'w IMessageRepository \<Rightarrow> bool" where
  "message_repo_keeps I R repo \<longleftrightarrow>
     (\<forall>m. assured I R (imr_createMessage repo m)) \<and> (\<forall>u c. assured I R (imr_findMessageByClientMsgId repo u c)) \<and>
     (\<forall>u l c. assured I R (imr_listOfflineMessages repo u l c)) \<and>
     (\<forall>now u ids. assured I R (imr_markDelivered repo now u ids)) \<and>
     (\<forall>now u ids. assured I R (imr_markRead repo now u ids))"

definition friend_repo_keeps :: "('w \<Rightarrow> bool) \<Rightarrow> ('w \<Rightarrow> 'w \<Rightarrow> bool) \<Rightarrow> 'w IFriendRepository \<Rightarrow> bool" where
  "friend_repo_keeps I R repo \<longleftrightarrow>
     (\<forall>a b. assured I R (ifr_findFriendship repo a b)) \<and> (\<forall>a b. assured I R (ifr_createFriendRequest repo a b)) \<and>
     (\<forall>a b. assured I R (ifr_acceptFriendRequest repo a b)) \<and> (\<forall>a b. assured I R (ifr_deleteFriendship repo a b)) \<and>
     (\<forall>a. assured I R (ifr_listFriendships repo a))"

definition group_repo_keeps :: "('w \<Rightarrow> bool) \<Rightarrow> ('w \<Rightarrow> 'w \<Rightarrow> bool) \<Rightarrow> 'w IGroupRepository \<Rightarrow> bool" where
  "group_repo_keeps I R repo \<longleftrightarrow>
     (\<forall>g ms. assured I R (igr_createGroup repo g ms)) \<and> (\<forall>g. assured I R (igr_findGroup repo g)) \<and>
     (\<forall>m. assured I R (igr_addMember repo m)) \<and> (\<forall>g. assured I R (igr_listMembers repo g))"

definition sessions_keep :: "('w \<Rightarrow> bool) \<Rightarrow> ('w \<Rightarrow> 'w \<Rightarrow> bool) \<Rightarrow> 'w ISessionManager \<Rightarrow> bool" where
  "sessions_keep I R sm \<longleftrightarrow>
     (\<forall>c s. assured I R (State (im_BindSession sm c s))) \<and> (\<forall>c. assured I R (modify (im_ClearSession sm c)))"

definition store_keeps :: "('w \<Rightarrow> bool) \<Rightarrow> ('w \<Rightarrow> 'w \<Rightarrow> bool) \<Rightarrow> 'w IGlobalSessionStore option \<Rightarrow> bool" where
  "store_keeps I R st \<longleftrightarrow> (\<forall>store. st = Some store \<longrightarrow>
     (\<forall>t. assured I R (igs_GetToken store t)) \<and> (\<forall>u. assured I R (igs_GetPresence store u)) \<and>
     (\<forall>c s now. assured I R (igs_Bind store c s now)) \<and> (\<forall>c s. assured I R (igs_Refresh store c s)) \<and>
     (\<forall>c s. assured I R (igs_ClearPresence store c s)) \<and> (\<forall>c s. assured I R (igs_RevokeSession store c s)))"

definition limiter_keeps :: "('w \<Rightarrow> bool) \<Rightarrow> ('w \<Rightarrow> 'w \<Rightarrow> bool) \<Rightarrow> 'w IRateLimiter option \<Rightarrow> bool" where
  "limiter_keeps I R lim \<longleftrightarrow> (\<forall>allow. lim = Some allow \<longrightarrow> (\<forall>clk k i l w. assured I R (allow clk k i l w)))"

definition dedup_keeps :: "('w \<Rightarrow> bool) \<Rightarrow> ('w \<Rightarrow> 'w \<Rightarrow> bool) \<Rightarrow> 'w IMessageDedupCache option \<Rightarrow> bool" where
  "dedup_keeps I R c \<longleftrightarrow> (\<forall>cache. c = Some cache \<longrightarrow>
     (\<forall>u i. assured I R (idc_Lookup cache u i)) \<and> (\<forall>u i m. assured I R (idc_Save cache u i m)) \<and>
     (\<forall>u i. assured I R (idc_Remove cache u i)))"

definition publisher_keeps :: "('w \<Rightarrow> bool) \<Rightarrow> ('w \<Rightarrow> 'w \<Rightarrow> bool) \<Rightarrow> 'w IRemotePushPublisher option \<Rightarrow> bool" where
  "publisher_keeps I R p \<longleftrightarrow> (\<forall>publish. p = Some publish \<longrightarrow> (\<forall>server event. assured I R (publish server event)))"

section \<open>Services\<close>

locale user_objects = preorder_guarantee I R for I :: "'w \<Rightarrow> bool" and R :: "'w \<Rightarrow> 'w \<Rightarrow> bool" +
  fixes srv :: "'w UserService"
  assumes repo: "user_repo_keeps I R (us_user_repository srv)"
    and sessions: "sessions_keep I R (us_session_manager srv)"
    and store: "store_keeps I R (us_global_session_store srv)"
    and limiter: "limiter_keeps I R (us_rate_limiter srv)"
begin

lemma leaves:
  "assured I R (iu_findByUsername (us_user_repository srv) n)" "assured I R (iu_createUser (us_user_repository srv) n h k)"
  "assured I R (iu_updatePasswordHash (us_user_repository srv) u h)"
  "assured I R (State (im_BindSession (us_session_manager srv) c s))"
  "assured I R (modify (im_ClearSession (us_session_manager srv) c))"
  "us_global_session_store srv = Some st \<Longrightarrow> assured I R (igs_GetToken st t)"
  "us_global_session_store srv = Some st \<Longrightarrow> assured I R (igs_Bind st c s now)"
  "us_global_session_store srv = Some st \<Longrightarrow> assured I R (igs_Refresh st c s)"
  "us_global_session_store srv = Some st \<Longrightarrow> assured I R (igs_ClearPresence st c s)"
  "us_global_session_store srv = Some st \<Longrightarrow> assured I R (igs_RevokeSession st c s)"
  "us_rate_limiter srv = Some allow \<Longrightarrow> assured I R (allow clk kind idn lm w)"
  using repo sessions store limiter
  by (simp_all add: user_repo_keeps_def sessions_keep_def store_keeps_def limiter_keeps_def)

lemma user_service_keeps:
  "assured I R (registerUser srv inputs rreq identity)" "assured I R (login srv inputs lreq c identity)"
  "assured I R (resumeSession srv tok)" "assured I R (requestTokenMatches srv c tok)" "assured I R (logout srv c)"
  "assured I R (whoami srv c)" "assured I R (bindSession srv now c s)" "assured I R (logoutSession srv c)"
  "assured I R (clearSession srv c)" "assured I R (refreshPresence srv c)"
  unfolding registerUser_def login_def resumeSession_def requestTokenMatches_def logout_def whoami_def bindSession_def
    logoutSession_def clearSession_def refreshPresence_def check_user_rate_def upgrade_hash_def Let_def prod.case
  by (intro case_rules leaves; assumption)+

end

locale chat_objects = preorder_guarantee I R for I :: "'w \<Rightarrow> bool" and R :: "'w \<Rightarrow> 'w \<Rightarrow> bool" +
  fixes srv :: "'w ChatService"
  assumes users: "user_repo_keeps I R (ch_user_repository srv)"
    and messages: "message_repo_keeps I R (ch_message_repository srv)"
    and store: "store_keeps I R (ch_global_session_store srv)"
    and limiter: "limiter_keeps I R (ch_rate_limiter srv)"
    and dedup: "dedup_keeps I R (ch_dedup_cache srv)"
    and publisher: "publisher_keeps I R (ch_remote_push_publisher srv)"
begin

lemma leaves:
  "assured I R (iu_findById (ch_user_repository srv) u)" "assured I R (imr_createMessage (ch_message_repository srv) m)"
  "assured I R (imr_findMessageByClientMsgId (ch_message_repository srv) u i)"
  "assured I R (imr_listOfflineMessages (ch_message_repository srv) u l i)"
  "assured I R (imr_markDelivered (ch_message_repository srv) now u ids)"
  "assured I R (imr_markRead (ch_message_repository srv) now u ids)"
  "ch_global_session_store srv = Some st \<Longrightarrow> assured I R (igs_GetPresence st u)"
  "ch_rate_limiter srv = Some allow \<Longrightarrow> assured I R (allow clk kind idn lm w)"
  "ch_dedup_cache srv = Some cache \<Longrightarrow> assured I R (idc_Lookup cache u i)"
  "ch_dedup_cache srv = Some cache \<Longrightarrow> assured I R (idc_Save cache u i mid)"
  "ch_dedup_cache srv = Some cache \<Longrightarrow> assured I R (idc_Remove cache u i)"
  "ch_remote_push_publisher srv = Some publish \<Longrightarrow> assured I R (publish server event)"
  using users messages store limiter dedup publisher
  by (simp_all add: user_repo_keeps_def message_repo_keeps_def store_keeps_def limiter_keeps_def dedup_keeps_def
      publisher_keeps_def)

lemma send_parts_keep:
  "assured I R (find_cached srv u i)" "assured I R (route_push srv b u)" "assured I R (check_send_rate srv inp u)"
  unfolding find_cached_def route_push_def check_send_rate_def
  by (intro case_rules leaves; assumption)+

lemma chat_service_keeps:
  "assured I R (sendMessage srv inputs c req)" "assured I R (publishRemotePush srv result payload)"
  "assured I R (pullOfflineMessages srv c preq)" "assured I R (acknowledgeMessages srv now c areq)"
  "assured I R (markMessagesRead srv now c mreq)" "assured I R (markMessagesDelivered srv now u ids)"
  unfolding sendMessage_def send_to_def store_message_def publishRemotePush_def pullOfflineMessages_def
    acknowledgeMessages_def markMessagesRead_def update_message_state_def markMessagesDelivered_def Let_def
  by (intro case_rules leaves send_parts_keep; assumption)+

end

locale friend_objects = preorder_guarantee I R for I :: "'w \<Rightarrow> bool" and R :: "'w \<Rightarrow> 'w \<Rightarrow> bool" +
  fixes srv :: "'w FriendService"
  assumes users: "user_repo_keeps I R (fs_user_repository srv)"
    and friends: "friend_repo_keeps I R (fs_friend_repository srv)"
begin

lemma leaves:
  "assured I R (iu_findById (fs_user_repository srv) u)" "assured I R (ifr_findFriendship (fs_friend_repository srv) a b)"
  "assured I R (ifr_createFriendRequest (fs_friend_repository srv) a b)"
  "assured I R (ifr_acceptFriendRequest (fs_friend_repository srv) a b)"
  "assured I R (ifr_deleteFriendship (fs_friend_repository srv) a b)"
  "assured I R (ifr_listFriendships (fs_friend_repository srv) a)"
  using users friends by (simp_all add: user_repo_keeps_def friend_repo_keeps_def)

lemma friend_service_keeps:
  "assured I R (addFriend srv c areq)" "assured I R (acceptFriend srv c creq)" "assured I R (deleteFriend srv c dreq)"
  "assured I R (listFriends srv c)"
  unfolding addFriend_def acceptFriend_def deleteFriend_def listFriends_def ValidateUserExists_def
    request_friendship_def accept_request_def
  by (intro case_rules leaves)+

end

locale group_objects = preorder_guarantee I R for I :: "'w \<Rightarrow> bool" and R :: "'w \<Rightarrow> 'w \<Rightarrow> bool" +
  fixes srv :: "'w GroupService"
  assumes users: "user_repo_keeps I R (gs_user_repository srv)"
    and messages: "message_repo_keeps I R (gs_message_repository srv)"
    and groups: "group_repo_keeps I R (gs_group_repository srv)"
begin

lemma leaves:
  "assured I R (iu_findById (gs_user_repository srv) u)" "assured I R (imr_createMessage (gs_message_repository srv) m)"
  "assured I R (igr_createGroup (gs_group_repository srv) g ms)" "assured I R (igr_findGroup (gs_group_repository srv) gid)"
  "assured I R (igr_addMember (gs_group_repository srv) gm)" "assured I R (igr_listMembers (gs_group_repository srv) gid)"
  using users messages groups by (simp_all add: user_repo_keeps_def message_repo_keeps_def group_repo_keeps_def)

lemma check_members_keeps: "assured I R (check_members (gs_user_repository srv) ids)"
  by (induction ids) (auto simp: UserExists_def intro!: case_rules leaves)

lemma deliver_all_keeps: "assured I R (deliver_all srv inputs u conv req i ms)"
  by (induction ms arbitrary: i) (auto simp: Let_def intro!: case_rules leaves)

lemma group_service_keeps:
  "assured I R (service_createGroup srv rnd c creq)" "assured I R (addGroupMember srv c areq)"
  "assured I R (sendGroupMessage srv inputs c sreq)"
  unfolding service_createGroup_def addGroupMember_def sendGroupMessage_def admit_member_def send_to_members_def
    UserExists_def Let_def
  by (intro case_rules leaves check_members_keeps deliver_all_keeps)+

end


section \<open>The handler\<close>

locale handler_objects = preorder_guarantee I R for I :: "'w \<Rightarrow> bool" and R :: "'w \<Rightarrow> 'w \<Rightarrow> bool" +
  fixes self :: "'w MessageHandler"
  assumes user_objects: "user_objects I R (hd_user_service self)"
    and chat_objects: "chat_objects I R (hd_chat_service self)"
    and friend_objects: "hd_friend_service self = Some fs \<Longrightarrow> friend_objects I R fs"
    and group_objects: "hd_group_service self = Some gs \<Longrightarrow> group_objects I R gs"
begin

lemmas service_ops = user_objects.user_service_keeps [OF user_objects] chat_objects.chat_service_keeps [OF chat_objects]
  friend_objects.friend_service_keeps [OF friend_objects] group_objects.group_service_keeps [OF group_objects]

lemma with_inputs_keeps:
  assumes "\<And>i. assured I R (f i)"
  shows "assured (\<lambda>n. I (fst n)) (\<lambda>n n'. R (fst n) (fst n')) (with_inputs f)"
  unfolding assured_def
proof (intro allI impI wpI)
  fix n a n'
  assume "I (fst n)" "run_state (with_inputs f) n = (a, n')"
  then show "I (fst n') \<and> R (fst n) (fst n')"
    using assured_run [OF assms [of "snd n 0"], of "fst n" a "fst n'"]
    by (cases n) (auto simp: with_inputs_def split: prod.splits)
qed

lemma handlers_keep:
  "assured I R (handleRegister self J i msg ip)" "assured I R (handleLogin self J i msg c ip)"
  "assured I R (handleResumeSession self J msg)" "assured I R (handleLogout self J msg c)"
  "assured I R (handleHeartbeat J i msg)" "assured I R (handleWhoAmI self J msg c)" "assured I R (handleUnknown J msg)"
  "assured I R (handleSendMessage self J i msg c)" "assured I R (handlePullOfflineMessages self J msg c)"
  "assured I R (handleMessageAck self J i msg c)" "assured I R (handleMarkMessageRead self J i msg c)"
  unfolding handleRegister_def handleLogin_def handleResumeSession_def handleLogout_def handleHeartbeat_def
    handleWhoAmI_def handleUnknown_def handleSendMessage_def send_pushes_def handlePullOfflineMessages_def
    handleMessageAck_def handleMarkMessageRead_def Let_def
  by (intro case_rules service_ops)+

lemma more_handlers_keep:
  "assured I R (handleAddFriend self J msg c)" "assured I R (handleAcceptFriend self J msg c)"
  "assured I R (handleDeleteFriend self J msg c)" "assured I R (handleListFriends self J msg c)"
  "assured I R (handleCreateGroup self J i msg c)" "assured I R (handleAddGroupMember self J msg c)"
  "assured I R (handleSendGroupMessage self J i msg c)"
  unfolding handleAddFriend_def handleAcceptFriend_def handleDeleteFriend_def handleListFriends_def
    handleCreateGroup_def handleAddGroupMember_def handleSendGroupMessage_def Let_def
  by (intro case_rules service_ops; assumption)+

lemma handle_keeps: "assured I R (handle self J i raw ctx)"
  unfolding handle_def dispatch_def Let_def
  by (intro case_rules service_ops handlers_keep more_handlers_keep)

end

text \<open>The world of the server adds the inputs of the coming calls.\<close>

sublocale handler_objects \<subseteq> server: keeping_handler "\<lambda>n. I (fst n)" "\<lambda>n n'. R (fst n) (fst n')"
  "message_handler_ops self J" for J
proof unfold_locales
  fix req ctx c session u ids s t v
  show "R (fst s) (fst s)" by (rule R_refl)
  show "R (fst s) (fst t) \<Longrightarrow> R (fst t) (fst v) \<Longrightarrow> R (fst s) (fst v)" by (rule R_trans)
  note ops = message_handler_ops_def handle_keeps service_ops
  show "assured (\<lambda>n. I (fst n)) (\<lambda>n n'. R (fst n) (fst n')) (mh_handle (message_handler_ops self J) req ctx)"
    "assured (\<lambda>n. I (fst n)) (\<lambda>n n'. R (fst n) (fst n')) (mh_onConnectionClosed (message_handler_ops self J) c)"
    "assured (\<lambda>n. I (fst n)) (\<lambda>n n'. R (fst n) (fst n')) (mh_applyBindSession (message_handler_ops self J) c session)"
    "assured (\<lambda>n. I (fst n)) (\<lambda>n n'. R (fst n) (fst n')) (mh_applyUnbindSession (message_handler_ops self J) c)"
    "assured (\<lambda>n. I (fst n)) (\<lambda>n n'. R (fst n) (fst n')) (mh_onMessagesDelivered (message_handler_ops self J) u ids)"
    by (simp_all add: ops with_inputs_keeps)
qed

end
