(* ===== verification/RedisPushStream.thy ===== *)
theory RedisPushStream
  imports SessionStore ChatService "HOL-Library.Sublist"
begin

text \<open>
  Pushes between servers over Redis streams, \<^verbatim>\<open>src/src/stream/redis_push_stream.cc\<close>: publishing an event
  to the stream of another server, and the consumer that reads and claims entries of its own streams,
  delivers each message once and acknowledges it, sends malformed entries to a dead letter stream and
  retries delivery marks. The two callbacks are arguments.
\<close>

section \<open>Keys and constants\<close>

definition kPushGroup :: string where
  "kPushGroup = ''chat-push''"

definition kRetryGroup :: string where
  "kRetryGroup = ''chat-delivery-retry''"

definition kDeliveryDedupTtlSeconds :: nat where
  "kDeliveryDedupTtlSeconds = 86400"

definition kClaimIdleMilliseconds :: nat where
  "kClaimIdleMilliseconds = 30000"

definition kReadBlockMilliseconds :: nat where
  "kReadBlockMilliseconds = 200"

definition kBatchSize :: nat where
  "kBatchSize = 20"

definition PushStreamKey :: "RedisConfig \<Rightarrow> string \<Rightarrow> string" where
  "PushStreamKey config server_id = rc_key_prefix config @ '':push:stream:'' @ server_id"

definition RetryStreamKey :: "RedisConfig \<Rightarrow> string \<Rightarrow> string" where
  "RetryStreamKey config server_id = rc_key_prefix config @ '':delivery:retry:'' @ server_id"

definition DeadLetterStreamKey :: "RedisConfig \<Rightarrow> string \<Rightarrow> string" where
  "DeadLetterStreamKey config server_id = rc_key_prefix config @ '':push:dlq:'' @ server_id"

definition DeliveryDedupKey :: "RedisConfig \<Rightarrow> messageId \<Rightarrow> string" where
  "DeliveryDedupKey config message_id =
     rc_key_prefix config @ '':push:dedup:'' @ rc_server_id config @ '':'' @ message_id"

section \<open>Entries\<close>

record StreamEntry =
  se_stream_id :: string
  se_fields :: "string \<rightharpoonup> string"

record ReadBatch =
  rb_success :: bool
  rb_entries :: "StreamEntry list"

text \<open>The loop over the pairs of a reply; any element that is no string empties the result.\<close>

fun parse_pairs :: "RedisReply list \<Rightarrow> (string \<rightharpoonup> string) \<Rightarrow> string \<rightharpoonup> string" where
  "parse_pairs (name # val # rest) acc =
     (if rr_type name \<noteq> kString \<or> rr_type val \<noteq> kString then Map.empty
      else parse_pairs rest (acc(rr_string_value name \<mapsto> rr_string_value val)))"
| "parse_pairs _ acc = acc"

definition ParseFields :: "RedisReply \<Rightarrow> string \<rightharpoonup> string" where
  "ParseFields reply =
     (if rr_type reply \<noteq> kArray \<or> length (rr_elements reply) mod 2 \<noteq> 0 then Map.empty
      else parse_pairs (rr_elements reply) Map.empty)"

definition parse_entry :: "RedisReply \<Rightarrow> StreamEntry list" where
  "parse_entry entry_reply =
     (if rr_type entry_reply \<noteq> kArray \<or> length (rr_elements entry_reply) \<noteq> 2 \<or>
         rr_type (rr_elements entry_reply ! 0) \<noteq> kString
      then []
      else [\<lparr>se_stream_id = rr_string_value (rr_elements entry_reply ! 0),
             se_fields = ParseFields (rr_elements entry_reply ! 1)\<rparr>])"

definition parse_stream :: "RedisReply \<Rightarrow> StreamEntry list" where
  "parse_stream stream_reply =
     (if rr_type stream_reply \<noteq> kArray \<or> length (rr_elements stream_reply) \<noteq> 2 \<or>
         rr_type (rr_elements stream_reply ! 1) \<noteq> kArray
      then []
      else concat (map parse_entry (rr_elements (rr_elements stream_reply ! 1))))"

definition ParseReadReply :: "RedisReply \<Rightarrow> StreamEntry list" where
  "ParseReadReply reply =
     (if rr_type reply \<noteq> kArray \<or> rr_elements reply = [] then []
      else concat (map parse_stream (rr_elements reply)))"

definition ParseClaimReply :: "RedisReply \<Rightarrow> StreamEntry list" where
  "ParseClaimReply reply =
     (if rr_type reply \<noteq> kArray \<or> length (rr_elements reply) < 2 \<or> rr_type (rr_elements reply ! 1) \<noteq> kArray
      then []
      else ParseReadReply
        (RedisReply kArray [] 0 [RedisReply kArray [] 0 [empty_reply, rr_elements reply ! 1]]))"

text \<open>The connection id goes through a signed integer.\<close>

definition DecodePushEvent :: "StreamEntry \<Rightarrow> RemotePushEvent option" where
  "DecodePushEvent entry =
     (case (se_fields entry ''event_id'', se_fields entry ''message_id'', se_fields entry ''from_user_id'',
            se_fields entry ''to_user_id'', se_fields entry ''connection_id'', se_fields entry ''payload'') of
        (Some event_id, Some message_id, Some from_user_id, Some to_user_id, Some connection_id, Some payload) \<Rightarrow>
          (case (ParseInteger from_user_id, ParseInteger to_user_id, ParseInteger connection_id) of
             (Some from_id, Some to_id, Some connection) \<Rightarrow>
               if event_id = [] \<or> message_id = [] \<or> from_id \<le> 0 \<or> to_id \<le> 0 \<or> connection \<le> 0 \<or> payload = []
               then None
               else Some \<lparr>rpe_event_id = event_id, rpe_message_id = message_id, rpe_from_user_id = from_id,
                          rpe_to_user_id = to_id, rpe_target_connection_id = nat connection, rpe_payload = payload\<rparr>
           | _ \<Rightarrow> None)
      | _ \<Rightarrow> None)"

section \<open>Commands\<close>

definition EnsureGroup :: "'w IRedisClient \<Rightarrow> string \<Rightarrow> string \<Rightarrow> ('w, bool) state" where
  "EnsureGroup redis stream grp = do {
     result \<leftarrow> redis (STREAM [''XGROUP'', ''CREATE'', stream, grp, ''0'', ''MKSTREAM'']);
     ret (rcr_success result \<or> sublist ''BUSYGROUP'' (rcr_message result))
   }"

definition Initialize :: "'w IRedisClient option \<Rightarrow> RedisConfig \<Rightarrow> ('w, bool) state" where
  "Initialize client config =
     (case client of
        None \<Rightarrow> ret False
      | Some redis \<Rightarrow> do {
          push \<leftarrow> EnsureGroup redis (PushStreamKey config (rc_server_id config)) kPushGroup;
          if push then EnsureGroup redis (RetryStreamKey config (rc_server_id config)) kRetryGroup else ret False
        })"

definition event_fields :: "RemotePushEvent \<Rightarrow> (string \<times> string) list" where
  "event_fields event =
     [(''event_id'', rpe_event_id event), (''message_id'', rpe_message_id event),
      (''from_user_id'', int_to_string (rpe_from_user_id event)),
      (''to_user_id'', int_to_string (rpe_to_user_id event)),
      (''connection_id'', nat_to_string (rpe_target_connection_id event)), (''payload'', rpe_payload event)]"

text \<open>An event is published only if the consumer can decode it.\<close>

definition Publish :: "'w IRedisClient option \<Rightarrow> RedisConfig \<Rightarrow> 'w IRemotePushPublisher" where
  "Publish client config target_server_id event =
     (case client of
        None \<Rightarrow> ret False
      | Some redis \<Rightarrow>
          if target_server_id = [] \<or> CHR '':'' \<in> set target_server_id \<or>
             DecodePushEvent \<lparr>se_stream_id = [], se_fields = map_of (event_fields event)\<rparr> = None
          then ret False
          else do {
            result \<leftarrow> redis (STREAM ([''XADD'', PushStreamKey config target_server_id, ''*''] @
              concat (map (\<lambda>(name, val). [name, val]) (event_fields event))));
            ret (rcr_success result \<and> rr_type (rcr_reply result) = kString)
          })"

definition ReadNew :: "'w IRedisClient \<Rightarrow> RedisConfig \<Rightarrow> string \<Rightarrow> string \<Rightarrow> bool \<Rightarrow> ('w, ReadBatch) state" where
  "ReadNew redis config stream grp block = do {
     result \<leftarrow> redis (STREAM ([''XREADGROUP'', ''GROUP'', grp, rc_server_id config, ''COUNT'', nat_to_string kBatchSize] @
       (if block then [''BLOCK'', nat_to_string kReadBlockMilliseconds] else []) @ [''STREAMS'', stream, ''>'']));
     ret (if rcr_success result then \<lparr>rb_success = True, rb_entries = ParseReadReply (rcr_reply result)\<rparr>
          else \<lparr>rb_success = (rcr_error result = kRedisNotFound), rb_entries = []\<rparr>)
   }"

definition ClaimPending :: "'w IRedisClient \<Rightarrow> RedisConfig \<Rightarrow> string \<Rightarrow> string \<Rightarrow> ('w, ReadBatch) state" where
  "ClaimPending redis config stream grp = do {
     result \<leftarrow> redis (STREAM [''XAUTOCLAIM'', stream, grp, rc_server_id config,
       nat_to_string kClaimIdleMilliseconds, ''0-0'', ''COUNT'', nat_to_string kBatchSize]);
     ret (if rcr_success result then \<lparr>rb_success = True, rb_entries = ParseClaimReply (rcr_reply result)\<rparr>
          else \<lparr>rb_success = False, rb_entries = []\<rparr>)
   }"

definition Ack :: "'w IRedisClient \<Rightarrow> string \<Rightarrow> string \<Rightarrow> string \<Rightarrow> ('w, bool) state" where
  "Ack redis stream grp stream_id = do {
     result \<leftarrow> redis (STREAM [''XACK'', stream, grp, stream_id]);
     ret (rcr_success result \<and> rr_type (rcr_reply result) = kInteger \<and> rr_integer_value (rcr_reply result) = 1)
   }"

definition MoveToDeadLetter :: "'w IRedisClient \<Rightarrow> RedisConfig \<Rightarrow> string \<Rightarrow> StreamEntry \<Rightarrow> string \<Rightarrow> ('w, bool) state" where
  "MoveToDeadLetter redis config source_stream entry reason = do {
     result \<leftarrow> redis (STREAM [''XADD'', DeadLetterStreamKey config (rc_server_id config), ''*'',
       ''source_stream'', source_stream, ''source_id'', se_stream_id entry, ''reason'', reason]);
     ret (rcr_success result)
   }"

definition PublishDeliveryRetry :: "'w IRedisClient \<Rightarrow> RedisConfig \<Rightarrow> userId \<Rightarrow> messageId \<Rightarrow> ('w, bool) state" where
  "PublishDeliveryRetry redis config user_id message_id = do {
     result \<leftarrow> redis (STREAM [''XADD'', RetryStreamKey config (rc_server_id config), ''*'',
       ''to_user_id'', int_to_string user_id, ''message_id'', message_id]);
     ret (rcr_success result)
   }"

section \<open>The consumer\<close>

record 'w push_callbacks =
  pc_delivery :: "(RemotePushEvent \<Rightarrow> ('w, RemoteDeliveryOutcome) state) option"
  pc_mark_delivered :: "(userId \<Rightarrow> messageId \<Rightarrow> ('w, bool) state) option"

definition dead_letter ::
  "'w IRedisClient \<Rightarrow> RedisConfig \<Rightarrow> string \<Rightarrow> string \<Rightarrow> StreamEntry \<Rightarrow> string \<Rightarrow> ('w, bool) state" where
  "dead_letter redis config stream grp entry reason = do {
     moved \<leftarrow> MoveToDeadLetter redis config stream entry reason;
     if moved then Ack redis stream grp (se_stream_id entry) else ret False
   }"

definition ProcessPushEntry ::
  "'w IRedisClient \<Rightarrow> RedisConfig \<Rightarrow> 'w push_callbacks \<Rightarrow> StreamEntry \<Rightarrow> ('w, bool) state" where
  "ProcessPushEntry redis config callbacks entry =
     (let stream = PushStreamKey config (rc_server_id config)
      in case DecodePushEvent entry of
           None \<Rightarrow> dead_letter redis config stream kPushGroup entry ''invalid push event''
         | Some event \<Rightarrow>
             (case pc_delivery callbacks of
                None \<Rightarrow> ret False
              | Some deliver \<Rightarrow> do {
                  let dedup_key = DeliveryDedupKey config (rpe_message_id event);
                  acquired \<leftarrow> redis (SETNX dedup_key ''1'' (nat_to_string kDeliveryDedupTtlSeconds));
                  if \<not> rcr_success acquired
                  then if rcr_error acquired = kRedisNotFound then Ack redis stream kPushGroup (se_stream_id entry)
                       else ret False
                  else do {
                    outcome \<leftarrow> deliver event;
                    if outcome = kRetry then do { _ \<leftarrow> redis (DEL [dedup_key]); ret False }
                    else Ack redis stream kPushGroup (se_stream_id entry)
                  }
                }))"

definition ProcessRetryEntry ::
  "'w IRedisClient \<Rightarrow> RedisConfig \<Rightarrow> 'w push_callbacks \<Rightarrow> StreamEntry \<Rightarrow> ('w, bool) state" where
  "ProcessRetryEntry redis config callbacks entry =
     (let stream = RetryStreamKey config (rc_server_id config)
      in case (se_fields entry ''to_user_id'', se_fields entry ''message_id'') of
           (Some user, Some message) \<Rightarrow>
             (case ParseInteger user of
                None \<Rightarrow> dead_letter redis config stream kRetryGroup entry ''invalid delivery retry fields''
              | Some user_id \<Rightarrow>
                  if user_id \<le> 0 \<or> message = []
                  then dead_letter redis config stream kRetryGroup entry ''invalid delivery retry fields''
                  else (case pc_mark_delivered callbacks of
                      None \<Rightarrow> ret False
                    | Some mark \<Rightarrow> do {
                        marked \<leftarrow> mark user_id message;
                        if marked then Ack redis stream kRetryGroup (se_stream_id entry) else ret False
                      }))
         | _ \<Rightarrow> dead_letter redis config stream kRetryGroup entry ''invalid delivery retry'')"

fun process_all :: "(StreamEntry \<Rightarrow> ('w, bool) state) \<Rightarrow> StreamEntry list \<Rightarrow> ('w, unit) state" where
  "process_all p [] = ret ()"
| "process_all p (entry # entries) = do { _ \<leftarrow> p entry; process_all p entries }"

definition PollOnce :: "'w IRedisClient option \<Rightarrow> RedisConfig \<Rightarrow> 'w push_callbacks \<Rightarrow> ('w, bool) state" where
  "PollOnce client config callbacks =
     (case client of
        None \<Rightarrow> ret False
      | Some redis \<Rightarrow> do {
          let push_stream = PushStreamKey config (rc_server_id config);
          claimed_push \<leftarrow> ClaimPending redis config push_stream kPushGroup;
          new_push \<leftarrow> ReadNew redis config push_stream kPushGroup True;
          process_all (ProcessPushEntry redis config callbacks) (rb_entries claimed_push @ rb_entries new_push);
          let retry_stream = RetryStreamKey config (rc_server_id config);
          claimed_retry \<leftarrow> ClaimPending redis config retry_stream kRetryGroup;
          new_retry \<leftarrow> ReadNew redis config retry_stream kRetryGroup False;
          process_all (ProcessRetryEntry redis config callbacks) (rb_entries claimed_retry @ rb_entries new_retry);
          ret (rb_success claimed_push \<and> rb_success new_push \<and> rb_success claimed_retry \<and> rb_success new_retry)
        })"

text \<open>One round of the loop of \<^verbatim>\<open>Run\<close>, which repeats it until \<^verbatim>\<open>Stop\<close>, and so many rounds.\<close>

definition Run_round :: "'w IRedisClient \<Rightarrow> RedisConfig \<Rightarrow> 'w push_callbacks \<Rightarrow> ('w, unit) state" where
  "Run_round redis config callbacks = do {
     polled \<leftarrow> PollOnce (Some redis) config callbacks;
     if polled then ret ()
     else do {
       _ \<leftarrow> EnsureGroup redis (PushStreamKey config (rc_server_id config)) kPushGroup;
       _ \<leftarrow> EnsureGroup redis (RetryStreamKey config (rc_server_id config)) kRetryGroup;
       ret ()
     }
   }"

fun Run :: "nat \<Rightarrow> 'w IRedisClient \<Rightarrow> RedisConfig \<Rightarrow> 'w push_callbacks \<Rightarrow> ('w, unit) state" where
  "Run 0 redis config callbacks = ret ()"
| "Run (Suc n) redis config callbacks = do { Run_round redis config callbacks; Run n redis config callbacks }"

section \<open>Each message is delivered at most once\<close>

text \<open>
  What the consumer relies on: \<^verbatim>\<open>SET NX\<close> succeeds only for a key that is not held and makes it held, a key
  is released by \<^verbatim>\<open>DEL\<close> of this key only, and the delivery callback is counted when its outcome is final.
\<close>

locale push_consumer =
  fixes redis :: "'w IRedisClient"
    and config :: RedisConfig
    and callbacks :: "'w push_callbacks"
    and inv :: "'w \<Rightarrow> bool"
    and held :: "'w \<Rightarrow> messageId \<Rightarrow> bool"
    and final :: "'w \<Rightarrow> messageId \<Rightarrow> nat"
  assumes stream_keeps: "inv w \<Longrightarrow> run_state (redis (STREAM ws)) w = (r, w') \<Longrightarrow>
      inv w' \<and> final w' = final w \<and> (\<forall>m. held w m \<longrightarrow> held w' m)"
    and acquire: "inv w \<Longrightarrow> run_state (redis (SETNX (DeliveryDedupKey config m) v ttl)) w = (r, w') \<Longrightarrow>
      inv w' \<and> final w' = final w \<and> (\<forall>m. held w m \<longrightarrow> held w' m) \<and>
      (rcr_success r \<longrightarrow> \<not> held w m \<and> held w' m)"
    and release: "inv w \<Longrightarrow> run_state (redis (DEL [DeliveryDedupKey config m])) w = (r, w') \<Longrightarrow>
      inv w' \<and> final w' = final w \<and> (\<forall>m'. m' \<noteq> m \<longrightarrow> held w m' \<longrightarrow> held w' m')"
    and delivery: "inv w \<Longrightarrow> pc_delivery callbacks = Some deliver \<Longrightarrow> run_state (deliver event) w = (out, w') \<Longrightarrow>
      inv w' \<and> (\<forall>m. held w m \<longrightarrow> held w' m) \<and>
      final w' = (final w)(rpe_message_id event := final w (rpe_message_id event) + of_bool (out \<noteq> kRetry))"
    and marking: "inv w \<Longrightarrow> pc_mark_delivered callbacks = Some mark \<Longrightarrow> run_state (mark u m) w = (b, w') \<Longrightarrow>
      inv w' \<and> final w' = final w \<and> (\<forall>m. held w m \<longrightarrow> held w' m)"
begin

definition once :: "'w \<Rightarrow> bool" where
  "once w \<longleftrightarrow> inv w \<and> (\<forall>m. final w m \<le> of_bool (held w m))"

lemma once_mono:
  assumes "once w" "inv w'" "final w' = final w" "\<forall>m. held w m \<longrightarrow> held w' m"
  shows "once w'"
proof -
  have "of_bool (held w m) \<le> (of_bool (held w' m) :: nat)" for m
    using assms(4) by simp
  then show ?thesis
    using assms(1-3) unfolding once_def by (metis order.trans)
qed

end

sublocale push_consumer \<subseteq> keeps: preorder_guarantee once "\<lambda>_ _. True"
  by unfold_locales simp_all

context push_consumer
begin

abbreviation counted :: "('w, 'a) state \<Rightarrow> bool" where
  "counted \<equiv> assured once (\<lambda>_ _. True)"

lemma countedI: "(\<And>w a w'. once w \<Longrightarrow> run_state m w = (a, w') \<Longrightarrow> once w') \<Longrightarrow> counted m"
  unfolding assured_def by (blast intro: wpI)

lemma counted_stream: "counted (redis (STREAM ws))"
  by (rule countedI) (use stream_keeps once_mono once_def in blast)

lemmas counted_rules = keeps.assured_rules counted_stream

lemma counted_commands:
  "counted (EnsureGroup redis stream grp)" "counted (ReadNew redis config stream grp block)"
  "counted (ClaimPending redis config stream grp)" "counted (Ack redis stream grp i)"
  "counted (dead_letter redis config stream grp entry reason)"
  unfolding EnsureGroup_def ReadNew_def ClaimPending_def Ack_def dead_letter_def MoveToDeadLetter_def
  by (intro counted_rules)+

text \<open>A push that is to be retried was not counted, so its key may be released.\<close>

lemma counted_delivery:
  assumes "pc_delivery callbacks = Some deliver" "counted again"
  shows "counted (do {
    acquired \<leftarrow> redis (SETNX (DeliveryDedupKey config (rpe_message_id event)) v ttl);
    if \<not> rcr_success acquired then (if rcr_error acquired = kRedisNotFound then again else ret False)
    else do {
      out \<leftarrow> deliver event;
      if out = kRetry then do { _ \<leftarrow> redis (DEL [DeliveryDedupKey config (rpe_message_id event)]); ret False }
      else again
    }
  })" (is "counted ?m")
proof (rule countedI)
  fix w a w'
  let ?mid = "rpe_message_id event"
  assume w: "once w" and run: "run_state ?m w = (a, w')"
  obtain r w1 where 1: "run_state (redis (SETNX (DeliveryDedupKey config ?mid) v ttl)) w = (r, w1)"
    by fastforce
  have acq: "inv w1" "final w1 = final w" "\<forall>m. held w m \<longrightarrow> held w1 m"
    "rcr_success r \<Longrightarrow> \<not> held w ?mid \<and> held w1 ?mid"
    using acquire [OF _ 1] w by (auto simp: once_def)
  have once1: "once w1" using once_mono [OF w acq(1-3)] .
  have again: "once w2 \<Longrightarrow> run_state again w2 = (b, w3) \<Longrightarrow> once w3" for w2 b w3
    using keeps.assured_run [OF assms(2)] by blast
  show "once w'"
  proof (cases "rcr_success r")
    case False
    then show ?thesis using run 1 once1 again by (auto split: if_splits)
  next
    case True
    obtain out w2 where 2: "run_state (deliver event) w1 = (out, w2)"
      by fastforce
    have del: "inv w2" "\<forall>m. held w1 m \<longrightarrow> held w2 m"
      "final w2 = (final w1)(?mid := final w1 ?mid + of_bool (out \<noteq> kRetry))"
      using delivery [OF acq(1) assms(1) 2] by auto
    have zero: "final w1 ?mid = 0"
      using w acq(2) acq(4) [OF True] unfolding once_def by (metis le_zero_eq of_bool_eq(1))
    have once2: "once w2"
      unfolding once_def
    proof (intro conjI allI)
      fix m
      have "final w1 m \<le> of_bool (held w1 m)" using once1 by (simp add: once_def)
      then show "final w2 m \<le> of_bool (held w2 m)"
        using del(2,3) zero acq(4) True by (cases "m = ?mid"; cases "held w1 m"; cases "held w2 m") auto
    qed (rule del(1))
    show ?thesis
    proof (cases "out = kRetry")
      case False
      then show ?thesis using run 1 2 True once2 again by simp
    next
      case retry: True
      obtain r3 where 3: "run_state (redis (DEL [DeliveryDedupKey config ?mid])) w2 = (r3, w')"
        using run 1 2 True retry by (auto split: prod.splits)
      have "inv w'" "final w' = final w2" "\<forall>m. m \<noteq> ?mid \<longrightarrow> held w2 m \<longrightarrow> held w' m"
        using release [OF del(1) 3] by auto
      moreover have "final w2 ?mid = 0"
        using del(3) zero retry by simp
      ultimately show ?thesis
        using once2 unfolding once_def by (metis (full_types) le_zero_eq of_bool_eq(1) zero_le)
    qed
  qed
qed

lemma counted_ProcessPushEntry: "counted (ProcessPushEntry redis config callbacks entry)"
  unfolding ProcessPushEntry_def Let_def
  by (auto intro!: counted_commands counted_delivery keeps.assured_ret split: option.split)

lemma counted_ProcessRetryEntry: "counted (ProcessRetryEntry redis config callbacks entry)"
proof -
  have "counted (mark u m)" if "pc_mark_delivered callbacks = Some mark" for mark u m
    by (rule countedI) (use marking [OF _ that] once_mono once_def in blast)
  then show ?thesis
    unfolding ProcessRetryEntry_def Let_def
    by (auto intro!: counted_commands keeps.assured_bind keeps.assured_ret split: option.split)
qed

lemma counted_process_all: "(\<And>e. counted (p e)) \<Longrightarrow> counted (process_all p es)"
  by (induction es) (auto intro!: keeps.assured_ret keeps.assured_bind)

lemma counted_Run: "counted (Run n redis config callbacks)"
proof (induction n)
  case 0
  show ?case by (simp add: keeps.assured_ret)
next
  case (Suc n)
  have "counted (PollOnce (Some redis) config callbacks)"
    unfolding PollOnce_def Let_def option.case
    by (intro counted_rules counted_commands counted_process_all counted_ProcessPushEntry counted_ProcessRetryEntry)
  then have "counted (Run_round redis config callbacks)"
    unfolding Run_round_def by (intro counted_rules counted_commands)
  then show ?case using Suc by (auto intro!: keeps.assured_bind)
qed

lemma at_most_once:
  assumes "inv w" "\<And>m. final w m = 0" "run_state (Run n redis config callbacks) w = (u, w')"
  shows "final w' m \<le> 1"
proof -
  have "once w" using assms by (simp add: once_def)
  then have "once w'" using keeps.assured_run [OF counted_Run _ assms(3)] by blast
  then have "final w' m \<le> of_bool (held w' m)" by (simp add: once_def)
  then show ?thesis by (cases "held w' m") simp_all
qed

end

section \<open>The consumer on a Redis server\<close>

text \<open>
  A world with the Redis server and a record of what the delivery callback was asked for and answered;
  its answers, and those of the marking callback, are given in advance.
\<close>

record consumer_world =
  cw_redis :: RedisWorld
  cw_log :: "(messageId \<times> RemoteDeliveryOutcome) list"
  cw_outcomes :: "nat \<Rightarrow> RemoteDeliveryOutcome"
  cw_marks :: "(userId \<times> messageId) list"
  cw_marked :: "nat \<Rightarrow> bool"

definition consumer_client :: "consumer_world IRedisClient" where
  "consumer_client cmd = State (\<lambda>w. case run_state (Command cmd) (cw_redis w) of (r, rw) \<Rightarrow> (r, w\<lparr>cw_redis := rw\<rparr>))"

definition consumer_callbacks :: "consumer_world push_callbacks" where
  "consumer_callbacks =
     \<lparr>pc_delivery = Some (\<lambda>event. State (\<lambda>w.
        let out = cw_outcomes w (length (cw_log w)) in (out, w\<lparr>cw_log := cw_log w @ [(rpe_message_id event, out)]\<rparr>))),
      pc_mark_delivered = Some (\<lambda>u m. State (\<lambda>w.
        (cw_marked w (length (cw_marks w)), w\<lparr>cw_marks := cw_marks w @ [(u, m)]\<rparr>)))\<rparr>"

text \<open>The deduplication key of a message is there; nobody else releases such a key.\<close>

definition key_held :: "RedisConfig \<Rightarrow> RedisStore \<Rightarrow> messageId \<Rightarrow> bool" where
  "key_held config s m \<longleftrightarrow>
     string_at s (DeliveryDedupKey config m) \<noteq> None \<or> hash_at s (DeliveryDedupKey config m) \<noteq> None"

definition keys_kept :: "RedisConfig \<Rightarrow> consumer_world \<Rightarrow> bool" where
  "keys_kept config w \<longleftrightarrow>
     (\<forall>e\<in>set (rw_events (cw_redis w)). \<forall>s m. key_held config s m \<longrightarrow> key_held config (re_env e s) m)"

definition final_deliveries :: "consumer_world \<Rightarrow> messageId \<Rightarrow> nat" where
  "final_deliveries w m = length (filter (\<lambda>(mid, out). mid = m \<and> out \<noteq> kRetry) (cw_log w))"

lemma DeliveryDedupKey_inject [simp]: "DeliveryDedupKey config m = DeliveryDedupKey config m' \<longleftrightarrow> m = m'"
  by (simp add: DeliveryDedupKey_def)

lemma consumer_run:
  assumes "keys_kept config w" "run_state (consumer_client cmd) w = (r, w')"
  obtains s where "keys_kept config w'" "final_deliveries w' = final_deliveries w"
    "\<And>m. key_held config (rw_store (cw_redis w)) m \<Longrightarrow> key_held config s m"
    "rw_store (cw_redis w') = s \<or> rw_store (cw_redis w') = snd (exec cmd s)"
    "rcr_success r \<Longrightarrow> r = Execute True [cmd] (Inr (fst (exec cmd s))) \<and> rw_store (cw_redis w') = snd (exec cmd s)"
proof -
  obtain rw where rw: "run_state (Command cmd) (cw_redis w) = (r, rw)" "w' = w\<lparr>cw_redis := rw\<rparr>"
    using assms(2) by (auto simp: consumer_client_def split: prod.splits)
  show thesis
  proof (cases "rw_events (cw_redis w)")
    case Nil
    with rw assms(1) that [of "rw_store (cw_redis w)"] show thesis
      by (auto simp: Command_def redis_answer_def keys_kept_def final_deliveries_def fun_eq_iff)
  next
    case (Cons e es)
    have mono: "key_held config (re_env e (rw_store (cw_redis w))) m"
      if "key_held config (rw_store (cw_redis w)) m" for m
      using assms(1) Cons that by (simp add: keys_kept_def)
    from Cons rw assms(1) that [of "re_env e (rw_store (cw_redis w))"] mono show thesis
      by (auto simp: Command_def redis_answer_def keys_kept_def final_deliveries_def MakeRedisError_def fun_eq_iff
          split: option.splits prod.splits)
  qed
qed

lemma key_held_put:
  assumes "0 < d"
  shows "key_held config (s\<lparr>rs_hashes := (rs_hashes s)(k := None),
      rs_strings := (rs_strings s)(k \<mapsto> (v, Some (rs_now s + int d)))\<rparr>) m \<longleftrightarrow>
    k = DeliveryDedupKey config m \<or> key_held config s m"
  using assms by (auto simp: key_held_def string_at_def hash_at_def alive_def)

lemma key_held_exec:
  "key_held config (snd (exec (STREAM ws) s)) m = key_held config s m"
  "key_held config s m \<Longrightarrow> key_held config (snd (exec (SETNX k v ttl) s)) m"
  "m' \<noteq> m \<Longrightarrow> key_held config (snd (exec (DEL [DeliveryDedupKey config m]) s)) m' = key_held config s m'"
proof -
  show "key_held config (snd (exec (STREAM ws) s)) m = key_held config s m"
    by (simp add: key_held_def string_at_def hash_at_def)
  show "key_held config s m \<Longrightarrow> key_held config (snd (exec (SETNX k v ttl) s)) m"
    by (simp add: key_held_put)
  show "m' \<noteq> m \<Longrightarrow> key_held config (snd (exec (DEL [DeliveryDedupKey config m]) s)) m' = key_held config s m'"
    by (simp add: key_held_def string_at_def hash_at_def del_def)
qed

lemma SETNX_success:
  assumes "rcr_success (Execute True [SETNX (DeliveryDedupKey config m) v ttl]
      (Inr (fst (exec (SETNX (DeliveryDedupKey config m) v ttl) s))))"
  shows "\<not> key_held config s m \<and> key_held config (snd (exec (SETNX (DeliveryDedupKey config m) v ttl) s)) m"
proof -
  have "digits_value ttl \<noteq> 0" "\<not> key_held config s m"
    using assms by (auto simp: key_held_def Execute_def MakeRedisError_def split: if_splits)
  then show ?thesis
    by (simp add: key_held_put) (simp add: key_held_def)
qed

interpretation redis_consumer: push_consumer consumer_client config consumer_callbacks "keys_kept config"
  "\<lambda>w. key_held config (rw_store (cw_redis w))" final_deliveries for config
proof unfold_locales
  fix w ws r w' m v ttl deliver event out mark u b
  show "keys_kept config w' \<and> final_deliveries w' = final_deliveries w \<and>
      (\<forall>m. key_held config (rw_store (cw_redis w)) m \<longrightarrow> key_held config (rw_store (cw_redis w')) m)"
    if "keys_kept config w" "run_state (consumer_client (STREAM ws)) w = (r, w')"
    using that by (rule consumer_run) (metis key_held_exec(1))
  show "keys_kept config w' \<and> final_deliveries w' = final_deliveries w \<and>
      (\<forall>m. key_held config (rw_store (cw_redis w)) m \<longrightarrow> key_held config (rw_store (cw_redis w')) m) \<and>
      (rcr_success r \<longrightarrow> \<not> key_held config (rw_store (cw_redis w)) m \<and> key_held config (rw_store (cw_redis w')) m)"
    if "keys_kept config w" "run_state (consumer_client (SETNX (DeliveryDedupKey config m) v ttl)) w = (r, w')"
    using that by (rule consumer_run) (metis key_held_exec(2) SETNX_success)
  show "keys_kept config w' \<and> final_deliveries w' = final_deliveries w \<and>
      (\<forall>m'. m' \<noteq> m \<longrightarrow> key_held config (rw_store (cw_redis w)) m' \<longrightarrow> key_held config (rw_store (cw_redis w')) m')"
    if "keys_kept config w" "run_state (consumer_client (DEL [DeliveryDedupKey config m])) w = (r, w')"
    using that by (rule consumer_run) (metis key_held_exec(3))
  show "keys_kept config w' \<and>
      (\<forall>m. key_held config (rw_store (cw_redis w)) m \<longrightarrow> key_held config (rw_store (cw_redis w')) m) \<and>
      final_deliveries w' = (final_deliveries w)
        (rpe_message_id event := final_deliveries w (rpe_message_id event) + of_bool (out \<noteq> kRetry))"
    if "keys_kept config w" "pc_delivery consumer_callbacks = Some deliver" "run_state (deliver event) w = (out, w')"
    using that by (clarsimp simp: consumer_callbacks_def Let_def) (auto simp: keys_kept_def final_deliveries_def fun_eq_iff)
  show "keys_kept config w' \<and> final_deliveries w' = final_deliveries w \<and>
      (\<forall>m. key_held config (rw_store (cw_redis w)) m \<longrightarrow> key_held config (rw_store (cw_redis w')) m)"
    if "keys_kept config w" "pc_mark_delivered consumer_callbacks = Some mark" "run_state (mark u m) w = (b, w')"
    using that by (clarsimp simp: consumer_callbacks_def) (auto simp: keys_kept_def final_deliveries_def fun_eq_iff)
qed


section \<open>Replies of a stream\<close>

text \<open>What \<^verbatim>\<open>XREADGROUP\<close> answers for entries of one stream: per entry its id and its fields in a row.\<close>

definition entry_reply :: "string \<times> (string \<times> string) list \<Rightarrow> redisReply" where
  "entry_reply = (\<lambda>(i, fvs). REDIS_REPLY_ARRAY [REDIS_REPLY_STRING i,
     REDIS_REPLY_ARRAY (concat (map (\<lambda>(f, v). [REDIS_REPLY_STRING f, REDIS_REPLY_STRING v]) fvs))])"

definition entries_reply :: "string \<Rightarrow> (string \<times> (string \<times> string) list) list \<Rightarrow> redisReply" where
  "entries_reply stream entries =
     REDIS_REPLY_ARRAY [REDIS_REPLY_ARRAY [REDIS_REPLY_STRING stream, REDIS_REPLY_ARRAY (map entry_reply entries)]]"

lemma parse_pairs_strings:
  "parse_pairs (concat (map (\<lambda>(f, v). [RedisReply kString f 0 [], RedisReply kString v 0 []]) fvs)) acc =
     acc ++ map_of (rev fvs)"
  by (induction fvs arbitrary: acc) (auto simp: map_add_def fun_eq_iff split: option.split)

lemma map_of_rev_distinct: "distinct (map fst xs) \<Longrightarrow> map_of (rev xs) = map_of xs"
  by (subst map_of_inject_set) (simp_all add: rev_map [symmetric])

lemma ParseReadReply_entries:
  assumes "\<forall>e\<in>set entries. distinct (map fst (snd e))"
  shows "ParseReadReply (ConvertReply (entries_reply stream entries)) =
    map (\<lambda>(i, fvs). \<lparr>se_stream_id = i, se_fields = map_of fvs\<rparr>) entries"
proof -
  have even: "length (concat (map (\<lambda>(f, v). [x f, y v]) fvs)) mod 2 = 0" for fvs :: "('a \<times> 'b) list" and x y
    by (induction fvs) auto
  have conv: "map ConvertReply (concat (map (\<lambda>(f, v). [REDIS_REPLY_STRING f, REDIS_REPLY_STRING v]) fvs)) =
      concat (map (\<lambda>(f, v). [RedisReply kString f 0 [], RedisReply kString v 0 []]) fvs)" for fvs
    by (induction fvs) auto
  have "parse_entry (ConvertReply (entry_reply e)) =
      [case e of (i, fvs) \<Rightarrow> \<lparr>se_stream_id = i, se_fields = map_of fvs\<rparr>]" if "e \<in> set entries" for e
    using assms that
    by (cases e) (auto simp: entry_reply_def parse_entry_def ParseFields_def conv even parse_pairs_strings map_of_rev_distinct)
  then have "concat (map (parse_entry \<circ> (ConvertReply \<circ> entry_reply)) entries) =
      map (\<lambda>(i, fvs). \<lparr>se_stream_id = i, se_fields = map_of fvs\<rparr>) entries"
    by (induction entries) auto
  then show ?thesis
    by (simp add: entries_reply_def ParseReadReply_def parse_stream_def comp_assoc)
qed

section \<open>Properties\<close>

text \<open>C29. A message is delivered at most once: however often Redis hands out its entry, whatever the delivery
  callback answers and whatever commands fail or lose their reply, any number of rounds of the consumer
  calls the callback with a final outcome at most once per message id, as long as nobody else removes
  deduplication keys and they do not expire.\<close>

theorem remote_push_at_most_once:
  assumes "keys_kept config w" "cw_log w = []"
    and "run_state (Run n consumer_client config consumer_callbacks) w = (u, w')"
  shows "final_deliveries w' m \<le> 1"
  using redis_consumer.at_most_once [OF assms(1) _ assms(3)] assms(2) by (simp add: final_deliveries_def)

text \<open>A server that hands out the same entry again in every round.\<close>

definition sample_entry_fields :: "(string \<times> string) list" where
  "sample_entry_fields =
     [(''event_id'', ''e1''), (''message_id'', ''m1''), (''from_user_id'', ''1''), (''to_user_id'', ''2''),
      (''connection_id'', ''7''), (''payload'', ''hi'')]"

definition sample_stream_server :: "nat \<Rightarrow> string list \<Rightarrow> redisReply" where
  "sample_stream_server n ws =
     (if n = 1 \<or> n = 6
      then entries_reply ''s'' [(''1-0'', sample_entry_fields)]
      else if hd ws = ''XACK'' then REDIS_REPLY_INTEGER 1
      else REDIS_REPLY_ARRAY [])"

definition sample_at :: "nat \<Rightarrow> (string \<rightharpoonup> string \<times> int option) \<Rightarrow> (messageId \<times> RemoteDeliveryOutcome) list \<Rightarrow> consumer_world" where
  "sample_at n strs log =
     \<lparr>cw_redis = \<lparr>rw_store = \<lparr>rs_hashes = Map.empty, rs_strings = strs, rs_now = 0,
        rs_stream_calls = n, rs_stream_server = sample_stream_server\<rparr>, rw_events = []\<rparr>,
      cw_log = log, cw_outcomes = (\<lambda>_. kRemoteDelivered), cw_marks = [], cw_marked = (\<lambda>_. True)\<rparr>"

lemma sample_decoded:
  "DecodePushEvent \<lparr>se_stream_id = i, se_fields = map_of sample_entry_fields\<rparr> =
     Some \<lparr>rpe_event_id = ''e1'', rpe_message_id = ''m1'', rpe_from_user_id = 1, rpe_to_user_id = 2,
       rpe_target_connection_id = 7, rpe_payload = ''hi''\<rparr>"
  by code_simp

lemma sample_parsed:
  "ParseReadReply (ConvertReply (entries_reply ''s'' [(''1-0'', sample_entry_fields)])) =
     [\<lparr>se_stream_id = ''1-0'', se_fields = map_of sample_entry_fields\<rparr>]"
proof -
  have "distinct (map fst sample_entry_fields)"
    by (simp add: sample_entry_fields_def)
  then show ?thesis
    using ParseReadReply_entries [of "[(''1-0'', sample_entry_fields)]" "''s''"] by simp
qed

lemma sample_stream:
  "run_state (consumer_client (STREAM ws)) (sample_at n strs log) =
     (Execute True [STREAM ws] (Inr (sample_stream_server n ws)), sample_at (n + 1) strs log)"
  by (simp add: consumer_client_def Command_def redis_answer_def sample_at_def)

lemma sample_setnx:
  "run_state (consumer_client (SETNX k v (nat_to_string kDeliveryDedupTtlSeconds))) (sample_at n Map.empty log) =
     (Execute True [SETNX k v (nat_to_string kDeliveryDedupTtlSeconds)] (Inr (REDIS_REPLY_STATUS ''OK'')),
      sample_at n [k \<mapsto> (v, Some 86400)] log)"
  "run_state (consumer_client (SETNX k v (nat_to_string kDeliveryDedupTtlSeconds))) (sample_at n [k \<mapsto> (v, Some 86400)] log) =
     (Execute True [SETNX k v (nat_to_string kDeliveryDedupTtlSeconds)] (Inr REDIS_REPLY_NIL),
      sample_at n [k \<mapsto> (v, Some 86400)] log)"
  by (simp_all add: consumer_client_def Command_def redis_answer_def sample_at_def kDeliveryDedupTtlSeconds_def
      digits_value_nat_to_string hash_at_def string_at_def alive_def)

lemma sample_rounds:
  fixes k :: string
  defines "k \<equiv> DeliveryDedupKey default_RedisConfig ''m1''"
  shows "snd (run_state (Run_round consumer_client default_RedisConfig consumer_callbacks) (sample_at 0 Map.empty [])) =
      sample_at 5 [k \<mapsto> (''1'', Some 86400)] [(''m1'', kRemoteDelivered)]"
    and "snd (run_state (Run_round consumer_client default_RedisConfig consumer_callbacks)
        (sample_at 5 [k \<mapsto> (''1'', Some 86400)] log)) = sample_at 10 [k \<mapsto> (''1'', Some 86400)] log"
proof -
  have no_entries: "ParseReadReply (RedisReply kArray [] 0 []) = []" "ParseClaimReply (RedisReply kArray [] 0 []) = []"
    by (simp_all add: ParseReadReply_def ParseClaimReply_def)
  have exe: "Execute True [c] (Inr (REDIS_REPLY_ARRAY [])) =
      \<lparr>rcr_success = True, rcr_error = kRedisNone, rcr_message = ''ok'', rcr_reply = RedisReply kArray [] 0 []\<rparr>"
    "Execute True [c] (Inr (entries_reply st es)) =
      \<lparr>rcr_success = True, rcr_error = kRedisNone, rcr_message = ''ok'', rcr_reply = ConvertReply (entries_reply st es)\<rparr>"
    "Execute True [c] (Inr (REDIS_REPLY_INTEGER i)) =
      \<lparr>rcr_success = True, rcr_error = kRedisNone, rcr_message = ''ok'', rcr_reply = RedisReply kInteger [] i []\<rparr>"
    "Execute True [c] (Inr (REDIS_REPLY_STATUS t)) =
      \<lparr>rcr_success = True, rcr_error = kRedisNone, rcr_message = ''ok'', rcr_reply = RedisReply kStatus t 0 []\<rparr>"
    "Execute True [c] (Inr REDIS_REPLY_NIL) = MakeRedisError kRedisNotFound ''redis key not found''"
    for c :: redis_command and st es i t
    by (simp_all add: Execute_def entries_reply_def MakeRedisError_def empty_reply_def)
  have call: "pc_delivery consumer_callbacks = Some (\<lambda>event. State (\<lambda>w.
      let out = cw_outcomes w (length (cw_log w)) in (out, w\<lparr>cw_log := cw_log w @ [(rpe_message_id event, out)]\<rparr>)))"
    by (simp add: consumer_callbacks_def)
  have deliver: "cw_outcomes (sample_at n strs log) = (\<lambda>_. kRemoteDelivered)" "cw_log (sample_at n strs log) = log"
    "(sample_at n strs log)\<lparr>cw_log := log'\<rparr> = sample_at n strs log'" for n strs log log'
    by (simp_all add: sample_at_def)
  note defs = Run_round_def PollOnce_def Let_def ClaimPending_def ReadNew_def sample_stream no_entries
    sample_stream_server_def exe sample_parsed ProcessPushEntry_def sample_decoded call deliver
    sample_setnx Ack_def MakeRedisError_def
  show "snd (run_state (Run_round consumer_client default_RedisConfig consumer_callbacks) (sample_at 0 Map.empty [])) =
      sample_at 5 [k \<mapsto> (''1'', Some 86400)] [(''m1'', kRemoteDelivered)]"
    unfolding k_def by (simp add: defs) (simp add: eval_nat_numeral)
  show "snd (run_state (Run_round consumer_client default_RedisConfig consumer_callbacks)
      (sample_at 5 [k \<mapsto> (''1'', Some 86400)] log)) = sample_at 10 [k \<mapsto> (''1'', Some 86400)] log"
    unfolding k_def by (simp add: defs)
qed

theorem remote_push_at_most_once_witness:
  "final_deliveries (snd (run_state (Run 2 consumer_client default_RedisConfig consumer_callbacks) (sample_at 0 Map.empty [])))
     ''m1'' = 1"
proof -
  let ?w' = "snd (run_state (Run 2 consumer_client default_RedisConfig consumer_callbacks) (sample_at 0 Map.empty []))"
  have "keys_kept default_RedisConfig (sample_at 0 Map.empty [])" "cw_log (sample_at 0 Map.empty []) = []"
    by (simp_all add: keys_kept_def sample_at_def)
  from remote_push_at_most_once [OF this prod.collapse [symmetric], of 2 "''m1''"]
  have "final_deliveries ?w' ''m1'' \<le> 1" .
  moreover have "?w' = sample_at 10 [DeliveryDedupKey default_RedisConfig ''m1'' \<mapsto> (''1'', Some 86400)]
      [(''m1'', kRemoteDelivered)]"
    using sample_rounds by (simp add: numeral_2_eq_2 split_beta)
  then have "0 < final_deliveries ?w' ''m1''"
    by (simp add: final_deliveries_def sample_at_def)
  ultimately show ?thesis by simp
qed


definition valid_event :: "RemotePushEvent \<Rightarrow> bool" where
  "valid_event event \<longleftrightarrow>
     rpe_event_id event \<noteq> [] \<and> rpe_message_id event \<noteq> [] \<and> rpe_payload event \<noteq> [] \<and>
     0 < rpe_from_user_id event \<and> rpe_from_user_id event \<le> int64_max \<and>
     0 < rpe_to_user_id event \<and> rpe_to_user_id event \<le> int64_max \<and>
     0 < rpe_target_connection_id event \<and> int (rpe_target_connection_id event) \<le> int64_max"

lemma DecodePushEvent_fields:
  assumes "valid_event event"
  shows "DecodePushEvent \<lparr>se_stream_id = i, se_fields = map_of (event_fields event)\<rparr> = Some event"
  using assms ParseInteger_print [of "rpe_from_user_id event"] ParseInteger_print [of "rpe_to_user_id event"]
    ParseInteger_connection [of "rpe_target_connection_id event"]
  by (simp add: DecodePushEvent_def event_fields_def valid_event_def)

text \<open>C30. What one server publishes, another decodes: for an event with identifiers, users and connection that
  fit the protocol, \<^verbatim>\<open>Publish\<close> appends one entry to the stream of the target server, and when Redis hands
  out this entry, the consumer reads exactly this event back.\<close>

theorem published_event_decodes:
  assumes "valid_event event" "target \<noteq> []" "CHR '':'' \<notin> set target"
  shows "Publish (Some redis) config target event = do {
      result \<leftarrow> redis (STREAM ([''XADD'', PushStreamKey config target, ''*''] @
        concat (map (\<lambda>(name, val). [name, val]) (event_fields event))));
      ret (rcr_success result \<and> rr_type (rcr_reply result) = kString)
    } \<and>
    map DecodePushEvent (ParseReadReply (ConvertReply (entries_reply stream [(i, event_fields event)]))) = [Some event]"
proof -
  have "distinct (map fst (event_fields event))"
    by (simp add: event_fields_def)
  then have "ParseReadReply (ConvertReply (entries_reply stream [(i, event_fields event)])) =
      [\<lparr>se_stream_id = i, se_fields = map_of (event_fields event)\<rparr>]"
    using ParseReadReply_entries [of "[(i, event_fields event)]" stream] by simp
  then show ?thesis
    using assms DecodePushEvent_fields [OF assms(1)] by (simp add: Publish_def)
qed

definition sample_event :: RemotePushEvent where
  "sample_event = \<lparr>rpe_event_id = ''e1'', rpe_message_id = ''m1'', rpe_from_user_id = 1, rpe_to_user_id = 2,
     rpe_target_connection_id = 7, rpe_payload = ''hi''\<rparr>"

theorem published_event_decodes_witness:
  "map DecodePushEvent (ParseReadReply (ConvertReply (entries_reply ''s'' [(''1-0'', event_fields sample_event)]))) =
     [Some sample_event]"
  using published_event_decodes [of sample_event "''server-2''" consumer_client default_RedisConfig "''s''" "''1-0''"]
  by (simp add: valid_event_def sample_event_def int64_max_def)

text \<open>A push is lost when releasing its key fails: the delivery callback asks for a retry, the \<^verbatim>\<open>DEL\<close> of the
  deduplication key fails without effect, and the next time the entry is handed out it is acknowledged
  as a duplicate although it was never delivered.\<close>

theorem failed_release_loses_push:
  assumes "DecodePushEvent entry = Some event" "cw_outcomes w 0 = kRetry" "cw_log w = []"
    and "rw_events (cw_redis w) =
      [\<lparr>re_env = (\<lambda>s. s), re_fault = None\<rparr>, \<lparr>re_env = (\<lambda>s. s), re_fault = Some (err, False)\<rparr>]"
    and "\<not> key_held config (rw_store (cw_redis w)) (rpe_message_id event)"
    and "\<And>n ws. rs_stream_server (rw_store (cw_redis w)) n (''XACK'' # ws) = REDIS_REPLY_INTEGER 1"
    and "run_state (do {
        _ \<leftarrow> ProcessPushEntry consumer_client config consumer_callbacks entry;
        ProcessPushEntry consumer_client config consumer_callbacks entry
      }) w = (acknowledged, w')"
  shows "acknowledged \<and> cw_log w' = [(rpe_message_id event, kRetry)] \<and> final_deliveries w' (rpe_message_id event) = 0"
proof -
  let ?k = "DeliveryDedupKey config (rpe_message_id event)" and ?s = "rw_store (cw_redis w)"
  have free: "string_at ?s ?k = None" "hash_at ?s ?k = None"
    using assms(5) by (simp_all add: key_held_def)
  have "string_at (?s\<lparr>rs_hashes := (rs_hashes ?s)(?k := None), rs_strings := (rs_strings ?s)(?k \<mapsto> (v, Some (rs_now ?s + 86400)))\<rparr>) ?k =
      Some v" for v
    by (simp add: string_at_def alive_def)
  with assms free show ?thesis
    by (auto simp: kDeliveryDedupTtlSeconds_def digits_value_nat_to_string ProcessPushEntry_def Let_def consumer_callbacks_def consumer_client_def Command_def redis_answer_def
        Execute_def MakeRedisError_def Ack_def final_deliveries_def)
qed


definition sample_lossy :: consumer_world where
  "sample_lossy = (sample_at 0 Map.empty [])
     \<lparr>cw_outcomes := (\<lambda>_. kRetry),
      cw_redis := (cw_redis (sample_at 0 Map.empty []))
        \<lparr>rw_store := (rw_store (cw_redis (sample_at 0 Map.empty [])))\<lparr>rs_stream_server := (\<lambda>_ _. REDIS_REPLY_INTEGER 1)\<rparr>,
         rw_events := [\<lparr>re_env = (\<lambda>s. s), re_fault = None\<rparr>, \<lparr>re_env = (\<lambda>s. s), re_fault = Some (kTimeout, False)\<rparr>]\<rparr>\<rparr>"

theorem failed_release_loses_push_witness:
  "cw_log (snd (run_state (do {
      _ \<leftarrow> ProcessPushEntry consumer_client default_RedisConfig consumer_callbacks
        \<lparr>se_stream_id = ''1-0'', se_fields = map_of sample_entry_fields\<rparr>;
      ProcessPushEntry consumer_client default_RedisConfig consumer_callbacks
        \<lparr>se_stream_id = ''1-0'', se_fields = map_of sample_entry_fields\<rparr>
    }) sample_lossy)) = [(''m1'', kRetry)]"
  using failed_release_loses_push [OF sample_decoded [of "''1-0''"], of sample_lossy kTimeout default_RedisConfig,
      OF _ _ _ _ _ prod.collapse [symmetric]]
  by (simp add: sample_lossy_def sample_at_def key_held_def string_at_def hash_at_def alive_def)

end
