(* ===== verification/System.thy ===== *)
theory System
  imports DbSchedule HandlerWorld World RedisPushStream
begin

text \<open>
  The whole server: the message handler of \<^verbatim>\<open>main\<close> (\<^verbatim>\<open>src/src/main.cc\<close>), built from the four services of
  the wired world, run by the epoll server. What the objects of the world keep is carried by the
  handler to every interleaving of the I/O thread and the workers.
\<close>

section \<open>Wiring\<close>

definition push_publisher :: "RedisConfig \<Rightarrow> World IRemotePushPublisher option" where
  "push_publisher cfg = enabled cfg (Publish (Some redis_client) cfg)"

definition chat_handler :: "RedisConfig \<Rightarrow> libcrypt \<Rightarrow> (string \<Rightarrow> 64 word) \<Rightarrow> World MessageHandler" where
  "chat_handler cfg lib string_hash =
     \<lparr>hd_user_service = user_service cfg lib, hd_chat_service = chat_service cfg (push_publisher cfg),
      hd_friend_service = Some (friend_service cfg), hd_group_service = Some (group_service cfg string_hash)\<rparr>"

section \<open>The invariant of the whole server\<close>

definition system_inv :: "RedisConfig \<Rightarrow> World \<Rightarrow> bool" where
  "system_inv cfg w \<longleftrightarrow> w_inv cfg w \<and> losses_only (w_db w)"

interpretation system: preorder_guarantee "system_inv cfg" w_later for cfg
  by unfold_locales (rule world.R_refl world.R_trans; assumption)+

interpretation world_schedule: preorder_guarantee "\<lambda>_. True" "\<lambda>w w'. uses_up (w_db w) (w_db w')"
  by unfold_locales (auto simp: uses_up_def)

abbreviation spending :: "(World, 'a) state \<Rightarrow> bool" where
  "spending \<equiv> assured (\<lambda>_. True) (\<lambda>w w'. uses_up (w_db w) (w_db w'))"

lemma system_assured:
  assumes "assured (w_inv cfg) w_later m" "spending m"
  shows "assured (system_inv cfg) w_later m"
  using assms by (auto simp: assured_def wp_def system_inv_def intro: losses_only_uses_up split: prod.splits)

lemma keeps_assured:
  "(\<And>w a w'. I w \<Longrightarrow> run_state m w = (a, w') \<Longrightarrow> I w' \<and> R w w') \<Longrightarrow> assured I R m"
  by (simp add: assured_def wpI)

lemma spending_db: "consuming m \<Longrightarrow> spending (on_db m)"
  by (auto simp: assured_def wp_def on_db_def split: prod.splits)

lemma spending_redis: "spending (redis_client cmd)"
  by (auto simp: assured_def wp_def redis_client_def on_redis_def uses_up_def split: prod.splits)

lemmas spending_rules = world_schedule.assured_rules spending_redis

section \<open>The objects of the world\<close>

lemma system_users: "user_repo_keeps (system_inv cfg) w_later (active_user_repo cfg)"
proof -
  note users = spending_db [OF consuming_users(1)] spending_db [OF consuming_users(2)]
    spending_db [OF consuming_users(3)] spending_db [OF consuming_users(4)]
  have "spending (iu_findByUsername (active_user_repo cfg) n)" "spending (iu_findById (active_user_repo cfg) u)"
    "spending (iu_createUser (active_user_repo cfg) n h k)" "spending (iu_updatePasswordHash (active_user_repo cfg) u h)"
    for n h k u
    unfolding active_user_repo_def cached_user_repository_ops_def user_repo_def cached_findByUsername_def cached_findById_def
      cached_createUser_def cached_updatePasswordHash_def cached_value_def from_source_def CacheNotFound_def forget_def
      Let_def if_distrib [of iu_findByUsername] if_distrib [of iu_findById] if_distrib [of iu_createUser]
      if_distrib [of iu_updatePasswordHash] IUserRepository.simps if_distribR option.case
    by (intro spending_rules users)+
  moreover have "assured (w_inv cfg) w_later (iu_findByUsername (active_user_repo cfg) n)"
    "assured (w_inv cfg) w_later (iu_findById (active_user_repo cfg) u)"
    "assured (w_inv cfg) w_later (iu_createUser (active_user_repo cfg) n h k)"
    "assured (w_inv cfg) w_later (iu_updatePasswordHash (active_user_repo cfg) u h)" for n h k u
    by (rule keeps_assured, rule world_active.name_keeps world_active.id_keeps world_active.create_keeps
        world_active.update_keeps; assumption)+
  ultimately show ?thesis
    by (simp add: user_repo_keeps_def system_assured)
qed

lemma system_messages: "message_repo_keeps (system_inv cfg) w_later message_repo"
proof -
  have "spending (imr_createMessage message_repo m)" "spending (imr_findMessageByClientMsgId message_repo u i)"
    "spending (imr_listOfflineMessages message_repo u l c)" "spending (imr_markDelivered message_repo now u ids)"
    "spending (imr_markRead message_repo now u ids)" for m u i l c now ids
    by (simp_all add: message_repo_def spending_db consuming_messages)
  moreover have "assured (w_inv cfg) w_later (imr_createMessage message_repo m)"
    "assured (w_inv cfg) w_later (imr_listOfflineMessages message_repo u l c)"
    "assured (w_inv cfg) w_later (imr_markDelivered message_repo now u ids)"
    "assured (w_inv cfg) w_later (imr_markRead message_repo now u ids)" for m u l c now ids
    by (rule keeps_assured, rule world_messages.create_keeps world_messages.list_keeps world_messages.mark_delivered_keeps
        world_messages.mark_read_keeps; assumption)+
  moreover have "assured (w_inv cfg) w_later (imr_findMessageByClientMsgId message_repo u i)" for u i
    by (rule keeps_assured) (use world_messages.find_result in blast)
  ultimately show ?thesis
    by (simp add: message_repo_keeps_def system_assured)
qed

lemma system_friends: "friend_repo_keeps (system_inv cfg) w_later friend_repo"
proof -
  have "spending (ifr_findFriendship friend_repo a b)" "spending (ifr_createFriendRequest friend_repo a b)"
    "spending (ifr_acceptFriendRequest friend_repo a b)" "spending (ifr_deleteFriendship friend_repo a b)"
    "spending (ifr_listFriendships friend_repo a)" for a b
    by (simp_all add: friend_repo_def spending_db consuming_friends)
  moreover have "assured (w_inv cfg) w_later (ifr_findFriendship friend_repo a b)"
    "assured (w_inv cfg) w_later (ifr_createFriendRequest friend_repo a b)"
    "assured (w_inv cfg) w_later (ifr_acceptFriendRequest friend_repo a b)"
    "assured (w_inv cfg) w_later (ifr_deleteFriendship friend_repo a b)"
    "assured (w_inv cfg) w_later (ifr_listFriendships friend_repo a)" for a b
    by (rule keeps_assured, rule world_friends.find_keeps world_friends.create_keeps world_friends.accept_keeps
        world_friends.delete_keeps world_friends.list_keeps; assumption)+
  ultimately show ?thesis
    by (simp add: friend_repo_keeps_def system_assured)
qed

lemma system_createGroup: "assured (system_inv cfg) w_later (igr_createGroup group_repo grp ms)"
proof (rule keeps_assured)
  fix w r w'
  assume inv: "system_inv cfg w" and run: "run_state (igr_createGroup group_repo grp ms) w = (r, w')"
  have db: "run_state (createGroup grp ms) (w_db w) = (r, w_db w')"
    using on_dbD run by (simp add: group_repo_def)
  have idle: "idle (w_db w')"
    using wpD [OF createGroup_idle db] inv by (simp add: system_inv_def w_inv_def repo_inv_def)
  have "db_inv (w_db w')" "db_guar (w_db w) (w_db w')"
    using db_guarantee.assured_run [OF safe_createGroup _ db] inv by (auto simp: system_inv_def w_inv_def repo_inv_def)
  then show "system_inv cfg w' \<and> w_later w w'"
    using on_db_inv [of cfg w "createGroup grp ms" r w'] idle inv run wpD [OF losses_kept [OF consuming_groups(1)] db]
    by (simp add: system_inv_def group_repo_def w_later_def repo_inv_def)
qed

lemma system_groups: "group_repo_keeps (system_inv cfg) w_later group_repo"
proof -
  have "spending (igr_findGroup group_repo gid)" "spending (igr_addMember group_repo m)"
    "spending (igr_listMembers group_repo gid)" for gid m
    by (simp_all add: group_repo_def spending_db consuming_groups)
  moreover have "assured (w_inv cfg) w_later (igr_findGroup group_repo gid)"
    "assured (w_inv cfg) w_later (igr_addMember group_repo m)"
    "assured (w_inv cfg) w_later (igr_listMembers group_repo gid)" for gid m
    by (rule keeps_assured, use world_groups.find_group world_groups.add_member world_groups.list_members in blast)+
  ultimately show ?thesis
    by (simp add: group_repo_keeps_def system_assured system_createGroup)
qed

lemma system_sessions: "sessions_keep (system_inv cfg) w_later session_manager"
proof -
  have "spending (State (im_BindSession session_manager c s))" "spending (modify (im_ClearSession session_manager c))" for c s
    by (auto simp: assured_def wp_def session_manager_def uses_up_def split: prod.splits)
  moreover have "assured (w_inv cfg) w_later (State (im_BindSession session_manager c s))" for c s
  proof (rule keeps_assured)
    fix w a w'
    assume w: "w_inv cfg w" and "run_state (State (im_BindSession session_manager c s)) w = (a, w')"
    then have run: "im_BindSession session_manager c s w = (a, w')" by simp
    then show "w_inv cfg w' \<and> w_later w w'"
      using world_sessions.bind_result [OF _ w run] world_sessions.bind_refused [of s c w] w session_ops_later(1) [of w c s]
      by (cases "valid_session s") auto
  qed
  moreover have "assured (w_inv cfg) w_later (modify (im_ClearSession session_manager c))" for c
    using world_sessions.clear_result session_ops_later(2) by (intro keeps_assured) auto
  ultimately show ?thesis
    by (simp add: sessions_keep_def system_assured)
qed

lemma system_redis_objects:
  "store_keeps (system_inv cfg) w_later (session_store cfg)" "limiter_keeps (system_inv cfg) w_later (rate_limiter cfg)"
  "dedup_keeps (system_inv cfg) w_later (dedup_cache cfg)" "publisher_keeps (system_inv cfg) w_later (push_publisher cfg)"
proof -
  have "spending (Bind (Some redis_client) cfg c s now)" "spending (Refresh (Some redis_client) cfg c s)"
    "spending (ClearPresence (Some redis_client) cfg c s)" "spending (RevokeSession (Some redis_client) cfg c s)"
    "spending (GetToken (Some redis_client) cfg tok)" "spending (GetPresence (Some redis_client) cfg uid)" for c s now tok uid
    unfolding Bind_def Refresh_def ClearPresence_def RevokeSession_def GetToken_def GetPresence_def
      ReadHash_def forget_def Let_def option.case
    by (intro spending_rules)+
  then show "store_keeps (system_inv cfg) w_later (session_store cfg)"
    by (auto simp: store_keeps_def wired intro!: system_assured session_store_assured split: if_splits)
  have "spending (Allow (Some redis_client) cfg clock kind i limit window)" for clock kind i limit window
    unfolding Allow_def Let_def option.case by (intro spending_rules)
  then show "limiter_keeps (system_inv cfg) w_later (rate_limiter cfg)"
    by (auto simp: limiter_keeps_def wired intro!: system_assured rate_limiter_assured split: if_splits)
  have "spending (Lookup (Some redis_client) cfg u c)" "spending (Save (Some redis_client) cfg u c m)"
    "spending (Remove (Some redis_client) cfg u c)" for u c m
    unfolding Lookup_def Save_def Remove_def Let_def option.case by (intro spending_rules)+
  then show "dedup_keeps (system_inv cfg) w_later (dedup_cache cfg)"
    by (auto simp: dedup_keeps_def wired intro!: system_assured dedup_assured split: if_splits)
  have "spending (Publish (Some redis_client) cfg server event)" for server event
    unfolding Publish_def Let_def option.case by (intro spending_rules)
  moreover have "assured (w_inv cfg) w_later (Publish (Some redis_client) cfg server event)" for server event
    unfolding Publish_def Let_def option.case by (intro redis_assured; simp)
  ultimately show "publisher_keeps (system_inv cfg) w_later (push_publisher cfg)"
    by (auto simp: publisher_keeps_def push_publisher_def enabled_def intro!: system_assured split: if_splits)
qed

lemmas system_objects = system_users system_messages system_friends system_groups system_sessions system_redis_objects

section \<open>The services and the handler\<close>

interpretation system_user: user_objects "system_inv cfg" w_later "user_service cfg lib" for cfg lib
  by (intro user_objects.intro user_objects_axioms.intro system.preorder_guarantee_axioms)
    (simp_all add: user_service_def system_objects)

interpretation system_chat: chat_objects "system_inv cfg" w_later "chat_service cfg (push_publisher cfg)" for cfg
  by (intro chat_objects.intro chat_objects_axioms.intro system.preorder_guarantee_axioms)
    (simp_all add: chat_service_def system_objects)

interpretation system_friend: friend_objects "system_inv cfg" w_later "friend_service cfg" for cfg
  by (intro friend_objects.intro friend_objects_axioms.intro system.preorder_guarantee_axioms)
    (simp_all add: friend_service_def system_objects)

interpretation system_group: group_objects "system_inv cfg" w_later "group_service cfg string_hash" for cfg string_hash
  by (intro group_objects.intro group_objects_axioms.intro system.preorder_guarantee_axioms)
    (simp_all add: group_service_def system_objects)

interpretation system_handler: handler_objects "system_inv cfg" w_later "chat_handler cfg lib string_hash"
  for cfg lib string_hash
  by (intro handler_objects.intro handler_objects_axioms.intro system.preorder_guarantee_axioms)
    (auto simp: chat_handler_def system_user.user_objects_axioms system_chat.chat_objects_axioms
      system_friend.friend_objects_axioms system_group.group_objects_axioms)

end
