(* ===== verification/Progress.thy ===== *)
theory Progress
  imports ServerRuns
begin

text \<open>
  The work the server does on its own: the workers take and run tasks, the I/O thread fetches and
  processes what they report and, once it is told to stop, shuts down. Without new input from clients,
  the clock or other servers these steps come to an end, and then every request is answered and
  every closed connection is cleaned up.
\<close>

section \<open>Steps without input\<close>

inductive own_step :: "'w IMessageHandler \<Rightarrow> 'w run \<Rightarrow> 'w run \<Rightarrow> bool" for h where
  worker_event: "sv_io s = IoWait \<Longrightarrow> sv_event_ready s \<Longrightarrow>
    own_step h (s, w, log)
      (s\<lparr>sv_event_ready := False, sv_remote_push_tasks := [], sv_io := IoRemote (sv_remote_push_tasks s)\<rparr>, w, log)"
| remote: "sv_io s = IoRemote (task # tasks) \<Longrightarrow>
    process_remote h ctl_ok task (s\<lparr>sv_io := IoRemote tasks\<rparr>, w) = (s', w') \<Longrightarrow>
    own_step h (s, w, log) (s', w', log)"
| remote_done: "sv_io s = IoRemote [] \<Longrightarrow>
    own_step h (s, w, log) (s\<lparr>sv_completed_tasks := [], sv_io := IoTasks (sv_completed_tasks s)\<rparr>, w, log)"
| response: "sv_io s = IoTasks (task # tasks) \<Longrightarrow>
    process_response h ctl locked task (s\<lparr>sv_io := IoTasks tasks\<rparr>, w) = (s', w') \<Longrightarrow>
    own_step h (s, w, log) (s', w', log)"
| response_done: "sv_io s = IoTasks [] \<Longrightarrow>
    own_step h (s, w, log)
      (s\<lparr>sv_post_delivery_events := [], sv_io := IoEvents (sv_post_delivery_events s)\<rparr>, w, log)"
| event: "sv_io s = IoEvents (ev # evs) \<Longrightarrow>
    process_event h ev (s\<lparr>sv_io := IoEvents evs\<rparr>, w) = (s', w') \<Longrightarrow>
    own_step h (s, w, log) (s', w', log)"
| event_done: "sv_io s = IoEvents [] \<Longrightarrow> own_step h (s, w, log) (s\<lparr>sv_io := IoWait\<rparr>, w, log)"
| close_down: "sv_io s = IoWait \<Longrightarrow> sv_stopping s \<Longrightarrow> set fds = dom (sv_fd_to_context s) \<Longrightarrow>
    shutdown h fds (s, w) = (s', w') \<Longrightarrow> own_step h (s, w, log) (s', w', log)"
| join: "sv_io s = IoJoin \<Longrightarrow> sv_pool_tasks s = [] \<Longrightarrow> sv_running s = [] \<Longrightarrow>
    own_step h (s, w, log) (release_resources s, w, log)"
| take_task: "Taketask s = Some s' \<Longrightarrow> own_step h (s, w, log) (s', w, log)"
| run: "task \<in> set (sv_running s) \<Longrightarrow>
    run_task h locked task (s\<lparr>sv_running := remove1 task (sv_running s)\<rparr>, w) = (s', w') \<Longrightarrow>
    own_step h (s, w, log) (s', w', log @ (case task of CleanupTask cid \<Rightarrow> [cid] | _ \<Rightarrow> []))"

lemma own_step_server_step: "own_step h n n' \<Longrightarrow> server_step h opts n n'"
  by (induction rule: own_step.induct) (rule server_step.intros; assumption)+

section \<open>What is left to do\<close>

text \<open>The requests still to be handled, and the effort of everything else that waits somewhere. Every
  piece of effort exceeds what processing it leaves behind.\<close>

fun is_request :: "worker_task \<Rightarrow> bool" where
  "is_request (RequestTask c ip r) = True"
| "is_request _ = False"

fun effort :: "worker_task \<Rightarrow> nat" where
  "effort (MarkOwn u ms c) = 8"
| "effort (MarkOther u ms c) = 8"
| "effort (ResumeTask c) = 7"
| "effort _ = 0"

definition answer_effort :: "ResponseTask \<Rightarrow> nat" where
  "answer_effort t = 23 + 10 * length (rt_pushes t)"

fun io_effort :: "io_position \<Rightarrow> nat" where
  "io_effort (IoRemote ts) = 5 + length ts"
| "io_effort (IoTasks ts) = 4 + sum_list (map answer_effort ts)"
| "io_effort (IoEvents es) = 3 + 3 * length es"
| "io_effort IoWait = 2"
| "io_effort IoJoin = 1"
| "io_effort IoDone = 0"

definition queued :: "(connectionId \<Rightarrow> ConnectionContext) \<Rightarrow> nat \<Rightarrow> nat" where
  "queued ctxs n = (\<Sum>c<n. length (pending_requests (ctxs c)))"

definition demand :: "Server \<Rightarrow> nat" where
  "demand s = queued (sv_contexts s) (sv_next_conn_id s) + number is_request (sv_pool_tasks s) + number is_request (sv_running s)"

definition load :: "Server \<Rightarrow> nat" where
  "load s =
     sum_list (map (\<lambda>t. 2 + effort t) (sv_pool_tasks s)) + sum_list (map (\<lambda>t. 1 + effort t) (sv_running s)) +
     sum_list (map answer_effort (sv_completed_tasks s)) + 3 * length (sv_post_delivery_events s) +
     length (sv_remote_push_tasks s) + io_effort (sv_io s) + (if sv_event_ready s then 4 else 0) + 3 * card (sv_connections s)"

definition bounded :: "Server \<Rightarrow> bool" where
  "bounded s \<longleftrightarrow> sv_connections s \<subseteq> {..<sv_next_conn_id s}"

text \<open>A part of a step that adds no request and at most the given effort.\<close>

definition costs :: "nat \<Rightarrow> Server \<Rightarrow> Server \<Rightarrow> bool" where
  "costs k s s' \<longleftrightarrow> (bounded s \<longrightarrow>
     bounded s' \<and> sv_next_conn_id s' = sv_next_conn_id s \<and> sv_stopping s' = sv_stopping s \<and>
     demand s' \<le> demand s \<and> load s' \<le> load s + k)"

lemma costs_refl: "costs 0 s s"
  by (simp add: costs_def)

lemma costs_trans: "costs k s s1 \<Longrightarrow> costs l s1 s2 \<Longrightarrow> costs (k + l) s s2"
  by (auto simp: costs_def)

lemma costs_free: "costs 0 s s1 \<Longrightarrow> costs l s1 s2 \<Longrightarrow> costs l s s2"
  using costs_trans [of 0] by simp

lemma costs_mono: "costs k s s' \<Longrightarrow> k \<le> l \<Longrightarrow> costs l s s'"
  by (auto simp: costs_def)

lemma queued_update:
  "queued (ctxs(c := x)) n + (if c < n then length (pending_requests (ctxs c)) else 0) =
   queued ctxs n + (if c < n then length (pending_requests x) else 0)"
proof (cases "c < n")
  case True
  have "queued f n = length (pending_requests (f c)) + (\<Sum>d\<in>{..<n} - {c}. length (pending_requests (f d)))" for f
    unfolding queued_def using True by (subst sum.remove [of _ c]) auto
  moreover have "(\<Sum>d\<in>{..<n} - {c}. length (pending_requests ((ctxs(c := x)) d))) =
      (\<Sum>d\<in>{..<n} - {c}. length (pending_requests (ctxs d)))"
    by (intro sum.cong) auto
  ultimately show ?thesis using True by simp
qed (auto simp: queued_def intro!: sum.cong)

lemma queued_shrinks:
  "length (pending_requests x) \<le> length (pending_requests (ctxs c)) \<Longrightarrow> queued (ctxs(c := x)) n \<le> queued ctxs n"
  using queued_update [of ctxs c x n] by (simp split: if_splits)

lemma costs_on_context:
  "length (pending_requests (f (sv_contexts s c))) \<le> length (pending_requests (sv_contexts s c)) \<Longrightarrow>
   costs 0 s (on_context c f s)"
  by (simp add: costs_def bounded_def demand_def load_def queued_shrinks)

lemma costs_forget: "costs 0 s (forget_authenticated u c s)"
  by (simp add: costs_def bounded_def demand_def load_def)

lemma costs_submit: "submit t s = Some s' \<Longrightarrow> \<not> is_request t \<Longrightarrow> costs (2 + effort t) s s'"
  by (auto simp: submit_def costs_def bounded_def demand_def load_def split: if_splits)

lemma costs_set_outcome: "costs 0 s (set_outcome t r s)"
  by (simp add: costs_def bounded_def demand_def load_def set_outcome_def)

section \<open>The callbacks of the I/O thread\<close>

lemma costs_closeClientFd: "costs 0 s (fst (closeClientFd h fd (s, w)))"
proof (cases "sv_fd_to_context s fd")
  case None
  then show ?thesis by (simp add: closeClientFd_def getConnectionContextByFd_def costs_refl)
next
  case (Some c)
  show ?thesis
  proof (cases "c \<in> sv_connections s")
    case False
    then show ?thesis
      using Some by (simp add: closeClientFd_def getConnectionContextByFd_def unregisterConnection_def costs_refl)
  next
    case True
    let ?s = "closed_server c s"
    have pending: "pending_requests (closed_context x) = []" for x
      by (simp add: closed_context_def closeConnection_def ctx_defs)
    have close: "closeClientFd h fd (s, w) = dispatchConnectionClosed h c (?s, w)"
      using closeClientFd_eq [of s fd h w] True Some by simp
    have "bounded ?s \<and> sv_next_conn_id ?s = sv_next_conn_id s \<and> sv_stopping ?s = sv_stopping s \<and> demand ?s \<le> demand s \<and>
        load ?s + 3 \<le> load s" if "bounded s"
    proof -
      have "finite (sv_connections s)" using that by (auto simp: bounded_def intro: finite_subset)
      then have "card (sv_connections s) = Suc (card (sv_connections s - {c}))"
        using True by (metis card_Suc_Diff1)
      then show ?thesis
        using that by (auto simp: bounded_def demand_def load_def pending closed_server_def queued_shrinks)
    qed
    moreover have "costs 2 ?s (fst (dispatchConnectionClosed h c (?s, w)))"
      using costs_submit [of "CleanupTask c" ?s] costs_mono [OF costs_refl]
      by (auto simp: dispatchConnectionClosed_def split: option.splits)
    ultimately show ?thesis
      unfolding close by (auto simp: costs_def)
  qed
qed

lemma closeClientFd_costs: "closeClientFd h fd (s, w) = (s', w') \<Longrightarrow> costs 0 s s'"
  using costs_closeClientFd [of s h fd w] by simp

lemma costs_start_next:
  assumes "case popped of (None, c') \<Rightarrow> length (pending_requests c') \<le> length (pending_requests (sv_contexts s cid))
      | (Some r, c') \<Rightarrow> pending_requests (sv_contexts s cid) = r # pending_requests c'"
    and "sv_stopping s \<or> cid < sv_next_conn_id s"
  shows "costs 2 s (snd (start_next cid popped s))"
proof (cases popped)
  case (Pair r c')
  show ?thesis
  proof (cases r)
    case None
    then show ?thesis
      using assms(1) Pair by (auto simp: start_next_def intro!: costs_mono [OF costs_on_context])
  next
    case (Some request)
    let ?s = "on_context cid (\<lambda>_. c') s"
    have pop: "pending_requests (sv_contexts s cid) = request # pending_requests c'"
      using assms(1) Pair Some by simp
    have ctx: "costs 0 s ?s" "costs 0 s (on_context cid clearPendingRequests ?s)"
      by (auto simp: pop ctx_defs intro!: costs_on_context costs_free [OF costs_on_context [of "\<lambda>_. c'" s cid]])
    have "costs 2 s s2" if "submitRequestTask cid ip request ?s = Some s2" for s2 ip
    proof -
      have "cid < sv_next_conn_id s" and s2: "s2 = ?s\<lparr>sv_pool_tasks := sv_pool_tasks s @ [RequestTask cid ip request]\<rparr>"
        using that assms(2) by (auto simp: submitRequestTask_def submit_def split: if_splits)
      then show ?thesis
        using queued_update [of "sv_contexts s" cid c' "sv_next_conn_id s"]
        by (simp add: costs_def bounded_def demand_def load_def pop)
    qed
    then show ?thesis
      using Pair Some ctx by (auto simp: start_next_def Let_def intro: costs_mono split: option.splits)
  qed
qed

lemma costs_next_request:
  assumes "sv_stopping s \<or> cid < sv_next_conn_id s"
  shows "costs 2 s (snd (finishCurrentRequestAndSubmitNext cid s))" "costs 2 s (snd (submitNextQueuedRequestIfIdle cid s))"
  unfolding finishCurrentRequestAndSubmitNext_def submitNextQueuedRequestIfIdle_def
  by (rule costs_start_next; use assms in \<open>auto simp: ctx_defs split: list.splits\<close>)+

lemma costs_mark_other: "costs 10 s (mark_other m s)"
proof -
  obtain target mids uid where m: "m = (target, mids, uid)" by (cases m)
  let ?s = "on_context target incrementPendingDeliveryMarks s"
  have up: "costs 0 s ?s" by (rule costs_on_context) (simp add: ctx_defs)
  have tell: "costs 7 x (enqueuePostDeliveryEvent target False x)" for x
    by (simp add: costs_def bounded_def demand_def load_def enqueuePostDeliveryEvent_def notifyWorkerEventFd_def)
  have "costs 7 s (enqueuePostDeliveryEvent target False (on_context target decrementPendingDeliveryMarks ?s))"
    by (rule costs_free [OF up costs_free [OF costs_on_context tell]]) (simp add: ctx_defs)
  moreover have "costs 10 s s2" if "submit (MarkOther uid mids target) ?s = Some s2" for s2
    using costs_free [OF up costs_submit [OF that]] by simp
  ultimately show ?thesis
    using costs_mono [of 7 _ _ 10] costs_mono [OF costs_refl, of 10 s]
    by (simp add: m mark_other_def getConnectionContextById_def Let_def split: option.split)
qed

lemma costs_mark_others: "costs (10 * length ms) s (fold mark_other ms s)"
proof (induction ms arbitrary: s)
  case (Cons m ms)
  then show ?case
    using costs_trans [OF costs_mark_other [of s m] Cons.IH] by (simp add: ac_simps)
qed (simp add: costs_refl)

lemma costs_mark_own: "costs 10 s (snd (mark_own uid mids cid s))"
  using costs_submit [of "MarkOwn uid mids cid" s]
  by (auto simp: mark_own_def intro: costs_mono costs_refl split: option.splits)

lemma costs_session: "costs 0 (fst n) (fst (apply_session_action h task n))"
proof -
  have unbind: "costs 0 s (unbindAuthenticatedConnection c s)" for c s
    unfolding unbindAuthenticatedConnection_def
    by (rule costs_free [OF costs_forget costs_on_context]) (simp add: ctx_defs)
  have auth: "costs 0 s (s\<lparr>sv_authenticated := a\<rparr>)" for s a
    by (simp add: costs_def bounded_def demand_def load_def)
  have "costs 0 s (bindAuthenticatedConnection c u s)" for c u s
    unfolding bindAuthenticatedConnection_def Let_def
    by (rule costs_free [OF unbind costs_free [OF auth costs_on_context]]) (simp add: ctx_defs)
  then show ?thesis
    using unbind by (cases n) (auto simp: apply_session_action_def intro: costs_refl split: SessionAction.split)
qed

lemma length_update: "length (AList.update k v al) \<le> Suc (length al)"
  by (induction al) auto

lemma length_add_other_mark: "length (add_other_mark t m u ms) \<le> Suc (length ms)"
  by (auto simp: add_other_mark_def length_update split: option.split)

lemma costs_hand_out_push:
  assumes "hand_out_push h ctl_ok cid push ((s, w), m) = ((s', w'), m')"
  shows "costs 0 s s' \<and> length (cm_other m') \<le> Suc (length (cm_other m))"
proof -
  let ?s = "on_context (ob_target_conn_id push) (appendPendingSend (encode (ob_payload push))) s"
  have append: "costs 0 s ?s" by (rule costs_on_context) (simp add: ctx_defs)
  have close: "costs 0 s s'" if "closeClientFd h fd (?s, w) = (s', w')" for fd
    by (rule costs_free [OF append closeClientFd_costs [OF that]])
  show ?thesis
    using assms append close length_add_other_mark
    by (auto simp: hand_out_push_def getConnectionContextById_def Let_def costs_refl le_SucI split: if_split_asm)
qed

lemma costs_hand_out_pushes:
  assumes "hand_out_pushes h ctl i cid ps ((s, w), m) = ((s', w'), m')"
  shows "costs 0 s s' \<and> length (cm_other m') \<le> length (cm_other m) + length ps"
  using assms
proof (induction ps arbitrary: i s w m)
  case (Cons p ps)
  obtain s1 w1 m1 where one: "hand_out_push h (ctl i) cid p ((s, w), m) = ((s1, w1), m1)" by (metis surj_pair)
  from costs_hand_out_push [OF one] Cons.IH [of "Suc i" s1 w1 m1] Cons.prems one costs_free [of s s1]
  show ?case by fastforce
qed (simp add: costs_refl)

lemma costs_finish_response:
  assumes "sv_stopping (fst n) \<or> rt_conn_id task < sv_next_conn_id (fst n)" "bounded (fst n)"
  shows "costs (12 + 10 * length (rt_pushes task)) (fst n) (fst (finish_response h ctl task deferred n))"
proof -
  let ?c = "rt_conn_id task"
  obtain s w where n: "n = (s, w)" by (cases n)
  obtain s0 w0 where act: "apply_session_action h task n = (s0, w0)" by fastforce
  obtain s1 w1 m where out: "hand_out_pushes h ctl 1 ?c (rt_pushes task) ((s0, w0), \<lparr>cm_own = [], cm_own_user = 0, cm_other = []\<rparr>) =
      ((s1, w1), m)" by (metis surj_pair)
  define s2 where "s2 = fold mark_other (cm_other m) s1"
  obtain own s3 where mark: "(if cm_own m = [] then (False, s2) else mark_own (cm_own_user m) (cm_own m) ?c s2) = (own, s3)"
    by fastforce
  have "costs 0 s s0" using costs_session [of n h task] unfolding act by (simp add: n)
  then have first: "costs 0 s s1"
    using costs_hand_out_pushes [OF out] costs_free by blast
  have len: "length (cm_other m) \<le> length (rt_pushes task)"
    using costs_hand_out_pushes [OF out] by simp
  have "costs (10 * length (rt_pushes task)) s s2"
    unfolding s2_def by (rule costs_mono [OF costs_free [OF first costs_mark_others]]) (use len in simp)
  moreover have "costs 10 s2 s3"
    using mark costs_mark_own [of s2 "cm_own_user m" "cm_own m" ?c] costs_mono [OF costs_refl, of 10 s2]
    by (auto split: if_splits)
  ultimately have until: "costs (10 * length (rt_pushes task) + 10) s s3"
    by (rule costs_trans)
  obtain sub s4 where nxt: "finishCurrentRequestAndSubmitNext ?c s3 = (sub, s4)" by fastforce
  have "sv_stopping s3 \<or> ?c < sv_next_conn_id s3"
    using until assms by (simp add: costs_def n)
  then have "costs 2 s3 s4"
    using costs_next_request(1) [of s3 ?c] nxt by simp
  from costs_trans [OF until this] have done4: "costs (12 + 10 * length (rt_pushes task)) s s4"
    by simp
  have "costs (12 + 10 * length (rt_pushes task)) s (fst (closeClientFd h fd (s4, w1)))" for fd
    using costs_trans [OF done4 costs_closeClientFd] by simp
  then show ?thesis
    using done4 costs_mono [OF until, of "12 + 10 * length (rt_pushes task)"] act out mark nxt
    by (auto simp: finish_response_def Let_def n s2_def split: prod.splits)
qed

lemma costs_process_response:
  assumes "process_response h ctl locked task (s, w) = (s', w')" "bounded s"
    and "sv_stopping s \<or> rt_conn_id task < sv_next_conn_id s"
  shows "costs (22 + 10 * length (rt_pushes task)) s s'"
proof -
  let ?c = "rt_conn_id task" and ?k = "22 + 10 * length (rt_pushes task)"
  let ?s = "on_context ?c (appendPendingSend (encode (rt_response task))) s"
  have append: "costs 0 s ?s" by (rule costs_on_context) (simp add: ctx_defs)
  have finish: "costs ?k s (fst (finish_response h ctl task d (s1, w)))" if "costs 10 s s1" for s1 d
  proof -
    have "sv_stopping s1 \<or> ?c < sv_next_conn_id s1" "bounded s1"
      using that assms(2,3) by (auto simp: costs_def)
    then show ?thesis
      using costs_trans [OF that costs_finish_response [of "(s1, w)" task h ctl d, simplified]] by (simp add: algebra_simps)
  qed
  have free: "costs ?k s s1" if "costs 0 s s1" for s1
    using costs_mono [OF that] by simp
  have "costs 10 s (snd (mark_own u ids ?c ?s))" for u ids
    by (rule costs_free [OF append costs_mark_own])
  then have marked: "costs ?k s (fst (finish_response h ctl task d (s2, w)))"
    if "mark_own u ids ?c ?s = (b, s2)" for u ids b s2 d
    using that finish [of s2] by (metis snd_conv)
  have "costs ?k s (fst (process_response h ctl locked task (s, w)))"
    using marked finish [OF costs_mono [OF append]] finish [OF costs_mono [OF costs_refl]]
      free [OF costs_refl] free [OF costs_closeClientFd] free [OF costs_free [OF append costs_closeClientFd]]
    by (auto simp: process_response_def Let_def split: prod.split)
  then show ?thesis by (simp add: assms(1))
qed

lemma costs_process_event:
  assumes "process_event h ev (s, w) = (s', w')" "bounded s"
  shows "costs 2 s s'"
proof (cases "pe_conn_id ev \<in> sv_connections s")
  case True
  let ?c = "pe_conn_id ev"
  obtain sub s1 where nxt: "(if pe_finish_current_request ev then finishCurrentRequestAndSubmitNext ?c s
      else submitNextQueuedRequestIfIdle ?c s) = (sub, s1)" by fastforce
  have "?c < sv_next_conn_id s" using True assms(2) by (auto simp: bounded_def)
  then have one: "costs 2 s s1"
    using costs_next_request [of s ?c] nxt by (auto split: if_splits dest: sym)
  have "costs 2 s s'" if "closeClientFd h fd (s1, w) = (s', w')" for fd
    using costs_trans [OF one closeClientFd_costs [OF that]] by simp
  with one show ?thesis
    using assms(1) nxt True
    by (auto simp: process_event_def getConnectionContextById_def split: prod.splits if_splits)
qed (use assms(1) costs_mono [OF costs_refl] in \<open>simp add: process_event_def getConnectionContextById_def\<close>)

lemma costs_process_remote:
  assumes "process_remote h ctl_ok task (s, w) = (s', w')"
  shows "costs 0 s s'"
proof -
  let ?s = "s\<lparr>sv_push_state := (sv_push_state s)(pt_ticket task := PushClaimed)\<rparr>"
  let ?t = "rpe_target_connection_id (pt_event task)"
  let ?s2 = "on_context ?t (appendPendingSend (encode (rpe_payload (pt_event task)))) ?s"
  have claim: "costs 0 s ?s" by (simp add: costs_def bounded_def demand_def load_def)
  have append: "costs 0 s ?s2"
    by (rule costs_free [OF claim costs_on_context]) (simp add: ctx_defs)
  have close: "costs 0 s (set_outcome (pt_ticket task) kRetry s3)" if "closeClientFd h fd (?s2, w) = (s3, w3)" for fd s3 w3
    by (rule costs_free [OF append costs_free [OF closeClientFd_costs [OF that] costs_set_outcome]])
  show ?thesis
    using assms costs_free [OF claim costs_set_outcome] costs_free [OF append costs_set_outcome] close
    by (auto simp: process_remote_def getConnectionContextById_def Let_def costs_refl
        split: if_split_asm prod.splits)
qed

section \<open>Every step has less to do\<close>

definition less_work :: "Server \<Rightarrow> Server \<Rightarrow> bool" where
  "less_work s' s \<longleftrightarrow> demand s' < demand s \<or> demand s' = demand s \<and> load s' < load s"

lemma less_workI: "demand s' \<le> demand s \<Longrightarrow> load s' < load s \<Longrightarrow> less_work s' s"
  by (auto simp: less_work_def)

lemma less_work_costs:
  assumes "costs k s1 s'" "bounded s1" "demand s1 \<le> demand s" "load s1 + k < load s"
  shows "less_work s' s"
  using assms by (auto simp: costs_def less_work_def)

lemma server_inv_bounded: "server_inv log s \<Longrightarrow> bounded s"
  by (auto simp: server_inv_def rest_inv_def index_inv_def tables_inv_def bounded_def)

lemma bounded_fields [simp]: "bounded (s\<lparr>sv_io := p\<rparr>) = bounded s" "bounded (s\<lparr>sv_running := r\<rparr>) = bounded s"
  by (simp_all add: bounded_def)

lemma token_bounded:
  assumes "server_inv log s" "0 < tokens c s"
  shows "sv_stopping s \<or> c < sv_next_conn_id s"
  using assms by (force simp: server_inv_def flow_inv_def not_less)

lemma costs_shutdown:
  assumes "shutdown h fds (s, w) = (s', w')" "sv_io s = IoWait" "sv_stopping s" "server_inv log s"
  shows "less_work s' s"
proof -
  have "costs 0 s (fst (fold (closeClientFd h) fds (s, w)))" for s w
  proof (induction fds arbitrary: s w)
    case (Cons fd fds)
    obtain s1 w1 where "closeClientFd h fd (s, w) = (s1, w1)" by fastforce
    with Cons [of s1 w1] show ?case
      using costs_free [OF closeClientFd_costs] by simp
  qed (simp add: costs_refl)
  then have "costs 0 s (fst (close_clients h fds (s, w)))"
    using assms(3) by (simp add: close_clients_def stop_server_def)
  moreover have "sv_io (fst (close_clients h fds (s, w))) = IoWait"
    using still_close_all [of s h fds w] assms(2-4)
    by (auto simp: close_clients_def stop_server_def still_def quiet_def busy_def same_queues_def server_inv_def
        rest_inv_def pool_inv_def)
  ultimately show ?thesis
    using assms(1,2) server_inv_bounded [OF assms(4)]
    by (auto simp: shutdown_def costs_def less_work_def demand_def load_def split: prod.splits)
qed

lemma run_task_effort:
  assumes "t \<in> set ts"
  shows "sum_list (map (\<lambda>t. Suc (effort t)) (remove1 t ts)) + Suc (effort t) = sum_list (map (\<lambda>t. Suc (effort t)) ts)"
  using sum_list_map_remove1 [OF assms, of "\<lambda>t. Suc (effort t)"] by simp

lemma less_work_run:
  assumes "run_task h locked task (s\<lparr>sv_running := remove1 task (sv_running s)\<rparr>, w) = (s', w')" "task \<in> set (sv_running s)"
    and "bounded s"
  shows "less_work s' s"
proof -
  note counts = run_task_effort [OF assms(2)] number_remove1 [OF assms(2), of is_request]
  show ?thesis
  proof (cases task)
    case (RequestTask c ip r)
    have "demand s' < demand s"
      using assms counts queued_shrinks [of "clearPendingRequests (sv_contexts s c)" "sv_contexts s" c "sv_next_conn_id s"]
      unfolding RequestTask
      by (auto simp: demand_def take_sequence_def enqueueResponseTask_def notifyWorkerEventFd_def ctx_defs
          split: prod.splits if_splits option.splits)
    then show ?thesis by (simp add: less_work_def)
  next
    case (MarkOther u ms c)
    have "queued ((sv_contexts s)(c := decrementPendingDeliveryMarks (sv_contexts s c))) (sv_next_conn_id s) \<le>
        queued (sv_contexts s) (sv_next_conn_id s)"
      by (rule queued_shrinks) (simp add: ctx_defs)
    with MarkOther show ?thesis
      using assms(1) counts
      by (intro less_workI) (auto simp: demand_def load_def getConnectionContextById_def Let_def split: if_splits)
  qed (use assms counts in \<open>auto simp: less_work_def demand_def load_def enqueuePostDeliveryEvent_def notifyWorkerEventFd_def\<close>)
qed

lemma own_step_less_work:
  assumes "own_step h (s, w, log) (s', w', log')" "server_inv log s"
  shows "less_work s' s"
proof -
  have b: "bounded s" by (rule server_inv_bounded [OF assms(2)])
  show ?thesis
    using assms(1)
  proof cases
    case (remote task tasks ctl_ok)
    show ?thesis
      by (rule less_work_costs [OF costs_process_remote [OF remote(3)]])
        (use b remote in \<open>simp_all add: demand_def load_def\<close>)
  next
    case (response task tasks ctl locked)
    have "0 < tokens (rt_conn_id task) s" by (simp add: tokens_def response(2))
    then have "sv_stopping s \<or> rt_conn_id task < sv_next_conn_id s" by (rule token_bounded [OF assms(2)])
    then show ?thesis
      by (intro less_work_costs [OF costs_process_response [OF response(3)]])
        (use b response in \<open>simp_all add: demand_def load_def answer_effort_def\<close>)
  next
    case (event ev evs)
    show ?thesis
      by (rule less_work_costs [OF costs_process_event [OF event(3)]])
        (use b event in \<open>simp_all add: demand_def load_def\<close>)
  next
    case (close_down fds)
    then show ?thesis by (intro costs_shutdown [OF _ _ _ assms(2)])
  next
    case take_task
    then show ?thesis
      by (intro less_workI) (auto simp: Taketask_def demand_def load_def split: list.splits)
  next
    case (run task locked)
    show ?thesis by (rule less_work_run [OF run(3,2) b])
  qed (intro less_workI; auto simp: demand_def load_def release_resources_def)+
qed

lemma less_work_wf: "wf {(s', s). less_work s' s}"
proof -
  have "{(s', s). less_work s' s} = measures [demand, load]"
    by (auto simp: less_work_def)
  then show ?thesis by simp
qed

section \<open>When nothing is left to do\<close>

lemma finite_descriptors: "server_inv log s \<Longrightarrow> finite (dom (sv_fd_to_context s))"
proof -
  assume "server_inv log s"
  then have t: "tables_inv s" by (simp add: server_inv_def rest_inv_def index_inv_def)
  then have "finite (sv_connections s)"
    by (auto simp: tables_inv_def intro: finite_subset [of _ "{..<sv_next_conn_id s}"])
  moreover have "dom (sv_fd_to_context s) \<subseteq> (\<lambda>c. ctx_fd (sv_contexts s c)) ` sv_connections s"
    using t by (auto simp: tables_inv_def)
  ultimately show ?thesis by (meson finite_imageI finite_subset)
qed

lemma at_rest:
  assumes "server_inv log s" "\<And>n. \<not> own_step h (s, w, log) n"
  shows "sv_pool_tasks s = [] \<and> sv_running s = [] \<and> (sv_io s = IoDone \<or> sv_io s = IoWait \<and> \<not> sv_stopping s \<and> \<not> sv_event_ready s)"
proof -
  have pool: "sv_pool_tasks s = []"
  proof (rule ccontr)
    assume "sv_pool_tasks s \<noteq> []"
    then obtain s' where "Taketask s = Some s'" by (cases "sv_pool_tasks s") (simp_all add: Taketask_def)
    from own_step.take_task [OF this, of h w log] assms(2) show False by blast
  qed
  have running: "sv_running s = []"
  proof (rule ccontr)
    assume "sv_running s \<noteq> []"
    then obtain task where task: "task \<in> set (sv_running s)" by (metis list.set_intros(1) neq_Nil_conv)
    obtain s' w' where "run_task h False task (s\<lparr>sv_running := remove1 task (sv_running s)\<rparr>, w) = (s', w')" by fastforce
    from own_step.run [OF task this, of log] assms(2) show False by blast
  qed
  have "sv_io s \<noteq> IoJoin"
    using own_step.join [OF _ pool running, of h w log] assms(2) by blast
  moreover have "sv_io s \<noteq> IoRemote ts" for ts
    using own_step.remote_done [of s h w log] own_step.remote [where h = h and s = s and w = w and log = log, OF _ prod.collapse [symmetric]] assms(2)
    by (cases ts) blast+
  moreover have "sv_io s \<noteq> IoTasks ts" for ts
    using own_step.response_done [of s h w log]
      own_step.response [where h = h and s = s and w = w and log = log, OF _ prod.collapse [symmetric]] assms(2)
    by (cases ts) blast+
  moreover have "sv_io s \<noteq> IoEvents es" for es
    using own_step.event_done [of s h w log] own_step.event [where h = h and s = s and w = w and log = log, OF _ prod.collapse [symmetric]] assms(2)
    by (cases es) blast+
  moreover have "\<not> sv_stopping s" if "sv_io s = IoWait"
  proof
    assume "sv_stopping s"
    from finite_list [OF finite_descriptors [OF assms(1)]]
    obtain fds where "set fds = dom (sv_fd_to_context s)" by blast
    moreover obtain s' w' where "shutdown h fds (s, w) = (s', w')" by fastforce
    ultimately show False
      using own_step.close_down [OF that \<open>sv_stopping s\<close>, of fds h w s' w' log] assms(2) by blast
  qed
  moreover have "\<not> sv_event_ready s" if "sv_io s = IoWait"
    using own_step.worker_event [OF that, of h w log] assms(2) by blast
  ultimately show ?thesis
    using pool running by (cases "sv_io s") auto
qed

text \<open>Every request of an open connection has been answered, and every push from another server has been
  claimed or cancelled.\<close>

definition all_answered :: "Server \<Rightarrow> bool" where
  "all_answered s \<longleftrightarrow>
     (\<forall>c\<in>sv_connections s. \<not> request_in_flight (sv_contexts s c) \<and> pending_requests (sv_contexts s c) = []) \<and>
     sv_completed_tasks s = [] \<and> (\<forall>t\<in>set (sv_remote_push_tasks s). sv_push_state s (pt_ticket t) \<noteq> PushPending)"

text \<open>Every connection that was ever opened is closed and was cleaned up exactly once.\<close>

definition all_cleaned :: "connectionId list \<Rightarrow> Server \<Rightarrow> bool" where
  "all_cleaned log s \<longleftrightarrow> sv_connections s = {} \<and> distinct log \<and> set log = {1..<sv_next_conn_id s}"

lemma at_rest_answered:
  assumes "server_inv log s" "sv_pool_tasks s = []" "sv_running s = []" "sv_io s = IoWait" "\<not> sv_stopping s"
    "\<not> sv_event_ready s"
  shows "all_answered s"
proof -
  have w: "\<not> waiting s" using assms by (simp add: server_inv_def rest_inv_def wake_inv_def)
  then have e: "sv_completed_tasks s = []" "sv_post_delivery_events s = []" "\<not> unclaimed s"
    using assms(4) by (simp_all add: waiting_def)
  then have "tokens c s = 0" "marks c s = 0" "resumes c s = 0" for c
    using assms by (simp_all add: tokens_def marks_def resumes_def)
  then show ?thesis
    using assms(1,5) e
    by (force simp: server_inv_def flow_inv_def flow_ok_def flow_of_def all_answered_def unclaimed_def list_ex_iff)
qed

lemma distinct_count: "(\<And>c. count_list xs c \<le> 1) \<Longrightarrow> distinct xs"
proof (induction xs)
  case (Cons x xs)
  have "count_list xs c \<le> 1" for c using Cons.prems [of c] by (simp split: if_splits)
  moreover have "count_list xs x = 0" using Cons.prems [of x] by simp
  ultimately show ?case using Cons.IH by (simp add: count_list_0_iff)
qed simp

lemma at_rest_cleaned:
  assumes "server_inv log s" "sv_pool_tasks s = []" "sv_running s = []" "sv_io s = IoDone"
  shows "all_cleaned log s"
proof -
  have none: "sv_connections s = {}" "clean_inv log s"
    using assms by (auto simp: server_inv_def rest_inv_def pool_inv_def)
  then have count: "count_list log c = of_bool (0 < c \<and> c < sv_next_conn_id s)" for c
    using assms(2,3) by (simp add: clean_inv_def cleaning_def)
  have "distinct log"
    by (rule distinct_count) (simp add: count)
  moreover have "c \<in> set log \<longleftrightarrow> c \<in> {1..<sv_next_conn_id s}" for c
    using count [of c] count_list_0_iff [of log c] by (auto split: if_splits)
  ultimately show ?thesis
    using none by (auto simp: all_cleaned_def)
qed

context message_handler
begin

lemma own_steps_end:
  assumes "server_reach h opts w0 (f 0)" "\<And>i. own_step h (f i) (f (Suc i))"
  shows False
proof -
  have reach: "server_reach h opts w0 (f i)" for i
  proof (induction i)
    case (Suc i)
    from server_reach.step [OF Suc own_step_server_step [OF assms(2)]] show ?case .
  qed (rule assms(1))
  have "less_work (fst (f (Suc i))) (fst (f i))" for i
  proof -
    obtain s w log s' w' log' where "f i = (s, w, log)" "f (Suc i) = (s', w', log')" by (metis surj_pair)
    then show ?thesis
      using own_step_less_work [of h s w log s' w' log'] server_inv_reach [of opts w0 s w log] reach [of i] assms(2) [of i]
      by simp
  qed
  then show False
    using less_work_wf unfolding wf_iff_no_infinite_down_chain by (auto dest: spec [of _ "\<lambda>i. fst (f i)"])
qed

lemma rest_answers:
  assumes "server_reach h opts w0 (s, w, log)" "\<And>n. \<not> own_step h (s, w, log) n"
  shows "if sv_stopping s then all_cleaned log s else all_answered s"
proof -
  have inv: "server_inv log s" by (rule server_inv_reach [OF assms(1)])
  have "sv_stopping s" if "sv_io s = IoDone"
    using inv that by (simp add: server_inv_def rest_inv_def pool_inv_def)
  then show ?thesis
    using at_rest [OF inv assms(2)] at_rest_answered [OF inv] at_rest_cleaned [OF inv] by auto
qed

end

end
