(* ===== verification/SampleJson.thy ===== *)
theory SampleJson
  imports JsonCodec
begin

text \<open>
  An instance of the JSON library for concrete runs: values with ordered members, a printer, and a
  parser that knows the texts of a table.
\<close>

datatype jvalue = JNull | JBool bool | JInt int | JText string | JArray "jvalue list" | JObject "(string \<times> jvalue) list"

fun separated :: "string list \<Rightarrow> string" where
  "separated [] = []"
| "separated [s] = s"
| "separated (s # ss) = s @ '','' @ separated ss"

definition in_quotes :: "string \<Rightarrow> string" where
  "in_quotes s = CHR 0x22 # s @ [CHR 0x22]"

fun jprint :: "jvalue \<Rightarrow> string" where
  "jprint JNull = ''null''"
| "jprint (JBool b) = (if b then ''true'' else ''false'')"
| "jprint (JInt i) = int_to_string i"
| "jprint (JText s) = in_quotes s"
| "jprint (JArray vs) = ''['' @ separated (map jprint vs) @ '']''"
| "jprint (JObject ms) = ''{'' @ separated (map (\<lambda>(k, v). in_quotes k @ '':'' @ jprint v) ms) @ ''}''"

fun jmember :: "jvalue \<Rightarrow> string \<Rightarrow> jvalue option" where
  "jmember (JObject ms) k = map_of ms k"
| "jmember _ k = None"

fun jset :: "jvalue \<Rightarrow> string \<Rightarrow> jvalue \<Rightarrow> jvalue" where
  "jset (JObject ms) k v = JObject (filter (\<lambda>m. fst m \<noteq> k) ms @ [(k, v)])"
| "jset _ k v = JObject [(k, v)]"

fun jtext :: "jvalue \<Rightarrow> string option" where
  "jtext (JText s) = Some s"
| "jtext _ = None"

fun jint :: "jvalue \<Rightarrow> int option" where
  "jint (JInt i) = Some i"
| "jint _ = None"

fun jarray :: "jvalue \<Rightarrow> jvalue list option" where
  "jarray (JArray vs) = Some vs"
| "jarray _ = None"

fun jobject :: "jvalue \<Rightarrow> bool" where
  "jobject (JObject ms) = True"
| "jobject _ = False"

definition sample_json :: "(string \<rightharpoonup> jvalue) \<Rightarrow> jvalue Json" where
  "sample_json texts =
     \<lparr>js_parse = (\<lambda>s. case texts s of None \<Rightarrow> Inl ''syntax error'' | Some v \<Rightarrow> Inr v),
      js_dump = (\<lambda>v. Some (jprint v)), js_at = jmember, js_string = jtext, js_integer = jint, js_array = jarray,
      js_is_object = jobject, js_is_null = (\<lambda>v. v = JNull), js_null = JNull, js_object = JObject [],
      js_of_string = JText, js_of_integer = JInt, js_of_bool = JBool, js_of_array = JArray, js_set = jset\<rparr>"

lemma jprint_text: "jprint v \<noteq> []"
  by (cases v) (simp_all add: in_quotes_def)

end
