(* ===== verification/SampleRun.thy ===== *)
theory SampleRun
  imports System Progress Samples SampleJson
begin

text \<open>
  A concrete run of the whole server, from the start of the event loop: a client connects and sends two
  heartbeats in one chunk; the first goes to a worker while the second waits, and both are answered.
\<close>

section \<open>Requests and answers\<close>

definition beat_value :: jvalue where
  "beat_value = JObject [(''msg_type'', JText ''heartbeat''), (''seq'', JInt 7), (''data'', JObject [])]"

definition beat :: string where
  "beat = jprint beat_value"

definition beat_json :: "jvalue Json" where
  "beat_json = sample_json [beat \<mapsto> beat_value]"

definition beat_inputs :: HandlerInputs where
  "beat_inputs = \<lparr>hi_user = user_inputs, hi_send = sample_inputs, hi_group_random = [], hi_group_send = group_inputs, hi_now = 100\<rparr>"

definition beat_world :: "World hworld" where
  "beat_world = (sample_world, \<lambda>_. beat_inputs)"

definition beat_handler :: "World hworld IMessageHandler" where
  "beat_handler = message_handler_ops (chat_handler default_RedisConfig sample_libcrypt (\<lambda>_. 0)) beat_json"

definition beat_answer :: string where
  "beat_answer =
     jprint (JObject [(''msg_type'', JText ''heartbeat_resp''), (''seq'', JInt 7), (''code'', JInt 0),
       (''message'', JText ''Heartbeat received''), (''data'', JObject [(''server_time'', JInt 100)])])"

lemma beat_text: "newline \<notin> set beat" "length beat \<le> kMaxPacketSize" "beat \<noteq> []" "strip_cr beat = beat"
proof -
  have "int_to_string 7 = ''7''" by code_simp
  then show "newline \<notin> set beat" "length beat \<le> kMaxPacketSize" "beat \<noteq> []" "strip_cr beat = beat"
    by (simp_all add: beat_def beat_value_def in_quotes_def newline_def kMaxPacketSize_def strip_cr_def carriage_return_def)
qed

lemma beat_dump_text: "dump_text beat_json"
  by (simp add: dump_text_def beat_json_def sample_json_def jprint_text)

lemma beat_handled:
  assumes "rq_conn_id ctx \<noteq> 10"
  shows "run_state (mh_handle beat_handler beat ctx) beat_world =
    (Some (HandleResult_default\<lparr>hr_response := beat_answer\<rparr>), beat_world)"
proof -
  have "decodeMessage beat_json beat =
      Inr \<lparr>msg_type = ''heartbeat'', msg_seq = 7, msg_token = [], msg_data = JObject []\<rparr>"
    by (simp add: decodeMessage_def beat_json_def sample_json_def beat_value_def string_field_def integer_field_def
        get_uint64_def)
  moreover have "GetSession (rq_conn_id ctx) (w_sessions sample_world) = None"
    using assms by (simp add: sample_session_bound)
  then have "run_state (refreshPresence (user_service default_RedisConfig sample_libcrypt) (rq_conn_id ctx)) sample_world =
      ((), sample_world)"
    by (simp add: refreshPresence_def user_service_def session_manager_def plain_services)
  moreover have "respond beat_json (fillHeartbeatResponse beat_json 100
      (Response_for beat_json ''heartbeat_resp'' \<lparr>msg_type = ''heartbeat'', msg_seq = 7, msg_token = [], msg_data = JObject []\<rparr>
         OK ''Heartbeat received'')) HandleResult_default = Some (HandleResult_default\<lparr>hr_response := beat_answer\<rparr>)"
    by (simp add: respond_def fillHeartbeatResponse_def fill_def put_all_def Response_for_def encodeResponse_def
        response_value_def beat_json_def sample_json_def beat_answer_def)
  ultimately show ?thesis
    by (simp add: beat_handler_def message_handler_ops_def with_inputs_def beat_world_def handle_def IsProtectedMessage_def
        chat_handler_def dispatch_def handleHeartbeat_def resp_type_def beat_inputs_def)
qed

section \<open>The states of the run\<close>

text \<open>What changes during the run: the context of connection 1, the tasks of the pool, the running ones,
  the results, the position of the I/O thread, the event descriptor and the next sequence number.\<close>

definition beat_state ::
  "ConnectionContext \<Rightarrow> worker_task list \<Rightarrow> worker_task list \<Rightarrow> ResponseTask list \<Rightarrow> io_position \<Rightarrow> bool \<Rightarrow> nat \<Rightarrow>
   World hworld run" where
  "beat_state c tasks running results io ready seq =
     (\<lparr>sv_stopping = False, sv_worker_event_fd = True, sv_event_ready = ready, sv_next_conn_id = 2,
       sv_next_response_task_id = seq,
       sv_contexts = (\<lambda>cid. ConnectionContext_new tcp_moved_from cid 0)(1 := c), sv_connections = {1},
       sv_fd_to_context = [5 \<mapsto> 1], sv_authenticated = Map.empty, sv_timeout_scan_queue = [1],
       sv_completed_tasks = results, sv_post_delivery_events = [], sv_remote_push_tasks = [],
       sv_push_state = (\<lambda>_. PushPending), sv_push_outcome = Map.empty, sv_next_ticket = 0,
       sv_pool_stopped = False, sv_pool_tasks = tasks, sv_running = running, sv_io = io\<rparr>, beat_world, [])"

definition fresh_context :: ConnectionContext where
  "fresh_context = ConnectionContext_new \<lparr>conn_fd = 5, peer_ip = ''10.0.0.1'', peer_port = 4000\<rparr> 1 0"

text \<open>The context after the chunk has been read, with the given requests in flight and waiting and
  the given bytes to be sent.\<close>

definition beat_context :: "bool \<Rightarrow> string list \<Rightarrow> string \<Rightarrow> ConnectionContext" where
  "beat_context in_flight queue output =
     (touchOnPacket 1 (touchOnRecv 1 (length (encode beat @ encode beat)) fresh_context))
       \<lparr>request_in_flight := in_flight, pending_requests := queue, pending_send := output\<rparr>"

abbreviation beat_task :: worker_task where
  "beat_task \<equiv> RequestTask 1 ''10.0.0.1'' beat"

abbreviation beat_result :: "nat \<Rightarrow> ResponseTask" where
  "beat_result \<equiv> response_task 1 (HandleResult_default\<lparr>hr_response := beat_answer\<rparr>)"

lemma beat_accept: "server_step beat_handler opts (server_init, beat_world, []) (beat_state fresh_context [] [] [] IoWait False 1)"
  using server_step.accept [of server_init 5 beat_handler opts beat_world "[]" 0 "''10.0.0.1''" 4000 True]
  by (simp add: beat_state_def server_init_def registerConnection_def fresh_context_def del: One_nat_def)

lemma beat_received:
  "server_step beat_handler opts (beat_state fresh_context [] [] [] IoWait False 1)
     (beat_state (beat_context True [beat] []) [beat_task] [] [] IoWait False 1)"
proof -
  have "feedPacketData 1 (touchOnRecv 1 n fresh_context) (encode beat @ encode beat) [] =
      (True, [beat, beat], touchOnPacket 1 (touchOnRecv 1 n fresh_context))" for n
    using frames_encoded [of "[beat, beat]"] beat_text
    by (simp add: feedPacketData_def feed_frames ctx_defs fresh_context_def ConnectionContext_new_def codec_init_def)
  then show ?thesis
    unfolding beat_state_def
    by (intro server_step.client [where now = 1 and ctl_ok = True and fd = 5 and sent = "[]"
          and ev = "\<lparr>ev_err = False, ev_in = True, ev_out = False, ev_hup = False\<rparr>"
          and received = "[RecvBytes (encode beat @ encode beat), RecvAgain]"])
      (simp_all add: client_event_def onReadable_def getConnectionContextByFd_def on_context_def beat_text submitRequestTask_def
        submit_def beat_context_def startRequestOrQueue_def fresh_context_def ConnectionContext_new_def ctx_defs Let_def)
qed


text \<open>From the moment a worker takes the request to the next wait of the I/O thread.\<close>

lemma beat_taken: "own_step beat_handler (beat_state c [beat_task] [] [] IoWait False k) (beat_state c [] [beat_task] [] IoWait False k)"
  unfolding beat_state_def by (rule own_step.take_task) (simp add: Taketask_def)

lemma beat_run:
  assumes "k + 1 < 2 ^ 64"
  shows "own_step beat_handler (beat_state c [] [beat_task] [] IoWait False k)
     (beat_state c [] [] [beat_result k] IoWait True (k + 1))"
  using own_step.run [of beat_task "fst (beat_state c [] [beat_task] [] IoWait False k)" beat_handler True beat_world _ _ "[]"] assms
  by (simp add: beat_state_def beat_handled take_sequence_def enqueueResponseTask_def notifyWorkerEventFd_def)

lemma beat_fetched:
  "own_step beat_handler (beat_state c [] [] rs IoWait True k) (beat_state c [] [] rs (IoRemote []) False k)"
  "own_step beat_handler (beat_state c [] [] rs (IoRemote []) False k) (beat_state c [] [] [] (IoTasks rs) False k)"
  using own_step.worker_event [of "fst (beat_state c [] [] rs IoWait True k)" beat_handler beat_world "[]"]
    own_step.remote_done [of "fst (beat_state c [] [] rs (IoRemote []) False k)" beat_handler beat_world "[]"]
  by (simp_all add: beat_state_def)

lemma beat_answered:
  "own_step beat_handler (beat_state (beat_context True queue out) [] [] [] (IoTasks [beat_result j]) False k)
     (beat_state (beat_context (queue \<noteq> []) (tl queue) (out @ encode beat_answer))
        (case queue of [] \<Rightarrow> [] | r # _ \<Rightarrow> [RequestTask 1 ''10.0.0.1'' r]) [] [] (IoTasks []) False k)"
proof -
  have "beat_answer \<noteq> []" by (simp add: beat_answer_def)
  then show ?thesis
    unfolding beat_state_def
    by (intro own_step.response [where ctl = "\<lambda>_. True" and locked = True])
      (auto simp: process_response_def finish_response_def response_task_def HandleResult_default_def set_writable_def
        apply_session_action_def finishCurrentRequestAndSubmitNext_def start_next_def submitRequestTask_def submit_def
        on_context_def beat_context_def fresh_context_def ConnectionContext_new_def ctx_defs Let_def split: list.split)
qed

lemma beat_finished:
  "own_step beat_handler (beat_state c ts [] [] (IoTasks []) False k) (beat_state c ts [] [] (IoEvents []) False k)"
  "own_step beat_handler (beat_state c ts [] [] (IoEvents []) False k) (beat_state c ts [] [] IoWait False k)"
  using own_step.response_done [of "fst (beat_state c ts [] [] (IoTasks []) False k)" beat_handler beat_world "[]"]
    own_step.event_done [of "fst (beat_state c ts [] [] (IoEvents []) False k)" beat_handler beat_world "[]"]
  by (simp_all add: beat_state_def)

lemma beat_round:
  assumes "k + 1 < 2 ^ 64"
  shows "(own_step beat_handler)\<^sup>*\<^sup>* (beat_state (beat_context True queue out) [beat_task] [] [] IoWait False k)
     (beat_state (beat_context (queue \<noteq> []) (tl queue) (out @ encode beat_answer))
        (case queue of [] \<Rightarrow> [] | r # _ \<Rightarrow> [RequestTask 1 ''10.0.0.1'' r]) [] [] IoWait False (k + 1))"
  using beat_taken beat_run [OF assms] beat_fetched beat_answered beat_finished
  by (meson rtranclp.rtrancl_refl rtranclp.rtrancl_into_rtrancl)

lemma reach_own_steps: "(own_step h)\<^sup>*\<^sup>* n n' \<Longrightarrow> server_reach h opts w0 n \<Longrightarrow> server_reach h opts w0 n'"
  by (induction rule: rtranclp_induct) (auto intro: server_reach.step own_step_server_step)

text \<open>The state with one request in flight and one waiting, and the state at rest.\<close>

definition beat_waiting :: "World hworld run" where
  "beat_waiting = beat_state (beat_context True [beat] []) [beat_task] [] [] IoWait False 1"

definition beat_rest :: "World hworld run" where
  "beat_rest = beat_state (beat_context False [] (encode beat_answer @ encode beat_answer)) [] [] [] IoWait False 3"

lemma beat_waiting_reach: "server_reach beat_handler opts beat_world beat_waiting"
  unfolding beat_waiting_def
  by (rule server_reach.step [OF server_reach.step [OF server_reach.init beat_accept] beat_received])

lemma beat_waiting_rest: "(own_step beat_handler)\<^sup>*\<^sup>* beat_waiting beat_rest"
proof -
  have "(own_step beat_handler)\<^sup>*\<^sup>* beat_waiting (beat_state (beat_context True [] (encode beat_answer)) [beat_task] [] [] IoWait False 2)"
    using beat_round [of 1 "[beat]" "[]"] by (simp add: beat_waiting_def del: One_nat_def)
  moreover have "(own_step beat_handler)\<^sup>*\<^sup>* \<dots> beat_rest"
    using beat_round [of 2 "[]" "encode beat_answer"] by (simp add: beat_rest_def)
  ultimately show ?thesis by (rule rtranclp_trans)
qed

lemma beat_rest_reach: "server_reach beat_handler opts beat_world beat_rest"
  by (rule reach_own_steps [OF beat_waiting_rest beat_waiting_reach])

lemma beat_rest_quiet: "\<not> own_step beat_handler beat_rest n"
  by (auto simp: beat_rest_def beat_state_def Taketask_def elim!: own_step.cases)

end
