(* ===== verification/PushOutcomes.thy ===== *)
theory PushOutcomes
  imports ServerRuns
begin

text \<open>
  Pushes from other servers are decided once: from the moment a push is claimed by the I/O thread or
  cancelled, neither its state nor its outcome changes again, in any interleaving.
\<close>

definition decided_kept :: "Server \<Rightarrow> Server \<Rightarrow> bool" where
  "decided_kept s s' \<longleftrightarrow>
     (\<forall>t. sv_push_state s t \<noteq> PushPending \<longrightarrow>
        sv_push_state s' t = sv_push_state s t \<and> sv_push_outcome s' t = sv_push_outcome s t)"

lemma decided_refl [simp]: "decided_kept s s"
  by (simp add: decided_kept_def)

lemma decided_trans: "decided_kept s t \<Longrightarrow> decided_kept t u \<Longrightarrow> decided_kept s u"
  by (simp add: decided_kept_def)

lemma decided_same:
  "sv_push_state s' = sv_push_state s \<Longrightarrow> sv_push_outcome s' = sv_push_outcome s \<Longrightarrow> decided_kept s s'"
  by (simp add: decided_kept_def)

lemma decided_busy: "busy s s' \<Longrightarrow> decided_kept s s'"
  by (rule decided_same) (simp_all add: busy_def same_queues_def)

lemma decided_works:
  "works token event none none s s' \<Longrightarrow> sane token event s \<Longrightarrow> decided_kept s s'"
  by (simp add: works_def decided_busy)

lemma sane_io:
  "server_inv log s \<Longrightarrow> sv_io s = IoWait \<Longrightarrow> sane none none s"
  "server_inv log s \<Longrightarrow> sv_io s = IoTasks (r # rs) \<Longrightarrow> sane (one (rt_conn_id r)) none (s\<lparr>sv_io := IoTasks rs\<rparr>)"
  "server_inv log s \<Longrightarrow> sv_io s = IoEvents (e # es) \<Longrightarrow>
     sane (if pe_finish_current_request e then one (pe_conn_id e) else none)
       (if pe_finish_current_request e then none else one (pe_conn_id e)) (s\<lparr>sv_io := IoEvents es\<rparr>)"
  using rest_inv_pop flow_inv_pop running_io [of log s] by (simp_all add: server_inv_def sane_def rest_inv_def)

lemma decided_cancel: "decided_kept s (cancel_push task s)"
  by (simp add: cancel_push_def set_outcome_def decided_kept_def)

lemma decided_cancel_all: "decided_kept s (fold cancel_push tasks s)"
  by (induction tasks arbitrary: s) (auto intro: decided_trans [OF decided_cancel])

lemma decided_stop: "decided_kept s (stop_server s)"
proof -
  have "decided_kept s (s\<lparr>sv_stopping := True, sv_remote_push_tasks := []\<rparr>)" by (rule decided_same) simp_all
  from decided_trans [OF this decided_cancel_all] show ?thesis
    by (auto simp: stop_server_def notifyWorkerEventFd_def Let_def decided_kept_def)
qed

lemma decided_remote:
  assumes "server_inv log s" "sv_io s = IoRemote (task # tasks)"
    and "process_remote h ctl_ok task (s\<lparr>sv_io := IoRemote tasks\<rparr>, w) = (s', w')"
  shows "decided_kept s s'"
proof -
  let ?t = "pt_ticket task"
  from process_remote_cases [OF assms(3)] consider "s' = s\<lparr>sv_io := IoRemote tasks\<rparr>"
    | s2 outcome where "sv_push_state s ?t = PushPending" "s' = set_outcome ?t outcome s2"
        "still (s\<lparr>sv_io := IoRemote tasks, sv_push_state := (sv_push_state s)(?t := PushClaimed)\<rparr>) s2"
    by auto
  then show ?thesis
  proof cases
    case 1
    then show ?thesis by (simp add: decided_same)
  next
    case 2
    have "index_inv (s\<lparr>sv_io := IoRemote tasks\<rparr>)" "\<not> sv_pool_stopped s"
      using rest_inv_pop(1) [OF _ assms(2)] running_io [of log s] assms(1,2) by (auto simp: server_inv_def rest_inv_def)
    then have "busy (s\<lparr>sv_io := IoRemote tasks, sv_push_state := (sv_push_state s)(?t := PushClaimed)\<rparr>) s2"
      using 2(3) by (simp add: still_def quiet_def)
    then show ?thesis
      using 2(1,2) by (simp add: busy_def same_queues_def decided_kept_def set_outcome_def)
  qed
qed

lemma decided_run: "run_task h locked task (s, w) = (s', w') \<Longrightarrow> decided_kept s s'"
  by (cases task)
    (auto simp: take_sequence_def enqueueResponseTask_def notifyWorkerEventFd_def enqueuePostDeliveryEvent_def
      getConnectionContextById_def Let_def decided_kept_def split: prod.splits option.splits if_splits)

lemma decided_deliver:
  assumes "server_inv log s" "deliverRemotePush stopping1 stopping2 written push s = (r, s')"
  shows "decided_kept s s'"
proof -
  have "sv_push_state s (sv_next_ticket s) = PushPending"
    using assms(1) by (simp add: server_inv_def rest_inv_def push_inv_def)
  then show ?thesis
    using assms(2) by (auto simp: deliverRemotePush_def with_push_def notifyWorkerEventFd_def decided_kept_def split: if_splits)
qed

lemma decided_shutdown:
  assumes "server_inv log s" "sv_io s = IoWait" "shutdown h fds (s, w) = (s', w')"
  shows "decided_kept s s'"
proof -
  obtain s1 w1 where c: "fold (closeClientFd h) fds (stop_server s, w) = (s1, w1)" by fastforce
  have "sane none none (stop_server s)"
    using sane_io(1) [OF server_inv_stop [OF assms(1)]] assms(2)
    by (simp add: stop_server_def Let_def notifyWorkerEventFd_def)
  from decided_works [OF works_still [OF still_close_all [of "stop_server s" h fds w]] this]
  have "decided_kept (stop_server s) s1" by (simp add: c)
  from decided_trans [OF decided_stop this] show ?thesis
    using assms(3) by (auto simp: shutdown_def close_clients_def c decided_kept_def)
qed

lemma decided_step:
  assumes "server_step h opts (s, w, log) (s', w', log')" "server_inv log s"
  shows "decided_kept s s'"
  using assms(1)
proof (cases rule: server_step.cases)
  case (accept fd now ip port set_up)
  then show ?thesis by (cases set_up) (simp_all add: registerConnection_def Let_def decided_same)
next
  case (client now ctl_ok fd ev received sent)
  then show ?thesis
    using decided_works [OF works_client_event [of s h now ctl_ok fd ev received sent w]] sane_io(1) [OF assms(2)] by simp
next
  case (timer now)
  then show ?thesis
    using decided_works [OF works_still [OF still_scanConnectionTimeouts [of s h opts now w]]] sane_io(1) [OF assms(2)] by simp
next
  case (remote task tasks ctl_ok)
  show ?thesis by (rule decided_remote [OF assms(2) remote(2,3)])
next
  case (response task tasks ctl locked)
  have "wf_task task" using assms(2) response by (simp add: server_inv_def rest_inv_def tasks_inv_def)
  from decided_works [OF works_process_response [OF this] sane_io(2) [OF assms(2) response(2)], of h ctl locked w]
  show ?thesis using response by (simp add: decided_kept_def)
next
  case (event e es)
  from decided_works [OF works_process_event sane_io(3) [OF assms(2) event(2)], of h w]
  show ?thesis using event by (simp add: decided_kept_def)
next
  case (close_down fds)
  show ?thesis by (rule decided_shutdown [OF assms(2) close_down(2,4)])
next
  case (run task locked)
  then show ?thesis using decided_run [of h locked task "s\<lparr>sv_running := remove1 task (sv_running s)\<rparr>" w s' w'] by (simp add: decided_kept_def)
next
  case (deliver stopping1 stopping2 written push r)
  show ?thesis by (rule decided_deliver [OF assms(2) deliver(3)])
next
  case (give_up ticket r)
  then show ?thesis by (auto simp: push_timeout_def decided_kept_def split: if_splits)
next
  case take_task
  then show ?thesis by (auto simp: Taketask_def decided_kept_def split: list.splits)
next
  case accept_failed
  then show ?thesis by (simp add: decided_stop)
next
  case stop
  then show ?thesis by (simp add: decided_stop)
qed (simp_all add: decided_kept_def release_resources_def)

context message_handler
begin

lemma decided_reach:
  assumes "server_reach h opts w0 n" "(server_step h opts)\<^sup>*\<^sup>* n n'"
  shows "server_reach h opts w0 n' \<and> decided_kept (fst n) (fst n')"
  using assms(2)
proof (induction rule: rtranclp_induct)
  case base
  show ?case using assms(1) by simp
next
  case (step y z)
  obtain s w log s' w' log' where yz: "y = (s, w, log)" "z = (s', w', log')" by (metis surj_pair)
  then have "decided_kept s s'"
    using decided_step [of h opts s w log s' w' log'] server_inv_reach [of opts w0 s w log] step by simp
  then show ?case
    using decided_trans [of "fst n" s s'] server_reach.step [of h opts w0 y z] step yz by simp
qed

end

end
