(* ===== verification/ServerProperties.thy ===== *)
theory ServerProperties
  imports SampleRun PushOutcomes
begin

text \<open>
  The properties of the whole server: what every interleaving of clients, workers, clocks and other
  servers keeps of the stored data, of the requests in progress and of remote pushes; that the work
  ends; and who gets a session.
\<close>

section \<open>Stored data\<close>




section \<open>Requests in progress\<close>

text \<open>C11. Requests of a connection are handled one at a time and none gets lost. While the server runs, an
  open connection has a request in flight exactly when one token for it is somewhere between the worker
  pool, the workers, the results and the I/O thread, and never more than one; its fence counts the
  delivery marks that are still to be done; and a request that waits although none is in flight has
  such a mark, or the event that will start it, in front of it.\<close>

theorem requests_one_token:
  assumes "dump_text J" "server_reach (message_handler_ops self J) opts w0 (s, w, log)"
    and "\<not> sv_stopping s" "c \<in> sv_connections s"
  shows "tokens c s = of_bool (request_in_flight (sv_contexts s c)) \<and>
    pending_delivery_marks (sv_contexts s c) = int (marks c s) \<and>
    (\<not> request_in_flight (sv_contexts s c) \<and> pending_requests (sv_contexts s c) \<noteq> [] \<longrightarrow>
       0 < marks c s \<or> 0 < resumes c s)"
  using chat_server_inv [OF assms(1,2)] assms(3,4)
  by (auto simp: server_inv_def flow_inv_def flow_ok_def flow_of_def)

theorem requests_one_token_witness:
  "tokens 1 (fst beat_waiting) = 1 \<and> pending_requests (sv_contexts (fst beat_waiting) 1) = [beat]"
  using requests_one_token [OF beat_dump_text beat_waiting_reach [unfolded beat_handler_def beat_waiting_def beat_state_def], of 1]
  by (simp add: beat_waiting_def beat_state_def beat_context_def)

text \<open>C9. The work the server does on its own always ends: from no reachable state is there an infinite
  sequence of steps of the workers and of the I/O thread without new input from clients, the clock or
  other servers.\<close>

theorem server_work_ends:
  assumes "dump_text J" "server_reach (message_handler_ops self J) opts w0 n"
  shows "\<not> (\<exists>f. f 0 = n \<and> (\<forall>i. own_step (message_handler_ops self J) (f i) (f (Suc i))))"
  using message_handler.own_steps_end [OF chat_server.message_handler_axioms [of self J], of opts w0] assms by (auto simp: with_text_same)

theorem server_work_ends_witness:
  "\<not> (\<exists>f. f 0 = beat_waiting \<and> (\<forall>i. own_step beat_handler (f i) (f (Suc i))))"
  using server_work_ends [OF beat_dump_text beat_waiting_reach [unfolded beat_handler_def]]
  by (simp add: beat_handler_def)



text \<open>C32. Every request text gets an answer in the protocol: unless the library refuses to serialize a
  response, which closes the connection, the result is an encoded response with the sequence number
  of the request and its type with the suffix \<^verbatim>\<open>_resp\<close>, also when the text is no valid request at all;
  and it asks for no delivery mark.\<close>

theorem every_request_answered:
  assumes "run_state (handle self J inputs raw context) w = (r, w')"
  shows "answered J (case decodeMessage J raw of Inl (_, msg) \<Rightarrow> msg | Inr msg \<Rightarrow> msg) r"
  by (rule wpD [OF handle_answers assms])

theorem every_request_answered_witness:
  "answered beat_json (case decodeMessage beat_json beat of Inl (_, msg) \<Rightarrow> msg | Inr msg \<Rightarrow> msg)
     (Some (HandleResult_default\<lparr>hr_response := beat_answer\<rparr>))"
proof -
  obtain w' where "run_state (handle (chat_handler default_RedisConfig sample_libcrypt (\<lambda>_. 0)) beat_json beat_inputs beat
      \<lparr>rq_conn_id = 1, rq_peer_ip = []\<rparr>) sample_world = (Some (HandleResult_default\<lparr>hr_response := beat_answer\<rparr>), w')"
    using beat_handled [of "\<lparr>rq_conn_id = 1, rq_peer_ip = []\<rparr>"]
    by (auto simp: beat_handler_def message_handler_ops_def with_inputs_def beat_world_def split: prod.splits)
  then show ?thesis by (rule every_request_answered)
qed


section \<open>Pushes from other servers\<close>

text \<open>C31. A push from another server is decided once. Once it is claimed by the I/O thread or cancelled, its
  state and the outcome reported to the other server never change again, whatever happens later, and
  a claimed push always has an outcome; so a push that was cancelled, and may be retried elsewhere, is
  never taken up by this server afterwards.\<close>

theorem remote_push_decided_once:
  assumes "dump_text J" "server_reach (message_handler_ops self J) opts w0 (s, w, log)"
    and "sv_push_state s t \<noteq> PushPending"
    and "(server_step (message_handler_ops self J) opts)\<^sup>*\<^sup>* (s, w, log) (s', w', log')"
  shows "sv_push_state s' t = sv_push_state s t \<and> sv_push_outcome s' t = sv_push_outcome s t \<and>
    (sv_push_state s t = PushClaimed \<longrightarrow> sv_push_outcome s t \<noteq> None)"
  using message_handler.decided_reach [OF chat_server.message_handler_axioms [of self J], of opts w0 "(s, w, log)"
      "(s', w', log')"] chat_server_inv [OF assms(1,2)] assms
  by (auto simp: with_text_same decided_kept_def server_inv_def rest_inv_def push_inv_def)

definition lost_push :: Server where
  "lost_push = snd (deliverRemotePush False False False sample_event server_init)"

theorem remote_push_decided_once_witness:
  "sv_push_state (stop_server lost_push) 0 = PushCancelled"
proof -
  have "server_step beat_handler opts (server_init, beat_world, []) (lost_push, beat_world, [])" for opts
    unfolding lost_push_def by (rule server_step.deliver [OF prod.collapse [symmetric]]) simp_all
  then have "server_reach beat_handler opts beat_world (lost_push, beat_world, [])" for opts
    by (rule server_reach.step [OF server_reach.init])
  moreover have "sv_push_state lost_push 0 = PushCancelled"
    by (simp add: lost_push_def deliverRemotePush_def sample_event_def with_push_def server_init_def)
  ultimately show ?thesis
    using remote_push_decided_once [OF beat_dump_text, of _ _ beat_world lost_push beat_world "[]" 0 "stop_server lost_push" beat_world "[]",
        folded beat_handler_def] server_step.stop
    by (metis beat_handler_def push_state.distinct(3) r_into_rtranclp)
qed


section \<open>Who gets a session\<close>

text \<open>The credentials that come with a request: the password of a stored user, or a token for which the
  session store has a session.\<close>

definition password_shown :: "libcrypt \<Rightarrow> 'j Json \<Rightarrow> 'j Message \<Rightarrow> World \<Rightarrow> ConnectionSession \<Rightarrow> bool" where
  "password_shown lib J msg w session \<longleftrightarrow> msg_type msg = ''login'' \<and>
     (\<exists>req wl u tok. parseLoginRequest J msg = Inr req \<and> w_later w wl \<and> u \<in> set (w_users wl) \<and>
        w_key w (u_username u) = w_key w (lr_username req) \<and> Verify lib (lr_password req) (u_password_hash u) \<and>
        session = login_session u tok)"

definition token_shown :: "RedisConfig \<Rightarrow> 'j Message \<Rightarrow> World \<Rightarrow> ConnectionSession \<Rightarrow> bool" where
  "token_shown cfg msg w session \<longleftrightarrow> msg_type msg = ''resume_session'' \<and> ok (Token (msg_token msg)) \<and>
     (\<exists>stored. fst (run_state (GetToken (Some redis_client) cfg (msg_token msg)) w) = Some stored \<and>
        session = \<lparr>cs_authenticated = True, cs_user_id = st_user_id stored, cs_username = st_username stored,
          cs_token = msg_token msg\<rparr>)"

definition unbound :: "HandleResult option \<Rightarrow> bool" where
  "unbound r \<longleftrightarrow> (case r of None \<Rightarrow> True | Some res \<Rightarrow> hr_session_action res \<noteq> BIND)"

lemma unbound_respond: "hr_session_action res \<noteq> BIND \<Longrightarrow> unbound (respond J resp res)"
  by (auto simp: unbound_def respond_def split: option.split)

lemma unbound_none: "unbound None"
  by (simp add: unbound_def)

lemma unbound_replies:
  "unbound (reply J resp)" "unbound (unavailable J mtype msg message)" "unbound (friendship_response J mtype msg fr)"
  "unbound (state_response J mtype msg sr)"
  by (simp_all add: unbound_respond unavailable_def friendship_response_def state_response_def Let_def)

lemma other_handlers_unbound:
  "msg_type msg \<noteq> ''login'' \<Longrightarrow> wp (dispatch self J i msg ctx) (\<lambda>r _. unbound r) w"
  unfolding dispatch_def Let_def handleRegister_def handleLogout_def handleHeartbeat_def handleWhoAmI_def
    handleSendMessage_def handlePullOfflineMessages_def handleMessageAck_def handleMarkMessageRead_def
    handleAddFriend_def handleAcceptFriend_def handleDeleteFriend_def handleListFriends_def
    handleCreateGroup_def handleAddGroupMember_def handleSendGroupMessage_def handleUnknown_def
  by (intro wp_if wp_intros wp_any unbound_replies unbound_none)
    (auto intro!: unbound_respond unbound_replies unbound_none split: option.split)


lemma login_password_shown:
  assumes "w_inv cfg w" "msg_type msg = ''login''" "w_later w0 w"
    and "run_state (handleLogin (chat_handler cfg lib string_hash) J i msg conn ip) w = (Some r, w')" "hr_session_action r = BIND"
  shows "password_shown lib J msg w0 (hr_pending_session r)"
proof -
  obtain req where req: "parseLoginRequest J msg = Inr req"
    using assms(4,5) by (auto simp: handleLogin_def respond_def split: sum.splits)
  obtain res w1 where run: "run_state (login (user_service cfg lib) (hi_user i) req conn ip) w = (res, w1)" by fastforce
  have "lg_code res = OK \<and> lg_session res = hr_pending_session r"
    using assms(4,5) by (auto simp: handleLogin_def respond_def req chat_handler_def run Let_def split: if_splits option.splits)
  moreover have "accounts.login_post cfg lib req w res w1"
    by (rule wpD [OF accounts.login_wp [OF assms(1)] run])
  moreover have "ph_Verify (us_password_hasher (user_service cfg lib)) = Verify lib"
    by (simp add: user_service_def bcrypt_hasher_ops_def)
  ultimately obtain wl u tok where "w_later w wl" "u \<in> set (w_users wl)" "w_key w (u_username u) = w_key w (lr_username req)"
    "Verify lib (lr_password req) (u_password_hash u)" "hr_pending_session r = login_session u tok"
    unfolding accounts.login_post_def by auto
  then show ?thesis
    using assms(2,3) req world.R_trans [OF assms(3)] world_users.later_key [OF assms(3)]
    unfolding password_shown_def by auto
qed

lemma resume_token_shown:
  assumes "msg_type msg = ''resume_session''"
    and "run_state (handleResumeSession (chat_handler cfg lib string_hash) J msg) w = (Some r, w')" "hr_session_action r = BIND"
  shows "token_shown cfg msg w (hr_pending_session r)"
  using assms
  by (auto simp: token_shown_def handleResumeSession_def resumeSession_def respond_def chat_handler_def user_service_def
      session_store_def enabled_def redis_session_store_ops_def resume_refused_def Let_def
      split: if_splits option.splits prod.splits)


text \<open>C5. Only credentials make a session. When the handler asks the server to bind a session to a connection,
  the request was a valid login whose password verifies against the hash of the stored user the
  session is for, or it presented a token for which the session store holds a session, and the session
  is for exactly the user stored there.\<close>

theorem binding_needs_credentials:
  assumes "system_inv cfg w"
    and "run_state (handle (chat_handler cfg lib string_hash) J inputs raw context) w = (Some r, w')"
    and "hr_session_action r = BIND"
  shows "\<exists>msg. decodeMessage J raw = Inr msg \<and>
    (password_shown lib J msg w (hr_pending_session r) \<or> token_shown cfg msg w (hr_pending_session r))"
proof -
  obtain msg where msg: "decodeMessage J raw = Inr msg"
    using assms(2,3) by (auto simp: handle_def respond_def split: sum.splits)
  note run = assms(2) [unfolded handle_def msg sum.case]
  show ?thesis
  proof (cases "msg_type msg = ''resume_session''")
    case True
    then show ?thesis using resume_token_shown [OF True _ assms(3), of cfg lib string_hash J w w'] run msg by simp
  next
    case False
    define matches where "matches = (if IsProtectedMessage (msg_type msg) \<and> msg_token msg \<noteq> []
      then requestTokenMatches (hd_user_service (chat_handler cfg lib string_hash)) (rq_conn_id context) (msg_token msg)
      else ret True)"
    obtain b w1 where b: "run_state matches w = (b, w1)" by fastforce
    have b_true: "b"
      using run False b assms(3) by (cases b) (auto simp: matches_def [symmetric] respond_def)
    obtain w2 where x: "run_state (refreshPresence (user_service cfg lib) (rq_conn_id context)) w1 = ((), w2)"
      by (metis old.unit.exhaust surj_pair)
    have d: "run_state (dispatch (chat_handler cfg lib string_hash) J inputs msg context) w2 = (Some r, w')"
      using run False b b_true x by (simp add: matches_def [symmetric] chat_handler_def)
    have login: "msg_type msg = ''login''"
      using wpD [OF other_handlers_unbound d] assms(3) by (auto simp: unbound_def)
    then have "w1 = w" using b by (simp add: matches_def IsProtectedMessage_def)
    then have "system_inv cfg w2" "w_later w w2"
      using system.assured_run [OF system_user.user_service_keeps(10) assms(1)] x by auto
    then have "password_shown lib J msg w (hr_pending_session r)"
      using login_password_shown [OF _ login, of cfg w2 w lib string_hash J inputs] d assms(3)
      by (simp add: dispatch_def login system_inv_def)
    then show ?thesis using msg by blast
  qed
qed


definition login_value :: jvalue where
  "login_value = JObject [(''msg_type'', JText ''login''), (''seq'', JInt 7),
     (''data'', JObject [(''username'', JText ''alice''), (''password'', JText ''secret'')])]"

definition login_json :: "jvalue Json" where
  "login_json = sample_json [jprint login_value \<mapsto> login_value]"

definition login_run :: "HandleResult option \<times> World" where
  "login_run =
     run_state (handle (chat_handler default_RedisConfig sample_libcrypt (\<lambda>_. 0)) login_json beat_inputs (jprint login_value)
       \<lparr>rq_conn_id = 11, rq_peer_ip = []\<rparr>) busy_world"

lemma login_decoded:
  "decodeMessage login_json (jprint login_value) =
     Inr \<lparr>msg_type = ''login'', msg_seq = 7, msg_token = [],
       msg_data = JObject [(''username'', JText ''alice''), (''password'', JText ''secret'')]\<rparr>"
  by (simp add: decodeMessage_def login_json_def sample_json_def login_value_def string_field_def integer_field_def
      get_uint64_def)

lemma login_run_binds: "\<exists>r w'. login_run = (Some r, w') \<and> hr_session_action r = BIND"
proof -
  let ?msg = "\<lparr>msg_type = ''login'', msg_seq = 7, msg_token = [],
    msg_data = JObject [(''username'', JText ''alice''), (''password'', JText ''secret'')]\<rparr>"
  have req: "parseLoginRequest login_json ?msg = Inr login_request"
    by (simp add: parseLoginRequest_def string_field_def login_json_def sample_json_def login_request_def)
  obtain res w' where res: "sample_login = (res, w')" "lg_code res = OK"
    using sample_login_ok by (metis prod.collapse)
  have "run_state (refreshPresence (user_service default_RedisConfig sample_libcrypt) 11) busy_world = ((), busy_world)"
    by (simp add: refreshPresence_def user_service_def session_manager_def plain_services busy_session)
  moreover have "respond login_json resp result = Some (result\<lparr>hr_response := jprint (response_value login_json resp)\<rparr>)"
    for resp result
    by (simp add: respond_def encodeResponse_def login_json_def sample_json_def)
  ultimately show ?thesis
    using res req
    by (simp add: login_run_def handle_def login_decoded IsProtectedMessage_def chat_handler_def dispatch_def handleLogin_def
        beat_inputs_def sample_login_def Let_def)
qed

theorem binding_needs_credentials_witness:
  "\<exists>r w' msg. login_run = (Some r, w') \<and> hr_session_action r = BIND \<and>
     decodeMessage login_json (jprint login_value) = Inr msg \<and>
     password_shown sample_libcrypt login_json msg busy_world (hr_pending_session r)"
proof -
  have "system_inv default_RedisConfig busy_world"
    using busy_world_inv by (simp add: system_inv_def losses_only_def busy_session quiet_db_def)
  with login_run_binds show ?thesis
    using binding_needs_credentials [of default_RedisConfig busy_world sample_libcrypt "\<lambda>_. 0" login_json beat_inputs
        "jprint login_value" "\<lparr>rq_conn_id = 11, rq_peer_ip = []\<rparr>"]
    by (force simp: login_run_def login_decoded token_shown_def)
qed

end
