(* ===== verification/ConfigLoader.thy ===== *)
theory ConfigLoader
  imports SampleJson DbPool Redis
begin

text \<open>
  Loading the configuration, \<^verbatim>\<open>src/src/config/config_loader.cc\<close>: defaults, the sections of the JSON file,
  the environment on top, and the validation of the result; the text of the configuration that goes to
  the log. The file system, the environment, \<^verbatim>\<open>inet_pton\<close> and the JSON library are parameters.
\<close>

section \<open>The configuration\<close>

record ServerSection =
  sec_listen_ip :: string
  sec_listen_port :: nat

record LogConfig =
  lc_level :: string
  lc_file_path :: string
  lc_console :: bool
  lc_max_size_mb :: nat
  lc_max_files :: nat
  lc_async :: bool

record TimeoutConfig =
  tc_remote_push_ms :: nat

record ConnectionConfig =
  cc_idle_timeout_ms :: nat

record HeartbeatConfig =
  hc_timeout_ms :: nat

record ServerConfig =
  cfg_server :: ServerSection
  cfg_mysql :: DbConfig
  cfg_mysql_pool :: DbPoolConfig
  cfg_redis :: RedisConfig
  cfg_log :: LogConfig
  cfg_timeout :: TimeoutConfig
  cfg_connection :: ConnectionConfig
  cfg_heartbeat :: HeartbeatConfig

definition default_DbConfig :: DbConfig where
  "default_DbConfig =
     \<lparr>dbc_host = ''127.0.0.1'', dbc_port = 3306, dbc_username = [], dbc_password = [], dbc_database = [],
      dbc_connect_timeout_seconds = 5, dbc_read_timeout_seconds = 5, dbc_write_timeout_seconds = 5,
      dbc_charset = ''utf8mb4''\<rparr>"

definition default_ServerConfig :: ServerConfig where
  "default_ServerConfig =
     \<lparr>cfg_server = \<lparr>sec_listen_ip = ''127.0.0.1'', sec_listen_port = 8080\<rparr>,
      cfg_mysql = default_DbConfig, cfg_mysql_pool = default_DbPoolConfig, cfg_redis = default_RedisConfig,
      cfg_log = \<lparr>lc_level = ''info'', lc_file_path = ''logs/server.log'', lc_console = True, lc_max_size_mb = 100,
        lc_max_files = 5, lc_async = True\<rparr>,
      cfg_timeout = \<lparr>tc_remote_push_ms = 500\<rparr>, cfg_connection = \<lparr>cc_idle_timeout_ms = 300000\<rparr>,
      cfg_heartbeat = \<lparr>hc_timeout_ms = 90000\<rparr>\<rparr>"

section \<open>Reading members\<close>

text \<open>
  The loader asks the library for two more types, for the indented text, and whether \<^verbatim>\<open>parse\<close> throws an
  exception that is not a \<^verbatim>\<open>parse_error\<close> (a number too large for a double). \<^verbatim>\<open>js_unsigned\<close> answers for
  integers written without a sign.
\<close>

record 'j ConfigJson = "'j Json" +
  js_boolean :: "'j \<Rightarrow> bool option"
  js_unsigned :: "'j \<Rightarrow> nat option"
  js_dump_indented :: "'j \<Rightarrow> string option"
  js_parse_overflows :: "string \<Rightarrow> bool"

definition uint16_max :: nat where "uint16_max = 2 ^ 16 - 1"
definition uint32_max :: nat where "uint32_max = 2 ^ 32 - 1"
definition size_max :: nat where "size_max = 2 ^ 64 - 1"

definition GetStr :: "'j ConfigJson \<Rightarrow> 'j \<Rightarrow> string \<Rightarrow> string \<Rightarrow> string + string" where
  "GetStr J obj key out =
     (case js_at J obj key of
        None \<Rightarrow> Inr out
      | Some v \<Rightarrow> (case js_string J v of None \<Rightarrow> Inl (key @ '' must be a string'') | Some s \<Rightarrow> Inr s))"

definition GetBool :: "'j ConfigJson \<Rightarrow> 'j \<Rightarrow> string \<Rightarrow> bool \<Rightarrow> string + bool" where
  "GetBool J obj key out =
     (case js_at J obj key of
        None \<Rightarrow> Inr out
      | Some v \<Rightarrow> (case js_boolean J v of None \<Rightarrow> Inl (key @ '' must be a boolean'') | Some b \<Rightarrow> Inr b))"

text \<open>The largest value of the type of the field is an argument.\<close>

definition GetUInt :: "'j ConfigJson \<Rightarrow> nat \<Rightarrow> 'j \<Rightarrow> string \<Rightarrow> string \<Rightarrow> nat \<Rightarrow> string + nat" where
  "GetUInt J largest obj key field_path out =
     (case js_at J obj key of
        None \<Rightarrow> Inr out
      | Some v \<Rightarrow>
          (case js_unsigned J v of
             None \<Rightarrow> Inl (field_path @ '' must be an unsigned integer'')
           | Some raw \<Rightarrow>
               if raw > largest
               then Inl (field_path @ '' value '' @ nat_to_string raw @ '' overflows (max '' @ nat_to_string largest @ '')'')
               else Inr raw))"

text \<open>A 32-bit \<^verbatim>\<open>int\<close>; the value is first read as \<^verbatim>\<open>int64_t\<close>.\<close>

definition GetInt :: "'j ConfigJson \<Rightarrow> 'j \<Rightarrow> string \<Rightarrow> string \<Rightarrow> int \<Rightarrow> string + int" where
  "GetInt J obj key field_path out =
     (case js_at J obj key of
        None \<Rightarrow> Inr out
      | Some v \<Rightarrow>
          (case js_integer J v of
             None \<Rightarrow> Inl (field_path @ '' must be an integer'')
           | Some i \<Rightarrow>
               let raw = get_int64 i
               in if raw < - (2 ^ 31) \<or> raw > 2 ^ 31 - 1
                  then Inl (field_path @ '' value '' @ int_to_string raw @ '' out of range ['' @ int_to_string (- (2 ^ 31)) @
                         '', '' @ int_to_string (2 ^ 31 - 1) @ '']'')
                  else Inr raw))"

definition GetPort :: "'j ConfigJson \<Rightarrow> 'j \<Rightarrow> string \<Rightarrow> string \<Rightarrow> nat \<Rightarrow> string + nat" where
  "GetPort J obj key field_path out =
     (case js_at J obj key of
        None \<Rightarrow> Inr out
      | Some v \<Rightarrow>
          (case js_unsigned J v of
             None \<Rightarrow> Inl (field_path @ '' must be an unsigned integer'')
           | Some raw \<Rightarrow>
               if raw < 1 \<or> raw > 65535
               then Inl (field_path @ '' must be in range 1..65535 (got '' @ nat_to_string raw @ '')'')
               else Inr raw))"

text \<open>The statements of a section run in order until one reports an error.\<close>

fun run_steps :: "('c \<Rightarrow> string + 'c) list \<Rightarrow> 'c \<Rightarrow> string + 'c" where
  "run_steps [] c = Inr c"
| "run_steps (st # sts) c = (case st c of Inl err \<Rightarrow> Inl err | Inr c' \<Rightarrow> run_steps sts c')"

text \<open>Reading into a member of the structure; an error may get the name of the section in front.\<close>

definition into :: "('c \<Rightarrow> 'a) \<Rightarrow> (('a \<Rightarrow> 'a) \<Rightarrow> 'c \<Rightarrow> 'c) \<Rightarrow> string \<Rightarrow> ('a \<Rightarrow> string + 'a) \<Rightarrow> 'c \<Rightarrow> string + 'c" where
  "into sel upd sec get c =
     (case get (sel c) of Inl err \<Rightarrow> Inl (sec @ err) | Inr v \<Rightarrow> Inr (upd (\<lambda>_. v) c))"

text \<open>A section is optional and must be an object.\<close>

definition in_section :: "'j ConfigJson \<Rightarrow> 'j \<Rightarrow> string \<Rightarrow> string \<Rightarrow> ('j \<Rightarrow> 'c \<Rightarrow> string + 'c) \<Rightarrow> 'c \<Rightarrow> string + 'c" where
  "in_section J root key path steps c =
     (case js_at J root key of
        None \<Rightarrow> Inr c
      | Some obj \<Rightarrow> if js_is_object J obj then steps obj c else Inl (path @ '' must be an object''))"

section \<open>Sections\<close>

definition ParseServer :: "'j ConfigJson \<Rightarrow> 'j \<Rightarrow> ServerSection \<Rightarrow> string + ServerSection" where
  "ParseServer J root =
     in_section J root ''server'' ''server'' (\<lambda>s. run_steps
       [into sec_listen_ip sec_listen_ip_update ''server.'' (GetStr J s ''listen_ip''),
        into sec_listen_port sec_listen_port_update [] (GetPort J s ''listen_port'' ''server.listen_port'')])"

text \<open>Members of fixed width.\<close>

definition uint32_into ::
  "'j ConfigJson \<Rightarrow> 'j \<Rightarrow> string \<Rightarrow> string \<Rightarrow> ('c \<Rightarrow> 32 word) \<Rightarrow> ((32 word \<Rightarrow> 32 word) \<Rightarrow> 'c \<Rightarrow> 'c) \<Rightarrow> 'c \<Rightarrow> string + 'c" where
  "uint32_into J obj key path sel upd =
     into (unat \<circ> sel) (\<lambda>f. upd (of_nat \<circ> f \<circ> unat)) [] (GetUInt J uint32_max obj key path)"

definition size_into ::
  "'j ConfigJson \<Rightarrow> 'j \<Rightarrow> string \<Rightarrow> string \<Rightarrow> ('c \<Rightarrow> 64 word) \<Rightarrow> ((64 word \<Rightarrow> 64 word) \<Rightarrow> 'c \<Rightarrow> 'c) \<Rightarrow> 'c \<Rightarrow> string + 'c" where
  "size_into J obj key path sel upd =
     into (unat \<circ> sel) (\<lambda>f. upd (of_nat \<circ> f \<circ> unat)) [] (GetUInt J size_max obj key path)"

definition port_into ::
  "'j ConfigJson \<Rightarrow> 'j \<Rightarrow> string \<Rightarrow> string \<Rightarrow> ('c \<Rightarrow> 16 word) \<Rightarrow> ((16 word \<Rightarrow> 16 word) \<Rightarrow> 'c \<Rightarrow> 'c) \<Rightarrow> 'c \<Rightarrow> string + 'c" where
  "port_into J obj key path sel upd =
     into (unat \<circ> sel) (\<lambda>f. upd (of_nat \<circ> f \<circ> unat)) [] (GetPort J obj key path)"

definition ParsePool :: "'j ConfigJson \<Rightarrow> 'j \<Rightarrow> DbPoolConfig \<Rightarrow> string + DbPoolConfig" where
  "ParsePool J m =
     in_section J m ''pool'' ''mysql.pool'' (\<lambda>p. run_steps
       [size_into J p ''min_connections'' ''mysql.pool.min_connections'' pc_min_connections pc_min_connections_update,
        size_into J p ''max_connections'' ''mysql.pool.max_connections'' pc_max_connections pc_max_connections_update,
        uint32_into J p ''borrow_timeout_ms'' ''mysql.pool.borrow_timeout_ms'' pc_borrow_timeout_ms
          pc_borrow_timeout_ms_update])"

definition ParseMysql :: "'j ConfigJson \<Rightarrow> 'j \<Rightarrow> DbConfig \<times> DbPoolConfig \<Rightarrow> string + DbConfig \<times> DbPoolConfig" where
  "ParseMysql J root =
     in_section J root ''mysql'' ''mysql'' (\<lambda>m (cfg, pool).
       case run_steps
         [into dbc_host dbc_host_update ''mysql.'' (GetStr J m ''host''),
          into dbc_username dbc_username_update ''mysql.'' (GetStr J m ''username''),
          into dbc_password dbc_password_update ''mysql.'' (GetStr J m ''password''),
          into dbc_database dbc_database_update ''mysql.'' (GetStr J m ''database''),
          port_into J m ''port'' ''mysql.port'' dbc_port dbc_port_update,
          uint32_into J m ''connect_timeout_seconds'' ''mysql.connect_timeout_seconds''
            dbc_connect_timeout_seconds dbc_connect_timeout_seconds_update,
          uint32_into J m ''read_timeout_seconds'' ''mysql.read_timeout_seconds''
            dbc_read_timeout_seconds dbc_read_timeout_seconds_update,
          uint32_into J m ''write_timeout_seconds'' ''mysql.write_timeout_seconds''
            dbc_write_timeout_seconds dbc_write_timeout_seconds_update] cfg of
         Inl err \<Rightarrow> Inl err
       | Inr cfg' \<Rightarrow> map_sum id (Pair cfg') (ParsePool J m pool))"

definition redis_uint ::
  "'j ConfigJson \<Rightarrow> 'j \<Rightarrow> string \<Rightarrow> (RedisConfig \<Rightarrow> nat) \<Rightarrow> ((nat \<Rightarrow> nat) \<Rightarrow> RedisConfig \<Rightarrow> RedisConfig) \<Rightarrow>
   RedisConfig \<Rightarrow> string + RedisConfig" where
  "redis_uint J r key sel upd = into sel upd [] (GetUInt J uint32_max r key (''redis.'' @ key))"

definition ParseRedis :: "'j ConfigJson \<Rightarrow> 'j \<Rightarrow> RedisConfig \<Rightarrow> string + RedisConfig" where
  "ParseRedis J root =
     in_section J root ''redis'' ''redis'' (\<lambda>r. run_steps
       [into rc_enabled rc_enabled_update ''redis.'' (GetBool J r ''enabled''),
        into rc_host rc_host_update ''redis.'' (GetStr J r ''host''),
        into rc_password rc_password_update ''redis.'' (GetStr J r ''password''),
        into rc_key_prefix rc_key_prefix_update ''redis.'' (GetStr J r ''key_prefix''),
        into rc_server_id rc_server_id_update ''redis.'' (GetStr J r ''server_id''),
        into rc_port rc_port_update [] (GetPort J r ''port'' ''redis.port''),
        into rc_database rc_database_update [] (GetInt J r ''database'' ''redis.database''),
        into rc_pool_size rc_pool_size_update [] (GetUInt J size_max r ''pool_size'' ''redis.pool_size''),
        redis_uint J r ''connect_timeout_ms'' rc_connect_timeout_ms rc_connect_timeout_ms_update,
        redis_uint J r ''command_timeout_ms'' rc_command_timeout_ms rc_command_timeout_ms_update,
        redis_uint J r ''session_ttl_seconds'' rc_session_ttl_seconds rc_session_ttl_seconds_update,
        redis_uint J r ''presence_ttl_seconds'' rc_presence_ttl_seconds rc_presence_ttl_seconds_update,
        redis_uint J r ''user_cache_ttl_seconds'' rc_user_cache_ttl_seconds rc_user_cache_ttl_seconds_update,
        redis_uint J r ''user_not_found_ttl_seconds'' rc_user_not_found_ttl_seconds rc_user_not_found_ttl_seconds_update,
        redis_uint J r ''message_dedup_ttl_seconds'' rc_message_dedup_ttl_seconds rc_message_dedup_ttl_seconds_update,
        redis_uint J r ''login_rate_limit'' rc_login_rate_limit rc_login_rate_limit_update,
        redis_uint J r ''login_rate_window_seconds'' rc_login_rate_window_seconds rc_login_rate_window_seconds_update,
        redis_uint J r ''register_rate_limit'' rc_register_rate_limit rc_register_rate_limit_update,
        redis_uint J r ''register_rate_window_seconds'' rc_register_rate_window_seconds
          rc_register_rate_window_seconds_update,
        redis_uint J r ''send_rate_limit'' rc_send_rate_limit rc_send_rate_limit_update,
        redis_uint J r ''send_rate_window_seconds'' rc_send_rate_window_seconds rc_send_rate_window_seconds_update])"

definition ParseLog :: "'j ConfigJson \<Rightarrow> 'j \<Rightarrow> LogConfig \<Rightarrow> string + LogConfig" where
  "ParseLog J root =
     in_section J root ''log'' ''log'' (\<lambda>l cfg.
       if js_at J l ''path'' \<noteq> None then Inl ''log.path is no longer supported; use log.file_path''
       else run_steps
         [into lc_level lc_level_update ''log.'' (GetStr J l ''level''),
          into lc_file_path lc_file_path_update ''log.'' (GetStr J l ''file_path''),
          into lc_console lc_console_update ''log.'' (GetBool J l ''console''),
          into lc_max_size_mb lc_max_size_mb_update [] (GetUInt J size_max l ''max_size_mb'' ''log.max_size_mb''),
          into lc_max_files lc_max_files_update [] (GetUInt J size_max l ''max_files'' ''log.max_files''),
          into lc_async lc_async_update ''log.'' (GetBool J l ''async'')] cfg)"

definition ParseTimeout :: "'j ConfigJson \<Rightarrow> 'j \<Rightarrow> TimeoutConfig \<Rightarrow> string + TimeoutConfig" where
  "ParseTimeout J root =
     in_section J root ''timeout'' ''timeout'' (\<lambda>t. run_steps
       [into tc_remote_push_ms tc_remote_push_ms_update []
          (GetUInt J uint32_max t ''remote_push_ms'' ''timeout.remote_push_ms'')])"

definition ParseConnection :: "'j ConfigJson \<Rightarrow> 'j \<Rightarrow> ConnectionConfig \<Rightarrow> string + ConnectionConfig" where
  "ParseConnection J root =
     in_section J root ''connection'' ''connection'' (\<lambda>c. run_steps
       [into cc_idle_timeout_ms cc_idle_timeout_ms_update []
          (GetUInt J uint32_max c ''idle_timeout_ms'' ''connection.idle_timeout_ms'')])"

definition ParseHeartbeat :: "'j ConfigJson \<Rightarrow> 'j \<Rightarrow> HeartbeatConfig \<Rightarrow> string + HeartbeatConfig" where
  "ParseHeartbeat J root =
     in_section J root ''heartbeat'' ''heartbeat'' (\<lambda>h. run_steps
       [into hc_timeout_ms hc_timeout_ms_update []
          (GetUInt J uint32_max h ''timeout_ms'' ''heartbeat.timeout_ms'')])"

section \<open>Environment\<close>

text \<open>
  \<^verbatim>\<open>StrictParseInt\<close> on an unsigned type takes digits only and the whole text, on \<^verbatim>\<open>int\<close> also a minus sign in
  front; a value that does not fit the type is refused.
\<close>

definition StrictParseUInt :: "nat \<Rightarrow> string \<Rightarrow> nat option" where
  "StrictParseUInt largest s =
     (if s \<noteq> [] \<and> list_all is_digit s \<and> digits_value s \<le> largest then Some (digits_value s) else None)"

definition StrictParseInt :: "string \<Rightarrow> int option" where
  "StrictParseInt s =
     (if take 1 s = ''-'' then map_option (\<lambda>n. - int n) (StrictParseUInt (2 ^ 31) (drop 1 s))
      else map_option int (StrictParseUInt (2 ^ 31 - 1) s))"

definition StrictParseBool :: "string \<Rightarrow> bool option" where
  "StrictParseBool s = (if s = ''0'' then Some False else if s = ''1'' then Some True else None)"

type_synonym environment = "string \<Rightarrow> string option"

definition env_string :: "environment \<Rightarrow> string \<Rightarrow> ((string \<Rightarrow> string) \<Rightarrow> ServerConfig \<Rightarrow> ServerConfig) \<Rightarrow> ServerConfig \<Rightarrow> string + ServerConfig" where
  "env_string Env name upd c = (case Env name of None \<Rightarrow> Inr c | Some v \<Rightarrow> Inr (upd (\<lambda>_. v) c))"

text \<open>A variable that is read with a parser; the text of the error ends with its value.\<close>

definition env_parsed ::
  "environment \<Rightarrow> string \<Rightarrow> string \<Rightarrow> (string \<Rightarrow> 'a option) \<Rightarrow> ('a \<Rightarrow> ServerConfig \<Rightarrow> ServerConfig) \<Rightarrow> ServerConfig \<Rightarrow>
   string + ServerConfig" where
  "env_parsed Env name complaint parse set_field c =
     (case Env name of
        None \<Rightarrow> Inr c
      | Some v \<Rightarrow>
          (case parse v of None \<Rightarrow> Inl (name @ complaint @ v) | Some x \<Rightarrow> Inr (set_field x c)))"

definition parse_port :: "string \<Rightarrow> nat option" where
  "parse_port s = Option.bind (StrictParseUInt uint32_max s) (\<lambda>raw. if raw < 1 \<or> raw > 65535 then None else Some raw)"

definition apply_unsigned ::
  "environment \<Rightarrow> nat \<Rightarrow> string \<Rightarrow> ((nat \<Rightarrow> nat) \<Rightarrow> ServerConfig \<Rightarrow> ServerConfig) \<Rightarrow> ServerConfig \<Rightarrow> string + ServerConfig" where
  "apply_unsigned Env largest name upd =
     env_parsed Env name '' is not a valid unsigned integer: '' (StrictParseUInt largest) (\<lambda>n. upd (\<lambda>_. n))"

definition env_redis ::
  "environment \<Rightarrow> string \<Rightarrow> ((nat \<Rightarrow> nat) \<Rightarrow> RedisConfig \<Rightarrow> RedisConfig) \<Rightarrow> ServerConfig \<Rightarrow> string + ServerConfig" where
  "env_redis Env name upd = apply_unsigned Env uint32_max name (\<lambda>f. cfg_redis_update (upd f))"

definition env_steps :: "environment \<Rightarrow> (ServerConfig \<Rightarrow> string + ServerConfig) list" where
  "env_steps Env =
     [env_string Env ''CHAT_DB_HOST'' (\<lambda>f. cfg_mysql_update (dbc_host_update f)),
      env_string Env ''CHAT_DB_USER'' (\<lambda>f. cfg_mysql_update (dbc_username_update f)),
      env_string Env ''CHAT_DB_PASSWORD'' (\<lambda>f. cfg_mysql_update (dbc_password_update f)),
      env_string Env ''CHAT_DB_NAME'' (\<lambda>f. cfg_mysql_update (dbc_database_update f)),
      env_parsed Env ''CHAT_DB_PORT'' '' is not a valid port number: '' parse_port
        (\<lambda>p. cfg_mysql_update (dbc_port_update (\<lambda>_. of_nat p))),
      env_parsed Env ''CHAT_REDIS_ENABLED'' '' must be 0 or 1: '' StrictParseBool
        (\<lambda>b. cfg_redis_update (rc_enabled_update (\<lambda>_. b))),
      env_string Env ''CHAT_REDIS_HOST'' (\<lambda>f. cfg_redis_update (rc_host_update f)),
      env_string Env ''CHAT_REDIS_PASSWORD'' (\<lambda>f. cfg_redis_update (rc_password_update f)),
      env_parsed Env ''CHAT_REDIS_PORT'' '' is not a valid port number: '' parse_port
        (\<lambda>p. cfg_redis_update (rc_port_update (\<lambda>_. p))),
      env_parsed Env ''CHAT_REDIS_DB'' '' is not a valid integer: '' StrictParseInt
        (\<lambda>i. cfg_redis_update (rc_database_update (\<lambda>_. i))),
      env_string Env ''CHAT_REDIS_KEY_PREFIX'' (\<lambda>f. cfg_redis_update (rc_key_prefix_update f)),
      env_string Env ''CHAT_SERVER_ID'' (\<lambda>f. cfg_redis_update (rc_server_id_update f)),
      apply_unsigned Env size_max ''CHAT_REDIS_POOL_SIZE'' (\<lambda>f. cfg_redis_update (rc_pool_size_update f)),
      env_redis Env ''CHAT_REDIS_CONNECT_TIMEOUT_MS'' rc_connect_timeout_ms_update,
      env_redis Env ''CHAT_REDIS_COMMAND_TIMEOUT_MS'' rc_command_timeout_ms_update,
      env_redis Env ''CHAT_SESSION_TTL_SECONDS'' rc_session_ttl_seconds_update,
      env_redis Env ''CHAT_PRESENCE_TTL_SECONDS'' rc_presence_ttl_seconds_update,
      env_redis Env ''CHAT_USER_CACHE_TTL_SECONDS'' rc_user_cache_ttl_seconds_update,
      env_redis Env ''CHAT_USER_NOT_FOUND_TTL_SECONDS'' rc_user_not_found_ttl_seconds_update,
      env_redis Env ''CHAT_MESSAGE_DEDUP_TTL_SECONDS'' rc_message_dedup_ttl_seconds_update,
      env_redis Env ''CHAT_LOGIN_RATE_LIMIT'' rc_login_rate_limit_update,
      env_redis Env ''CHAT_LOGIN_RATE_WINDOW_SECONDS'' rc_login_rate_window_seconds_update,
      env_redis Env ''CHAT_REGISTER_RATE_LIMIT'' rc_register_rate_limit_update,
      env_redis Env ''CHAT_REGISTER_RATE_WINDOW_SECONDS'' rc_register_rate_window_seconds_update,
      env_redis Env ''CHAT_SEND_RATE_LIMIT'' rc_send_rate_limit_update,
      env_redis Env ''CHAT_SEND_RATE_WINDOW_SECONDS'' rc_send_rate_window_seconds_update,
      apply_unsigned Env uint32_max ''CHAT_CONNECTION_IDLE_TIMEOUT_MS''
        (\<lambda>f. cfg_connection_update (cc_idle_timeout_ms_update f)),
      apply_unsigned Env uint32_max ''CHAT_HEARTBEAT_TIMEOUT_MS'' (\<lambda>f. cfg_heartbeat_update (hc_timeout_ms_update f))]"

definition ApplyEnvOverrides :: "environment \<Rightarrow> ServerConfig \<Rightarrow> string + ServerConfig" where
  "ApplyEnvOverrides Env = run_steps (env_steps Env)"

section \<open>Validation\<close>

text \<open>The text of the first condition that holds, or the empty text.\<close>

fun first_error :: "(bool \<times> string) list \<Rightarrow> string" where
  "first_error [] = []"
| "first_error ((bad, text) # rest) = (if bad then text else first_error rest)"

definition mysql_checks :: "DbConfig \<Rightarrow> DbPoolConfig \<Rightarrow> (bool \<times> string) list" where
  "mysql_checks mysql pool =
     [(dbc_host mysql = [], ''mysql.host must not be empty''),
      (dbc_username mysql = [], ''mysql.username must not be empty''),
      (dbc_database mysql = [], ''mysql.database must not be empty''),
      (dbc_port mysql < 1, ''mysql.port must be in range 1..65535''),
      (dbc_connect_timeout_seconds mysql = 0, ''mysql.connect_timeout_seconds must be positive''),
      (dbc_read_timeout_seconds mysql = 0, ''mysql.read_timeout_seconds must be positive''),
      (dbc_write_timeout_seconds mysql = 0, ''mysql.write_timeout_seconds must be positive''),
      (pc_max_connections pool = 0, ''mysql.pool.max_connections must be positive''),
      (pc_min_connections pool > pc_max_connections pool,
       ''mysql.pool.min_connections must be <= mysql.pool.max_connections''),
      (pc_borrow_timeout_ms pool = 0, ''mysql.pool.borrow_timeout_ms must be positive'')]"

definition redis_checks :: "RedisConfig \<Rightarrow> (bool \<times> string) list" where
  "redis_checks redis =
     [(rc_enabled redis \<and> rc_host redis = [], ''redis.host must not be empty''),
      (rc_port redis < 1, ''redis.port must be in range 1..65535''),
      (rc_pool_size redis = 0, ''redis.pool_size must be positive''),
      (rc_database redis < 0, ''redis.database must be >= 0''),
      (rc_connect_timeout_ms redis = 0, ''redis.connect_timeout_ms must be positive''),
      (rc_command_timeout_ms redis = 0, ''redis.command_timeout_ms must be positive''),
      (rc_key_prefix redis = [] \<or> last (rc_key_prefix redis) = CHR '':'',
       ''redis.key_prefix must not be empty or end with '' @ quoted '':''),
      (rc_server_id redis = [] \<or> CHR '':'' \<in> set (rc_server_id redis),
       ''redis.server_id must not be empty or contain '' @ quoted '':''),
      (rc_session_ttl_seconds redis = 0, ''redis.session_ttl_seconds must be positive''),
      (rc_presence_ttl_seconds redis = 0, ''redis.presence_ttl_seconds must be positive''),
      (rc_user_cache_ttl_seconds redis = 0, ''redis.user_cache_ttl_seconds must be positive''),
      (rc_user_not_found_ttl_seconds redis = 0, ''redis.user_not_found_ttl_seconds must be positive''),
      (rc_message_dedup_ttl_seconds redis = 0, ''redis.message_dedup_ttl_seconds must be positive''),
      (rc_login_rate_limit redis = 0 \<or> rc_login_rate_window_seconds redis = 0,
       ''redis login rate limit values must be positive''),
      (rc_register_rate_limit redis = 0 \<or> rc_register_rate_window_seconds redis = 0,
       ''redis register rate limit values must be positive''),
      (rc_send_rate_limit redis = 0 \<or> rc_send_rate_window_seconds redis = 0,
       ''redis send rate limit values must be positive'')]"

definition kBytesPerMegabyte :: nat where "kBytesPerMegabyte = 1024 * 1024"

definition log_checks :: "LogConfig \<Rightarrow> (bool \<times> string) list" where
  "log_checks log =
     [(lc_level log \<notin> {''debug'', ''info'', ''warn'', ''error''}, ''log.level must be one of: debug, info, warn, error''),
      (lc_max_size_mb log = 0, ''log.max_size_mb must be positive''),
      (lc_max_files log = 0, ''log.max_files must be at least 1''),
      (lc_max_size_mb log > size_max div kBytesPerMegabyte, ''log.max_size_mb is too large''),
      (\<not> lc_console log \<and> lc_file_path log = [], ''log must enable console or provide file_path'')]"

text \<open>\<^verbatim>\<open>inet_pton\<close> for the two families is a parameter.\<close>

record inet =
  inet_pton4 :: "string \<Rightarrow> bool"
  inet_pton6 :: "string \<Rightarrow> bool"

definition Validate :: "inet \<Rightarrow> ServerConfig \<Rightarrow> string" where
  "Validate I config =
     first_error
       ([(\<not> inet_pton4 I (sec_listen_ip (cfg_server config)) \<and> \<not> inet_pton6 I (sec_listen_ip (cfg_server config)),
          ''server.listen_ip is not a valid IP address: '' @ sec_listen_ip (cfg_server config)),
         (sec_listen_port (cfg_server config) < 1, ''server.listen_port must be in range 1..65535'')] @
        mysql_checks (cfg_mysql config) (cfg_mysql_pool config) @ redis_checks (cfg_redis config) @
        log_checks (cfg_log config) @
        [(tc_remote_push_ms (cfg_timeout config) = 0, ''timeout.remote_push_ms must be positive''),
         (cc_idle_timeout_ms (cfg_connection config) = 0, ''connection.idle_timeout_ms must be positive''),
         (hc_timeout_ms (cfg_heartbeat config) = 0, ''heartbeat.timeout_ms must be positive''),
         (rc_presence_ttl_seconds (cfg_redis config) * 1000 \<le> hc_timeout_ms (cfg_heartbeat config),
          ''redis.presence_ttl_seconds must be greater than heartbeat.timeout_ms'')])"

section \<open>Loading\<close>

text \<open>No result means that an exception leaves the loader.\<close>

definition parse_sections :: "'j ConfigJson \<Rightarrow> 'j \<Rightarrow> (ServerConfig \<Rightarrow> string + ServerConfig) list" where
  "parse_sections J root =
     [into cfg_server cfg_server_update [] (ParseServer J root),
      into (\<lambda>c. (cfg_mysql c, cfg_mysql_pool c))
        (\<lambda>f c. case f (cfg_mysql c, cfg_mysql_pool c) of (m, p) \<Rightarrow> c\<lparr>cfg_mysql := m, cfg_mysql_pool := p\<rparr>)
        [] (ParseMysql J root),
      into cfg_redis cfg_redis_update [] (ParseRedis J root),
      into cfg_log cfg_log_update [] (ParseLog J root),
      into cfg_timeout cfg_timeout_update [] (ParseTimeout J root),
      into cfg_connection cfg_connection_update [] (ParseConnection J root),
      into cfg_heartbeat cfg_heartbeat_update [] (ParseHeartbeat J root)]"

definition validated :: "inet \<Rightarrow> ServerConfig \<Rightarrow> string + ServerConfig" where
  "validated I config = (if Validate I config = [] then Inr config else Inl (Validate I config))"

definition ParseAndValidate :: "'j ConfigJson \<Rightarrow> inet \<Rightarrow> environment \<Rightarrow> string \<Rightarrow> (string + ServerConfig) option" where
  "ParseAndValidate J I Env json_str =
     (if js_parse_overflows J json_str then None
      else Some (case js_parse J json_str of
        Inl what \<Rightarrow> Inl (''JSON parse error: '' @ what)
      | Inr root \<Rightarrow>
          if \<not> js_is_object J root then Inl ''config root must be a JSON object''
          else run_steps (parse_sections J root @ [ApplyEnvOverrides Env, validated I]) default_ServerConfig))"

definition LoadFromString :: "'j ConfigJson \<Rightarrow> inet \<Rightarrow> environment \<Rightarrow> string \<Rightarrow> (string + ServerConfig) option" where
  "LoadFromString J I Env json_str = ParseAndValidate J I Env json_str"

datatype file_answer = CannotOpen | ReadFails | Content string

definition ReadFile :: "(string \<Rightarrow> file_answer) \<Rightarrow> string \<Rightarrow> string + string" where
  "ReadFile files path =
     (case files path of
        CannotOpen \<Rightarrow> Inl (''cannot open config file: '' @ path)
      | ReadFails \<Rightarrow> Inl (''error reading config file: '' @ path)
      | Content text \<Rightarrow> Inr text)"

definition Load ::
  "'j ConfigJson \<Rightarrow> inet \<Rightarrow> environment \<Rightarrow> (string \<Rightarrow> file_answer) \<Rightarrow> string \<Rightarrow> (string + ServerConfig) option" where
  "Load J I Env files path =
     (let resolved = (if path \<noteq> [] then path
                      else case Env ''CHAT_CONFIG_PATH'' of Some p \<Rightarrow> p | None \<Rightarrow> ''config/server.json'')
      in case ReadFile files resolved of
        Inl err \<Rightarrow> Some (Inl err)
      | Inr content \<Rightarrow> ParseAndValidate J I Env content)"

text \<open>The arguments after the program name.\<close>

fun find_config_arg :: "string list \<Rightarrow> string" where
  "find_config_arg (a # v # rest) = (if a = ''--config'' then v else find_config_arg (v # rest))"
| "find_config_arg _ = []"

definition ParseConfigPathArg :: "string list \<Rightarrow> string" where
  "ParseConfigPathArg argv = find_config_arg (drop 1 argv)"

section \<open>The text for the log\<close>

text \<open>Members are assigned one after the other; the first assignment makes an object.\<close>

definition section_value :: "'j ConfigJson \<Rightarrow> (string \<times> 'j) list \<Rightarrow> 'j" where
  "section_value J members = fold (\<lambda>(name, x) v. js_set J v name x) members (js_null J)"

definition safe_value :: "'j ConfigJson \<Rightarrow> ServerConfig \<Rightarrow> 'j" where
  "safe_value J c =
     (let str = js_of_string J; num = (\<lambda>n. js_of_integer J (int n)); redis = cfg_redis c; log = cfg_log c;
          mysql = cfg_mysql c; pool = cfg_mysql_pool c
      in section_value J
        [(''server'', section_value J
           [(''listen_ip'', str (sec_listen_ip (cfg_server c))), (''listen_port'', num (sec_listen_port (cfg_server c)))]),
         (''mysql'', section_value J
           [(''host'', str (dbc_host mysql)), (''port'', num (unat (dbc_port mysql))),
            (''username'', str (dbc_username mysql)), (''password'', str ''<redacted>''),
            (''database'', str (dbc_database mysql)),
            (''connect_timeout_seconds'', num (unat (dbc_connect_timeout_seconds mysql))),
            (''read_timeout_seconds'', num (unat (dbc_read_timeout_seconds mysql))),
            (''write_timeout_seconds'', num (unat (dbc_write_timeout_seconds mysql))),
            (''pool'', section_value J
              [(''min_connections'', num (unat (pc_min_connections pool))),
               (''max_connections'', num (unat (pc_max_connections pool))),
               (''borrow_timeout_ms'', num (unat (pc_borrow_timeout_ms pool)))])]),
         (''redis'', section_value J
           [(''enabled'', js_of_bool J (rc_enabled redis)), (''host'', str (rc_host redis)),
            (''port'', num (rc_port redis)), (''password'', str ''<redacted>''),
            (''database'', js_of_integer J (rc_database redis)), (''pool_size'', num (rc_pool_size redis)),
            (''connect_timeout_ms'', num (rc_connect_timeout_ms redis)),
            (''command_timeout_ms'', num (rc_command_timeout_ms redis)),
            (''key_prefix'', str (rc_key_prefix redis)), (''server_id'', str (rc_server_id redis)),
            (''session_ttl_seconds'', num (rc_session_ttl_seconds redis)),
            (''presence_ttl_seconds'', num (rc_presence_ttl_seconds redis)),
            (''user_cache_ttl_seconds'', num (rc_user_cache_ttl_seconds redis)),
            (''user_not_found_ttl_seconds'', num (rc_user_not_found_ttl_seconds redis)),
            (''message_dedup_ttl_seconds'', num (rc_message_dedup_ttl_seconds redis)),
            (''login_rate_limit'', num (rc_login_rate_limit redis)),
            (''login_rate_window_seconds'', num (rc_login_rate_window_seconds redis)),
            (''register_rate_limit'', num (rc_register_rate_limit redis)),
            (''register_rate_window_seconds'', num (rc_register_rate_window_seconds redis)),
            (''send_rate_limit'', num (rc_send_rate_limit redis)),
            (''send_rate_window_seconds'', num (rc_send_rate_window_seconds redis))]),
         (''log'', section_value J
           [(''level'', str (lc_level log)), (''file_path'', str (lc_file_path log)),
            (''console'', js_of_bool J (lc_console log)), (''max_size_mb'', num (lc_max_size_mb log)),
            (''max_files'', num (lc_max_files log)), (''async'', js_of_bool J (lc_async log))]),
         (''timeout'', section_value J [(''remote_push_ms'', num (tc_remote_push_ms (cfg_timeout c)))]),
         (''connection'', section_value J [(''idle_timeout_ms'', num (cc_idle_timeout_ms (cfg_connection c)))]),
         (''heartbeat'', section_value J [(''timeout_ms'', num (hc_timeout_ms (cfg_heartbeat c)))])])"

definition ToSafeString :: "'j ConfigJson \<Rightarrow> ServerConfig \<Rightarrow> string option" where
  "ToSafeString J c = js_dump_indented J (safe_value J c)"

section \<open>What a loaded configuration satisfies\<close>

text \<open>The values fit the types of their members.\<close>

definition redis_fits :: "RedisConfig \<Rightarrow> bool" where
  "redis_fits r \<longleftrightarrow>
     rc_port r \<le> uint16_max \<and> - (2 ^ 31) \<le> rc_database r \<and> rc_database r < 2 ^ 31 \<and> rc_pool_size r \<le> size_max \<and>
     list_all (\<lambda>n. n \<le> uint32_max)
       [rc_connect_timeout_ms r, rc_command_timeout_ms r, rc_session_ttl_seconds r, rc_presence_ttl_seconds r,
        rc_user_cache_ttl_seconds r, rc_user_not_found_ttl_seconds r, rc_message_dedup_ttl_seconds r,
        rc_login_rate_limit r, rc_login_rate_window_seconds r, rc_register_rate_limit r,
        rc_register_rate_window_seconds r, rc_send_rate_limit r, rc_send_rate_window_seconds r]"

definition config_fits :: "ServerConfig \<Rightarrow> bool" where
  "config_fits c \<longleftrightarrow>
     sec_listen_port (cfg_server c) \<le> uint16_max \<and> redis_fits (cfg_redis c) \<and>
     lc_max_size_mb (cfg_log c) \<le> size_max \<and> lc_max_files (cfg_log c) \<le> size_max \<and>
     tc_remote_push_ms (cfg_timeout c) \<le> uint32_max \<and> cc_idle_timeout_ms (cfg_connection c) \<le> uint32_max \<and>
     hc_timeout_ms (cfg_heartbeat c) \<le> uint32_max"

text \<open>Steps that keep a property of the structure they fill.\<close>

definition keeps :: "('c \<Rightarrow> bool) \<Rightarrow> ('c \<Rightarrow> string + 'c) \<Rightarrow> bool" where
  "keeps P st \<longleftrightarrow> (\<forall>c c'. P c \<longrightarrow> st c = Inr c' \<longrightarrow> P c')"

lemma keeps_steps: "list_all (keeps P) sts \<Longrightarrow> keeps P (run_steps sts)"
proof (induction sts)
  case (Cons st sts)
  then have st: "keeps P st" and sts: "keeps P (run_steps sts)" by simp_all
  show ?case
    unfolding keeps_def
  proof (intro allI impI)
    fix c c'
    assume "P c" "run_steps (st # sts) c = Inr c'"
    moreover from this obtain c1 where "st c = Inr c1" "run_steps sts c1 = Inr c'"
      by (cases "st c") simp_all
    ultimately show "P c'"
      using st sts unfolding keeps_def by metis
  qed
qed (simp add: keeps_def)

lemma all_steps: "list_all Q []" "Q x \<Longrightarrow> list_all Q xs \<Longrightarrow> list_all Q (x # xs)"
  by simp_all

lemma keeps_section: "(\<And>obj. keeps P (steps obj)) \<Longrightarrow> keeps P (in_section J root key path steps)"
  by (auto simp: keeps_def in_section_def split: option.splits if_splits)

lemma keeps_into:
  assumes "keeps Q get" "\<And>c. P c \<Longrightarrow> Q (sel c)" "\<And>c v. P c \<Longrightarrow> Q v \<Longrightarrow> P (upd (\<lambda>_. v) c)"
  shows "keeps P (into sel upd sec get)"
  unfolding keeps_def into_def
proof (intro allI impI)
  fix c c'
  assume "P c" and "(case get (sel c) of Inl err \<Rightarrow> Inl (sec @ err) | Inr v \<Rightarrow> Inr (upd (\<lambda>_. v) c)) = Inr c'"
  then obtain v where "get (sel c) = Inr v" "c' = upd (\<lambda>_. v) c"
    by (auto split: sum.splits)
  then show "P c'"
    using assms(2,3) [OF \<open>P c\<close>] assms(1) by (auto simp: keeps_def)
qed

lemma keeps_any: "keeps (\<lambda>_. True) get"
  by (simp add: keeps_def)

lemma keeps_GetUInt: "keeps (\<lambda>n. n \<le> m) (GetUInt J m obj key path)"
  by (auto simp: keeps_def GetUInt_def split: option.splits if_splits)

lemma keeps_GetPort: "keeps (\<lambda>n. n \<le> uint16_max) (GetPort J obj key path)"
  by (auto simp: keeps_def GetPort_def uint16_max_def split: option.splits if_splits)

lemma keeps_GetInt: "keeps (\<lambda>i. - (2 ^ 31) \<le> i \<and> i < 2 ^ 31) (GetInt J obj key path)"
  by (auto simp: keeps_def GetInt_def Let_def split: option.splits if_splits)

lemmas keeps_fields = keeps_into [OF keeps_GetUInt] keeps_into [OF keeps_GetPort] keeps_into [OF keeps_GetInt]
  keeps_into [OF keeps_any]

lemma keeps_ParseRedis: "keeps redis_fits (ParseRedis J root)"
  unfolding ParseRedis_def redis_uint_def
  by (intro keeps_section keeps_steps all_steps; rule keeps_fields; simp add: redis_fits_def)

lemma keeps_sections: "list_all (keeps config_fits) (parse_sections J root)"
proof -
  have server: "keeps (\<lambda>s. sec_listen_port s \<le> uint16_max) (ParseServer J root)"
    unfolding ParseServer_def
    by (intro keeps_section keeps_steps all_steps; rule keeps_fields; simp)
  have log: "keeps (\<lambda>l. lc_max_size_mb l \<le> size_max \<and> lc_max_files l \<le> size_max) (ParseLog J root)"
  proof -
    have guarded: "keeps P (\<lambda>c. if b then Inl e else st c)" if "keeps P st" for P b e and st :: "LogConfig \<Rightarrow> string + LogConfig"
      using that by (simp add: keeps_def)
    show ?thesis
      unfolding ParseLog_def
      by (intro keeps_section) (rule guarded, rule keeps_steps, intro all_steps; rule keeps_fields; simp)
  qed
  have rest: "keeps (\<lambda>t. tc_remote_push_ms t \<le> uint32_max) (ParseTimeout J root)"
    "keeps (\<lambda>c. cc_idle_timeout_ms c \<le> uint32_max) (ParseConnection J root)"
    "keeps (\<lambda>h. hc_timeout_ms h \<le> uint32_max) (ParseHeartbeat J root)"
    unfolding ParseTimeout_def ParseConnection_def ParseHeartbeat_def
    by (intro keeps_section keeps_steps all_steps; rule keeps_fields; simp)+
  show ?thesis
    unfolding parse_sections_def
    by (intro all_steps; rule keeps_into [OF server] keeps_into [OF keeps_ParseRedis]
        keeps_into [OF log] keeps_into [OF rest(1)] keeps_into [OF rest(2)] keeps_into [OF rest(3)] keeps_into [OF keeps_any];
        simp add: config_fits_def split: prod.split)
qed

lemma keeps_env_string: "(\<And>c v. P c \<Longrightarrow> P (upd (\<lambda>_. v) c)) \<Longrightarrow> keeps P (env_string Env name upd)"
  by (auto simp: keeps_def env_string_def split: option.splits)

lemma keeps_env_parsed:
  "(\<And>c x v. P c \<Longrightarrow> parse v = Some x \<Longrightarrow> P (set_field x c)) \<Longrightarrow> keeps P (env_parsed Env name complaint parse set_field)"
  by (auto simp: keeps_def env_parsed_def split: option.splits)

lemma StrictParseUInt_le: "StrictParseUInt m s = Some n \<Longrightarrow> n \<le> m"
  by (auto simp: StrictParseUInt_def split: if_splits)

lemma parse_port_le: "parse_port s = Some n \<Longrightarrow> n \<le> uint16_max"
  by (auto simp: parse_port_def uint16_max_def split: bind_splits if_splits)

lemma StrictParseInt_range: "StrictParseInt s = Some i \<Longrightarrow> - (2 ^ 31) \<le> i \<and> i < 2 ^ 31"
  by (auto simp: StrictParseInt_def dest!: StrictParseUInt_le split: if_splits)

lemma keeps_env: "list_all (keeps config_fits) (env_steps Env)"
  unfolding env_steps_def apply_unsigned_def env_redis_def
  by (intro all_steps keeps_env_string keeps_env_parsed;
      (drule StrictParseUInt_le parse_port_le StrictParseInt_range)?; simp add: config_fits_def redis_fits_def)

lemma first_error_none:
  "list_all (\<lambda>(bad, text). text \<noteq> []) checks \<Longrightarrow> first_error checks = [] \<longleftrightarrow> list_all (\<lambda>(bad, text). \<not> bad) checks"
  by (induction checks rule: first_error.induct) auto

lemma Validate_none:
  "Validate I c = [] \<longleftrightarrow>
     (inet_pton4 I (sec_listen_ip (cfg_server c)) \<or> inet_pton6 I (sec_listen_ip (cfg_server c))) \<and>
     sec_listen_port (cfg_server c) \<noteq> 0 \<and>
     list_all (\<lambda>(bad, text). \<not> bad) (mysql_checks (cfg_mysql c) (cfg_mysql_pool c)) \<and>
     list_all (\<lambda>(bad, text). \<not> bad) (redis_checks (cfg_redis c)) \<and>
     list_all (\<lambda>(bad, text). \<not> bad) (log_checks (cfg_log c)) \<and>
     tc_remote_push_ms (cfg_timeout c) \<noteq> 0 \<and> cc_idle_timeout_ms (cfg_connection c) \<noteq> 0 \<and>
     hc_timeout_ms (cfg_heartbeat c) \<noteq> 0 \<and>
     hc_timeout_ms (cfg_heartbeat c) < rc_presence_ttl_seconds (cfg_redis c) * 1000"
proof -
  have "list_all (\<lambda>(bad, text). text \<noteq> []) (mysql_checks m p)" "list_all (\<lambda>(bad, text). text \<noteq> []) (redis_checks r)"
    "list_all (\<lambda>(bad, text). text \<noteq> []) (log_checks l)" for m p r l
    by (simp_all add: mysql_checks_def redis_checks_def log_checks_def)
  then show ?thesis
    unfolding Validate_def by (subst first_error_none) (auto simp: not_le)
qed

lemma redis_checks_ok:
  assumes "list_all (\<lambda>(bad, text). \<not> bad) (redis_checks r)"
  shows "rcf_success (ValidateRedisConfig r) \<and> (rc_enabled r \<longrightarrow> rc_host r \<noteq> [])"
  using assms by (simp add: redis_checks_def ValidateRedisConfig_def)

lemma run_steps_append:
  "run_steps (xs @ ys) c = (case run_steps xs c of Inl err \<Rightarrow> Inl err | Inr c' \<Rightarrow> run_steps ys c')"
  by (induction xs arbitrary: c) (simp_all split: sum.split)

lemma keeps_config: "list_all (keeps config_fits) (parse_sections J root @ [ApplyEnvOverrides Env, validated I])"
proof -
  have "keeps config_fits (ApplyEnvOverrides Env)"
    unfolding ApplyEnvOverrides_def by (rule keeps_steps [OF keeps_env])
  moreover have "keeps config_fits (validated I)"
    by (simp add: keeps_def validated_def)
  ultimately show ?thesis
    using keeps_sections by simp
qed

lemma loaded_config:
  assumes "Load J I Env files path = Some (Inr c)"
  shows "config_fits c \<and> Validate I c = []"
proof -
  obtain content where "ParseAndValidate J I Env content = Some (Inr c)"
    using assms by (auto simp: Load_def Let_def split: sum.splits)
  then obtain root where
    run: "run_steps (parse_sections J root @ [ApplyEnvOverrides Env, validated I]) default_ServerConfig = Inr c"
    by (auto simp: ParseAndValidate_def split: if_splits sum.splits)
  have "config_fits default_ServerConfig"
    by (simp add: config_fits_def redis_fits_def default_ServerConfig_def default_RedisConfig_def uint16_max_def
        uint32_max_def size_max_def)
  then have "config_fits c"
    using keeps_steps [OF keeps_config [of J root Env I]] run unfolding keeps_def by blast
  moreover have "Validate I c = []"
    using run by (auto simp: run_steps_append validated_def split: sum.splits if_splits)
  ultimately show ?thesis ..
qed

text \<open>What the other components rely on.\<close>

definition config_valid :: "inet \<Rightarrow> ServerConfig \<Rightarrow> bool" where
  "config_valid I c \<longleftrightarrow>
     (inet_pton4 I (sec_listen_ip (cfg_server c)) \<or> inet_pton6 I (sec_listen_ip (cfg_server c))) \<and>
     sec_listen_port (cfg_server c) \<in> {1..65535} \<and>
     dbc_host (cfg_mysql c) \<noteq> [] \<and> dbc_username (cfg_mysql c) \<noteq> [] \<and> dbc_database (cfg_mysql c) \<noteq> [] \<and>
     dbc_port (cfg_mysql c) \<noteq> 0 \<and>
     0 < pc_max_connections (cfg_mysql_pool c) \<and>
     pc_min_connections (cfg_mysql_pool c) \<le> pc_max_connections (cfg_mysql_pool c) \<and>
     rcf_success (ValidateRedisConfig (cfg_redis c)) \<and> redis_fits (cfg_redis c) \<and>
     (rc_enabled (cfg_redis c) \<longrightarrow> rc_host (cfg_redis c) \<noteq> []) \<and>
     lc_level (cfg_log c) \<in> {''debug'', ''info'', ''warn'', ''error''} \<and> 0 < lc_max_files (cfg_log c) \<and>
     0 < lc_max_size_mb (cfg_log c) * kBytesPerMegabyte \<and> lc_max_size_mb (cfg_log c) * kBytesPerMegabyte \<le> size_max \<and>
     cc_idle_timeout_ms (cfg_connection c) \<in> {1..uint32_max} \<and> hc_timeout_ms (cfg_heartbeat c) \<in> {1..uint32_max} \<and>
     hc_timeout_ms (cfg_heartbeat c) < rc_presence_ttl_seconds (cfg_redis c) * 1000"


text \<open>A concrete file and environment.\<close>

fun jbool :: "jvalue \<Rightarrow> bool option" where
  "jbool (JBool b) = Some b"
| "jbool _ = None"

definition junsigned :: "jvalue \<Rightarrow> nat option" where
  "junsigned v = (case jint v of Some i \<Rightarrow> if i < 0 then None else Some (nat i) | None \<Rightarrow> None)"

definition sample_config_json :: "(string \<rightharpoonup> jvalue) \<Rightarrow> jvalue ConfigJson" where
  "sample_config_json texts =
     Json.extend (sample_json texts) (ConfigJson.fields jbool junsigned (\<lambda>v. Some (jprint v)) (\<lambda>_. False))"

definition sample_file :: jvalue where
  "sample_file =
     JObject [(''server'', JObject [(''listen_port'', JInt 9000)]),
              (''mysql'', JObject [(''username'', JText ''chat''), (''database'', JText ''chat''),
                                   (''pool'', JObject [(''max_connections'', JInt 8)])]),
              (''redis'', JObject [(''enabled'', JBool True)])]"

definition sample_environment :: environment where
  "sample_environment = [''CHAT_DB_PASSWORD'' \<mapsto> ''secret'', ''CHAT_HEARTBEAT_TIMEOUT_MS'' \<mapsto> ''60000'']"

definition sample_inet :: inet where
  "sample_inet = \<lparr>inet_pton4 = (\<lambda>s. s = ''127.0.0.1''), inet_pton6 = (\<lambda>_. False)\<rparr>"

definition sample_config :: ServerConfig where
  "sample_config = default_ServerConfig
     \<lparr>cfg_server := \<lparr>sec_listen_ip = ''127.0.0.1'', sec_listen_port = 9000\<rparr>,
      cfg_mysql := default_DbConfig\<lparr>dbc_username := ''chat'', dbc_password := ''secret'', dbc_database := ''chat''\<rparr>,
      cfg_mysql_pool := default_DbPoolConfig\<lparr>pc_max_connections := 8\<rparr>,
      cfg_redis := default_RedisConfig\<lparr>rc_enabled := True\<rparr>, cfg_heartbeat := \<lparr>hc_timeout_ms = 60000\<rparr>\<rparr>"

lemmas sample_library = sample_config_json_def sample_json_def ConfigJson.defs Json.defs

lemmas config_readers = into_def GetStr_def GetBool_def GetUInt_def GetPort_def GetInt_def uint32_into_def size_into_def
  port_into_def redis_uint_def in_section_def

lemma sample_sections:
  "run_steps (parse_sections (sample_config_json texts) sample_file) default_ServerConfig =
     Inr (sample_config\<lparr>cfg_mysql := default_DbConfig\<lparr>dbc_username := ''chat'', dbc_database := ''chat''\<rparr>,
       cfg_heartbeat := \<lparr>hc_timeout_ms = 90000\<rparr>\<rparr>)"
proof -
  let ?J = "sample_config_json texts"
  have "ParseServer ?J sample_file \<lparr>sec_listen_ip = ''127.0.0.1'', sec_listen_port = 8080\<rparr> =
      Inr \<lparr>sec_listen_ip = ''127.0.0.1'', sec_listen_port = 9000\<rparr>"
    by (simp add: ParseServer_def config_readers sample_library sample_file_def junsigned_def)
  moreover have "ParsePool ?J (JObject [(''username'', JText ''chat''), (''database'', JText ''chat''),
      (''pool'', JObject [(''max_connections'', JInt 8)])]) default_DbPoolConfig =
      Inr (default_DbPoolConfig\<lparr>pc_max_connections := 8\<rparr>)"
    by (simp add: ParsePool_def config_readers sample_library junsigned_def size_max_def default_DbPoolConfig_def)
  then have "ParseMysql ?J sample_file (default_DbConfig, default_DbPoolConfig) =
      Inr (default_DbConfig\<lparr>dbc_username := ''chat'', dbc_database := ''chat''\<rparr>, default_DbPoolConfig\<lparr>pc_max_connections := 8\<rparr>)"
    by (simp add: ParseMysql_def config_readers sample_library sample_file_def default_DbConfig_def)
  moreover have "ParseRedis ?J sample_file default_RedisConfig = Inr (default_RedisConfig\<lparr>rc_enabled := True\<rparr>)"
    by (simp add: ParseRedis_def config_readers sample_library sample_file_def default_RedisConfig_def)
  moreover have "ParseLog ?J sample_file l = Inr l" "ParseTimeout ?J sample_file t = Inr t"
    "ParseConnection ?J sample_file k = Inr k" "ParseHeartbeat ?J sample_file b = Inr b" for l t k b
    by (simp_all add: ParseLog_def ParseTimeout_def ParseConnection_def ParseHeartbeat_def in_section_def sample_library
        sample_file_def)
  ultimately show ?thesis
    by (simp add: parse_sections_def into_def default_ServerConfig_def sample_config_def)
qed

lemma sample_environment_applied:
  "ApplyEnvOverrides sample_environment
     (sample_config\<lparr>cfg_mysql := default_DbConfig\<lparr>dbc_username := ''chat'', dbc_database := ''chat''\<rparr>,
       cfg_heartbeat := \<lparr>hc_timeout_ms = 90000\<rparr>\<rparr>) = Inr sample_config"
  by (simp add: ApplyEnvOverrides_def env_steps_def env_string_def env_parsed_def apply_unsigned_def env_redis_def
      sample_environment_def sample_config_def default_DbConfig_def StrictParseUInt_def uint32_max_def is_digit_def byte_def
      of_char_def digits_value_def digit_val_def)

lemma sample_config_validates: "Validate sample_inet sample_config = []"
  by (simp add: Validate_none mysql_checks_def redis_checks_def log_checks_def sample_inet_def sample_config_def
      default_ServerConfig_def default_DbConfig_def default_DbPoolConfig_def default_RedisConfig_def size_max_def
      kBytesPerMegabyte_def)

lemma sample_load:
  "Load (sample_config_json [''{...}'' \<mapsto> sample_file]) sample_inet sample_environment (\<lambda>_. Content ''{...}'') [] =
   Some (Inr sample_config)"
proof -
  have "\<not> js_parse_overflows (sample_config_json [''{...}'' \<mapsto> sample_file]) ''{...}''"
    "js_parse (sample_config_json [''{...}'' \<mapsto> sample_file]) ''{...}'' = Inr sample_file"
    "js_is_object (sample_config_json [''{...}'' \<mapsto> sample_file]) sample_file"
    by (simp_all add: sample_library) (simp add: sample_file_def)
  then show ?thesis
    by (simp add: Load_def ParseAndValidate_def ReadFile_def run_steps_append sample_sections sample_environment_applied
        validated_def sample_config_validates)
qed


text \<open>C34. The configuration written to the log does not depend on the passwords: two configurations that differ
  only in the passwords of the database and of Redis have the same text, for every JSON library.\<close>

theorem safe_string_hides_passwords:
  "ToSafeString J (c\<lparr>cfg_mysql := (cfg_mysql c)\<lparr>dbc_password := p\<rparr>, cfg_redis := (cfg_redis c)\<lparr>rc_password := q\<rparr>\<rparr>) =
   ToSafeString J c"
  by (simp add: ToSafeString_def safe_value_def Let_def)

end
