(* ===== verification/LogSinks.thy ===== *)
theory LogSinks
  imports PacketCodec Effects "HOL-Library.Sublist"
begin

text \<open>
  Formatting and output of the log, the first half of \<^verbatim>\<open>src/src/common/logger.cc\<close>: levels, the escaping
  and layout of a line, the console sink and the rolling file sink over a small file system.
\<close>

section \<open>Levels and options\<close>

datatype LogLevel = kDebug | kInfo | kWarn | kError

fun level_number :: "LogLevel \<Rightarrow> nat" where
  "level_number kDebug = 0"
| "level_number kInfo = 1"
| "level_number kWarn = 2"
| "level_number kError = 3"

fun LogLevelToString :: "LogLevel \<Rightarrow> string" where
  "LogLevelToString kDebug = ''DEBUG''"
| "LogLevelToString kInfo = ''INFO''"
| "LogLevelToString kWarn = ''WARN''"
| "LogLevelToString kError = ''ERROR''"

definition ParseLogLevel :: "string \<Rightarrow> LogLevel option" where
  "ParseLogLevel value =
     (if value = ''debug'' then Some kDebug
      else if value = ''info'' then Some kInfo
      else if value = ''warn'' then Some kWarn
      else if value = ''error'' then Some kError
      else None)"

definition IsLowPriority :: "LogLevel \<Rightarrow> bool" where
  "IsLowPriority level \<longleftrightarrow> level = kDebug \<or> level = kInfo"

record LoggerOptions =
  opt_min_level :: LogLevel
  opt_console :: bool
  opt_file_path :: string
  opt_max_file_size_bytes :: nat
  opt_max_files :: nat
  opt_async :: bool
  opt_queue_capacity :: nat

definition default_LoggerOptions :: LoggerOptions where
  "default_LoggerOptions =
     \<lparr>opt_min_level = kInfo, opt_console = True, opt_file_path = [], opt_max_file_size_bytes = 100 * 1024 * 1024,
      opt_max_files = 5, opt_async = True, opt_queue_capacity = 8192\<rparr>"

definition ValidateOptions :: "LoggerOptions \<Rightarrow> bool" where
  "ValidateOptions options \<longleftrightarrow>
     opt_max_file_size_bytes options > 0 \<and> opt_max_files options > 0 \<and> opt_queue_capacity options > 0"

section \<open>Lines\<close>

definition EscapeLine :: "string \<Rightarrow> string" where
  "EscapeLine value =
     concat (map (\<lambda>ch. if ch = carriage_return then [CHR 0x5C, CHR ''r'']
                       else if ch = newline then [CHR 0x5C, CHR ''n''] else [ch]) value)"

text \<open>What a line needs from the system: the time since the epoch in milliseconds, the broken-down
  time in UTC and the id of the thread.\<close>

record log_stamp =
  ls_millis :: nat
  ls_year :: nat
  ls_month :: nat
  ls_day :: nat
  ls_hour :: nat
  ls_minute :: nat
  ls_second :: nat
  ls_tid :: int

definition padded :: "nat \<Rightarrow> nat \<Rightarrow> string" where
  "padded width n = replicate (width - length (nat_to_string n)) (CHR ''0'') @ nat_to_string n"

definition put_time :: "log_stamp \<Rightarrow> string" where
  "put_time t =
     nat_to_string (ls_year t) @ ''-'' @ padded 2 (ls_month t) @ ''-'' @ padded 2 (ls_day t) @ ''T'' @
     padded 2 (ls_hour t) @ '':'' @ padded 2 (ls_minute t) @ '':'' @ padded 2 (ls_second t)"

definition FormatLine :: "log_stamp \<Rightarrow> LogLevel \<Rightarrow> string \<Rightarrow> string \<Rightarrow> string" where
  "FormatLine t level module message =
     ''['' @ put_time t @ ''.'' @ padded 3 (ls_millis t mod 1000) @ ''Z] [tid='' @ int_to_string (ls_tid t) @ ''] ['' @
     LogLevelToString level @ ''] ['' @ EscapeLine module @ ''] '' @ EscapeLine message"

lemma EscapeLine_one_line: "newline \<notin> set (EscapeLine s)" "carriage_return \<notin> set (EscapeLine s)"
  by (auto simp: EscapeLine_def newline_def carriage_return_def split: if_splits)

lemma padded_digits: "c \<in> set (padded w n) \<Longrightarrow> is_digit c"
proof -
  have "is_digit (CHR ''0'')" by (simp add: is_digit_def byte_def of_char_def)
  then show "c \<in> set (padded w n) \<Longrightarrow> is_digit c"
    using nat_to_string_digits [of n] by (auto simp: padded_def)
qed

lemma FormatLine_one_line:
  assumes "c = newline \<or> c = carriage_return"
  shows "c \<notin> set (FormatLine t level module message)"
proof -
  have "\<not> is_digit c" using assms by (auto simp: is_digit_def byte_def of_char_def newline_def carriage_return_def)
  then have "c \<notin> set (padded w n)" "c \<notin> set (nat_to_string n)" for w n
    using padded_digits nat_to_string_digits by blast+
  moreover have "c \<notin> set (int_to_string i)" for i
    by (rule int_to_string_no_char) (use assms in \<open>auto simp: is_digit_def byte_def of_char_def newline_def carriage_return_def\<close>)
  moreover have "c \<notin> set (LogLevelToString level)"
    using assms by (cases level) (auto simp: newline_def carriage_return_def)
  ultimately show ?thesis
    using assms EscapeLine_one_line by (auto simp: FormatLine_def put_time_def newline_def carriage_return_def)
qed

section \<open>Files\<close>

text \<open>
  Regular files with their contents, and the lines on standard error. Every call of the system takes
  the next entry of the schedule of faults: \<^term>\<open>None\<close>, or no entry, lets it succeed; \<^verbatim>\<open>Some n\<close> makes it
  fail, a write after \<^verbatim>\<open>n\<close> bytes. The contents of a file include what its stream still buffers.
\<close>

record log_world =
  lw_files :: "string \<rightharpoonup> string"
  lw_stderr :: "string list"
  lw_faults :: "nat option list"

definition sys_fault :: "(log_world, nat option) state" where
  "sys_fault = State (\<lambda>w. case lw_faults w of [] \<Rightarrow> (None, w) | f # fs \<Rightarrow> (f, w\<lparr>lw_faults := fs\<rparr>))"

text \<open>\<^verbatim>\<open>exists\<close> reports the answer and the error; a missing file is no error.\<close>

definition fs_exists :: "string \<Rightarrow> (log_world, bool \<times> bool) state" where
  "fs_exists path = do {
     fault \<leftarrow> sys_fault;
     files \<leftarrow> gets lw_files;
     ret (if fault = None then (files path \<noteq> None, False) else (False, True))
   }"

definition fs_remove :: "string \<Rightarrow> (log_world, unit) state" where
  "fs_remove path = do {
     fault \<leftarrow> sys_fault;
     if fault = None then modify (\<lambda>w. w\<lparr>lw_files := (lw_files w)(path := None)\<rparr>) else ret ()
   }"

text \<open>\<^verbatim>\<open>rename\<close> replaces the destination; the result tells success.\<close>

definition fs_rename :: "string \<Rightarrow> string \<Rightarrow> (log_world, bool) state" where
  "fs_rename source dest = do {
     fault \<leftarrow> sys_fault;
     files \<leftarrow> gets lw_files;
     case files source of
       Some contents \<Rightarrow>
         if fault = None
         then do { modify (\<lambda>w. w\<lparr>lw_files := (lw_files w)(source := None, dest \<mapsto> contents)\<rparr>); ret True }
         else ret False
     | None \<Rightarrow> ret False
   }"

section \<open>The sinks\<close>

text \<open>A line on standard error ends at its first null character, because it is printed with \<^verbatim>\<open>%s\<close>.\<close>

definition to_stderr :: "string \<Rightarrow> (log_world, unit) state" where
  "to_stderr line = modify (\<lambda>w. w\<lparr>lw_stderr := lw_stderr w @ [takeWhile (\<lambda>c. c \<noteq> CHR 0x00) line]\<rparr>)"

definition EmergencyWrite :: "string \<Rightarrow> (log_world, unit) state" where
  "EmergencyWrite message = to_stderr (''[Logger] '' @ takeWhile (\<lambda>c. c \<noteq> CHR 0x00) message)"

definition console_Write :: "string \<Rightarrow> (log_world, bool) state" where
  "console_Write line = do {
     fault \<leftarrow> sys_fault;
     if fault \<noteq> None then ret False
     else do {
       _ \<leftarrow> to_stderr line;
       fault2 \<leftarrow> sys_fault;
       ret (fault2 = None)
     }
   }"

text \<open>The file sink: its stream is open or not, and has failed or not.\<close>

record RollingFileSink =
  rf_path :: string
  rf_max_file_size_bytes :: nat
  rf_max_files :: nat
  rf_current_size :: nat
  rf_open :: bool
  rf_good :: bool

definition RollingFileSink_new :: "string \<Rightarrow> nat \<Rightarrow> nat \<Rightarrow> RollingFileSink" where
  "RollingFileSink_new path max_file_size_bytes max_files =
     \<lparr>rf_path = path, rf_max_file_size_bytes = max_file_size_bytes, rf_max_files = max_files, rf_current_size = 0,
      rf_open = False, rf_good = True\<rparr>"

text \<open>Opening for appending keeps the contents, opening for truncation drops them. A successful open
  clears the state of the stream.\<close>

definition sink_Open :: "bool \<Rightarrow> RollingFileSink \<Rightarrow> (log_world, bool \<times> RollingFileSink) state" where
  "sink_Open trunc self = do {
     fault \<leftarrow> sys_fault;
     if fault \<noteq> None then ret (False, self\<lparr>rf_open := False, rf_good := False\<rparr>)
     else do {
       _ \<leftarrow> modify (\<lambda>w. w\<lparr>lw_files := (lw_files w)(rf_path self \<mapsto>
              (if trunc then [] else case lw_files w (rf_path self) of None \<Rightarrow> [] | Some contents \<Rightarrow> contents))\<rparr>);
       ret (True, self\<lparr>rf_open := True, rf_good := True\<rparr>)
     }
   }"

definition sink_Initialize :: "RollingFileSink \<Rightarrow> (log_world, bool \<times> RollingFileSink) state" where
  "sink_Initialize self = do {
     parent \<leftarrow> (if CHR ''/'' \<in> set (rf_path self) then sys_fault else ret None);
     if parent \<noteq> None then ret (False, self)
     else do {
       (present, _) \<leftarrow> fs_exists (rf_path self);
       if \<not> present then sink_Open False (self\<lparr>rf_current_size := 0\<rparr>)
       else do {
         fault \<leftarrow> sys_fault;
         files \<leftarrow> gets lw_files;
         case files (rf_path self) of
           Some contents \<Rightarrow>
             if fault \<noteq> None then ret (False, self)
             else sink_Open False (self\<lparr>rf_current_size := length contents\<rparr>)
         | None \<Rightarrow> ret (False, self)
       }
     }
   }"

definition numbered :: "string \<Rightarrow> nat \<Rightarrow> string" where
  "numbered path index = path @ ''.'' @ nat_to_string index"

text \<open>The loop over the older files, from \<^verbatim>\<open>index\<close> down to 2.\<close>

fun roll_older :: "string \<Rightarrow> nat \<Rightarrow> (log_world, bool) state" where
  "roll_older path index =
     (if index \<le> 1 then ret True
      else do {
        (present, err) \<leftarrow> fs_exists (numbered path (index - 1));
        if \<not> present then (if err then ret False else roll_older path (index - 1))
        else do {
          renamed \<leftarrow> fs_rename (numbered path (index - 1)) (numbered path index);
          if \<not> renamed then ret False else roll_older path (index - 1)
        }
      })"

declare roll_older.simps [simp del]

definition Roll :: "RollingFileSink \<Rightarrow> (log_world, bool \<times> RollingFileSink) state" where
  "Roll self0 =
     (let self = self0\<lparr>rf_open := False\<rparr>; path = rf_path self
      in if rf_max_files self = 1 then sink_Open True (self\<lparr>rf_current_size := 0\<rparr>)
         else do {
           _ \<leftarrow> fs_remove (numbered path (rf_max_files self - 1));
           shifted \<leftarrow> roll_older path (rf_max_files self - 1);
           if \<not> shifted then ret (False, self)
           else do {
             (present, _) \<leftarrow> fs_exists path;
             renamed \<leftarrow> (if present then fs_rename path (numbered path 1) else ret True);
             if \<not> renamed then ret (False, self)
             else sink_Open True (self\<lparr>rf_current_size := 0\<rparr>)
           }
         })"

definition stream_write :: "string \<Rightarrow> RollingFileSink \<Rightarrow> (log_world, bool \<times> RollingFileSink) state" where
  "stream_write bytes self =
     (if \<not> rf_open self \<or> \<not> rf_good self then ret (False, self\<lparr>rf_good := False\<rparr>)
      else do {
        fault \<leftarrow> sys_fault;
        _ \<leftarrow> modify (\<lambda>w. w\<lparr>lw_files := (lw_files w)(rf_path self \<mapsto>
               (case lw_files w (rf_path self) of None \<Rightarrow> [] | Some contents \<Rightarrow> contents) @
               (case fault of None \<Rightarrow> bytes | Some n \<Rightarrow> take n bytes))\<rparr>);
        ret (fault = None, self\<lparr>rf_good := (fault = None)\<rparr>)
      })"

definition file_Write :: "string \<Rightarrow> RollingFileSink \<Rightarrow> (log_world, bool \<times> RollingFileSink) state" where
  "file_Write line self =
     (let write_size = length line + 1
      in do {
        (ready, self1) \<leftarrow>
          (if rf_current_size self > 0 \<and>
              write_size > rf_max_file_size_bytes self - min (rf_current_size self) (rf_max_file_size_bytes self)
           then Roll self else ret (True, self));
        if \<not> ready then ret (False, self1)
        else do {
          (written, self2) \<leftarrow> stream_write (line @ [newline]) self1;
          ret (if written then (True, self2\<lparr>rf_current_size := rf_current_size self2 + write_size\<rparr>) else (False, self2))
        }
      })"

definition file_Flush :: "RollingFileSink \<Rightarrow> (log_world, RollingFileSink) state" where
  "file_Flush self = do {
     fault \<leftarrow> sys_fault;
     ret (if fault = None then self else self\<lparr>rf_good := False\<rparr>)
   }"

datatype LogSink = ConsoleSink | FileSink RollingFileSink

fun sink_Write :: "string \<Rightarrow> LogSink \<Rightarrow> (log_world, bool \<times> LogSink) state" where
  "sink_Write line ConsoleSink = do { done \<leftarrow> console_Write line; ret (done, ConsoleSink) }"
| "sink_Write line (FileSink f) = do { (done, f') \<leftarrow> file_Write line f; ret (done, FileSink f') }"

fun sink_Flush :: "LogSink \<Rightarrow> (log_world, LogSink) state" where
  "sink_Flush ConsoleSink = do { _ \<leftarrow> sys_fault; ret ConsoleSink }"
| "sink_Flush (FileSink f) = do { f' \<leftarrow> file_Flush f; ret (FileSink f') }"

fun WriteToSinks :: "string \<Rightarrow> LogSink list \<Rightarrow> (log_world, LogSink list) state" where
  "WriteToSinks line [] = ret []"
| "WriteToSinks line (sink # sinks) = do {
     (written, sink') \<leftarrow> sink_Write line sink;
     _ \<leftarrow> (if written then ret () else EmergencyWrite ''log sink write failed'');
     sinks' \<leftarrow> WriteToSinks line sinks;
     ret (sink' # sinks')
   }"

fun FlushSinks :: "LogSink list \<Rightarrow> (log_world, LogSink list) state" where
  "FlushSinks [] = ret []"
| "FlushSinks (sink # sinks) = do {
     sink' \<leftarrow> sink_Flush sink;
     sinks' \<leftarrow> FlushSinks sinks;
     ret (sink' # sinks')
   }"

end
