(* ===== verification/Logger.thy ===== *)
theory Logger
  imports LogSinks
begin

text \<open>
  The logger, the second half of \<^verbatim>\<open>src/src/common/logger.cc\<close>: the bounded queue between the threads that
  log and the worker that writes, with its priorities, flush barriers and shutdown. Every section under
  \<^verbatim>\<open>queue_mutex_\<close> is one step; a step relation interleaves them.
\<close>

section \<open>State\<close>

text \<open>A flush barrier is named by a number.\<close>

datatype QueueItem = LogItem LogLevel string | FlushItem nat

text \<open>
  Where the worker is: not started or joined, waiting for the queue, busy with what it took (the number
  of dropped lines, the item, whether it is to stop), or ended but not yet joined.
\<close>

datatype log_worker =
  NoThread
  | WorkerWaits
  | WorkerHolds nat "QueueItem option" bool
  | WorkerEnded

record Logger =
  log_min_level :: LogLevel
  log_accepting :: bool
  log_async_mode :: bool
  log_sinks :: "LogSink list"
  log_queue :: "QueueItem list"
  log_queued_logs :: nat
  log_queue_capacity :: nat
  log_dropped_logs :: nat
  log_stop_requested :: bool
  log_worker_running :: bool
  log_thread :: log_worker
  log_next_barrier :: nat
  log_done :: "nat set"

definition Logger_new :: Logger where
  "Logger_new =
     \<lparr>log_min_level = kInfo, log_accepting = True, log_async_mode = False, log_sinks = [ConsoleSink], log_queue = [],
      log_queued_logs = 0, log_queue_capacity = 8192, log_dropped_logs = 0, log_stop_requested = False,
      log_worker_running = False, log_thread = NoThread, log_next_barrier = 0, log_done = {}\<rparr>"

definition ShouldLog :: "LogLevel \<Rightarrow> Logger \<Rightarrow> bool" where
  "ShouldLog level self \<longleftrightarrow> log_accepting self \<and> level_number level \<ge> level_number (log_min_level self)"

section \<open>Writing\<close>

fun is_log :: "QueueItem \<Rightarrow> bool" where
  "is_log (LogItem level line) = True"
| "is_log (FlushItem b) = False"

fun low_priority :: "QueueItem \<Rightarrow> bool" where
  "low_priority (LogItem level line) = IsLowPriority level"
| "low_priority (FlushItem b) = False"

text \<open>\<^verbatim>\<open>erase\<close> of the first item that satisfies a condition.\<close>

fun erase_first :: "('a \<Rightarrow> bool) \<Rightarrow> 'a list \<Rightarrow> 'a list" where
  "erase_first p [] = []"
| "erase_first p (x # xs) = (if p x then xs else x # erase_first p xs)"

text \<open>The section of \<^verbatim>\<open>Write\<close> under the lock.\<close>

definition push_log :: "LogLevel \<Rightarrow> string \<Rightarrow> Logger \<Rightarrow> Logger" where
  "push_log level line self =
     self\<lparr>log_queue := log_queue self @ [LogItem level line], log_queued_logs := log_queued_logs self + 1\<rparr>"

definition enqueue_log :: "LogLevel \<Rightarrow> string \<Rightarrow> Logger \<Rightarrow> Logger" where
  "enqueue_log level line self =
     (if \<not> log_accepting self \<or> log_stop_requested self then self
      else if log_queued_logs self \<ge> log_queue_capacity self
      then if IsLowPriority level \<or> \<not> list_ex low_priority (log_queue self)
           then self\<lparr>log_dropped_logs := log_dropped_logs self + 1\<rparr>
           else push_log level line
                  (self\<lparr>log_queue := erase_first low_priority (log_queue self),
                        log_queued_logs := log_queued_logs self - 1,
                        log_dropped_logs := log_dropped_logs self + 1\<rparr>)
      else push_log level line self)"


definition with_sinks :: "(LogSink list \<Rightarrow> (log_world, LogSink list) state) \<Rightarrow> Logger \<times> log_world \<Rightarrow> Logger \<times> log_world" where
  "with_sinks f = (\<lambda>(self, w). case run_state (f (log_sinks self)) w of (sinks, w') \<Rightarrow> (self\<lparr>log_sinks := sinks\<rparr>, w'))"

definition Write :: "log_stamp \<Rightarrow> LogLevel \<Rightarrow> string \<Rightarrow> string \<Rightarrow> Logger \<times> log_world \<Rightarrow> Logger \<times> log_world" where
  "Write stamp level module message = (\<lambda>(self, w).
     if \<not> ShouldLog level self \<or> \<not> log_accepting self then (self, w)
     else let line = FormatLine stamp level module message
          in if \<not> log_async_mode self then with_sinks (WriteToSinks line) (self, w)
             else (enqueue_log level line self, w))"

text \<open>\<^verbatim>\<open>LogMessage\<close> collects a message and hands it to the logger when it is destroyed; the macros create
  one only if the level is logged.\<close>

definition log_message :: "log_stamp \<Rightarrow> LogLevel \<Rightarrow> string \<Rightarrow> string \<Rightarrow> Logger \<times> log_world \<Rightarrow> Logger \<times> log_world" where
  "log_message stamp level module message n =
     (if \<not> ShouldLog level (fst n) then n else Write stamp level module message n)"

section \<open>Flushing\<close>

text \<open>\<^verbatim>\<open>Flush\<close> up to its wait: the barrier it waits for, if any.\<close>

definition start_flush :: "Logger \<times> log_world \<Rightarrow> nat option \<times> Logger \<times> log_world" where
  "start_flush = (\<lambda>(self, w).
     if \<not> log_async_mode self \<or> \<not> log_worker_running self then (None, with_sinks FlushSinks (self, w))
     else (Some (log_next_barrier self),
           self\<lparr>log_queue := log_queue self @ [FlushItem (log_next_barrier self)],
                log_next_barrier := log_next_barrier self + 1\<rparr>, w))"

section \<open>The worker\<close>

text \<open>The section of the loop under the lock, entered when the condition of the wait holds.\<close>

definition worker_awake :: "Logger \<Rightarrow> bool" where
  "worker_awake self \<longleftrightarrow> log_stop_requested self \<or> log_queue self \<noteq> [] \<or> log_dropped_logs self > 0"

definition worker_take :: "Logger \<Rightarrow> Logger" where
  "worker_take self =
     (case log_queue self of
        item # queue \<Rightarrow>
          self\<lparr>log_dropped_logs := 0, log_queue := queue,
               log_queued_logs := (if is_log item then log_queued_logs self - 1 else log_queued_logs self),
               log_thread := WorkerHolds (log_dropped_logs self) (Some item) False\<rparr>
      | [] \<Rightarrow>
          if log_stop_requested self
          then self\<lparr>log_dropped_logs := 0, log_worker_running := False,
                    log_thread := WorkerHolds (log_dropped_logs self) None True\<rparr>
          else self\<lparr>log_dropped_logs := 0, log_thread := WorkerHolds (log_dropped_logs self) None False\<rparr>)"

definition dropped_text :: "nat \<Rightarrow> string" where
  "dropped_text dropped = ''dropped '' @ nat_to_string dropped @ '' log messages because the async queue was full''"

definition WriteDroppedSummary :: "log_stamp \<Rightarrow> nat \<Rightarrow> Logger \<times> log_world \<Rightarrow> Logger \<times> log_world" where
  "WriteDroppedSummary stamp dropped = with_sinks (WriteToSinks (FormatLine stamp kWarn ''Logger'' (dropped_text dropped)))"

text \<open>The rest of the iteration, and what follows the loop.\<close>

definition worker_finish :: "log_stamp \<Rightarrow> Logger \<times> log_world \<Rightarrow> Logger \<times> log_world" where
  "worker_finish stamp = (\<lambda>(self, w).
     case log_thread self of
       WorkerHolds dropped item should_stop \<Rightarrow>
         (case (if dropped > 0 then WriteDroppedSummary stamp dropped (self, w) else (self, w)) of
            (self1, w1) \<Rightarrow>
              if should_stop
              then (case with_sinks FlushSinks (self1, w1) of (self2, w2) \<Rightarrow> (self2\<lparr>log_thread := WorkerEnded\<rparr>, w2))
              else (case item of
                      None \<Rightarrow> (self1\<lparr>log_thread := WorkerWaits\<rparr>, w1)
                    | Some (LogItem level line) \<Rightarrow>
                        (case with_sinks (WriteToSinks line) (self1, w1) of
                           (self2, w2) \<Rightarrow> (self2\<lparr>log_thread := WorkerWaits\<rparr>, w2))
                    | Some (FlushItem b) \<Rightarrow>
                        (case with_sinks FlushSinks (self1, w1) of
                           (self2, w2) \<Rightarrow> (self2\<lparr>log_thread := WorkerWaits, log_done := insert b (log_done self2)\<rparr>, w2))))
     | _ \<Rightarrow> (self, w))"

section \<open>Start and shutdown\<close>

text \<open>\<^verbatim>\<open>Shutdown\<close> before and after it waits for the worker.\<close>

definition request_stop :: "Logger \<Rightarrow> Logger" where
  "request_stop self =
     self\<lparr>log_accepting := False, log_stop_requested := log_stop_requested self \<or> log_worker_running self\<rparr>"

definition joined :: "Logger \<Rightarrow> bool" where
  "joined self \<longleftrightarrow> log_thread self = NoThread \<or> log_thread self = WorkerEnded"

definition end_shutdown :: "Logger \<times> log_world \<Rightarrow> Logger \<times> log_world" where
  "end_shutdown = (\<lambda>(self, w).
     with_sinks FlushSinks (self\<lparr>log_thread := NoThread, log_async_mode := False\<rparr>, w))"

text \<open>\<^verbatim>\<open>InitializeWithSinks\<close> after its \<^verbatim>\<open>Shutdown\<close>; \<^verbatim>\<open>started\<close> tells whether the thread could be created, and
  \<^verbatim>\<open>what\<close> is the text of the exception otherwise, if it has one.\<close>

definition install_sinks ::
  "LoggerOptions \<Rightarrow> LogSink list \<Rightarrow> bool \<Rightarrow> string option \<Rightarrow> Logger \<times> log_world \<Rightarrow> bool \<times> Logger \<times> log_world" where
  "install_sinks options sinks started what = (\<lambda>(self, w).
     let self1 = self\<lparr>log_sinks := sinks, log_queue := [], log_queued_logs := 0, log_dropped_logs := 0,
                      log_queue_capacity := opt_queue_capacity options, log_stop_requested := False,
                      log_worker_running := False, log_min_level := opt_min_level options,
                      log_async_mode := opt_async options, log_accepting := True\<rparr>
     in if \<not> opt_async options then (True, self1, w)
        else if started then (True, self1\<lparr>log_worker_running := True, log_thread := WorkerWaits\<rparr>, w)
        else (False, self1\<lparr>log_worker_running := False, log_stop_requested := True, log_accepting := False,
                           log_async_mode := False\<rparr>,
              snd (run_state (EmergencyWrite
                (''failed to start logger thread'' @ (case what of None \<Rightarrow> [] | Some s \<Rightarrow> '': '' @ s))) w)))"

text \<open>The sinks the options ask for; the second component is the new world.\<close>

definition make_sinks :: "LoggerOptions \<Rightarrow> (log_world, LogSink list option) state" where
  "make_sinks options =
     (let console = (if opt_console options then [ConsoleSink] else [])
      in if opt_file_path options = [] then ret (Some console)
         else do {
           (opened, f) \<leftarrow> sink_Initialize
             (RollingFileSink_new (opt_file_path options) (opt_max_file_size_bytes options) (opt_max_files options));
           if opened then ret (Some (console @ [FileSink f]))
           else do {
             _ \<leftarrow> EmergencyWrite (''failed to initialize rolling file sink: '' @ opt_file_path options);
             ret None
           }
         })"

text \<open>\<^verbatim>\<open>Initialize\<close> for a logger whose worker is not running, so that its \<^verbatim>\<open>Shutdown\<close> does not wait.\<close>

definition Initialize ::
  "LoggerOptions \<Rightarrow> bool \<Rightarrow> string option \<Rightarrow> Logger \<times> log_world \<Rightarrow> bool \<times> Logger \<times> log_world" where
  "Initialize options started what = (\<lambda>(self, w).
     if \<not> ValidateOptions options \<or> (\<not> opt_console options \<and> opt_file_path options = []) then (False, self, w)
     else case run_state (make_sinks options) w of
       (None, w1) \<Rightarrow> (False, self, w1)
     | (Some sinks, w1) \<Rightarrow> install_sinks options sinks started what (end_shutdown (request_stop self, w1)))"

text \<open>The overload that is given the sinks, some of which may be null.\<close>

definition Initialize_sinks ::
  "LoggerOptions \<Rightarrow> LogSink option list \<Rightarrow> bool \<Rightarrow> string option \<Rightarrow> Logger \<times> log_world \<Rightarrow> bool \<times> Logger \<times> log_world" where
  "Initialize_sinks options sinks started what = (\<lambda>(self, w).
     if \<not> ValidateOptions options \<or> sinks = [] \<or> list_ex (\<lambda>s. s = None) sinks then (False, self, w)
     else install_sinks options (map the sinks) started what (end_shutdown (request_stop self, w)))"

end
