(* ===== verification/RollingLog.thy ===== *)
theory RollingLog
  imports LogSinks
begin

text \<open>
  What the rolling file sink keeps: the files, from the oldest to the current one, always hold the
  newest part of everything that was logged, each within its size, and never more than the configured
  number of them.
\<close>

section \<open>Generations\<close>

text \<open>The current file is generation 0, \<^verbatim>\<open>path.i\<close> generation \<^verbatim>\<open>i\<close>.\<close>

definition generation :: "string \<Rightarrow> nat \<Rightarrow> string" where
  "generation path i = (if i = 0 then path else numbered path i)"

lemma generation_inject [simp]: "generation path i = generation path j \<longleftrightarrow> i = j"
  by (auto simp: generation_def numbered_def)

lemma numbered_generation: "0 < i \<Longrightarrow> numbered path i = generation path i"
  by (simp add: generation_def)

definition calm_log :: "log_world \<Rightarrow> bool" where
  "calm_log w \<longleftrightarrow> lw_faults w = []"

definition contents :: "log_world \<Rightarrow> string \<Rightarrow> nat \<Rightarrow> string option" where
  "contents w path i = lw_files w (generation path i)"

lemma sys_calm: "calm_log w \<Longrightarrow> run_state sys_fault w = (None, w)"
  by (simp add: sys_fault_def calm_log_def)

text \<open>The files after the older ones up to an index were moved, in terms of the files before.\<close>

definition moved_up :: "nat \<Rightarrow> (nat \<Rightarrow> string option) \<Rightarrow> nat \<Rightarrow> string option" where
  "moved_up index c i =
     (if i = 0 \<or> index < i then c i else if i = 1 then (if index \<le> 1 then c 1 else None) else c (i - 1))"

lemma moved_up_absent: "0 < k \<Longrightarrow> c k = None \<Longrightarrow> c (Suc k) = None \<Longrightarrow> moved_up k c i = moved_up (Suc k) c i"
  by (cases "i = Suc k"; cases "k = 1") (auto simp: moved_up_def not_less le_Suc_eq)

lemma moved_up_present: "0 < k \<Longrightarrow> c k = Some old \<Longrightarrow> moved_up k (c(k := None, Suc k \<mapsto> old)) i = moved_up (Suc k) c i"
  by (cases "i = Suc k"; cases "k = 1") (auto simp: moved_up_def not_less le_Suc_eq)

lemma roll_older_calm:
  assumes "calm_log w" "contents w path index = None"
  shows "\<exists>w'. run_state (roll_older path index) w = (True, w') \<and> calm_log w' \<and>
    (\<forall>i. contents w' path i = moved_up index (contents w path) i)"
  using assms
proof (induction index arbitrary: w)
  case 0
  then show ?case by (simp add: roll_older.simps moved_up_def)
next
  case (Suc k)
  show ?case
  proof (cases "k = 0")
    case True
    then show ?thesis using Suc.prems by (auto simp: roll_older.simps moved_up_def not_less le_Suc_eq)
  next
    case False
    let ?src = "generation path k" and ?dst = "generation path (Suc k)"
    have names: "numbered path k = ?src" "numbered path (Suc k) = ?dst" using False by (simp_all add: numbered_generation)
    show ?thesis
    proof (cases "lw_files w ?src")
      case None
      then have none: "contents w path k = None" by (simp add: contents_def)
      have "run_state (roll_older path (Suc k)) w = run_state (roll_older path k) w"
        by (subst roll_older.simps) (use False None names Suc.prems in \<open>simp add: fs_exists_def sys_calm\<close>)
      then show ?thesis using Suc.IH [OF Suc.prems(1) none] moved_up_absent [OF _ none Suc.prems(2)] False by simp
    next
      case (Some old)
      define w1 where "w1 = w\<lparr>lw_files := (lw_files w)(?src := None, ?dst \<mapsto> old)\<rparr>"
      have w1: "calm_log w1" "contents w1 path k = None" "contents w1 path = (contents w path)(k := None, Suc k \<mapsto> old)"
        using Suc.prems by (auto simp: w1_def calm_log_def contents_def)
      have "run_state (roll_older path (Suc k)) w = run_state (roll_older path k) w1"
        by (subst roll_older.simps)
          (use False Some names Suc.prems in \<open>simp add: fs_exists_def fs_rename_def sys_calm w1_def\<close>)
      then show ?thesis
        using Suc.IH [OF w1(1,2), unfolded w1(3)] moved_up_present [of k "contents w path" old] False Some
        by (simp only: contents_def [of w path k])
    qed
  qed
qed

lemma sink_Open_calm:
  assumes "calm_log w"
  shows "\<exists>w'. run_state (sink_Open trunc self) w = ((True, self\<lparr>rf_open := True, rf_good := True\<rparr>), w') \<and> calm_log w' \<and>
    (\<forall>i. contents w' (rf_path self) i =
       (if i = 0 then Some (if trunc then [] else case contents w (rf_path self) 0 of None \<Rightarrow> [] | Some t \<Rightarrow> t)
        else contents w (rf_path self) i))"
  using assms by (auto simp: sink_Open_def sys_calm contents_def calm_log_def generation_def numbered_def split: option.split)

lemma Roll_calm:
  assumes "calm_log w" "0 < rf_max_files self"
  shows "\<exists>w'. run_state (Roll self) w = ((True, self\<lparr>rf_current_size := 0, rf_open := True, rf_good := True\<rparr>), w') \<and> calm_log w' \<and>
    (\<forall>i. contents w' (rf_path self) i =
       (if i = 0 then Some [] else if i < rf_max_files self then contents w (rf_path self) (i - 1)
        else contents w (rf_path self) i))"
proof (cases "rf_max_files self = 1")
  case True
  then show ?thesis
    using sink_Open_calm [OF assms(1), of True "self\<lparr>rf_open := False, rf_current_size := 0\<rparr>"]
    by (auto simp: Roll_def Let_def)
next
  case False
  let ?path = "rf_path self" and ?n = "rf_max_files self - 1"
  have n: "0 < ?n" using False assms(2) by simp
  define w1 where "w1 = w\<lparr>lw_files := (lw_files w)(generation ?path ?n := None)\<rparr>"
  have w1: "calm_log w1" "contents w1 ?path ?n = None" "\<And>i. contents w1 ?path i = (if i = ?n then None else contents w ?path i)"
    using assms(1) by (auto simp: w1_def calm_log_def contents_def)
  have remove: "run_state (fs_remove (numbered ?path ?n)) w = ((), w1)"
    using n assms(1) by (simp add: fs_remove_def sys_calm w1_def numbered_generation)
  from roll_older_calm [OF w1(1,2)] obtain w2 where
    w2: "run_state (roll_older ?path ?n) w1 = (True, w2)" "calm_log w2"
      "\<And>i. contents w2 ?path i = (if i = 0 \<or> ?n < i then contents w1 ?path i
         else if i = 1 then (if ?n \<le> 1 then contents w1 ?path 1 else None) else contents w1 ?path (i - 1))"
    unfolding moved_up_def by blast
  define w3 where "w3 = (case contents w2 ?path 0 of None \<Rightarrow> w2
    | Some t \<Rightarrow> w2\<lparr>lw_files := (lw_files w2)(?path := None, numbered ?path 1 \<mapsto> t)\<rparr>)"
  have one: "contents w2 ?path 1 = None" using w2(3) [of 1] w1(2,3) n by (auto simp: not_less le_Suc_eq)
  have w3: "calm_log w3" using w2(2) by (simp add: w3_def calm_log_def split: option.split)
  have c3: "contents w3 ?path i = (if i = 0 then None else if i = 1 then contents w2 ?path 0 else contents w2 ?path i)" for i
    using one by (auto simp: w3_def contents_def generation_def numbered_def split: option.split)
  have "run_state (Roll self) w = run_state (sink_Open True (self\<lparr>rf_open := False, rf_current_size := 0\<rparr>)) w3"
    using False n remove w2(1,2)
    by (simp add: Roll_def Let_def fs_exists_def fs_rename_def sys_calm w3_def contents_def generation_def split: option.split)
  moreover obtain w' where
    w': "run_state (sink_Open True (self\<lparr>rf_open := False, rf_current_size := 0\<rparr>)) w3 =
        ((True, self\<lparr>rf_current_size := 0, rf_open := True, rf_good := True\<rparr>), w')" "calm_log w'"
      "\<And>i. contents w' ?path i = (if i = 0 then Some [] else contents w3 ?path i)"
    using sink_Open_calm [OF w3, of True "self\<lparr>rf_open := False, rf_current_size := 0\<rparr>"] by auto
  moreover have "contents w' ?path i =
      (if i = 0 then Some [] else if i < rf_max_files self then contents w ?path (i - 1) else contents w ?path i)" for i
    using w'(3) [of i] c3 [of i] w2(3) [of i] w2(3) [of 0] w1(3) [of 0] w1(3) [of i] w1(3) [of "i - 1"] n
    by (auto split: if_splits)
  ultimately show ?thesis by auto
qed


section \<open>The specification\<close>

text \<open>The files as a list, the current one first: a line goes to the current file unless it would exceed
  the size; then a new file begins and the oldest of more than \<^verbatim>\<open>n\<close> files is dropped.\<close>

definition ended :: "string \<Rightarrow> string" where
  "ended line = line @ [newline]"

definition log_append :: "nat \<Rightarrow> nat \<Rightarrow> string \<Rightarrow> string list \<Rightarrow> string list" where
  "log_append max_size n line files =
     (if hd files \<noteq> [] \<and> length (hd files) + length (ended line) > max_size
      then take n (ended line # files) else (hd files @ ended line) # tl files)"

definition log_files :: "nat \<Rightarrow> nat \<Rightarrow> string list \<Rightarrow> string list" where
  "log_files max_size n lines = fold (log_append max_size n) lines [Nil]"

text \<open>A file holds at most the maximal size, or a single line that is longer.\<close>

definition file_fits :: "nat \<Rightarrow> string list \<Rightarrow> string \<Rightarrow> bool" where
  "file_fits max_size lines file \<longleftrightarrow> length file \<le> max_size \<or> file \<in> ended ` set lines"

lemma log_append_shape: "0 < n \<Longrightarrow> files \<noteq> [] \<Longrightarrow> length files \<le> n \<Longrightarrow>
   log_append max_size n line files \<noteq> [] \<and> length (log_append max_size n line files) \<le> n"
  by (cases files) (auto simp: log_append_def)

lemma log_append_text:
  assumes "0 < n" "files \<noteq> []" "length files \<le> n"
  shows "suffix (concat (rev (log_append max_size n line files))) (concat (rev files) @ ended line) \<and>
    (length (log_append max_size n line files) < n \<longrightarrow>
       concat (rev (log_append max_size n line files)) = concat (rev files) @ ended line \<and> length files < n)"
proof (cases "hd files \<noteq> [] \<and> length (hd files) + length (ended line) > max_size")
  case True
  have "rev files = rev (drop (n - 1) files) @ rev (take (n - 1) files)"
    by (metis append_take_drop_id rev_append)
  then have "suffix (concat (rev (take (n - 1) files))) (concat (rev files))"
    by (metis concat_append suffixI)
  with assms True show ?thesis
    by (cases n) (auto simp: log_append_def)
next
  case False
  then show ?thesis using assms by (cases files) (auto simp: log_append_def)
qed

lemma log_append_fits:
  assumes "files \<noteq> []" "\<forall>f\<in>set files. file_fits max_size lines f"
  shows "\<forall>f\<in>set (log_append max_size n line files). file_fits max_size (lines @ [line]) f"
proof -
  have old: "file_fits max_size (lines @ [line]) f" if "file_fits max_size lines f" for f
    using that by (auto simp: file_fits_def)
  show ?thesis
    using assms old
    by (cases files) (auto simp: log_append_def file_fits_def dest!: in_set_takeD)
qed

lemma log_files_spec:
  assumes "0 < n"
  shows "log_files max_size n lines \<noteq> [] \<and> length (log_files max_size n lines) \<le> n \<and>
    suffix (concat (rev (log_files max_size n lines))) (concat (map ended lines)) \<and>
    (length (log_files max_size n lines) < n \<longrightarrow> concat (rev (log_files max_size n lines)) = concat (map ended lines)) \<and>
    (\<forall>f\<in>set (log_files max_size n lines). file_fits max_size lines f)"
proof (induction lines rule: rev_induct)
  case Nil
  then show ?case using assms by (simp add: log_files_def file_fits_def)
next
  case (snoc line lines)
  let ?files = "log_files max_size n lines"
  have step: "log_files max_size n (lines @ [line]) = log_append max_size n line ?files" by (simp add: log_files_def)
  have kept: "suffix (concat (rev (log_append max_size n line ?files))) (concat (rev ?files) @ ended line)"
    using log_append_text [OF assms] snoc by blast
  moreover have "suffix (concat (rev ?files) @ ended line) (concat (map ended (lines @ [line])))"
    using snoc by (simp add: suffix_def)
  ultimately have "suffix (concat (rev (log_append max_size n line ?files))) (concat (map ended (lines @ [line])))"
    by (rule suffix_order.trans)
  then show ?case
    using snoc log_append_shape [OF assms, of ?files max_size line] log_append_text [OF assms, of ?files max_size line]
      log_append_fits [of ?files max_size lines n line]
    unfolding step by simp
qed


section \<open>The sink implements it\<close>

definition sink_holds :: "log_world \<Rightarrow> RollingFileSink \<Rightarrow> string list \<Rightarrow> bool" where
  "sink_holds w self files \<longleftrightarrow> calm_log w \<and> rf_open self \<and> rf_good self \<and> 0 < rf_max_files self \<and>
     files \<noteq> [] \<and> length files \<le> rf_max_files self \<and> rf_current_size self = length (hd files) \<and>
     (\<forall>i < rf_max_files self. contents w (rf_path self) i = (if i < length files then Some (files ! i) else None))"

lemma stream_write_calm:
  assumes "calm_log w" "rf_open self" "rf_good self" "contents w (rf_path self) 0 = Some t"
  shows "\<exists>w'. run_state (stream_write bytes self) w = ((True, self), w') \<and> calm_log w' \<and>
    (\<forall>i. contents w' (rf_path self) i = (if i = 0 then Some (t @ bytes) else contents w (rf_path self) i))"
  using assms by (auto simp: stream_write_def sys_calm contents_def calm_log_def generation_def numbered_def)

lemma file_Write_calm:
  assumes "sink_holds w self files"
  shows "\<exists>self' w'. run_state (file_Write line self) w = ((True, self'), w') \<and>
    rf_path self' = rf_path self \<and> rf_max_files self' = rf_max_files self \<and>
    rf_max_file_size_bytes self' = rf_max_file_size_bytes self \<and>
    sink_holds w' self' (log_append (rf_max_file_size_bytes self) (rf_max_files self) line files) \<and>
    (\<forall>i \<ge> rf_max_files self. contents w' (rf_path self) i = contents w (rf_path self) i)"
proof -
  let ?n = "rf_max_files self" and ?path = "rf_path self" and ?max = "rf_max_file_size_bytes self"
  note h = assms [unfolded sink_holds_def]
  obtain t ts where files: "files = t # ts" using h by (cases files) auto
  have full: "rf_current_size self > 0 \<and> length line + 1 > ?max - min (rf_current_size self) ?max \<longleftrightarrow>
      t \<noteq> [] \<and> length t + length (ended line) > ?max"
    using h by (auto simp: files ended_def min_def)
  show ?thesis
  proof (cases "t \<noteq> [] \<and> length t + length (ended line) > ?max")
    case True
    let ?self = "self\<lparr>rf_current_size := 0, rf_open := True, rf_good := True\<rparr>"
    obtain w1 where w1: "run_state (Roll self) w = ((True, ?self), w1)" "calm_log w1"
      "\<forall>i. contents w1 ?path i = (if i = 0 then Some [] else if i < ?n then contents w ?path (i - 1) else contents w ?path i)"
      by (rule exE [OF Roll_calm [of w self]]) (use h in auto)
    obtain w2 where w2: "run_state (stream_write (line @ [newline]) ?self) w1 = ((True, ?self), w2)" "calm_log w2"
      "\<And>i. contents w2 ?path i = (if i = 0 then Some (line @ [newline]) else contents w1 ?path i)"
      by (rule exE [OF stream_write_calm [of w1 ?self "[]" "line @ [newline]"]]) (use w1 in auto)
    have new: "log_append ?max ?n line files = take ?n (ended line # files)" using True by (simp add: log_append_def files)
    have "contents w2 ?path i = (if i < length (take ?n (ended line # files)) then Some (take ?n (ended line # files) ! i) else None)"
      if "i < ?n" for i
      using that h w1(3) [THEN spec, of i] w2(3) [of i] by (cases i) (auto simp: ended_def)
    moreover have "hd (take ?n (ended line # files)) = ended line" using h by (cases ?n) auto
    ultimately have "sink_holds w2 (?self\<lparr>rf_current_size := length line + 1\<rparr>) (take ?n (ended line # files))"
      using h w2(2) by (auto simp: sink_holds_def ended_def)
    moreover have "run_state (file_Write line self) w = ((True, ?self\<lparr>rf_current_size := length line + 1\<rparr>), w2)"
      using full True w1(1) w2(1) by (simp add: file_Write_def Let_def)
    ultimately show ?thesis using w1(3) w2(3) h by (auto simp: new)
  next
    case False
    obtain w2 where w2: "run_state (stream_write (line @ [newline]) self) w = ((True, self), w2)" "calm_log w2"
      "\<And>i. contents w2 ?path i = (if i = 0 then Some (t @ line @ [newline]) else contents w ?path i)"
      by (rule exE [OF stream_write_calm [of w self t "line @ [newline]"]]) (use h files in auto)
    have new: "log_append ?max ?n line files = (t @ ended line) # ts" using False by (auto simp: log_append_def files)
    have "contents w2 ?path i = (if i < length ((t @ ended line) # ts) then Some (((t @ ended line) # ts) ! i) else None)"
      if "i < ?n" for i
      using that h w2(3) [of i] by (cases i) (auto simp: ended_def files)
    then have "sink_holds w2 (self\<lparr>rf_current_size := rf_current_size self + (length line + 1)\<rparr>) ((t @ ended line) # ts)"
      using h w2(2) by (auto simp: sink_holds_def ended_def files)
    moreover have "run_state (file_Write line self) w =
        ((True, self\<lparr>rf_current_size := rf_current_size self + (length line + 1)\<rparr>), w2)"
      using w2(1) False unfolding file_Write_def Let_def full by (auto simp del: add_Suc_right)
    ultimately show ?thesis using w2(3) h by (auto simp: new)
  qed
qed


text \<open>A session: the sink is opened and a list of lines written, each call answering whether it worked.\<close>

fun write_lines :: "string list \<Rightarrow> RollingFileSink \<Rightarrow> (log_world, bool) state" where
  "write_lines [] self = ret True"
| "write_lines (line # lines) self = do {
     (written, self') \<leftarrow> file_Write line self;
     rest \<leftarrow> write_lines lines self';
     ret (written \<and> rest)
   }"

definition log_session :: "string \<Rightarrow> nat \<Rightarrow> nat \<Rightarrow> string list \<Rightarrow> (log_world, bool) state" where
  "log_session path max_size max_files lines = do {
     (opened, self) \<leftarrow> sink_Initialize (RollingFileSink_new path max_size max_files);
     written \<leftarrow> write_lines lines self;
     ret (opened \<and> written)
   }"

lemma write_lines_calm:
  assumes "sink_holds w self files"
  shows "\<exists>w'. run_state (write_lines lines self) w = (True, w') \<and>
    (let files' = fold (log_append (rf_max_file_size_bytes self) (rf_max_files self)) lines files
     in files' \<noteq> [] \<and> length files' \<le> rf_max_files self \<and>
        (\<forall>i < rf_max_files self. contents w' (rf_path self) i = (if i < length files' then Some (files' ! i) else None)) \<and>
        (\<forall>i \<ge> rf_max_files self. contents w' (rf_path self) i = contents w (rf_path self) i))"
  using assms
proof (induction lines arbitrary: w self files)
  case Nil
  then show ?case by (simp add: sink_holds_def)
next
  case (Cons line lines)
  from file_Write_calm [OF Cons.prems, of line] obtain self' w1 where
    step: "run_state (file_Write line self) w = ((True, self'), w1)" "rf_path self' = rf_path self"
      "rf_max_files self' = rf_max_files self" "rf_max_file_size_bytes self' = rf_max_file_size_bytes self"
      "sink_holds w1 self' (log_append (rf_max_file_size_bytes self) (rf_max_files self) line files)"
      "\<forall>i \<ge> rf_max_files self. contents w1 (rf_path self) i = contents w (rf_path self) i"
    by blast
  from Cons.IH [OF step(5)] obtain w' where rest: "run_state (write_lines lines self') w1 = (True, w')"
      "let files' = fold (log_append (rf_max_file_size_bytes self) (rf_max_files self)) lines
         (log_append (rf_max_file_size_bytes self) (rf_max_files self) line files)
       in files' \<noteq> [] \<and> length files' \<le> rf_max_files self \<and>
        (\<forall>i < rf_max_files self. contents w' (rf_path self) i = (if i < length files' then Some (files' ! i) else None)) \<and>
        (\<forall>i \<ge> rf_max_files self. contents w' (rf_path self) i = contents w1 (rf_path self) i)"
    unfolding step(2-4) by blast
  then show ?case using step(1,6) by (auto simp: Let_def)
qed

text \<open>C37. The rolling log is bounded and keeps the newest lines. Starting without log files and while the file
  system works, every write succeeds, and the files are exactly those of the specification: together,
  from the oldest to the current one, they hold a final part of everything written; they hold all of
  it as long as fewer than \<^verbatim>\<open>max_files\<close> files are in use; no file exceeds the maximal size unless it is a
  single line that does; and no file beyond \<^verbatim>\<open>max_files\<close> is touched.\<close>

theorem rolling_log_keeps_newest:
  assumes "0 < n" "lw_faults w = []" "\<forall>i < n. lw_files w (generation path i) = None"
  shows "let (written, w') = run_state (log_session path max_size n lines) w; files = log_files max_size n lines
    in written \<and> length files \<le> n \<and>
      (\<forall>i < n. lw_files w' (generation path i) = (if i < length files then Some (files ! i) else None)) \<and>
      (\<forall>i \<ge> n. lw_files w' (generation path i) = lw_files w (generation path i)) \<and>
      suffix (concat (rev files)) (concat (map ended lines)) \<and>
      (length files < n \<longrightarrow> concat (rev files) = concat (map ended lines)) \<and>
      (\<forall>f\<in>set files. length f \<le> max_size \<or> f \<in> ended ` set lines)"
proof -
  let ?self = "RollingFileSink_new path max_size n"
  have calm: "calm_log w" by (simp add: calm_log_def assms(2))
  obtain w1 where w1: "run_state (sink_Open False (?self\<lparr>rf_current_size := 0\<rparr>)) w =
      ((True, ?self\<lparr>rf_current_size := 0, rf_open := True, rf_good := True\<rparr>), w1)" "calm_log w1"
    "\<And>i. contents w1 path i = (if i = 0 then Some [] else contents w path i)"
    using sink_Open_calm [OF calm, of False "?self\<lparr>rf_current_size := 0\<rparr>"] assms(1,3)
    by (auto simp: RollingFileSink_new_def contents_def)
  have init: "run_state (sink_Initialize ?self) w = ((True, ?self\<lparr>rf_current_size := 0, rf_open := True, rf_good := True\<rparr>), w1)"
    using w1(1) calm assms(1) assms(3) [THEN spec, of 0]
    by (simp add: sink_Initialize_def sys_calm fs_exists_def RollingFileSink_new_def generation_def)
  have "sink_holds w1 (?self\<lparr>rf_current_size := 0, rf_open := True, rf_good := True\<rparr>) [Nil]"
    using w1 assms by (auto simp: sink_holds_def RollingFileSink_new_def contents_def)
  from write_lines_calm [OF this, of lines] show ?thesis
    using init w1(3) assms(1) log_files_spec [OF assms(1), of max_size lines]
    by (auto simp: log_session_def RollingFileSink_new_def log_files_def [symmetric] contents_def file_fits_def Let_def)
qed

theorem rolling_log_keeps_newest_witness:
  "log_files 6 2 [''ab'', ''cd'', ''ef'', ''gh'', ''ij''] = [ended ''ij'', ended ''ef'' @ ended ''gh''] \<and>
   fst (run_state (log_session ''log'' 6 2 [''ab'', ''cd'', ''ef'', ''gh'', ''ij'']) \<lparr>lw_files = Map.empty, lw_stderr = [], lw_faults = []\<rparr>)"
  using rolling_log_keeps_newest [of 2 "\<lparr>lw_files = Map.empty, lw_stderr = [], lw_faults = []\<rparr>" "''log''" 6
      "[''ab'', ''cd'', ''ef'', ''gh'', ''ij'']"]
  by (simp add: log_files_def log_append_def ended_def Let_def split: prod.splits)


section \<open>A failed reopening\<close>

text \<open>When the reopening at the end of \<^verbatim>\<open>Roll\<close> fails, the size is already zero: no later write rolls again,
  so the stream stays closed and every later line is refused, even when the file system has recovered.\<close>

lemma failed_reopen_refuses_all:
  assumes "run_state (sink_Open True (self\<lparr>rf_current_size := 0\<rparr>)) w = ((False, self'), w')"
  shows "\<exists>self'' w''. run_state (write_lines (line # lines) self') w' = (False, w'') \<and> w'' = w' \<and>
    run_state (file_Write line self') w' = ((False, self''), w')"
proof -
  have lost: "run_state (file_Write l s) v = ((False, s\<lparr>rf_good := False\<rparr>), v)"
    if "rf_current_size s = 0" "\<not> rf_open s" for l s v
    using that by (simp add: file_Write_def stream_write_def Let_def)
  have kept: "snd (run_state (write_lines ls s) v) = v" if "rf_current_size s = 0" "\<not> rf_open s" for ls s v
    using that by (induction ls arbitrary: s) (simp_all add: lost split_beta)
  have "rf_current_size self' = 0" "\<not> rf_open self'"
    using assms by (auto simp: sink_Open_def split: if_splits prod.splits)
  then show ?thesis using lost kept by (simp add: split_beta)
qed

end
