(* ===== verification/LoggerRuns.thy ===== *)
theory LoggerRuns
  imports Logger RollingLog
begin

text \<open>
  All interleavings of the threads that log, flush and shut down with the worker of the logger: no
  accepted line is lost without being counted, the order is kept, a flush waits for everything
  logged before it, and no thread waits for a worker that has ended.
\<close>

section \<open>Runs\<close>

text \<open>The history: the lines for which \<^verbatim>\<open>Write\<close> reached the queue, the lines and the number of dropped lines
  the worker has written, and for each flush how many lines were submitted when it began.\<close>

record log_history =
  lh_submitted :: "string list"
  lh_written :: "string list"
  lh_reported :: nat
  lh_flush :: "nat \<rightharpoonup> nat"

fun line_of :: "QueueItem \<Rightarrow> string list" where
  "line_of (LogItem level line) = [line]"
| "line_of (FlushItem b) = []"

definition lines_of :: "QueueItem list \<Rightarrow> string list" where
  "lines_of items = concat (map line_of items)"

fun held_item :: "log_worker \<Rightarrow> QueueItem list" where
  "held_item (WorkerHolds d (Some item) stop) = [item]"
| "held_item _ = []"

fun held_dropped :: "log_worker \<Rightarrow> nat" where
  "held_dropped (WorkerHolds d item stop) = d"
| "held_dropped _ = 0"

type_synonym log_run = "Logger \<times> log_world \<times> log_history"

inductive logger_step :: "log_run \<Rightarrow> log_run \<Rightarrow> bool" where
  log_line: "logger_step (l, w, h) (enqueue_log level line l, w,
     if log_accepting l \<and> \<not> log_stop_requested l then h\<lparr>lh_submitted := lh_submitted h @ [line]\<rparr> else h)"
| log_direct: "\<not> log_async_mode l \<Longrightarrow> with_sinks (WriteToSinks line) (l, w) = (l', w') \<Longrightarrow>
     logger_step (l, w, h) (l', w', h)"
| flush: "start_flush (l, w) = (b, l', w') \<Longrightarrow>
     logger_step (l, w, h) (l', w',
       case b of None \<Rightarrow> h | Some n \<Rightarrow> h\<lparr>lh_flush := (lh_flush h)(n \<mapsto> length (lh_submitted h))\<rparr>)"
| take: "log_thread l = WorkerWaits \<Longrightarrow> worker_awake l \<Longrightarrow> logger_step (l, w, h) (worker_take l, w, h)"
| finish: "log_thread l = WorkerHolds d item stop \<Longrightarrow> worker_finish stamp (l, w) = (l', w') \<Longrightarrow>
     logger_step (l, w, h) (l', w',
       h\<lparr>lh_written := lh_written h @ lines_of (held_item (log_thread l)), lh_reported := lh_reported h + d\<rparr>)"
| stop: "logger_step (l, w, h) (request_stop l, w, h)"
| join: "\<not> log_accepting l \<Longrightarrow> joined l \<Longrightarrow> end_shutdown (l, w) = (l', w') \<Longrightarrow> logger_step (l, w, h) (l', w', h)"

definition no_history :: log_history where
  "no_history = \<lparr>lh_submitted = [], lh_written = [], lh_reported = 0, lh_flush = Map.empty\<rparr>"

text \<open>A run begins with an \<^verbatim>\<open>Initialize\<close> of a new logger that started the worker.\<close>

inductive logger_reach :: "LoggerOptions \<Rightarrow> log_run \<Rightarrow> bool" for options where
  init: "opt_async options \<Longrightarrow> Initialize options True None (Logger_new, w) = (True, l, w') \<Longrightarrow>
     logger_reach options (l, w', no_history)"
| step: "logger_reach options n \<Longrightarrow> logger_step n n' \<Longrightarrow> logger_reach options n'"

section \<open>Invariant\<close>

definition queue_inv :: "Logger \<Rightarrow> bool" where
  "queue_inv l \<longleftrightarrow> log_queued_logs l = length (lines_of (log_queue l)) \<and> log_queued_logs l \<le> log_queue_capacity l \<and>
     0 < log_queue_capacity l"

definition thread_inv :: "Logger \<Rightarrow> bool" where
  "thread_inv l \<longleftrightarrow> (log_stop_requested l \<longrightarrow> \<not> log_accepting l) \<and>
     (log_worker_running l \<longleftrightarrow> (case log_thread l of WorkerWaits \<Rightarrow> True | WorkerHolds d item stop \<Rightarrow> \<not> stop | _ \<Rightarrow> False)) \<and>
     (\<not> log_worker_running l \<longrightarrow> log_stop_requested l \<and> log_queue l = [] \<and> log_dropped_logs l = 0 \<and> held_item (log_thread l) = [])"

definition count_inv :: "Logger \<Rightarrow> log_history \<Rightarrow> bool" where
  "count_inv l h \<longleftrightarrow>
     subseq (lh_written h @ lines_of (held_item (log_thread l)) @ lines_of (log_queue l)) (lh_submitted h) \<and>
     length (lh_submitted h) = length (lh_written h) + length (lines_of (held_item (log_thread l))) +
       length (lines_of (log_queue l)) + lh_reported h + held_dropped (log_thread l) + log_dropped_logs l"

text \<open>A flush is done, or its barrier is with the worker or in the queue; what follows it was
  submitted after it.\<close>

definition barrier_ok :: "Logger \<Rightarrow> string list \<Rightarrow> nat \<Rightarrow> nat \<Rightarrow> bool" where
  "barrier_ok l submitted b n \<longleftrightarrow> n \<le> length submitted \<and>
     (if b \<in> log_done l then subseq (lines_of (held_item (log_thread l) @ log_queue l)) (drop n submitted)
      else \<exists>before after. held_item (log_thread l) @ log_queue l = before @ FlushItem b # after \<and>
             FlushItem b \<notin> set before \<and> subseq (lines_of after) (drop n submitted))"

definition flush_inv :: "Logger \<Rightarrow> log_history \<Rightarrow> bool" where
  "flush_inv l h \<longleftrightarrow> dom (lh_flush h) = {..<log_next_barrier l} \<and> log_done l \<subseteq> {..<log_next_barrier l} \<and>
     (\<forall>b. FlushItem b \<in> set (held_item (log_thread l) @ log_queue l) \<longrightarrow> b < log_next_barrier l) \<and>
     (\<forall>b n. lh_flush h b = Some n \<longrightarrow> barrier_ok l (lh_submitted h) b n)"

definition log_inv :: "Logger \<Rightarrow> log_history \<Rightarrow> bool" where
  "log_inv l h \<longleftrightarrow> queue_inv l \<and> thread_inv l \<and> count_inv l h \<and> flush_inv l h"

lemma lines_of_simps [simp]:
  "lines_of [] = []" "lines_of (x # xs) = line_of x @ lines_of xs" "lines_of (xs @ ys) = lines_of xs @ lines_of ys"
  by (simp_all add: lines_of_def)

lemma erase_first_split:
  "list_ex p xs \<Longrightarrow> \<exists>ys x zs. xs = ys @ x # zs \<and> p x \<and> erase_first p xs = ys @ zs \<and> \<not> list_ex p ys"
proof (induction xs)
  case (Cons a xs)
  show ?case
  proof (cases "p a")
    case True
    then show ?thesis by (intro exI [of _ "[]"]) simp
  next
    case False
    with Cons obtain ys x zs where "xs = ys @ x # zs" "p x" "erase_first p xs = ys @ zs" "\<not> list_ex p ys" by auto
    with False show ?thesis by (intro exI [of _ "a # ys"]) simp
  qed
qed simp

lemma low_priority_line: "low_priority x \<Longrightarrow> \<exists>level line. x = LogItem level line"
  by (cases x) simp_all


lemma subseq_snoc: "subseq xs ys \<Longrightarrow> subseq (xs @ [y]) (ys @ [y])"
  by (simp add: list_emb_append_mono)

lemma subseq_longer: "subseq xs ys \<Longrightarrow> subseq xs (ys @ zs)"
  by (rule subseq_rev_drop_many)

lemma subseq_less: "subseq (xs @ y @ zs) ys \<Longrightarrow> subseq (xs @ zs) ys"
  by (rule subseq_order.trans [of _ "xs @ y @ zs"]) (simp_all add: list_emb_append_mono subseq_drop_many)

lemma subseq_without: "subseq (xs @ ys @ y # zs) s \<Longrightarrow> subseq (xs @ ys @ zs) s"
  using subseq_less [of "xs @ ys" "[y]" zs s] by simp

lemma two_items:
  "xs @ a # ys = us @ b # vs \<Longrightarrow> a \<noteq> b \<Longrightarrow>
   (\<exists>mid. us = xs @ a # mid \<and> ys = mid @ b # vs) \<or> (\<exists>mid. xs = us @ b # mid \<and> vs = mid @ a # ys)"
proof (induction xs arbitrary: us)
  case Nil
  then show ?case by (cases us) auto
next
  case (Cons x xs)
  then show ?case by (cases us) auto
qed

section \<open>Every step keeps it\<close>

text \<open>The three ways in which a line is submitted: it is dropped, it replaces another one, or it finds
  room. All of them leave the queue a part of the old one with the line at the end.\<close>

lemma enqueue_cases:
  assumes "log_accepting l" "\<not> log_stop_requested l"
  obtains (refused) "enqueue_log level line l = l\<lparr>log_dropped_logs := log_dropped_logs l + 1\<rparr>"
    "log_queue_capacity l \<le> log_queued_logs l" "IsLowPriority level \<or> \<not> list_ex low_priority (log_queue l)"
  | (replaced) ys lv old zs where "log_queue l = ys @ LogItem lv old # zs" "IsLowPriority lv" "\<not> IsLowPriority level"
    "enqueue_log level line l = l\<lparr>log_queue := ys @ zs @ [LogItem level line],
       log_queued_logs := log_queued_logs l - 1 + 1, log_dropped_logs := log_dropped_logs l + 1\<rparr>"
    "log_queue_capacity l \<le> log_queued_logs l"
  | (queued) "enqueue_log level line l =
      l\<lparr>log_queue := log_queue l @ [LogItem level line], log_queued_logs := log_queued_logs l + 1\<rparr>"
    "log_queued_logs l < log_queue_capacity l"
proof (cases "log_queue_capacity l \<le> log_queued_logs l")
  case full: True
  show ?thesis
  proof (cases "IsLowPriority level \<or> \<not> list_ex low_priority (log_queue l)")
    case True
    then show ?thesis using full assms refused by (simp add: enqueue_log_def)
  next
    case False
    then obtain ys x zs where x: "log_queue l = ys @ x # zs" "low_priority x" "erase_first low_priority (log_queue l) = ys @ zs"
      using erase_first_split [of low_priority "log_queue l"] by blast
    obtain lv old where "x = LogItem lv old" using low_priority_line [OF x(2)] by blast
    then show ?thesis
      using replaced [of ys lv old zs] x full False assms by (simp add: enqueue_log_def push_log_def)
  qed
next
  case False
  then show ?thesis using assms queued by (simp add: enqueue_log_def push_log_def)
qed

lemma barrier_pending:
  "n \<le> length s \<Longrightarrow> b \<notin> log_done l \<Longrightarrow> held_item (log_thread l) @ log_queue l = before @ FlushItem b # after \<Longrightarrow>
   FlushItem b \<notin> set before \<Longrightarrow> subseq (lines_of after) (drop n s) \<Longrightarrow> barrier_ok l s b n"
  unfolding barrier_ok_def by (simp only: if_False simp_thms) blast

text \<open>The items from a barrier on, when a line takes the place of an older one.\<close>

lemma barrier_replaced:
  assumes "before @ FlushItem b # after = xs @ LogItem lv old # zs" "FlushItem b \<notin> set before"
    and "subseq (lines_of after) later"
  shows "\<exists>before' after'. xs @ zs @ [LogItem level line] = before' @ FlushItem b # after' \<and>
    FlushItem b \<notin> set before' \<and> subseq (lines_of after') (later @ [line])"
proof -
  from two_items [OF assms(1)]
  consider mid where "xs = before @ FlushItem b # mid" "after = mid @ LogItem lv old # zs"
    | mid where "before = xs @ LogItem lv old # mid" "zs = mid @ FlushItem b # after" by auto
  then show ?thesis
  proof cases
    case mid: 1
    have "subseq (lines_of mid @ [old] @ lines_of zs) later" using assms(3) mid(2) by simp
    then have "subseq (lines_of (mid @ zs @ [LogItem level line])) (later @ [line])"
      using subseq_snoc [OF subseq_less [of "lines_of mid" "[old]" "lines_of zs" later], of line] by simp
    moreover have "xs @ zs @ [LogItem level line] = before @ FlushItem b # (mid @ zs @ [LogItem level line])"
      by (simp add: mid(1))
    ultimately show ?thesis using assms(2) by blast
  next
    case mid: 2
    have "xs @ zs @ [LogItem level line] = (xs @ mid) @ FlushItem b # (after @ [LogItem level line])" by (simp add: mid(2))
    moreover have "FlushItem b \<notin> set (xs @ mid)" using assms(2) by (auto simp: mid(1))
    ultimately show ?thesis using subseq_snoc [OF assms(3), of line] by fastforce
  qed
qed

lemma barrier_line:
  assumes "barrier_ok l submitted b n" "log_thread l' = log_thread l" "log_done l' = log_done l"
    and "log_queue l' = log_queue l \<or> log_queue l' = log_queue l @ [LogItem level line] \<or>
      (\<exists>ys lv old zs. log_queue l = ys @ LogItem lv old # zs \<and> log_queue l' = ys @ zs @ [LogItem level line])"
  shows "barrier_ok l' (submitted @ [line]) b n"
proof (cases "b \<in> log_done l")
  case True
  then show ?thesis
    using assms
    by (auto simp: barrier_ok_def intro: subseq_longer subseq_without
        intro!: subseq_snoc [of "_ @ _", simplified] subseq_snoc [of "_ @ _ @ _", simplified])
next
  case False
  then obtain before after where split: "held_item (log_thread l) @ log_queue l = before @ FlushItem b # after"
      "subseq (lines_of after) (drop n submitted)" "FlushItem b \<notin> set before" and n: "n \<le> length submitted"
    using assms(1) by (auto simp: barrier_ok_def)
  from assms(4) consider "log_queue l' = log_queue l" | "log_queue l' = log_queue l @ [LogItem level line]"
    | ys lv old zs where "log_queue l = ys @ LogItem lv old # zs" "log_queue l' = ys @ zs @ [LogItem level line]" by blast
  then have "\<exists>before after. held_item (log_thread l) @ log_queue l' = before @ FlushItem b # after \<and>
      FlushItem b \<notin> set before \<and> subseq (lines_of after) (drop n submitted @ [line])"
  proof cases
    case 1
    then show ?thesis using split by (auto intro: subseq_longer)
  next
    case 2
    then have "held_item (log_thread l) @ log_queue l' = before @ FlushItem b # (after @ [LogItem level line])"
      using split(1) by (simp flip: append_assoc)
    then show ?thesis using split(2,3) subseq_snoc [of "lines_of after"] by fastforce
  next
    case 3
    then have "before @ FlushItem b # after = (held_item (log_thread l) @ ys) @ LogItem lv old # zs" using split(1) by simp
    from barrier_replaced [OF this split(3,2)] show ?thesis by (simp add: 3(2))
  qed
  then show ?thesis using False n assms(2,3) by (simp add: barrier_ok_def)
qed

lemma log_inv_line:
  assumes "log_inv l h" "log_accepting l" "\<not> log_stop_requested l"
  shows "log_inv (enqueue_log level line l) (h\<lparr>lh_submitted := lh_submitted h @ [line]\<rparr>)"
proof -
  let ?l = "enqueue_log level line l"
  note i = assms(1) [unfolded log_inv_def]
  have run: "log_worker_running l" using i assms(3) by (auto simp: thread_inv_def)
  have parts: "log_thread ?l = log_thread l" "log_done ?l = log_done l" "log_next_barrier ?l = log_next_barrier l"
    "log_worker_running ?l = log_worker_running l" "log_stop_requested ?l = log_stop_requested l"
    "log_accepting ?l = log_accepting l" "log_queue_capacity ?l = log_queue_capacity l"
    by (simp_all add: enqueue_log_def push_log_def)
  have "queue_inv ?l \<and> count_inv ?l (h\<lparr>lh_submitted := lh_submitted h @ [line]\<rparr>)"
    using assms(2,3)
  proof (cases rule: enqueue_cases [of l level line])
    case refused
    then show ?thesis using i by (auto simp: queue_inv_def count_inv_def intro: subseq_longer)
  next
    case (replaced ys lv old zs)
    have "subseq (lh_written h @ lines_of (held_item (log_thread l)) @ lines_of ys @ lines_of zs) (lh_submitted h)"
      using subseq_without [of "lh_written h @ lines_of (held_item (log_thread l))" "lines_of ys" old "lines_of zs"] i replaced(1)
      by (simp add: count_inv_def)
    from subseq_snoc [OF this, of line] show ?thesis
      using i replaced(1,4) by (simp add: queue_inv_def count_inv_def)
  next
    case queued
    have "subseq (lh_written h @ lines_of (held_item (log_thread l)) @ lines_of (log_queue l)) (lh_submitted h)"
      using i by (simp add: count_inv_def)
    from subseq_snoc [OF this, of line] show ?thesis
      using i queued by (simp add: queue_inv_def count_inv_def)
  qed
  moreover have "thread_inv ?l" using i run by (simp add: thread_inv_def parts)
  moreover have "log_queue ?l = log_queue l \<or> log_queue ?l = log_queue l @ [LogItem level line] \<or>
      (\<exists>ys lv old zs. log_queue l = ys @ LogItem lv old # zs \<and> log_queue ?l = ys @ zs @ [LogItem level line])"
    using assms(2,3) by (cases rule: enqueue_cases [of l level line]) auto
  note queue = this
  have "FlushItem b \<in> set (log_queue ?l) \<Longrightarrow> FlushItem b \<in> set (log_queue l)" for b
    using queue by auto
  then have "flush_inv ?l (h\<lparr>lh_submitted := lh_submitted h @ [line]\<rparr>)"
    using i barrier_line [OF _ parts(1,2) queue] by (simp add: flush_inv_def parts)
  ultimately show ?thesis by (simp add: log_inv_def)
qed

lemma flush_inv_cong:
  assumes "held_item (log_thread l') = held_item (log_thread l)" "log_queue l' = log_queue l" "log_done l' = log_done l"
    and "log_next_barrier l' = log_next_barrier l"
  shows "flush_inv l' h = flush_inv l h"
  unfolding flush_inv_def barrier_ok_def assms ..

text \<open>The steps that only touch the sinks.\<close>

lemma with_sinks_parts:
  assumes "with_sinks f (l, w) = (l', w')"
  shows "\<exists>sinks. l' = l\<lparr>log_sinks := sinks\<rparr>"
  using assms by (auto simp: with_sinks_def split: prod.splits)

lemma log_inv_sinks: "log_inv (l\<lparr>log_sinks := sinks\<rparr>) h = log_inv l h"
  by (simp add: log_inv_def queue_inv_def thread_inv_def count_inv_def flush_inv_def barrier_ok_def)

lemma log_inv_flush:
  assumes "log_inv l h" "start_flush (l, w) = (b, l', w')"
  shows "log_inv l' (case b of None \<Rightarrow> h | Some n \<Rightarrow> h\<lparr>lh_flush := (lh_flush h)(n \<mapsto> length (lh_submitted h))\<rparr>)"
proof (cases "\<not> log_async_mode l \<or> \<not> log_worker_running l")
  case True
  then show ?thesis
    using assms with_sinks_parts [of FlushSinks l w l' w'] log_inv_sinks by (auto simp: start_flush_def split: prod.splits)
next
  case False
  let ?b = "log_next_barrier l"
  have l': "b = Some ?b" "l' = l\<lparr>log_queue := log_queue l @ [FlushItem ?b], log_next_barrier := ?b + 1\<rparr>"
    using False assms(2) by (auto simp: start_flush_def)
  note i = assms(1) [unfolded log_inv_def]
  have new: "?b \<notin> log_done l" "FlushItem ?b \<notin> set (held_item (log_thread l) @ log_queue l)"
    using i by (auto simp: flush_inv_def)
  have "barrier_ok l' (lh_submitted h) c n" if ok: "barrier_ok l (lh_submitted h) c n" for c n
  proof (cases "c \<in> log_done l")
    case False
    then obtain before after where "held_item (log_thread l) @ log_queue l = before @ FlushItem c # after"
        "FlushItem c \<notin> set before" "subseq (lines_of after) (drop n (lh_submitted h))" "n \<le> length (lh_submitted h)"
      using ok by (auto simp: barrier_ok_def)
    moreover from this(1) have "held_item (log_thread l') @ log_queue l' = before @ FlushItem c # (after @ [FlushItem ?b])"
      by (simp add: l' flip: append_assoc)
    moreover have "c \<notin> log_done l'" using False by (simp add: l')
    ultimately show ?thesis
      using barrier_pending [of n "lh_submitted h" c l' before "after @ [FlushItem ?b]"] by simp
  qed (use ok l' in \<open>simp add: barrier_ok_def\<close>)
  moreover have "barrier_ok l' (lh_submitted h) ?b (length (lh_submitted h))"
  proof -
    have "held_item (log_thread l') @ log_queue l' = (held_item (log_thread l) @ log_queue l) @ FlushItem ?b # []"
      by (simp add: l')
    moreover have "?b \<notin> log_done l'" using new by (simp add: l')
    ultimately show ?thesis
      using new(2) barrier_pending [of "length (lh_submitted h)" "lh_submitted h" ?b l' "held_item (log_thread l) @ log_queue l" "[]"]
      by simp
  qed
  ultimately have "flush_inv l' (h\<lparr>lh_flush := (lh_flush h)(?b \<mapsto> length (lh_submitted h))\<rparr>)"
    using i l' by (auto simp: flush_inv_def lessThan_Suc split: if_splits)
  then show ?thesis
    using i False by (simp add: l' log_inv_def queue_inv_def thread_inv_def count_inv_def)
qed


text \<open>Taking an item moves it from the queue to the hand of the worker; finishing it empties the hand.\<close>

lemma log_inv_take:
  assumes "log_inv l h" "log_thread l = WorkerWaits"
  shows "log_inv (worker_take l) h"
proof -
  let ?l = "worker_take l"
  note i = assms(1) [unfolded log_inv_def]
  have same: "held_item (log_thread ?l) @ log_queue ?l = held_item (log_thread l) @ log_queue l" "log_done ?l = log_done l"
    "log_next_barrier ?l = log_next_barrier l"
    using assms(2) by (simp_all add: worker_take_def split: list.split)
  have "barrier_ok ?l = barrier_ok l" by (intro ext) (simp only: barrier_ok_def same)
  moreover have "set (held_item (log_thread ?l) @ log_queue ?l) = set (held_item (log_thread l) @ log_queue l)"
    by (simp only: same)
  ultimately have "flush_inv ?l h" using i by (simp add: flush_inv_def same(2,3))
  moreover have "lines_of (held_item (log_thread ?l)) @ lines_of (log_queue ?l) = lines_of (log_queue l)"
    using same(1) assms(2) by (simp flip: lines_of_simps(3))
  moreover have "held_dropped (log_thread ?l) = log_dropped_logs l" "log_dropped_logs ?l = 0"
    by (simp_all add: worker_take_def split: list.split)
  ultimately have "count_inv ?l h"
    using i assms(2) unfolding count_inv_def by (auto simp flip: length_append)
  moreover have "queue_inv ?l"
  proof (cases "log_queue l")
    case (Cons item queue)
    then show ?thesis using i by (cases item) (auto simp: worker_take_def queue_inv_def)
  qed (use i in \<open>simp add: worker_take_def queue_inv_def\<close>)
  moreover have "thread_inv ?l"
    using i assms(2) by (auto simp: thread_inv_def worker_take_def split: list.split)
  ultimately show ?thesis using \<open>flush_inv ?l h\<close> by (simp add: log_inv_def)
qed

text \<open>What finishing does to everything but the sinks.\<close>

definition emptied :: "Logger \<Rightarrow> Logger" where
  "emptied l =
     (case log_thread l of
        WorkerHolds d item stop \<Rightarrow>
          if stop then l\<lparr>log_thread := WorkerEnded\<rparr>
          else l\<lparr>log_thread := WorkerWaits,
                 log_done := (case item of Some (FlushItem b) \<Rightarrow> insert b (log_done l) | _ \<Rightarrow> log_done l)\<rparr>
      | _ \<Rightarrow> l)"

lemma with_sinks_eq:
  "with_sinks f (l, w) = (l\<lparr>log_sinks := fst (run_state (f (log_sinks l)) w)\<rparr>, snd (run_state (f (log_sinks l)) w))"
  by (simp add: with_sinks_def split_beta)

lemma worker_finish_emptied:
  assumes "log_thread l = WorkerHolds d item stop" "worker_finish stamp (l, w) = (l', w')"
  shows "\<exists>sinks. l' = emptied (l\<lparr>log_sinks := sinks\<rparr>)"
  using assms
  by (auto simp: worker_finish_def WriteDroppedSummary_def with_sinks_eq emptied_def split: if_splits option.splits QueueItem.splits)
    (rule exI [of _ "log_sinks l"], cases l, simp)


lemma log_inv_emptied:
  assumes "log_inv l h" "log_thread l = WorkerHolds d item stop"
  shows "log_inv (emptied l)
    (h\<lparr>lh_written := lh_written h @ lines_of (held_item (log_thread l)), lh_reported := lh_reported h + d\<rparr>)"
proof -
  let ?l = "emptied l" and ?held = "held_item (log_thread l)"
  note i = assms(1) [unfolded log_inv_def]
  have parts: "held_item (log_thread ?l) = []" "log_queue ?l = log_queue l" "log_next_barrier ?l = log_next_barrier l"
    "held_dropped (log_thread ?l) = 0" "log_dropped_logs ?l = log_dropped_logs l"
    using assms(2) by (auto simp: emptied_def split: option.split QueueItem.split)
  have stop: "stop \<Longrightarrow> ?held = []" using i assms(2) by (auto simp: thread_inv_def)
  have done_eq: "log_done ?l = log_done l \<union> {b. FlushItem b \<in> set ?held}"
    using assms(2) stop by (auto simp: emptied_def split: option.splits QueueItem.splits)
  have "barrier_ok ?l (lh_submitted h) b n" if ok: "barrier_ok l (lh_submitted h) b n" for b n
  proof (cases "b \<in> log_done l")
    case True
    then show ?thesis
      using ok subseq_less [of "[]" "lines_of ?held" "lines_of (log_queue l)"] by (simp add: barrier_ok_def parts done_eq)
  next
    case False
    then obtain before after where q: "?held @ log_queue l = before @ FlushItem b # after" "FlushItem b \<notin> set before"
        "subseq (lines_of after) (drop n (lh_submitted h))" "n \<le> length (lh_submitted h)"
      using ok by (auto simp: barrier_ok_def)
    show ?thesis
    proof (cases "FlushItem b \<in> set ?held")
      case True
      then have "?held = [FlushItem b]" using assms(2) by (cases item) auto
      then have "after = log_queue l" using q(1,2) by (cases before) auto
      then show ?thesis using q True by (simp add: barrier_ok_def parts done_eq)
    next
      case held: False
      then have "\<exists>before'. log_queue l = before' @ FlushItem b # after \<and> FlushItem b \<notin> set before'"
        using q(1,2) assms(2) by (cases item; cases before) auto
      then show ?thesis
        using barrier_pending [of n "lh_submitted h" b ?l _ after] q held False by (auto simp: parts done_eq)
    qed
  qed
  then have "flush_inv ?l (h\<lparr>lh_written := lh_written h @ lines_of ?held, lh_reported := lh_reported h + d\<rparr>)"
    using i by (auto simp: flush_inv_def parts done_eq)
  moreover have "queue_inv ?l" "thread_inv ?l"
    using i assms(2) by (auto simp: queue_inv_def thread_inv_def emptied_def split: option.splits QueueItem.splits)
  moreover have "count_inv ?l (h\<lparr>lh_written := lh_written h @ lines_of ?held, lh_reported := lh_reported h + d\<rparr>)"
    using i assms(2) by (simp add: count_inv_def parts)
  ultimately show ?thesis by (simp add: log_inv_def)
qed


lemma log_inv_step:
  assumes "logger_step (l, w, h) (l', w', h')" "log_inv l h"
  shows "log_inv l' h'"
  using assms(1)
proof (cases rule: logger_step.cases)
  case (log_line level line)
  then show ?thesis using assms(2) log_inv_line [of l h level line] by (auto simp: enqueue_log_def)
next
  case (log_direct line)
  then show ?thesis using assms(2) with_sinks_parts log_inv_sinks by metis
next
  case (flush b)
  then show ?thesis using log_inv_flush [OF assms(2)] by blast
next
  case take
  then show ?thesis using log_inv_take [OF assms(2)] by simp
next
  case (finish d item stop stamp)
  obtain sinks where "l' = emptied (l\<lparr>log_sinks := sinks\<rparr>)"
    using worker_finish_emptied [OF finish(2,3)] by blast
  then show ?thesis
    using log_inv_emptied [of "l\<lparr>log_sinks := sinks\<rparr>" h d item stop] finish assms(2) by (simp add: log_inv_sinks)
next
  case stop
  then show ?thesis
    using assms(2) flush_inv_cong [of "request_stop l" l h]
    by (auto simp: request_stop_def log_inv_def queue_inv_def thread_inv_def count_inv_def)
next
  case join
  have idle: "held_item (log_thread l) = []" "held_dropped (log_thread l) = 0" "\<not> log_worker_running l"
    using join(3) assms(2) by (auto simp: joined_def log_inv_def thread_inv_def)
  have "log_inv (l\<lparr>log_thread := NoThread, log_async_mode := False\<rparr>) h"
    using assms(2) idle flush_inv_cong [of "l\<lparr>log_thread := NoThread, log_async_mode := False\<rparr>" l h]
    by (auto simp: log_inv_def queue_inv_def thread_inv_def count_inv_def)
  then show ?thesis
    using join with_sinks_parts [of FlushSinks "l\<lparr>log_thread := NoThread, log_async_mode := False\<rparr>" w l' w'] log_inv_sinks
    by (auto simp: end_shutdown_def)
qed

lemma log_inv_init:
  assumes "opt_async options" "Initialize options True None (Logger_new, w) = (True, l, w')"
  shows "log_inv l no_history"
proof -
  have "0 < opt_queue_capacity options"
    using assms(2) by (auto simp: Initialize_def ValidateOptions_def split: if_splits)
  moreover have "end_shutdown (request_stop Logger_new, w1) =
      ((request_stop Logger_new)\<lparr>log_thread := NoThread, log_async_mode := False,
         log_sinks := fst (run_state (FlushSinks [ConsoleSink]) w1)\<rparr>, snd (run_state (FlushSinks [ConsoleSink]) w1))" for w1
    by (simp add: end_shutdown_def with_sinks_eq request_stop_def Logger_new_def)
  ultimately show ?thesis
    using assms
    by (auto simp: Initialize_def install_sinks_def Let_def request_stop_def Logger_new_def no_history_def log_inv_def
        queue_inv_def thread_inv_def count_inv_def flush_inv_def split: if_splits option.splits prod.splits)
qed

lemma log_inv_reach: "logger_reach options (l, w, h) \<Longrightarrow> log_inv l h"
proof (induction "(l, w, h)" arbitrary: l w h rule: logger_reach.induct)
  case (init w l w')
  then show ?case by (rule log_inv_init)
next
  case (step n)
  then show ?case by (cases n) (auto intro: log_inv_step)
qed


section \<open>A sample run\<close>

text \<open>A queue of one line: a first line is replaced by an error, a second one of low priority is dropped; a
  flush and the shutdown follow.\<close>

definition small_options :: LoggerOptions where
  "small_options = default_LoggerOptions\<lparr>opt_queue_capacity := 1\<rparr>"

definition small_logger ::
  "QueueItem list \<Rightarrow> nat \<Rightarrow> bool \<Rightarrow> bool \<Rightarrow> log_worker \<Rightarrow> nat \<Rightarrow> nat set \<Rightarrow> Logger" where
  "small_logger queue dropped stopping running thread barriers finished =
     \<lparr>log_min_level = kInfo, log_accepting = \<not> stopping, log_async_mode = True, log_sinks = [ConsoleSink],
      log_queue = queue, log_queued_logs = length (lines_of queue), log_queue_capacity = 1, log_dropped_logs = dropped,
      log_stop_requested = stopping, log_worker_running = running, log_thread = thread, log_next_barrier = barriers,
      log_done = finished\<rparr>"

definition small_history :: "string list \<Rightarrow> string list \<Rightarrow> nat \<Rightarrow> (nat \<rightharpoonup> nat) \<Rightarrow> log_history" where
  "small_history submitted written reported flushes =
     \<lparr>lh_submitted = submitted, lh_written = written, lh_reported = reported, lh_flush = flushes\<rparr>"

lemmas small_defs = small_logger_def small_history_def

lemma console_stays:
  "fst (run_state (WriteToSinks line [ConsoleSink]) w) = [ConsoleSink]"
  "fst (run_state (FlushSinks [ConsoleSink]) w) = [ConsoleSink]"
  by (simp_all add: split_beta)

lemma small_init: "\<exists>w'. logger_reach small_options (small_logger [] 0 False True WorkerWaits 0 {}, w', small_history [] [] 0 Map.empty)"
proof -
  have "\<exists>w'. Initialize small_options True None (Logger_new, w) = (True, small_logger [] 0 False True WorkerWaits 0 {}, w')" for w
    by (simp add: Initialize_def small_options_def default_LoggerOptions_def ValidateOptions_def make_sinks_def install_sinks_def
        end_shutdown_def with_sinks_eq request_stop_def Logger_new_def small_logger_def Let_def)
  then show ?thesis
    using logger_reach.init [of small_options] by (fastforce simp: small_options_def default_LoggerOptions_def no_history_def small_history_def)
qed

lemma small_lines:
  "logger_step (small_logger [] 0 False True WorkerWaits 0 {}, w, small_history [] [] 0 Map.empty)
     (small_logger [LogItem kInfo ''a''] 0 False True WorkerWaits 0 {}, w, small_history [''a''] [] 0 Map.empty)"
  "logger_step (small_logger [LogItem kInfo ''a''] 0 False True WorkerWaits 0 {}, w, small_history [''a''] [] 0 Map.empty)
     (small_logger [LogItem kInfo ''a''] 1 False True WorkerWaits 0 {}, w, small_history [''a'', ''b''] [] 0 Map.empty)"
  "logger_step (small_logger [LogItem kInfo ''a''] 1 False True WorkerWaits 0 {}, w, small_history [''a'', ''b''] [] 0 Map.empty)
     (small_logger [LogItem kError ''c''] 2 False True WorkerWaits 0 {}, w, small_history [''a'', ''b'', ''c''] [] 0 Map.empty)"
  using logger_step.log_line [of "small_logger [] 0 False True WorkerWaits 0 {}" w "small_history [] [] 0 Map.empty" kInfo "''a''"]
    logger_step.log_line [of "small_logger [LogItem kInfo ''a''] 0 False True WorkerWaits 0 {}" w
      "small_history [''a''] [] 0 Map.empty" kInfo "''b''"]
    logger_step.log_line [of "small_logger [LogItem kInfo ''a''] 1 False True WorkerWaits 0 {}" w
      "small_history [''a'', ''b''] [] 0 Map.empty" kError "''c''"]
  by (simp_all add: small_defs enqueue_log_def push_log_def IsLowPriority_def numeral_2_eq_2)

abbreviation small_flushed :: log_history where
  "small_flushed \<equiv> small_history [''a'', ''b'', ''c''] [] 0 [0 \<mapsto> 3]"

lemma small_flush:
  "logger_step (small_logger [LogItem kError ''c''] 2 False True WorkerWaits 0 {}, w, small_history [''a'', ''b'', ''c''] [] 0 Map.empty)
     (small_logger [LogItem kError ''c'', FlushItem 0] 2 False True WorkerWaits 1 {}, w, small_flushed)"
  "logger_step (small_logger [LogItem kError ''c'', FlushItem 0] 2 False True WorkerWaits 1 {}, w, small_flushed)
     (small_logger [FlushItem 0] 0 False True (WorkerHolds 2 (Some (LogItem kError ''c'')) False) 1 {}, w, small_flushed)"
  using logger_step.flush [of "small_logger [LogItem kError ''c''] 2 False True WorkerWaits 0 {}" w "Some 0" _ w
      "small_history [''a'', ''b'', ''c''] [] 0 Map.empty"]
    logger_step.take [of "small_logger [LogItem kError ''c'', FlushItem 0] 2 False True WorkerWaits 1 {}" w small_flushed]
  by (simp_all add: small_defs start_flush_def worker_awake_def worker_take_def numeral_3_eq_3)

abbreviation small_reported :: log_history where
  "small_reported \<equiv> small_history [''a'', ''b'', ''c''] [''c''] 2 [0 \<mapsto> 3]"

lemma small_finish:
  "\<exists>w'. logger_step
     (small_logger [FlushItem 0] 0 False True (WorkerHolds 2 (Some (LogItem kError ''c'')) False) 1 {}, w, small_flushed)
     (small_logger [FlushItem 0] 0 False True WorkerWaits 1 {}, w', small_reported)"
  "\<exists>w'. logger_step
     (small_logger [] 0 False True (WorkerHolds 0 (Some (FlushItem 0)) False) 1 {}, w, small_reported)
     (small_logger [] 0 False True WorkerWaits 1 {0}, w', small_reported)"
  "\<exists>w'. logger_step (small_logger [] 0 True False (WorkerHolds 0 None True) 1 {0}, w, small_reported)
     (small_logger [] 0 True False WorkerEnded 1 {0}, w', small_reported)"
  using logger_step.finish [of "small_logger [FlushItem 0] 0 False True (WorkerHolds 2 (Some (LogItem kError ''c'')) False) 1 {}"
      2 "Some (LogItem kError ''c'')" False undefined w _ _ small_flushed, OF _ prod.collapse [symmetric]]
    logger_step.finish [of "small_logger [] 0 False True (WorkerHolds 0 (Some (FlushItem 0)) False) 1 {}"
      0 "Some (FlushItem 0)" False undefined w _ _ small_reported, OF _ prod.collapse [symmetric]]
    logger_step.finish [of "small_logger [] 0 True False (WorkerHolds 0 None True) 1 {0}"
      0 None True undefined w _ _ small_reported, OF _ prod.collapse [symmetric]]
  by (auto simp: small_defs worker_finish_def WriteDroppedSummary_def with_sinks_eq console_stays numeral_2_eq_2
      simp del: WriteToSinks.simps FlushSinks.simps)

lemma small_take:
  "logger_step (small_logger [FlushItem 0] 0 False True WorkerWaits 1 {}, w, small_reported)
     (small_logger [] 0 False True (WorkerHolds 0 (Some (FlushItem 0)) False) 1 {}, w, small_reported)"
  "logger_step (small_logger [] 0 False True WorkerWaits 1 {0}, w, small_reported)
     (small_logger [] 0 True True WorkerWaits 1 {0}, w, small_reported)"
  "logger_step (small_logger [] 0 True True WorkerWaits 1 {0}, w, small_reported)
     (small_logger [] 0 True False (WorkerHolds 0 None True) 1 {0}, w, small_reported)"
  using logger_step.take [of "small_logger [FlushItem 0] 0 False True WorkerWaits 1 {}" w small_reported]
    logger_step.stop [of "small_logger [] 0 False True WorkerWaits 1 {0}" w small_reported]
    logger_step.take [of "small_logger [] 0 True True WorkerWaits 1 {0}" w small_reported]
  by (simp_all add: small_defs request_stop_def worker_awake_def worker_take_def)

lemma small_end: "\<exists>w. logger_reach small_options (small_logger [] 0 True False WorkerEnded 1 {0}, w, small_reported)"
proof -
  note step = logger_reach.step [where options = small_options]
  obtain w0 where "logger_reach small_options (small_logger [] 0 False True WorkerWaits 0 {}, w0, small_history [] [] 0 Map.empty)"
    using small_init by blast
  note step [OF step [OF step [OF step [OF step [OF this small_lines(1)] small_lines(2)] small_lines(3)] small_flush(1)] small_flush(2)]
  then obtain w1 where "logger_reach small_options (small_logger [FlushItem 0] 0 False True WorkerWaits 1 {}, w1, small_reported)"
    using small_finish(1) step by blast
  note step [OF this small_take(1)]
  then obtain w2 where "logger_reach small_options (small_logger [] 0 False True WorkerWaits 1 {0}, w2, small_reported)"
    using small_finish(2) step by blast
  note step [OF step [OF this small_take(2)] small_take(3)]
  then show ?thesis using small_finish(3) step by blast
qed

section \<open>Properties\<close>



text \<open>C36. \<^verbatim>\<open>Flush\<close> waits for what was logged before it, and not for ever. When its barrier is done, every line
  still queued or in the worker's hand was submitted after the flush began; and when the worker has
  ended, the barriers of all flushes are done.\<close>

theorem logger_flush_complete:
  assumes "logger_reach options (l, w, h)" "lh_flush h b = Some n"
  shows "(b \<in> log_done l \<longrightarrow>
      subseq (lines_of (held_item (log_thread l)) @ lines_of (log_queue l)) (drop n (lh_submitted h))) \<and>
    (joined l \<longrightarrow> b \<in> log_done l)"
proof -
  have i: "log_inv l h" by (rule log_inv_reach [OF assms(1)])
  then have ok: "barrier_ok l (lh_submitted h) b n" using assms(2) by (simp add: log_inv_def flush_inv_def)
  have "held_item (log_thread l) @ log_queue l = []" if "joined l"
    using i that by (auto simp: log_inv_def thread_inv_def joined_def)
  then show ?thesis using ok by (auto simp: barrier_ok_def split: if_splits)
qed

theorem logger_flush_complete_witness:
  "\<exists>l w h. logger_reach small_options (l, w, h) \<and> lh_flush h 0 = Some 3 \<and> joined l \<and> 0 \<in> log_done l"
proof -
  obtain w where r: "logger_reach small_options (small_logger [] 0 True False WorkerEnded 1 {0}, w, small_reported)"
    using small_end by blast
  have "joined (small_logger [] 0 True False WorkerEnded 1 {0})" "lh_flush small_reported 0 = Some 3"
    by (simp_all add: joined_def small_defs)
  then show ?thesis using r logger_flush_complete [OF r, of 0 3] by blast
qed

text \<open>Warnings and errors have priority. When the queue is full, a line of low priority is dropped; a
  warning or error takes the place of the oldest queued line of low priority, leaving all others in
  their order, and is itself dropped only if every queued line is a warning or an error. One line is
  counted as dropped in each case.\<close>

theorem important_lines_kept:
  assumes "log_accepting l" "\<not> log_stop_requested l" "log_queue_capacity l \<le> log_queued_logs l"
  shows "log_dropped_logs (enqueue_log level line l) = log_dropped_logs l + 1 \<and>
    filter (\<lambda>x. \<not> low_priority x) (log_queue (enqueue_log level line l)) =
      filter (\<lambda>x. \<not> low_priority x) (log_queue l) @
      (if \<not> IsLowPriority level \<and> list_ex low_priority (log_queue l) then [LogItem level line] else []) \<and>
    (if \<not> IsLowPriority level \<and> list_ex low_priority (log_queue l)
     then \<exists>before x after. log_queue l = before @ x # after \<and> low_priority x \<and> \<not> list_ex low_priority before \<and>
       log_queue (enqueue_log level line l) = before @ after @ [LogItem level line]
     else log_queue (enqueue_log level line l) = log_queue l)"
proof (cases "\<not> IsLowPriority level \<and> list_ex low_priority (log_queue l)")
  case True
  then obtain ys x zs where "log_queue l = ys @ x # zs" "low_priority x" "erase_first low_priority (log_queue l) = ys @ zs"
      "\<not> list_ex low_priority ys"
    using erase_first_split [of low_priority "log_queue l"] by blast
  then show ?thesis
    using True assms by (auto simp: enqueue_log_def push_log_def)
next
  case False
  then show ?thesis using assms by (auto simp: enqueue_log_def)
qed

theorem important_lines_kept_witness:
  "log_queue (enqueue_log kError ''c'' (small_logger [LogItem kInfo ''a''] 0 False True WorkerWaits 0 {})) = [LogItem kError ''c'']"
proof -
  have "IsLowPriority kInfo" "\<not> IsLowPriority kError" by (simp_all add: IsLowPriority_def)
  then show ?thesis
    using important_lines_kept [of "small_logger [LogItem kInfo ''a''] 0 False True WorkerWaits 0 {}" kError "''c''"]
    by (auto simp: small_logger_def Cons_eq_append_conv)
qed

end
