(* ===== verification/Startup.thy ===== *)
theory Startup
  imports ConfigLoader Logger TcpServer
begin

text \<open>
  The start of the program, \<^verbatim>\<open>src/src/main.cc\<close> and \<^verbatim>\<open>src/src/app/main_runner.cc\<close>: configuration, logger, database
  and Redis in this order, each failure ending the program with a message and exit code 1. The objects
  built on the way are wired in the theories \<^verbatim>\<open>World\<close> and \<^verbatim>\<open>System\<close>.
\<close>

section \<open>Options derived from the configuration\<close>

text \<open>The size limit is computed in \<^verbatim>\<open>size_t\<close>; the capacity of the queue keeps its default.\<close>

definition logger_options :: "ServerConfig \<Rightarrow> LogLevel \<Rightarrow> LoggerOptions" where
  "logger_options cfg min_level =
     default_LoggerOptions\<lparr>opt_min_level := min_level, opt_console := lc_console (cfg_log cfg),
       opt_file_path := lc_file_path (cfg_log cfg),
       opt_max_file_size_bytes := lc_max_size_mb (cfg_log cfg) * kBytesPerMegabyte mod 2 ^ 64,
       opt_max_files := lc_max_files (cfg_log cfg), opt_async := lc_async (cfg_log cfg)\<rparr>"

definition fallback_options :: LoggerOptions where
  "fallback_options = default_LoggerOptions\<lparr>opt_console := True, opt_file_path := [], opt_async := False\<rparr>"

definition timeout_options :: "ServerConfig \<Rightarrow> TcpServerTimeoutOptions" where
  "timeout_options cfg =
     \<lparr>to_idle_timeout_ms = cc_idle_timeout_ms (cfg_connection cfg),
      to_heartbeat_timeout_ms = hc_timeout_ms (cfg_heartbeat cfg), to_scan_interval_ms = 1000\<rparr>"

section \<open>The program\<close>

text \<open>What the system and the other components answer during the start: time and thread of each message,
  whether the logger thread starts, the errors of the pools, and the outcome of the event loop.\<close>

record startup_answers =
  sa_stamp :: "nat \<Rightarrow> log_stamp"
  sa_thread :: bool
  sa_thread_error :: "string option"
  sa_db_error :: "(string \<times> nat) option"
  sa_redis_error :: "string option"
  sa_stream :: bool
  sa_start :: bool
  sa_errno :: int
  sa_strerror :: string

datatype main_end = Exit nat | Uncaught | Serve ServerConfig

definition say :: "startup_answers \<Rightarrow> nat \<Rightarrow> LogLevel \<Rightarrow> string \<Rightarrow> Logger \<times> log_world \<Rightarrow> Logger \<times> log_world" where
  "say a i level message = log_message (sa_stamp a i) level ''Main'' message"

text \<open>The steps after the logger is running, up to the start of the server.\<close>

definition connect_stores :: "startup_answers \<Rightarrow> ServerConfig \<Rightarrow> Logger \<times> log_world \<Rightarrow> main_end \<times> Logger \<times> log_world" where
  "connect_stores a cfg n =
     (case sa_db_error a of
        Some (err, code) \<Rightarrow>
          (Exit 1, say a 1 kError (''DbPool initialization failed error='' @ err @ '' mysql_errno='' @ nat_to_string code) n)
      | None \<Rightarrow>
          if \<not> rc_enabled (cfg_redis cfg) then (Serve cfg, n)
          else case sa_redis_error a of
            Some err \<Rightarrow> (Exit 1, say a 1 kError (''RedisPool initialization failed error='' @ err) n)
          | None \<Rightarrow>
              if \<not> sa_stream a then (Exit 1, say a 1 kError ''Redis push stream initialization failed'' n)
              else (Serve cfg, n))"

definition start_logger ::
  "startup_answers \<Rightarrow> ServerConfig \<Rightarrow> LogLevel \<Rightarrow> Logger \<times> log_world \<Rightarrow> bool \<times> Logger \<times> log_world" where
  "start_logger a cfg level n =
     (case Initialize (logger_options cfg level) (sa_thread a) (sa_thread_error a) n of
        (True, n1) \<Rightarrow> (True, n1)
      | (False, n1) \<Rightarrow>
          (case Initialize fallback_options True None n1 of
             (_, n2) \<Rightarrow> (False, say a 0 kError ''logger initialization failed'' n2)))"

definition start_up ::
  "'j ConfigJson \<Rightarrow> inet \<Rightarrow> environment \<Rightarrow> (string \<Rightarrow> file_answer) \<Rightarrow> string list \<Rightarrow> startup_answers \<Rightarrow> Logger \<times> log_world \<Rightarrow>
   main_end \<times> Logger \<times> log_world" where
  "start_up J I Env files args a n =
     (case Load J I Env files (ParseConfigPathArg args) of
        None \<Rightarrow> (Uncaught, n)
      | Some (Inl err) \<Rightarrow> (Exit 1, say a 0 kError (''config error: '' @ err) n)
      | Some (Inr cfg) \<Rightarrow>
          (case ParseLogLevel (lc_level (cfg_log cfg)) of
             None \<Rightarrow> (Exit 1, say a 0 kError ''invalid configured log level'' n)
           | Some level \<Rightarrow>
               (case start_logger a cfg level n of
                  (False, n1) \<Rightarrow> (Exit 1, n1)
                | (True, n1) \<Rightarrow>
                    (case ToSafeString J cfg of
                       None \<Rightarrow> (Uncaught, n1)
                     | Some config_text \<Rightarrow>
                         connect_stores a cfg (say a 0 kInfo (''starting server with config='' @ config_text) n1)))))"

definition RunMain :: "startup_answers \<Rightarrow> Logger \<times> log_world \<Rightarrow> nat \<times> Logger \<times> log_world" where
  "RunMain a n =
     (if \<not> sa_start a
      then (1, say a 2 kError
              (if sa_errno a \<noteq> 0
               then ''server start failed errno='' @ int_to_string (sa_errno a) @ '' error='' @ sa_strerror a
               else ''server start failed'') n)
      else (0, n))"

section \<open>What a loaded configuration guarantees\<close>

text \<open>The level of a loaded configuration parses, so the branch for an invalid one is never taken, and the
  options derived from it pass the checks of the logger.\<close>

lemma loaded_config_logs:
  assumes "Load J I Env files path = Some (Inr c)"
  shows "\<exists>level. ParseLogLevel (lc_level (cfg_log c)) = Some level \<and> ValidateOptions (logger_options c level) \<and>
    opt_max_file_size_bytes (logger_options c level) = lc_max_size_mb (cfg_log c) * kBytesPerMegabyte \<and>
    (opt_console (logger_options c level) \<or> opt_file_path (logger_options c level) \<noteq> [])"
proof -
  have none: "Validate I c = []" using loaded_config [OF assms] by simp
  then have checks: "lc_level (cfg_log c) \<in> {''debug'', ''info'', ''warn'', ''error''}" "0 < lc_max_files (cfg_log c)"
      "0 < lc_max_size_mb (cfg_log c)" "lc_max_size_mb (cfg_log c) \<le> size_max div kBytesPerMegabyte"
      "lc_console (cfg_log c) \<or> lc_file_path (cfg_log c) \<noteq> []"
    unfolding Validate_none log_checks_def by (auto simp: not_less)
  have "lc_max_size_mb (cfg_log c) * kBytesPerMegabyte \<le> size_max"
    using checks(4) by (simp add: kBytesPerMegabyte_def less_eq_div_iff_mult_less_eq)
  then have "lc_max_size_mb (cfg_log c) * kBytesPerMegabyte mod 2 ^ 64 = lc_max_size_mb (cfg_log c) * kBytesPerMegabyte"
    by (simp add: size_max_def)
  moreover have "0 < lc_max_size_mb (cfg_log c) * kBytesPerMegabyte" using checks(3) by (simp add: kBytesPerMegabyte_def)
  ultimately show ?thesis
    using checks by (auto simp: ParseLogLevel_def logger_options_def ValidateOptions_def default_LoggerOptions_def)
qed

lemma started_with_valid_config:
  assumes "start_up J I Env files args a n = (Serve c, n')"
  shows "Load J I Env files (ParseConfigPathArg args) = Some (Inr c) \<and> sa_db_error a = None \<and>
    (rc_enabled (cfg_redis c) \<longrightarrow> sa_redis_error a = None \<and> sa_stream a)"
  using assms
  by (auto simp: start_up_def connect_stores_def split: option.splits sum.splits prod.splits bool.splits if_splits)

end
