(* ===== verification/ServerStart.thy ===== *)
theory ServerStart
  imports ConfigLoader TcpServer "HOL-Library.Multiset"
begin

text \<open>
  \<^verbatim>\<open>TcpServer::start\<close> around its event loop (\<^verbatim>\<open>src/src/TcpServer.cc\<close>): the descriptors for listening, polling,
  worker results and the timer are opened and registered one after the other, and every exit releases
  what was opened.
\<close>

section \<open>Descriptors of the process\<close>

text \<open>
  The open descriptors; a new one is the lowest number that is free. Every call takes the next answer of
  the system, whether it succeeds; without one it does.
\<close>

record net_sys =
  ns_open :: "nat list"
  ns_answers :: "bool list"
  ns_polled :: "int list"
  ns_timer :: "(nat \<times> nat) option"
  ns_bound_port :: nat

definition sys_call :: "(net_sys, bool) state" where
  "sys_call = State (\<lambda>s. case ns_answers s of [] \<Rightarrow> (True, s) | a # as \<Rightarrow> (a, s\<lparr>ns_answers := as\<rparr>))"

definition lowest_free :: "nat list \<Rightarrow> nat" where
  "lowest_free used = hd (filter (\<lambda>n. n \<notin> set used) [0..<Suc (length used)])"

definition new_fd :: "(net_sys, int) state" where
  "new_fd = do {
     opened \<leftarrow> sys_call;
     if \<not> opened then ret (- 1)
     else State (\<lambda>s. (int (lowest_free (ns_open s)), s\<lparr>ns_open := lowest_free (ns_open s) # ns_open s\<rparr>))
   }"

definition close_fd :: "int \<Rightarrow> (net_sys, unit) state" where
  "close_fd fd = modify (\<lambda>s. s\<lparr>ns_open := filter (\<lambda>n. int n \<noteq> fd) (ns_open s), ns_polled := filter (\<lambda>d. d \<noteq> fd) (ns_polled s)\<rparr>)"

definition epoll_add :: "int \<Rightarrow> (net_sys, bool) state" where
  "epoll_add fd = do {
     added \<leftarrow> sys_call;
     _ \<leftarrow> (if added then modify (\<lambda>s. s\<lparr>ns_polled := ns_polled s @ [fd]\<rparr>) else ret ());
     ret added
   }"

section \<open>The steps of the start\<close>

record server_fds =
  sf_listen_fd :: int
  sf_epoll_fd :: int
  sf_worker_event_fd :: int
  sf_timer_fd :: int
  sf_port :: nat

type_synonym start_step = "server_fds \<Rightarrow> (net_sys, bool \<times> server_fds) state"

definition server_fds_new :: "nat \<Rightarrow> server_fds" where
  "server_fds_new port =
     \<lparr>sf_listen_fd = - 1, sf_epoll_fd = - 1, sf_worker_event_fd = - 1, sf_timer_fd = - 1, sf_port = port\<rparr>"

definition createListenSocket :: "inet \<Rightarrow> string \<Rightarrow> start_step" where
  "createListenSocket I ip fds =
     (if \<not> inet_pton6 I ip \<and> \<not> inet_pton4 I ip then ret (False, fds)
      else do {
        fd \<leftarrow> new_fd;
        if fd = - 1 then ret (False, fds\<lparr>sf_listen_fd := fd\<rparr>)
        else do {
          reuse \<leftarrow> sys_call;
          ret (reuse, fds\<lparr>sf_listen_fd := fd\<rparr>)
        }
      })"

definition bindAddress :: "inet \<Rightarrow> string \<Rightarrow> start_step" where
  "bindAddress I ip fds =
     (if \<not> inet_pton4 I ip \<and> \<not> inet_pton6 I ip then ret (False, fds)
      else do {
        bound \<leftarrow> sys_call;
        if \<not> bound then ret (False, fds)
        else if sf_port fds \<noteq> 0 then ret (True, fds)
        else do {
          named \<leftarrow> sys_call;
          port \<leftarrow> gets ns_bound_port;
          ret (True, if named then fds\<lparr>sf_port := port\<rparr> else fds)
        }
      })"

definition startListen :: start_step where
  "startListen fds = do { listening \<leftarrow> sys_call; ret (listening, fds) }"

text \<open>\<^verbatim>\<open>set_nonblocking\<close> reads the flags of the descriptor and writes them back.\<close>

definition set_nonblocking :: start_step where
  "set_nonblocking fds = do {
     flags \<leftarrow> sys_call;
     if \<not> flags then ret (False, fds)
     else do { set_flags \<leftarrow> sys_call; ret (set_flags, fds) }
   }"

definition createEpoll :: start_step where
  "createEpoll fds = do { fd \<leftarrow> new_fd; ret (fd \<noteq> - 1, fds\<lparr>sf_epoll_fd := fd\<rparr>) }"

definition createWorkerEventFd :: start_step where
  "createWorkerEventFd fds =
     (if sf_worker_event_fd fds \<noteq> - 1 then ret (True, fds)
      else do { fd \<leftarrow> new_fd; ret (fd \<noteq> - 1, fds\<lparr>sf_worker_event_fd := fd\<rparr>) })"

definition registerWorkerEventFd :: start_step where
  "registerWorkerEventFd fds =
     (if sf_epoll_fd fds = - 1 \<or> sf_worker_event_fd fds = - 1 then ret (False, fds)
      else do { added \<leftarrow> epoll_add (sf_worker_event_fd fds); ret (added, fds) })"

text \<open>The period of the timer in seconds and nanoseconds.\<close>

definition timer_period :: "TcpServerTimeoutOptions \<Rightarrow> nat \<times> nat" where
  "timer_period opts =
     (let interval_ms = max 1 (to_scan_interval_ms opts) in (interval_ms div 1000, (interval_ms mod 1000) * 1000000))"

definition createTimerFd :: "TcpServerTimeoutOptions \<Rightarrow> start_step" where
  "createTimerFd opts fds =
     (if sf_timer_fd fds \<noteq> - 1 then ret (True, fds)
      else do {
        fd \<leftarrow> new_fd;
        if fd = - 1 then ret (False, fds\<lparr>sf_timer_fd := fd\<rparr>)
        else do {
          armed \<leftarrow> sys_call;
          _ \<leftarrow> (if armed then modify (\<lambda>s. s\<lparr>ns_timer := Some (timer_period opts)\<rparr>) else ret ());
          ret (armed, fds\<lparr>sf_timer_fd := fd\<rparr>)
        }
      })"

definition registerTimerFd :: start_step where
  "registerTimerFd fds =
     (if sf_epoll_fd fds = - 1 \<or> sf_timer_fd fds = - 1 then ret (False, fds)
      else do { added \<leftarrow> epoll_add (sf_timer_fd fds); ret (added, fds) })"

definition registerListenFd :: start_step where
  "registerListenFd fds = do { added \<leftarrow> epoll_add (sf_listen_fd fds); ret (added, fds) }"

text \<open>The steps in order, until one fails.\<close>

fun run_setup :: "start_step list \<Rightarrow> start_step" where
  "run_setup [] fds = ret (True, fds)"
| "run_setup (step # steps) fds = do {
     (done, fds') \<leftarrow> step fds;
     if done then run_setup steps fds' else ret (False, fds')
   }"

definition setup_steps :: "inet \<Rightarrow> string \<Rightarrow> TcpServerTimeoutOptions \<Rightarrow> start_step list" where
  "setup_steps I ip opts =
     [createListenSocket I ip, bindAddress I ip, startListen, set_nonblocking, createEpoll, createWorkerEventFd,
      registerWorkerEventFd, createTimerFd opts, registerTimerFd, registerListenFd]"

text \<open>The descriptors \<^verbatim>\<open>cleanup_resources\<close> closes, besides those of the clients.\<close>

definition release_one :: "int \<Rightarrow> (net_sys, unit) state" where
  "release_one fd = (if fd \<noteq> - 1 then close_fd fd else ret ())"

definition release_fds :: "server_fds \<Rightarrow> (net_sys, server_fds) state" where
  "release_fds fds = do {
     _ \<leftarrow> release_one (sf_listen_fd fds);
     _ \<leftarrow> release_one (sf_worker_event_fd fds);
     _ \<leftarrow> release_one (sf_timer_fd fds);
     _ \<leftarrow> release_one (sf_epoll_fd fds);
     ret (fds\<lparr>sf_listen_fd := - 1, sf_worker_event_fd := - 1, sf_timer_fd := - 1, sf_epoll_fd := - 1\<rparr>)
   }"

text \<open>
  \<^verbatim>\<open>start\<close> with the event loop and the closing of its connections as an argument: they do not change the four
  descriptors. The connections are the subject of the theory \<^verbatim>\<open>TcpServer\<close>.
\<close>

definition start :: "inet \<Rightarrow> string \<Rightarrow> TcpServerTimeoutOptions \<Rightarrow> (net_sys, unit) state \<Rightarrow> bool \<Rightarrow> start_step" where
  "start I ip opts acceptLoop stopping fds =
     (if stopping then ret (False, fds)
      else do {
        (ready, fds1) \<leftarrow> run_setup (setup_steps I ip opts) fds;
        _ \<leftarrow> (if ready then acceptLoop else ret ());
        fds2 \<leftarrow> release_fds fds1;
        ret (ready, fds2)
      })"

section \<open>Which descriptors are owned\<close>

lemma lowest_free_fresh: "lowest_free used \<notin> set used"
proof -
  have "filter (\<lambda>n. n \<notin> set used) [0..<Suc (length used)] \<noteq> []"
  proof
    assume "filter (\<lambda>n. n \<notin> set used) [0..<Suc (length used)] = []"
    then have "{0..<Suc (length used)} \<subseteq> set used" by (auto simp: filter_empty_conv simp del: upt_Suc)
    then have "Suc (length used) \<le> card (set used)" by (metis List.finite_set card_atLeastLessThan card_mono minus_nat.diff_0)
    then show False using card_length [of used] by simp
  qed
  from hd_in_set [OF this] show ?thesis by (auto simp: lowest_free_def simp del: upt_Suc)
qed

definition owned :: "server_fds \<Rightarrow> int list" where
  "owned fds = filter (\<lambda>d. d \<noteq> - 1) [sf_listen_fd fds, sf_epoll_fd fds, sf_worker_event_fd fds, sf_timer_fd fds]"

definition owns_fds :: "nat set \<Rightarrow> server_fds \<Rightarrow> net_sys \<Rightarrow> bool" where
  "owns_fds before fds s \<longleftrightarrow> distinct (owned fds) \<and> (\<forall>d\<in>set (owned fds). 0 \<le> d \<and> nat d \<notin> before) \<and>
     set (ns_open s) = before \<union> nat ` set (owned fds)"

definition keeps_owned :: "nat set \<Rightarrow> (server_fds \<Rightarrow> bool) \<Rightarrow> (server_fds \<Rightarrow> bool) \<Rightarrow> start_step \<Rightarrow> bool" where
  "keeps_owned before P Q step \<longleftrightarrow> (\<forall>fds s. owns_fds before fds s \<and> P fds \<longrightarrow>
     wp (step fds) (\<lambda>(done, fds') s'. owns_fds before fds' s' \<and> (done \<longrightarrow> Q fds')) s)"

lemma sys_call_open: "wp sys_call (\<lambda>b s'. ns_open s' = ns_open s) s"
  by (simp add: wp_def sys_call_def split: list.split)


lemma new_fd_open:
  "wp new_fd (\<lambda>fd s'. fd = - 1 \<and> ns_open s' = ns_open s \<or>
     0 \<le> fd \<and> nat fd \<notin> set (ns_open s) \<and> set (ns_open s') = insert (nat fd) (set (ns_open s))) s"
  using lowest_free_fresh by (auto simp: wp_def new_fd_def sys_call_def split: list.split)

lemma epoll_add_open: "wp (epoll_add fd) (\<lambda>b s'. ns_open s' = ns_open s) s"
  by (auto simp: wp_def epoll_add_def sys_call_def split: list.split)

lemma owns_fds_same: "ns_open s' = ns_open s \<Longrightarrow> owned fds' = owned fds \<Longrightarrow> owns_fds before fds s \<Longrightarrow> owns_fds before fds' s'"
  by (simp add: owns_fds_def)

text \<open>The fields set so far, in the order of the steps.\<close>

definition stage :: "bool list \<Rightarrow> server_fds \<Rightarrow> bool" where
  "stage bs fds \<longleftrightarrow> map (\<lambda>d. d \<noteq> - 1) [sf_listen_fd fds, sf_epoll_fd fds, sf_worker_event_fd fds, sf_timer_fd fds] = bs"

lemma keeps_plain:
  assumes "\<And>fds s. P fds \<Longrightarrow> wp (step fds) (\<lambda>(done, fds') s'. ns_open s' = ns_open s \<and> owned fds' = owned fds \<and> P fds') s"
  shows "keeps_owned before P P step"
  unfolding keeps_owned_def
proof (intro allI impI)
  fix fds s
  assume h: "owns_fds before fds s \<and> P fds"
  show "wp (step fds) (\<lambda>(done, fds') s'. owns_fds before fds' s' \<and> (done \<longrightarrow> P fds')) s"
    by (rule wp_mono [OF assms]) (use h owns_fds_same in auto)
qed

lemma keeps_plain_steps:
  "keeps_owned before (stage bs) (stage bs) (bindAddress I ip)"
  "keeps_owned before (stage bs) (stage bs) startListen"
  "keeps_owned before (stage bs) (stage bs) set_nonblocking"
  "keeps_owned before (stage bs) (stage bs) registerWorkerEventFd"
  "keeps_owned before (stage bs) (stage bs) registerTimerFd"
  "keeps_owned before (stage bs) (stage bs) registerListenFd"
  by (rule keeps_plain; auto simp: wp_def bindAddress_def startListen_def set_nonblocking_def registerWorkerEventFd_def
      registerTimerFd_def registerListenFd_def epoll_add_def sys_call_def stage_def owned_def split: list.splits if_splits)+


text \<open>A new descriptor in a field that was unset.\<close>

definition opened_fd :: "int \<Rightarrow> net_sys \<Rightarrow> net_sys \<Rightarrow> bool" where
  "opened_fd fd s s' \<longleftrightarrow> fd = - 1 \<and> set (ns_open s') = set (ns_open s) \<or>
     0 \<le> fd \<and> nat fd \<notin> set (ns_open s) \<and> set (ns_open s') = insert (nat fd) (set (ns_open s))"

lemma wp_new_fd: "(\<And>fd s'. opened_fd fd s s' \<Longrightarrow> Q fd s') \<Longrightarrow> wp new_fd Q s"
  by (rule wp_mono [OF new_fd_open]) (auto simp: opened_fd_def)

lemma wp_sys_call: "(\<And>b s'. ns_open s' = ns_open s \<Longrightarrow> Q b s') \<Longrightarrow> wp sys_call Q s"
  by (rule wp_mono [OF sys_call_open])

lemma opened_fd_later: "opened_fd fd s s1 \<Longrightarrow> ns_open s2 = ns_open s1 \<Longrightarrow> opened_fd fd s s2"
  by (simp add: opened_fd_def)

lemma owns_fds_set:
  assumes "owns_fds before fds s" "opened_fd fd s s'"
    and "mset (owned fds') = mset (owned fds) + (if fd = - 1 then {#} else {#fd#})"
  shows "owns_fds before fds' s'"
proof -
  have old: "nat d \<in> set (ns_open s)" "0 \<le> d" if "d \<in> set (owned fds)" for d
    using assms(1) that by (auto simp: owns_fds_def)
  have "set (owned fds') = set (owned fds) \<union> (if fd = - 1 then {} else {fd})"
    using arg_cong [OF assms(3), of set_mset] by auto
  moreover have "fd \<noteq> - 1 \<Longrightarrow> fd \<notin> set (owned fds)"
    using assms(2) old by (auto simp: opened_fd_def)
  moreover have "mset (owned fds') = mset (if fd = - 1 then owned fds else fd # owned fds)"
    using assms(3) by simp
  ultimately have "distinct (owned fds')"
    using assms(1) mset_eq_imp_distinct_iff [of "owned fds'" "if fd = - 1 then owned fds else fd # owned fds"]
    by (auto simp: owns_fds_def split: if_splits)
  moreover note \<open>set (owned fds') = set (owned fds) \<union> (if fd = - 1 then {} else {fd})\<close>
  ultimately show ?thesis
    using assms(1,2) by (auto simp: owns_fds_def opened_fd_def)
qed

lemma owned_set:
  "sf_listen_fd fds = - 1 \<Longrightarrow> mset (owned (fds\<lparr>sf_listen_fd := fd\<rparr>)) = mset (owned fds) + (if fd = - 1 then {#} else {#fd#})"
  "sf_epoll_fd fds = - 1 \<Longrightarrow> mset (owned (fds\<lparr>sf_epoll_fd := fd\<rparr>)) = mset (owned fds) + (if fd = - 1 then {#} else {#fd#})"
  "sf_worker_event_fd fds = - 1 \<Longrightarrow> mset (owned (fds\<lparr>sf_worker_event_fd := fd\<rparr>)) = mset (owned fds) + (if fd = - 1 then {#} else {#fd#})"
  "sf_timer_fd fds = - 1 \<Longrightarrow> mset (owned (fds\<lparr>sf_timer_fd := fd\<rparr>)) = mset (owned fds) + (if fd = - 1 then {#} else {#fd#})"
  by (simp_all add: owned_def)

lemma owns_fds_timer [simp]: "owns_fds before fds (s\<lparr>ns_timer := t\<rparr>) = owns_fds before fds s"
  by (simp add: owns_fds_def)

lemma keeps_creating:
  "keeps_owned before (stage [False, False, False, False]) (stage [True, False, False, False]) (createListenSocket I ip)"
  "keeps_owned before (stage [True, False, False, False]) (stage [True, True, False, False]) createEpoll"
  "keeps_owned before (stage [True, True, False, False]) (stage [True, True, True, False]) createWorkerEventFd"
  "keeps_owned before (stage [True, True, True, False]) (stage [True, True, True, True]) (createTimerFd opts)"
  unfolding keeps_owned_def createListenSocket_def createEpoll_def createWorkerEventFd_def createTimerFd_def
  by (intro allI impI wp_if wp_bind wp_new_fd wp_sys_call wp_ret wp_modify;
      auto simp: stage_def intro: owns_fds_set owned_set opened_fd_later)+


lemma keeps_run:
  assumes "keeps_owned before P Q step" "keeps_owned before Q R (run_setup steps)"
  shows "keeps_owned before P R (run_setup (step # steps))"
  unfolding keeps_owned_def run_setup.simps
proof (intro allI impI wp_bind)
  fix fds s
  assume h: "owns_fds before fds s \<and> P fds"
  have "wp (step fds) (\<lambda>(done, fds') s'. owns_fds before fds' s' \<and> (done \<longrightarrow> Q fds')) s"
    using assms(1) h by (simp add: keeps_owned_def)
  then show "wp (step fds) (\<lambda>a. wp (case a of (done, fds') \<Rightarrow> if done then run_setup steps fds' else ret (False, fds'))
      (\<lambda>(done, fds') s'. owns_fds before fds' s' \<and> (done \<longrightarrow> R fds'))) s"
    by (rule wp_mono) (use assms(2) in \<open>auto simp: keeps_owned_def intro!: wp_ret\<close>)
qed

lemma keeps_setup:
  "keeps_owned before (stage [False, False, False, False]) (stage [True, True, True, True]) (run_setup (setup_steps I ip opts))"
proof -
  have "keeps_owned before (stage bs) (stage bs) (run_setup [])" for bs
    by (simp add: keeps_owned_def wp_ret)
  note last = keeps_run [OF keeps_plain_steps(6) this]
  show ?thesis
    unfolding setup_steps_def
    by (rule keeps_run [OF keeps_creating(1) keeps_run [OF keeps_plain_steps(1) keeps_run [OF keeps_plain_steps(2)
      keeps_run [OF keeps_plain_steps(3) keeps_run [OF keeps_creating(2) keeps_run [OF keeps_creating(3)
      keeps_run [OF keeps_plain_steps(4) keeps_run [OF keeps_creating(4) keeps_run [OF keeps_plain_steps(5) last]]]]]]]]])
qed

lemma release_fds_closes:
  assumes "owns_fds before fds s"
  shows "\<exists>s'. run_state (release_fds fds) s =
      (fds\<lparr>sf_listen_fd := - 1, sf_worker_event_fd := - 1, sf_timer_fd := - 1, sf_epoll_fd := - 1\<rparr>, s') \<and>
    set (ns_open s') = before"
proof -
  have closed: "n \<notin> before" if "int n \<in> set (owned fds)" for n
    using assms that by (force simp: owns_fds_def)
  have kept: "int n \<in> set (owned fds) \<or> n \<in> before" if "n \<in> set (ns_open s)" for n
    using assms that by (force simp: owns_fds_def)
  have one: "\<exists>s'. run_state (release_one d) v = ((), s') \<and> set (ns_open s') = {n \<in> set (ns_open v). int n \<noteq> d \<or> d = - 1}" for d v
    by (auto simp: release_one_def close_fd_def)
  obtain s1 where 1: "run_state (release_one (sf_listen_fd fds)) s = ((), s1)"
      "set (ns_open s1) = {n \<in> set (ns_open s). int n \<noteq> sf_listen_fd fds \<or> sf_listen_fd fds = - 1}" using one by blast
  obtain s2 where 2: "run_state (release_one (sf_worker_event_fd fds)) s1 = ((), s2)"
      "set (ns_open s2) = {n \<in> set (ns_open s1). int n \<noteq> sf_worker_event_fd fds \<or> sf_worker_event_fd fds = - 1}" using one by blast
  obtain s3 where 3: "run_state (release_one (sf_timer_fd fds)) s2 = ((), s3)"
      "set (ns_open s3) = {n \<in> set (ns_open s2). int n \<noteq> sf_timer_fd fds \<or> sf_timer_fd fds = - 1}" using one by blast
  obtain s4 where 4: "run_state (release_one (sf_epoll_fd fds)) s3 = ((), s4)"
      "set (ns_open s4) = {n \<in> set (ns_open s3). int n \<noteq> sf_epoll_fd fds \<or> sf_epoll_fd fds = - 1}" using one by blast
  have "set (ns_open s4) = before"
    using 1(2) 2(2) 3(2) 4(2) closed kept assms by (auto simp: owned_def owns_fds_def split: if_splits)
  then show ?thesis using 1(1) 2(1) 3(1) 4(1) by (simp add: release_fds_def)
qed


section \<open>Nothing stays open\<close>

lemma timer_runs: "timer_period opts \<noteq> (0, 0)"
proof -
  have "max 1 (to_scan_interval_ms opts) \<noteq> 0" by simp
  then show ?thesis
    by (metis (no_types, lifting) timer_period_def Pair_inject div_mult_mod_eq add.right_neutral mult_zero_left mult_eq_0_iff
        zero_neq_numeral)
qed


text \<open>A start that fails when the descriptor of the workers is registered.\<close>

definition failing_start :: "(bool \<times> server_fds) \<times> net_sys" where
  "failing_start =
     run_state (start \<lparr>inet_pton4 = (\<lambda>_. True), inet_pton6 = (\<lambda>_. False)\<rparr> ''0.0.0.0''
       \<lparr>to_idle_timeout_ms = 300000, to_heartbeat_timeout_ms = 90000, to_scan_interval_ms = 1000\<rparr> (ret ()) False (server_fds_new 8080))
       \<lparr>ns_open = [2, 1, 0], ns_answers = [True, True, True, True, True, True, True, True, False], ns_polled = [],
         ns_timer = None, ns_bound_port = 0\<rparr>"


end
