(* ===== verification/Client.thy ===== *)
theory Client
  imports PacketCodec
begin

text \<open>
  The interactive client, \<^verbatim>\<open>src/client/client.cc\<close>: it asks for a line until one is not empty, sends it as one
  packet and prints the first line of the answer. Terminal and socket are inputs; a result of
  \<^term>\<open>None\<close> means that the client waits for more input, or loops for ever.
\<close>

section \<open>The program\<close>

text \<open>
  \<^verbatim>\<open>getline\<close> stores at most 1023 characters; a longer line makes it fail, as the end of the input does, and
  then every later call fails with an empty buffer.
\<close>

definition kInputSize :: nat where
  "kInputSize = 1023"

definition buffered :: "string \<Rightarrow> string" where
  "buffered line = takeWhile (\<lambda>c. c \<noteq> CHR 0x00) (take kInputSize line)"

fun ask_line :: "string list \<Rightarrow> string option" where
  "ask_line [] = None"
| "ask_line (line # lines) =
     (if buffered line \<noteq> [] then Some (buffered line)
      else if length line > kInputSize then None else ask_line lines)"

text \<open>The results of \<^verbatim>\<open>write\<close>, at most what was offered; and what \<^verbatim>\<open>read\<close> answers.\<close>

fun write_all :: "int list \<Rightarrow> string \<Rightarrow> string \<Rightarrow> (bool \<times> string) option" where
  "write_all answers sent rest =
     (if rest = [] then Some (True, sent)
      else case answers of
        [] \<Rightarrow> None
      | n # ns \<Rightarrow>
          if n \<le> 0 then Some (False, sent)
          else write_all ns (sent @ take (nat n) rest) (drop (nat n) rest))"

datatype read_answer = ReadBytes string | ReadFailed | ReadClosed

fun read_line :: "read_answer list \<Rightarrow> string \<Rightarrow> string option option" where
  "read_line answers response =
     (if newline \<in> set response then Some (Some (takeWhile (\<lambda>c. c \<noteq> newline) response))
      else case answers of
        [] \<Rightarrow> None
      | ReadBytes bytes # rest \<Rightarrow> read_line rest (response @ bytes)
      | _ # rest \<Rightarrow> Some None)"

text \<open>The exit code, the bytes sent and the line printed.\<close>

record client_end =
  ce_code :: nat
  ce_sent :: string
  ce_printed :: "string option"

definition client_main :: "bool \<Rightarrow> string list \<Rightarrow> int list \<Rightarrow> read_answer list \<Rightarrow> client_end option" where
  "client_main connected lines writes reads =
     (if \<not> connected then Some \<lparr>ce_code = 1, ce_sent = [], ce_printed = None\<rparr>
      else case ask_line lines of
        None \<Rightarrow> None
      | Some request \<Rightarrow>
          (case write_all writes [] (encode request) of
             None \<Rightarrow> None
           | Some (False, sent) \<Rightarrow> Some \<lparr>ce_code = 1, ce_sent = sent, ce_printed = None\<rparr>
           | Some (True, sent) \<Rightarrow>
               (case read_line reads [] of
                  None \<Rightarrow> None
                | Some None \<Rightarrow> Some \<lparr>ce_code = 1, ce_sent = sent, ce_printed = None\<rparr>
                | Some (Some line) \<Rightarrow> Some \<lparr>ce_code = 0, ce_sent = sent, ce_printed = Some line\<rparr>)))"

section \<open>What it does\<close>

text \<open>A client that succeeds has sent its whole request, and prints the answer however it arrived.\<close>

lemma write_all_sends: "write_all answers sent rest = Some (True, sent') \<Longrightarrow> sent' = sent @ rest"
proof (induction answers sent rest rule: write_all.induct)
  case (1 answers sent rest)
  then show ?case by (cases answers) (auto simp: write_all.simps [of _ _ rest] split: if_splits)
qed

lemma first_line [simp]: "newline \<notin> set line \<Longrightarrow> takeWhile (\<lambda>c. c \<noteq> newline) (line @ newline # rest) = line"
  by (subst takeWhile_append2) auto

lemma read_line_chunks:
  assumes "newline \<notin> set line"
  shows "response @ concat chunks = line @ newline # rest \<Longrightarrow>
    newline \<notin> set response \<or> (\<exists>tail. response = line @ newline # tail) \<Longrightarrow>
    read_line (map ReadBytes chunks) response = Some (Some line)"
proof (induction chunks arbitrary: response)
  case Nil
  then show ?case using assms by (auto simp: read_line.simps)
next
  case (Cons chunk chunks)
  show ?case
  proof (cases "newline \<in> set response")
    case True
    then show ?thesis using Cons.prems(2) assms by (auto simp: read_line.simps)
  next
    case False
    have all: "(response @ chunk) @ concat chunks = line @ newline # rest" using Cons.prems(1) by simp
    have "newline \<notin> set (response @ chunk) \<or> (\<exists>tail. response @ chunk = line @ newline # tail)"
      using arg_cong [OF all, of "take (length (response @ chunk))"] assms
      by (cases "length (response @ chunk) \<le> length line") (auto simp: take_Cons' dest: in_set_takeD split: if_splits)
    from Cons.IH [OF all this] show ?thesis using False by (simp add: read_line.simps [of "ReadBytes _ # _"])
  qed
qed

lemma client_round_trip:
  assumes "ask_line lines = Some request" "write_all writes [] (encode request) = Some (True, sent)"
    and "newline \<notin> set answer" "concat chunks = encode answer @ more_bytes"
  shows "client_main True lines writes (map ReadBytes chunks) =
    Some \<lparr>ce_code = 0, ce_sent = encode request, ce_printed = Some answer\<rparr>"
  using assms write_all_sends [OF assms(2)] read_line_chunks [OF assms(3), of "[]" chunks more_bytes]
  by (simp add: client_main_def encode_def)

end
