(* ===== verification/MysqlStatement.thy ===== *)
theory MysqlStatement
  imports Effects "HOL-Library.Word"
begin

text \<open>
  The prepared statement, \<^verbatim>\<open>src/src/db/mysql_statement.cc\<close>: a handle of the client library that may be null, and
  the binding of parameters by type. The library is a record of the functions that are called, on a
  state of its own. The statements of the repositories are run through it; what they do to the tables
  is modelled in the theory \<^verbatim>\<open>MySql\<close>.
\<close>

datatype StatementParam = StringParam string | Int32Param "32 word" | Int64Param "64 word"

text \<open>A binding with the type the library is told, the buffer and, for text, its length.\<close>

datatype mysql_bind = BindString string nat | BindLong "32 word" | BindLongLong "64 word"

record ('s, 'h) mysql_api =
  my_stmt_init :: "('s, 'h option) state"
  my_stmt_close :: "'h \<Rightarrow> ('s, unit) state"
  my_stmt_prepare :: "'h \<Rightarrow> string \<Rightarrow> ('s, int) state"
  my_stmt_param_count :: "'h \<Rightarrow> 's \<Rightarrow> nat"
  my_stmt_bind_param :: "'h \<Rightarrow> mysql_bind list \<Rightarrow> ('s, int) state"
  my_stmt_execute :: "'h \<Rightarrow> ('s, int) state"
  my_stmt_store_result :: "'h \<Rightarrow> ('s, int) state"
  my_stmt_bind_result :: "'h \<Rightarrow> nat list \<Rightarrow> ('s, int) state"
  my_stmt_fetch :: "'h \<Rightarrow> ('s, int) state"
  my_stmt_errno :: "'h \<Rightarrow> 's \<Rightarrow> nat"
  my_stmt_affected_rows :: "'h \<Rightarrow> 's \<Rightarrow> nat"
  my_stmt_insert_id :: "'h \<Rightarrow> 's \<Rightarrow> nat"

definition stmt_new :: "('s, 'h) mysql_api \<Rightarrow> ('s, 'h option) state" where
  "stmt_new api = my_stmt_init api"

definition stmt_close :: "('s, 'h) mysql_api \<Rightarrow> 'h option \<Rightarrow> ('s, unit) state" where
  "stmt_close api stmt = (case stmt of None \<Rightarrow> ret () | Some h \<Rightarrow> my_stmt_close api h)"

definition stmt_Prepare :: "('s, 'h) mysql_api \<Rightarrow> 'h option \<Rightarrow> string \<Rightarrow> ('s, bool) state" where
  "stmt_Prepare api stmt sql =
     (case stmt of None \<Rightarrow> ret False | Some h \<Rightarrow> do { r \<leftarrow> my_stmt_prepare api h sql; ret (r = 0) })"

fun bind_param :: "StatementParam \<Rightarrow> mysql_bind" where
  "bind_param (StringParam s) = BindString s (length s)"
| "bind_param (Int32Param i) = BindLong i"
| "bind_param (Int64Param i) = BindLongLong i"

text \<open>A null pointer to the parameters is \<^term>\<open>None\<close>.\<close>

definition stmt_Execute :: "('s, 'h) mysql_api \<Rightarrow> 'h option \<Rightarrow> StatementParam list option \<Rightarrow> ('s, bool) state" where
  "stmt_Execute api stmt params =
     (case (stmt, params) of
        (Some h, Some ps) \<Rightarrow> do {
          count \<leftarrow> gets (my_stmt_param_count api h);
          if count \<noteq> length ps then ret False
          else do {
            r \<leftarrow> (if ps = [] then ret 0 else my_stmt_bind_param api h (map bind_param ps));
            if r \<noteq> 0 then ret False
            else do { e \<leftarrow> my_stmt_execute api h; ret (e = 0) }
          }
        }
      | _ \<Rightarrow> ret False)"

definition stmt_StoreResult :: "('s, 'h) mysql_api \<Rightarrow> 'h option \<Rightarrow> ('s, bool) state" where
  "stmt_StoreResult api stmt =
     (case stmt of None \<Rightarrow> ret False | Some h \<Rightarrow> do { r \<leftarrow> my_stmt_store_result api h; ret (r = 0) })"

text \<open>The bindings of a result are described by the sizes of their buffers.\<close>

definition stmt_BindResult :: "('s, 'h) mysql_api \<Rightarrow> 'h option \<Rightarrow> nat list option \<Rightarrow> ('s, bool) state" where
  "stmt_BindResult api stmt bindings =
     (case (stmt, bindings) of
        (Some h, Some bs) \<Rightarrow> do { r \<leftarrow> my_stmt_bind_result api h bs; ret (r = 0) }
      | _ \<Rightarrow> ret False)"

definition stmt_Fetch :: "('s, 'h) mysql_api \<Rightarrow> 'h option \<Rightarrow> ('s, int) state" where
  "stmt_Fetch api stmt = (case stmt of None \<Rightarrow> ret 1 | Some h \<Rightarrow> my_stmt_fetch api h)"

definition stmt_ErrorNumber :: "('s, 'h) mysql_api \<Rightarrow> 'h option \<Rightarrow> 's \<Rightarrow> nat" where
  "stmt_ErrorNumber api stmt s = (case stmt of None \<Rightarrow> 0 | Some h \<Rightarrow> my_stmt_errno api h s)"

definition stmt_AffectedRows :: "('s, 'h) mysql_api \<Rightarrow> 'h option \<Rightarrow> 's \<Rightarrow> nat" where
  "stmt_AffectedRows api stmt s = (case stmt of None \<Rightarrow> 0 | Some h \<Rightarrow> my_stmt_affected_rows api h s)"

definition stmt_InsertId :: "('s, 'h) mysql_api \<Rightarrow> 'h option \<Rightarrow> 's \<Rightarrow> nat" where
  "stmt_InsertId api stmt s = (case stmt of None \<Rightarrow> 0 | Some h \<Rightarrow> my_stmt_insert_id api h s)"

text \<open>A statement is executed only with as many parameters as it has, each bound with its own type, and all
  calls on a statement that could not be created fail without touching the library.\<close>

lemma stmt_Execute_binds:
  assumes "run_state (stmt_Execute api stmt params) s = (True, s')"
  shows "\<exists>h ps s1. stmt = Some h \<and> params = Some ps \<and> my_stmt_param_count api h s = length ps \<and>
    (if ps = [] then s1 = s else run_state (my_stmt_bind_param api h (map bind_param ps)) s = (0, s1)) \<and>
    run_state (my_stmt_execute api h) s1 = (0, s')"
  using assms
  by (auto simp: stmt_Execute_def split: option.splits if_splits prod.splits)

lemma null_statement_fails:
  "run_state (stmt_Prepare api None sql) s = (False, s)" "run_state (stmt_Execute api None params) s = (False, s)"
  "run_state (stmt_StoreResult api None) s = (False, s)" "run_state (stmt_BindResult api None bs) s = (False, s)"
  "run_state (stmt_Fetch api None) s = (1, s)" "stmt_ErrorNumber api None s = 0"
  by (simp_all add: stmt_Prepare_def stmt_Execute_def stmt_StoreResult_def stmt_BindResult_def stmt_Fetch_def
      stmt_ErrorNumber_def)

end
