(* ===== verification/Spec2Isabelle.thy ===== *)
theory Spec2Isabelle
  imports PacketCodec ConnectionContext Samples DbPool RedisPool System Progress ServerProperties ConfigLoader LoggerRuns
    Startup ServerStart Client MysqlStatement
begin

text \<open>
  A verification library for a chat server in C++: one I/O thread on epoll with a pool of workers, a JSON
  protocol in newline-separated packets, MySQL for users, friendships, groups and messages, and Redis
  for sessions, rate limits, caches and pushes between servers. File names are relative to the
  directory that holds \<^verbatim>\<open>src/\<close>.

  \<^bold>\<open>How the parts interact.\<close> Bytes of a client enter \<^verbatim>\<open>TcpServer\<close>, are cut into packets and queued per
  connection, one request at a time. A worker hands the packet to \<^verbatim>\<open>MessageHandler\<close>, which decodes it, checks
  the token and calls one of four services. The services use repositories (MySQL through a pool), the
  local session table, and the Redis store, limiter and caches. The result goes back to the I/O thread as
  a response, pushes to other connections and a session action; pushes for users of other servers go
  over Redis streams. \<^verbatim>\<open>main\<close> loads the configuration, starts the logger and wires the objects.

  \<^bold>\<open>Conventions.\<close> A struct is a record, an enumeration a datatype, a method a function of the same name on the
  record of its class. Stateful code is in the state monad; an error return or an exception is a value of
  an option, a sum or a status field. Integers have their C++ width where it matters (words, or
  explicit wrap-around and range conditions). Strings are lists of bytes. The clock, process id, random
  numbers and the answers of system calls are inputs. The library functions of nlohmann::json,
  libcrypt, hiredis, the MySQL client and \<^verbatim>\<open>std::hash\<close> are parameters; what is needed of them is a named
  hypothesis, and each property that has one is applied to a concrete instance.

  \<^bold>\<open>Theories.\<close>
  \<^item> \<^verbatim>\<open>Prelude\<close>, \<^verbatim>\<open>Effects\<close>, \<^verbatim>\<open>Text\<close>, \<^verbatim>\<open>CondVar\<close>: shared vocabulary, the weakest precondition calculus of the state monad and
    the locale \<^verbatim>\<open>preorder_guarantee\<close> (an invariant and a relation that programs keep), number formats, and
    threads at a condition variable.
  \<^item> \<^verbatim>\<open>Models\<close>, \<^verbatim>\<open>Validator\<close>, \<^verbatim>\<open>PacketCodec\<close>, \<^verbatim>\<open>JsonCodec\<close>: the records of \<^verbatim>\<open>src/include/model\<close> and
    \<^verbatim>\<open>src/include/protocol\<close>, \<^verbatim>\<open>src/src/common/validator.cc\<close> and the two codecs of \<^verbatim>\<open>src/src/codec\<close>. The UTF-8 decoder
    is exact, and the packet decoder refines the splitting of the whole byte stream, however it is chunked.
  \<^item> \<^verbatim>\<open>MySql\<close>, \<^verbatim>\<open>MysqlStatement\<close>, \<^verbatim>\<open>DbSchedule\<close>, \<^verbatim>\<open>UserRepository\<close>, \<^verbatim>\<open>FriendRepository\<close>, \<^verbatim>\<open>GroupRepository\<close>, \<^verbatim>\<open>MessageRepository\<close>,
    \<^verbatim>\<open>DbPool\<close>: \<^verbatim>\<open>src/src/db\<close> and the schema in \<^verbatim>\<open>src/sql\<close>. Statements run against tables under a schedule of commits by
    other clients, failures and lost connections. Each repository is shown to keep the tables
    consistent and to do exactly what it reports; the pool counts exactly and loses no wake-up.
  \<^item> \<^verbatim>\<open>Redis\<close>, \<^verbatim>\<open>RedisPool\<close>, \<^verbatim>\<open>SessionStore\<close>, \<^verbatim>\<open>Caches\<close>, \<^verbatim>\<open>RedisPushStream\<close>: \<^verbatim>\<open>src/src/redis\<close>, \<^verbatim>\<open>src/src/server\<close>, \<^verbatim>\<open>src/src/cache\<close> and
    \<^verbatim>\<open>src/src/stream\<close>, over a key space with expiry and a schedule of the same kind.
  \<^item> \<^verbatim>\<open>SessionManager\<close>, \<^verbatim>\<open>PasswordHasher\<close>, \<^verbatim>\<open>UserService\<close>, \<^verbatim>\<open>ChatService\<close>, \<^verbatim>\<open>FriendService\<close>, \<^verbatim>\<open>GroupService\<close>: the local session table,
    \<^verbatim>\<open>src/src/security\<close> and \<^verbatim>\<open>src/src/service\<close>. The services are verified inside locales (\<^verbatim>\<open>chat_backend\<close>,
    \<^verbatim>\<open>user_backend\<close>, \<^verbatim>\<open>friend_backend\<close>, \<^verbatim>\<open>group_backend\<close>) over the contracts of their repositories.
  \<^item> \<^verbatim>\<open>World\<close>, \<^verbatim>\<open>Samples\<close>: the objects \<^verbatim>\<open>main\<close> wires (\<^verbatim>\<open>src/src/main.cc\<close>) on one database, one Redis and one
    session table; it interprets these locales. \<^verbatim>\<open>Samples\<close> is a small concrete world.
  \<^item> \<^verbatim>\<open>ConnectionContext\<close>, \<^verbatim>\<open>TcpServer\<close>, \<^verbatim>\<open>ServerTables\<close>, \<^verbatim>\<open>ServerFlow\<close>, \<^verbatim>\<open>ServerRuns\<close>, \<^verbatim>\<open>PushOutcomes\<close>, \<^verbatim>\<open>Progress\<close>, \<^verbatim>\<open>ServerStart\<close>:
    \<^verbatim>\<open>src/src/ConnectionContext.cc\<close>, \<^verbatim>\<open>src/src/TcpServer.cc\<close> and \<^verbatim>\<open>src/src/concurrency/thread_pool.cc\<close>. All interleavings are
    the relation \<^verbatim>\<open>server_step\<close>; the invariants of the tables, of the requests in progress and of remote
    pushes hold in every reachable state, and the work the server does on its own ends. \<^verbatim>\<open>ServerStart\<close>
    shows that the descriptors of \<^verbatim>\<open>start\<close> are released on every path.
  \<^item> \<^verbatim>\<open>MessageHandler\<close>, \<^verbatim>\<open>ServerWorld\<close>, \<^verbatim>\<open>HandlerWorld\<close>, \<^verbatim>\<open>System\<close>, \<^verbatim>\<open>SampleJson\<close>, \<^verbatim>\<open>SampleRun\<close>, \<^verbatim>\<open>ServerProperties\<close>:
    \<^verbatim>\<open>src/src/handler/message_handler.cc\<close> and the composition of server, handler, services and stores. What every
    service keeps of the stored data, every run of the whole server keeps.
  \<^item> \<^verbatim>\<open>ConfigLoader\<close>, \<^verbatim>\<open>LogSinks\<close>, \<^verbatim>\<open>RollingLog\<close>, \<^verbatim>\<open>Logger\<close>, \<^verbatim>\<open>LoggerRuns\<close>, \<^verbatim>\<open>Startup\<close>, \<^verbatim>\<open>Client\<close>:
    \<^verbatim>\<open>src/src/config/config_loader.cc\<close>, \<^verbatim>\<open>src/src/common/logger.cc\<close>, the start of \<^verbatim>\<open>main\<close>, and \<^verbatim>\<open>src/client/client.cc\<close>. A loaded
    configuration is valid, the logger loses no line without counting it, and the rolling files are those
    of a specification.
  \<^item> This theory: the properties that span components. Those of one component are in its theory.

  \<^bold>\<open>Granularity.\<close> Code under a mutex is one step. In the server, each callback or loop iteration of the I/O
  thread and each part of a worker task between two queue operations is a step; a call of the handler
  is atomic with respect to the other workers of the same server, while the schedules of MySQL and Redis
  interleave other clients between any two statements. A write to the event descriptor succeeds
  or finds it already set.

  \<^bold>\<open>Bounds and fuel.\<close> Loops over system calls (reading, writing, accepting) consume a list of answers; a run
  with enough answers is one of the runs of the step relation. \<^verbatim>\<open>pull_pages\<close> takes as fuel a number above
  the number of stored messages, which is enough as every page but the last is full. The loop of the
  stream consumer is a number of rounds, and its properties hold for every number. All other
  definitions are total.

  \<^bold>\<open>Not modelled.\<close> The log output inside the components other than the logger; how threads are created and
  scheduled beyond the interleavings above; the internals of MySQL, Redis, libcrypt and the JSON
  parser; memory allocation failures. Test code, benchmarks and deployment scripts are not part of the
  development.
\<close>

section \<open>Messages\<close>

text \<open>C1. \<^verbatim>\<open>sendMessage\<close> answers \<^verbatim>\<open>OK\<close> only when the message is durable: the caller's connection has an
  authenticated session, the content and the client id pass validation, the receiver exists and is
  someone else, and the database has a row with exactly this sender, receiver, client id and
  content and with the message id, conversation, sequence number and time the result reports. The
  connections to push to are the receiver's own and the ones to synchronise are the sender's others.
  Any other answer names no message and no connection. This holds with Redis on or off and under
  every failure and interleaving of the database, of Redis and of the session registry.\<close>

theorem sendMessage_durable:
  assumes "w_inv cfg w" "run_state (sendMessage (chat_service cfg push) inputs conn req) w = (res, w')"
  shows "w_inv cfg w' \<and>
    (if sr_code res = OK
     then \<exists>session. GetSession conn (w_sessions w) = Some session \<and> send_checked session req \<and>
       (\<exists>u \<in> set (w_users w'). u_id u = sm_to_user_id req) \<and>
       (\<exists>row \<in> set (w_rows w'). sent_row session req res row) \<and>
       (sr_to_conn_ids res = [] \<or> sr_to_conn_ids res = GetConnectionIds (sm_to_user_id req) (w_sessions w')) \<and>
       (sr_sender_sync_conn_ids res = [] \<or> sr_sender_sync_conn_ids res =
          filter (\<lambda>c. c \<noteq> conn) (GetConnectionIds (cs_user_id session) (w_sessions w')))
     else no_delivery res)"
proof -
  have session: "GetSession conn (w_sessions w) = w_sess w conn"
    and ids: "GetConnectionIds uid (w_sessions w') = w_conns w' uid" for uid
    using world_sessions.get_session [of conn w] world_sessions.get_ids [of uid w']
    by (simp_all add: session_manager_def)
  have "chat.send_post cfg conn req w res w'"
    using chat.sendMessage_wp [OF assms(1)] assms(2) by (rule wpD)
  then show ?thesis
    unfolding chat.send_post_def chat.sent_post_def session ids
    by (cases "sr_code res = OK") (simp_all only: if_True if_False simp_thms, blast)
qed

theorem sendMessage_durable_witness:
  "\<exists>row \<in> set (w_rows (snd sample_send)). sent_row alice_session sample_request (fst sample_send) row"
  using sendMessage_durable [OF sample_world_inv, of default_RedisConfig None sample_inputs 10 sample_request
      "fst sample_send" "snd sample_send"] sample_sends(1) sample_session_bound
  by (simp add: sample_send_def)

text \<open>C2. Sending is idempotent end to end. When two sends of one user with the same client message id both
  answer \<^verbatim>\<open>OK\<close>, whatever happened in between, they report the same message id, sequence number and
  time, and the second asked for the same receiver and content; so a retry never stores a second
  message, and a reused client id never passes as another message.\<close>

theorem sendMessage_exactly_once:
  assumes "w_inv cfg w" "run_state (sendMessage (chat_service cfg push) inputs1 conn1 req1) w = (res1, w1)"
    "sr_code res1 = OK"
    and "w_later w1 w2" "w_inv cfg w2"
    and "run_state (sendMessage (chat_service cfg push) inputs2 conn2 req2) w2 = (res2, w3)" "sr_code res2 = OK"
    and "GetSession conn1 (w_sessions w) = Some s1" "GetSession conn2 (w_sessions w2) = Some s2"
      "cs_user_id s1 = cs_user_id s2" "sm_client_msg_id req1 = sm_client_msg_id req2"
  shows "sr_message_id res2 = sr_message_id res1 \<and> sr_sequence res2 = sr_sequence res1 \<and>
    sr_created_at res2 = sr_created_at res1 \<and> sm_to_user_id req2 = sm_to_user_id req1 \<and>
    sm_content req2 = sm_content req1"
proof -
  have session: "GetSession conn (w_sessions w) = w_sess w conn" for conn w
    using world_sessions.get_session [of conn w] by (simp add: session_manager_def)
  show ?thesis
    using assms(8,9) unfolding session by (rule chat.resend_same_message [OF assms(1-7) _ _ assms(10,11)])
qed

theorem sendMessage_exactly_once_witness:
  "sr_message_id (fst sample_resend) = sr_message_id (fst sample_send) \<and>
   sr_sequence (fst sample_resend) = sr_sequence (fst sample_send)"
proof -
  have "w_inv default_RedisConfig (snd sample_send)"
    using chat.sendMessage_wp [OF sample_world_inv, of default_RedisConfig None sample_inputs 10 sample_request]
    by (simp add: wp_def chat.send_post_def sample_send_def split_beta)
  then show ?thesis
    using sendMessage_exactly_once [of default_RedisConfig sample_world None sample_inputs 10 sample_request
        "fst sample_send" "snd sample_send" "snd sample_send" "sample_inputs\<lparr>si_msg_seq := 2\<rparr>" 10 sample_request
        "fst sample_resend" "snd sample_resend" alice_session alice_session]
      sample_world_inv sample_sends sample_session_bound world.R_refl
    by (simp add: sample_send_def sample_resend_def)
qed




section \<open>Accounts\<close>

text \<open>C3. A registration that answers \<^verbatim>\<open>OK\<close> has validated its fields and stored a new user with the
  requested name and nickname and a hash that verifies the chosen password; nobody had that id or
  (up to the collation of the database) that name before, and no later registration of the name
  answers \<^verbatim>\<open>OK\<close>, however many run in parallel. Any other answer names no user.\<close>

theorem registration_unique:
  assumes "w_inv cfg w" "crypt_documented lib"
    and "run_state (registerUser (user_service cfg lib) inputs req identity) w = (res, w')"
  shows "w_inv cfg w' \<and>
    (if rg_code res = OK
     then register_checked req \<and>
       (\<exists>u \<in> set (w_users w'). u_id u = rrd_user_id (rg_data res) \<and> 0 < u_id u \<and>
          u_username u = rr_username req \<and> u_nickname u = rr_nickname req \<and>
          Verify lib (rr_password req) (u_password_hash u)) \<and>
       (\<forall>v \<in> set (w_users w). u_id v \<noteq> rrd_user_id (rg_data res) \<and>
          w_key w (u_username v) \<noteq> w_key w (rr_username req)) \<and>
       (\<forall>w2 inputs2 req2 identity2. w_later w' w2 \<and> w_inv cfg w2 \<and>
          w_key w (rr_username req) = w_key w (rr_username req2) \<longrightarrow>
          rg_code (fst (run_state (registerUser (user_service cfg lib) inputs2 req2 identity2) w2)) \<noteq> OK)
     else rrd_user_id (rg_data res) = 0)"
proof -
  have post: "accounts.register_post cfg lib inputs req w res w'"
    using accounts.registerUser_wp [OF assms(1)] assms(3) by (rule wpD)
  have hash: "ph_Hash (us_password_hasher (user_service cfg lib)) (ui_salt inputs) (rr_password req) = Some e \<Longrightarrow>
      Verify lib (rr_password req) e" for e
    using password_hash_verifies [OF assms(2)] by (simp add: user_service_def bcrypt_hasher_ops_def)
  have "rg_code (fst (run_state (registerUser (user_service cfg lib) inputs2 req2 identity2) w2)) \<noteq> OK"
    if "rg_code res = OK" "w_later w' w2" "w_inv cfg w2" "w_key w (rr_username req) = w_key w (rr_username req2)"
    for w2 inputs2 req2 identity2
    by (rule accounts.register_once [OF assms(1,3) that(1-3) prod.collapse [symmetric] that(4)])
  then show ?thesis
    using post hash unfolding accounts.register_post_def
    by (cases "rg_code res = OK") (simp_all only: if_True if_False simp_thms, blast)
qed

theorem registration_unique_witness:
  "rg_code (fst sample_register) = OK \<and>
   (\<exists>u \<in> set (w_users (snd sample_register)). u_username u = ''dave'' \<and>
      Verify sample_libcrypt ''secret'' (u_password_hash u))"
  using registration_unique [OF busy_world_inv [of default_RedisConfig] sample_libcrypt_documented, of user_inputs
      register_request "[]" "fst sample_register" "snd sample_register"] sample_register_ok
  by (simp add: sample_register_def [symmetric]) (auto simp: register_request_def)

text \<open>C4. A login answers \<^verbatim>\<open>OK\<close> only with the right password: some stored user has the requested name (up to
  the collation) and a hash that verifies the password, the session and the response are for exactly
  that user, and the token has 64 hexadecimal digits. Any other answer carries no session and no
  token.\<close>

theorem login_needs_password:
  assumes "w_inv cfg w" "run_state (login (user_service cfg lib) inputs req conn identity) w = (res, w')"
  shows "w_inv cfg w' \<and>
    (if lg_code res = OK
     then login_checked req \<and>
       (\<exists>wl u tok. w_later w wl \<and> w_later wl w' \<and> u \<in> set (w_users wl) \<and> 0 < u_id u \<and>
          w_key w (u_username u) = w_key w (lr_username req) \<and>
          Verify lib (lr_password req) (u_password_hash u) \<and>
          lg_session res = login_session u tok \<and> lrd_user_id (lg_data res) = u_id u \<and>
          lrd_token (lg_data res) = tok \<and> ok (Token tok))
     else lg_session res = no_session \<and> lrd_token (lg_data res) = [])"
proof -
  have post: "accounts.login_post cfg lib req w res w'"
    using accounts.login_wp [OF assms(1)] assms(2) by (rule wpD)
  have "ph_Verify (us_password_hasher (user_service cfg lib)) = Verify lib"
    by (simp add: user_service_def bcrypt_hasher_ops_def)
  then show ?thesis
    using post unfolding accounts.login_post_def
    by (cases "lg_code res = OK") (simp_all only: if_True if_False simp_thms)
qed

theorem login_needs_password_witness:
  "lg_code (fst sample_login) = OK \<and> ok (Token (lrd_token (lg_data (fst sample_login))))"
  using login_needs_password [OF busy_world_inv [of default_RedisConfig], of sample_libcrypt user_inputs
      login_request 11 "[]" "fst sample_login" "snd sample_login"] sample_login_ok
  by (auto simp: sample_login_def [symmetric])

section \<open>Friends and groups\<close>



text \<open>C7. A message to a group reaches every other member or the answer is not \<^verbatim>\<open>OK\<close>: the caller is a member,
  the receivers reported are exactly the other members at one moment during the call, and for each
  of them the database has a row with the content from the caller under the reported id.\<close>

theorem group_message_reaches_members:
  assumes "w_inv cfg w" "run_state (sendGroupMessage (group_service cfg string_hash) inputs conn req) w = (res, w')"
    and "sgr_code res = OK"
  shows "\<exists>s w1. GetSession conn (w_sessions w) = Some s \<and> cs_authenticated s \<and> w_later w w1 \<and> w_later w1 w' \<and>
    cs_user_id s \<in> gm_user_id ` members_in (sg_group_id req) (w_db w1) \<and>
    set (map gd_to_user_id (sgr_messages res)) =
      gm_user_id ` members_in (sg_group_id req) (w_db w1) - {cs_user_id s} \<and>
    (\<forall>d \<in> set (sgr_messages res). \<exists>row \<in> set (w_rows w'). member_copy (cs_user_id s) req d row)"
proof -
  have session: "GetSession conn (w_sessions w) = w_sess w conn"
    using world_sessions.get_session [of conn w] by (simp add: session_manager_def)
  have "groups.group_sent cfg conn req w res w'"
    using groups.sendGroupMessage_wp [OF assms(1)] assms(2) by (rule wpD)
  then show ?thesis
    using assms(3) unfolding groups.group_sent_def session by blast
qed

theorem group_message_reaches_members_witness:
  "sgr_code (fst sample_group_send) = OK \<and>
   list_all (\<lambda>d. \<exists>row \<in> set (w_rows (snd sample_group_send)). member_copy 1 group_request d row)
     (sgr_messages (fst sample_group_send))"
  using group_message_reaches_members [OF busy_world_inv [of default_RedisConfig], of "\<lambda>_. 0" group_inputs 10
      group_request "fst sample_group_send" "snd sample_group_send"] sample_group_send_ok alice_logged_in
  by (auto simp: sample_group_send_def [symmetric] busy_session list_all_iff)

text \<open>C23. Only an owner or admin of a group can add a member, and only somebody new: when \<^verbatim>\<open>addGroupMember\<close>
  answers \<^verbatim>\<open>OK\<close>, the caller was a member with such a role and the user was not a member at the moment
  of the check, and the row added gives the plain role of a member.\<close>

theorem add_member_needs_role:
  assumes "w_inv cfg w" "run_state (addGroupMember (group_service cfg string_hash) conn req) w = (res, w')"
    and "agr_code res = OK"
  shows "\<exists>s w1 actor. GetSession conn (w_sessions w) = Some s \<and> cs_authenticated s \<and> w_later w w1 \<and>
    actor \<in> members_in (ag_group_id req) (w_db w1) \<and> gm_user_id actor = cs_user_id s \<and>
    RoleCanManageMembers (gm_role actor) \<and>
    ag_user_id req \<notin> gm_user_id ` members_in (ag_group_id req) (w_db w1) \<and>
    member_added (new_member req) (w_db w1) (w_db w') \<and> gm_role (new_member req) = ''member''"
proof -
  have session: "GetSession conn (w_sessions w) = w_sess w conn"
    using world_sessions.get_session [of conn w] by (simp add: session_manager_def)
  have "groups.member_admitted cfg conn req w res w'"
    using groups.addGroupMember_wp [OF assms(1)] assms(2) by (rule wpD)
  then show ?thesis
    using assms(3) unfolding groups.member_admitted_def session by (simp add: new_member_def) blast
qed

theorem add_member_needs_role_witness:
  "\<exists>w1. w_later busy_world w1 \<and> member_added (new_member add_request) (w_db w1) (w_db (snd sample_add))"
  using add_member_needs_role [OF busy_world_inv [of default_RedisConfig], of "\<lambda>_. 0" 10 add_request
      "fst sample_add" "snd sample_add"] sample_add_ok
  by (auto simp: sample_add_def [symmetric])

end
